(* ===== verification/Prelude.thy ===== *)
theory Prelude
  imports Main "HOL-Library.AList" "HOL-Library.Multiset" "HOL-Library.List_Lexorder"
    "HOL-Library.Char_ord"
begin

text \<open>
  Shared vocabulary of the development, none of it specific to GoalRouter:
  \<^item> \<open>rbind\<close> and \<open>rmap\<close>: sequencing of computations that may raise, an exception being
    the \<open>Inl\<close> side of a sum;
  \<^item> \<open>io\<close>: computations that also change a world, whose changes survive a raise (as the
    side effects of a Python coroutine do);
  \<^item> \<open>dict\<close>: a Python dictionary as an association list in insertion order;
  \<^item> the collections \<open>result_simps\<close>, \<open>io_simps\<close> and \<open>dict_simps\<close> that the
    component proofs pass to the simplifier.
\<close>

named_theorems result_simps
named_theorems io_simps
named_theorems dict_simps

section \<open>Results\<close>

definition rbind :: "'e + 'a \<Rightarrow> ('a \<Rightarrow> 'e + 'b) \<Rightarrow> 'e + 'b" where
  "rbind m f = (case m of Inl e \<Rightarrow> Inl e | Inr a \<Rightarrow> f a)"

lemma rbind_simps [simp, result_simps]:
  "rbind (Inl e) f = Inl e"
  "rbind (Inr a) f = f a"
  by (simp_all add: rbind_def)

lemma rbind_cong [fundef_cong]:
  assumes "m = m'" and "\<And>a. m' = Inr a \<Longrightarrow> f a = g a"
  shows "rbind m f = rbind m' g"
  using assms by (cases m') simp_all

lemma rbind_eq_Inr_iff [result_simps]:
  "rbind m f = Inr b \<longleftrightarrow> (\<exists>a. m = Inr a \<and> f a = Inr b)"
  by (cases m) simp_all

lemma rbind_eq_Inl_iff:
  "rbind m f = Inl e \<longleftrightarrow> m = Inl e \<or> (\<exists>a. m = Inr a \<and> f a = Inl e)"
  by (cases m) simp_all

lemma rbind_Inr_E:
  assumes "rbind m f = Inr b"
  obtains a where "m = Inr a" and "f a = Inr b"
  using assms by (cases m) simp_all

text \<open>A comprehension whose body may raise: elements in order, the first raise wins.\<close>

fun rmap :: "('a \<Rightarrow> 'e + 'b) \<Rightarrow> 'a list \<Rightarrow> 'e + 'b list" where
  "rmap f [] = Inr []"
| "rmap f (x # xs) = rbind (f x) (\<lambda>y. rbind (rmap f xs) (\<lambda>ys. Inr (y # ys)))"

lemma rmap_cong [fundef_cong]:
  assumes "xs = ys" and "\<And>x. x \<in> set ys \<Longrightarrow> f x = g x"
  shows "rmap f xs = rmap g ys"
  unfolding assms(1) using assms(2) by (induction ys) simp_all

lemma rmap_Inr_iff: "rmap f xs = Inr ys \<longleftrightarrow> list_all2 (\<lambda>x y. f x = Inr y) xs ys"
  by (induction xs arbitrary: ys) (auto simp: result_simps list_all2_Cons1)

lemma rmap_all_Inr:
  assumes "\<And>x. x \<in> set xs \<Longrightarrow> f x = Inr (g x)"
  shows "rmap f xs = Inr (map g xs)"
  using assms by (induction xs) simp_all

lemma rmap_map: "rmap f (map g xs) = rmap (\<lambda>x. f (g x)) xs"
  by (induction xs) simp_all

lemma rmap_length: "rmap f xs = Inr ys \<Longrightarrow> length ys = length xs"
  by (auto simp: rmap_Inr_iff list_all2_lengthD)

lemma rmap_set:
  assumes "rmap f xs = Inr ys" and "y \<in> set ys"
  shows "\<exists>x \<in> set xs. f x = Inr y"
  using assms
proof (induction xs arbitrary: ys)
  case Nil
  then show ?case by simp
next
  case (Cons x xs)
  then show ?case by (auto simp: result_simps)
qed

lemma rmap_InrD: "rmap f xs = Inr ys \<Longrightarrow> x \<in> set xs \<Longrightarrow> \<exists>y. f x = Inr y"
  by (induction xs arbitrary: ys) (auto simp: result_simps)

section \<open>Computations over a world\<close>

type_synonym ('e, 'w, 'a) io = "'w \<Rightarrow> ('e + 'a) \<times> 'w"

definition io_return :: "'a \<Rightarrow> ('e, 'w, 'a) io" where
  "io_return a = (\<lambda>w. (Inr a, w))"

definition io_raise :: "'e \<Rightarrow> ('e, 'w, 'a) io" where
  "io_raise e = (\<lambda>w. (Inl e, w))"

definition io_lift :: "'e + 'a \<Rightarrow> ('e, 'w, 'a) io" where
  "io_lift r = (\<lambda>w. (r, w))"

definition io_bind :: "('e, 'w, 'a) io \<Rightarrow> ('a \<Rightarrow> ('e, 'w, 'b) io) \<Rightarrow> ('e, 'w, 'b) io" where
  "io_bind m f = (\<lambda>w. case m w of (Inl e, w') \<Rightarrow> (Inl e, w') | (Inr a, w') \<Rightarrow> f a w')"

text \<open>
  \<open>io_map_error\<close> is an \<open>except \<dots> as e: raise g(e)\<close> clause; \<open>io_finally\<close> is
  \<open>try: body finally: cleanup\<close>, where a raise of the cleanup replaces the outcome of a body
  that returned, and a raise of the body is kept (the code only attaches notes to it).
\<close>

definition io_map_error :: "('e \<Rightarrow> 'e) \<Rightarrow> ('e, 'w, 'a) io \<Rightarrow> ('e, 'w, 'a) io" where
  "io_map_error g m = (\<lambda>w. case m w of (Inl e, w') \<Rightarrow> (Inl (g e), w') | (Inr a, w') \<Rightarrow> (Inr a, w'))"

definition io_finally :: "('e, 'w, 'a) io \<Rightarrow> ('e, 'w, unit) io \<Rightarrow> ('e, 'w, 'a) io" where
  "io_finally m c = (\<lambda>w. case m w of
      (Inl e, w') \<Rightarrow> (Inl e, snd (c w'))
    | (Inr a, w') \<Rightarrow> (case c w' of (Inl e, w'') \<Rightarrow> (Inl e, w'') | (Inr _, w'') \<Rightarrow> (Inr a, w'')))"

text \<open>\<open>except \<dots> as e\<close> with a handler that returns or raises.\<close>

definition io_except :: "('e, 'w, 'a) io \<Rightarrow> ('e \<Rightarrow> ('e, 'w, 'a) io) \<Rightarrow> ('e, 'w, 'a) io" where
  "io_except m h = (\<lambda>w. case m w of (Inl e, v) \<Rightarrow> h e v | (Inr a, v) \<Rightarrow> (Inr a, v))"

text \<open>A step that leaves the local variables \<open>l\<close> of a function alone.\<close>

definition io_inner :: "('e, 'w, 'a) io \<Rightarrow> ('e, 'l \<times> 'w, 'a) io" where
  "io_inner m = (\<lambda>(l, w). case m w of (r, v) \<Rightarrow> (r, (l, v)))"

lemma io_return_apply [simp, io_simps]: "io_return a w = (Inr a, w)"
  by (simp add: io_return_def)

lemma io_raise_apply [simp, io_simps]: "io_raise e w = (Inl e, w)"
  by (simp add: io_raise_def)

lemma io_lift_apply [simp, io_simps]: "io_lift r w = (r, w)"
  by (simp add: io_lift_def)

lemma io_bind_simps:
  "m w = (Inl e, w') \<Longrightarrow> io_bind m f w = (Inl e, w')"
  "m w = (Inr a, w') \<Longrightarrow> io_bind m f w = f a w'"
  by (simp_all add: io_bind_def)

lemma io_bind_return [simp, io_simps]:
  "io_bind (io_return a) f = f a"
  by (simp add: io_bind_def fun_eq_iff)

lemma io_bind_raise [simp, io_simps]:
  "io_bind (io_raise e) f = io_raise e"
  by (simp add: io_bind_def fun_eq_iff)

lemma io_bind_cong [fundef_cong]:
  assumes "m = m'" and "w = w'" and "\<And>a v. m' w' = (Inr a, v) \<Longrightarrow> f a v = g a v"
  shows "io_bind m f w = io_bind m' g w'"
  using assms by (auto simp: io_bind_def split: prod.splits sum.splits)

lemma io_bind_Inr_iff [io_simps]:
  "io_bind m f w = (Inr b, w') \<longleftrightarrow> (\<exists>a v. m w = (Inr a, v) \<and> f a v = (Inr b, w'))"
  by (auto simp: io_bind_def split: prod.splits sum.splits)

lemma io_bind_Inr_E:
  assumes "io_bind m f w = (Inr b, w')"
  obtains a v where "m w = (Inr a, v)" and "f a v = (Inr b, w')"
  using assms by (auto simp: io_bind_Inr_iff)

lemma io_map_error_Inr_iff [io_simps]:
  "io_map_error g m w = (Inr a, w') \<longleftrightarrow> m w = (Inr a, w')"
  by (auto simp: io_map_error_def split: prod.splits sum.splits)

lemma io_map_error_snd [simp]: "snd (io_map_error g m w) = snd (m w)"
  by (auto simp: io_map_error_def split: prod.splits sum.splits)

lemma io_finally_Inr_iff [io_simps]:
  "io_finally m c w = (Inr a, w') \<longleftrightarrow> (\<exists>v. m w = (Inr a, v) \<and> c v = (Inr (), w'))"
  by (auto simp: io_finally_def split: prod.splits sum.splits)

text \<open>
  The rule behind every statement "whatever happens, the world stays good": a predicate of
  worlds that each step keeps is kept by the sequence, raise or not.
\<close>

definition io_keeps :: "('w \<Rightarrow> bool) \<Rightarrow> ('e, 'w, 'a) io \<Rightarrow> bool" where
  "io_keeps I m \<longleftrightarrow> (\<forall>w. I w \<longrightarrow> I (snd (m w)))"

lemma io_keepsD: "io_keeps I m \<Longrightarrow> I w \<Longrightarrow> I (snd (m w))"
  by (simp add: io_keeps_def)

lemma io_keeps_return [intro, simp]: "io_keeps I (io_return a)"
  and io_keeps_raise [intro, simp]: "io_keeps I (io_raise e)"
  and io_keeps_lift [intro, simp]: "io_keeps I (io_lift r)"
  by (simp_all add: io_keeps_def)

lemma io_keeps_bind [intro]:
  assumes "io_keeps I m" and "\<And>a. io_keeps I (f a)"
  shows "io_keeps I (io_bind m f)"
  unfolding io_keeps_def
proof (intro allI impI)
  fix w assume "I w"
  with assms(1) have "I (snd (m w))" by (rule io_keepsD)
  then show "I (snd (io_bind m f w))"
    using assms(2) by (auto simp: io_bind_def io_keeps_def split: prod.splits sum.splits)
qed

lemma io_keeps_map_error [intro]: "io_keeps I m \<Longrightarrow> io_keeps I (io_map_error g m)"
  by (simp add: io_keeps_def)

lemma io_keeps_finally [intro]:
  assumes "io_keeps I m" and "io_keeps I c"
  shows "io_keeps I (io_finally m c)"
  unfolding io_keeps_def
proof (intro allI impI)
  fix w assume "I w"
  with assms(1) have "I (snd (m w))" by (rule io_keepsD)
  with assms(2) have "I (snd (c (snd (m w))))" by (rule io_keepsD)
  then show "I (snd (io_finally m c w))"
    by (auto simp: io_finally_def split: prod.splits sum.splits)
qed

text \<open>
  Total correctness of a computation with a precondition, a postcondition for a return and one
  for a raise.
\<close>

definition io_spec ::
  "('w \<Rightarrow> bool) \<Rightarrow> ('e, 'w, 'a) io \<Rightarrow> ('a \<Rightarrow> 'w \<Rightarrow> bool) \<Rightarrow> ('w \<Rightarrow> bool) \<Rightarrow> bool" where
  "io_spec P m Q E \<longleftrightarrow>
     (\<forall>w w'. P w \<longrightarrow> (\<forall>a. m w = (Inr a, w') \<longrightarrow> Q a w') \<and> (\<forall>e. m w = (Inl e, w') \<longrightarrow> E w'))"

lemma io_specI:
  assumes "\<And>w a w'. P w \<Longrightarrow> m w = (Inr a, w') \<Longrightarrow> Q a w'"
    and "\<And>w e w'. P w \<Longrightarrow> m w = (Inl e, w') \<Longrightarrow> E w'"
  shows "io_spec P m Q E"
  unfolding io_spec_def using assms by blast

lemma io_spec_Inr: "io_spec P m Q E \<Longrightarrow> P w \<Longrightarrow> m w = (Inr a, w') \<Longrightarrow> Q a w'"
  and io_spec_Inl: "io_spec P m Q E \<Longrightarrow> P w \<Longrightarrow> m w = (Inl e, w') \<Longrightarrow> E w'"
  unfolding io_spec_def by blast+

lemma io_spec_snd:
  assumes "io_spec P m (\<lambda>_. E) E" and "P w" and "m w = (r, w')"
  shows "E w'"
  using assms by (cases r) (blast dest: io_spec_Inl io_spec_Inr)+

lemma io_spec_return: "(\<And>w. P w \<Longrightarrow> Q a w) \<Longrightarrow> io_spec P (io_return a) Q E"
  and io_spec_raise: "(\<And>w. P w \<Longrightarrow> E w) \<Longrightarrow> io_spec P (io_raise e) Q E"
  by (simp_all add: io_spec_def)

lemma io_spec_bind:
  assumes "io_spec P m R E" and "\<And>a. io_spec (R a) (f a) Q E"
  shows "io_spec P (io_bind m f) Q E"
proof (rule io_specI)
  fix w a w' assume w: "P w" and "io_bind m f w = (Inr a, w')"
  then obtain b v where m: "m w = (Inr b, v)" and f: "f b v = (Inr a, w')"
    by (auto simp: io_bind_Inr_iff)
  from io_spec_Inr [OF assms(1) w m] f show "Q a w'" by (rule io_spec_Inr [OF assms(2)])
next
  fix w e w' assume w: "P w" and b: "io_bind m f w = (Inl e, w')"
  obtain r v where m: "m w = (r, v)" by fastforce
  show "E w'"
  proof (cases r)
    case (Inl x)
    then show ?thesis using b m io_spec_Inl [OF assms(1) w, of x v] by (simp add: io_bind_def)
  next
    case (Inr x)
    then have "f x v = (Inl e, w')" using b m by (simp add: io_bind_def)
    moreover have "R x v" using Inr m io_spec_Inr [OF assms(1) w] by blast
    ultimately show ?thesis by (blast dest: io_spec_Inl [OF assms(2)])
  qed
qed

lemma io_spec_weaken:
  assumes "io_spec P m Q E" and "\<And>w. P' w \<Longrightarrow> P w" and "\<And>a w. Q a w \<Longrightarrow> Q' a w"
    and "\<And>w. E w \<Longrightarrow> E' w"
  shows "io_spec P' m Q' E'"
proof (rule io_specI)
  fix w a w' assume "P' w" and "m w = (Inr a, w')"
  then show "Q' a w'" by (intro assms(3) io_spec_Inr [OF assms(1)] assms(2))
next
  fix w e w' assume "P' w" and "m w = (Inl e, w')"
  then show "E' w'" by (intro assms(4) io_spec_Inl [OF assms(1)] assms(2))
qed

lemma io_spec_finally:
  assumes "io_spec P m R F" and "\<And>a. io_spec (R a) c (\<lambda>_. Q a) E" and "io_spec F c (\<lambda>_. E) E"
  shows "io_spec P (io_finally m c) Q E"
proof (rule io_specI)
  fix w a w' assume w: "P w" and "io_finally m c w = (Inr a, w')"
  then obtain v where m: "m w = (Inr a, v)" and c: "c v = (Inr (), w')"
    by (auto simp: io_finally_Inr_iff)
  from io_spec_Inr [OF assms(1) w m] c show "Q a w'" by (rule io_spec_Inr [OF assms(2)])
next
  fix w e w' assume w: "P w" and b: "io_finally m c w = (Inl e, w')"
  obtain r v where m: "m w = (r, v)" by fastforce
  obtain rc v' where c: "c v = (rc, v')" by fastforce
  show "E w'"
  proof (cases r)
    case (Inl x)
    then have "w' = v'" using b m c by (simp add: io_finally_def)
    moreover have "F v" using Inl m io_spec_Inl [OF assms(1) w] by blast
    ultimately show ?thesis using c io_spec_snd [OF assms(3)] by blast
  next
    case (Inr x)
    then have "c v = (Inl e, w')" using b m c by (cases rc) (auto simp: io_finally_def)
    moreover have "R x v" using Inr m io_spec_Inr [OF assms(1) w] by blast
    ultimately show ?thesis by (blast dest: io_spec_Inl [OF assms(2)])
  qed
qed

lemma io_spec_pre:
  assumes "\<And>v. P v \<Longrightarrow> io_spec (\<lambda>w. w = v) m Q E"
  shows "io_spec P m Q E"
proof (rule io_specI)
  fix w a w' assume "P w" and "m w = (Inr a, w')"
  then show "Q a w'" by (intro io_spec_Inr [OF assms]) auto
next
  fix w e w' assume "P w" and "m w = (Inl e, w')"
  then show "E w'" by (intro io_spec_Inl [OF assms]) auto
qed

section \<open>Dictionaries\<close>

text \<open>
  A Python \<open>dict\<close> keeps insertion order: a new key goes to the end, an assignment to a
  present key keeps its place. That is \<open>AList.update\<close>. \<open>map_of\<close> is \<open>d.get\<close>, and
  \<open>sorted_items\<close> is \<open>sorted(d.items())\<close> (keys are distinct, so values are never
  compared).
\<close>

type_synonym 'v dict = "(string \<times> 'v) list"

abbreviation dset :: "'v dict \<Rightarrow> string \<Rightarrow> 'v \<Rightarrow> 'v dict" where
  "dset d k v \<equiv> AList.update k v d"

abbreviation dkeys :: "'v dict \<Rightarrow> string list" where
  "dkeys d \<equiv> map fst d"

definition dict_ok :: "'v dict \<Rightarrow> bool" where
  "dict_ok d \<longleftrightarrow> distinct (dkeys d)"

definition sorted_items :: "'v dict \<Rightarrow> 'v dict" where
  "sorted_items d = sort_key fst d"

definition sorted_keys :: "'v dict \<Rightarrow> string list" where
  "sorted_keys d = sort (dkeys d)"

text \<open>\<open>dict(pairs)\<close> and dict comprehensions: later pairs overwrite earlier ones.\<close>

definition dict_of :: "(string \<times> 'v) list \<Rightarrow> 'v dict" where
  "dict_of ps = foldl (\<lambda>d (k, v). dset d k v) [] ps"

lemma map_of_dset [simp, dict_simps]: "map_of (dset d k v) = (map_of d)(k \<mapsto> v)"
  by (rule ext) (simp add: update_conv)

lemma dict_ok_Nil [simp, intro]: "dict_ok []"
  by (simp add: dict_ok_def)

lemma dict_ok_dset [simp, intro]: "dict_ok d \<Longrightarrow> dict_ok (dset d k v)"
  by (simp add: dict_ok_def distinct_update)

lemma dkeys_dset: "dkeys (dset d k v) = (if k \<in> set (dkeys d) then dkeys d else dkeys d @ [k])"
  by (rule update_keys)

lemma set_dkeys_dset [simp]: "set (dkeys (dset d k v)) = insert k (set (dkeys d))"
  by (auto simp: dkeys_dset)

lemma length_dset:
  "length (dset d k v) = (if k \<in> set (dkeys d) then length d else Suc (length d))"
proof -
  have "length (dset d k v) = length (dkeys (dset d k v))" by simp
  then show ?thesis by (simp only: dkeys_dset) simp
qed

lemma map_of_mem_iff: "dict_ok d \<Longrightarrow> map_of d k = Some v \<longleftrightarrow> (k, v) \<in> set d"
  by (simp add: dict_ok_def)

lemma map_of_None_iff: "map_of d k = None \<longleftrightarrow> k \<notin> set (dkeys d)"
  by (simp add: map_of_eq_None_iff)

lemma map_of_Some_key: "map_of d k = Some v \<Longrightarrow> k \<in> set (dkeys d)"
  by (force dest: map_of_SomeD)

lemma dset_keeps_other: "k' \<noteq> k \<Longrightarrow> map_of (dset d k v) k' = map_of d k'"
  by simp

lemma dict_of_aux:
  assumes "distinct (map fst ps)" and "set (map fst ps) \<inter> set (dkeys d) = {}"
  shows "foldl (\<lambda>d (k, v). dset d k v) d ps = d @ ps"
  using assms
proof (induction ps arbitrary: d)
  case Nil
  then show ?case by simp
next
  case (Cons p ps)
  obtain k v where p: "p = (k, v)" by fastforce
  from Cons.prems p have "k \<notin> set (dkeys d)" by auto
  then have upd: "dset d k v = d @ [(k, v)]" by (induction d) auto
  have "foldl (\<lambda>d (k, v). dset d k v) (d @ [(k, v)]) ps = (d @ [(k, v)]) @ ps"
    by (rule Cons.IH) (use Cons.prems p in auto)
  then show ?case by (simp add: p upd)
qed

lemma dict_of_distinct: "distinct (map fst ps) \<Longrightarrow> dict_of ps = ps"
  using dict_of_aux [of ps "[]"] by (simp add: dict_of_def)

lemma foldl_dset_ok: "dict_ok d \<Longrightarrow> dict_ok (foldl (\<lambda>d (k, v). dset d k v) d ps)"
  by (induction ps arbitrary: d) (auto split: prod.splits)

lemma dict_of_ok [simp, intro]: "dict_ok (dict_of ps)"
  by (simp add: dict_of_def foldl_dset_ok)

lemma sorted_items_set [simp]: "set (sorted_items d) = set d"
  by (simp add: sorted_items_def)

lemma sorted_items_mset: "mset (sorted_items d) = mset d"
  by (simp add: sorted_items_def)

lemma sorted_items_ok [simp]: "dict_ok (sorted_items d) \<longleftrightarrow> dict_ok d"
proof -
  have "mset (map fst (sorted_items d)) = mset (map fst d)"
    by (simp add: sorted_items_mset)
  then show ?thesis
    unfolding dict_ok_def by (metis mset_eq_imp_distinct_iff)
qed

lemma sorted_items_map_of [dict_simps]:
  assumes "dict_ok d"
  shows "map_of (sorted_items d) = map_of d"
proof (rule map_of_inject_set [THEN iffD2])
  show "distinct (map fst (sorted_items d))" and "distinct (map fst d)"
    using assms by (simp_all add: dict_ok_def [symmetric])
qed simp

lemma sorted_items_sorted: "sorted (dkeys (sorted_items d))"
  by (simp add: sorted_items_def)

lemma sorted_items_idem: "sorted (dkeys d) \<Longrightarrow> sorted_items d = d"
  by (simp add: sorted_items_def sorted_sort_id sort_key_id_if_sorted)

lemma sorted_keys_set [simp]: "set (sorted_keys d) = set (dkeys d)"
  by (simp add: sorted_keys_def)

lemma sorted_keys_distinct [simp]: "distinct (sorted_keys d) \<longleftrightarrow> dict_ok d"
  by (simp add: sorted_keys_def dict_ok_def)

lemma sorted_keys_length [simp]: "length (sorted_keys d) = length d"
  by (simp add: sorted_keys_def)

end
