(* ===== verification/Py_Text.thy ===== *)
theory Py_Text
  imports Prelude
begin

text \<open>
  The string operations of Python's standard library that the program uses. A Python string
  is a list of code points; here the alphabet is Latin-1, one \<open>char\<close> per code point
  0 to 255, so \<open>length\<close>, comparison and slicing count code points as Python does. Within
  that alphabet the functions below agree with Python, except that \<open>casefold\<close> leaves the
  micro sign U+00B5 alone (its fold, U+03BC, is outside the alphabet).
\<close>

named_theorems text_simps

section \<open>Characters\<close>

abbreviation ord :: "char \<Rightarrow> nat" where
  "ord c \<equiv> of_char c"

definition is_digit :: "char \<Rightarrow> bool" where
  "is_digit c \<longleftrightarrow> 48 \<le> ord c \<and> ord c \<le> 57"

definition digit_char :: "nat \<Rightarrow> char" where
  "digit_char n = char_of (48 + n)"

definition digit_val :: "char \<Rightarrow> nat" where
  "digit_val c = ord c - 48"

text \<open>\<open>str.isspace\<close> on Latin-1.\<close>

definition is_space :: "char \<Rightarrow> bool" where
  "is_space c \<longleftrightarrow> (9 \<le> ord c \<and> ord c \<le> 13) \<or> (28 \<le> ord c \<and> ord c \<le> 32)
     \<or> ord c = 133 \<or> ord c = 160"

definition casefold_char :: "char \<Rightarrow> string" where
  "casefold_char c =
     (if (65 \<le> ord c \<and> ord c \<le> 90) \<or> (192 \<le> ord c \<and> ord c \<le> 222 \<and> ord c \<noteq> 215)
        then [char_of (ord c + 32)]
      else if ord c = 223 then ''ss'' else [c])"

definition casefold :: "string \<Rightarrow> string" where
  "casefold s = concat (map casefold_char s)"

lemma casefold_Nil [simp]: "casefold [] = []"
  and casefold_Cons: "casefold (c # s) = casefold_char c @ casefold s"
  and casefold_append: "casefold (s @ t) = casefold s @ casefold t"
  by (simp_all add: casefold_def)

section \<open>Searching and trimming\<close>

definition starts_with :: "string \<Rightarrow> string \<Rightarrow> bool" where
  "starts_with p s \<longleftrightarrow> take (length p) s = p"

fun occurs_in :: "string \<Rightarrow> string \<Rightarrow> bool" where
  "occurs_in p [] \<longleftrightarrow> p = []"
| "occurs_in p (c # s) \<longleftrightarrow> starts_with p (c # s) \<or> occurs_in p s"

lemma starts_with_iff: "starts_with p s \<longleftrightarrow> (\<exists>t. s = p @ t)"
  unfolding starts_with_def by (metis append_eq_conv_conj append_take_drop_id)

lemma occurs_in_iff: "occurs_in p s \<longleftrightarrow> (\<exists>t u. s = t @ p @ u)"
proof (induction s)
  case Nil
  then show ?case by auto
next
  case (Cons c s)
  show ?case
  proof
    assume "occurs_in p (c # s)"
    then consider "starts_with p (c # s)" | "occurs_in p s" by auto
    then show "\<exists>t u. c # s = t @ p @ u"
    proof cases
      case 1
      then show ?thesis by (metis append_Nil starts_with_iff)
    next
      case 2
      then show ?thesis using Cons.IH by (metis append_Cons)
    qed
  next
    assume "\<exists>t u. c # s = t @ p @ u"
    then obtain t u where tu: "c # s = t @ p @ u" by blast
    show "occurs_in p (c # s)"
    proof (cases t)
      case Nil
      with tu have "starts_with p (c # s)" by (auto simp: starts_with_iff)
      then show ?thesis by simp
    next
      case (Cons d t')
      with tu have "s = t' @ p @ u" by simp
      then show ?thesis using Cons.IH by auto
    qed
  qed
qed

definition py_lstrip :: "string \<Rightarrow> string" where
  "py_lstrip s = dropWhile is_space s"

definition py_rstrip :: "string \<Rightarrow> string" where
  "py_rstrip s = rev (dropWhile is_space (rev s))"

definition py_strip :: "string \<Rightarrow> string" where
  "py_strip s = py_rstrip (py_lstrip s)"

lemma py_strip_eq_Nil_iff: "py_strip s = [] \<longleftrightarrow> (\<forall>c \<in> set s. is_space c)"
proof -
  have "py_strip s = [] \<longleftrightarrow> dropWhile is_space s = []"
  proof
    assume "py_strip s = []"
    then have all: "\<forall>c \<in> set (dropWhile is_space s). is_space c"
      by (simp add: py_strip_def py_rstrip_def py_lstrip_def dropWhile_eq_Nil_conv)
    show "dropWhile is_space s = []"
    proof (rule ccontr)
      assume "dropWhile is_space s \<noteq> []"
      then show False using all hd_dropWhile [of is_space s] by auto
    qed
  next
    assume "dropWhile is_space s = []"
    then show "py_strip s = []"
      by (auto simp: py_strip_def py_rstrip_def py_lstrip_def dropWhile_eq_Nil_conv
          dest: set_dropWhileD)
  qed
  then show ?thesis by (simp add: dropWhile_eq_Nil_conv)
qed

fun py_join :: "string \<Rightarrow> string list \<Rightarrow> string" where
  "py_join sep [] = []"
| "py_join sep [x] = x"
| "py_join sep (x # y # xs) = x @ sep @ py_join sep (y # xs)"

text \<open>\<open>s or alternative\<close>, and the newline.\<close>

definition or_else :: "string \<Rightarrow> string \<Rightarrow> string" where
  "or_else s alternative = (if s = [] then alternative else s)"

definition nl :: string where
  "nl = [CHR 10]"

text \<open>\<open>s.split(c)\<close> for a one-character separator: always at least one piece.\<close>

fun split_on :: "char \<Rightarrow> string \<Rightarrow> string list" where
  "split_on c [] = [[]]"
| "split_on c (d # s) =
     (if d = c then [] # split_on c s
      else (case split_on c s of [] \<Rightarrow> [[d]] | p # ps \<Rightarrow> (d # p) # ps))"

lemma split_on_not_Nil [simp]: "split_on c s \<noteq> []"
  by (cases s) (auto split: list.splits)

lemma split_on_pieces: "p \<in> set (split_on c s) \<Longrightarrow> c \<notin> set p"
  by (induction s arbitrary: p) (auto split: list.splits if_splits)

lemma split_on_free: "c \<notin> set s \<Longrightarrow> split_on c s = [s]"
  by (induction s) auto

lemma split_on_append: "c \<notin> set p \<Longrightarrow> split_on c (p @ c # s) = p # split_on c s"
  by (induction p) auto

lemma split_on_join:
  assumes "xs \<noteq> []" and "\<And>x. x \<in> set xs \<Longrightarrow> c \<notin> set x"
  shows "split_on c (py_join [c] xs) = xs"
  using assms
proof (induction "[c]" xs rule: py_join.induct)
  case 1
  then show ?case by simp
next
  case (2 x)
  then show ?case by (simp add: split_on_free)
next
  case (3 x y xs)
  then show ?case by (simp add: split_on_append)
qed

lemma py_join_split_on: "py_join [c] (split_on c s) = s"
proof (induction s)
  case Nil
  then show ?case by simp
next
  case (Cons d s)
  obtain p ps where ps: "split_on c s = p # ps" by (cases "split_on c s") auto
  with Cons.IH have "py_join [c] (p # ps) = s" by simp
  then show ?case by (cases ps) (auto simp: ps)
qed

section \<open>Decimal numerals\<close>

fun digits_of :: "nat \<Rightarrow> string" where
  "digits_of n =
     (if n < 10 then [digit_char n] else digits_of (n div 10) @ [digit_char (n mod 10)])"

declare digits_of.simps [simp del]

definition nat_of_digits :: "string \<Rightarrow> nat" where
  "nat_of_digits s = foldl (\<lambda>a c. 10 * a + digit_val c) 0 s"

definition str_of_int :: "int \<Rightarrow> string" where
  "str_of_int i = (if i < 0 then CHR ''-'' # digits_of (nat (- i)) else digits_of (nat i))"

lemma ord_digit_char: "n < 10 \<Longrightarrow> ord (digit_char n) = 48 + n"
  by (simp add: digit_char_def)

lemma digit_char_simps [simp, text_simps]:
  assumes "n < 10"
  shows "is_digit (digit_char n)" and "digit_val (digit_char n) = n"
  using assms by (simp_all add: is_digit_def digit_val_def ord_digit_char)

lemma digit_char_val: "is_digit c \<Longrightarrow> digit_char (digit_val c) = c"
  by (simp add: is_digit_def digit_char_def digit_val_def)

lemma digit_val_less: "is_digit c \<Longrightarrow> digit_val c < 10"
  unfolding is_digit_def digit_val_def by arith

lemma digit_char_inject: "m < 10 \<Longrightarrow> n < 10 \<Longrightarrow> digit_char m = digit_char n \<longleftrightarrow> m = n"
  by (metis digit_char_simps(2))

lemma digit_char_0: "digit_char 0 = CHR ''0''"
  by code_simp

lemma nat_of_digits_append:
  "nat_of_digits (s @ t) = foldl (\<lambda>a c. 10 * a + digit_val c) (nat_of_digits s) t"
  by (simp add: nat_of_digits_def)

lemma nat_of_digits_snoc [simp]: "nat_of_digits (s @ [c]) = 10 * nat_of_digits s + digit_val c"
  by (simp add: nat_of_digits_append)

lemma nat_of_digits_Nil [simp]: "nat_of_digits [] = 0"
  by (simp add: nat_of_digits_def)

lemma nat_of_digits_digits_of [simp, text_simps]: "nat_of_digits (digits_of n) = n"
proof (induction n rule: digits_of.induct)
  case (1 n)
  show ?case
  proof (cases "n < 10")
    case True
    then show ?thesis by (simp add: digits_of.simps [of n] nat_of_digits_def)
  next
    case False
    with 1 have "nat_of_digits (digits_of (n div 10)) = n div 10" by simp
    with False show ?thesis by (simp add: digits_of.simps [of n])
  qed
qed

lemma digits_of_all_digits [simp]: "list_all is_digit (digits_of n)"
proof (induction n rule: digits_of.induct)
  case (1 n)
  show ?case
  proof (cases "n < 10")
    case False
    with 1 show ?thesis by (simp add: digits_of.simps [of n])
  qed (simp add: digits_of.simps [of n])
qed

lemma digits_of_not_Nil [simp]: "digits_of n \<noteq> []"
  by (simp add: digits_of.simps [of n])

lemma digits_of_hd_zero: "hd (digits_of n) = CHR ''0'' \<longleftrightarrow> n = 0"
proof (induction n rule: digits_of.induct)
  case (1 n)
  show ?case
  proof (cases "n < 10")
    case True
    then have "digit_char n = CHR ''0'' \<longleftrightarrow> n = 0"
      using digit_char_inject [of n 0] by (simp add: digit_char_0)
    with True show ?thesis by (simp add: digits_of.simps [of n])
  next
    case False
    with 1 show ?thesis by (simp add: digits_of.simps [of n] div_eq_0_iff)
  qed
qed

lemma str_of_int_not_Nil [simp]: "str_of_int i \<noteq> []"
  by (simp add: str_of_int_def)

lemma digits_of_inject [simp]: "digits_of m = digits_of n \<longleftrightarrow> m = n"
  by (metis nat_of_digits_digits_of)

section \<open>Escapes\<close>

definition hex_char :: "nat \<Rightarrow> char" where
  "hex_char n = (if n < 10 then char_of (48 + n) else char_of (87 + n))"

definition hex2 :: "nat \<Rightarrow> string" where
  "hex2 n = [hex_char (n div 16), hex_char (n mod 16)]"

text \<open>
  \<open>repr(s)\<close>: single quotes unless the string has a single quote and no double quote;
  backslash, the quote, tab, newline and carriage return are escaped, and the code points
  that are not printable become \<open>\xNN\<close>.
\<close>

definition is_printable :: "char \<Rightarrow> bool" where
  "is_printable c \<longleftrightarrow> (32 \<le> ord c \<and> ord c \<le> 126) \<or> (161 \<le> ord c \<and> ord c \<noteq> 173)"

definition repr_char :: "char \<Rightarrow> char \<Rightarrow> string" where
  "repr_char q c =
     (if c = q \<or> c = CHR 92 then [CHR 92, c]
      else if ord c = 9 then CHR 92 # ''t''
      else if ord c = 10 then CHR 92 # ''n''
      else if ord c = 13 then CHR 92 # ''r''
      else if is_printable c then [c]
      else CHR 92 # CHR ''x'' # hex2 (ord c))"

definition py_repr :: "string \<Rightarrow> string" where
  "py_repr s =
     (let q = (if CHR 39 \<in> set s \<and> CHR 34 \<notin> set s then CHR 34 else CHR 39)
      in q # concat (map (repr_char q) s) @ [q])"

end
