(* ===== verification/Errors.thy ===== *)
theory Errors
  imports Py_Text
begin

text \<open>
  The exceptions of \<open>src/goalrouter/errors.py\<close>, with the exit code of each class, and the
  built-in exceptions the modelled code can let out. No code raises the base class \<open>GoalRouterError\<close>
  itself. Every constructor carries \<open>str(error)\<close>.
  \<open>StructuralPlannerOutputError\<close> is the private subclass of \<open>PlannerOutputError\<close> in
  \<open>planner.py\<close>. The second part is \<open>run_ids.py\<close>.
\<close>

section \<open>Exceptions\<close>

datatype exn =
    GoalRouterError string
  | ConfigurationError string
  | UnknownTaskError string
  | ModelUnavailableError string
  | RepositoryError string
  | PlannerOutputError string
  | StructuralPlannerOutputError string
  | ApprovalRequiredError string
  | DependencyBlockedError string
  | SdkError string
  | AuthenticationError string
  | TurnTimeoutError string
  | StateError string
  | ResumeConfigurationChangedError string
  | ProjectBusyError string
  | RunBusyError string
  | PyKeyError string
  | PyIndexError string
  | PyValueError string
  | PyTypeError string
  | PyOverflowError string
  | PyRuntimeError string
  | PyOSError string
  | PyTimeoutError string
  | PyCancelledError string

type_synonym 'a result = "exn + 'a"

type_synonym ('w, 'a) eff = "(exn, 'w, 'a) io"

text \<open>\<open>exit_code\<close>: \<open>None\<close> for an exception that is not a \<open>GoalRouterError\<close>.\<close>

fun exit_code :: "exn \<Rightarrow> int option" where
  "exit_code (GoalRouterError _) = Some 1"
| "exit_code (ConfigurationError _) = Some 2"
| "exit_code (UnknownTaskError _) = Some 3"
| "exit_code (ModelUnavailableError _) = Some 4"
| "exit_code (RepositoryError _) = Some 5"
| "exit_code (PlannerOutputError _) = Some 6"
| "exit_code (StructuralPlannerOutputError _) = Some 6"
| "exit_code (ApprovalRequiredError _) = Some 7"
| "exit_code (DependencyBlockedError _) = Some 8"
| "exit_code (SdkError _) = Some 9"
| "exit_code (AuthenticationError _) = Some 10"
| "exit_code (TurnTimeoutError _) = Some 11"
| "exit_code (StateError _) = Some 12"
| "exit_code (ResumeConfigurationChangedError _) = Some 13"
| "exit_code (ProjectBusyError _) = Some 14"
| "exit_code (RunBusyError _) = Some 15"
| "exit_code _ = None"

definition is_goalrouter_error :: "exn \<Rightarrow> bool" where
  "is_goalrouter_error e \<longleftrightarrow> exit_code e \<noteq> None"

text \<open>\<open>except Exception\<close> does not catch \<open>CancelledError\<close>, a \<open>BaseException\<close>.\<close>

definition is_exception :: "exn \<Rightarrow> bool" where
  "is_exception e \<longleftrightarrow> (case e of PyCancelledError _ \<Rightarrow> False | _ \<Rightarrow> True)"

text \<open>\<open>type(error).__name__\<close> and \<open>str(error)\<close>.\<close>

fun exn_name :: "exn \<Rightarrow> string" where
  "exn_name (GoalRouterError _) = ''GoalRouterError''"
| "exn_name (ConfigurationError _) = ''ConfigurationError''"
| "exn_name (UnknownTaskError _) = ''UnknownTaskError''"
| "exn_name (ModelUnavailableError _) = ''ModelUnavailableError''"
| "exn_name (RepositoryError _) = ''RepositoryError''"
| "exn_name (PlannerOutputError _) = ''PlannerOutputError''"
| "exn_name (StructuralPlannerOutputError _) = ''_StructuralPlannerOutputError''"
| "exn_name (ApprovalRequiredError _) = ''ApprovalRequiredError''"
| "exn_name (DependencyBlockedError _) = ''DependencyBlockedError''"
| "exn_name (SdkError _) = ''SdkError''"
| "exn_name (AuthenticationError _) = ''AuthenticationError''"
| "exn_name (TurnTimeoutError _) = ''TurnTimeoutError''"
| "exn_name (StateError _) = ''StateError''"
| "exn_name (ResumeConfigurationChangedError _) = ''ResumeConfigurationChangedError''"
| "exn_name (ProjectBusyError _) = ''ProjectBusyError''"
| "exn_name (RunBusyError _) = ''RunBusyError''"
| "exn_name (PyKeyError _) = ''KeyError''"
| "exn_name (PyIndexError _) = ''IndexError''"
| "exn_name (PyValueError _) = ''ValueError''"
| "exn_name (PyTypeError _) = ''TypeError''"
| "exn_name (PyOverflowError _) = ''OverflowError''"
| "exn_name (PyRuntimeError _) = ''RuntimeError''"
| "exn_name (PyOSError _) = ''OSError''"
| "exn_name (PyTimeoutError _) = ''TimeoutError''"
| "exn_name (PyCancelledError _) = ''CancelledError''"

primrec exn_str :: "exn \<Rightarrow> string" where
  "exn_str (GoalRouterError m) = m"
| "exn_str (ConfigurationError m) = m"
| "exn_str (UnknownTaskError m) = m"
| "exn_str (ModelUnavailableError m) = m"
| "exn_str (RepositoryError m) = m"
| "exn_str (PlannerOutputError m) = m"
| "exn_str (StructuralPlannerOutputError m) = m"
| "exn_str (ApprovalRequiredError m) = m"
| "exn_str (DependencyBlockedError m) = m"
| "exn_str (SdkError m) = m"
| "exn_str (AuthenticationError m) = m"
| "exn_str (TurnTimeoutError m) = m"
| "exn_str (StateError m) = m"
| "exn_str (ResumeConfigurationChangedError m) = m"
| "exn_str (ProjectBusyError m) = m"
| "exn_str (RunBusyError m) = m"
| "exn_str (PyKeyError m) = m"
| "exn_str (PyIndexError m) = m"
| "exn_str (PyValueError m) = m"
| "exn_str (PyTypeError m) = m"
| "exn_str (PyOverflowError m) = m"
| "exn_str (PyRuntimeError m) = m"
| "exn_str (PyOSError m) = m"
| "exn_str (PyTimeoutError m) = m"
| "exn_str (PyCancelledError m) = m"

section \<open>Run identifiers\<close>

definition is_ascii_alnum :: "char \<Rightarrow> bool" where
  "is_ascii_alnum c \<longleftrightarrow> is_digit c \<or> (65 \<le> ord c \<and> ord c \<le> 90) \<or> (97 \<le> ord c \<and> ord c \<le> 122)"

text \<open>\<open>_RUN_ID.fullmatch\<close> for \<open>[A-Za-z0-9][A-Za-z0-9._-]*\<close>.\<close>

fun run_id_matches :: "string \<Rightarrow> bool" where
  "run_id_matches [] = False"
| "run_id_matches (c # s) \<longleftrightarrow>
     is_ascii_alnum c \<and>
     list_all (\<lambda>d. is_ascii_alnum d \<or> d \<in> {CHR ''.'', CHR ''_'', CHR ''-''}) s"

definition validate_run_id :: "string \<Rightarrow> string result" where
  "validate_run_id run_id =
     (if run_id_matches run_id then Inr run_id
      else Inl (StateError (''Invalid run ID '' @ py_repr run_id)))"

lemma validate_run_id_Inr_iff [result_simps]:
  "validate_run_id r = Inr r' \<longleftrightarrow> r' = r \<and> run_id_matches r"
  by (auto simp: validate_run_id_def)

lemma run_id_matches_safe:
  assumes "run_id_matches r"
  shows "CHR ''/'' \<notin> set r" and "CHR 0x00 \<notin> set r" and "r \<noteq> []" and "hd r \<noteq> CHR ''.''"
proof -
  obtain c s where r: "r = c # s" and c: "is_ascii_alnum c"
    and s: "list_all (\<lambda>d. is_ascii_alnum d \<or> d \<in> {CHR ''.'', CHR ''_'', CHR ''-''}) s"
    using assms by (cases r) auto
  have "\<not> is_ascii_alnum (CHR ''/'')" and "\<not> is_ascii_alnum (CHR 0x00)" and "\<not> is_ascii_alnum (CHR ''.'')"
    by (simp_all add: is_ascii_alnum_def is_digit_def)
  with c s show "CHR ''/'' \<notin> set r" and "CHR 0x00 \<notin> set r" and "hd r \<noteq> CHR ''.''"
    by (auto simp: r list_all_iff)
  show "r \<noteq> []" by (simp add: r)
qed

declare run_id_matches.simps [simp del]

end
