(* ===== verification/Py_Path.thy ===== *)
theory Py_Path
  imports Py_Text
begin

text \<open>
  Pure POSIX paths of \<open>pathlib\<close>: a root (empty, \<open>/\<close> or exactly two slashes) and the parts
  below it. \<open>path_of\<close> is the constructor \<open>Path(text)\<close>, which drops empty parts and
  \<open>.\<close> but keeps \<open>..\<close>; \<open>str_path\<close> is \<open>str(path)\<close> and \<open>as_posix()\<close>.
\<close>

datatype path = Path (path_root: string) (path_parts: "string list")

definition keep_part :: "string \<Rightarrow> bool" where
  "keep_part p \<longleftrightarrow> p \<noteq> [] \<and> p \<noteq> ''.''"

definition root_of :: "string \<Rightarrow> string" where
  "root_of s =
     (if starts_with ''//'' s \<and> \<not> starts_with ''///'' s then ''//''
      else if starts_with ''/'' s then ''/'' else [])"

definition path_of :: "string \<Rightarrow> path" where
  "path_of s = Path (root_of s) (filter keep_part (split_on (CHR ''/'') s))"

definition str_path :: "path \<Rightarrow> string" where
  "str_path p =
     (if path_root p = [] \<and> path_parts p = [] then ''.''
      else path_root p @ py_join ''/'' (path_parts p))"

definition is_absolute :: "path \<Rightarrow> bool" where
  "is_absolute p \<longleftrightarrow> path_root p \<noteq> []"

definition path_join :: "path \<Rightarrow> path \<Rightarrow> path" where
  "path_join p q = (if is_absolute q then q else Path (path_root p) (path_parts p @ path_parts q))"

text \<open>\<open>p.relative_to(base)\<close>; \<open>None\<close> is its \<open>ValueError\<close>.\<close>

definition relative_to :: "path \<Rightarrow> path \<Rightarrow> path option" where
  "relative_to p base =
     (if path_root p = path_root base
         \<and> take (length (path_parts base)) (path_parts p) = path_parts base
      then Some (Path [] (drop (length (path_parts base)) (path_parts p))) else None)"

definition path_ok :: "path \<Rightarrow> bool" where
  "path_ok p \<longleftrightarrow> path_root p \<in> {[], ''/'', ''//''}
     \<and> list_all (\<lambda>x. keep_part x \<and> CHR ''/'' \<notin> set x) (path_parts p)"

lemma path_of_ok [simp, intro]: "path_ok (path_of s)"
  by (auto simp: path_ok_def path_of_def root_of_def list_all_iff dest: split_on_pieces)

lemma path_okD: "path_ok p \<Longrightarrow> x \<in> set (path_parts p) \<Longrightarrow> keep_part x \<and> CHR ''/'' \<notin> set x"
  by (auto simp: path_ok_def list_all_iff)

lemma filter_split_join:
  assumes "list_all (\<lambda>x. keep_part x \<and> CHR ''/'' \<notin> set x) ps"
  shows "filter keep_part (split_on (CHR ''/'') (py_join ''/'' ps)) = ps"
proof (cases "ps = []")
  case True
  then show ?thesis by (simp add: keep_part_def)
next
  case False
  with assms have "split_on (CHR ''/'') (py_join ''/'' ps) = ps"
    by (intro split_on_join) (auto simp: list_all_iff)
  with assms show ?thesis by (simp add: list_all_iff filter_id_conv)
qed

lemma py_join_hd:
  assumes "list_all (\<lambda>x. keep_part x \<and> CHR ''/'' \<notin> set x) ps"
  shows "\<not> starts_with ''/'' (py_join ''/'' ps)"
proof (cases ps)
  case Nil
  then show ?thesis by (simp add: starts_with_def)
next
  case (Cons x xs)
  with assms obtain c x' where x: "x = c # x'" and c: "c \<noteq> CHR ''/''"
    by (cases x) (auto simp: keep_part_def)
  then show ?thesis by (cases xs) (simp_all add: Cons starts_with_def)
qed

text \<open>A path survives being written and read back.\<close>

lemma path_of_str_path [simp]:
  assumes "path_ok p"
  shows "path_of (str_path p) = p"
proof -
  obtain r ps where p: "p = Path r ps" by (cases p)
  let ?j = "py_join ''/'' ps"
  from assms have ps: "list_all (\<lambda>x. keep_part x \<and> CHR ''/'' \<notin> set x) ps"
    by (simp add: p path_ok_def)
  note parts = filter_split_join [OF ps] and nosl = py_join_hd [OF ps]
  from assms consider "r = []" "ps = []" | "r = []" "ps \<noteq> []" | "r = ''/''" | "r = ''//''"
    by (auto simp: p path_ok_def)
  then show ?thesis
  proof cases
    case 1
    then show ?thesis
      by (simp add: p str_path_def path_of_def root_of_def starts_with_def keep_part_def)
  next
    case 2
    have "root_of ?j = []"
      using nosl by (auto simp: root_of_def starts_with_iff)
    with 2 parts show ?thesis by (simp add: p str_path_def path_of_def)
  next
    case 3
    have "root_of (CHR ''/'' # ?j) = ''/''"
      using nosl by (auto simp: root_of_def starts_with_def)
    with 3 parts show ?thesis by (simp add: p str_path_def path_of_def keep_part_def)
  next
    case 4
    have "root_of (CHR ''/'' # CHR ''/'' # ?j) = ''//''"
      using nosl by (auto simp: root_of_def starts_with_def)
    with 4 parts show ?thesis by (simp add: p str_path_def path_of_def keep_part_def)
  qed
qed

lemma str_path_inject: "path_ok p \<Longrightarrow> path_ok q \<Longrightarrow> str_path p = str_path q \<longleftrightarrow> p = q"
  by (metis path_of_str_path)

lemma relative_to_join:
  assumes "relative_to p base = Some q"
  shows "path_join base q = p" and "\<not> is_absolute q"
proof -
  have "path_parts base @ drop (length (path_parts base)) (path_parts p) = path_parts p"
    if "take (length (path_parts base)) (path_parts p) = path_parts base"
    using that by (metis append_take_drop_id)
  with assms show "path_join base q = p" and "\<not> is_absolute q"
    by (cases p; auto simp: relative_to_def path_join_def is_absolute_def split: if_splits)+
qed

end
