(* ===== verification/Py_Float.thy ===== *)
theory Py_Float
  imports Py_Text
begin

text \<open>
  Python floats as the program uses them: read from JSON, kept, and written back. A finite
  float is represented by the shortest decimal that names it, \<open>Fin m e\<close> for
  \<open>m * 10 ^ e\<close> with \<open>m\<close> not a multiple of ten, which is what \<open>repr\<close> prints. Decimals of
  at most 15 significant digits name distinct doubles, so on them (and on every text that
  \<open>repr\<close> writes) the representation is exact; the rounding of longer decimals and of integers
  beyond 2 ^ 53 to the nearest double is not modelled. Overflow is: a magnitude of
  2 ^ 1024 - 2 ^ 970 or more is infinite, and \<open>float(n)\<close> of such an integer raises.
  The sign of zero is not kept.
\<close>

datatype pyfloat = Fin int int | PosInf | NegInf | NaN

function norm_dec :: "int \<Rightarrow> int \<Rightarrow> pyfloat" where
  "norm_dec m e =
     (if m = 0 then Fin 0 0 else if m mod 10 = 0 then norm_dec (m div 10) (e + 1) else Fin m e)"
  by pat_completeness auto
termination
proof (relation "measure (\<lambda>(m, e). nat \<bar>m\<bar>)")
  fix m e :: int
  assume "m \<noteq> 0" "m mod 10 = 0"
  then obtain k where "m = 10 * k" and "k \<noteq> 0" by (auto simp: mod_eq_0_iff_dvd dvd_def)
  then have "\<bar>m div 10\<bar> < \<bar>m\<bar>" by simp
  then show "((m div 10, e + 1), m, e) \<in> measure (\<lambda>(m, e). nat \<bar>m\<bar>)" by simp
qed simp

declare norm_dec.simps [simp del]

definition float_limit :: int where
  "float_limit = 2 ^ 1024 - 2 ^ 970"

definition too_big :: "int \<Rightarrow> int \<Rightarrow> bool" where
  "too_big m e \<longleftrightarrow> (if 0 \<le> e then float_limit \<le> \<bar>m\<bar> * 10 ^ nat e
                   else float_limit * 10 ^ nat (- e) \<le> \<bar>m\<bar>)"

text \<open>Half the smallest subnormal, 2 ^ -1075, and less rounds to zero.\<close>

definition too_small :: "int \<Rightarrow> int \<Rightarrow> bool" where
  "too_small m e \<longleftrightarrow> e < 0 \<and> \<bar>m\<bar> * 2 ^ 1075 \<le> 10 ^ nat (- e)"

fun clip :: "pyfloat \<Rightarrow> pyfloat" where
  "clip (Fin m e) =
     (if too_big m e then (if 0 < m then PosInf else NegInf)
      else if too_small m e then Fin 0 0 else Fin m e)"
| "clip f = f"

definition float_of_decimal :: "int \<Rightarrow> int \<Rightarrow> pyfloat" where
  "float_of_decimal m e = clip (norm_dec m e)"

text \<open>\<open>float(n)\<close>; \<open>None\<close> is \<open>OverflowError\<close>.\<close>

definition float_of_int :: "int \<Rightarrow> pyfloat option" where
  "float_of_int n = (if float_limit \<le> \<bar>n\<bar> then None else Some (norm_dec n 0))"

fun float_ok :: "pyfloat \<Rightarrow> bool" where
  "float_ok (Fin m e) \<longleftrightarrow>
     (m = 0 \<and> e = 0) \<or> (m mod 10 \<noteq> 0 \<and> \<not> too_big m e \<and> \<not> too_small m e)"
| "float_ok _ \<longleftrightarrow> True"

section \<open>repr\<close>

definition exponent_text :: "int \<Rightarrow> string" where
  "exponent_text x =
     CHR ''e'' # (if x < 0 then CHR ''-'' else CHR ''+'')
       # (let ds = digits_of (nat \<bar>x\<bar>) in if length ds < 2 then CHR ''0'' # ds else ds)"

definition repr_digits :: "string \<Rightarrow> int \<Rightarrow> string" where
  "repr_digits ds p =
     (if p \<le> -4 \<or> 16 < p then
        take 1 ds @ (if tl ds = [] then [] else CHR ''.'' # tl ds) @ exponent_text (p - 1)
      else if p \<le> 0 then ''0.'' @ replicate (nat (- p)) (CHR ''0'') @ ds
      else if p < int (length ds) then take (nat p) ds @ CHR ''.'' # drop (nat p) ds
      else ds @ replicate (nat p - length ds) (CHR ''0'') @ ''.0'')"

text \<open>\<open>float.__repr__\<close> as \<open>json.dumps\<close> uses it, with JSON's names for the non-finite ones.\<close>

fun float_text :: "pyfloat \<Rightarrow> string" where
  "float_text (Fin m e) =
     (if m = 0 then ''0.0''
      else (let ds = digits_of (nat \<bar>m\<bar>)
            in (if m < 0 then ''-'' else []) @ repr_digits ds (int (length ds) + e)))"
| "float_text PosInf = ''Infinity''"
| "float_text NegInf = ''-Infinity''"
| "float_text NaN = ''NaN''"

section \<open>Decimal lexemes\<close>

text \<open>
  The value of a number lexeme: sign, integer digits, fraction digits, exponent. Its reading
  back from \<open>repr\<close> is the round trip of this theory.
\<close>

definition lexeme_value :: "bool \<Rightarrow> string \<Rightarrow> string \<Rightarrow> int \<Rightarrow> pyfloat" where
  "lexeme_value neg ip fp x =
     (let m = int (nat_of_digits (ip @ fp))
      in float_of_decimal (if neg then - m else m) (x - int (length fp)))"

lemma norm_dec_zero [simp]: "norm_dec 0 e = Fin 0 0"
  by (simp add: norm_dec.simps)

lemma norm_dec_id: "m mod 10 \<noteq> 0 \<Longrightarrow> norm_dec m e = Fin m e"
  by (auto simp: norm_dec.simps [of m e])

lemma norm_dec_pow:
  assumes "m \<noteq> 0"
  shows "norm_dec (m * 10 ^ k) e = norm_dec m (e + int k)"
proof (induction k arbitrary: e)
  case 0
  then show ?case by simp
next
  case (Suc k)
  let ?n = "m * 10 ^ Suc k"
  have "?n \<noteq> 0" and "?n mod 10 = 0" and "?n div 10 = m * 10 ^ k" using assms by simp_all
  then have "norm_dec ?n e = norm_dec (m * 10 ^ k) (e + 1)"
    by (subst norm_dec.simps) simp
  then show ?case by (simp add: Suc.IH add.assoc)
qed

lemma norm_dec_ok: "\<exists>m' e'. norm_dec m e = Fin m' e' \<and> (m' = 0 \<and> e' = 0 \<or> m' mod 10 \<noteq> 0)"
proof (induction m e rule: norm_dec.induct)
  case (1 m e)
  then show ?case by (cases "m = 0"; cases "m mod 10 = 0") (auto simp: norm_dec.simps [of m e])
qed

lemma float_of_decimal_ok [simp]: "float_ok (float_of_decimal m e)"
proof -
  obtain m' e' where "norm_dec m e = Fin m' e'" and "m' = 0 \<and> e' = 0 \<or> m' mod 10 \<noteq> 0"
    using norm_dec_ok by blast
  then show ?thesis by (auto simp: float_of_decimal_def)
qed

lemma nat_of_digits_zeros_left: "nat_of_digits (replicate k (CHR ''0'') @ ds) = nat_of_digits ds"
proof -
  have z: "nat_of_digits (replicate k (CHR ''0'')) = 0"
    by (induction k) (simp_all add: nat_of_digits_def digit_val_def)
  show ?thesis by (simp add: nat_of_digits_append z) (simp add: nat_of_digits_def)
qed

lemma nat_of_digits_zeros_right:
  "nat_of_digits (ds @ replicate k (CHR ''0'')) = nat_of_digits ds * 10 ^ k"
proof (induction k arbitrary: ds)
  case 0
  then show ?case by simp
next
  case (Suc k)
  have "nat_of_digits (ds @ replicate (Suc k) (CHR ''0''))
      = nat_of_digits ((ds @ [CHR ''0'']) @ replicate k (CHR ''0''))" by simp
  also have "\<dots> = nat_of_digits (ds @ [CHR ''0'']) * 10 ^ k" by (rule Suc.IH)
  also have "\<dots> = nat_of_digits ds * 10 ^ Suc k" by (simp add: digit_val_def)
  finally show ?case .
qed

lemma lexeme_value_ok: "float_ok (lexeme_value neg ip fp x)"
  by (simp add: lexeme_value_def Let_def)

lemma lexeme_value_scaled:
  assumes ok: "float_ok (Fin m e)" and nz: "m \<noteq> 0"
    and digits: "nat_of_digits (ip @ fp) = nat \<bar>m\<bar> * 10 ^ k"
    and expo: "x - int (length fp) + int k = e"
  shows "lexeme_value (m < 0) ip fp x = Fin m e"
proof -
  have v: "(if m < 0 then - int (nat_of_digits (ip @ fp)) else int (nat_of_digits (ip @ fp)))
      = m * 10 ^ k"
    by (simp add: digits)
  have "norm_dec (m * 10 ^ k) (x - int (length fp)) = norm_dec m e"
    using norm_dec_pow [OF nz, of k "x - int (length fp)"] expo by simp
  also have "\<dots> = Fin m e" using ok nz by (intro norm_dec_id) auto
  finally show ?thesis using ok nz
    by (simp add: lexeme_value_def Let_def v float_of_decimal_def)
qed

end
