(* ===== verification/Py_Time.thy ===== *)
theory Py_Time
  imports Py_Text
begin

text \<open>
  \<open>datetime\<close> values as the program persists them: proleptic Gregorian fields and an optional
  UTC offset in whole seconds (\<open>None\<close> is a naive value). \<open>isoformat\<close> writes, and
  \<open>fromisoformat\<close> reads, the extended ISO 8601 form \<open>YYYY-MM-DD\<close>, one separator
  character, \<open>HH[:MM[:SS[.ffffff]]]\<close> and \<open>Z\<close> or \<open>+HH:MM[:SS]\<close>; a text in one of the other
  forms the standard library also reads (dates without dashes, week dates, hour 24,
  offsets with fractions) is not a time stamp that \<open>isoformat\<close> writes, and the model refuses it.
\<close>

record datetime =
  dt_year :: nat
  dt_month :: nat
  dt_day :: nat
  dt_hour :: nat
  dt_minute :: nat
  dt_second :: nat
  dt_micro :: nat
  dt_offset :: "int option"

definition leap_year :: "nat \<Rightarrow> bool" where
  "leap_year y \<longleftrightarrow> 4 dvd y \<and> (\<not> 100 dvd y \<or> 400 dvd y)"

definition days_in_month :: "nat \<Rightarrow> nat \<Rightarrow> nat" where
  "days_in_month y m =
     (if m = 2 then (if leap_year y then 29 else 28)
      else if m \<in> {4, 6, 9, 11} then 30 else 31)"

definition datetime_ok :: "datetime \<Rightarrow> bool" where
  "datetime_ok t \<longleftrightarrow>
     1 \<le> dt_year t \<and> dt_year t \<le> 9999 \<and> 1 \<le> dt_month t \<and> dt_month t \<le> 12
     \<and> 1 \<le> dt_day t \<and> dt_day t \<le> days_in_month (dt_year t) (dt_month t)
     \<and> dt_hour t < 24 \<and> dt_minute t < 60 \<and> dt_second t < 60 \<and> dt_micro t < 1000000
     \<and> (case dt_offset t of None \<Rightarrow> True | Some z \<Rightarrow> \<bar>z\<bar> < 86400)"

section \<open>Fixed-width numbers\<close>

fun pad :: "nat \<Rightarrow> nat \<Rightarrow> string" where
  "pad 0 n = []"
| "pad (Suc w) n = pad w (n div 10) @ [digit_char (n mod 10)]"

definition read_pad :: "nat \<Rightarrow> string \<Rightarrow> (nat \<times> string) option" where
  "read_pad w s =
     (if w \<le> length s \<and> list_all is_digit (take w s)
      then Some (nat_of_digits (take w s), drop w s) else None)"

lemma pad_length [simp]: "length (pad w n) = w"
  by (induction w arbitrary: n) simp_all

lemma pad_digits [simp]: "list_all is_digit (pad w n)"
  by (induction w arbitrary: n) simp_all

lemma pad_value: "n < 10 ^ w \<Longrightarrow> nat_of_digits (pad w n) = n"
proof (induction w arbitrary: n)
  case 0
  then show ?case by simp
next
  case (Suc w)
  then have "n div 10 < 10 ^ w" by (simp add: less_mult_imp_div_less mult.commute)
  then show ?case by (simp add: Suc.IH)
qed

lemma read_pad_pad [text_simps]: "n < 10 ^ w \<Longrightarrow> read_pad w (pad w n @ s) = Some (n, s)"
  by (simp add: read_pad_def pad_value)

section \<open>isoformat\<close>

definition iso_offset :: "int \<Rightarrow> string" where
  "iso_offset z =
     (let a = nat \<bar>z\<bar>
      in (if z < 0 then ''-'' else ''+'') @ pad 2 (a div 3600) @ '':'' @ pad 2 (a div 60 mod 60)
         @ (if a mod 60 = 0 then [] else '':'' @ pad 2 (a mod 60)))"

definition isoformat :: "datetime \<Rightarrow> string" where
  "isoformat t =
     pad 4 (dt_year t) @ ''-'' @ pad 2 (dt_month t) @ ''-'' @ pad 2 (dt_day t) @ ''T''
     @ pad 2 (dt_hour t) @ '':'' @ pad 2 (dt_minute t) @ '':'' @ pad 2 (dt_second t)
     @ (if dt_micro t = 0 then [] else ''.'' @ pad 6 (dt_micro t))
     @ (case dt_offset t of None \<Rightarrow> [] | Some z \<Rightarrow> iso_offset z)"

section \<open>fromisoformat\<close>

text \<open>\<open>:NN\<close> if it is there: \<open>None\<close> when a colon is not followed by two digits.\<close>

definition read_colon :: "string \<Rightarrow> (nat option \<times> string) option" where
  "read_colon s =
     (if starts_with '':'' s then map_option (\<lambda>(n, r). (Some n, r)) (read_pad 2 (tl s))
      else Some (None, s))"

text \<open>Fractions of a second: the first six digits count, fewer are scaled up.\<close>

definition read_fraction :: "string \<Rightarrow> (nat \<times> string) option" where
  "read_fraction s =
     (if starts_with ''.'' s \<or> starts_with '','' s then
        (let ds = takeWhile is_digit (tl s); r = drop (length ds) (tl s);
             six = take 6 ds
         in if ds = [] then None
            else Some (nat_of_digits six * 10 ^ (6 - length six), r))
      else Some (0, s))"

definition read_clock :: "string \<Rightarrow> ((nat \<times> nat \<times> nat \<times> nat) \<times> string) option" where
  "read_clock s =
     Option.bind (read_pad 2 s) (\<lambda>(h, s1).
     Option.bind (read_colon s1) (\<lambda>(mi, s2).
       (case mi of
          None \<Rightarrow> Some ((h, 0, 0, 0), s2)
        | Some m \<Rightarrow>
            Option.bind (read_colon s2) (\<lambda>(se, s3).
              (case se of
                 None \<Rightarrow> Some ((h, m, 0, 0), s3)
               | Some sec \<Rightarrow>
                   map_option (\<lambda>(u, s4). ((h, m, sec, u), s4)) (read_fraction s3))))))"

definition read_offset :: "string \<Rightarrow> int option option" where
  "read_offset s =
     (if s = [] then Some None
      else if s = ''Z'' then Some (Some 0)
      else if starts_with ''+'' s \<or> starts_with ''-'' s then
        (case read_clock (tl s) of
           None \<Rightarrow> None
         | Some ((h, m, sec, u), r) \<Rightarrow>
             if r = [] \<and> u = 0 \<and> h < 24 \<and> m < 60 \<and> sec < 60 then
               (let a = int (3600 * h + 60 * m + sec)
                in Some (Some (if starts_with ''-'' s then - a else a)))
             else None)
      else None)"

definition read_date :: "string \<Rightarrow> ((nat \<times> nat \<times> nat) \<times> string) option" where
  "read_date s =
     Option.bind (read_pad 4 s) (\<lambda>(y, s1).
       if starts_with ''-'' s1 then
         Option.bind (read_pad 2 (tl s1)) (\<lambda>(m, s2).
           if starts_with ''-'' s2 then
             map_option (\<lambda>(d, s3). ((y, m, d), s3)) (read_pad 2 (tl s2))
           else None)
       else None)"

definition fromisoformat :: "string \<Rightarrow> datetime option" where
  "fromisoformat s =
     Option.bind (read_date s) (\<lambda>((y, mo, d), s1).
     Option.bind (if s1 = [] then Some ((0, 0, 0, 0), []) else read_clock (tl s1))
       (\<lambda>((h, mi, sec, u), s2).
     Option.bind (read_offset s2) (\<lambda>z.
       let t = \<lparr>dt_year = y, dt_month = mo, dt_day = d, dt_hour = h, dt_minute = mi,
                dt_second = sec, dt_micro = u, dt_offset = z\<rparr>
       in if datetime_ok t then Some t else None)))"

section \<open>Round trip\<close>

lemma starts_with_single [simp]: "starts_with [c] (d # s) \<longleftrightarrow> d = c" "\<not> starts_with [c] []"
  by (simp_all add: starts_with_def)

lemma read_colon_pad [text_simps]:
  "n < 100 \<Longrightarrow> read_colon ('':'' @ pad 2 n @ s) = Some (Some n, s)"
  by (simp add: read_colon_def read_pad_pad)

lemma read_fraction_pad:
  assumes "u < 1000000" and "s = [] \<or> \<not> is_digit (hd s)"
  shows "read_fraction (''.'' @ pad 6 u @ s) = Some (u, s)"
proof -
  have tw: "takeWhile is_digit (pad 6 u @ s) = pad 6 u"
    using assms(2) pad_digits [of 6 u]
    by (cases s) (auto simp: takeWhile_append list_all_iff takeWhile_eq_all_conv)
  have "pad 6 u \<noteq> []" by (metis length_0_conv pad_length zero_neq_numeral)
  then show ?thesis using assms(1) by (simp add: read_fraction_def tw pad_value)
qed

definition offset_start :: "string \<Rightarrow> bool" where
  "offset_start s \<longleftrightarrow> s = [] \<or> hd s = CHR ''+'' \<or> hd s = CHR ''-''"

lemma offset_start_simps:
  assumes "offset_start s"
  shows "s = [] \<or> \<not> is_digit (hd s)" and "read_colon s = Some (None, s)"
    and "read_fraction s = Some (0, s)"
  using assms by (cases s; auto simp: offset_start_def is_digit_def read_colon_def read_fraction_def)+

lemma iso_offset_start: "offset_start (iso_offset z)"
  by (simp add: offset_start_def iso_offset_def Let_def)

lemma read_clock_iso:
  assumes "h < 100" "mi < 100" "sec < 100" "u < 1000000" and "offset_start s"
  shows "read_clock (pad 2 h @ '':'' @ pad 2 mi @ '':'' @ pad 2 sec
           @ (if u = 0 then [] else ''.'' @ pad 6 u) @ s) = Some ((h, mi, sec, u), s)"
  using assms read_colon_pad [of mi] read_colon_pad [of sec] read_fraction_pad [of u s]
    offset_start_simps [of s]
  by (simp add: read_clock_def read_pad_pad)

lemma read_clock_short:
  assumes "h < 100" "mi < 100"
  shows "read_clock (pad 2 h @ '':'' @ pad 2 mi) = Some ((h, mi, 0, 0), [])"
  using assms read_colon_pad [of mi "[]"] offset_start_simps(2) [of "[]"]
  by (simp add: read_clock_def read_pad_pad offset_start_def)

lemma read_offset_iso:
  assumes "\<bar>z\<bar> < 86400"
  shows "read_offset (iso_offset z) = Some (Some z)"
proof -
  define a where "a = nat \<bar>z\<bar>"
  have a: "a < 86400" and z: "z < 0 \<Longrightarrow> - int a = z" "\<not> z < 0 \<Longrightarrow> int a = z"
    using assms by (simp_all add: a_def)
  have h: "a div 3600 < 24" using a by simp
  have sum: "3600 * (a div 3600) + 60 * (a div 60 mod 60) + a mod 60 = a"
  proof -
    have "a div 3600 = a div 60 div 60" by (simp add: div_mult2_eq [symmetric])
    moreover have "60 * (a div 60 div 60) + a div 60 mod 60 = a div 60" by (rule mult_div_mod_eq)
    moreover have "60 * (a div 60) + a mod 60 = a" by (rule mult_div_mod_eq)
    ultimately show ?thesis by linarith
  qed
  have clock: "read_clock (pad 2 (a div 3600) @ '':'' @ pad 2 (a div 60 mod 60)
      @ (if a mod 60 = 0 then [] else '':'' @ pad 2 (a mod 60)))
    = Some ((a div 3600, a div 60 mod 60, a mod 60, 0), [])"
  proof (cases "a mod 60 = 0")
    case True
    then show ?thesis using h read_clock_short [of "a div 3600" "a div 60 mod 60"] by simp
  next
    case False
    have "read_clock (pad 2 (a div 3600) @ '':'' @ pad 2 (a div 60 mod 60) @ '':'' @ pad 2 (a mod 60)
        @ (if (0::nat) = 0 then [] else ''.'' @ pad 6 0) @ [])
      = Some ((a div 3600, a div 60 mod 60, a mod 60, 0), [])"
      by (rule read_clock_iso) (use h in \<open>auto simp: offset_start_def less_trans [OF mod_less_divisor]\<close>)
    with False show ?thesis by simp
  qed
  have "int (3600 * (a div 3600) + 60 * (a div 60 mod 60) + a mod 60) = int a"
    by (simp only: sum)
  with h clock z show ?thesis
    by (simp add: read_offset_def iso_offset_def a_def [symmetric] Let_def)
qed

lemma read_date_iso:
  "y < 10000 \<Longrightarrow> mo < 100 \<Longrightarrow> d < 100
    \<Longrightarrow> read_date (pad 4 y @ ''-'' @ pad 2 mo @ ''-'' @ pad 2 d @ s) = Some ((y, mo, d), s)"
  by (simp add: read_date_def read_pad_pad)

lemma days_in_month_le: "days_in_month y m \<le> 31"
  by (simp add: days_in_month_def)

lemma fromisoformat_isoformat:
  assumes "datetime_ok t"
  shows "fromisoformat (isoformat t) = Some t"
proof -
  let ?z = "case dt_offset t of None \<Rightarrow> [] | Some z \<Rightarrow> iso_offset z"
  note ok = assms [unfolded datetime_ok_def]
  have d: "dt_day t < 100" using ok days_in_month_le [of "dt_year t" "dt_month t"] by linarith
  have z: "read_offset ?z = Some (dt_offset t)"
  proof (cases "dt_offset t")
    case None
    then show ?thesis by (simp add: read_offset_def)
  next
    case (Some x)
    with ok have "\<bar>x\<bar> < 86400" by simp
    then show ?thesis by (simp add: Some read_offset_iso)
  qed
  have zs: "offset_start ?z"
    by (cases "dt_offset t") (simp_all add: iso_offset_start, simp add: offset_start_def)
  let ?clock = "pad 2 (dt_hour t) @ '':'' @ pad 2 (dt_minute t) @ '':'' @ pad 2 (dt_second t)
     @ (if dt_micro t = 0 then [] else ''.'' @ pad 6 (dt_micro t)) @ ?z"
  have c: "read_clock ?clock = Some ((dt_hour t, dt_minute t, dt_second t, dt_micro t), ?z)"
    by (rule read_clock_iso) (use ok zs in simp_all)
  have "read_date (isoformat t) = Some ((dt_year t, dt_month t, dt_day t), ''T'' @ ?clock)"
    unfolding isoformat_def by (rule read_date_iso) (use ok d in simp_all)
  with c obtain clk where date: "read_date (isoformat t) = Some ((dt_year t, dt_month t, dt_day t), ''T'' @ clk)"
    and clock: "read_clock clk = Some ((dt_hour t, dt_minute t, dt_second t, dt_micro t), ?z)"
    by blast
  have rebuild: "\<lparr>dt_year = dt_year t, dt_month = dt_month t, dt_day = dt_day t, dt_hour = dt_hour t,
      dt_minute = dt_minute t, dt_second = dt_second t, dt_micro = dt_micro t,
      dt_offset = dt_offset t\<rparr> = t" by simp
  show ?thesis using assms by (simp add: fromisoformat_def date clock z rebuild)
qed

lemma isoformat_inject:
  "datetime_ok s \<Longrightarrow> datetime_ok t \<Longrightarrow> isoformat s = isoformat t \<longleftrightarrow> s = t"
  by (metis fromisoformat_isoformat option.inject)

end
