(* ===== verification/Json.thy ===== *)
theory Json
  imports Py_Float
begin

text \<open>
  JSON values and the two directions of the standard library's \<open>json\<close>: \<open>dumps\<close> is
  \<open>json.dumps(value, sort_keys=True, ...)\<close> in the two layouts the program uses, and
  \<open>loads\<close> is \<open>json.loads\<close>. An object is a dictionary in insertion order. The output is
  ASCII (\<open>ensure_ascii\<close>); an escape beyond U+00FF is outside the model's alphabet and
  \<open>loads\<close> refuses it. \<open>loads_dumps\<close> is the round trip: writing and reading back gives
  the value with every object's keys sorted.
\<close>

datatype json =
    JNull
  | JBool bool
  | JInt int
  | JFloat pyfloat
  | JStr string
  | JList "json list"
  | JObj "(string \<times> json) list"

fun json_ok :: "json \<Rightarrow> bool" where
  "json_ok (JFloat f) \<longleftrightarrow> float_ok f"
| "json_ok (JList vs) \<longleftrightarrow> list_all json_ok vs"
| "json_ok (JObj kvs) \<longleftrightarrow> dict_ok kvs \<and> list_all (\<lambda>(k, v). json_ok v) kvs"
| "json_ok _ \<longleftrightarrow> True"

fun sort_keys :: "json \<Rightarrow> json" where
  "sort_keys (JList vs) = JList (map sort_keys vs)"
| "sort_keys (JObj kvs) = JObj (sorted_items (map (\<lambda>(k, v). (k, sort_keys v)) kvs))"
| "sort_keys v = v"

section \<open>Writing\<close>

datatype layout = Compact | Indent nat

text \<open>
  \<open>Compact\<close> is \<open>separators=(",", ":")\<close>; \<open>Indent k\<close> is \<open>indent=k\<close> with the default
  separators.
\<close>

fun newline_at :: "layout \<Rightarrow> nat \<Rightarrow> string" where
  "newline_at Compact d = []"
| "newline_at (Indent k) d = CHR 10 # replicate (k * d) (CHR 32)"

fun key_sep :: "layout \<Rightarrow> string" where
  "key_sep Compact = '':''"
| "key_sep (Indent k) = '': ''"

definition escape_char :: "char \<Rightarrow> string" where
  "escape_char c =
     (if c = CHR 34 \<or> c = CHR 92 then [CHR 92, c]
      else if ord c = 10 then CHR 92 # ''n''
      else if ord c = 13 then CHR 92 # ''r''
      else if ord c = 9 then CHR 92 # ''t''
      else if ord c = 12 then CHR 92 # ''f''
      else if ord c = 8 then CHR 92 # ''b''
      else if 32 \<le> ord c \<and> ord c \<le> 126 then [c]
      else CHR 92 # ''u00'' @ hex2 (ord c))"

definition json_string :: "string \<Rightarrow> string" where
  "json_string s = CHR 34 # concat (map escape_char s) @ [CHR 34]"

fun dump :: "layout \<Rightarrow> nat \<Rightarrow> json \<Rightarrow> string"
  and dump_elems :: "layout \<Rightarrow> nat \<Rightarrow> json list \<Rightarrow> string"
  and dump_members :: "layout \<Rightarrow> nat \<Rightarrow> (string \<times> json) list \<Rightarrow> string"
where
  "dump l d JNull = ''null''"
| "dump l d (JBool b) = (if b then ''true'' else ''false'')"
| "dump l d (JInt i) = str_of_int i"
| "dump l d (JFloat f) = float_text f"
| "dump l d (JStr s) = json_string s"
| "dump l d (JList []) = ''[]''"
| "dump l d (JList (v # vs)) =
     ''['' @ newline_at l (Suc d) @ dump l (Suc d) v @ dump_elems l (Suc d) vs
       @ newline_at l d @ '']''"
| "dump l d (JObj []) = ''{}''"
| "dump l d (JObj ((k, v) # ms)) =
     ''{'' @ newline_at l (Suc d) @ json_string k @ key_sep l @ dump l (Suc d) v
       @ dump_members l (Suc d) ms @ newline_at l d @ ''}''"
| "dump_elems l d [] = []"
| "dump_elems l d (v # vs) = '','' @ newline_at l d @ dump l d v @ dump_elems l d vs"
| "dump_members l d [] = []"
| "dump_members l d ((k, v) # ms) =
     '','' @ newline_at l d @ json_string k @ key_sep l @ dump l d v @ dump_members l d ms"

definition dumps :: "layout \<Rightarrow> json \<Rightarrow> string" where
  "dumps l v = dump l 0 (sort_keys v)"

section \<open>Reading\<close>

definition is_ws :: "char \<Rightarrow> bool" where
  "is_ws c \<longleftrightarrow> ord c = 32 \<or> ord c = 9 \<or> ord c = 10 \<or> ord c = 13"

definition skip_ws :: "string \<Rightarrow> string" where
  "skip_ws s = dropWhile is_ws s"

definition expect :: "char \<Rightarrow> string \<Rightarrow> string option" where
  "expect c s = (case s of [] \<Rightarrow> None | d # r \<Rightarrow> if d = c then Some r else None)"

definition hex_val :: "char \<Rightarrow> nat option" where
  "hex_val c =
     (if is_digit c then Some (ord c - 48)
      else if 97 \<le> ord c \<and> ord c \<le> 102 then Some (ord c - 87)
      else if 65 \<le> ord c \<and> ord c \<le> 70 then Some (ord c - 55) else None)"

definition hex4 :: "char \<Rightarrow> char \<Rightarrow> char \<Rightarrow> char \<Rightarrow> char option" where
  "hex4 a b c d =
     (case (hex_val a, hex_val b, hex_val c, hex_val d) of
        (Some w, Some x, Some y, Some z) \<Rightarrow>
          (let n = 4096 * w + 256 * x + 16 * y + z
           in if n < 256 then Some (char_of n) else None)
      | _ \<Rightarrow> None)"

definition unescape :: "char \<Rightarrow> char option" where
  "unescape c =
     (if c = CHR 34 \<or> c = CHR 92 \<or> c = CHR ''/'' then Some c
      else if c = CHR ''b'' then Some (char_of (8::nat))
      else if c = CHR ''f'' then Some (char_of (12::nat))
      else if c = CHR ''n'' then Some (char_of (10::nat))
      else if c = CHR ''r'' then Some (char_of (13::nat))
      else if c = CHR ''t'' then Some (char_of (9::nat)) else None)"

text \<open>The rest of a string literal after its opening quote, and what follows its closing one.\<close>

fun parse_string :: "string \<Rightarrow> (string \<times> string) option" where
  "parse_string [] = None"
| "parse_string (c # s) =
     (if c = CHR 34 then Some ([], s)
      else if c = CHR 92 then
        (case s of
           [] \<Rightarrow> None
         | e # s1 \<Rightarrow>
             if e = CHR ''u'' then
               (case s1 of
                  h1 # h2 # h3 # h4 # s2 \<Rightarrow>
                    (case hex4 h1 h2 h3 h4 of
                       None \<Rightarrow> None
                     | Some x \<Rightarrow> map_option (\<lambda>(t, r). (x # t, r)) (parse_string s2))
                | _ \<Rightarrow> None)
             else
               (case unescape e of
                  None \<Rightarrow> None
                | Some x \<Rightarrow> map_option (\<lambda>(t, r). (x # t, r)) (parse_string s1)))
      else if ord c < 32 then None
      else map_option (\<lambda>(t, r). (c # t, r)) (parse_string s))"

text \<open>
  A number: an integer part without superfluous zeros, then a fraction and an exponent, each
  only when it has digits. Without both it is an integer.
\<close>

definition int_part :: "string \<Rightarrow> string" where
  "int_part s = (if starts_with ''0'' s then ''0'' else takeWhile is_digit s)"

definition frac_part :: "string \<Rightarrow> string option" where
  "frac_part s =
     (case expect (CHR ''.'') s of
        None \<Rightarrow> None
      | Some r \<Rightarrow> (let f = takeWhile is_digit r in if f = [] then None else Some f))"

definition exp_sign :: "string \<Rightarrow> string" where
  "exp_sign r = (if starts_with ''-'' r \<or> starts_with ''+'' r then take 1 r else [])"

definition exp_part :: "string \<Rightarrow> (string \<times> string) option" where
  "exp_part s =
     (case s of
        [] \<Rightarrow> None
      | c # r \<Rightarrow>
          if c = CHR ''e'' \<or> c = CHR ''E'' then
            (let sg = exp_sign r; ds = takeWhile is_digit (drop (length sg) r)
             in if ds = [] then None else Some (sg, ds))
          else None)"

definition exp_value :: "string \<times> string \<Rightarrow> int" where
  "exp_value x = (if fst x = ''-'' then - int (nat_of_digits (snd x)) else int (nat_of_digits (snd x)))"

definition parse_number :: "string \<Rightarrow> (json \<times> string) option" where
  "parse_number s =
     (let neg = starts_with ''-'' s;
          s1 = (if neg then tl s else s);
          ip = int_part s1;
          s2 = drop (length ip) s1;
          fp = frac_part s2;
          s3 = (case fp of None \<Rightarrow> s2 | Some f \<Rightarrow> drop (Suc (length f)) s2);
          xp = exp_part s3;
          s4 = (case xp of None \<Rightarrow> s3 | Some (sg, ds) \<Rightarrow> drop (Suc (length sg + length ds)) s3)
      in if ip = [] then None
         else if fp = None \<and> xp = None then
           Some (JInt (if neg then - int (nat_of_digits ip) else int (nat_of_digits ip)), s2)
         else
           Some (JFloat (lexeme_value neg ip (case fp of None \<Rightarrow> [] | Some f \<Rightarrow> f)
                   (case xp of None \<Rightarrow> 0 | Some x \<Rightarrow> exp_value x)), s4))"

fun parse_value :: "nat \<Rightarrow> string \<Rightarrow> (json \<times> string) option"
  and parse_elems :: "nat \<Rightarrow> string \<Rightarrow> (json list \<times> string) option"
  and parse_members :: "nat \<Rightarrow> string \<Rightarrow> ((string \<times> json) list \<times> string) option"
where
  "parse_value 0 s = None"
| "parse_value (Suc n) s =
     (case s of
        [] \<Rightarrow> None
      | c # r \<Rightarrow>
          if c = CHR 34 then map_option (\<lambda>(t, r'). (JStr t, r')) (parse_string r)
          else if c = CHR ''{'' then
            (case expect (CHR ''}'') (skip_ws r) of
               Some r' \<Rightarrow> Some (JObj [], r')
             | None \<Rightarrow> map_option (\<lambda>(ms, r'). (JObj (dict_of ms), r')) (parse_members n (skip_ws r)))
          else if c = CHR ''['' then
            (case expect (CHR '']'') (skip_ws r) of
               Some r' \<Rightarrow> Some (JList [], r')
             | None \<Rightarrow> map_option (\<lambda>(vs, r'). (JList vs, r')) (parse_elems n (skip_ws r)))
          else if starts_with ''null'' s then Some (JNull, drop 4 s)
          else if starts_with ''true'' s then Some (JBool True, drop 4 s)
          else if starts_with ''false'' s then Some (JBool False, drop 5 s)
          else if starts_with ''NaN'' s then Some (JFloat NaN, drop 3 s)
          else if starts_with ''Infinity'' s then Some (JFloat PosInf, drop 8 s)
          else if starts_with ''-Infinity'' s then Some (JFloat NegInf, drop 9 s)
          else parse_number s)"
| "parse_elems 0 s = None"
| "parse_elems (Suc n) s =
     (case parse_value n s of
        None \<Rightarrow> None
      | Some (v, r) \<Rightarrow>
          (case expect (CHR '','') (skip_ws r) of
             Some r1 \<Rightarrow> map_option (\<lambda>(vs, r2). (v # vs, r2)) (parse_elems n (skip_ws r1))
           | None \<Rightarrow> map_option (\<lambda>r1. ([v], r1)) (expect (CHR '']'') (skip_ws r))))"
| "parse_members 0 s = None"
| "parse_members (Suc n) s =
     (case Option.bind (expect (CHR 34) s) parse_string of
        None \<Rightarrow> None
      | Some (k, r0) \<Rightarrow>
          (case expect (CHR '':'') (skip_ws r0) of
             None \<Rightarrow> None
           | Some r1 \<Rightarrow>
               (case parse_value n (skip_ws r1) of
                  None \<Rightarrow> None
                | Some (v, r2) \<Rightarrow>
                    (case expect (CHR '','') (skip_ws r2) of
                       Some r3 \<Rightarrow>
                         map_option (\<lambda>(ms, r4). ((k, v) # ms, r4)) (parse_members n (skip_ws r3))
                     | None \<Rightarrow> map_option (\<lambda>r3. ([(k, v)], r3)) (expect (CHR ''}'') (skip_ws r2))))))"

text \<open>
  Every call of \<open>parse_value\<close> and \<open>parse_elems\<close> that descends spends one unit of fuel and
  at most two calls start at the same character, so twice the length is enough:
  \<open>loads_dump\<close> of \<open>Json_Roundtrip\<close> shows it for every text the writer produces.
\<close>

definition loads :: "string \<Rightarrow> json option" where
  "loads s =
     (case parse_value (2 * length s + 2) (skip_ws s) of
        None \<Rightarrow> None
      | Some (v, r) \<Rightarrow> if skip_ws r = [] then Some v else None)"

end
