(* ===== verification/Domain.thy ===== *)
theory Domain
  imports Errors Py_Path Py_Float Py_Time Json "HOL-Library.FSet"
begin

text \<open>
  The domain values of \<open>src/goalrouter/domain.py\<close>: every \<open>StrEnum\<close> as a datatype with its
  \<open>value\<close>, every dataclass as a record with a prefix per class. Dictionaries are association
  lists in insertion order, frozen sets are finite sets, paths are parsed paths, and the
  mutable \<open>RunState\<close> is a record that operations return updated.
\<close>

section \<open>Enumerations\<close>

datatype auth_mode = ExistingSession | ApiKey
datatype sandbox_mode = SandboxReadOnly | SandboxWorkspaceWrite
datatype approval_mode = Automatic | Required
datatype access_mode = AccessReadOnly | AccessWorkspaceWrite
datatype work_status = Pending | AwaitingApproval | Running | Succeeded | Failed | Blocked
datatype run_status =
  RunPlanned | RunAwaitingApproval | RunRunning | RunCompleted | RunFailed | RunBlocked
datatype route_source = Explicit | Planner | Match | Default

fun auth_mode_value :: "auth_mode \<Rightarrow> string" where
  "auth_mode_value ExistingSession = ''existing-session''"
| "auth_mode_value ApiKey = ''api-key''"

fun sandbox_mode_value :: "sandbox_mode \<Rightarrow> string" where
  "sandbox_mode_value SandboxReadOnly = ''read-only''"
| "sandbox_mode_value SandboxWorkspaceWrite = ''workspace-write''"

fun approval_mode_value :: "approval_mode \<Rightarrow> string" where
  "approval_mode_value Automatic = ''automatic''"
| "approval_mode_value Required = ''required''"

fun access_mode_value :: "access_mode \<Rightarrow> string" where
  "access_mode_value AccessReadOnly = ''read-only''"
| "access_mode_value AccessWorkspaceWrite = ''workspace-write''"

fun work_status_value :: "work_status \<Rightarrow> string" where
  "work_status_value Pending = ''pending''"
| "work_status_value AwaitingApproval = ''awaiting-approval''"
| "work_status_value Running = ''running''"
| "work_status_value Succeeded = ''succeeded''"
| "work_status_value Failed = ''failed''"
| "work_status_value Blocked = ''blocked''"

fun run_status_value :: "run_status \<Rightarrow> string" where
  "run_status_value RunPlanned = ''planned''"
| "run_status_value RunAwaitingApproval = ''awaiting-approval''"
| "run_status_value RunRunning = ''running''"
| "run_status_value RunCompleted = ''completed''"
| "run_status_value RunFailed = ''failed''"
| "run_status_value RunBlocked = ''blocked''"

fun route_source_value :: "route_source \<Rightarrow> string" where
  "route_source_value Explicit = ''explicit''"
| "route_source_value Planner = ''planner''"
| "route_source_value Match = ''match''"
| "route_source_value Default = ''default''"

text \<open>\<open>enum_type(raw)\<close>: the member with that value, or \<open>ValueError\<close>.\<close>

definition enum_of :: "('a \<Rightarrow> string) \<Rightarrow> 'a list \<Rightarrow> string \<Rightarrow> 'a option" where
  "enum_of val members raw = find (\<lambda>m. val m = raw) members"

definition auth_modes :: "auth_mode list" where
  "auth_modes = [ExistingSession, ApiKey]"

definition sandbox_modes :: "sandbox_mode list" where
  "sandbox_modes = [SandboxReadOnly, SandboxWorkspaceWrite]"

definition approval_modes :: "approval_mode list" where
  "approval_modes = [Automatic, Required]"

definition access_modes :: "access_mode list" where
  "access_modes = [AccessReadOnly, AccessWorkspaceWrite]"

definition work_statuses :: "work_status list" where
  "work_statuses = [Pending, AwaitingApproval, Running, Succeeded, Failed, Blocked]"

definition run_statuses :: "run_status list" where
  "run_statuses = [RunPlanned, RunAwaitingApproval, RunRunning, RunCompleted, RunFailed, RunBlocked]"

definition route_sources :: "route_source list" where
  "route_sources = [Explicit, Planner, Match, Default]"

lemmas enum_lists = auth_modes_def sandbox_modes_def approval_modes_def access_modes_def
  work_statuses_def run_statuses_def route_sources_def

lemma enum_of_value [simp]:
  "enum_of auth_mode_value auth_modes (auth_mode_value am) = Some am"
  "enum_of sandbox_mode_value sandbox_modes (sandbox_mode_value sm) = Some sm"
  "enum_of approval_mode_value approval_modes (approval_mode_value pm) = Some pm"
  "enum_of access_mode_value access_modes (access_mode_value cm) = Some cm"
  "enum_of work_status_value work_statuses (work_status_value ws) = Some ws"
  "enum_of run_status_value run_statuses (run_status_value rs) = Some rs"
  "enum_of route_source_value route_sources (route_source_value src) = Some src"
  subgoal by (cases am) (simp_all add: enum_of_def enum_lists)
  subgoal by (cases sm) (simp_all add: enum_of_def enum_lists)
  subgoal by (cases pm) (simp_all add: enum_of_def enum_lists)
  subgoal by (cases cm) (simp_all add: enum_of_def enum_lists)
  subgoal by (cases ws) (simp_all add: enum_of_def enum_lists)
  subgoal by (cases rs) (simp_all add: enum_of_def enum_lists)
  subgoal by (cases src) (simp_all add: enum_of_def enum_lists)
  done

section \<open>Dataclasses\<close>

record instruction_file =
  inf_path :: path
  inf_content :: string

record objective =
  ob_id :: string
  ob_prompt :: string
  ob_project_path :: path
  ob_explicit_task :: "string option"
  ob_config_path :: path
  ob_created_at :: datetime

record repository_context =
  rc_project_path :: path
  rc_is_git_worktree :: bool
  rc_branch :: "string option"
  rc_dirty_paths :: "path list"
  rc_instruction_files :: "instruction_file list"
  rc_language_counts :: "(string \<times> int) list"
  rc_docker_files :: "path list"
  rc_command_errors :: "string list"

record model_alias =
  ma_name :: string
  ma_model :: string
  ma_reasoning_effort :: string
  ma_rank :: int

record task_policy =
  tp_task :: string
  tp_description :: string
  tp_model_alias :: string
  tp_sandbox :: sandbox_mode
  tp_approval :: approval_mode
  tp_timeout_seconds :: int
  tp_max_attempts :: int
  tp_destructive :: bool
  tp_external_write :: bool
  tp_escalate_to :: "string option"

record match_rule =
  mr_task :: string
  mr_phrases :: "string list"
  mr_file_globs :: "string list"

record hard_risk_rule =
  hr_flag :: string
  hr_minimum_model_alias :: "string option"
  hr_approval :: "approval_mode option"

record work_item =
  wi_id :: string
  wi_title :: string
  wi_instructions :: string
  wi_task :: string
  wi_phase :: string
  wi_dependencies :: "string list"
  wi_access :: access_mode
  wi_affected_paths :: "path list"
  wi_expected_result :: string
  wi_verification :: "string list"
  wi_confidence :: pyfloat
  wi_risk_flags :: "string fset"

record route_decision =
  rd_task :: string
  rd_model_alias :: string
  rd_model :: string
  rd_reasoning_effort :: string
  rd_sandbox :: sandbox_mode
  rd_approval :: approval_mode
  rd_timeout_seconds :: int
  rd_max_attempts :: int
  rd_destructive :: bool
  rd_external_write :: bool
  rd_escalation_task :: "string option"
  rd_source :: route_source
  rd_reason :: string

record work_result =
  wr_work_item_id :: string
  wr_thread_id :: "string option"
  wr_turn_id :: "string option"
  wr_status :: work_status
  wr_final_response :: "string option"
  wr_sdk_items :: "json list"
  wr_input_tokens :: int
  wr_cached_input_tokens :: int
  wr_output_tokens :: int
  wr_duration_seconds :: pyfloat
  wr_changed_paths :: "path list"
  wr_verification :: "string list"
  wr_confidence :: pyfloat
  wr_escalation_requested :: bool
  wr_error :: "string option"

record approval_record =
  ar_run_id :: string
  ar_work_item_id :: string
  ar_approved_by :: string
  ar_approved_at :: datetime
  ar_configuration_digest :: string
  ar_fingerprint :: string

record run_event =
  ev_timestamp :: datetime
  ev_event :: string
  ev_work_item_id :: "string option"
  ev_details :: "json dict"

record run_state =
  st_schema_version :: int
  st_configuration_digest :: string
  st_objective :: objective
  st_repository :: repository_context
  st_work_items :: "work_item dict"
  st_routes :: "route_decision dict"
  st_results :: "work_result dict"
  st_approvals :: "approval_record dict"
  st_status :: run_status

definition run_id :: "run_state \<Rightarrow> string" where
  "run_id state = ob_id (st_objective state)"

section \<open>Well-formed values\<close>

text \<open>
  What the Python types promise: paths are \<open>Path\<close> objects, time stamps are timezone-aware,
  dictionaries have distinct keys.
\<close>

definition aware_ok :: "datetime \<Rightarrow> bool" where
  "aware_ok t \<longleftrightarrow> datetime_ok t \<and> dt_offset t \<noteq> None"

definition objective_ok :: "objective \<Rightarrow> bool" where
  "objective_ok ob \<longleftrightarrow>
     path_ok (ob_project_path ob) \<and> path_ok (ob_config_path ob) \<and> aware_ok (ob_created_at ob)"

definition repository_ok :: "repository_context \<Rightarrow> bool" where
  "repository_ok rc \<longleftrightarrow>
     path_ok (rc_project_path rc) \<and> list_all path_ok (rc_dirty_paths rc)
     \<and> list_all (\<lambda>f. path_ok (inf_path f)) (rc_instruction_files rc)
     \<and> list_all path_ok (rc_docker_files rc)"

definition work_item_ok :: "work_item \<Rightarrow> bool" where
  "work_item_ok wi \<longleftrightarrow> list_all path_ok (wi_affected_paths wi) \<and> float_ok (wi_confidence wi)"

definition work_result_ok :: "work_result \<Rightarrow> bool" where
  "work_result_ok wr \<longleftrightarrow>
     list_all path_ok (wr_changed_paths wr) \<and> list_all json_ok (wr_sdk_items wr)
     \<and> float_ok (wr_duration_seconds wr) \<and> float_ok (wr_confidence wr)"

definition values_ok :: "('v \<Rightarrow> bool) \<Rightarrow> 'v dict \<Rightarrow> bool" where
  "values_ok P d \<longleftrightarrow> dict_ok d \<and> list_all (\<lambda>(k, v). P v) d"

definition run_state_ok :: "run_state \<Rightarrow> bool" where
  "run_state_ok s \<longleftrightarrow>
     objective_ok (st_objective s) \<and> repository_ok (st_repository s)
     \<and> values_ok work_item_ok (st_work_items s) \<and> values_ok (\<lambda>_. True) (st_routes s)
     \<and> values_ok work_result_ok (st_results s)
     \<and> values_ok (\<lambda>r. aware_ok (ar_approved_at r)) (st_approvals s)"

lemma values_okD:
  "values_ok P d \<Longrightarrow> map_of d k = Some v \<Longrightarrow> P v"
  by (auto simp: values_ok_def list_all_iff dest: map_of_SomeD)

lemma values_ok_dset [simp, intro]:
  assumes "values_ok P d" and "P v"
  shows "values_ok P (dset d k v)"
proof -
  have "dict_ok (dset d k v)" using assms(1) by (auto simp: values_ok_def)
  moreover have "P w" if "(j, w) \<in> set (dset d k v)" for j w
  proof -
    have "map_of (dset d k v) j = Some w" using map_of_mem_iff [OF calculation] that by blast
    then consider "w = v" | "map_of d j = Some w"
      by (cases "j = k") simp_all
    then show "P w" using assms(2) values_okD [OF assms(1)] by cases simp_all
  qed
  ultimately show ?thesis
    unfolding values_ok_def list_all_iff case_prod_beta by (metis prod.collapse)
qed

end
