(* ===== verification/Config.thy ===== *)
theory Config
  imports Domain
begin

text \<open>
  \<open>src/goalrouter/config.py\<close>: the routing policy, read from YAML, validated and parsed. The
  YAML reader, the JSON-Schema validator, the file system and SHA-256 are parameters
  (\<open>config_ports\<close>); everything the program itself checks is defined here. \<open>config_ok\<close>
  is what the validation establishes, and \<open>load_router_config_ok\<close> shows it does.
\<close>

section \<open>YAML values\<close>

text \<open>
  What \<open>yaml.safe_load\<close> returns. Keys need not be strings; \<open>YOther\<close> stands for dates,
  bytes and sets, which no check accepts.
\<close>

datatype yaml =
    YNull
  | YBool bool
  | YInt int
  | YFloat pyfloat
  | YStr string
  | YList "yaml list"
  | YMap "(yaml \<times> yaml) list"
  | YOther string

fun string_keyed :: "(yaml \<times> yaml) list \<Rightarrow> yaml dict option" where
  "string_keyed [] = Some []"
| "string_keyed ((k, v) # kvs) =
     (case k of
        YStr s \<Rightarrow> map_option (\<lambda>d. (s, v) # d) (string_keyed kvs)
      | _ \<Rightarrow> None)"

definition cfg_field :: "yaml dict \<Rightarrow> string \<Rightarrow> yaml result" where
  "cfg_field raw name =
     (case map_of raw name of
        None \<Rightarrow> Inl (ConfigurationError (''Missing configuration field: '' @ name))
      | Some v \<Rightarrow> Inr v)"

definition cfg_mapping :: "string \<Rightarrow> yaml \<Rightarrow> yaml dict result" where
  "cfg_mapping ctx v =
     (case v of
        YMap kvs \<Rightarrow>
          (case string_keyed kvs of
             None \<Rightarrow> Inl (ConfigurationError (''Expected object for '' @ ctx))
           | Some d \<Rightarrow> Inr (dict_of d))
      | _ \<Rightarrow> Inl (ConfigurationError (''Expected object for '' @ ctx)))"

definition cfg_string :: "yaml dict \<Rightarrow> string \<Rightarrow> string result" where
  "cfg_string raw name =
     rbind (cfg_field raw name) (\<lambda>v.
       case v of YStr s \<Rightarrow> Inr s | _ \<Rightarrow> Inl (ConfigurationError (''Expected string for '' @ name)))"

definition cfg_optional_string :: "yaml dict \<Rightarrow> string \<Rightarrow> string option result" where
  "cfg_optional_string raw name =
     (case map_of raw name of
        None \<Rightarrow> Inr None
      | Some YNull \<Rightarrow> Inr None
      | Some (YStr s) \<Rightarrow> Inr (Some s)
      | Some _ \<Rightarrow> Inl (ConfigurationError (''Expected string for '' @ name)))"

definition cfg_integer :: "yaml dict \<Rightarrow> string \<Rightarrow> int result" where
  "cfg_integer raw name =
     rbind (cfg_field raw name) (\<lambda>v.
       case v of YInt i \<Rightarrow> Inr i | _ \<Rightarrow> Inl (ConfigurationError (''Expected integer for '' @ name)))"

definition cfg_optional_boolean :: "yaml dict \<Rightarrow> string \<Rightarrow> bool \<Rightarrow> bool result" where
  "cfg_optional_boolean raw name dflt =
     (case map_of raw name of
        None \<Rightarrow> Inr dflt
      | Some (YBool b) \<Rightarrow> Inr b
      | Some _ \<Rightarrow> Inl (ConfigurationError (''Expected boolean for '' @ name)))"

definition cfg_optional_sequence :: "yaml dict \<Rightarrow> string \<Rightarrow> yaml list result" where
  "cfg_optional_sequence raw name =
     (case map_of raw name of
        None \<Rightarrow> Inr []
      | Some (YList vs) \<Rightarrow> Inr vs
      | Some _ \<Rightarrow> Inl (ConfigurationError (''Expected array for '' @ name)))"

fun yaml_strings :: "yaml list \<Rightarrow> string list option" where
  "yaml_strings [] = Some []"
| "yaml_strings (v # vs) =
     (case v of YStr s \<Rightarrow> map_option (\<lambda>ss. s # ss) (yaml_strings vs) | _ \<Rightarrow> None)"

definition cfg_strings :: "string \<Rightarrow> yaml list \<Rightarrow> string list result" where
  "cfg_strings ctx vs =
     (case yaml_strings vs of
        None \<Rightarrow> Inl (ConfigurationError (''Expected strings for '' @ ctx))
      | Some ss \<Rightarrow> Inr ss)"

section \<open>The policy\<close>

record router_config =
  cf_schema_version :: int
  cf_default_task :: string
  cf_planner_task :: string
  cf_completion_task :: string
  cf_maximum_read_concurrency :: int
  cf_repository_inspection_timeout_seconds :: int
  cf_model_aliases :: "model_alias dict"
  cf_tasks :: "task_policy dict"
  cf_matching :: "match_rule list"
  cf_hard_risk_rules :: "hard_risk_rule list"
  cf_digest :: string

section \<open>Semantic validation\<close>

definition indexed_ctx :: "string \<Rightarrow> nat \<Rightarrow> string" where
  "indexed_ctx name index = name @ ''['' @ str_of_int (int index) @ '']''"

fun check_ranks :: "string \<Rightarrow> (int \<times> string) list \<Rightarrow> yaml dict \<Rightarrow> unit result" where
  "check_ranks cpath ranks [] = Inr ()"
| "check_ranks cpath ranks ((name, v) # rest) =
     rbind (cfg_mapping (''model-aliases.'' @ name) v) (\<lambda>alias.
     rbind (cfg_integer alias ''rank'') (\<lambda>rank.
       if rank \<le> 0 then
         Inl (ConfigurationError (''Invalid model alias rank for '' @ name @ '' in '' @ cpath))
       else
         (case map_of ranks rank of
            Some other \<Rightarrow>
              Inl (ConfigurationError (''Duplicate model alias rank '' @ str_of_int rank @ '' for ''
                @ other @ '' and '' @ name @ '' in '' @ cpath))
          | None \<Rightarrow> check_ranks cpath ((rank, name) # ranks) rest)))"

fun check_named_tasks :: "string \<Rightarrow> yaml dict \<Rightarrow> yaml dict \<Rightarrow> string list \<Rightarrow> unit result" where
  "check_named_tasks cpath raw tasks [] = Inr ()"
| "check_named_tasks cpath raw tasks (f # fs) =
     rbind (cfg_string raw f) (\<lambda>task_name.
       if task_name \<in> set (dkeys tasks) then check_named_tasks cpath raw tasks fs
       else Inl (ConfigurationError
              (''Unknown '' @ f @ '' '' @ py_repr task_name @ '' in '' @ cpath)))"

fun check_tasks :: "string \<Rightarrow> yaml dict \<Rightarrow> yaml dict \<Rightarrow> yaml dict \<Rightarrow> unit result" where
  "check_tasks cpath aliases tasks [] = Inr ()"
| "check_tasks cpath aliases tasks ((name, v) # rest) =
     rbind (cfg_mapping (''tasks.'' @ name) v) (\<lambda>task.
     rbind (cfg_string task ''model-alias'') (\<lambda>alias_name.
       if alias_name \<notin> set (dkeys aliases) then
         Inl (ConfigurationError (''Task '' @ py_repr name @ '' references unknown model alias ''
           @ py_repr alias_name @ '' in '' @ cpath))
       else
         rbind (cfg_optional_string task ''escalate-to'') (\<lambda>escalation.
           case escalation of
             None \<Rightarrow> check_tasks cpath aliases tasks rest
           | Some e \<Rightarrow>
               if e \<notin> set (dkeys tasks) then
                 Inl (ConfigurationError (''Task '' @ py_repr name @ '' references unknown escalation ''
                   @ py_repr e @ '' in '' @ cpath))
               else check_tasks cpath aliases tasks rest)))"

fun check_matching :: "string \<Rightarrow> yaml dict \<Rightarrow> nat \<Rightarrow> yaml list \<Rightarrow> unit result" where
  "check_matching cpath tasks index [] = Inr ()"
| "check_matching cpath tasks index (v # vs) =
     rbind (cfg_mapping (indexed_ctx ''matching'' index) v) (\<lambda>rule.
     rbind (cfg_string rule ''task'') (\<lambda>task_name.
       if task_name \<notin> set (dkeys tasks) then
         Inl (ConfigurationError (''Matching rule '' @ str_of_int (int index)
           @ '' references unknown task '' @ py_repr task_name @ '' in '' @ cpath))
       else check_matching cpath tasks (Suc index) vs))"

fun check_hard_risk :: "string \<Rightarrow> yaml dict \<Rightarrow> nat \<Rightarrow> yaml list \<Rightarrow> unit result" where
  "check_hard_risk cpath aliases index [] = Inr ()"
| "check_hard_risk cpath aliases index (v # vs) =
     rbind (cfg_mapping (indexed_ctx ''hard-risk-rules'' index) v) (\<lambda>rule.
     rbind (cfg_optional_string rule ''minimum-model-alias'') (\<lambda>risk_alias.
       case risk_alias of
         None \<Rightarrow> check_hard_risk cpath aliases (Suc index) vs
       | Some a \<Rightarrow>
           if a \<notin> set (dkeys aliases) then
             Inl (ConfigurationError (''Hard-risk rule '' @ str_of_int (int index)
               @ '' references unknown alias '' @ py_repr a @ '' in '' @ cpath))
           else check_hard_risk cpath aliases (Suc index) vs))"

definition validate_semantics :: "yaml dict \<Rightarrow> string \<Rightarrow> unit result" where
  "validate_semantics raw cpath =
     rbind (rbind (cfg_field raw ''model-aliases'') (cfg_mapping ''model-aliases'')) (\<lambda>aliases.
     rbind (rbind (cfg_field raw ''tasks'') (cfg_mapping ''tasks'')) (\<lambda>tasks.
     rbind (check_ranks cpath [] aliases) (\<lambda>_.
     rbind (check_named_tasks cpath raw tasks [''default-task'', ''planner-task'', ''completion-task''])
       (\<lambda>_.
     rbind (check_tasks cpath aliases tasks tasks) (\<lambda>_.
     rbind (rbind (cfg_optional_sequence raw ''matching'') (check_matching cpath tasks 0)) (\<lambda>_.
     rbind (cfg_optional_sequence raw ''hard-risk-rules'') (check_hard_risk cpath aliases 0)))))))"

section \<open>Parsing\<close>

text \<open>\<open>SandboxMode(value)\<close> and \<open>ApprovalMode(value)\<close> raise \<open>ValueError\<close> on an unknown value.\<close>

definition enum_value :: "string \<Rightarrow> ('a \<Rightarrow> string) \<Rightarrow> 'a list \<Rightarrow> string \<Rightarrow> 'a result" where
  "enum_value cls val members raw =
     (case enum_of val members raw of
        None \<Rightarrow> Inl (PyValueError (py_repr raw @ '' is not a valid '' @ cls))
      | Some m \<Rightarrow> Inr m)"

definition parse_model_alias :: "string \<Rightarrow> yaml dict \<Rightarrow> model_alias result" where
  "parse_model_alias name raw =
     rbind (cfg_string raw ''model'') (\<lambda>a.
     rbind (cfg_string raw ''reasoning-effort'') (\<lambda>b.
     rbind (cfg_integer raw ''rank'') (\<lambda>c.
       Inr \<lparr>ma_name = name, ma_model = a, ma_reasoning_effort = b, ma_rank = c\<rparr>)))"

definition parse_task_policy :: "string \<Rightarrow> yaml dict \<Rightarrow> task_policy result" where
  "parse_task_policy name raw =
     rbind (cfg_string raw ''description'') (\<lambda>a.
     rbind (cfg_string raw ''model-alias'') (\<lambda>b.
     rbind (rbind (cfg_string raw ''sandbox'') (enum_value ''SandboxMode'' sandbox_mode_value sandbox_modes)) (\<lambda>c.
     rbind (rbind (cfg_string raw ''approval'') (enum_value ''ApprovalMode'' approval_mode_value approval_modes)) (\<lambda>d.
     rbind (cfg_integer raw ''timeout-seconds'') (\<lambda>e.
     rbind (cfg_integer raw ''max-attempts'') (\<lambda>f.
     rbind (cfg_optional_boolean raw ''destructive'' False) (\<lambda>g.
     rbind (cfg_optional_boolean raw ''external-write'' False) (\<lambda>h.
     rbind (cfg_optional_string raw ''escalate-to'') (\<lambda>i.
       Inr \<lparr>tp_task = name, tp_description = a, tp_model_alias = b, tp_sandbox = c,
            tp_approval = d, tp_timeout_seconds = e, tp_max_attempts = f, tp_destructive = g,
            tp_external_write = h, tp_escalate_to = i\<rparr>)))))))))"

definition parse_match_rule :: "yaml dict \<Rightarrow> match_rule result" where
  "parse_match_rule raw =
     rbind (cfg_string raw ''task'') (\<lambda>a.
     rbind (rbind (cfg_optional_sequence raw ''phrases'') (cfg_strings ''phrases'')) (\<lambda>b.
     rbind (rbind (cfg_optional_sequence raw ''file-globs'') (cfg_strings ''file-globs'')) (\<lambda>c.
       Inr \<lparr>mr_task = a, mr_phrases = b, mr_file_globs = c\<rparr>)))"

definition parse_hard_risk_rule :: "yaml dict \<Rightarrow> hard_risk_rule result" where
  "parse_hard_risk_rule raw =
     rbind (cfg_optional_string raw ''approval'') (\<lambda>approval.
     rbind (cfg_string raw ''flag'') (\<lambda>a.
     rbind (cfg_optional_string raw ''minimum-model-alias'') (\<lambda>b.
     rbind (case approval of
              None \<Rightarrow> Inr None
            | Some v \<Rightarrow> rbind (enum_value ''ApprovalMode'' approval_mode_value approval_modes v)
                          (\<lambda>m. Inr (Some m))) (\<lambda>c.
       Inr \<lparr>hr_flag = a, hr_minimum_model_alias = b, hr_approval = c\<rparr>))))"

definition parse_entries ::
  "string \<Rightarrow> (string \<Rightarrow> yaml dict \<Rightarrow> 'v result) \<Rightarrow> yaml dict \<Rightarrow> 'v dict result" where
  "parse_entries ctx f d =
     rmap (\<lambda>kv. rbind (cfg_mapping (ctx @ ''.'' @ fst kv) (snd kv)) (\<lambda>m.
                rbind (f (fst kv) m) (\<lambda>v. Inr (fst kv, v)))) d"

definition parse_rules :: "string \<Rightarrow> (yaml dict \<Rightarrow> 'v result) \<Rightarrow> yaml list \<Rightarrow> 'v list result" where
  "parse_rules ctx f vs =
     rmap (\<lambda>iv. rbind (cfg_mapping (indexed_ctx ctx (fst iv)) (snd iv)) f) (enumerate 0 vs)"

definition parse_router_config :: "yaml dict \<Rightarrow> string \<Rightarrow> router_config result" where
  "parse_router_config raw digest =
     rbind (rbind (cfg_field raw ''model-aliases'') (cfg_mapping ''model-aliases'')) (\<lambda>aliases_raw.
     rbind (rbind (cfg_field raw ''tasks'') (cfg_mapping ''tasks'')) (\<lambda>tasks_raw.
     rbind (parse_entries ''model-aliases'' parse_model_alias aliases_raw) (\<lambda>aliases.
     rbind (parse_entries ''tasks'' parse_task_policy tasks_raw) (\<lambda>tasks.
     rbind (rbind (cfg_optional_sequence raw ''matching'') (parse_rules ''matching'' parse_match_rule)) (\<lambda>matching.
     rbind (rbind (cfg_optional_sequence raw ''hard-risk-rules'')
              (parse_rules ''hard-risk-rules'' parse_hard_risk_rule)) (\<lambda>hard.
     rbind (cfg_integer raw ''schema-version'') (\<lambda>a.
     rbind (cfg_string raw ''default-task'') (\<lambda>b.
     rbind (cfg_string raw ''planner-task'') (\<lambda>c.
     rbind (cfg_string raw ''completion-task'') (\<lambda>d.
     rbind (cfg_integer raw ''maximum-read-concurrency'') (\<lambda>e.
     rbind (cfg_integer raw ''repository-inspection-timeout-seconds'') (\<lambda>f.
       Inr \<lparr>cf_schema_version = a, cf_default_task = b, cf_planner_task = c,
            cf_completion_task = d, cf_maximum_read_concurrency = e,
            cf_repository_inspection_timeout_seconds = f, cf_model_aliases = aliases,
            cf_tasks = tasks, cf_matching = matching, cf_hard_risk_rules = hard,
            cf_digest = digest\<rparr>))))))))))))"

section \<open>Loading\<close>

text \<open>
  \<open>cp_read\<close> reads a file, \<open>cp_yaml\<close> is UTF-8 decoding and \<open>yaml.safe_load\<close>, and
  \<open>cp_json\<close> is reading and parsing the schema file, each with the message of its failure.
  \<open>yaml.safe_load\<close> fails with a \<open>YAMLError\<close>, or with the plain \<open>ValueError\<close> of a constructor
  (a date or an integer out of range), which the \<open>except\<close> clause does not name;
  \<open>cp_first_error\<close> is the first error of the schema validator (location and message), or
  the failure that the schema itself is invalid.
\<close>

datatype yaml_failure = YamlRefused string | YamlValueError string

record config_ports =
  cp_read :: "path \<Rightarrow> string + string"
  cp_yaml :: "string \<Rightarrow> yaml_failure + yaml"
  cp_json :: "path \<Rightarrow> string + yaml"
  cp_first_error :: "yaml dict \<Rightarrow> yaml dict \<Rightarrow> string + (string list \<times> string) option"
  cp_sha256 :: "string \<Rightarrow> string"
  cp_env_schema :: "string option"

definition validate_json_schema ::
  "config_ports \<Rightarrow> yaml dict \<Rightarrow> path \<Rightarrow> path \<Rightarrow> unit result" where
  "validate_json_schema ports raw schema_path config_path =
     (let cannot = (\<lambda>m. Inl (ConfigurationError
                      (''Cannot load routing schema '' @ str_path schema_path @ '': '' @ m)))
      in case cp_json ports schema_path of
           Inl m \<Rightarrow> cannot m
         | Inr loaded \<Rightarrow>
             rbind (cfg_mapping (''schema '' @ str_path schema_path) loaded) (\<lambda>schema.
               case cp_first_error ports schema raw of
                 Inl m \<Rightarrow> cannot m
               | Inr None \<Rightarrow> Inr ()
               | Inr (Some (location, msg)) \<Rightarrow>
                   Inl (ConfigurationError (''Invalid routing configuration '' @ str_path config_path
                     @ '' at '' @ (if py_join ''.'' location = [] then ''root'' else py_join ''.'' location)
                     @ '': '' @ msg))))"

definition load_router_config :: "config_ports \<Rightarrow> path \<Rightarrow> path option \<Rightarrow> router_config result" where
  "load_router_config ports path schema_path =
     (let cannot = (\<lambda>m. Inl (ConfigurationError
                      (''Cannot load routing configuration '' @ str_path path @ '': '' @ m)))
      in case cp_read ports path of
           Inl m \<Rightarrow> cannot m
         | Inr raw_bytes \<Rightarrow>
             (case cp_yaml ports raw_bytes of
                Inl (YamlRefused m) \<Rightarrow> cannot m
              | Inl (YamlValueError m) \<Rightarrow> Inl (PyValueError m)
              | Inr loaded \<Rightarrow>
                  rbind (cfg_mapping (''routing configuration '' @ str_path path) loaded) (\<lambda>raw.
                  rbind (validate_json_schema ports raw
                          (case schema_path of
                             Some p \<Rightarrow> p
                           | None \<Rightarrow> path_of (case cp_env_schema ports of
                                        Some e \<Rightarrow> e
                                      | None \<Rightarrow> ''/etc/goalrouter/task-models.schema.json''))
                          path) (\<lambda>_.
                  rbind (validate_semantics raw (str_path path)) (\<lambda>_.
                    parse_router_config raw (cp_sha256 ports raw_bytes))))))"

section \<open>What validation establishes\<close>

definition alias_entry_ok :: "string \<times> model_alias \<Rightarrow> bool" where
  "alias_entry_ok e \<longleftrightarrow> ma_name (snd e) = fst e \<and> 0 < ma_rank (snd e)"

definition task_entry_ok :: "string set \<Rightarrow> string set \<Rightarrow> string \<times> task_policy \<Rightarrow> bool" where
  "task_entry_ok alias_names task_names e \<longleftrightarrow>
     tp_task (snd e) = fst e \<and> tp_model_alias (snd e) \<in> alias_names
     \<and> (case tp_escalate_to (snd e) of None \<Rightarrow> True | Some t \<Rightarrow> t \<in> task_names)"

definition hard_rule_ok :: "string set \<Rightarrow> hard_risk_rule \<Rightarrow> bool" where
  "hard_rule_ok alias_names r \<longleftrightarrow>
     (case hr_minimum_model_alias r of None \<Rightarrow> True | Some a \<Rightarrow> a \<in> alias_names)"

definition config_ok :: "router_config \<Rightarrow> bool" where
  "config_ok c \<longleftrightarrow>
     (let alias_names = set (dkeys (cf_model_aliases c)); task_names = set (dkeys (cf_tasks c))
      in dict_ok (cf_model_aliases c) \<and> dict_ok (cf_tasks c)
         \<and> list_all alias_entry_ok (cf_model_aliases c)
         \<and> distinct (map (\<lambda>e. ma_rank (snd e)) (cf_model_aliases c))
         \<and> {cf_default_task c, cf_planner_task c, cf_completion_task c} \<subseteq> task_names
         \<and> list_all (task_entry_ok alias_names task_names) (cf_tasks c)
         \<and> list_all (\<lambda>r. mr_task r \<in> task_names) (cf_matching c)
         \<and> list_all (hard_rule_ok alias_names) (cf_hard_risk_rules c))"

lemma cfg_mapping_ok: "cfg_mapping ctx v = Inr d \<Longrightarrow> dict_ok d"
  by (auto simp: cfg_mapping_def split: yaml.splits option.splits)

lemma parse_entries_keys: "parse_entries ctx f d = Inr es \<Longrightarrow> dkeys es = dkeys d"
  unfolding parse_entries_def
  by (induction d arbitrary: es) (auto simp: result_simps)

lemma check_ranks_ok:
  assumes "check_ranks cpath ranks d = Inr ()" and "parse_entries ''model-aliases'' parse_model_alias d = Inr es"
  shows "list_all alias_entry_ok es \<and> distinct (map (\<lambda>e. ma_rank (snd e)) es)
    \<and> (\<forall>e \<in> set es. map_of ranks (ma_rank (snd e)) = None)"
  using assms
proof (induction d arbitrary: ranks es)
  case Nil
  then show ?case by (simp add: parse_entries_def)
next
  case (Cons nv d)
  obtain name v where nv: "nv = (name, v)" by fastforce
  from Cons.prems(2) obtain raw a es' where m: "cfg_mapping (''model-aliases.'' @ name) v = Inr raw"
    and a: "parse_model_alias name raw = Inr a"
    and es': "parse_entries ''model-aliases'' parse_model_alias d = Inr es'" and es: "es = (name, a) # es'"
    by (auto simp: parse_entries_def nv result_simps)
  from a have rank: "cfg_integer raw ''rank'' = Inr (ma_rank a)" and nm: "ma_name a = name"
    by (auto simp: parse_model_alias_def result_simps)
  from Cons.prems(1) m rank have pos: "0 < ma_rank a" and fresh: "map_of ranks (ma_rank a) = None"
    and rest: "check_ranks cpath ((ma_rank a, name) # ranks) d = Inr ()"
    by (auto simp: nv split: if_splits option.splits)
  from Cons.IH [OF rest es'] show ?case
    using pos fresh nm by (auto simp: es alias_entry_ok_def split: if_splits)
qed

lemma check_tasks_ok:
  assumes "check_tasks cpath aliases tasks d = Inr ()" and "parse_entries ''tasks'' parse_task_policy d = Inr es"
  shows "list_all (task_entry_ok (set (dkeys aliases)) (set (dkeys tasks))) es"
  using assms
proof (induction d arbitrary: es)
  case Nil
  then show ?case by (simp add: parse_entries_def)
next
  case (Cons nv d)
  obtain name v where nv: "nv = (name, v)" by fastforce
  from Cons.prems(2) obtain raw t es' where m: "cfg_mapping (''tasks.'' @ name) v = Inr raw"
    and t: "parse_task_policy name raw = Inr t"
    and es': "parse_entries ''tasks'' parse_task_policy d = Inr es'" and es: "es = (name, t) # es'"
    by (auto simp: parse_entries_def nv result_simps)
  from t have al: "cfg_string raw ''model-alias'' = Inr (tp_model_alias t)" and nm: "tp_task t = name"
    and esc: "cfg_optional_string raw ''escalate-to'' = Inr (tp_escalate_to t)"
    by (auto simp: parse_task_policy_def result_simps)
  from Cons.prems(1) m al esc have "task_entry_ok (set (dkeys aliases)) (set (dkeys tasks)) (name, t)"
    and rest: "check_tasks cpath aliases tasks d = Inr ()"
    using nm by (auto simp: nv task_entry_ok_def split: if_splits option.splits)
  with Cons.IH [OF rest es'] show ?case by (simp add: es)
qed

lemma check_named_tasks_ok:
  "check_named_tasks cpath raw tasks fs = Inr () \<Longrightarrow> f \<in> set fs \<Longrightarrow> cfg_string raw f = Inr t
    \<Longrightarrow> t \<in> set (dkeys tasks)"
  by (induction fs) (auto simp: result_simps split: if_splits intro: rev_image_eqI)

lemma check_matching_ok:
  assumes "check_matching cpath tasks n vs = Inr ()"
    and "rmap (\<lambda>iv. rbind (cfg_mapping (indexed_ctx ''matching'' (fst iv)) (snd iv)) parse_match_rule) (enumerate n vs) = Inr rs"
  shows "list_all (\<lambda>r. mr_task r \<in> set (dkeys tasks)) rs"
  using assms
proof (induction vs arbitrary: n rs)
  case Nil
  then show ?case by simp
next
  case (Cons v vs)
  from Cons.prems(2) obtain raw r rs' where m: "cfg_mapping (indexed_ctx ''matching'' n) v = Inr raw"
    and r: "parse_match_rule raw = Inr r"
    and rs': "rmap (\<lambda>iv. rbind (cfg_mapping (indexed_ctx ''matching'' (fst iv)) (snd iv)) parse_match_rule) (enumerate (Suc n) vs) = Inr rs'"
    and rs: "rs = r # rs'"
    by (auto simp: result_simps)
  from r have task: "cfg_string raw ''task'' = Inr (mr_task r)"
    by (auto simp: parse_match_rule_def result_simps)
  from Cons.prems(1) m task have "mr_task r \<in> set (dkeys tasks)"
    and rest: "check_matching cpath tasks (Suc n) vs = Inr ()"
    by (auto split: if_splits intro: rev_image_eqI)
  with Cons.IH [OF rest rs'] show ?case by (simp add: rs)
qed

lemma check_hard_risk_ok:
  assumes "check_hard_risk cpath aliases n vs = Inr ()"
    and "rmap (\<lambda>iv. rbind (cfg_mapping (indexed_ctx ''hard-risk-rules'' (fst iv)) (snd iv)) parse_hard_risk_rule) (enumerate n vs) = Inr rs"
  shows "list_all (hard_rule_ok (set (dkeys aliases))) rs"
  using assms
proof (induction vs arbitrary: n rs)
  case Nil
  then show ?case by simp
next
  case (Cons v vs)
  from Cons.prems(2) obtain raw r rs' where m: "cfg_mapping (indexed_ctx ''hard-risk-rules'' n) v = Inr raw"
    and r: "parse_hard_risk_rule raw = Inr r"
    and rs': "rmap (\<lambda>iv. rbind (cfg_mapping (indexed_ctx ''hard-risk-rules'' (fst iv)) (snd iv)) parse_hard_risk_rule) (enumerate (Suc n) vs) = Inr rs'"
    and rs: "rs = r # rs'"
    by (auto simp: result_simps)
  from r have al: "cfg_optional_string raw ''minimum-model-alias'' = Inr (hr_minimum_model_alias r)"
    by (auto simp: parse_hard_risk_rule_def result_simps)
  from Cons.prems(1) m al have "hard_rule_ok (set (dkeys aliases)) r"
    and rest: "check_hard_risk cpath aliases (Suc n) vs = Inr ()"
    by (auto simp: hard_rule_ok_def split: if_splits option.splits)
  with Cons.IH [OF rest rs'] show ?case by (simp add: rs)
qed

lemma validated_config_ok:
  assumes v: "validate_semantics raw cpath = Inr ()" and p: "parse_router_config raw digest = Inr c"
  shows "config_ok c"
proof -
  from v obtain aliases tasks where
    al: "rbind (cfg_field raw ''model-aliases'') (cfg_mapping ''model-aliases'') = Inr aliases"
    and ta: "rbind (cfg_field raw ''tasks'') (cfg_mapping ''tasks'') = Inr tasks"
    and ranks: "check_ranks cpath [] aliases = Inr ()"
    and named: "check_named_tasks cpath raw tasks [''default-task'', ''planner-task'', ''completion-task''] = Inr ()"
    and ct: "check_tasks cpath aliases tasks tasks = Inr ()"
    and mt: "rbind (cfg_optional_sequence raw ''matching'') (check_matching cpath tasks 0) = Inr ()"
    and hr: "rbind (cfg_optional_sequence raw ''hard-risk-rules'') (check_hard_risk cpath aliases 0) = Inr ()"
    unfolding validate_semantics_def by (elim rbind_Inr_E) simp
  from p al ta have
    pal: "parse_entries ''model-aliases'' parse_model_alias aliases = Inr (cf_model_aliases c)"
    and pta: "parse_entries ''tasks'' parse_task_policy tasks = Inr (cf_tasks c)"
    and pmt: "rbind (cfg_optional_sequence raw ''matching'') (parse_rules ''matching'' parse_match_rule) = Inr (cf_matching c)"
    and phr: "rbind (cfg_optional_sequence raw ''hard-risk-rules'') (parse_rules ''hard-risk-rules'' parse_hard_risk_rule) = Inr (cf_hard_risk_rules c)"
    and names: "cfg_string raw ''default-task'' = Inr (cf_default_task c)"
      "cfg_string raw ''planner-task'' = Inr (cf_planner_task c)"
      "cfg_string raw ''completion-task'' = Inr (cf_completion_task c)"
    unfolding parse_router_config_def by (auto simp: rbind_eq_Inr_iff)
  note keys = parse_entries_keys [OF pal] parse_entries_keys [OF pta]
  have "dict_ok aliases" and "dict_ok tasks"
    using al ta cfg_mapping_ok by (auto simp: result_simps)
  then have "dict_ok (cf_model_aliases c)" "dict_ok (cf_tasks c)"
    by (simp_all add: dict_ok_def keys)
  moreover have "list_all (\<lambda>r. mr_task r \<in> set (dkeys tasks)) (cf_matching c)"
    using mt pmt check_matching_ok unfolding parse_rules_def by (auto elim!: rbind_Inr_E)
  moreover have "list_all (hard_rule_ok (set (dkeys aliases))) (cf_hard_risk_rules c)"
    using hr phr check_hard_risk_ok unfolding parse_rules_def by (auto elim!: rbind_Inr_E)
  ultimately show ?thesis
    using check_ranks_ok [OF ranks pal] check_tasks_ok [OF ct pta]
      check_named_tasks_ok [OF named _ names(1)] check_named_tasks_ok [OF named _ names(2)]
      check_named_tasks_ok [OF named _ names(3)]
    unfolding config_ok_def Let_def keys by simp
qed

lemma load_router_config_ok:
  assumes "load_router_config ports path schema_path = Inr c"
  shows "config_ok c"
proof -
  from assms obtain raw digest where "validate_semantics raw (str_path path) = Inr ()"
    and "parse_router_config raw digest = Inr c"
    unfolding load_router_config_def Let_def
    by (auto simp: result_simps split: sum.splits yaml_failure.splits)
  then show ?thesis by (rule validated_config_ok)
qed

end
