(* ===== verification/Examples.thy ===== *)
theory Examples
  imports Config
begin

text \<open>
  Small concrete values, a configuration with two models and three tasks and a run with two
  work items, at which the theorems of the other theories are instantiated.
\<close>

definition ex_time :: datetime where
  "ex_time = \<lparr>dt_year = 2026, dt_month = 1, dt_day = 2, dt_hour = 3, dt_minute = 4,
     dt_second = 5, dt_micro = 6, dt_offset = Some 0\<rparr>"

definition ex_root :: path where
  "ex_root = Path ''/'' [''srv'']"

definition ex_objective :: objective where
  "ex_objective = \<lparr>ob_id = ''r1'', ob_prompt = ''fix it'', ob_project_path = Path ''/'' [''p''],
     ob_explicit_task = None, ob_config_path = Path ''/'' [''c''], ob_created_at = ex_time\<rparr>"

definition ex_repository :: repository_context where
  "ex_repository = \<lparr>rc_project_path = Path ''/'' [''p''], rc_is_git_worktree = True,
     rc_branch = Some ''main'', rc_dirty_paths = [], rc_instruction_files = [],
     rc_language_counts = [(''Python'', 3)], rc_docker_files = [], rc_command_errors = []\<rparr>"

definition ex_item :: "string \<Rightarrow> string list \<Rightarrow> access_mode \<Rightarrow> string fset \<Rightarrow> work_item" where
  "ex_item wid deps access flags = \<lparr>wi_id = wid, wi_title = ''t'', wi_instructions = ''do'',
     wi_task = ''code'', wi_phase = ''p'', wi_dependencies = deps, wi_access = access,
     wi_affected_paths = [Path [] [''a.py'']], wi_expected_result = ''e'',
     wi_verification = [''test''], wi_confidence = Fin 5 (-1), wi_risk_flags = flags\<rparr>"

definition ex_route :: "approval_mode \<Rightarrow> route_decision" where
  "ex_route approval = \<lparr>rd_task = ''code'', rd_model_alias = ''fast'', rd_model = ''m1'',
     rd_reasoning_effort = ''low'', rd_sandbox = SandboxReadOnly, rd_approval = approval,
     rd_timeout_seconds = 60, rd_max_attempts = 1, rd_destructive = False,
     rd_external_write = False, rd_escalation_task = None, rd_source = Planner,
     rd_reason = ''planner task''\<rparr>"

definition ex_result :: "string \<Rightarrow> work_status \<Rightarrow> work_result" where
  "ex_result wid status = \<lparr>wr_work_item_id = wid, wr_thread_id = Some ''th'', wr_turn_id = None,
     wr_status = status, wr_final_response = None, wr_sdk_items = [], wr_input_tokens = 1,
     wr_cached_input_tokens = 0, wr_output_tokens = 2, wr_duration_seconds = Fin 15 (-1),
     wr_changed_paths = [], wr_verification = [], wr_confidence = Fin 1 0,
     wr_escalation_requested = False, wr_error = None\<rparr>"

definition ex_state :: "approval_mode \<Rightarrow> run_state" where
  "ex_state approval = \<lparr>st_schema_version = 1, st_configuration_digest = ''d1'',
     st_objective = ex_objective, st_repository = ex_repository,
     st_work_items = [(''b'', ex_item ''b'' [''a''] AccessWorkspaceWrite {||}),
                      (''a'', ex_item ''a'' [] AccessReadOnly {||})],
     st_routes = [(''b'', ex_route approval), (''a'', ex_route Automatic)],
     st_results = [], st_approvals = [], st_status = RunPlanned\<rparr>"

lemmas ex_defs = ex_time_def ex_objective_def ex_repository_def ex_item_def ex_route_def
  ex_result_def ex_state_def

lemma ex_state_ok: "run_state_ok (ex_state approval)"
  by (simp add: ex_defs run_state_ok_def objective_ok_def repository_ok_def values_ok_def
      dict_ok_def work_item_ok_def path_ok_def keep_part_def aware_ok_def datetime_ok_def
      days_in_month_def too_big_def too_small_def float_limit_def)

definition ex_policy :: "string \<Rightarrow> approval_mode \<Rightarrow> task_policy" where
  "ex_policy name approval = \<lparr>tp_task = name, tp_description = ''d'', tp_model_alias = ''fast'',
     tp_sandbox = SandboxReadOnly, tp_approval = approval, tp_timeout_seconds = 60,
     tp_max_attempts = 1, tp_destructive = False, tp_external_write = False,
     tp_escalate_to = None\<rparr>"

definition ex_config :: router_config where
  "ex_config = \<lparr>cf_schema_version = 1, cf_default_task = ''code'', cf_planner_task = ''plan'',
     cf_completion_task = ''review'', cf_maximum_read_concurrency = 2,
     cf_repository_inspection_timeout_seconds = 5,
     cf_model_aliases =
       [(''strong'', \<lparr>ma_name = ''strong'', ma_model = ''m2'', ma_reasoning_effort = ''high'', ma_rank = 20\<rparr>),
        (''fast'', \<lparr>ma_name = ''fast'', ma_model = ''m1'', ma_reasoning_effort = ''low'', ma_rank = 10\<rparr>)],
     cf_tasks = [(''plan'', ex_policy ''plan'' Automatic), (''code'', ex_policy ''code'' Automatic),
                 (''review'', ex_policy ''review'' Automatic)],
     cf_matching = [\<lparr>mr_task = ''review'', mr_phrases = [''Review''], mr_file_globs = [''**/*.md'']\<rparr>],
     cf_hard_risk_rules =
       [\<lparr>hr_flag = ''destructive'', hr_minimum_model_alias = Some ''strong'', hr_approval = Some Required\<rparr>],
     cf_digest = ''d1''\<rparr>"

lemma ex_config_ok: "config_ok ex_config"
  by (simp add: config_ok_def ex_config_def ex_policy_def dict_ok_def alias_entry_ok_def
      task_entry_ok_def hard_rule_ok_def)

text \<open>The YAML of a one-task policy, and ports that deliver it.\<close>

definition ex_yaml :: yaml where
  "ex_yaml = YMap
     [(YStr ''schema-version'', YInt 1), (YStr ''default-task'', YStr ''code''),
      (YStr ''planner-task'', YStr ''code''), (YStr ''completion-task'', YStr ''code''),
      (YStr ''maximum-read-concurrency'', YInt 2),
      (YStr ''repository-inspection-timeout-seconds'', YInt 5),
      (YStr ''model-aliases'', YMap [(YStr ''fast'', YMap [(YStr ''model'', YStr ''m1''),
         (YStr ''reasoning-effort'', YStr ''low''), (YStr ''rank'', YInt 10)])]),
      (YStr ''tasks'', YMap [(YStr ''code'', YMap [(YStr ''description'', YStr ''d''),
         (YStr ''model-alias'', YStr ''fast''), (YStr ''sandbox'', YStr ''read-only''),
         (YStr ''approval'', YStr ''automatic''), (YStr ''timeout-seconds'', YInt 60),
         (YStr ''max-attempts'', YInt 1)])])]"

definition ex_ports :: config_ports where
  "ex_ports = \<lparr>cp_read = (\<lambda>_. Inr ''text''), cp_yaml = (\<lambda>_. Inr ex_yaml), cp_json = (\<lambda>_. Inr (YMap [])),
     cp_first_error = (\<lambda>_ _. Inr None), cp_sha256 = (\<lambda>_. ''d1''), cp_env_schema = None\<rparr>"

definition ex_loaded :: router_config where
  "ex_loaded = \<lparr>cf_schema_version = 1, cf_default_task = ''code'', cf_planner_task = ''code'',
     cf_completion_task = ''code'', cf_maximum_read_concurrency = 2,
     cf_repository_inspection_timeout_seconds = 5,
     cf_model_aliases =
       [(''fast'', \<lparr>ma_name = ''fast'', ma_model = ''m1'', ma_reasoning_effort = ''low'', ma_rank = 10\<rparr>)],
     cf_tasks = [(''code'', ex_policy ''code'' Automatic)], cf_matching = [],
     cf_hard_risk_rules = [], cf_digest = ''d1''\<rparr>"

lemma ex_load: "load_router_config ex_ports ex_root None = Inr ex_loaded"
  by (simp add: load_router_config_def ex_ports_def ex_yaml_def cfg_mapping_def dict_of_def
      validate_json_schema_def Let_def validate_semantics_def cfg_field_def cfg_integer_def
      cfg_string_def cfg_optional_string_def cfg_optional_sequence_def parse_router_config_def
      parse_entries_def parse_rules_def parse_model_alias_def parse_task_policy_def
      cfg_optional_boolean_def enum_value_def enum_of_def sandbox_modes_def approval_modes_def
      ex_loaded_def ex_policy_def)

end
