(* ===== verification/Fnmatch.thy ===== *)
theory Fnmatch
  imports Py_Text
begin

text \<open>
  \<open>fnmatch.fnmatchcase\<close> of the standard library, which routing uses for file globs. The
  library translates a pattern to a regular expression; here the pattern is parsed to tokens
  and the tokens are matched directly. The bracket rules are the library's: a leading
  \<open>!\<close> negates, a \<open>]\<close> in first place is a member, ranges with swapped bounds are dropped,
  and an unclosed bracket is a literal.
\<close>

datatype glob_token =
    GLit char
  | GAny
  | GStar
  | GClass bool "string list"
  | GNever

text \<open>The body of a bracket and what follows its \<open>]\<close>; \<open>None\<close> when it is not closed.\<close>

definition bracket_split :: "string \<Rightarrow> (string \<times> string) option" where
  "bracket_split s =
     (let bang = (if starts_with ''!'' s then 1 else 0);
          first = (if starts_with '']'' (drop bang s) then Suc bang else bang);
          body = takeWhile (\<lambda>c. c \<noteq> CHR '']'') (drop first s);
          j = first + length body
      in if j < length s then Some (take j s, drop (Suc j) s) else None)"

lemma bracket_split_length: "bracket_split s = Some (stuff, rest) \<Longrightarrow> length rest < length s"
  by (auto simp: bracket_split_def Let_def split: if_splits)

fun find_from :: "char \<Rightarrow> string \<Rightarrow> nat \<Rightarrow> nat option" where
  "find_from c s k =
     (let t = takeWhile (\<lambda>d. d \<noteq> c) (drop k s)
      in if k + length t < length s then Some (k + length t) else None)"

declare find_from.simps [simp del]

lemma find_from_less: "find_from c s k = Some p \<Longrightarrow> p < length s"
  by (auto simp: find_from.simps Let_def split: if_splits)

text \<open>The pieces between the hyphens that form ranges.\<close>

function chunks_from :: "string \<Rightarrow> nat \<Rightarrow> string list" where
  "chunks_from s k =
     (case find_from (CHR ''-'') s k of
        None \<Rightarrow> [s]
      | Some p \<Rightarrow>
          (if drop (Suc p) s = [] then [take p s @ ''-'']
           else take p s # chunks_from (drop (Suc p) s) 2))"
  by pat_completeness auto
termination
  by (relation "measure (\<lambda>(s, k). length s)") (auto dest: find_from_less)

declare chunks_from.simps [simp del]

text \<open>Ranges whose bounds are swapped are empty: both bounds are removed, from the right.\<close>

fun drop_empty_ranges :: "string list \<Rightarrow> string list" where
  "drop_empty_ranges [] = []"
| "drop_empty_ranges (a # cs) =
     (case drop_empty_ranges cs of
        [] \<Rightarrow> [a]
      | b # bs \<Rightarrow>
          (if a \<noteq> [] \<and> b \<noteq> [] \<and> ord (hd b) < ord (last a) then (butlast a @ tl b) # bs
           else a # b # bs))"

definition class_token :: "string \<Rightarrow> glob_token" where
  "class_token stuff =
     (let chunks = (if CHR ''-'' \<notin> set stuff then [stuff]
                    else drop_empty_ranges
                           (chunks_from stuff (if starts_with ''!'' stuff then 2 else 1)))
      in if chunks = [[]] then GNever
         else if chunks = [''!''] then GAny
         else if starts_with ''!'' (hd chunks) then GClass True (tl (hd chunks) # tl chunks)
         else GClass False chunks)"

function glob_parse :: "string \<Rightarrow> glob_token list" where
  "glob_parse [] = []"
| "glob_parse (c # s) =
     (if c = CHR ''*'' then GStar # glob_parse s
      else if c = CHR ''?'' then GAny # glob_parse s
      else if c = CHR ''['' then
        (case bracket_split s of
           None \<Rightarrow> GLit c # glob_parse s
         | Some (stuff, rest) \<Rightarrow> class_token stuff # glob_parse rest)
      else GLit c # glob_parse s)"
  by pat_completeness auto
termination
  by (relation "measure length") (auto dest: bracket_split_length)

fun in_ranges :: "char \<Rightarrow> string list \<Rightarrow> bool" where
  "in_ranges c (a # b # cs) \<longleftrightarrow>
     (a \<noteq> [] \<and> b \<noteq> [] \<and> ord (last a) \<le> ord c \<and> ord c \<le> ord (hd b)) \<or> in_ranges c (b # cs)"
| "in_ranges c _ \<longleftrightarrow> False"

definition in_class :: "char \<Rightarrow> string list \<Rightarrow> bool" where
  "in_class c chunks \<longleftrightarrow> c \<in> set (concat chunks) \<or> in_ranges c chunks"

fun glob_match :: "glob_token list \<Rightarrow> string \<Rightarrow> bool" where
  "glob_match [] s \<longleftrightarrow> s = []"
| "glob_match (GStar # ts) [] \<longleftrightarrow> glob_match ts []"
| "glob_match (GStar # ts) (c # s) \<longleftrightarrow> glob_match ts (c # s) \<or> glob_match (GStar # ts) s"
| "glob_match (GLit d # ts) (c # s) \<longleftrightarrow> c = d \<and> glob_match ts s"
| "glob_match (GAny # ts) (c # s) \<longleftrightarrow> glob_match ts s"
| "glob_match (GClass neg cs # ts) (c # s) \<longleftrightarrow> (in_class c cs \<noteq> neg) \<and> glob_match ts s"
| "glob_match (t # ts) s \<longleftrightarrow> False"

definition fnmatchcase :: "string \<Rightarrow> string \<Rightarrow> bool" where
  "fnmatchcase name pat \<longleftrightarrow> glob_match (glob_parse pat) name"

lemma glob_match_star: "glob_match (GStar # ts) s \<longleftrightarrow> (\<exists>t u. s = t @ u \<and> glob_match ts u)"
proof (induction s)
  case Nil
  then show ?case by simp
next
  case (Cons c s)
  show ?case
  proof
    assume "glob_match (GStar # ts) (c # s)"
    then consider "glob_match ts (c # s)" | "glob_match (GStar # ts) s" by auto
    then show "\<exists>t u. c # s = t @ u \<and> glob_match ts u"
    proof cases
      case 1
      then show ?thesis by (metis append_Nil)
    next
      case 2
      then show ?thesis using Cons.IH by (metis append_Cons)
    qed
  next
    assume "\<exists>t u. c # s = t @ u \<and> glob_match ts u"
    then obtain t u where tu: "c # s = t @ u" "glob_match ts u" by blast
    show "glob_match (GStar # ts) (c # s)"
    proof (cases t)
      case Nil
      with tu have "glob_match ts (c # s)" by simp
      then show ?thesis by simp
    next
      case (Cons d t')
      with tu have "s = t' @ u" by simp
      with tu(2) have "glob_match (GStar # ts) s" using Cons.IH by blast
      then show ?thesis by simp
    qed
  qed
qed

text \<open>A pattern without special characters matches exactly itself.\<close>

lemma fnmatchcase_literal:
  assumes "set pat \<inter> {CHR ''*'', CHR ''?'', CHR ''[''} = {}"
  shows "fnmatchcase name pat \<longleftrightarrow> name = pat"
proof -
  have "glob_parse pat = map GLit pat"
    using assms by (induction pat) auto
  moreover have "glob_match (map GLit pat) name \<longleftrightarrow> name = pat"
  proof (induction pat arbitrary: name)
    case Nil
    then show ?case by simp
  next
    case (Cons c pat)
    then show ?case by (cases name) auto
  qed
  ultimately show ?thesis by (simp add: fnmatchcase_def)
qed

lemma fnmatchcase_star: "fnmatchcase name ''*''"
  by (auto simp: fnmatchcase_def glob_match_star)

end
