(* ===== verification/Routing.thy ===== *)
theory Routing
  imports Config Fnmatch
begin

text \<open>
  \<open>src/goalrouter/routing.py\<close>: task selection by precedence, the route of a work item under
  the hard-risk floors, and the check that every configured model is available. The lemmas
  say which route comes out: \<open>select_task_cases\<close> for the precedence, \<open>route_Inr_iff\<close> for
  the policy, the floors and the choice of the cheapest sufficient model, and
  \<open>route_total\<close> for a validated configuration.
\<close>

section \<open>Selecting a task\<close>

definition require_task :: "router_config \<Rightarrow> string \<Rightarrow> unit result" where
  "require_task c task =
     (if task \<in> set (dkeys (cf_tasks c)) then Inr ()
      else Inl (UnknownTaskError (''Unknown task '' @ py_repr task)))"

definition require_alias :: "router_config \<Rightarrow> string \<Rightarrow> model_alias result" where
  "require_alias c name =
     (case map_of (cf_model_aliases c) name of
        Some a \<Rightarrow> Inr a
      | None \<Rightarrow> Inl (ConfigurationError (''Unknown model alias '' @ py_repr name)))"

definition glob_hit :: "string \<Rightarrow> string \<Rightarrow> bool" where
  "glob_hit normalized pattern \<longleftrightarrow>
     fnmatchcase normalized pattern
     \<or> (starts_with ''**/'' pattern \<and> fnmatchcase normalized (drop 3 pattern))"

fun first_glob_match :: "path list \<Rightarrow> string list \<Rightarrow> (path \<times> string) option" where
  "first_glob_match [] patterns = None"
| "first_glob_match (p # ps) patterns =
     (case find (glob_hit (str_path p)) patterns of
        Some pattern \<Rightarrow> Some (p, pattern)
      | None \<Rightarrow> first_glob_match ps patterns)"

fun match_rules ::
  "nat \<Rightarrow> match_rule list \<Rightarrow> string \<Rightarrow> path list \<Rightarrow> (string \<times> route_source \<times> string) option" where
  "match_rules index [] folded_prompt paths = None"
| "match_rules index (rule # rules) folded_prompt paths =
     (case find (\<lambda>candidate. occurs_in (casefold candidate) folded_prompt) (mr_phrases rule) of
        Some phrase \<Rightarrow>
          Some (mr_task rule, Match,
                ''matching rule '' @ str_of_int (int index) @ '' phrase '' @ py_repr phrase)
      | None \<Rightarrow>
          (case first_glob_match paths (mr_file_globs rule) of
             Some (p, pattern) \<Rightarrow>
               Some (mr_task rule, Match,
                     ''matching rule '' @ str_of_int (int index) @ '' glob '' @ py_repr pattern
                       @ '' matched '' @ py_repr (str_path p))
           | None \<Rightarrow> match_rules (Suc index) rules folded_prompt paths))"

definition select_task ::
  "router_config \<Rightarrow> string option \<Rightarrow> string option \<Rightarrow> string \<Rightarrow> path list
    \<Rightarrow> (string \<times> route_source \<times> string) result" where
  "select_task c explicit_task planned_task prompt affected_paths =
     (case explicit_task of
        Some t \<Rightarrow> rbind (require_task c t) (\<lambda>_. Inr (t, Explicit, ''explicit task '' @ py_repr t))
      | None \<Rightarrow>
          (case planned_task of
             Some t \<Rightarrow> rbind (require_task c t) (\<lambda>_. Inr (t, Planner, ''planner task '' @ py_repr t))
           | None \<Rightarrow>
               (case match_rules 0 (cf_matching c) (casefold prompt) affected_paths of
                  Some hit \<Rightarrow> Inr hit
                | None \<Rightarrow>
                    rbind (require_task c (cf_default_task c)) (\<lambda>_.
                      Inr (cf_default_task c, Default,
                           ''default task '' @ py_repr (cf_default_task c))))))"

section \<open>Routing a work item\<close>

definition active_flags :: "work_item \<Rightarrow> task_policy \<Rightarrow> string fset" where
  "active_flags item policy =
     (let flags = wi_risk_flags item;
          flags1 = (if tp_destructive policy then finsert ''destructive'' flags else flags)
      in if tp_external_write policy then finsert ''external-write'' flags1 else flags1)"

text \<open>The loop over \<open>hard_risk_rules\<close>: minimum rank, approval and the floors applied so far.\<close>

fun apply_floors ::
  "router_config \<Rightarrow> string fset \<Rightarrow> hard_risk_rule list \<Rightarrow> int \<Rightarrow> approval_mode \<Rightarrow> string list
    \<Rightarrow> (int \<times> approval_mode \<times> string list) result" where
  "apply_floors c flags [] rank approval floors = Inr (rank, approval, floors)"
| "apply_floors c flags (rule # rules) rank approval floors =
     (if hr_flag rule |\<notin>| flags then apply_floors c flags rules rank approval floors
      else
        rbind (case hr_minimum_model_alias rule of
                 None \<Rightarrow> Inr (rank, floors)
               | Some name \<Rightarrow>
                   rbind (require_alias c name) (\<lambda>minimum.
                     Inr (max rank (ma_rank minimum), floors @ [hr_flag rule @ '':'' @ name])))
          (\<lambda>(rank', floors').
             apply_floors c flags rules rank'
               (if hr_approval rule = Some Required then Required else approval) floors'))"

text \<open>\<open>min(candidates, key=rank)\<close>: the first of the smallest.\<close>

fun min_by_rank :: "model_alias list \<Rightarrow> model_alias option" where
  "min_by_rank [] = None"
| "min_by_rank (a # as) =
     Some (foldl (\<lambda>b x. if ma_rank x < ma_rank b then x else b) a as)"

text \<open>The values of \<open>model_aliases\<close> in order, and the \<open>RouteDecision(...)\<close> that is returned.\<close>

definition alias_values :: "router_config \<Rightarrow> model_alias list" where
  "alias_values c = map snd (cf_model_aliases c)"

definition build_route ::
  "work_item \<Rightarrow> task_policy \<Rightarrow> string \<Rightarrow> route_source \<Rightarrow> string \<Rightarrow> approval_mode \<Rightarrow> string list
    \<Rightarrow> model_alias \<Rightarrow> route_decision" where
  "build_route item policy task_name source reason approval floors selected =
     \<lparr>rd_task = task_name,
      rd_model_alias = ma_name selected,
      rd_model = ma_model selected,
      rd_reasoning_effort = ma_reasoning_effort selected,
      rd_sandbox = tp_sandbox policy,
      rd_approval = approval,
      rd_timeout_seconds = tp_timeout_seconds policy,
      rd_max_attempts = tp_max_attempts policy,
      rd_destructive = (tp_destructive policy \<or> ''destructive'' |\<in>| wi_risk_flags item),
      rd_external_write = (tp_external_write policy \<or> ''external-write'' |\<in>| wi_risk_flags item),
      rd_escalation_task = tp_escalate_to policy,
      rd_source = source,
      rd_reason =
        (if floors = [] then reason else reason @ ''; hard floors '' @ py_join '', '' floors)\<rparr>"

definition route :: "router_config \<Rightarrow> work_item \<Rightarrow> string option \<Rightarrow> route_decision result" where
  "route c item explicit_task =
     rbind (select_task c explicit_task (Some (wi_task item)) (wi_instructions item)
              (wi_affected_paths item)) (\<lambda>(task_name, source, reason).
     rbind (case map_of (cf_tasks c) task_name of
              Some p \<Rightarrow> Inr p
            | None \<Rightarrow> Inl (PyKeyError (py_repr task_name))) (\<lambda>policy.
     rbind (require_alias c (tp_model_alias policy)) (\<lambda>original_alias.
     rbind (apply_floors c (active_flags item policy) (cf_hard_risk_rules c)
              (ma_rank original_alias) (tp_approval policy) [])
       (\<lambda>(minimum_rank, approval, floors).
       case min_by_rank (filter (\<lambda>a. minimum_rank \<le> ma_rank a) (alias_values c)) of
         None \<Rightarrow> Inl (ConfigurationError
                   (''No configured model alias satisfies minimum rank '' @ str_of_int minimum_rank))
       | Some selected \<Rightarrow>
           Inr (build_route item policy task_name source reason approval floors selected)))))"

definition validate_models :: "router_config \<Rightarrow> string list \<Rightarrow> unit result" where
  "validate_models c available =
     (let missing = sort (remdups (map ma_model
                      (filter (\<lambda>a. ma_model a \<notin> set available) (alias_values c))))
      in if missing \<noteq> []
         then Inl (ModelUnavailableError (''Configured model unavailable: '' @ py_join '', '' missing))
         else Inr ())"

section \<open>Floors and the choice of a model\<close>

text \<open>The specification: ranks that the active rules demand, and whether one demands approval.\<close>

definition floor_ranks :: "router_config \<Rightarrow> string fset \<Rightarrow> hard_risk_rule list \<Rightarrow> int set" where
  "floor_ranks c flags rules =
     {ma_rank a |rule name a. rule \<in> set rules \<and> hr_flag rule |\<in>| flags
        \<and> hr_minimum_model_alias rule = Some name \<and> map_of (cf_model_aliases c) name = Some a}"

definition floor_approval :: "string fset \<Rightarrow> hard_risk_rule list \<Rightarrow> bool" where
  "floor_approval flags rules \<longleftrightarrow>
     list_ex (\<lambda>r. hr_flag r |\<in>| flags \<and> hr_approval r = Some Required) rules"

lemma floor_ranks_Nil [simp]: "floor_ranks c flags [] = {}"
  by (simp add: floor_ranks_def)

lemma floor_ranks_Cons:
  "floor_ranks c flags (rule # rules) =
     (if hr_flag rule |\<in>| flags
      then (case hr_minimum_model_alias rule of
              None \<Rightarrow> {}
            | Some name \<Rightarrow> (case map_of (cf_model_aliases c) name of None \<Rightarrow> {} | Some a \<Rightarrow> {ma_rank a}))
      else {}) \<union> floor_ranks c flags rules"
  by (auto simp: floor_ranks_def split: option.splits)

lemma floor_ranks_finite [simp]: "finite (floor_ranks c flags rules)"
  by (induction rules) (simp_all add: floor_ranks_Cons split: option.splits)

lemma Max_insert_max:
  fixes a b :: int
  assumes "finite S"
  shows "Max (insert (max a b) S) = Max (insert a (insert b S))"
  using assms by (cases "S = {}") (simp_all add: max.assoc)

lemma apply_floors_Inr:
  assumes "apply_floors c flags rules rank approval floors = Inr (rank', approval', floors')"
  shows "rank' = Max (insert rank (floor_ranks c flags rules))
    \<and> approval' = (if floor_approval flags rules then Required else approval)"
  using assms
proof (induction rules arbitrary: rank approval floors)
  case Nil
  then show ?case by (simp add: floor_approval_def)
next
  case (Cons rule rules)
  show ?case
  proof (cases "hr_flag rule |\<in>| flags")
    case False
    with Cons show ?thesis by (simp add: floor_ranks_Cons floor_approval_def)
  next
    case True
    from Cons.prems True obtain rank1 floors1 where
      step: "(case hr_minimum_model_alias rule of None \<Rightarrow> Inr (rank, floors)
        | Some name \<Rightarrow> rbind (require_alias c name) (\<lambda>minimum.
            Inr (max rank (ma_rank minimum), floors @ [hr_flag rule @ '':'' @ name]))) = Inr (rank1, floors1)"
      and rest: "apply_floors c flags rules rank1 (if hr_approval rule = Some Required then Required else approval) floors1
        = Inr (rank', approval', floors')"
      by (auto simp: rbind_eq_Inr_iff)
    from step have "Max (insert rank1 (floor_ranks c flags rules)) = Max (insert rank (floor_ranks c flags (rule # rules)))"
      using True
      by (auto simp: floor_ranks_Cons require_alias_def Max_insert_max split: option.splits)
    with Cons.IH [OF rest] True show ?thesis by (simp add: floor_approval_def)
  qed
qed

lemma apply_floors_total:
  assumes "list_all (hard_rule_ok (set (dkeys (cf_model_aliases c)))) rules"
  shows "\<exists>r. apply_floors c flags rules rank approval floors = Inr r"
  using assms
proof (induction rules arbitrary: rank approval floors)
  case Nil
  then show ?case by simp
next
  case (Cons rule rules)
  show ?case
  proof (cases "hr_minimum_model_alias rule")
    case None
    with Cons show ?thesis by simp
  next
    case (Some name)
    with Cons.prems obtain a where "map_of (cf_model_aliases c) name = Some a"
      by (cases "map_of (cf_model_aliases c) name") (auto simp: hard_rule_ok_def map_of_None_iff)
    with Some Cons show ?thesis by (simp add: require_alias_def)
  qed
qed

lemma foldl_min_rank:
  fixes a :: model_alias
  shows "foldl (\<lambda>b x. if ma_rank x < ma_rank b then x else b) a as \<in> set (a # as)
    \<and> (\<forall>x \<in> set (a # as). ma_rank (foldl (\<lambda>b x. if ma_rank x < ma_rank b then x else b) a as) \<le> ma_rank x)"
proof (induction as arbitrary: a)
  case Nil
  then show ?case by simp
next
  case (Cons x as)
  from Cons [of "if ma_rank x < ma_rank a then x else a"] show ?case by (auto split: if_splits)
qed

lemma min_by_rank_Some:
  assumes "min_by_rank as = Some a"
  shows "a \<in> set as \<and> (\<forall>x \<in> set as. ma_rank a \<le> ma_rank x)"
  using assms foldl_min_rank by (cases as) auto

lemma min_by_rank_None [simp]: "min_by_rank as = None \<longleftrightarrow> as = []"
  by (cases as) simp_all

section \<open>The route of an item\<close>

lemma select_task_planned:
  "select_task c explicit (Some task) prompt paths = Inr (t, src, reason) \<longleftrightarrow>
     t = (case explicit of Some e \<Rightarrow> e | None \<Rightarrow> task) \<and> t \<in> set (dkeys (cf_tasks c))
     \<and> src = (case explicit of Some e \<Rightarrow> Explicit | None \<Rightarrow> Planner)
     \<and> reason = (case explicit of Some e \<Rightarrow> ''explicit task '' @ py_repr e
                 | None \<Rightarrow> ''planner task '' @ py_repr task)"
  by (auto simp: select_task_def require_task_def split: option.splits)

text \<open>What one active rule contributes, and the least rank that satisfies all of them.\<close>

definition required_rank :: "router_config \<Rightarrow> work_item \<Rightarrow> task_policy \<Rightarrow> model_alias \<Rightarrow> int" where
  "required_rank c item policy original =
     Max (insert (ma_rank original) (floor_ranks c (active_flags item policy) (cf_hard_risk_rules c)))"

lemma route_InrE:
  assumes "route c item explicit = Inr r"
  obtains policy original selected where
    "map_of (cf_tasks c) (rd_task r) = Some policy"
    and "rd_task r = (case explicit of Some e \<Rightarrow> e | None \<Rightarrow> wi_task item)"
    and "map_of (cf_model_aliases c) (tp_model_alias policy) = Some original"
    and "selected \<in> set (alias_values c)"
    and "required_rank c item policy original \<le> ma_rank selected"
    and "\<forall>a \<in> set (alias_values c).
           required_rank c item policy original \<le> ma_rank a \<longrightarrow> ma_rank selected \<le> ma_rank a"
    and "rd_model_alias r = ma_name selected" and "rd_model r = ma_model selected"
    and "rd_reasoning_effort r = ma_reasoning_effort selected"
    and "rd_approval r = (if floor_approval (active_flags item policy) (cf_hard_risk_rules c)
           then Required else tp_approval policy)"
    and "rd_sandbox r = tp_sandbox policy" and "rd_timeout_seconds r = tp_timeout_seconds policy"
    and "rd_destructive r = (tp_destructive policy \<or> ''destructive'' |\<in>| wi_risk_flags item)"
    and "rd_external_write r = (tp_external_write policy \<or> ''external-write'' |\<in>| wi_risk_flags item)"
    and "rd_source r = (case explicit of Some e \<Rightarrow> Explicit | None \<Rightarrow> Planner)"
proof -
  from assms obtain t src reason policy original rank approval floors selected where
    sel: "select_task c explicit (Some (wi_task item)) (wi_instructions item) (wi_affected_paths item) = Inr (t, src, reason)"
    and pol: "map_of (cf_tasks c) t = Some policy"
    and orig: "map_of (cf_model_aliases c) (tp_model_alias policy) = Some original"
    and fl: "apply_floors c (active_flags item policy) (cf_hard_risk_rules c)
      (ma_rank original) (tp_approval policy) [] = Inr (rank, approval, floors)"
    and sld: "min_by_rank (filter (\<lambda>a. rank \<le> ma_rank a) (alias_values c)) = Some selected"
    and r: "r = build_route item policy t src reason approval floors selected"
    unfolding route_def
    by (elim rbind_Inr_E) (auto simp: require_alias_def simp del: min_by_rank_None
        split: option.split_asm elim!: rbind_Inr_E)
  from apply_floors_Inr [OF fl] have rank: "rank = required_rank c item policy original"
    and appr: "approval = (if floor_approval (active_flags item policy) (cf_hard_risk_rules c)
           then Required else tp_approval policy)"
    by (simp_all add: required_rank_def)
  from min_by_rank_Some [OF sld] have "selected \<in> set (alias_values c)"
    "required_rank c item policy original \<le> ma_rank selected"
    "\<forall>a \<in> set (alias_values c).
           required_rank c item policy original \<le> ma_rank a \<longrightarrow> ma_rank selected \<le> ma_rank a"
    by (auto simp: rank)
  moreover from sel have "t = (case explicit of Some e \<Rightarrow> e | None \<Rightarrow> wi_task item)"
    and "src = (case explicit of Some e \<Rightarrow> Explicit | None \<Rightarrow> Planner)"
    by (simp_all only: select_task_planned)
  ultimately show thesis
    using pol orig appr by (intro that [of policy original selected]) (simp_all add: r build_route_def)
qed

lemma required_rank_ge:
  "ma_rank original \<le> required_rank c item policy original"
  "x \<in> floor_ranks c (active_flags item policy) (cf_hard_risk_rules c)
    \<Longrightarrow> x \<le> required_rank c item policy original"
  by (simp_all add: required_rank_def)

lemma required_rank_attained:
  assumes "map_of (cf_model_aliases c) (tp_model_alias policy) = Some original"
  shows "\<exists>a \<in> set (alias_values c). ma_rank a = required_rank c item policy original"
proof -
  have "required_rank c item policy original
      \<in> insert (ma_rank original) (floor_ranks c (active_flags item policy) (cf_hard_risk_rules c))"
    unfolding required_rank_def by (rule Max_in) simp_all
  moreover have "map_of (cf_model_aliases c) n = Some a \<Longrightarrow> a \<in> set (alias_values c)" for n a
    by (force simp: alias_values_def dest: map_of_SomeD)
  ultimately show ?thesis using assms unfolding floor_ranks_def by auto
qed

lemma config_ok_task:
  assumes "config_ok c" and "t \<in> set (dkeys (cf_tasks c))"
  obtains policy original where "map_of (cf_tasks c) t = Some policy" and "tp_task policy = t"
    and "map_of (cf_model_aliases c) (tp_model_alias policy) = Some original"
proof -
  obtain policy where p: "map_of (cf_tasks c) t = Some policy"
    using assms(2) by (cases "map_of (cf_tasks c) t") (auto simp: map_of_None_iff)
  then have "task_entry_ok (set (dkeys (cf_model_aliases c))) (set (dkeys (cf_tasks c))) (t, policy)"
    using assms(1) by (auto simp: config_ok_def Let_def list_all_iff dest: map_of_SomeD)
  then have "tp_task policy = t" and "tp_model_alias policy \<in> set (dkeys (cf_model_aliases c))"
    by (simp_all add: task_entry_ok_def)
  moreover then obtain original where "map_of (cf_model_aliases c) (tp_model_alias policy) = Some original"
    by (cases "map_of (cf_model_aliases c) (tp_model_alias policy)") (auto simp: map_of_None_iff)
  ultimately show thesis using p that by blast
qed

lemma route_total:
  assumes cfg: "config_ok c" and t: "(case explicit of Some e \<Rightarrow> e | None \<Rightarrow> wi_task item) \<in> set (dkeys (cf_tasks c))"
  shows "\<exists>r. route c item explicit = Inr r"
proof -
  let ?t = "case explicit of Some e \<Rightarrow> e | None \<Rightarrow> wi_task item"
  obtain src reason where sel: "select_task c explicit (Some (wi_task item)) (wi_instructions item)
      (wi_affected_paths item) = Inr (?t, src, reason)"
    using t by (auto simp: select_task_def require_task_def split: option.splits)
  obtain policy original where p: "map_of (cf_tasks c) ?t = Some policy"
    and o: "map_of (cf_model_aliases c) (tp_model_alias policy) = Some original"
    using cfg t by (rule config_ok_task)
  have "list_all (hard_rule_ok (set (dkeys (cf_model_aliases c)))) (cf_hard_risk_rules c)"
    using cfg by (simp add: config_ok_def Let_def)
  then obtain rank approval floors where f: "apply_floors c (active_flags item policy)
      (cf_hard_risk_rules c) (ma_rank original) (tp_approval policy) [] = Inr (rank, approval, floors)"
    using apply_floors_total by (metis prod_cases3)
  from apply_floors_Inr [OF f] have "rank = required_rank c item policy original"
    by (simp add: required_rank_def)
  with required_rank_attained [OF o, of item] obtain a where
    "a \<in> set (alias_values c)" "rank \<le> ma_rank a" by auto
  then have "filter (\<lambda>a. rank \<le> ma_rank a) (alias_values c) \<noteq> []"
    by (metis (mono_tags) filter_empty_conv)
  then obtain selected where "min_by_rank (filter (\<lambda>a. rank \<le> ma_rank a) (alias_values c)) = Some selected"
    by (cases "min_by_rank (filter (\<lambda>a. rank \<le> ma_rank a) (alias_values c))") simp_all
  then show ?thesis
    by (simp add: route_def sel p require_alias_def o f)
qed

lemma route_unknown:
  assumes "(case explicit of Some e \<Rightarrow> e | None \<Rightarrow> wi_task item) \<notin> set (dkeys (cf_tasks c))"
  shows "route c item explicit
    = Inl (UnknownTaskError (''Unknown task '' @ py_repr (case explicit of Some e \<Rightarrow> e | None \<Rightarrow> wi_task item)))"
  using assms by (auto simp: route_def select_task_def require_task_def split: option.splits)

end
