(* ===== verification/Json_Roundtrip.thy ===== *)
theory Json_Roundtrip
  imports Json
begin

text \<open>
  \<open>loads (dumps l v) = Some (sort_keys v)\<close> for either layout: string literals, numbers and
  containers each read back what the writer wrote, whatever follows that cannot extend the
  last token. With \<open>dumps_inject\<close>, two values have the same text only if they are equal up
  to the order of keys.
\<close>

section \<open>String literals\<close>

lemma hex_val_hex_char: "n < 16 \<Longrightarrow> hex_val (hex_char n) = Some n"
  by (auto simp: hex_val_def hex_char_def is_digit_def)

lemma hex4_hex2:
  assumes "n < 256"
  shows "hex4 (CHR ''0'') (CHR ''0'') (hex_char (n div 16)) (hex_char (n mod 16)) = Some (char_of n)"
proof -
  have z: "hex_val (CHR ''0'') = Some 0" by (simp add: hex_val_def is_digit_def)
  have "n div 16 < 16" using assms by simp
  then show ?thesis using assms
    by (simp add: hex4_def z hex_val_hex_char Let_def)
qed

lemma ord_less [simp]: "ord c < 256"
proof -
  have "ord c \<in> {0..<256}" using range_nat_of_char by (metis rangeI)
  then show ?thesis by simp
qed

lemma control_chars:
  "char_of (8::nat) = CHR 0x08" "char_of (9::nat) = CHR 0x09" "char_of (10::nat) = CHR 0x0A"
  "char_of (12::nat) = CHR 0x0C" "char_of (13::nat) = CHR 0x0D"
  by code_simp+

lemma parse_string_escape:
  "parse_string (escape_char c @ s) = map_option (\<lambda>(t, r). (c # t, r)) (parse_string s)"
proof -
  have cc: "char_of (ord c) = c" by simp
  consider "c = CHR 34" | "c = CHR 92" | "ord c \<in> {8, 9, 10, 12, 13}"
    | "c \<noteq> CHR 34" "c \<noteq> CHR 92" "32 \<le> ord c" "ord c \<le> 126"
    | "c \<noteq> CHR 34" "c \<noteq> CHR 92" "ord c \<notin> {8, 9, 10, 12, 13}" "\<not> (32 \<le> ord c \<and> ord c \<le> 126)"
    by blast
  then show ?thesis
  proof cases
    case 3
    then have "char_of (ord c) \<in> char_of ` {8, 9, 10, 12, 13 :: nat}" by (rule imageI)
    then have "c \<in> {char_of (8::nat), char_of (9::nat), char_of (10::nat), char_of (12::nat), char_of (13::nat)}"
      by (simp only: cc image_insert image_empty)
    then consider "c = CHR 0x08" | "c = CHR 0x09" | "c = CHR 0x0A" | "c = CHR 0x0C" | "c = CHR 0x0D"
      by (simp only: control_chars insert_iff empty_iff) blast
    then show ?thesis
      by cases (simp_all add: escape_char_def unescape_def control_chars)
  next
    case 5
    then have "escape_char c = CHR 92 # ''u00'' @ hex2 (ord c)"
      by (auto simp: escape_char_def)
    then show ?thesis by (simp add: hex2_def hex4_hex2 cc)
  qed (auto simp: escape_char_def unescape_def)
qed

lemma parse_string_escaped:
  "parse_string (concat (map escape_char s) @ CHR 34 # rest) = Some (s, rest)"
  by (induction s) (simp_all add: parse_string_escape)

section \<open>Numbers\<close>

definition stops_number :: "string \<Rightarrow> bool" where
  "stops_number s \<longleftrightarrow>
     (case s of [] \<Rightarrow> True
      | c # _ \<Rightarrow> \<not> is_digit c \<and> c \<noteq> CHR ''.'' \<and> c \<noteq> CHR ''e'' \<and> c \<noteq> CHR ''E'')"

definition int_lexeme :: "string \<Rightarrow> bool" where
  "int_lexeme ip \<longleftrightarrow> ip = ''0'' \<or> (ip \<noteq> [] \<and> list_all is_digit ip \<and> hd ip \<noteq> CHR ''0'')"

definition frac_text :: "string option \<Rightarrow> string" where
  "frac_text fp = (case fp of None \<Rightarrow> [] | Some f \<Rightarrow> CHR ''.'' # f)"

definition exp_text :: "(string \<times> string) option \<Rightarrow> string" where
  "exp_text xp = (case xp of None \<Rightarrow> [] | Some (sg, ds) \<Rightarrow> CHR ''e'' # sg @ ds)"

definition frac_lexeme :: "string option \<Rightarrow> bool" where
  "frac_lexeme fp \<longleftrightarrow> (case fp of None \<Rightarrow> True | Some f \<Rightarrow> f \<noteq> [] \<and> list_all is_digit f)"

definition exp_lexeme :: "(string \<times> string) option \<Rightarrow> bool" where
  "exp_lexeme xp \<longleftrightarrow>
     (case xp of None \<Rightarrow> True
      | Some (sg, ds) \<Rightarrow> (sg = ''-'' \<or> sg = ''+'') \<and> ds \<noteq> [] \<and> list_all is_digit ds)"

definition no_digit_next :: "string \<Rightarrow> bool" where
  "no_digit_next s \<longleftrightarrow> (case s of [] \<Rightarrow> True | c # _ \<Rightarrow> \<not> is_digit c)"

lemma takeWhile_digits:
  "list_all is_digit ds \<Longrightarrow> no_digit_next rest \<Longrightarrow> takeWhile is_digit (ds @ rest) = ds"
  by (induction ds) (auto simp: no_digit_next_def split: list.splits)

lemma int_part_lexeme:
  assumes "int_lexeme ip" and "no_digit_next rest"
  shows "int_part (ip @ rest) = ip"
proof (cases "ip = ''0''")
  case True
  then show ?thesis by (simp add: int_part_def starts_with_def)
next
  case False
  with assms(1) have "ip \<noteq> []" and d: "list_all is_digit ip" and "hd ip \<noteq> CHR ''0''"
    by (auto simp: int_lexeme_def)
  then have "\<not> starts_with ''0'' (ip @ rest)" by (cases ip) (auto simp: starts_with_def)
  then show ?thesis by (simp add: int_part_def takeWhile_digits [OF d assms(2)])
qed

lemma frac_part_lexeme:
  assumes "frac_lexeme fp" and "no_digit_next rest" and "fp = None \<Longrightarrow> \<not> starts_with ''.'' rest"
  shows "frac_part (frac_text fp @ rest) = fp"
  using assms
  by (cases fp)
    (auto simp: frac_part_def frac_text_def frac_lexeme_def expect_def starts_with_def
      takeWhile_digits Let_def split: list.splits)

lemma digit_not_sign: "is_digit c \<Longrightarrow> c \<noteq> CHR ''-'' \<and> c \<noteq> CHR ''+''"
  by (auto simp: is_digit_def)

lemma exp_part_lexeme:
  assumes "exp_lexeme xp" and "stops_number rest"
  shows "exp_part (exp_text xp @ rest) = xp"
proof (cases xp)
  case None
  with assms(2) show ?thesis
    by (auto simp: exp_part_def exp_text_def stops_number_def split: list.splits)
next
  case (Some x)
  obtain sg ds where x: "x = (sg, ds)" by fastforce
  with assms Some have sg: "sg = ''-'' \<or> sg = ''+''" and ds: "ds \<noteq> []" "list_all is_digit ds"
    by (auto simp: exp_lexeme_def)
  have "no_digit_next rest" using assms(2) by (auto simp: stops_number_def no_digit_next_def split: list.splits)
  from takeWhile_digits [OF ds(2) this] sg ds show ?thesis
    by (auto simp: Some x exp_part_def exp_text_def exp_sign_def starts_with_def Let_def)
qed

lemma parse_number_lexeme:
  assumes ip: "int_lexeme ip" and fp: "frac_lexeme fp" and xp: "exp_lexeme xp"
    and rest: "stops_number rest"
  shows "parse_number ((if neg then ''-'' else []) @ ip @ frac_text fp @ exp_text xp @ rest)
    = (if fp = None \<and> xp = None
       then Some (JInt (if neg then - int (nat_of_digits ip) else int (nat_of_digits ip)), rest)
       else Some (JFloat (lexeme_value neg ip (case fp of None \<Rightarrow> [] | Some f \<Rightarrow> f)
              (case xp of None \<Rightarrow> 0 | Some x \<Rightarrow> exp_value x)), rest))"
proof -
  let ?r3 = "exp_text xp @ rest"
  let ?r2 = "frac_text fp @ ?r3"
  have r3: "no_digit_next ?r3" and r3': "\<not> starts_with ''.'' ?r3"
    using rest by (auto simp: exp_text_def stops_number_def no_digit_next_def starts_with_def is_digit_def
        split: option.splits list.splits)
  have r2: "no_digit_next ?r2"
    using r3 by (auto simp: frac_text_def no_digit_next_def is_digit_def split: option.splits)
  have ip0: "ip \<noteq> []" and "\<not> starts_with ''-'' (ip @ ?r2)"
    using ip by (cases ip; auto simp: int_lexeme_def starts_with_def dest: digit_not_sign)+
  then have s1: "starts_with ''-'' ((if neg then ''-'' else []) @ ip @ ?r2) = neg"
    "(if neg then tl ((if neg then ''-'' else []) @ ip @ ?r2) else (if neg then ''-'' else []) @ ip @ ?r2)
      = ip @ ?r2"
    by (auto simp: starts_with_def)
  have d3: "(case fp of None \<Rightarrow> ?r2 | Some f \<Rightarrow> drop (Suc (length f)) ?r2) = ?r3"
    by (cases fp) (simp_all add: frac_text_def)
  have d4: "(case xp of None \<Rightarrow> ?r3 | Some (sg, ds) \<Rightarrow> drop (Suc (length sg + length ds)) ?r3) = rest"
    by (cases xp) (auto simp: exp_text_def)
  have d2: "drop (length ip) (ip @ ?r2) = ?r2" by simp
  have d5: "?r2 = rest" if "fp = None" "xp = None" using that by (simp add: frac_text_def exp_text_def)
  show ?thesis
    unfolding parse_number_def Let_def s1 int_part_lexeme [OF ip r2] d2
      frac_part_lexeme [OF fp r3 r3'] d3 exp_part_lexeme [OF xp rest] d4
    using ip0 d5 by simp
qed

lemma int_lexeme_digits_of [simp]: "int_lexeme (digits_of n)"
proof (cases "n = 0")
  case True
  then show ?thesis by (simp add: int_lexeme_def digits_of.simps [of 0] digit_char_0)
next
  case False
  then show ?thesis using digits_of_hd_zero [of n] by (simp add: int_lexeme_def)
qed

lemma parse_number_int:
  assumes "stops_number rest"
  shows "parse_number (str_of_int i @ rest) = Some (JInt i, rest)"
  using parse_number_lexeme [of "digits_of (nat \<bar>i\<bar>)" None None rest "i < 0"] assms
  by (auto simp: str_of_int_def frac_text_def exp_text_def frac_lexeme_def exp_lexeme_def)

definition exp_digits :: "nat \<Rightarrow> string" where
  "exp_digits n = (if length (digits_of n) < 2 then CHR ''0'' # digits_of n else digits_of n)"

lemma exponent_text_lexeme:
  "exponent_text x = exp_text (Some (if x < 0 then ''-'' else ''+'', exp_digits (nat \<bar>x\<bar>)))"
  by (simp add: exponent_text_def exp_text_def exp_digits_def Let_def)

lemma exp_digits_value [simp]: "nat_of_digits (exp_digits n) = n"
  using nat_of_digits_zeros_left [of 1 "digits_of n"] by (simp add: exp_digits_def)

lemma exp_digits_lexeme: "exp_digits n \<noteq> []" "list_all is_digit (exp_digits n)"
  by (simp_all add: exp_digits_def is_digit_def)

abbreviation frac_digits :: "string option \<Rightarrow> string" where
  "frac_digits fp \<equiv> (case fp of None \<Rightarrow> [] | Some f \<Rightarrow> f)"

abbreviation exp_of :: "(string \<times> string) option \<Rightarrow> int" where
  "exp_of xp \<equiv> (case xp of None \<Rightarrow> 0 | Some x \<Rightarrow> exp_value x)"

definition lexeme_for :: "string \<Rightarrow> nat \<Rightarrow> int \<Rightarrow> bool" where
  "lexeme_for t m e \<longleftrightarrow>
     (\<exists>ip fp xp k. t = ip @ frac_text fp @ exp_text xp \<and> int_lexeme ip \<and> frac_lexeme fp
        \<and> exp_lexeme xp \<and> (fp \<noteq> None \<or> xp \<noteq> None)
        \<and> nat_of_digits (ip @ frac_digits fp) = m * 10 ^ k
        \<and> exp_of xp - int (length (frac_digits fp)) + int k = e)"

lemma lexeme_forI:
  assumes "t = ip @ frac_text fp @ exp_text xp" and "int_lexeme ip" and "frac_lexeme fp"
    and "exp_lexeme xp" and "fp \<noteq> None \<or> xp \<noteq> None"
    and "nat_of_digits (ip @ frac_digits fp) = m * 10 ^ k"
    and "exp_of xp - int (length (frac_digits fp)) + int k = e"
  shows "lexeme_for t m e"
  unfolding lexeme_for_def using assms by blast

lemma repr_digits_lexeme:
  assumes ds: "list_all is_digit ds" "ds \<noteq> []" "hd ds \<noteq> CHR ''0''"
  shows "lexeme_for (repr_digits ds (int (length ds) + e)) (nat_of_digits ds) e"
proof -
  let ?p = "int (length ds) + e"
  have tds: "list_all is_digit (take k ds)" "list_all is_digit (drop k ds)" for k
    using ds(1) by (auto simp: list_all_iff dest: in_set_takeD in_set_dropD)
  have zds: "list_all is_digit (replicate k (CHR ''0''))" for k
    by (simp add: list_all_iff is_digit_def)
  obtain c cs where c: "ds = c # cs" using ds(2) by (cases ds) auto
  consider (expo) "?p \<le> -4 \<or> 16 < ?p" | (zero) "\<not> (?p \<le> -4 \<or> 16 < ?p)" "?p \<le> 0"
    | (mid) "\<not> (?p \<le> -4 \<or> 16 < ?p)" "0 < ?p" "?p < int (length ds)"
    | (big) "\<not> (?p \<le> -4 \<or> 16 < ?p)" "0 < ?p" "int (length ds) \<le> ?p"
    by linarith
  then show ?thesis
  proof cases
    case expo
    let ?xp = "Some (if ?p - 1 < 0 then ''-'' else ''+'', exp_digits (nat \<bar>?p - 1\<bar>))"
    have x: "exp_lexeme ?xp" "exp_of ?xp = ?p - 1"
      by (simp_all add: exp_lexeme_def exp_digits_lexeme exp_value_def)
    have i: "int_lexeme [c]" using ds c by (simp add: int_lexeme_def)
    have t: "repr_digits ds ?p = [c] @ frac_text (if cs = [] then None else Some cs) @ exp_text ?xp"
      using expo by (simp add: repr_digits_def c frac_text_def exponent_text_lexeme)
    show ?thesis
      by (rule lexeme_forI [where k = 0, OF t i _ x(1)])
        (use ds(1) c x(2) in \<open>auto simp: frac_lexeme_def simp del: option.case_eq_if\<close>)
  next
    case zero
    have t: "repr_digits ds ?p
        = ''0'' @ frac_text (Some (replicate (nat (- ?p)) (CHR ''0'') @ ds)) @ exp_text None"
      using zero by (simp add: repr_digits_def frac_text_def exp_text_def)
    show ?thesis
      by (rule lexeme_forI [where k = 0, OF t])
        (use ds zds zero nat_of_digits_zeros_left [of "Suc (nat (- ?p))" ds] in
          \<open>auto simp: int_lexeme_def frac_lexeme_def exp_lexeme_def\<close>)
  next
    case mid
    have t: "repr_digits ds ?p
        = take (nat ?p) ds @ frac_text (Some (drop (nat ?p) ds)) @ exp_text None"
      using mid by (simp add: repr_digits_def frac_text_def exp_text_def)
    have "take (nat ?p) ds \<noteq> []" "hd (take (nat ?p) ds) \<noteq> CHR ''0''"
      using mid ds by auto
    then show ?thesis
      by (intro lexeme_forI [where k = 0, OF t])
        (use mid tds in \<open>auto simp: int_lexeme_def frac_lexeme_def exp_lexeme_def\<close>)
  next
    case big
    let ?k = "nat ?p - length ds"
    have t: "repr_digits ds ?p
        = (ds @ replicate ?k (CHR ''0'')) @ frac_text (Some ''0'') @ exp_text None"
      using big by (simp add: repr_digits_def frac_text_def exp_text_def)
    show ?thesis
      by (rule lexeme_forI [where k = "Suc ?k", OF t])
        (use ds big zds nat_of_digits_zeros_right [of ds "Suc ?k"] in
          \<open>auto simp: int_lexeme_def frac_lexeme_def exp_lexeme_def is_digit_def
             replicate_append_same\<close>)
  qed
qed

lemma parse_number_float:
  assumes ok: "float_ok (Fin m e)" and rest: "stops_number rest"
  shows "parse_number (float_text (Fin m e) @ rest) = Some (JFloat (Fin m e), rest)"
proof (cases "m = 0")
  case True
  with ok have "e = 0" by simp
  have v: "lexeme_value False ''0'' ''0'' 0 = Fin 0 0"
    by (simp add: lexeme_value_def nat_of_digits_def digit_val_def float_of_decimal_def
        too_big_def too_small_def float_limit_def)
  show ?thesis
    using parse_number_lexeme [of "''0''" "Some ''0''" None rest False] rest True \<open>e = 0\<close> v
    by (simp add: int_lexeme_def frac_lexeme_def exp_lexeme_def frac_text_def exp_text_def is_digit_def)
next
  case False
  let ?ds = "digits_of (nat \<bar>m\<bar>)"
  have "hd ?ds \<noteq> CHR ''0''" using False by (simp add: digits_of_hd_zero)
  then have "lexeme_for (repr_digits ?ds (int (length ?ds) + e)) (nat_of_digits ?ds) e"
    by (intro repr_digits_lexeme) simp_all
  then obtain ip fp xp k where t: "repr_digits ?ds (int (length ?ds) + e) = ip @ frac_text fp @ exp_text xp"
    and lex: "int_lexeme ip" "frac_lexeme fp" "exp_lexeme xp" "fp \<noteq> None \<or> xp \<noteq> None"
    and num: "nat_of_digits (ip @ frac_digits fp) = nat \<bar>m\<bar> * 10 ^ k"
    and x: "exp_of xp - int (length (frac_digits fp)) + int k = e"
    unfolding lexeme_for_def nat_of_digits_digits_of by blast
  have "lexeme_value (m < 0) ip (frac_digits fp) (exp_of xp) = Fin m e"
    by (rule lexeme_value_scaled [OF ok False num x])
  moreover have "float_text (Fin m e) = (if m < 0 then ''-'' else []) @ ip @ frac_text fp @ exp_text xp"
    using False by (simp add: t)
  ultimately show ?thesis
    using parse_number_lexeme [OF lex(1-3) rest, of "m < 0"] lex(4) by auto
qed

section \<open>Values\<close>

lemma skip_ws_id: "s \<noteq> [] \<Longrightarrow> \<not> is_ws (hd s) \<Longrightarrow> skip_ws s = s"
  by (cases s) (simp_all add: skip_ws_def)

lemma skip_ws_newline:
  assumes "s \<noteq> []" and "\<not> is_ws (hd s)"
  shows "skip_ws (newline_at l d @ s) = s"
proof (cases l)
  case Compact
  then show ?thesis using assms by (simp add: skip_ws_id)
next
  case (Indent k)
  have "skip_ws (replicate n (CHR 32) @ s) = s" for n
    using assms by (induction n) (simp_all add: skip_ws_def is_ws_def skip_ws_id [unfolded skip_ws_def])
  then show ?thesis by (simp add: Indent skip_ws_def is_ws_def)
qed

lemma skip_ws_key_sep:
  assumes "s \<noteq> []" and "\<not> is_ws (hd s)"
  shows "\<exists>r. expect (CHR '':'') (skip_ws (key_sep l @ s)) = Some r \<and> skip_ws r = s"
  using assms by (cases l) (auto simp: skip_ws_def expect_def is_ws_def skip_ws_id [unfolded skip_ws_def])

text \<open>No value starts with white space or with a closing bracket.\<close>

definition value_start :: "string \<Rightarrow> bool" where
  "value_start s \<longleftrightarrow> s \<noteq> [] \<and> \<not> is_ws (hd s) \<and> hd s \<noteq> CHR '']'' \<and> hd s \<noteq> CHR ''}''"

definition number_start :: "string \<Rightarrow> bool" where
  "number_start s \<longleftrightarrow>
     (\<exists>c r. s = c # r \<and> (is_digit c \<or> c = CHR ''-'' \<and> (\<exists>d r'. r = d # r' \<and> is_digit d)))"

lemma number_start_cases:
  assumes "number_start s"
  obtains c r where "s = c # r" and "is_digit c"
  | d r where "s = CHR ''-'' # d # r" and "is_digit d"
  using assms by (auto simp: number_start_def)

lemma number_start_value [simp]: "number_start s \<Longrightarrow> value_start (s @ t)"
  by (erule number_start_cases) (auto simp: value_start_def is_ws_def is_digit_def)

lemma digit_other: "is_digit c \<Longrightarrow>
    c \<notin> {CHR 34, CHR ''{'', CHR ''['', CHR ''n'', CHR ''t'', CHR ''f'', CHR ''N'', CHR ''I'', CHR ''-''}"
  by (auto simp: is_digit_def)

lemma number_start_parse:
  assumes "number_start s"
  shows "parse_value (Suc n) (s @ t) = parse_number (s @ t)"
  using assms
proof (cases rule: number_start_cases)
  case (1 c r)
  then show ?thesis using digit_other [of c] by (simp add: starts_with_def)
next
  case (2 d r)
  then show ?thesis using digit_other [of d] by (simp add: starts_with_def)
qed

lemma digits_number_start: "ds \<noteq> [] \<Longrightarrow> list_all is_digit ds \<Longrightarrow> number_start (ds @ t)"
  by (cases ds) (auto simp: number_start_def)

lemma digits_number_start_neg:
  "ds \<noteq> [] \<Longrightarrow> list_all is_digit ds \<Longrightarrow> number_start (CHR ''-'' # ds @ t)"
  by (cases ds) (auto simp: number_start_def)

lemma int_number_start: "number_start (str_of_int i)"
  using digits_number_start [of "digits_of (nat i)" "[]"]
    digits_number_start_neg [of "digits_of (nat (- i))" "[]"]
  by (simp add: str_of_int_def)

lemma repr_digits_start:
  assumes "ds \<noteq> []" and "list_all is_digit ds"
  shows "\<exists>c r. repr_digits ds p = c # r \<and> is_digit c"
proof -
  obtain c cs where "ds = c # cs" and "is_digit c" using assms by (cases ds) auto
  moreover have "take (nat p) (c # cs) @ r = c # take (nat p - 1) cs @ r" if "\<not> p \<le> 0" for r
    using that by (simp add: take_Cons' nat_diff_distrib)
  ultimately show ?thesis by (auto simp: repr_digits_def is_digit_def)
qed

lemma float_number_start: "number_start (float_text (Fin m e))"
proof (cases "m = 0")
  case True
  then show ?thesis by (simp add: number_start_def is_digit_def)
next
  case False
  have "\<exists>c r. repr_digits (digits_of (nat \<bar>m\<bar>)) p = c # r \<and> is_digit c" for p
    by (rule repr_digits_start) simp_all
  then obtain c r where "repr_digits (digits_of (nat \<bar>m\<bar>)) (int (length (digits_of (nat \<bar>m\<bar>))) + e) = c # r"
    and "is_digit c" by blast
  then show ?thesis using False by (simp add: number_start_def Let_def)
qed

lemma json_string_start [simp]: "value_start (json_string s @ t)"
  by (simp add: json_string_def value_start_def is_ws_def)

lemma dump_start [simp]: "value_start (dump l d v @ t)"
proof (cases v)
  case (JFloat f)
  then show ?thesis
    using number_start_value [OF float_number_start, of _ _ t]
    by (cases f) (simp_all add: value_start_def is_ws_def del: float_text.simps(1))
next
  case (JList vs)
  then show ?thesis by (cases vs) (simp_all add: value_start_def is_ws_def)
next
  case (JObj ms)
  then show ?thesis by (cases ms) (auto simp: value_start_def is_ws_def)
next
  case (JInt i)
  then show ?thesis using number_start_value [OF int_number_start] by simp
qed (auto simp: value_start_def is_ws_def json_string_def)

lemma value_start_skip: "value_start s \<Longrightarrow> skip_ws s = s"
  and value_start_newline: "value_start s \<Longrightarrow> skip_ws (newline_at l d @ s) = s"
  by (simp_all add: value_start_def skip_ws_id skip_ws_newline)

lemma close_newline:
  assumes "\<not> is_ws c"
  shows "skip_ws (newline_at l d @ c # s) = c # s"
  using assms by (simp add: skip_ws_newline)

lemma stops_newline: "stops_number (newline_at l d @ CHR '']'' # s)" "stops_number (newline_at l d @ CHR ''}'' # s)"
  by (cases l; simp add: stops_number_def is_digit_def)+

lemma stops_comma: "stops_number (CHR '','' # s)"
  by (simp add: stops_number_def is_digit_def)

lemma expect_simps [simp]: "expect c (c # s) = Some s" "d \<noteq> c \<Longrightarrow> expect c (d # s) = None"
  by (simp_all add: expect_def)

lemma expect_value_start: "value_start s \<Longrightarrow> expect (CHR '']'') s = None \<and> expect (CHR ''}'') s = None"
  by (cases s) (auto simp: value_start_def expect_def)

lemma skip_comma [simp]: "skip_ws (CHR '','' # s) = CHR '','' # s"
  by (simp add: skip_ws_id is_ws_def)

lemma ws_brackets [simp]: "\<not> is_ws (CHR '']'')" "\<not> is_ws (CHR ''}'')" "\<not> is_ws (CHR '','')"
  by (simp_all add: is_ws_def)

abbreviation reads_back :: "json \<Rightarrow> bool" where
  "reads_back v \<equiv> (\<forall>l d n rest. stops_number rest \<longrightarrow> 2 * length (dump l d v) \<le> n
     \<longrightarrow> parse_value n (dump l d v @ rest) = Some (v, rest))"

lemma reads_backD:
  "reads_back v \<Longrightarrow> stops_number rest \<Longrightarrow> 2 * length (dump l d v) \<le> n
    \<Longrightarrow> parse_value n (dump l d v @ rest) = Some (v, rest)"
  by blast

lemma elems_read_back:
  assumes "reads_back v" and "\<forall>w \<in> set vs. reads_back w"
    and "2 * length (dump l d v @ dump_elems l d vs) + 1 \<le> n"
  shows "parse_elems n (dump l d v @ dump_elems l d vs @ newline_at l d' @ '']'' @ rest) = Some (v # vs, rest)"
  using assms
proof (induction vs arbitrary: v n)
  case Nil
  then obtain m where m: "n = Suc m" by (cases n) auto
  have "parse_value m (dump l d v @ newline_at l d' @ '']'' @ rest) = Some (v, newline_at l d' @ '']'' @ rest)"
    using Nil.prems m by (intro reads_backD) (simp_all add: stops_newline)
  then show ?case by (simp add: m close_newline)
next
  case (Cons w vs)
  then obtain m where m: "n = Suc m" by (cases n) auto
  let ?t = "newline_at l d @ dump l d w @ dump_elems l d vs @ newline_at l d' @ '']'' @ rest"
  have "parse_value m (dump l d v @ '','' @ ?t) = Some (v, '','' @ ?t)"
    using Cons.prems m by (intro reads_backD) (simp_all add: stops_comma)
  moreover have "parse_elems m (dump l d w @ dump_elems l d vs @ newline_at l d' @ '']'' @ rest) = Some (w # vs, rest)"
    using Cons.prems m by (intro Cons.IH) simp_all
  ultimately show ?case by (simp add: m value_start_newline)
qed

lemma members_read_back:
  assumes "reads_back v" and "\<forall>kw \<in> set ms. reads_back (snd kw)"
    and "2 * length (json_string k @ key_sep l @ dump l d v @ dump_members l d ms) + 1 \<le> n"
  shows "parse_members n (json_string k @ key_sep l @ dump l d v @ dump_members l d ms
           @ newline_at l d' @ ''}'' @ rest) = Some ((k, v) # ms, rest)"
  using assms
proof (induction ms arbitrary: k v n)
  case Nil
  then obtain m where m: "n = Suc m" by (cases n) auto
  let ?t = "newline_at l d' @ ''}'' @ rest"
  have v: "parse_value m (dump l d v @ ?t) = Some (v, ?t)"
    using Nil.prems m by (intro reads_backD) (simp_all add: stops_newline)
  obtain r where "expect (CHR '':'') (skip_ws (key_sep l @ dump l d v @ ?t)) = Some r"
    and "skip_ws r = dump l d v @ ?t"
    using skip_ws_key_sep [of "dump l d v @ ?t" l] dump_start [of l d v ?t] by (auto simp: value_start_def)
  with v show ?case by (simp add: m json_string_def parse_string_escaped close_newline)
next
  case (Cons kw ms)
  then obtain m where m: "n = Suc m" by (cases n) auto
  obtain j w where kw: "kw = (j, w)" by fastforce
  let ?s = "json_string j @ key_sep l @ dump l d w @ dump_members l d ms @ newline_at l d' @ ''}'' @ rest"
  let ?t = "'','' @ newline_at l d @ ?s"
  have v: "parse_value m (dump l d v @ ?t) = Some (v, ?t)"
    using Cons.prems m by (intro reads_backD) (simp_all add: stops_comma)
  have ms: "parse_members m ?s = Some ((j, w) # ms, rest)"
    using Cons.prems m kw by (intro Cons.IH) (simp_all add: kw)
  obtain r where "expect (CHR '':'') (skip_ws (key_sep l @ dump l d v @ ?t)) = Some r"
    and "skip_ws r = dump l d v @ ?t"
    using skip_ws_key_sep [of "dump l d v @ ?t" l] dump_start [of l d v ?t] by (auto simp: value_start_def)
  with v ms show ?case
    by (simp add: m kw value_start_newline json_string_def [of k] parse_string_escaped)
qed

lemma dump_reads_back: "json_ok v \<Longrightarrow> reads_back v"
proof (induction v)
  case (JFloat f)
  show ?case
  proof (intro allI impI)
    fix l d n rest
    assume rest: "stops_number rest" and n: "2 * length (dump l d (JFloat f)) \<le> n"
    obtain m where m: "n = Suc m"
      using n dump_start [of l d "JFloat f" "[]"] by (cases n) (auto simp: value_start_def)
    show "parse_value n (dump l d (JFloat f) @ rest) = Some (JFloat f, rest)"
    proof (cases f)
      case (Fin a e)
      with JFloat have ok: "float_ok (Fin a e)" by simp
      show ?thesis
        by (simp only: m Fin dump.simps number_start_parse [OF float_number_start]
            parse_number_float [OF ok rest])
    qed (simp_all add: m starts_with_def)
  qed
next
  case (JInt i)
  show ?case
  proof (intro allI impI)
    fix l d n rest
    assume rest: "stops_number rest" and n: "2 * length (dump l d (JInt i)) \<le> n"
    obtain m where m: "n = Suc m"
      using n by (cases n) auto
    show "parse_value n (dump l d (JInt i) @ rest) = Some (JInt i, rest)"
      by (simp only: m dump.simps number_start_parse [OF int_number_start] parse_number_int [OF rest])
  qed
next
  case (JStr s)
  show ?case
  proof (intro allI impI)
    fix l d n rest
    assume n: "2 * length (dump l d (JStr s)) \<le> n"
    obtain m where m: "n = Suc m"
      using n by (cases n) (auto simp: json_string_def)
    show "parse_value n (dump l d (JStr s) @ rest) = Some (JStr s, rest)"
      by (simp add: m json_string_def parse_string_escaped)
  qed
next
  case (JList vs)
  show ?case
  proof (intro allI impI)
    fix l d n rest
    assume n: "2 * length (dump l d (JList vs)) \<le> n"
    obtain m where m: "n = Suc m"
      using n by (cases n; cases vs) auto
    show "parse_value n (dump l d (JList vs) @ rest) = Some (JList vs, rest)"
    proof (cases vs)
      case Nil
      then show ?thesis by (simp add: m skip_ws_id)
    next
      case (Cons w ws)
      have "parse_elems m (dump l (Suc d) w @ dump_elems l (Suc d) ws @ newline_at l d @ '']'' @ rest) = Some (w # ws, rest)"
        using JList n by (intro elems_read_back) (simp_all add: Cons m list_all_iff)
      then show ?thesis
        using expect_value_start [OF dump_start [of l "Suc d" w "dump_elems l (Suc d) ws @ newline_at l d @ '']'' @ rest"]]
        by (simp add: m Cons value_start_newline)
    qed
  qed
next
  case (JObj ms)
  have ih: "\<forall>kw \<in> set ms. reads_back (snd kw)"
    using JObj by (fastforce simp: list_all_iff snds.simps)
  show ?case
  proof (intro allI impI)
    fix l d n rest
    assume n: "2 * length (dump l d (JObj ms)) \<le> n"
    obtain m where m: "n = Suc m"
      using n by (cases n; cases ms) auto
    show "parse_value n (dump l d (JObj ms) @ rest) = Some (JObj ms, rest)"
    proof (cases ms)
      case Nil
      then show ?thesis by (simp add: m skip_ws_id)
    next
      case (Cons kw ws)
      obtain k w where kw: "kw = (k, w)" by fastforce
      let ?t = "key_sep l @ dump l (Suc d) w @ dump_members l (Suc d) ws @ newline_at l d @ ''}'' @ rest"
      have "parse_members m (json_string k @ ?t) = Some ((k, w) # ws, rest)"
        using ih n by (intro members_read_back) (simp_all add: Cons m kw)
      moreover have "dict_of ((k, w) # ws) = (k, w) # ws"
        using JObj.prems by (simp add: dict_of_distinct Cons kw dict_ok_def)
      ultimately show ?thesis
        using expect_value_start [OF json_string_start [of k ?t]]
        by (simp add: m Cons kw value_start_newline)
    qed
  qed
next
  case JNull
  show ?case
  proof (intro allI impI)
    fix l d n rest
    assume "2 * length (dump l d JNull) \<le> n"
    then obtain m where m: "n = Suc m" by (cases n) auto
    show "parse_value n (dump l d JNull @ rest) = Some (JNull, rest)"
      by (simp add: m starts_with_def)
  qed
next
  case (JBool b)
  show ?case
  proof (intro allI impI)
    fix l d n rest
    assume "2 * length (dump l d (JBool b)) \<le> n"
    then obtain m where m: "n = Suc m" by (cases n; cases b) auto
    show "parse_value n (dump l d (JBool b) @ rest) = Some (JBool b, rest)"
      by (simp add: m starts_with_def)
  qed
qed

section \<open>Documents\<close>

lemma sort_keys_ok: "json_ok v \<Longrightarrow> json_ok (sort_keys v)"
proof (induction v)
  case (JObj ms)
  have "dict_ok (map (\<lambda>(k, v). (k, sort_keys v)) ms)"
    using JObj.prems by (simp add: dict_ok_def case_prod_unfold comp_def)
  moreover have "\<forall>kv \<in> set ms. json_ok (sort_keys (snd kv))"
    using JObj by (fastforce simp: list_all_iff snds.simps)
  ultimately show ?case by (auto simp: list_all_iff case_prod_unfold)
qed (auto simp: list_all_iff)

lemma loads_dump:
  assumes "json_ok v" and "skip_ws ws = []" and "stops_number ws"
  shows "loads (dump l d v @ ws) = Some v"
proof -
  have "skip_ws (dump l d v @ ws) = dump l d v @ ws"
    by (rule value_start_skip) simp
  moreover have "parse_value (2 * length (dump l d v @ ws) + 2) (dump l d v @ ws) = Some (v, ws)"
    by (rule reads_backD [OF dump_reads_back [OF assms(1)] assms(3)]) simp
  ultimately show ?thesis using assms(2) by (simp add: loads_def)
qed

lemma loads_dumps: "json_ok v \<Longrightarrow> loads (dumps l v) = Some (sort_keys v)"
  using loads_dump [of "sort_keys v" "[]" l 0] sort_keys_ok
  by (simp add: dumps_def skip_ws_def stops_number_def)

text \<open>The files of the program end in a newline.\<close>

lemma loads_dumps_newline: "json_ok v \<Longrightarrow> loads (dumps l v @ [CHR 10]) = Some (sort_keys v)"
  using loads_dump [of "sort_keys v" "[CHR 10]" l 0] sort_keys_ok
  by (simp add: dumps_def skip_ws_def stops_number_def is_ws_def is_digit_def)

lemma dumps_inject:
  "json_ok v \<Longrightarrow> json_ok w \<Longrightarrow> dumps l v = dumps l w \<longleftrightarrow> sort_keys v = sort_keys w"
  by (metis dumps_def loads_dumps option.inject)

end
