(* ===== verification/Domain_Json.thy ===== *)
theory Domain_Json
  imports Domain Json_Roundtrip
begin

text \<open>
  \<open>to_dict\<close> and \<open>from_dict\<close> of \<open>src/goalrouter/domain.py\<close>, with the field helpers at the
  end of that file. Every check and its \<open>StateError\<close> is a branch. The round trip
  \<open>run_state_from_dict_to_dict\<close> goes through the key-sorted object, which is what reading
  a state file gives back.
\<close>

section \<open>Field helpers\<close>

definition field :: "json dict \<Rightarrow> string \<Rightarrow> json result" where
  "field d name =
     (case map_of d name of
        None \<Rightarrow> Inl (StateError (''Missing run-state field: '' @ name))
      | Some v \<Rightarrow> Inr v)"

definition plain_string :: "string \<Rightarrow> json \<Rightarrow> string result" where
  "plain_string ctx v =
     (case v of JStr s \<Rightarrow> Inr s | _ \<Rightarrow> Inl (StateError (''Expected string for '' @ ctx)))"

definition string_field :: "json dict \<Rightarrow> string \<Rightarrow> string result" where
  "string_field d name = rbind (field d name) (plain_string name)"

definition optional_string :: "json dict \<Rightarrow> string \<Rightarrow> string option result" where
  "optional_string d name =
     rbind (field d name) (\<lambda>v.
       if v = JNull then Inr None else rbind (plain_string name v) (\<lambda>s. Inr (Some s)))"

definition boolean_field :: "json dict \<Rightarrow> string \<Rightarrow> bool result" where
  "boolean_field d name =
     rbind (field d name) (\<lambda>v.
       case v of JBool b \<Rightarrow> Inr b | _ \<Rightarrow> Inl (StateError (''Expected boolean for '' @ name)))"

definition integer_field :: "json dict \<Rightarrow> string \<Rightarrow> int result" where
  "integer_field d name =
     rbind (field d name) (\<lambda>v.
       case v of JInt i \<Rightarrow> Inr i | _ \<Rightarrow> Inl (StateError (''Expected integer for '' @ name)))"

definition number_field :: "json dict \<Rightarrow> string \<Rightarrow> pyfloat result" where
  "number_field d name =
     rbind (field d name) (\<lambda>v.
       case v of
         JInt i \<Rightarrow>
           (case float_of_int i of
              None \<Rightarrow> Inl (PyOverflowError ''int too large to convert to float'')
            | Some f \<Rightarrow> Inr f)
       | JFloat f \<Rightarrow> Inr f
       | _ \<Rightarrow> Inl (StateError (''Expected number for '' @ name)))"

definition sequence_field :: "json dict \<Rightarrow> string \<Rightarrow> json list result" where
  "sequence_field d name =
     rbind (field d name) (\<lambda>v.
       case v of JList vs \<Rightarrow> Inr vs | _ \<Rightarrow> Inl (StateError (''Expected array for '' @ name)))"

definition as_mapping :: "string \<Rightarrow> json \<Rightarrow> json dict result" where
  "as_mapping ctx v =
     (case v of JObj kvs \<Rightarrow> Inr kvs | _ \<Rightarrow> Inl (StateError (''Expected object for '' @ ctx)))"

definition field_mapping :: "json dict \<Rightarrow> string \<Rightarrow> json dict result" where
  "field_mapping d name = rbind (field d name) (as_mapping name)"

definition string_mapping :: "json dict \<Rightarrow> string \<Rightarrow> json dict result" where
  "string_mapping d name = field_mapping d name"

definition datetime_field :: "json dict \<Rightarrow> string \<Rightarrow> datetime result" where
  "datetime_field d name =
     rbind (string_field d name) (\<lambda>raw.
       case fromisoformat raw of
         None \<Rightarrow> Inl (StateError (''Expected ISO datetime for '' @ name))
       | Some t \<Rightarrow>
           if dt_offset t = None
           then Inl (StateError (''Expected timezone-aware datetime for '' @ name))
           else Inr t)"

definition enum_field :: "('a \<Rightarrow> string) \<Rightarrow> 'a list \<Rightarrow> json dict \<Rightarrow> string \<Rightarrow> 'a result" where
  "enum_field val members d name =
     rbind (string_field d name) (\<lambda>raw.
       case enum_of val members raw of
         None \<Rightarrow> Inl (StateError (''Unknown '' @ name @ '': '' @ raw))
       | Some m \<Rightarrow> Inr m)"

text \<open>
  \<open>_json_value\<close>: a value that came from JSON is copied; its error branch is for values that
  are not JSON at all, which \<open>json\<close> rules out.
\<close>

fun json_value :: "json \<Rightarrow> json result" where
  "json_value (JList vs) = rbind (rmap json_value vs) (\<lambda>ws. Inr (JList ws))"
| "json_value (JObj kvs) =
     rbind (rmap (\<lambda>kv. rbind (json_value (snd kv)) (\<lambda>w. Inr (fst kv, w))) kvs)
       (\<lambda>ws. Inr (JObj ws))"
| "json_value v = Inr v"

definition strings_field :: "string \<Rightarrow> json dict \<Rightarrow> string list result" where
  "strings_field name d =
     rbind (sequence_field d name) (rmap (plain_string (name @ '' item'')))"

definition paths_field :: "string \<Rightarrow> json dict \<Rightarrow> path list result" where
  "paths_field name d =
     rbind (sequence_field d name)
       (rmap (\<lambda>v. rbind (plain_string (name @ '' item'') v) (\<lambda>s. Inr (path_of s))))"

definition path_field :: "json dict \<Rightarrow> string \<Rightarrow> path result" where
  "path_field d name = rbind (string_field d name) (\<lambda>s. Inr (path_of s))"

section \<open>to\_dict\<close>

definition json_opt :: "string option \<Rightarrow> json" where
  "json_opt s = (case s of None \<Rightarrow> JNull | Some t \<Rightarrow> JStr t)"

definition json_path :: "path \<Rightarrow> json" where
  "json_path p = JStr (str_path p)"

definition instruction_file_to_dict :: "instruction_file \<Rightarrow> json" where
  "instruction_file_to_dict f =
     JObj [(''path'', json_path (inf_path f)), (''content'', JStr (inf_content f))]"

definition objective_to_dict :: "objective \<Rightarrow> json" where
  "objective_to_dict ob =
     JObj
      [(''id'', JStr (ob_id ob)),
       (''prompt'', JStr (ob_prompt ob)),
       (''project_path'', json_path (ob_project_path ob)),
       (''explicit_task'', json_opt (ob_explicit_task ob)),
       (''config_path'', json_path (ob_config_path ob)),
       (''created_at'', JStr (isoformat (ob_created_at ob)))]"

definition repository_to_dict :: "repository_context \<Rightarrow> json" where
  "repository_to_dict rc =
     JObj
      [(''project_path'', json_path (rc_project_path rc)),
       (''is_git_worktree'', JBool (rc_is_git_worktree rc)),
       (''branch'', json_opt (rc_branch rc)),
       (''dirty_paths'', JList (map json_path (rc_dirty_paths rc))),
       (''instruction_files'', JList (map instruction_file_to_dict (rc_instruction_files rc))),
       (''language_counts'',
          JList (map (\<lambda>(language, count). JObj [(''language'', JStr language), (''count'', JInt count)])
                     (rc_language_counts rc))),
       (''docker_files'', JList (map json_path (rc_docker_files rc))),
       (''command_errors'', JList (map JStr (rc_command_errors rc)))]"

definition work_item_to_dict :: "work_item \<Rightarrow> json" where
  "work_item_to_dict wi =
     JObj
      [(''id'', JStr (wi_id wi)),
       (''title'', JStr (wi_title wi)),
       (''instructions'', JStr (wi_instructions wi)),
       (''task'', JStr (wi_task wi)),
       (''phase'', JStr (wi_phase wi)),
       (''dependencies'', JList (map JStr (wi_dependencies wi))),
       (''access'', JStr (access_mode_value (wi_access wi))),
       (''affected_paths'', JList (map json_path (wi_affected_paths wi))),
       (''expected_result'', JStr (wi_expected_result wi)),
       (''verification'', JList (map JStr (wi_verification wi))),
       (''confidence'', JFloat (wi_confidence wi)),
       (''risk_flags'', JList (map JStr (sorted_list_of_fset (wi_risk_flags wi))))]"

definition route_to_dict :: "route_decision \<Rightarrow> json" where
  "route_to_dict rd =
     JObj
      [(''task'', JStr (rd_task rd)),
       (''model_alias'', JStr (rd_model_alias rd)),
       (''model'', JStr (rd_model rd)),
       (''reasoning_effort'', JStr (rd_reasoning_effort rd)),
       (''sandbox'', JStr (sandbox_mode_value (rd_sandbox rd))),
       (''approval'', JStr (approval_mode_value (rd_approval rd))),
       (''timeout_seconds'', JInt (rd_timeout_seconds rd)),
       (''max_attempts'', JInt (rd_max_attempts rd)),
       (''destructive'', JBool (rd_destructive rd)),
       (''external_write'', JBool (rd_external_write rd)),
       (''escalation_task'', json_opt (rd_escalation_task rd)),
       (''source'', JStr (route_source_value (rd_source rd))),
       (''reason'', JStr (rd_reason rd))]"

definition work_result_to_dict :: "work_result \<Rightarrow> json" where
  "work_result_to_dict wr =
     JObj
      [(''work_item_id'', JStr (wr_work_item_id wr)),
       (''thread_id'', json_opt (wr_thread_id wr)),
       (''turn_id'', json_opt (wr_turn_id wr)),
       (''status'', JStr (work_status_value (wr_status wr))),
       (''final_response'', json_opt (wr_final_response wr)),
       (''sdk_items'', JList (wr_sdk_items wr)),
       (''input_tokens'', JInt (wr_input_tokens wr)),
       (''cached_input_tokens'', JInt (wr_cached_input_tokens wr)),
       (''output_tokens'', JInt (wr_output_tokens wr)),
       (''duration_seconds'', JFloat (wr_duration_seconds wr)),
       (''changed_paths'', JList (map json_path (wr_changed_paths wr))),
       (''verification'', JList (map JStr (wr_verification wr))),
       (''confidence'', JFloat (wr_confidence wr)),
       (''escalation_requested'', JBool (wr_escalation_requested wr)),
       (''error'', json_opt (wr_error wr))]"

definition approval_to_dict :: "approval_record \<Rightarrow> json" where
  "approval_to_dict ar =
     JObj
      [(''run_id'', JStr (ar_run_id ar)),
       (''work_item_id'', JStr (ar_work_item_id ar)),
       (''approved_by'', JStr (ar_approved_by ar)),
       (''approved_at'', JStr (isoformat (ar_approved_at ar))),
       (''configuration_digest'', JStr (ar_configuration_digest ar)),
       (''fingerprint'', JStr (ar_fingerprint ar))]"

definition run_event_to_dict :: "run_event \<Rightarrow> json" where
  "run_event_to_dict ev =
     JObj
      [(''timestamp'', JStr (isoformat (ev_timestamp ev))),
       (''event'', JStr (ev_event ev)),
       (''work_item_id'', json_opt (ev_work_item_id ev)),
       (''details'', JObj (ev_details ev))]"

definition dict_to_dict :: "('v \<Rightarrow> json) \<Rightarrow> 'v dict \<Rightarrow> json" where
  "dict_to_dict f d = JObj (map (\<lambda>(k, v). (k, f v)) (sorted_items d))"

definition run_state_to_dict :: "run_state \<Rightarrow> json" where
  "run_state_to_dict s =
     JObj
      [(''schema_version'', JInt (st_schema_version s)),
       (''configuration_digest'', JStr (st_configuration_digest s)),
       (''objective'', objective_to_dict (st_objective s)),
       (''repository'', repository_to_dict (st_repository s)),
       (''work_items'', dict_to_dict work_item_to_dict (st_work_items s)),
       (''routes'', dict_to_dict route_to_dict (st_routes s)),
       (''results'', dict_to_dict work_result_to_dict (st_results s)),
       (''approvals'', dict_to_dict approval_to_dict (st_approvals s)),
       (''status'', JStr (run_status_value (st_status s)))]"

lemmas to_dict_defs = instruction_file_to_dict_def objective_to_dict_def repository_to_dict_def
  work_item_to_dict_def route_to_dict_def work_result_to_dict_def approval_to_dict_def
  run_event_to_dict_def run_state_to_dict_def

section \<open>from\_dict\<close>

definition instruction_file_from_dict :: "json dict \<Rightarrow> instruction_file result" where
  "instruction_file_from_dict d =
     rbind (path_field d ''path'') (\<lambda>p.
     rbind (string_field d ''content'') (\<lambda>c.
       Inr \<lparr>inf_path = p, inf_content = c\<rparr>))"

definition objective_from_dict :: "json dict \<Rightarrow> objective result" where
  "objective_from_dict d =
     rbind (string_field d ''id'') (\<lambda>a.
     rbind (string_field d ''prompt'') (\<lambda>b.
     rbind (path_field d ''project_path'') (\<lambda>c.
     rbind (optional_string d ''explicit_task'') (\<lambda>e.
     rbind (path_field d ''config_path'') (\<lambda>f.
     rbind (datetime_field d ''created_at'') (\<lambda>g.
       Inr \<lparr>ob_id = a, ob_prompt = b, ob_project_path = c, ob_explicit_task = e,
            ob_config_path = f, ob_created_at = g\<rparr>))))))"

definition instruction_item :: "json \<Rightarrow> instruction_file result" where
  "instruction_item v =
     rbind (as_mapping ''instruction_files item'' v) instruction_file_from_dict"

definition language_count_item :: "json \<Rightarrow> (string \<times> int) result" where
  "language_count_item v =
     rbind (rbind (as_mapping ''language_counts item'' v) (\<lambda>d. string_field d ''language'')) (\<lambda>l.
     rbind (rbind (as_mapping ''language_counts item'' v) (\<lambda>d. integer_field d ''count'')) (\<lambda>n.
       Inr (l, n)))"

definition repository_from_dict :: "json dict \<Rightarrow> repository_context result" where
  "repository_from_dict d =
     rbind (rbind (sequence_field d ''instruction_files'') (rmap instruction_item)) (\<lambda>instructions.
     rbind (rbind (sequence_field d ''language_counts'') (rmap language_count_item)) (\<lambda>counts.
     rbind (path_field d ''project_path'') (\<lambda>a.
     rbind (boolean_field d ''is_git_worktree'') (\<lambda>b.
     rbind (optional_string d ''branch'') (\<lambda>c.
     rbind (paths_field ''dirty_paths'' d) (\<lambda>e.
     rbind (paths_field ''docker_files'' d) (\<lambda>f.
     rbind (strings_field ''command_errors'' d) (\<lambda>g.
       Inr \<lparr>rc_project_path = a, rc_is_git_worktree = b, rc_branch = c, rc_dirty_paths = e,
            rc_instruction_files = instructions, rc_language_counts = counts,
            rc_docker_files = f, rc_command_errors = g\<rparr>))))))))"

definition work_item_from_dict :: "json dict \<Rightarrow> work_item result" where
  "work_item_from_dict d =
     rbind (string_field d ''id'') (\<lambda>a.
     rbind (string_field d ''title'') (\<lambda>b.
     rbind (string_field d ''instructions'') (\<lambda>c.
     rbind (string_field d ''task'') (\<lambda>e.
     rbind (string_field d ''phase'') (\<lambda>f.
     rbind (strings_field ''dependencies'' d) (\<lambda>g.
     rbind (enum_field access_mode_value access_modes d ''access'') (\<lambda>h.
     rbind (paths_field ''affected_paths'' d) (\<lambda>i.
     rbind (string_field d ''expected_result'') (\<lambda>j.
     rbind (strings_field ''verification'' d) (\<lambda>k.
     rbind (number_field d ''confidence'') (\<lambda>l.
     rbind (strings_field ''risk_flags'' d) (\<lambda>m.
       Inr \<lparr>wi_id = a, wi_title = b, wi_instructions = c, wi_task = e, wi_phase = f,
            wi_dependencies = g, wi_access = h, wi_affected_paths = i, wi_expected_result = j,
            wi_verification = k, wi_confidence = l, wi_risk_flags = fset_of_list m\<rparr>))))))))))))"

definition route_from_dict :: "json dict \<Rightarrow> route_decision result" where
  "route_from_dict d =
     rbind (string_field d ''task'') (\<lambda>a.
     rbind (string_field d ''model_alias'') (\<lambda>b.
     rbind (string_field d ''model'') (\<lambda>c.
     rbind (string_field d ''reasoning_effort'') (\<lambda>e.
     rbind (enum_field sandbox_mode_value sandbox_modes d ''sandbox'') (\<lambda>f.
     rbind (enum_field approval_mode_value approval_modes d ''approval'') (\<lambda>g.
     rbind (integer_field d ''timeout_seconds'') (\<lambda>h.
     rbind (integer_field d ''max_attempts'') (\<lambda>i.
     rbind (boolean_field d ''destructive'') (\<lambda>j.
     rbind (boolean_field d ''external_write'') (\<lambda>k.
     rbind (optional_string d ''escalation_task'') (\<lambda>l.
     rbind (enum_field route_source_value route_sources d ''source'') (\<lambda>m.
     rbind (string_field d ''reason'') (\<lambda>n.
       Inr \<lparr>rd_task = a, rd_model_alias = b, rd_model = c, rd_reasoning_effort = e,
            rd_sandbox = f, rd_approval = g, rd_timeout_seconds = h, rd_max_attempts = i,
            rd_destructive = j, rd_external_write = k, rd_escalation_task = l, rd_source = m,
            rd_reason = n\<rparr>)))))))))))))"

definition work_result_from_dict :: "json dict \<Rightarrow> work_result result" where
  "work_result_from_dict d =
     rbind (string_field d ''work_item_id'') (\<lambda>a.
     rbind (optional_string d ''thread_id'') (\<lambda>b.
     rbind (optional_string d ''turn_id'') (\<lambda>c.
     rbind (enum_field work_status_value work_statuses d ''status'') (\<lambda>e.
     rbind (optional_string d ''final_response'') (\<lambda>f.
     rbind (rbind (sequence_field d ''sdk_items'') (rmap json_value)) (\<lambda>g.
     rbind (integer_field d ''input_tokens'') (\<lambda>h.
     rbind (integer_field d ''cached_input_tokens'') (\<lambda>i.
     rbind (integer_field d ''output_tokens'') (\<lambda>j.
     rbind (number_field d ''duration_seconds'') (\<lambda>k.
     rbind (paths_field ''changed_paths'' d) (\<lambda>l.
     rbind (strings_field ''verification'' d) (\<lambda>m.
     rbind (number_field d ''confidence'') (\<lambda>n.
     rbind (boolean_field d ''escalation_requested'') (\<lambda>p.
     rbind (optional_string d ''error'') (\<lambda>q.
       Inr \<lparr>wr_work_item_id = a, wr_thread_id = b, wr_turn_id = c, wr_status = e,
            wr_final_response = f, wr_sdk_items = g, wr_input_tokens = h,
            wr_cached_input_tokens = i, wr_output_tokens = j, wr_duration_seconds = k,
            wr_changed_paths = l, wr_verification = m, wr_confidence = n,
            wr_escalation_requested = p, wr_error = q\<rparr>)))))))))))))))"

definition approval_from_dict :: "json dict \<Rightarrow> approval_record result" where
  "approval_from_dict d =
     rbind (string_field d ''run_id'') (\<lambda>a.
     rbind (string_field d ''work_item_id'') (\<lambda>b.
     rbind (string_field d ''approved_by'') (\<lambda>c.
     rbind (datetime_field d ''approved_at'') (\<lambda>e.
     rbind (string_field d ''configuration_digest'') (\<lambda>f.
     rbind (string_field d ''fingerprint'') (\<lambda>g.
       Inr \<lparr>ar_run_id = a, ar_work_item_id = b, ar_approved_by = c, ar_approved_at = e,
            ar_configuration_digest = f, ar_fingerprint = g\<rparr>))))))"

text \<open>One of the four dictionary comprehensions of \<open>RunState.from_dict\<close>.\<close>

definition dict_from_dict :: "(json dict \<Rightarrow> 'v result) \<Rightarrow> string \<Rightarrow> json dict \<Rightarrow> 'v dict result" where
  "dict_from_dict f name d =
     rbind (string_mapping d name)
       (rmap (\<lambda>kv. rbind (as_mapping (name @ ''.'' @ fst kv) (snd kv)) (\<lambda>m.
                   rbind (f m) (\<lambda>v. Inr (fst kv, v)))))"

definition run_state_fields :: "json dict \<Rightarrow> run_state result" where
  "run_state_fields d =
     rbind (dict_from_dict work_item_from_dict ''work_items'' d) (\<lambda>items.
     rbind (dict_from_dict route_from_dict ''routes'' d) (\<lambda>routes.
     rbind (dict_from_dict work_result_from_dict ''results'' d) (\<lambda>results.
     rbind (dict_from_dict approval_from_dict ''approvals'' d) (\<lambda>approvals.
     rbind (integer_field d ''schema_version'') (\<lambda>a.
     rbind (string_field d ''configuration_digest'') (\<lambda>b.
     rbind (rbind (field_mapping d ''objective'') objective_from_dict) (\<lambda>c.
     rbind (rbind (field_mapping d ''repository'') repository_from_dict) (\<lambda>e.
     rbind (enum_field run_status_value run_statuses d ''status'') (\<lambda>f.
       Inr \<lparr>st_schema_version = a, st_configuration_digest = b, st_objective = c,
            st_repository = e, st_work_items = items, st_routes = routes, st_results = results,
            st_approvals = approvals, st_status = f\<rparr>)))))))))"

text \<open>\<open>except (TypeError, ValueError)\<close>; every other exception passes.\<close>

definition run_state_from_dict :: "json dict \<Rightarrow> run_state result" where
  "run_state_from_dict d =
     (case run_state_fields d of
        Inl (PyTypeError m) \<Rightarrow> Inl (StateError (''Invalid run state: '' @ m))
      | Inl (PyValueError m) \<Rightarrow> Inl (StateError (''Invalid run state: '' @ m))
      | r \<Rightarrow> r)"

end
