(* ===== verification/Domain_Roundtrip.thy ===== *)
theory Domain_Roundtrip
  imports Domain_Json
begin

text \<open>
  A run state survives being written as a JSON object and read back: \<open>canonical\<close> is what
  comes back, the same state with its four dictionaries in key order and the keys of every
  SDK item sorted. All dictionaries keep their content (\<open>canonical_lookup\<close>).
\<close>

lemma field_sorted:
  "dict_ok d \<Longrightarrow> field (sorted_items d) name = field d name"
  by (simp add: field_def sorted_items_map_of)

lemma field_simps:
  "field ((k, v) # d) name = (if k = name then Inr v else field d name)"
  by (simp add: field_def)

lemma json_value_id [simp]: "json_value v = Inr v"
proof (induction v)
  case (JList vs)
  then have "rmap json_value vs = Inr (map (\<lambda>v. v) vs)" by (intro rmap_all_Inr)
  then show ?case by simp
next
  case (JObj kvs)
  then have "rmap (\<lambda>kv. rbind (json_value (snd kv)) (\<lambda>w. Inr (fst kv, w))) kvs = Inr (map (\<lambda>kv. kv) kvs)"
    by (intro rmap_all_Inr) (fastforce simp: snds.simps)
  then show ?case by simp
qed simp_all

lemma rmap_json_value [simp]: "rmap json_value vs = Inr vs"
  using rmap_all_Inr [of vs json_value "\<lambda>v. v"] by simp

lemma sort_keys_scalars [simp]:
  "sort_keys (json_opt o') = json_opt o'" "sort_keys (json_path p) = json_path p"
  by (simp_all add: json_opt_def json_path_def split: option.splits)

lemma rmap_strings [simp]: "rmap (plain_string ctx) (map (\<lambda>s. sort_keys (JStr s)) ss) = Inr ss"
  by (induction ss) (simp_all add: plain_string_def)

lemma rmap_paths:
  "list_all path_ok ps \<Longrightarrow>
    rmap (\<lambda>v. rbind (plain_string ctx v) (\<lambda>s. Inr (path_of s))) (map json_path ps) = Inr ps"
  by (induction ps) (simp_all add: plain_string_def json_path_def)

lemmas field_readers = string_field_def optional_string_def boolean_field_def integer_field_def
  number_field_def sequence_field_def field_mapping_def string_mapping_def datetime_field_def
  enum_field_def strings_field_def paths_field_def path_field_def plain_string_def as_mapping_def

lemma json_opt_read:
  "(if json_opt x = JNull then Inr None
    else rbind (plain_string ctx (json_opt x)) (\<lambda>s. Inr (Some s))) = Inr x"
  by (cases x) (simp_all add: json_opt_def plain_string_def)

lemma map_sort_keys_simps [simp]:
  "map (sort_keys \<circ> JStr) ss = map JStr ss" "map (sort_keys \<circ> json_path) ps = map json_path ps"
  by (simp_all add: comp_def)

lemma rmap_plain_strings [simp]: "rmap (plain_string ctx) (map JStr ss) = Inr ss"
  by (induction ss) (simp_all add: plain_string_def)

section \<open>The parts of a state\<close>

lemma instruction_item_to_dict:
  "path_ok (inf_path f) \<Longrightarrow> instruction_item (sort_keys (instruction_file_to_dict f)) = Inr f"
  by (simp add: instruction_item_def instruction_file_to_dict_def as_mapping_def
      instruction_file_from_dict_def path_field_def string_field_def field_sorted field_simps dict_ok_def
      plain_string_def json_path_def)

lemma language_count_item_to_dict:
  "language_count_item (sort_keys (JObj [(''language'', JStr l), (''count'', JInt n)])) = Inr (l, n)"
  by (simp add: language_count_item_def as_mapping_def string_field_def integer_field_def
      field_sorted field_simps dict_ok_def plain_string_def)

lemma objective_from_to_dict:
  assumes "objective_ok ob"
  shows "rbind (as_mapping c (sort_keys (objective_to_dict ob))) objective_from_dict = Inr ob"
  using assms
  by (simp add: objective_to_dict_def as_mapping_def objective_from_dict_def string_field_def
      path_field_def optional_string_def datetime_field_def field_sorted field_simps dict_ok_def
      json_opt_read plain_string_def [of _ "JStr _"] json_path_def objective_ok_def aware_ok_def
      fromisoformat_isoformat)

lemma work_item_from_to_dict:
  assumes "work_item_ok wi"
  shows "rbind (as_mapping c (sort_keys (work_item_to_dict wi))) work_item_from_dict = Inr wi"
proof -
  have flags: "fset_of_list (sorted_list_of_fset S) = S" for S :: "string fset"
    by (metis sorted_list_of_fset_simps(2))
  show ?thesis using assms
    by (simp add: work_item_to_dict_def as_mapping_def work_item_from_dict_def string_field_def
        strings_field_def paths_field_def sequence_field_def enum_field_def number_field_def
        field_sorted field_simps dict_ok_def plain_string_def [of _ "JStr _"] work_item_ok_def rmap_paths
        flags)
qed

lemma route_from_to_dict:
  "rbind (as_mapping c (sort_keys (route_to_dict rd))) route_from_dict = Inr rd"
  by (simp add: route_to_dict_def as_mapping_def route_from_dict_def string_field_def
      optional_string_def integer_field_def boolean_field_def enum_field_def field_sorted field_simps
      dict_ok_def json_opt_read plain_string_def [of _ "JStr _"])

lemma approval_from_to_dict:
  assumes "aware_ok (ar_approved_at ar)"
  shows "rbind (as_mapping c (sort_keys (approval_to_dict ar))) approval_from_dict = Inr ar"
  using assms
  by (simp add: approval_to_dict_def as_mapping_def approval_from_dict_def string_field_def
      datetime_field_def field_sorted field_simps dict_ok_def plain_string_def [of _ "JStr _"] aware_ok_def
      fromisoformat_isoformat)

definition canonical_result :: "work_result \<Rightarrow> work_result" where
  "canonical_result wr = wr\<lparr>wr_sdk_items := map sort_keys (wr_sdk_items wr)\<rparr>"

lemma work_result_from_to_dict:
  assumes "work_result_ok wr"
  shows "rbind (as_mapping c (sort_keys (work_result_to_dict wr))) work_result_from_dict
    = Inr (canonical_result wr)"
  using assms
  by (simp add: work_result_to_dict_def as_mapping_def work_result_from_dict_def string_field_def
      optional_string_def integer_field_def boolean_field_def enum_field_def number_field_def
      strings_field_def paths_field_def sequence_field_def field_sorted field_simps dict_ok_def json_opt_read
      plain_string_def [of _ "JStr _"] work_result_ok_def rmap_paths canonical_result_def)

lemma repository_from_to_dict:
  assumes "repository_ok rc"
  shows "rbind (as_mapping c (sort_keys (repository_to_dict rc))) repository_from_dict = Inr rc"
proof -
  have files: "rmap instruction_item (map (sort_keys \<circ> instruction_file_to_dict) (rc_instruction_files rc))
      = Inr (rc_instruction_files rc)"
    using assms rmap_all_Inr [of "rc_instruction_files rc" "\<lambda>f. instruction_item (sort_keys (instruction_file_to_dict f))" "\<lambda>f. f"]
    by (simp add: rmap_map comp_def instruction_item_to_dict repository_ok_def list_all_iff)
  have counts: "rmap language_count_item (map (sort_keys \<circ> (\<lambda>(l, n). JObj [(''language'', JStr l), (''count'', JInt n)])) ls) = Inr ls" for ls
    by (induction ls) (auto simp: language_count_item_to_dict simp del: sort_keys.simps)
  show ?thesis using assms
    by (simp add: repository_to_dict_def as_mapping_def repository_from_dict_def string_field_def
        optional_string_def boolean_field_def strings_field_def paths_field_def path_field_def
        sequence_field_def field_sorted field_simps dict_ok_def json_opt_read json_path_def [of "rc_project_path rc"]
        plain_string_def [of _ "JStr _"] repository_ok_def rmap_paths files counts)
qed

section \<open>The state\<close>

definition map_values :: "('v \<Rightarrow> 'u) \<Rightarrow> 'v dict \<Rightarrow> 'u dict" where
  "map_values f d = map (\<lambda>(k, v). (k, f v)) d"

lemma map_of_map_values: "map_of (map_values f d) k = map_option f (map_of d k)"
  by (simp add: map_values_def map_of_map)

lemma dkeys_map_values [simp]: "dkeys (map_values f d) = dkeys d"
  by (simp add: map_values_def case_prod_unfold comp_def)

lemma sort_keys_dict_to_dict:
  "sort_keys (dict_to_dict f d) = JObj (map_values (\<lambda>v. sort_keys (f v)) (sorted_items d))"
proof -
  have "sorted (dkeys (map_values (\<lambda>v. sort_keys (f v)) (sorted_items d)))"
    by (simp add: sorted_items_sorted)
  then have "sorted_items (map_values (\<lambda>v. sort_keys (f v)) (sorted_items d))
      = map_values (\<lambda>v. sort_keys (f v)) (sorted_items d)"
    by (rule sorted_items_idem)
  then show ?thesis
    by (simp add: dict_to_dict_def map_values_def case_prod_unfold comp_def)
qed

lemma dict_from_to_dict:
  assumes "values_ok P d" and "\<And>c v. P v \<Longrightarrow> rbind (as_mapping c (sort_keys (f v))) g = Inr (h v)"
    and "field D name = Inr (sort_keys (dict_to_dict f d))"
  shows "dict_from_dict g name D = Inr (map_values h (sorted_items d))"
proof -
  let ?r = "\<lambda>kv. rbind (as_mapping (name @ ''.'' @ fst kv) (snd kv)) (\<lambda>m. rbind (g m) (\<lambda>v. Inr (fst kv, v)))"
  have "rmap (\<lambda>kv. ?r ((\<lambda>(k, v). (k, sort_keys (f v))) kv)) (sorted_items d)
      = Inr (map (\<lambda>(k, v). (k, h v)) (sorted_items d))"
  proof (rule rmap_all_Inr)
    fix kv assume kv: "kv \<in> set (sorted_items d)"
    obtain k v where k: "kv = (k, v)" by fastforce
    with kv assms(1) have "P v" by (auto simp: values_ok_def list_all_iff)
    then obtain m where "as_mapping (name @ ''.'' @ k) (sort_keys (f v)) = Inr m" "g m = Inr (h v)"
      using assms(2) [of v "name @ ''.'' @ k"] by (auto simp: rbind_eq_Inr_iff)
    then show "?r ((\<lambda>(k, v). (k, sort_keys (f v))) kv) = Inr ((\<lambda>(k, v). (k, h v)) kv)"
      by (simp add: k)
  qed
  then show ?thesis
    by (simp add: dict_from_dict_def string_mapping_def field_mapping_def assms(3)
        sort_keys_dict_to_dict as_mapping_def [of _ "JObj _"] map_values_def rmap_map)
qed

definition canonical :: "run_state \<Rightarrow> run_state" where
  "canonical s = s\<lparr>
     st_work_items := sorted_items (st_work_items s),
     st_routes := sorted_items (st_routes s),
     st_results := map_values canonical_result (sorted_items (st_results s)),
     st_approvals := sorted_items (st_approvals s)\<rparr>"

lemma map_values_id [simp]: "map_values (\<lambda>v. v) d = d"
  by (simp add: map_values_def)

lemma canonical_lookup:
  assumes "run_state_ok s"
  shows "map_of (st_work_items (canonical s)) = map_of (st_work_items s)"
    and "map_of (st_routes (canonical s)) = map_of (st_routes s)"
    and "map_of (st_approvals (canonical s)) = map_of (st_approvals s)"
    and "map_of (st_results (canonical s)) k = map_option canonical_result (map_of (st_results s) k)"
  using assms
  by (simp_all add: canonical_def run_state_ok_def values_ok_def sorted_items_map_of map_of_map_values)

lemma run_state_from_to_dict:
  assumes "run_state_ok s"
  shows "rbind (as_mapping c (sort_keys (run_state_to_dict s))) run_state_from_dict = Inr (canonical s)"
proof -
  let ?L = "[(''schema_version'', sort_keys (JInt (st_schema_version s))),
    (''configuration_digest'', sort_keys (JStr (st_configuration_digest s))),
    (''objective'', sort_keys (objective_to_dict (st_objective s))),
    (''repository'', sort_keys (repository_to_dict (st_repository s))),
    (''work_items'', sort_keys (dict_to_dict work_item_to_dict (st_work_items s))),
    (''routes'', sort_keys (dict_to_dict route_to_dict (st_routes s))),
    (''results'', sort_keys (dict_to_dict work_result_to_dict (st_results s))),
    (''approvals'', sort_keys (dict_to_dict approval_to_dict (st_approvals s))),
    (''status'', sort_keys (JStr (run_status_value (st_status s))))]"
  define D where "D = sorted_items ?L"
  have D: "sort_keys (run_state_to_dict s) = JObj D"
    by (simp only: D_def run_state_to_dict_def sort_keys.simps(2) list.map prod.case)
  have f: "field D name = field ?L name" for name
    unfolding D_def by (rule field_sorted) (simp add: dict_ok_def)
  note ok = assms [unfolded run_state_ok_def]
  have items: "dict_from_dict work_item_from_dict ''work_items'' D = Inr (map_values (\<lambda>v. v) (sorted_items (st_work_items s)))"
    by (rule dict_from_to_dict [where P = work_item_ok and f = work_item_to_dict])
      (use ok in \<open>simp_all add: work_item_from_to_dict f field_simps\<close>)
  have routes: "dict_from_dict route_from_dict ''routes'' D = Inr (map_values (\<lambda>v. v) (sorted_items (st_routes s)))"
    by (rule dict_from_to_dict [where P = "\<lambda>_. True" and f = route_to_dict])
      (use ok in \<open>simp_all add: route_from_to_dict f field_simps\<close>)
  have results: "dict_from_dict work_result_from_dict ''results'' D = Inr (map_values canonical_result (sorted_items (st_results s)))"
    by (rule dict_from_to_dict [where P = work_result_ok and f = work_result_to_dict])
      (use ok in \<open>simp_all add: work_result_from_to_dict f field_simps\<close>)
  have approvals: "dict_from_dict approval_from_dict ''approvals'' D = Inr (map_values (\<lambda>v. v) (sorted_items (st_approvals s)))"
    by (rule dict_from_to_dict [where P = "\<lambda>r. aware_ok (ar_approved_at r)" and f = approval_to_dict])
      (use ok in \<open>simp_all add: approval_from_to_dict f field_simps\<close>)
  have ob: "rbind (field_mapping D ''objective'') objective_from_dict = Inr (st_objective s)"
    using ok by (simp add: field_mapping_def f field_simps objective_from_to_dict)
  have rc: "rbind (field_mapping D ''repository'') repository_from_dict = Inr (st_repository s)"
    using ok by (simp add: field_mapping_def f field_simps repository_from_to_dict)
  have "run_state_fields D = Inr (canonical s)"
    unfolding run_state_fields_def items routes results approvals ob rc
    by (simp add: integer_field_def string_field_def enum_field_def f field_simps plain_string_def
        canonical_def)
  then show ?thesis by (simp add: D as_mapping_def run_state_from_dict_def del: sorted_items_ok)
qed

section \<open>What is written is JSON\<close>

lemma json_ok_simps [simp]:
  "json_ok (json_opt x)" "json_ok (json_path p)"
  by (simp_all add: json_opt_def json_path_def split: option.splits)

lemma dict_ok_map: "dict_ok (map (\<lambda>(k, v). (k, f v)) d) = dict_ok d"
  by (simp add: dict_ok_def case_prod_unfold comp_def)

lemma dict_to_dict_ok:
  assumes "values_ok P d" and "\<And>v. P v \<Longrightarrow> json_ok (f v)"
  shows "json_ok (dict_to_dict f d)"
  using assms by (auto simp: dict_to_dict_def values_ok_def dict_ok_map list_all_iff)

lemma work_item_json_ok: "work_item_ok wi \<Longrightarrow> json_ok (work_item_to_dict wi)"
  by (simp add: work_item_to_dict_def dict_ok_def work_item_ok_def list_all_iff)

lemma route_json_ok: "json_ok (route_to_dict rd)"
  by (simp add: route_to_dict_def dict_ok_def)

lemma run_state_json_ok:
  assumes "run_state_ok s"
  shows "json_ok (run_state_to_dict s)"
proof -
  note ok = assms [unfolded run_state_ok_def]
  have "json_ok (objective_to_dict (st_objective s))"
    by (simp add: objective_to_dict_def dict_ok_def)
  moreover have "json_ok (repository_to_dict (st_repository s))"
    by (auto simp: repository_to_dict_def dict_ok_def list_all_iff instruction_file_to_dict_def)
  moreover have "json_ok (dict_to_dict work_item_to_dict (st_work_items s))"
    using ok work_item_json_ok by (blast intro: dict_to_dict_ok)
  moreover have "json_ok (dict_to_dict route_to_dict (st_routes s))"
    using ok route_json_ok by (blast intro: dict_to_dict_ok)
  moreover have "json_ok (dict_to_dict work_result_to_dict (st_results s))"
    using ok by (intro dict_to_dict_ok [of work_result_ok])
      (auto simp: work_result_to_dict_def dict_ok_def work_result_ok_def list_all_iff)
  moreover have "json_ok (dict_to_dict approval_to_dict (st_approvals s))"
    using ok by (intro dict_to_dict_ok [of "\<lambda>r. aware_ok (ar_approved_at r)"])
      (auto simp: approval_to_dict_def dict_ok_def)
  ultimately show ?thesis by (simp add: run_state_to_dict_def dict_ok_def)
qed

end
