(* ===== verification/Approvals.thy ===== *)
theory Approvals
  imports Domain_Roundtrip
begin

text \<open>
  \<open>src/goalrouter/approvals.py\<close>: recording an approval and checking it before dispatch. The
  hash is a parameter \<open>sha\<close> from the canonical JSON text to the hexadecimal digest, so every
  lemma holds for SHA-256; \<open>fingerprint_inject\<close> names the collision-freeness it needs.
\<close>

definition require_item_and_route ::
  "run_state \<Rightarrow> string \<Rightarrow> (work_item \<times> route_decision) result" where
  "require_item_and_route s wid =
     (case (map_of (st_work_items s) wid, map_of (st_routes s) wid) of
        (Some item, Some route) \<Rightarrow> Inr (item, route)
      | _ \<Rightarrow> Inl (ApprovalRequiredError (''Unknown routed work item '' @ wid)))"

definition fingerprint_payload :: "string \<Rightarrow> work_item \<Rightarrow> route_decision \<Rightarrow> json" where
  "fingerprint_payload digest item route =
     JObj [(''configuration_digest'', JStr digest),
           (''route'', route_to_dict route),
           (''work_item'', work_item_to_dict item)]"

definition fingerprint :: "(string \<Rightarrow> string) \<Rightarrow> run_state \<Rightarrow> string \<Rightarrow> string result" where
  "fingerprint sha s wid =
     rbind (require_item_and_route s wid) (\<lambda>(item, route).
       Inr (sha (dumps Compact (fingerprint_payload (st_configuration_digest s) item route))))"

definition approve ::
  "(string \<Rightarrow> string) \<Rightarrow> run_state \<Rightarrow> string \<Rightarrow> string \<Rightarrow> datetime
    \<Rightarrow> (approval_record \<times> run_state) result" where
  "approve sha s wid approved_by approved_at =
     (if dt_offset approved_at = None
      then Inl (ApprovalRequiredError ''Approval time must be timezone-aware'')
      else if py_strip approved_by = []
      then Inl (ApprovalRequiredError ''Approval identity must not be empty'')
      else
        rbind (require_item_and_route s wid) (\<lambda>_.
        rbind (fingerprint sha s wid) (\<lambda>fp.
          let record = \<lparr>ar_run_id = run_id s, ar_work_item_id = wid, ar_approved_by = approved_by,
                        ar_approved_at = approved_at,
                        ar_configuration_digest = st_configuration_digest s,
                        ar_fingerprint = fp\<rparr>
          in Inr (record, s\<lparr>st_approvals := dset (st_approvals s) wid record\<rparr>))))"

definition require_dispatchable :: "(string \<Rightarrow> string) \<Rightarrow> run_state \<Rightarrow> string \<Rightarrow> unit result" where
  "require_dispatchable sha s wid =
     rbind (require_item_and_route s wid) (\<lambda>(_, route).
       if rd_approval route = Automatic then Inr ()
       else
         (case map_of (st_approvals s) wid of
            None \<Rightarrow> Inl (ApprovalRequiredError (''Work item '' @ wid @ '' requires explicit approval''))
          | Some record \<Rightarrow>
              if ar_run_id record \<noteq> run_id s then
                Inl (ApprovalRequiredError
                  (''Approval for work item '' @ wid @ '' belongs to another run''))
              else if ar_configuration_digest record \<noteq> st_configuration_digest s then
                Inl (ApprovalRequiredError
                  (''Approval for work item '' @ wid @ '' has a stale configuration digest''))
              else
                rbind (fingerprint sha s wid) (\<lambda>fp.
                  if ar_fingerprint record \<noteq> fp then
                    Inl (ApprovalRequiredError
                      (''Approval fingerprint for work item '' @ wid @ '' no longer matches''))
                  else Inr ())))"

section \<open>What the checks accept\<close>

lemma require_item_and_route_Inr [result_simps]:
  "require_item_and_route s wid = Inr (item, route) \<longleftrightarrow>
     map_of (st_work_items s) wid = Some item \<and> map_of (st_routes s) wid = Some route"
  by (auto simp: require_item_and_route_def split: option.splits)

definition digest_of :: "(string \<Rightarrow> string) \<Rightarrow> string \<Rightarrow> work_item \<Rightarrow> route_decision \<Rightarrow> string" where
  "digest_of sha digest item route = sha (dumps Compact (fingerprint_payload digest item route))"

lemma fingerprint_Inr:
  "fingerprint sha s wid = Inr fp \<longleftrightarrow>
     (\<exists>item route. map_of (st_work_items s) wid = Some item \<and> map_of (st_routes s) wid = Some route
        \<and> fp = digest_of sha (st_configuration_digest s) item route)"
  by (auto simp: fingerprint_def digest_of_def result_simps)

lemma require_dispatchable_iff:
  "require_dispatchable sha s wid = Inr () \<longleftrightarrow>
     (\<exists>item route. map_of (st_work_items s) wid = Some item \<and> map_of (st_routes s) wid = Some route
        \<and> (rd_approval route = Automatic
           \<or> (\<exists>record. map_of (st_approvals s) wid = Some record \<and> ar_run_id record = run_id s
                \<and> ar_configuration_digest record = st_configuration_digest s
                \<and> ar_fingerprint record = digest_of sha (st_configuration_digest s) item route)))"
  by (auto simp: require_dispatchable_def rbind_eq_Inr_iff require_item_and_route_Inr fingerprint_def
      digest_of_def split: option.splits if_splits)

lemma approve_Inr:
  "approve sha s wid by at = Inr (record, s') \<longleftrightarrow>
     dt_offset at \<noteq> None \<and> py_strip by \<noteq> []
     \<and> (\<exists>item route. map_of (st_work_items s) wid = Some item \<and> map_of (st_routes s) wid = Some route
          \<and> record = \<lparr>ar_run_id = run_id s, ar_work_item_id = wid, ar_approved_by = by,
                      ar_approved_at = at, ar_configuration_digest = st_configuration_digest s,
                      ar_fingerprint = digest_of sha (st_configuration_digest s) item route\<rparr>
          \<and> s' = s\<lparr>st_approvals := dset (st_approvals s) wid record\<rparr>)"
  by (auto simp: approve_def rbind_eq_Inr_iff require_item_and_route_Inr fingerprint_Inr Let_def)

lemma run_id_approvals [simp]: "run_id (s\<lparr>st_approvals := a\<rparr>) = run_id s"
  by (simp add: run_id_def)

lemma approve_dispatchable:
  assumes "approve sha s wid by at = Inr (record, s')"
  shows "require_dispatchable sha s' wid = Inr ()"
  using assms by (auto simp: approve_Inr require_dispatchable_iff)

lemma approve_other:
  assumes "approve sha s wid by at = Inr (record, s')" and "other \<noteq> wid"
  shows "require_dispatchable sha s' other = require_dispatchable sha s other"
proof -
  from assms have eqs: "map_of (st_approvals s') other = map_of (st_approvals s) other"
    "st_work_items s' = st_work_items s" "st_routes s' = st_routes s"
    "st_configuration_digest s' = st_configuration_digest s" "run_id s' = run_id s"
    by (auto simp: approve_Inr)
  show ?thesis
    unfolding require_dispatchable_def require_item_and_route_def fingerprint_def eqs by (rule refl)
qed

section \<open>What a fingerprint binds\<close>

lemma to_dict_inject:
  assumes "sort_keys (work_item_to_dict a) = sort_keys (work_item_to_dict b)"
    and "work_item_ok a" and "work_item_ok b"
  shows "a = b"
proof -
  have "Inr a = (Inr b :: work_item result)"
    using work_item_from_to_dict [OF assms(2), of "[]"] work_item_from_to_dict [OF assms(3), of "[]"]
    unfolding assms(1) by (rule trans [OF sym])
  then show ?thesis by simp
qed

lemma route_to_dict_inject:
  assumes "sort_keys (route_to_dict a) = sort_keys (route_to_dict b)"
  shows "a = b"
proof -
  have "Inr a = (Inr b :: route_decision result)"
    using route_from_to_dict [of "[]" a] route_from_to_dict [of "[]" b]
    unfolding assms(1) by (rule trans [OF sym])
  then show ?thesis by simp
qed

lemma payload_json_ok:
  "work_item_ok item \<Longrightarrow> json_ok (fingerprint_payload digest item route)"
  by (simp add: fingerprint_payload_def dict_ok_def work_item_json_ok route_json_ok)

lemma sort_keys_payload:
  "sort_keys (fingerprint_payload digest item route) =
     JObj [(''configuration_digest'', JStr digest),
           (''route'', sort_keys (route_to_dict route)),
           (''work_item'', sort_keys (work_item_to_dict item))]"
proof -
  have "sorted [''configuration_digest'', ''route'', ''work_item'']" by code_simp
  then have "sorted_items [(''configuration_digest'', JStr digest),
           (''route'', sort_keys (route_to_dict route)),
           (''work_item'', sort_keys (work_item_to_dict item))]
      = [(''configuration_digest'', JStr digest),
           (''route'', sort_keys (route_to_dict route)),
           (''work_item'', sort_keys (work_item_to_dict item))]"
    by (intro sorted_items_idem) simp
  then show ?thesis by (simp add: fingerprint_payload_def)
qed

lemma payload_inject:
  assumes "dumps Compact (fingerprint_payload d1 item1 route1) = dumps Compact (fingerprint_payload d2 item2 route2)"
    and "work_item_ok item1" and "work_item_ok item2"
  shows "d1 = d2 \<and> item1 = item2 \<and> route1 = route2"
proof -
  have "sort_keys (fingerprint_payload d1 item1 route1) = sort_keys (fingerprint_payload d2 item2 route2)"
    using assms dumps_inject payload_json_ok by metis
  then show ?thesis using assms(2,3)
    by (auto simp: sort_keys_payload dest: to_dict_inject route_to_dict_inject)
qed

text \<open>
  If the digests agree and the hash has no collision between these two texts, the
  configuration digest, the item and the route are the approved ones.
\<close>

lemma fingerprint_inject:
  assumes "digest_of sha d1 item1 route1 = digest_of sha d2 item2 route2"
    and "\<And>x y. x \<in> {dumps Compact (fingerprint_payload d1 item1 route1), dumps Compact (fingerprint_payload d2 item2 route2)}
      \<Longrightarrow> y \<in> {dumps Compact (fingerprint_payload d1 item1 route1), dumps Compact (fingerprint_payload d2 item2 route2)}
      \<Longrightarrow> sha x = sha y \<Longrightarrow> x = y"
    and "work_item_ok item1" and "work_item_ok item2"
  shows "d1 = d2 \<and> item1 = item2 \<and> route1 = route2"
  using assms(1) unfolding digest_of_def
  by (intro payload_inject assms(3,4)) (rule assms(2); simp)

end
