(* ===== verification/Policy_Properties.thy ===== *)
theory Policy_Properties
  imports Examples Routing Approvals
begin

text \<open>
  The properties of the routing policy: what a loaded configuration satisfies, which task and
  model a work item gets, and what an approval binds.
\<close>

section \<open>Configuration\<close>

text \<open>
  C25. Whatever the YAML reader, the schema validator, the file system and the hash return: a
  configuration that \<open>load_router_config\<close> returns is consistent. Its default, planner and
  completion tasks exist, every task uses an existing model alias and escalates only to an
  existing task, matching rules name existing tasks, hard-risk rules existing aliases, and
  the ranks are positive and pairwise different.
\<close>

theorem loaded_configuration_consistent:
  assumes "load_router_config ports path schema_path = Inr c"
  shows "config_ok c"
  using assms by (rule load_router_config_ok)

lemma loaded_configuration_consistent_witness:
  "load_router_config ex_ports ex_root None = Inr ex_loaded \<and> config_ok ex_loaded"
  using loaded_configuration_consistent [OF ex_load] ex_load by blast

section \<open>Routing\<close>

text \<open>
  Under a consistent configuration an item is routed exactly when its task (the explicit
  one, if there is one) is configured; otherwise routing raises \<open>UnknownTaskError\<close> for that
  task. No other exception comes out.
\<close>

theorem route_total_for_known_tasks:
  assumes "config_ok c"
  shows "if (case explicit of Some e \<Rightarrow> e | None \<Rightarrow> wi_task item) \<in> set (dkeys (cf_tasks c))
         then \<exists>r. route c item explicit = Inr r
         else route c item explicit = Inl (UnknownTaskError
                (''Unknown task '' @ py_repr (case explicit of Some e \<Rightarrow> e | None \<Rightarrow> wi_task item)))"
  using route_total [OF assms, where explicit = explicit and item = item] route_unknown [where explicit = explicit and item = item and c = c] by simp

lemma route_total_for_known_tasks_witness:
  "(\<exists>r. route ex_config (ex_item ''a'' [] AccessReadOnly {||}) None = Inr r)
   \<and> route ex_config (ex_item ''a'' [] AccessReadOnly {||}) (Some ''zz'')
       = Inl (UnknownTaskError (''Unknown task '' @ py_repr ''zz''))"
  using route_total_for_known_tasks [OF ex_config_ok, where explicit = None and item = "ex_item ''a'' [] AccessReadOnly {||}"]
    route_total_for_known_tasks [OF ex_config_ok, where explicit = "Some ''zz''" and item = "ex_item ''a'' [] AccessReadOnly {||}"]
  by (simp add: ex_config_def ex_item_def)

text \<open>
  C26. The model of a route is never below a floor and never above what the floors need: its
  rank is at least the rank of the task's own alias and of every alias that an active hard-risk
  rule demands, and no configured alias with a smaller rank satisfies all of these. A flag is
  active when the item carries it or the task policy is destructive or writes externally.
\<close>

theorem route_model_is_least_above_floors:
  assumes "route c item explicit = Inr r"
  shows "\<exists>policy original selected floors.
      map_of (cf_tasks c) (rd_task r) = Some policy
    \<and> map_of (cf_model_aliases c) (tp_model_alias policy) = Some original
    \<and> floors = insert (ma_rank original)
        (floor_ranks c (active_flags item policy) (cf_hard_risk_rules c))
    \<and> selected \<in> set (alias_values c)
    \<and> rd_model_alias r = ma_name selected \<and> rd_model r = ma_model selected
    \<and> rd_reasoning_effort r = ma_reasoning_effort selected
    \<and> (\<forall>floor \<in> floors. floor \<le> ma_rank selected)
    \<and> (\<forall>a \<in> set (alias_values c). (\<forall>floor \<in> floors. floor \<le> ma_rank a)
         \<longrightarrow> ma_rank selected \<le> ma_rank a)"
  using assms
proof (cases rule: route_InrE)
  case (1 policy original selected)
  let ?floors = "insert (ma_rank original)
        (floor_ranks c (active_flags item policy) (cf_hard_risk_rules c))"
  have fin: "finite ?floors" by simp
  have "(\<forall>floor \<in> ?floors. floor \<le> x) \<longleftrightarrow> required_rank c item policy original \<le> x" for x
    unfolding required_rank_def using Max_le_iff [OF fin] by blast
  with 1 show ?thesis by blast
qed

lemma route_model_is_least_above_floors_witness:
  "\<exists>r. route ex_config (ex_item ''a'' [] AccessReadOnly {|''destructive''|}) None = Inr r
     \<and> rd_model r = ''m2''"
proof -
  let ?item = "ex_item ''a'' [] AccessReadOnly {|''destructive''|}"
  obtain r where r: "route ex_config ?item None = Inr r"
    using route_total [OF ex_config_ok, where explicit = None and item = ?item] by (auto simp: ex_config_def ex_item_def)
  from route_model_is_least_above_floors [OF r] have "rd_model r = ''m2''"
    by (auto simp: ex_config_def ex_item_def ex_policy_def alias_values_def floor_ranks_Cons
        active_flags_def Let_def split: if_splits)
  with r show ?thesis by blast
qed

text \<open>
  C33. A route requires approval exactly when the task policy does or an active hard-risk rule
  demands it: rules can only tighten approval. The remaining execution policy is the task's,
  and the risk markers are the union of the policy's and the item's.
\<close>

theorem route_approval_only_tightened:
  assumes "route c item explicit = Inr r"
  shows "\<exists>policy. map_of (cf_tasks c) (rd_task r) = Some policy
    \<and> (rd_approval r = Required \<longleftrightarrow> tp_approval policy = Required
         \<or> (\<exists>rule \<in> set (cf_hard_risk_rules c).
              hr_flag rule |\<in>| active_flags item policy \<and> hr_approval rule = Some Required))
    \<and> rd_sandbox r = tp_sandbox policy \<and> rd_timeout_seconds r = tp_timeout_seconds policy
    \<and> rd_destructive r = (tp_destructive policy \<or> ''destructive'' |\<in>| wi_risk_flags item)
    \<and> rd_external_write r = (tp_external_write policy \<or> ''external-write'' |\<in>| wi_risk_flags item)"
  using assms
proof (cases rule: route_InrE)
  case (1 policy original selected)
  then show ?thesis
    by (cases "tp_approval policy") (auto simp: floor_approval_def list_ex_iff)
qed

lemma route_approval_only_tightened_witness:
  "\<exists>r. route ex_config (ex_item ''a'' [] AccessReadOnly {|''destructive''|}) None = Inr r
     \<and> rd_approval r = Required"
proof -
  let ?item = "ex_item ''a'' [] AccessReadOnly {|''destructive''|}"
  obtain r where r: "route ex_config ?item None = Inr r"
    using route_total [OF ex_config_ok, where explicit = None and item = ?item] by (auto simp: ex_config_def ex_item_def)
  from route_approval_only_tightened [OF r] have "rd_approval r = Required"
    by (auto simp: ex_config_def ex_item_def ex_policy_def active_flags_def Let_def split: if_splits)
  with r show ?thesis by blast
qed

text \<open>
  Without an explicit or planned task the first rule that matches decides: a rule matches
  when a phrase of it occurs in the prompt, compared case-folded, or a glob of it matches an
  affected path. When no rule matches it is the default task. (\<open>route\<close> always passes the
  item's own task as the planned one, so it never gets here: next property.)
\<close>

definition rule_matches :: "match_rule \<Rightarrow> string \<Rightarrow> path list \<Rightarrow> bool" where
  "rule_matches rule prompt paths \<longleftrightarrow>
     (\<exists>phrase \<in> set (mr_phrases rule). occurs_in (casefold phrase) (casefold prompt))
     \<or> (\<exists>p \<in> set paths. \<exists>pattern \<in> set (mr_file_globs rule). glob_hit (str_path p) pattern)"

lemma first_glob_match_None:
  "first_glob_match paths globs = None \<longleftrightarrow>
     (\<forall>p \<in> set paths. \<forall>pattern \<in> set globs. \<not> glob_hit (str_path p) pattern)"
  by (induction paths) (auto simp: find_None_iff find_Some_iff split: option.splits)

lemma match_rules_None:
  "match_rules n rules (casefold prompt) paths = None \<longleftrightarrow>
     (\<forall>rule \<in> set rules. \<not> rule_matches rule prompt paths)"
proof (induction rules arbitrary: n)
  case Nil
  then show ?case by simp
next
  case (Cons rule rules)
  have "rule_matches rule prompt paths \<longleftrightarrow>
      find (\<lambda>ph. occurs_in (casefold ph) (casefold prompt)) (mr_phrases rule) \<noteq> None
      \<or> first_glob_match paths (mr_file_globs rule) \<noteq> None"
    by (auto simp: rule_matches_def first_glob_match_None find_None_iff)
  then show ?case using Cons by (auto split: option.splits)
qed

lemma match_rules_Some:
  assumes "match_rules n rules (casefold prompt) paths = Some (t, src, reason)"
  shows "\<exists>i < length rules. rule_matches (rules ! i) prompt paths \<and> t = mr_task (rules ! i)
    \<and> src = Match \<and> (\<forall>j < i. \<not> rule_matches (rules ! j) prompt paths)"
  using assms
proof (induction rules arbitrary: n)
  case Nil
  then show ?case by simp
next
  case (Cons rule rules)
  show ?case
  proof (cases "rule_matches rule prompt paths")
    case True
    then have "match_rules n [rule] (casefold prompt) paths \<noteq> None"
      using match_rules_None [of n "[rule]"] by simp
    with Cons.prems have "t = mr_task rule \<and> src = Match"
      by (auto split: option.splits)
    with True show ?thesis by (intro exI [of _ 0]) simp
  next
    case False
    then have "match_rules n [rule] (casefold prompt) paths = None"
      using match_rules_None [of n "[rule]"] by simp
    with Cons.prems have "match_rules (Suc n) rules (casefold prompt) paths = Some (t, src, reason)"
      by (auto split: option.splits)
    from Cons.IH [OF this] obtain i where "i < length rules" "rule_matches (rules ! i) prompt paths"
      "t = mr_task (rules ! i)" "src = Match" "\<forall>j < i. \<not> rule_matches (rules ! j) prompt paths"
      by blast
    with False show ?thesis
      by (intro exI [of _ "Suc i"]) (auto simp: less_Suc_eq_0_disj)
  qed
qed

lemma unplanned_task_is_first_match:
  assumes "select_task c None None prompt paths = Inr (t, src, reason)"
  shows "if \<exists>rule \<in> set (cf_matching c). rule_matches rule prompt paths
         then src = Match \<and> (\<exists>i < length (cf_matching c).
                rule_matches (cf_matching c ! i) prompt paths \<and> t = mr_task (cf_matching c ! i)
                \<and> (\<forall>j < i. \<not> rule_matches (cf_matching c ! j) prompt paths))
         else src = Default \<and> t = cf_default_task c \<and> t \<in> set (dkeys (cf_tasks c))"
proof (cases "match_rules 0 (cf_matching c) (casefold prompt) paths")
  case None
  moreover then have "\<not> (\<exists>rule \<in> set (cf_matching c). rule_matches rule prompt paths)"
    by (simp add: match_rules_None)
  ultimately show ?thesis using assms
    by (auto simp: select_task_def rbind_eq_Inr_iff require_task_def split: if_splits)
next
  case (Some hit)
  with assms have m: "match_rules 0 (cf_matching c) (casefold prompt) paths = Some (t, src, reason)"
    by (simp add: select_task_def)
  then have "\<exists>rule \<in> set (cf_matching c). rule_matches rule prompt paths"
    using match_rules_None [of 0 "cf_matching c" prompt paths] by auto
  with match_rules_Some [OF m] show ?thesis by auto
qed

lemma unplanned_task_is_first_match_witness:
  "(\<exists>reason. select_task ex_config None None ''please REVIEW it'' [] = Inr (''review'', Match, reason))
   \<and> rule_matches (hd (cf_matching ex_config)) ''please REVIEW it'' []
   \<and> (\<exists>reason. select_task ex_config None None ''hello'' [] = Inr (''code'', Default, reason))
   \<and> \<not> rule_matches (hd (cf_matching ex_config)) ''hello'' []"
proof -
  have a: "select_task ex_config None None ''please REVIEW it'' []
      = Inr (''review'', Match, ''matching rule 0 phrase '' @ py_repr ''Review'')"
    by code_simp
  have b: "select_task ex_config None None ''hello'' [] = Inr (''code'', Default, ''default task '' @ py_repr ''code'')"
    by code_simp
  have "\<exists>rule \<in> set (cf_matching ex_config). rule_matches rule ''please REVIEW it'' []"
    using unplanned_task_is_first_match [OF a] by (simp split: if_split_asm)
  then have "rule_matches (hd (cf_matching ex_config)) ''please REVIEW it'' []"
    by (simp add: ex_config_def)
  moreover have "\<not> (\<exists>rule \<in> set (cf_matching ex_config). rule_matches rule ''hello'' [])"
    using unplanned_task_is_first_match [OF b] by (simp split: if_split_asm)
  then have "\<not> rule_matches (hd (cf_matching ex_config)) ''hello'' []"
    by (simp add: ex_config_def)
  ultimately show ?thesis using a b by blast
qed

text \<open>
  Every route names its task explicitly or by the planner: the precedence levels of the
  matching rules and of the default task are unreachable through \<open>route\<close>, and without an
  explicit task the item's own task is never replaced.
\<close>

theorem route_never_matches_or_defaults:
  assumes "route c item explicit = Inr r"
  shows "rd_source r = (case explicit of Some e \<Rightarrow> Explicit | None \<Rightarrow> Planner)
    \<and> rd_task r = (case explicit of Some e \<Rightarrow> e | None \<Rightarrow> wi_task item)"
  using assms by (cases rule: route_InrE) simp

lemma route_never_matches_or_defaults_witness:
  "\<exists>r. route ex_config (ex_item ''a'' [] AccessReadOnly {||}) None = Inr r \<and> rd_source r = Planner"
proof -
  let ?item = "ex_item ''a'' [] AccessReadOnly {||}"
  obtain r where r: "route ex_config ?item None = Inr r"
    using route_total [OF ex_config_ok, where explicit = None and item = ?item]
    by (auto simp: ex_config_def ex_item_def)
  from route_never_matches_or_defaults [OF r] r show ?thesis by auto
qed

lemma missing_models_report:
  assumes "m = [] \<longleftrightarrow> P" and "sorted m" and "distinct m" and "set m = S"
    and "v = (if m \<noteq> [] then Inl (E m) else Inr ())"
  shows "(v = Inr () \<longleftrightarrow> P) \<and> (v \<noteq> Inr () \<longrightarrow>
    (\<exists>missing. v = Inl (E missing) \<and> sorted missing \<and> distinct missing \<and> set missing = S))"
  using assms by (cases "m = []") auto

text \<open>
  \<open>validate_models\<close> accepts a set of available models exactly when it has the model of
  every configured alias; it never substitutes one, and otherwise it raises with the missing
  models named once each, in order.
\<close>

lemma validate_models_complete:
  "(validate_models c available = Inr () \<longleftrightarrow> (\<forall>a \<in> set (alias_values c). ma_model a \<in> set available))
   \<and> (validate_models c available \<noteq> Inr () \<longrightarrow>
       (\<exists>missing. validate_models c available =
            Inl (ModelUnavailableError (''Configured model unavailable: '' @ py_join '', '' missing))
          \<and> sorted missing \<and> distinct missing
          \<and> set missing = {ma_model a |a. a \<in> set (alias_values c) \<and> ma_model a \<notin> set available}))"
proof -
  let ?m = "sort (remdups (map ma_model
      (filter (\<lambda>a. ma_model a \<notin> set available) (alias_values c))))"
  have s: "set ?m = {ma_model a |a. a \<in> set (alias_values c) \<and> ma_model a \<notin> set available}"
    by auto
  have v: "validate_models c available = (if ?m \<noteq> []
      then Inl (ModelUnavailableError (''Configured model unavailable: '' @ py_join '', '' ?m)) else Inr ())"
    by (simp only: validate_models_def Let_def)
  have e: "?m = [] \<longleftrightarrow> (\<forall>a \<in> set (alias_values c). ma_model a \<in> set available)"
    unfolding set_empty [symmetric] s by blast
  have "sorted ?m" and "distinct ?m" by simp_all
  then show ?thesis
    by (rule missing_models_report [where E = "\<lambda>m. ModelUnavailableError
        (''Configured model unavailable: '' @ py_join '', '' m)", OF e _ _ s v])
qed

lemma validate_models_complete_witness:
  "validate_models ex_config [''m1'', ''m2''] = Inr ()"
  using validate_models_complete [of ex_config "[''m1'', ''m2'']"]
  by (simp add: ex_config_def alias_values_def)

section \<open>Approvals\<close>

text \<open>
  C1. Dispatch is allowed exactly when the item and its route exist and either the route is
  automatic or there is an approval of this run, for the current configuration digest, whose
  fingerprint is the hash of the current digest, route and item.
\<close>

theorem dispatch_needs_current_approval:
  "require_dispatchable sha s wid = Inr () \<longleftrightarrow>
     (\<exists>item route. map_of (st_work_items s) wid = Some item \<and> map_of (st_routes s) wid = Some route
        \<and> (rd_approval route = Automatic
           \<or> (\<exists>record. map_of (st_approvals s) wid = Some record \<and> ar_run_id record = run_id s
                \<and> ar_configuration_digest record = st_configuration_digest s
                \<and> fingerprint sha s wid = Inr (ar_fingerprint record))))"
  by (auto simp: require_dispatchable_iff fingerprint_Inr)

lemma dispatch_needs_current_approval_witness:
  "require_dispatchable (\<lambda>x. x) (ex_state Required) ''a'' = Inr ()
   \<and> require_dispatchable (\<lambda>x. x) (ex_state Required) ''b'' \<noteq> Inr ()"
  using dispatch_needs_current_approval [of "\<lambda>x. x" "ex_state Required" "''a''"]
    dispatch_needs_current_approval [of "\<lambda>x. x" "ex_state Required" "''b''"]
  by (simp add: ex_state_def ex_route_def)

text \<open>
  C32. An approval enables the item it names and nothing else: after \<open>approve\<close> the item can be
  dispatched, the answer for every other item is unchanged, and so is the rest of the state.
  Without a time zone, with a blank identity, or for an item without a route it raises.
\<close>

theorem approve_enables_one_item:
  "(\<forall>record s'. approve sha s wid by at = Inr (record, s') \<longrightarrow>
      require_dispatchable sha s' wid = Inr ()
      \<and> (\<forall>other. other \<noteq> wid \<longrightarrow> require_dispatchable sha s' other = require_dispatchable sha s other)
      \<and> s'\<lparr>st_approvals := st_approvals s\<rparr> = s)
   \<and> (dt_offset at = None \<or> py_strip by = [] \<or> map_of (st_work_items s) wid = None
        \<or> map_of (st_routes s) wid = None
      \<longleftrightarrow> (\<exists>m. approve sha s wid by at = Inl (ApprovalRequiredError m)))"
proof (intro conjI allI impI)
  fix rec s' assume a: "approve sha s wid by at = Inr (rec, s')"
  then show "require_dispatchable sha s' wid = Inr ()" by (rule approve_dispatchable)
  show "require_dispatchable sha s' other = require_dispatchable sha s other" if "other \<noteq> wid" for other
    using a that by (rule approve_other)
  show "s'\<lparr>st_approvals := st_approvals s\<rparr> = s" using a by (auto simp: approve_Inr)
next
  show "dt_offset at = None \<or> py_strip by = [] \<or> map_of (st_work_items s) wid = None
        \<or> map_of (st_routes s) wid = None
      \<longleftrightarrow> (\<exists>m. approve sha s wid by at = Inl (ApprovalRequiredError m))"
    by (auto simp: approve_def require_item_and_route_def fingerprint_def Let_def split: option.splits)
qed

lemma approve_enables_one_item_witness:
  "\<exists>record s'. approve (\<lambda>x. x) (ex_state Required) ''b'' ''ann'' ex_time = Inr (record, s')
     \<and> require_dispatchable (\<lambda>x. x) s' ''b'' = Inr ()"
proof -
  have "\<exists>item route. map_of (st_work_items (ex_state Required)) ''b'' = Some item
      \<and> map_of (st_routes (ex_state Required)) ''b'' = Some route"
    by (simp add: ex_state_def)
  moreover have "py_strip ''ann'' \<noteq> []" by code_simp
  ultimately obtain rec s' where a: "approve (\<lambda>x. x) (ex_state Required) ''b'' ''ann'' ex_time = Inr (rec, s')"
    by (auto simp: approve_Inr ex_time_def)
  with approve_enables_one_item [of "\<lambda>x. x" "ex_state Required" "''b''" "''ann''" ex_time] show ?thesis
    by blast
qed

text \<open>
  C20. An approval binds what was approved. If an approval given in one state still allows an
  approval-required item in a later state of the run, then the configuration digest, the work
  item and the route are the ones that were approved, provided the hash does not collide on the
  two canonical texts. Any edit of the item's instructions, paths or risk flags, or of the
  route's model, sandbox or limits, takes the permission away.
\<close>

theorem approval_binds_item_and_route:
  assumes given: "approve sha s1 wid by at = Inr (record, s1')"
    and kept: "map_of (st_approvals s2) wid = Some record"
    and allowed: "require_dispatchable sha s2 wid = Inr ()"
    and required: "map_of (st_routes s2) wid = Some route2" "rd_approval route2 = Required"
    and items: "map_of (st_work_items s1) wid = Some item1" "map_of (st_work_items s2) wid = Some item2"
      "map_of (st_routes s1) wid = Some route1" "work_item_ok item1" "work_item_ok item2"
    and no_collision: "inj_on sha
      {dumps Compact (fingerprint_payload (st_configuration_digest s1) item1 route1),
       dumps Compact (fingerprint_payload (st_configuration_digest s2) item2 route2)}"
  shows "st_configuration_digest s2 = st_configuration_digest s1 \<and> item2 = item1 \<and> route2 = route1
    \<and> run_id s2 = run_id s1"
proof -
  from given items have rec: "ar_run_id record = run_id s1"
    "ar_fingerprint record = digest_of sha (st_configuration_digest s1) item1 route1"
    by (auto simp: approve_Inr)
  from allowed required kept items have "ar_run_id record = run_id s2"
    and fp: "ar_fingerprint record = digest_of sha (st_configuration_digest s2) item2 route2"
    by (auto simp: require_dispatchable_iff)
  moreover have "st_configuration_digest s1 = st_configuration_digest s2 \<and> item1 = item2 \<and> route1 = route2"
    by (rule fingerprint_inject [of sha])
      (use rec fp items inj_onD [OF no_collision] in simp_all)
  ultimately show ?thesis using rec by simp
qed

lemma approval_binds_item_and_route_witness:
  "\<exists>record s'. approve (\<lambda>x. x) (ex_state Required) ''b'' ''ann'' ex_time = Inr (record, s')
     \<and> require_dispatchable (\<lambda>x. x) s' ''b'' = Inr ()
     \<and> run_id s' = run_id (ex_state Required)"
proof -
  let ?s = "ex_state Required" and ?i = "ex_item ''b'' [''a''] AccessWorkspaceWrite {||}"
  have i: "map_of (st_work_items ?s) ''b'' = Some ?i" and r: "map_of (st_routes ?s) ''b'' = Some (ex_route Required)"
    by (simp_all add: ex_state_def)
  moreover have "py_strip ''ann'' \<noteq> []" by code_simp
  ultimately obtain rec s' where a: "approve (\<lambda>x. x) ?s ''b'' ''ann'' ex_time = Inr (rec, s')"
    by (auto simp: approve_Inr ex_time_def)
  have d: "require_dispatchable (\<lambda>x. x) s' ''b'' = Inr ()" using a by (rule approve_dispatchable)
  have s': "map_of (st_approvals s') ''b'' = Some rec" "st_routes s' = st_routes ?s" "st_work_items s' = st_work_items ?s"
    using a by (auto simp: approve_Inr)
  have ok: "work_item_ok ?i"
    using values_okD [of work_item_ok "st_work_items ?s"] i ex_state_ok [of Required]
    by (simp add: run_state_ok_def)
  have "rd_approval (ex_route Required) = Required" by (simp add: ex_route_def)
  from approval_binds_item_and_route [OF a s'(1) d _ this i _ r ok ok] s' i r
  have "run_id s' = run_id ?s" by simp
  with a d show ?thesis by blast
qed

end
