(* ===== verification/File_System.thy ===== *)
theory File_System
  imports Errors Py_Path
begin

text \<open>
  The local file system as the run store uses it: text files and directories, primitive
  operations that may each fail, and a history. Every primitive takes one entry of
  \<open>fs_faults\<close>; \<open>Some k\<close> makes it raise \<open>OSError\<close>, a write after the first \<open>k\<close>
  characters. \<open>fs_history\<close> lists the files as they were after every primitive, failed ones
  included: these are the contents a crash can leave. \<open>fs_temps\<close> supplies the random parts
  of temporary file names. The texts of operating-system errors are not modelled.
\<close>

record fs =
  fs_files :: "path \<Rightarrow> string option"
  fs_dirs :: "path set"
  fs_faults :: "nat option list"
  fs_temps :: "string list"
  fs_history :: "(path \<Rightarrow> string option) list"

type_synonym 'a fs_op = "(fs, 'a) eff"

definition os_error :: "string \<Rightarrow> exn + 'a" where
  "os_error what = Inl (PyOSError what)"

definition fault_of :: "fs \<Rightarrow> nat option" where
  "fault_of w = (case fs_faults w of [] \<Rightarrow> None | f # _ \<Rightarrow> f)"

text \<open>One primitive: \<open>ok\<close> when no fault is due, \<open>partial k\<close> what a fault leaves behind.\<close>

definition fs_prim ::
  "(fs \<Rightarrow> (exn + 'a) \<times> (path \<Rightarrow> string option) \<times> path set) \<Rightarrow> (nat \<Rightarrow> fs \<Rightarrow> path \<Rightarrow> string option)
    \<Rightarrow> 'a fs_op" where
  "fs_prim ok partial w =
     (let (r, files, dirs) =
        (case fault_of w of
           Some k \<Rightarrow> (os_error ''I/O error'', partial k w, fs_dirs w)
         | None \<Rightarrow> ok w)
      in (r, w\<lparr>fs_files := files, fs_dirs := dirs, fs_faults := tl (fs_faults w),
              fs_history := fs_history w @ [files]\<rparr>))"

abbreviation unchanged :: "nat \<Rightarrow> fs \<Rightarrow> path \<Rightarrow> string option" where
  "unchanged k w \<equiv> fs_files w"

definition fs_exists :: "fs \<Rightarrow> path \<Rightarrow> bool" where
  "fs_exists w p \<longleftrightarrow> fs_files w p \<noteq> None \<or> p \<in> fs_dirs w"

definition path_prefixes :: "path \<Rightarrow> path set" where
  "path_prefixes p = (\<lambda>n. Path (path_root p) (take n (path_parts p))) ` {..length (path_parts p)}"

definition fs_mkdir_parents :: "path \<Rightarrow> unit fs_op" where
  "fs_mkdir_parents p =
     fs_prim (\<lambda>w. if fs_files w p \<noteq> None then (os_error ''File exists'', fs_files w, fs_dirs w)
                  else (Inr (), fs_files w, path_prefixes p \<union> fs_dirs w)) unchanged"

definition fs_mkdir_new :: "path \<Rightarrow> unit fs_op" where
  "fs_mkdir_new p =
     fs_prim (\<lambda>w. if fs_exists w p then (os_error ''File exists'', fs_files w, fs_dirs w)
                  else (Inr (), fs_files w, insert p (fs_dirs w))) unchanged"

text \<open>\<open>Path.write_text\<close>: truncate, then write.\<close>

definition fs_write_text :: "path \<Rightarrow> string \<Rightarrow> unit fs_op" where
  "fs_write_text p content =
     fs_prim (\<lambda>w. (Inr (), (fs_files w)(p \<mapsto> content), fs_dirs w))
             (\<lambda>k w. (fs_files w)(p \<mapsto> take k content))"

definition fs_append_text :: "path \<Rightarrow> string \<Rightarrow> unit fs_op" where
  "fs_append_text p content =
     fs_prim (\<lambda>w. (Inr (), (fs_files w)(p \<mapsto> (case fs_files w p of None \<Rightarrow> [] | Some t \<Rightarrow> t) @ content),
                   fs_dirs w))
             (\<lambda>k w. (fs_files w)(p \<mapsto> (case fs_files w p of None \<Rightarrow> [] | Some t \<Rightarrow> t) @ take k content))"

definition fs_fsync :: "unit fs_op" where
  "fs_fsync = fs_prim (\<lambda>w. (Inr (), fs_files w, fs_dirs w)) unchanged"

text \<open>
  \<open>tempfile\<close>: an empty file under the first candidate name that does not exist yet, or
  \<open>FileExistsError\<close> when no candidate is free.
\<close>

definition temp_path :: "path \<Rightarrow> string \<Rightarrow> string \<Rightarrow> path" where
  "temp_path p pre r = Path (path_root p) (path_parts p @ [pre @ r @ ''.tmp''])"

definition fs_mkstemp :: "path \<Rightarrow> string \<Rightarrow> path fs_op" where
  "fs_mkstemp dir pre =
     fs_prim (\<lambda>w. case find (\<lambda>r. \<not> fs_exists w (temp_path dir pre r)) (fs_temps w) of
                    None \<Rightarrow> (os_error ''No usable temporary file name found'', fs_files w, fs_dirs w)
                  | Some r \<Rightarrow> (Inr (temp_path dir pre r),
                               (fs_files w)(temp_path dir pre r \<mapsto> []), fs_dirs w)) unchanged"

definition fs_replace :: "path \<Rightarrow> path \<Rightarrow> unit fs_op" where
  "fs_replace src dst =
     fs_prim (\<lambda>w. case fs_files w src of
                    None \<Rightarrow> (os_error ''No such file or directory'', fs_files w, fs_dirs w)
                  | Some t \<Rightarrow>
                      if dst \<in> fs_dirs w then (os_error ''Is a directory'', fs_files w, fs_dirs w)
                      else (Inr (), (fs_files w)(src := None, dst \<mapsto> t), fs_dirs w)) unchanged"

definition fs_unlink_missing_ok :: "path \<Rightarrow> unit fs_op" where
  "fs_unlink_missing_ok p =
     fs_prim (\<lambda>w. (Inr (), (fs_files w)(p := None), fs_dirs w)) unchanged"

definition fs_read_text :: "path \<Rightarrow> string fs_op" where
  "fs_read_text p =
     fs_prim (\<lambda>w. (case fs_files w p of
                     None \<Rightarrow> os_error ''No such file or directory''
                   | Some t \<Rightarrow> Inr t, fs_files w, fs_dirs w)) unchanged"

definition fs_is_dir :: "path \<Rightarrow> bool fs_op" where
  "fs_is_dir p = (\<lambda>w. (Inr (p \<in> fs_dirs w), w))"

definition fs_is_file :: "path \<Rightarrow> bool fs_op" where
  "fs_is_file p = (\<lambda>w. (Inr (fs_files w p \<noteq> None), w))"

lemmas fs_prims = fs_mkdir_parents_def fs_mkdir_new_def fs_write_text_def fs_append_text_def
  fs_fsync_def fs_mkstemp_def fs_replace_def fs_unlink_missing_ok_def fs_read_text_def

definition parent_of :: "path \<Rightarrow> path" where
  "parent_of p = Path (path_root p) (butlast (path_parts p))"

definition name_of :: "path \<Rightarrow> string" where
  "name_of p = (if path_parts p = [] then [] else last (path_parts p))"

section \<open>Atomic replacement\<close>

definition temp_prefix :: "path \<Rightarrow> string" where
  "temp_prefix p = ''.'' @ name_of p @ ''.''"

text \<open>
  \<open>_atomic_write_text\<close> of \<open>storage/json_store.py\<close>: the content goes to a temporary file in
  the same directory, is flushed, and replaces the target in one step; on any failure the
  temporary file is removed. An error of that removal replaces the error of the body.
\<close>

definition atomic_write_text :: "path \<Rightarrow> string \<Rightarrow> unit fs_op" where
  "atomic_write_text p content =
     io_bind (fs_mkstemp (parent_of p) (temp_prefix p)) (\<lambda>tmp w.
       case io_bind (fs_append_text tmp content) (\<lambda>_. io_bind fs_fsync (\<lambda>_. fs_replace tmp p)) w of
         (Inr _, w') \<Rightarrow> (Inr (), w')
       | (Inl e, w') \<Rightarrow>
           (case fs_unlink_missing_ok tmp w' of
              (Inl e', w'') \<Rightarrow> (Inl e', w'')
            | (Inr _, w'') \<Rightarrow> (Inl e, w'')))"

section \<open>What a crash can leave\<close>

text \<open>
  \<open>snapshot_ok p t tmp old h\<close>: the files \<open>h\<close> have at \<open>p\<close> either what \<open>old\<close> has or \<open>t\<close>, and
  agree with \<open>old\<close> everywhere else but at \<open>tmp\<close>. \<open>crash_safe\<close> says so of every state of
  the files since the history had length \<open>n\<close>.
\<close>

definition snapshot_ok ::
  "path \<Rightarrow> string \<Rightarrow> path \<Rightarrow> (path \<Rightarrow> string option) \<Rightarrow> (path \<Rightarrow> string option) \<Rightarrow> bool" where
  "snapshot_ok p t tmp old h \<longleftrightarrow>
     (h p = old p \<or> h p = Some t) \<and> (\<forall>q. q \<noteq> p \<longrightarrow> q \<noteq> tmp \<longrightarrow> h q = old q)"

definition crash_safe ::
  "path \<Rightarrow> string \<Rightarrow> path \<Rightarrow> (path \<Rightarrow> string option) \<Rightarrow> nat \<Rightarrow> fs \<Rightarrow> bool" where
  "crash_safe p t tmp old n w \<longleftrightarrow>
     n \<le> length (fs_history w) \<and> list_all (snapshot_ok p t tmp old) (drop n (fs_history w))
     \<and> snapshot_ok p t tmp old (fs_files w)"

lemma fs_prim_simps:
  "fs_history (snd (fs_prim ok partial w)) = fs_history w @ [fs_files (snd (fs_prim ok partial w))]"
  "fs_files (snd (fs_prim ok partial w)) =
     (case fault_of w of Some k \<Rightarrow> partial k w | None \<Rightarrow> fst (snd (ok w)))"
  "fs_dirs (snd (fs_prim ok partial w)) =
     (case fault_of w of Some k \<Rightarrow> fs_dirs w | None \<Rightarrow> snd (snd (ok w)))"
  "fst (fs_prim ok partial w) =
     (case fault_of w of Some k \<Rightarrow> os_error ''I/O error'' | None \<Rightarrow> fst (ok w))"
  by (simp_all add: fs_prim_def case_prod_beta Let_def split: option.splits)

lemma crash_safe_prim:
  assumes "crash_safe p t tmp old n w"
    and "\<And>k. snapshot_ok p t tmp old (partial k w)" and "snapshot_ok p t tmp old (fst (snd (ok w)))"
  shows "crash_safe p t tmp old n (snd (fs_prim ok partial w))"
  using assms by (auto simp: crash_safe_def fs_prim_simps split: option.splits)

lemma crash_safe_start: "crash_safe p t tmp (fs_files w) (length (fs_history w)) w"
  by (simp add: crash_safe_def snapshot_ok_def)

lemma crash_safe_unchanged:
  assumes "crash_safe p t tmp old n w" and "fst (snd (ok w)) = fs_files w"
  shows "crash_safe p t tmp old n (snd (fs_prim ok unchanged w))"
  using assms by (intro crash_safe_prim) (simp_all add: crash_safe_def)

lemma crash_safe_update_tmp:
  assumes "crash_safe p t tmp old n w" and "tmp \<noteq> p"
  shows "snapshot_ok p t tmp old ((fs_files w)(tmp := x))"
  using assms by (auto simp: crash_safe_def snapshot_ok_def)

lemma temp_path_other:
  assumes "path_parts p \<noteq> []"
  shows "temp_path (parent_of p) (temp_prefix p) r \<noteq> p"
proof
  assume "temp_path (parent_of p) (temp_prefix p) r = p"
  then have "path_parts (temp_path (parent_of p) (temp_prefix p) r) = path_parts p" by simp
  then have "butlast (path_parts p) @ [temp_prefix p @ r @ ''.tmp''] = butlast (path_parts p) @ [name_of p]"
    using assms by (simp add: temp_path_def parent_of_def name_of_def)
  then have "length (temp_prefix p @ r @ ''.tmp'') = length (name_of p)" by simp
  then show False by (simp add: temp_prefix_def)
qed

text \<open>The body after the temporary file exists: write, flush, replace.\<close>

lemma atomic_body:
  assumes safe: "crash_safe p t tmp old n w" and tmp: "tmp \<noteq> p" "fs_files w tmp = Some []" "old tmp = None"
    and at_p: "fs_files w p = old p"
    and run: "io_bind (fs_append_text tmp t) (\<lambda>_. io_bind fs_fsync (\<lambda>_. fs_replace tmp p)) w = (r, w')"
  shows "crash_safe p t tmp old n w'" and "fs_dirs w' = fs_dirs w"
    and "r = Inr () \<Longrightarrow> fs_files w' = old(p \<mapsto> t)"
    and "r = Inl e \<Longrightarrow> fs_files w' p = old p"
proof -
  define w1 where "w1 = snd (fs_append_text tmp t w)"
  define w2 where "w2 = snd (fs_fsync w1)"
  define w3 where "w3 = snd (fs_replace tmp p w2)"
  have s1: "crash_safe p t tmp old n w1"
    unfolding w1_def fs_append_text_def
    by (rule crash_safe_prim [OF safe]) (simp_all add: crash_safe_update_tmp [OF safe tmp(1)])
  have s2: "crash_safe p t tmp old n w2"
    unfolding w2_def fs_fsync_def by (rule crash_safe_unchanged [OF s1]) simp
  have d: "fs_dirs w1 = fs_dirs w" "fs_dirs w2 = fs_dirs w" "fs_files w2 = fs_files w1"
    by (simp_all add: w1_def w2_def fs_append_text_def fs_fsync_def fs_prim_simps split: option.splits)
  have p1: "fs_files w1 p = old p" "fs_files w2 p = old p"
    using tmp at_p d by (auto simp: w1_def fs_append_text_def fs_prim_simps split: option.splits)
  have d3: "fs_dirs w3 = fs_dirs w"
    by (simp add: w3_def fs_replace_def fs_prim_simps d split: option.splits)
  have step1: "fst (fs_append_text tmp t w) = Inr () \<Longrightarrow> fs_files w1 = (fs_files w)(tmp \<mapsto> t)"
    using tmp by (auto simp: w1_def fs_append_text_def fs_prim_simps os_error_def split: option.splits)
  have s3: "crash_safe p t tmp old n w3" if "fst (fs_append_text tmp t w) = Inr ()"
    unfolding w3_def fs_replace_def
  proof (rule crash_safe_prim [OF s2])
    show "snapshot_ok p t tmp old (fs_files w2)" using s2 by (simp add: crash_safe_def)
    have "fs_files w2 tmp = Some t" using step1 [OF that] d by simp
    then show "snapshot_ok p t tmp old (fst (snd (case fs_files w2 tmp of
        None \<Rightarrow> (os_error ''No such file or directory'', fs_files w2, fs_dirs w2)
      | Some t \<Rightarrow> if p \<in> fs_dirs w2 then (os_error ''Is a directory'', fs_files w2, fs_dirs w2)
                 else (Inr (), (fs_files w2)(tmp := None, p \<mapsto> t), fs_dirs w2))))"
      using s2 by (auto simp: crash_safe_def snapshot_ok_def)
  qed
  have res3: "fs_files w3 = old(p \<mapsto> t)"
    if "fst (fs_append_text tmp t w) = Inr ()" "fst (fs_replace tmp p w2) = Inr ()"
  proof -
    have f2: "fs_files w2 = (fs_files w)(tmp \<mapsto> t)" using step1 [OF that(1)] d by simp
    have "fs_files w3 = (fs_files w2)(tmp := None, p \<mapsto> t)"
      using that(2) f2 by (auto simp: w3_def fs_replace_def fs_prim_simps os_error_def split: option.splits if_splits)
    moreover have "fs_files w q = old q" if "q \<noteq> tmp" for q
      using safe at_p that by (cases "q = p") (auto simp: crash_safe_def snapshot_ok_def)
    ultimately show ?thesis using f2 tmp by (auto simp: fun_eq_iff)
  qed
  have err3: "fs_files w3 p = old p" if "fst (fs_replace tmp p w2) = Inl e"
    using that p1 by (auto simp: w3_def fs_replace_def fs_prim_simps os_error_def split: option.splits if_splits)
  have bind: "io_bind m f v = (case fst (m v) of Inl e \<Rightarrow> (Inl e, snd (m v)) | Inr a \<Rightarrow> f a (snd (m v)))"
    for m :: "'x fs_op" and f :: "'x \<Rightarrow> 'y fs_op" and v
    by (cases "m v") (simp add: io_bind_def split: sum.split)
  have "w' = (if fst (fs_append_text tmp t w) \<noteq> Inr () then w1 else if fst (fs_fsync w1) \<noteq> Inr () then w2 else w3)"
    and "r = (if fst (fs_append_text tmp t w) \<noteq> Inr () then fst (fs_append_text tmp t w)
        else if fst (fs_fsync w1) \<noteq> Inr () then fst (fs_fsync w1) else fst (fs_replace tmp p w2))"
    using run by (auto simp: bind w1_def w2_def w3_def split: sum.splits)
  then show "crash_safe p t tmp old n w'" and "fs_dirs w' = fs_dirs w"
    and "r = Inr () \<Longrightarrow> fs_files w' = old(p \<mapsto> t)" and "r = Inl e \<Longrightarrow> fs_files w' p = old p"
    using s1 s2 s3 d d3 res3 p1 err3 by (auto split: if_splits)
qed

lemma atomic_write_text_spec:
  assumes p: "path_parts p \<noteq> []" and run: "atomic_write_text p t w = (r, w')"
  shows "\<exists>tmp. parent_of tmp = parent_of p \<and> crash_safe p t tmp (fs_files w) (length (fs_history w)) w'"
    and "fs_dirs w' = fs_dirs w"
    and "r = Inr () \<Longrightarrow> fs_files w' = (fs_files w)(p \<mapsto> t)"
    and "r = Inl e \<Longrightarrow> fs_files w' p = fs_files w p"
proof -
  let ?dir = "parent_of p" and ?pre = "temp_prefix p"
  obtain m w1 where m: "fs_mkstemp ?dir ?pre w = (m, w1)" by fastforce
  have parent: "parent_of (temp_path ?dir ?pre x) = parent_of p" for x
    by (simp add: temp_path_def parent_of_def)
  have "(\<exists>tmp. parent_of tmp = parent_of p \<and> crash_safe p t tmp (fs_files w) (length (fs_history w)) w') \<and> fs_dirs w' = fs_dirs w
    \<and> (r = Inr () \<longrightarrow> fs_files w' = (fs_files w)(p \<mapsto> t)) \<and> (r = Inl e \<longrightarrow> fs_files w' p = fs_files w p)"
  proof (cases m)
    case (Inl x)
    have w1: "w1 = snd (fs_mkstemp ?dir ?pre w)" using m by simp
    have files: "fs_files w1 = fs_files w" and "fs_dirs w1 = fs_dirs w"
      using m Inl unfolding w1
      by (auto simp: fs_mkstemp_def os_error_def fs_prim_def Let_def split: option.splits)
    moreover have "crash_safe p t tmp (fs_files w) (length (fs_history w)) w1" for tmp
      using files unfolding w1 by (simp add: fs_mkstemp_def fs_prim_simps(1) crash_safe_def snapshot_ok_def)
    moreover have "r = Inl x" "w' = w1" using run m Inl by (simp_all add: atomic_write_text_def io_bind_def)
    ultimately show ?thesis using parent [of "[]"] by auto
  next
    case (Inr tmp)
    have w1: "w1 = snd (fs_mkstemp ?dir ?pre w)" and fm: "fst (fs_mkstemp ?dir ?pre w) = Inr tmp"
      using m Inr by simp_all
    from fm obtain rnd where rnd: "find (\<lambda>r. \<not> fs_exists w (temp_path ?dir ?pre r)) (fs_temps w) = Some rnd"
      and tmp: "tmp = temp_path ?dir ?pre rnd" and nf: "fault_of w = None"
      by (auto simp: fs_mkstemp_def fs_prim_simps os_error_def split: option.splits)
    have fresh: "fs_files w tmp = None" using rnd tmp by (auto simp: find_Some_iff fs_exists_def)
    have ne: "tmp \<noteq> p" using temp_path_other [OF p] tmp by simp
    have files: "fs_files w1 = (fs_files w)(tmp \<mapsto> [])" and dirs: "fs_dirs w1 = fs_dirs w"
      unfolding w1 fs_mkstemp_def fs_prim_simps by (simp_all add: nf rnd tmp)
    have safe1: "crash_safe p t tmp (fs_files w) (length (fs_history w)) w1"
      using files ne unfolding w1 by (simp add: fs_mkstemp_def fs_prim_simps(1) crash_safe_def snapshot_ok_def)
    obtain rb wb where body: "io_bind (fs_append_text tmp t) (\<lambda>_. io_bind fs_fsync (\<lambda>_. fs_replace tmp p)) w1 = (rb, wb)"
      by fastforce
    note b = atomic_body [OF safe1 ne _ fresh _ body]
    have b': "crash_safe p t tmp (fs_files w) (length (fs_history w)) wb" "fs_dirs wb = fs_dirs w"
      "rb = Inr () \<Longrightarrow> fs_files wb = (fs_files w)(p \<mapsto> t)" "rb = Inl y \<Longrightarrow> fs_files wb p = fs_files w p" for y
      using b files ne dirs by simp_all
    define wu where "wu = snd (fs_unlink_missing_ok tmp wb)"
    have u: "crash_safe p t tmp (fs_files w) (length (fs_history w)) wu"
      unfolding wu_def fs_unlink_missing_ok_def
      by (rule crash_safe_prim [OF b'(1)])
        (use b'(1) in \<open>simp_all add: crash_safe_update_tmp [OF b'(1) ne] crash_safe_def\<close>)
    have u': "fs_dirs wu = fs_dirs wb" "fs_files wu p = fs_files wb p"
      using ne by (auto simp: wu_def fs_unlink_missing_ok_def fs_prim_simps split: option.splits)
    show ?thesis
    proof (cases rb)
      case (Inl y)
      then have "w' = wu" and "r \<noteq> Inr ()"
        using run m Inr body by (auto simp: atomic_write_text_def io_bind_def wu_def split: prod.splits sum.splits)
      then show ?thesis using u u' b' Inl parent [of rnd] tmp by auto
    next
      case (Inr z)
      then have "w' = wb" and "r = Inr ()"
        using run m \<open>m = Inr tmp\<close> body by (auto simp: atomic_write_text_def io_bind_def)
      then show ?thesis using b' Inr parent [of rnd] tmp by auto
    qed
  qed
  then show "\<exists>tmp. parent_of tmp = parent_of p \<and> crash_safe p t tmp (fs_files w) (length (fs_history w)) w'"
    and "fs_dirs w' = fs_dirs w"
    and "r = Inr () \<Longrightarrow> fs_files w' = (fs_files w)(p \<mapsto> t)"
    and "r = Inl e \<Longrightarrow> fs_files w' p = fs_files w p" by simp_all
qed

text \<open>Without faults, with a free temporary name, the replacement succeeds.\<close>

lemma fault_of_Nil [simp]: "fs_faults w = [] \<Longrightarrow> fault_of w = None"
  by (simp add: fault_of_def)

lemma fs_prim_faults: "fs_faults (snd (fs_prim ok partial w)) = tl (fs_faults w)"
  by (simp add: fs_prim_def case_prod_beta Let_def)

lemma fs_prim_quiet:
  assumes "fs_faults w = []" and "ok w = (r, files, dirs)"
  shows "fs_prim ok partial w =
    (r, w\<lparr>fs_files := files, fs_dirs := dirs, fs_faults := [], fs_history := fs_history w @ [files]\<rparr>)"
  using assms by (simp add: fs_prim_def)

lemma atomic_write_succeeds:
  assumes quiet: "fs_faults w = []" and r: "r \<in> set (fs_temps w)"
    "\<not> fs_exists w (temp_path (parent_of p) (temp_prefix p) r)"
    and p: "path_parts p \<noteq> []" "p \<notin> fs_dirs w"
  shows "\<exists>w'. atomic_write_text p t w = (Inr (), w') \<and> fs_faults w' = [] \<and> fs_temps w' = fs_temps w"
proof -
  let ?free = "\<lambda>r. \<not> fs_exists w (temp_path (parent_of p) (temp_prefix p) r)"
  obtain rnd where rnd: "find ?free (fs_temps w) = Some rnd"
    using r by (cases "find ?free (fs_temps w)") (auto simp: find_None_iff)
  let ?tmp = "temp_path (parent_of p) (temp_prefix p) rnd"
  obtain w1 where w1: "fs_mkstemp (parent_of p) (temp_prefix p) w = (Inr ?tmp, w1)"
    "fs_files w1 = (fs_files w)(?tmp \<mapsto> [])" "fs_dirs w1 = fs_dirs w" "fs_faults w1 = []" "fs_temps w1 = fs_temps w"
    unfolding fs_mkstemp_def by (simp add: rnd fs_prim_quiet [OF quiet])
  obtain w2 where w2: "fs_append_text ?tmp t w1 = (Inr (), w2)"
    "fs_files w2 = (fs_files w1)(?tmp \<mapsto> t)" "fs_dirs w2 = fs_dirs w1" "fs_faults w2 = []" "fs_temps w2 = fs_temps w1"
    unfolding fs_append_text_def by (simp add: w1 fs_prim_quiet [OF w1(4)])
  obtain w3 where w3: "fs_fsync w2 = (Inr (), w3)"
    "fs_files w3 = fs_files w2" "fs_dirs w3 = fs_dirs w2" "fs_faults w3 = []" "fs_temps w3 = fs_temps w2"
    unfolding fs_fsync_def by (simp add: fs_prim_quiet [OF w2(4)])
  obtain w4 where "fs_replace ?tmp p w3 = (Inr (), w4)" "fs_faults w4 = []" "fs_temps w4 = fs_temps w3"
    using p(2) unfolding fs_replace_def by (simp add: w1 w2 w3 fs_prim_quiet [OF w3(4)])
  then show ?thesis using w1 w2 w3 by (simp add: atomic_write_text_def io_bind_def)
qed

end
