(* ===== verification/Store.thy ===== *)
theory Store
  imports Domain_Roundtrip File_System
begin

text \<open>
  \<open>JsonRunStore\<close> of \<open>src/goalrouter/storage/json_store.py\<close>: snapshots, events and reports of
  a run below one root. Every method is a computation over the file system of
  \<open>File_System\<close>; the per-run \<open>asyncio.Lock\<close> makes a method atomic for its run, so methods
  are single steps here. The lemmas: what is on disk holds no secret (\<open>redacted\<close>), what was
  saved is loaded (\<open>load_saved\<close>), an interrupted save leaves the old or the new snapshot
  (\<open>save_crash\<close>), and runs do not touch each other's files (\<open>save_frame\<close>).
\<close>

section \<open>Redaction\<close>

definition redacted_mark :: string where
  "redacted_mark = ''[REDACTED]''"

definition secret_keys :: "string list" where
  "secret_keys =
     [''apikey'', ''authorization'', ''bearer'', ''clientsecret'', ''openaikey'', ''openaiapikey'',
      ''password'', ''refreshtoken'', ''accesstoken'', ''secret'']"

definition is_key_char :: "char \<Rightarrow> bool" where
  "is_key_char c \<longleftrightarrow> (97 \<le> ord c \<and> ord c \<le> 122) \<or> is_digit c"

definition secret_key :: "string \<Rightarrow> bool" where
  "secret_key key \<longleftrightarrow> filter is_key_char (casefold key) \<in> set secret_keys"

definition secret_value :: "string \<Rightarrow> bool" where
  "secret_value s \<longleftrightarrow>
     (starts_with ''sk-'' s \<and> 6 < length s) \<or> starts_with ''bearer '' (casefold s)"

fun redact_json :: "json \<Rightarrow> json" where
  "redact_json (JObj kvs) =
     JObj (map (\<lambda>(k, v). (k, if secret_key k then JStr redacted_mark else redact_json v)) kvs)"
| "redact_json (JList vs) = JList (map redact_json vs)"
| "redact_json (JStr s) = (if secret_value s then JStr redacted_mark else JStr s)"
| "redact_json v = v"

text \<open>No secret is left: neither below a secret key nor as a key-shaped string.\<close>

fun redacted :: "json \<Rightarrow> bool" where
  "redacted (JObj kvs) \<longleftrightarrow>
     list_all (\<lambda>(k, v). (secret_key k \<longrightarrow> v = JStr redacted_mark) \<and> redacted v) kvs"
| "redacted (JList vs) \<longleftrightarrow> list_all redacted vs"
| "redacted (JStr s) \<longleftrightarrow> \<not> secret_value s"
| "redacted v \<longleftrightarrow> True"

lemma redacted_mark_safe [simp]: "\<not> secret_value redacted_mark"
  by code_simp

lemma redact_json_redacted: "redacted (redact_json v)"
proof (induction v)
  case (JObj kvs)
  then show ?case by (fastforce simp: list_all_iff snds.simps)
qed (auto simp: list_all_iff)

lemma redact_json_id: "redacted v \<Longrightarrow> redact_json v = v"
proof (induction v)
  case (JList vs)
  then show ?case by (auto simp: list_all_iff intro: map_idI)
next
  case (JObj kvs)
  then have "map (\<lambda>(k, v). (k, if secret_key k then JStr redacted_mark else redact_json v)) kvs = kvs"
    by (intro map_idI) (fastforce simp: list_all_iff snds.simps)
  then show ?case by simp
qed auto

lemma redact_json_ok: "json_ok v \<Longrightarrow> json_ok (redact_json v)"
proof (induction v)
  case (JObj kvs)
  have "dict_ok (map (\<lambda>(k, v). (k, if secret_key k then JStr redacted_mark else redact_json v)) kvs)"
    using JObj.prems by (simp add: dict_ok_def case_prod_unfold comp_def)
  then show ?case using JObj by (fastforce simp: list_all_iff snds.simps)
qed (auto simp: list_all_iff)

section \<open>Paths of a run\<close>

definition run_dir :: "path \<Rightarrow> string \<Rightarrow> path" where
  "run_dir root rid = path_join root (path_of rid)"

definition child :: "path \<Rightarrow> string \<Rightarrow> path" where
  "child p name = path_join p (path_of name)"

abbreviation state_path :: "path \<Rightarrow> string \<Rightarrow> path" where
  "state_path root rid \<equiv> child (run_dir root rid) ''state.json''"

abbreviation events_path :: "path \<Rightarrow> string \<Rightarrow> path" where
  "events_path root rid \<equiv> child (run_dir root rid) ''events.jsonl''"

abbreviation report_path :: "path \<Rightarrow> string \<Rightarrow> path" where
  "report_path root rid \<equiv> child (run_dir root rid) ''report.md''"

section \<open>Operations\<close>

text \<open>\<open>except OSError as error: raise StateError(f"...: {error}")\<close>\<close>

definition os_to_state :: "string \<Rightarrow> exn \<Rightarrow> exn" where
  "os_to_state what e = (case e of PyOSError m \<Rightarrow> StateError (what @ '': '' @ m) | _ \<Rightarrow> e)"

definition atomic_write_json :: "path \<Rightarrow> json \<Rightarrow> unit fs_op" where
  "atomic_write_json p v = atomic_write_text p (dumps (Indent 2) v @ [CHR 10])"

definition create_sync :: "path \<Rightarrow> run_state \<Rightarrow> unit fs_op" where
  "create_sync root s =
     io_bind (fs_mkdir_parents root) (\<lambda>_.
     io_bind (fs_mkdir_new (run_dir root (run_id s))) (\<lambda>_.
     io_bind (fs_write_text (events_path root (run_id s)) []) (\<lambda>_.
       atomic_write_json (state_path root (run_id s)) (redact_json (run_state_to_dict s)))))"

definition store_create :: "path \<Rightarrow> run_state \<Rightarrow> unit fs_op" where
  "store_create root s =
     io_bind (io_lift (validate_run_id (run_id s))) (\<lambda>rid.
       io_map_error (os_to_state (''Cannot create run '' @ rid)) (create_sync root s))"

definition save_sync :: "path \<Rightarrow> run_state \<Rightarrow> unit fs_op" where
  "save_sync root s =
     io_bind (fs_is_dir (run_dir root (run_id s))) (\<lambda>d.
       if \<not> d then io_raise (PyOSError (str_path (run_dir root (run_id s))))
       else atomic_write_json (state_path root (run_id s)) (redact_json (run_state_to_dict s)))"

definition store_save :: "path \<Rightarrow> run_state \<Rightarrow> unit fs_op" where
  "store_save root s =
     io_bind (io_lift (validate_run_id (run_id s))) (\<lambda>rid.
       io_map_error (os_to_state (''Cannot save run '' @ rid)) (save_sync root s))"

definition append_event_sync :: "path \<Rightarrow> string \<Rightarrow> run_event \<Rightarrow> unit fs_op" where
  "append_event_sync root rid event =
     io_bind (fs_is_file (events_path root rid)) (\<lambda>f.
       if \<not> f then io_raise (PyOSError (str_path (events_path root rid)))
       else
         io_bind (fs_append_text (events_path root rid)
                   (dumps Compact (redact_json (run_event_to_dict event)) @ [CHR 10])) (\<lambda>_.
           fs_fsync))"

definition store_append_event :: "path \<Rightarrow> string \<Rightarrow> run_event \<Rightarrow> unit fs_op" where
  "store_append_event root run_ident event =
     io_bind (io_lift (validate_run_id run_ident)) (\<lambda>rid.
       io_map_error (os_to_state (''Cannot append event for run '' @ rid))
         (append_event_sync root rid event))"

definition write_report_sync :: "path \<Rightarrow> string \<Rightarrow> string \<Rightarrow> path fs_op" where
  "write_report_sync root rid content =
     io_bind (fs_is_dir (run_dir root rid)) (\<lambda>d.
       if \<not> d then io_raise (PyOSError (str_path (run_dir root rid)))
       else io_bind (atomic_write_text (report_path root rid) content) (\<lambda>_.
              io_return (report_path root rid)))"

definition store_write_report :: "path \<Rightarrow> string \<Rightarrow> string \<Rightarrow> path fs_op" where
  "store_write_report root run_ident content =
     io_bind (io_lift (validate_run_id run_ident)) (\<lambda>rid.
       io_map_error (os_to_state (''Cannot write report for run '' @ rid))
         (write_report_sync root rid content))"

text \<open>\<open>repr\<close> of a loaded value, for the message about the schema version.\<close>

fun json_repr :: "json \<Rightarrow> string" where
  "json_repr JNull = ''None''"
| "json_repr (JBool b) = (if b then ''True'' else ''False'')"
| "json_repr (JInt i) = str_of_int i"
| "json_repr (JFloat f) =
     (case f of PosInf \<Rightarrow> ''inf'' | NegInf \<Rightarrow> ''-inf'' | NaN \<Rightarrow> ''nan'' | _ \<Rightarrow> float_text f)"
| "json_repr (JStr s) = py_repr s"
| "json_repr (JList vs) = ''['' @ py_join '', '' (map json_repr vs) @ '']''"
| "json_repr (JObj kvs) =
     ''{'' @ py_join '', '' (map (\<lambda>(k, v). py_repr k @ '': '' @ json_repr v) kvs) @ ''}''"

text \<open>\<open>version != 1\<close>: Python's 1, 1.0 and True are equal.\<close>

definition version_is_one :: "json option \<Rightarrow> bool" where
  "version_is_one v \<longleftrightarrow> v \<in> {Some (JInt 1), Some (JBool True), Some (JFloat (Fin 1 0))}"

definition decode_state :: "string \<Rightarrow> string \<Rightarrow> run_state result" where
  "decode_state rid content =
     (case loads content of
        None \<Rightarrow> Inl (StateError (''Run '' @ rid @ '' state is corrupt or unreadable: invalid JSON''))
      | Some (JObj raw) \<Rightarrow>
          if \<not> version_is_one (map_of raw ''schema_version'') then
            Inl (StateError (''Unsupported state schema version ''
              @ json_repr (case map_of raw ''schema_version'' of None \<Rightarrow> JNull | Some v \<Rightarrow> v)
              @ '' for run '' @ rid))
          else
            (case run_state_from_dict raw of
               Inl (StateError m) \<Rightarrow> Inl (StateError (''Run '' @ rid @ '' state is corrupt: '' @ m))
             | r \<Rightarrow> r)
      | Some _ \<Rightarrow>
          Inl (StateError (''Run '' @ rid @ '' state is corrupt: expected a JSON object'')))"

definition load_sync :: "path \<Rightarrow> string \<Rightarrow> run_state fs_op" where
  "load_sync root rid =
     io_bind (io_map_error (os_to_state (''Run '' @ rid @ '' state is corrupt or unreadable''))
               (fs_read_text (state_path root rid))) (\<lambda>content.
       io_lift (decode_state rid content))"

definition store_load ::
  "path \<Rightarrow> string \<Rightarrow> string option \<Rightarrow> bool \<Rightarrow> run_state fs_op" where
  "store_load root run_ident expected_digest acknowledge =
     io_bind (io_lift (validate_run_id run_ident)) (\<lambda>rid.
     io_bind (load_sync root rid) (\<lambda>state.
       case expected_digest of
         None \<Rightarrow> io_return state
       | Some d \<Rightarrow>
           if st_configuration_digest state \<noteq> d \<and> \<not> acknowledge then
             io_raise (ResumeConfigurationChangedError
               (''Run '' @ rid @ '' uses configuration digest '' @ st_configuration_digest state
                 @ ''; current digest is '' @ d))
           else io_return state))"

section \<open>Paths\<close>

lemma path_of_run_id:
  assumes "run_id_matches rid"
  shows "path_of rid = Path [] [rid]"
proof -
  note safe = run_id_matches_safe [OF assms]
  have "\<not> starts_with ''/'' rid" using safe(1) by (auto simp: starts_with_iff)
  then have "root_of rid = []" by (auto simp: root_of_def starts_with_iff)
  moreover have "keep_part rid" using safe(3,4) by (auto simp: keep_part_def)
  ultimately show ?thesis using safe(1) by (simp add: path_of_def split_on_free)
qed

lemma run_dir_inject:
  assumes "run_id_matches a" and "run_id_matches b"
  shows "run_dir root a = run_dir root b \<longleftrightarrow> a = b"
  using assms by (simp add: run_dir_def path_of_run_id path_join_def is_absolute_def)

lemma child_simps:
  assumes "path_of name = Path [] [name]"
  shows "parent_of (child p name) = p" and "path_parts (child p name) \<noteq> []"
    and "name_of (child p name) = name"
  using assms by (simp_all add: child_def parent_of_def name_of_def path_join_def is_absolute_def)

lemma file_names:
  "path_of ''state.json'' = Path [] [''state.json'']"
  "path_of ''events.jsonl'' = Path [] [''events.jsonl'']"
  "path_of ''report.md'' = Path [] [''report.md'']"
  by code_simp+

lemmas store_paths [simp] = child_simps [OF file_names(1)] child_simps [OF file_names(2)]
  child_simps [OF file_names(3)]

lemma store_paths_distinct [simp]:
  "state_path root rid \<noteq> events_path root rid" "state_path root rid \<noteq> report_path root rid"
  "events_path root rid \<noteq> report_path root rid"
  by (simp_all add: child_def file_names path_join_def is_absolute_def)

section \<open>Snapshots\<close>

definition state_text :: "run_state \<Rightarrow> string" where
  "state_text s = dumps (Indent 2) (redact_json (run_state_to_dict s)) @ [CHR 10]"

text \<open>A state that can be stored without loss.\<close>

definition storable :: "run_state \<Rightarrow> bool" where
  "storable s \<longleftrightarrow> run_state_ok s \<and> st_schema_version s = 1 \<and> redacted (run_state_to_dict s)"

lemma decode_state_text:
  assumes "storable s"
  shows "decode_state rid (state_text s) = Inr (canonical s)"
proof -
  have ok: "run_state_ok s" and ver: "st_schema_version s = 1" and red: "redacted (run_state_to_dict s)"
    using assms by (simp_all add: storable_def)
  obtain raw where raw: "sort_keys (run_state_to_dict s) = JObj raw"
    by (simp add: run_state_to_dict_def)
  have "loads (state_text s) = Some (JObj raw)"
    using loads_dumps_newline [OF run_state_json_ok [OF ok]] raw
    by (simp add: state_text_def redact_json_id [OF red])
  moreover have st: "run_state_from_dict raw = Inr (canonical s)"
    using run_state_from_to_dict [OF ok, of "[]"] by (simp add: raw as_mapping_def)
  moreover have "map_of raw ''schema_version'' = Some (JInt 1)"
  proof -
    have "raw = sorted_items (map (\<lambda>(k, v). (k, sort_keys v))
        (case run_state_to_dict s of JObj kvs \<Rightarrow> kvs | _ \<Rightarrow> []))"
      using raw by (simp add: run_state_to_dict_def)
    then show ?thesis
      by (simp add: run_state_to_dict_def sorted_items_map_of dict_ok_def ver)
  qed
  ultimately show ?thesis by (simp add: decode_state_def version_is_one_def)
qed

lemma atomic_json_text:
  "atomic_write_json p (redact_json (run_state_to_dict s)) = atomic_write_text p (state_text s)"
  by (simp add: atomic_write_json_def state_text_def)

lemma os_to_state_map:
  "io_map_error (os_to_state what) m w = (r, w') \<Longrightarrow>
     \<exists>r0. m w = (r0, w') \<and> (case r0 of Inr a \<Rightarrow> r = Inr a | Inl e \<Rightarrow> r = Inl (os_to_state what e))"
  by (cases "m w") (auto simp: io_map_error_def split: sum.splits)

lemma store_save_cases:
  assumes "store_save root s w = (r, w')"
  obtains (refused) e where "r = Inl e" and "w' = w"
  | (wrote) r0 where "atomic_write_text (state_path root (run_id s)) (state_text s) w = (r0, w')"
      and "r = Inr () \<longleftrightarrow> r0 = Inr ()" and "run_id_matches (run_id s)"
      and "run_dir root (run_id s) \<in> fs_dirs w"
proof (cases "run_id_matches (run_id s) \<and> run_dir root (run_id s) \<in> fs_dirs w")
  case False
  then have "\<exists>e. r = Inl e \<and> w' = w"
    using assms by (auto simp: store_save_def io_bind_def validate_run_id_def save_sync_def fs_is_dir_def
        io_map_error_def split: if_splits)
  then show thesis using refused by blast
next
  case True
  then have "io_map_error (os_to_state (''Cannot save run '' @ run_id s))
      (atomic_write_text (state_path root (run_id s)) (state_text s)) w = (r, w')"
    using assms by (simp add: store_save_def io_bind_def validate_run_id_def save_sync_def fs_is_dir_def
        io_map_error_def atomic_json_text)
  from os_to_state_map [OF this] obtain r0 where
    "atomic_write_text (state_path root (run_id s)) (state_text s) w = (r0, w')"
    and "case r0 of Inr a \<Rightarrow> r = Inr a | Inl e \<Rightarrow> r = Inl (os_to_state (''Cannot save run '' @ run_id s) e)"
    by blast
  then show thesis using True by (intro wrote [of r0]) (auto split: sum.splits)
qed

lemma save_success:
  assumes "store_save root s w = (Inr (), w')"
  shows "fs_files w' = (fs_files w)(state_path root (run_id s) \<mapsto> state_text s)"
    and "fs_dirs w' = fs_dirs w" and "run_id_matches (run_id s)"
  using assms
  by (cases rule: store_save_cases; auto dest: atomic_write_text_spec [OF store_paths(2)])+

lemma save_failure:
  assumes "store_save root s w = (Inl e, w')"
  shows "fs_files w' (state_path root (run_id s)) = fs_files w (state_path root (run_id s))"
  using assms
proof (cases rule: store_save_cases)
  case (wrote r0)
  then show ?thesis by (cases r0) (auto dest: atomic_write_text_spec(4) [OF store_paths(2)])
qed simp

text \<open>Whatever happens, every state of the files has the old or the new snapshot.\<close>

lemma save_crash:
  assumes run: "store_save root s w = (r, w')" and h: "h \<in> set (drop (length (fs_history w)) (fs_history w'))"
  shows "h (state_path root (run_id s)) \<in> {fs_files w (state_path root (run_id s)), Some (state_text s)}"
  using run
proof (cases rule: store_save_cases)
  case (refused e)
  then show ?thesis using h by simp
next
  case (wrote r0)
  from atomic_write_text_spec(1) [OF store_paths(2) wrote(1)] h show ?thesis
    by (auto simp: crash_safe_def list_all_iff snapshot_ok_def)
qed

lemma save_frame:
  assumes "store_save root s w = (r, w')" and "parent_of q \<noteq> run_dir root (run_id s)"
  shows "fs_files w' q = fs_files w q"
  using assms(1)
proof (cases rule: store_save_cases)
  case (wrote r0)
  from atomic_write_text_spec(1) [OF store_paths(2) wrote(1)] obtain tmp where
    "parent_of tmp = run_dir root (run_id s)"
    "snapshot_ok (state_path root (run_id s)) (state_text s) tmp (fs_files w) (fs_files w')"
    by (auto simp: crash_safe_def)
  moreover have "q \<noteq> state_path root (run_id s)" using assms(2) by auto
  ultimately show ?thesis using assms(2) by (auto simp: snapshot_ok_def)
qed simp

section \<open>Loading\<close>

lemma load_sync_reads:
  assumes "fault_of w = None"
  shows "fst (load_sync root rid w) =
    (case fs_files w (state_path root rid) of
       None \<Rightarrow> Inl (StateError (''Run '' @ rid @ '' state is corrupt or unreadable: No such file or directory''))
     | Some t \<Rightarrow> decode_state rid t)"
  using assms
  by (auto simp: load_sync_def io_bind_def io_map_error_def fs_read_text_def fs_prim_def os_error_def
      os_to_state_def split: option.splits)

lemma load_saved:
  assumes "storable s" and "store_save root s w = (Inr (), w')" and "fault_of w' = None"
  shows "fst (store_load root (run_id s) None False w') = Inr (canonical s)"
proof -
  from save_success [OF assms(2)] have "run_id_matches (run_id s)"
    and "fs_files w' (state_path root (run_id s)) = Some (state_text s)" by simp_all
  moreover then have "fst (load_sync root (run_id s) w') = Inr (canonical s)"
    by (simp add: load_sync_reads [OF assms(3)] decode_state_text [OF assms(1)])
  ultimately show ?thesis
    by (cases "load_sync root (run_id s) w'")
      (simp add: store_load_def validate_run_id_def io_bind_def)
qed

section \<open>Events\<close>

definition event_line :: "run_event \<Rightarrow> string" where
  "event_line ev = dumps Compact (redact_json (run_event_to_dict ev)) @ [CHR 10]"

lemma append_event_spec:
  assumes "store_append_event root rid ev w = (r, w')"
  shows "q \<noteq> events_path root rid \<Longrightarrow> fs_files w' q = fs_files w q"
    and "\<exists>k. fs_files w' (events_path root rid) =
           map_option (\<lambda>t. t @ take k (event_line ev)) (fs_files w (events_path root rid))"
    and "r = Inr () \<Longrightarrow> run_id_matches rid \<and> (\<exists>t. fs_files w (events_path root rid) = Some t
           \<and> fs_files w' (events_path root rid) = Some (t @ event_line ev))"
proof -
  let ?p = "events_path root rid"
  have "(q \<noteq> ?p \<longrightarrow> fs_files w' q = fs_files w q)
    \<and> (\<exists>k. fs_files w' ?p = map_option (\<lambda>t. t @ take k (event_line ev)) (fs_files w ?p))
    \<and> (r = Inr () \<longrightarrow> run_id_matches rid \<and> (\<exists>t. fs_files w ?p = Some t \<and> fs_files w' ?p = Some (t @ event_line ev)))"
  proof (cases "run_id_matches rid \<and> fs_files w ?p \<noteq> None")
    case False
    then have "w' = w \<and> (\<exists>e. r = Inl e)"
      using assms by (auto simp: store_append_event_def io_bind_def validate_run_id_def
          append_event_sync_def fs_is_file_def io_map_error_def split: if_splits)
    moreover have "map_option (\<lambda>t. t @ take 0 (event_line ev)) x = x" for x
      by (cases x) simp_all
    ultimately show ?thesis by (metis sum.distinct(1))
  next
    case True
    then obtain t where t: "fs_files w ?p = Some t" by auto
    define w1 where "w1 = snd (fs_append_text ?p (event_line ev) w)"
    obtain k where k: "fs_files w1 = (fs_files w)(?p \<mapsto> t @ take k (event_line ev))"
    proof (cases "fault_of w")
      case None
      then show thesis using t that [of "length (event_line ev)"]
        by (simp add: w1_def fs_append_text_def fs_prim_simps)
    next
      case (Some k)
      then show thesis using t that [of k] by (simp add: w1_def fs_append_text_def fs_prim_simps)
    qed
    have k1: "fs_files w1 = (fs_files w)(?p \<mapsto> t @ event_line ev)"
      if "fst (fs_append_text ?p (event_line ev) w) = Inr ()"
      using that t by (simp add: w1_def fs_append_text_def fs_prim_simps os_error_def split: option.splits)
    have "io_map_error (os_to_state (''Cannot append event for run '' @ rid))
        (io_bind (fs_append_text ?p (event_line ev)) (\<lambda>_. fs_fsync)) w = (r, w')"
      using assms True by (simp add: store_append_event_def io_bind_def validate_run_id_def
          append_event_sync_def fs_is_file_def io_map_error_def event_line_def)
    then have "fs_files w' = fs_files w1" and "r = Inr () \<Longrightarrow> fst (fs_append_text ?p (event_line ev) w) = Inr ()"
      by (auto simp: io_map_error_def io_bind_def w1_def fs_fsync_def fs_prim_def os_error_def
          split: prod.splits sum.splits option.splits)
    then show ?thesis using k k1 t True by auto
  qed
  then show "q \<noteq> ?p \<Longrightarrow> fs_files w' q = fs_files w q"
    and "\<exists>k. fs_files w' ?p = map_option (\<lambda>t. t @ take k (event_line ev)) (fs_files w ?p)"
    and "r = Inr () \<Longrightarrow> run_id_matches rid \<and> (\<exists>t. fs_files w ?p = Some t \<and> fs_files w' ?p = Some (t @ event_line ev))"
    by simp_all
qed

section \<open>Creation\<close>

lemma create_existing:
  assumes "run_id_matches (run_id s)" and "run_dir root (run_id s) \<in> fs_dirs w"
  shows "\<exists>m. fst (store_create root s w) = Inl (StateError m)"
    and "fs_files (snd (store_create root s w)) = fs_files w"
  using assms
  by (auto simp: store_create_def create_sync_def io_bind_def validate_run_id_def io_map_error_def
      fs_mkdir_parents_def fs_mkdir_new_def fs_prim_def os_error_def os_to_state_def fs_exists_def
      split: option.splits prod.splits sum.splits if_splits)

text \<open>An identifier that is not safe reaches no file at all.\<close>

lemma invalid_run_id_untouched:
  assumes "\<not> run_id_matches rid"
  shows "snd (store_append_event root rid ev w) = w" and "snd (store_load root rid d a w) = w"
    and "snd (store_write_report root rid t w) = w"
    and "run_id s = rid \<Longrightarrow> snd (store_save root s w) = w \<and> snd (store_create root s w) = w"
  using assms
  by (auto simp: store_append_event_def store_load_def store_write_report_def store_save_def
      store_create_def io_bind_def validate_run_id_def)

section \<open>A work item whose name looks like a secret\<close>

lemma secret_item_unloadable:
  assumes "map_of (st_work_items s) k = Some item" and "secret_key k" and "run_state_ok s"
  shows "decode_state rid (state_text s) \<noteq> Inr s'"
proof
  assume dec: "decode_state rid (state_text s) = Inr s'"
  obtain raw where raw: "sort_keys (redact_json (run_state_to_dict s)) = JObj raw"
    by (simp add: run_state_to_dict_def)
  have "loads (state_text s) = Some (JObj raw)"
    using loads_dumps_newline [OF redact_json_ok [OF run_state_json_ok [OF assms(3)]]] raw
    by (simp add: state_text_def)
  with dec obtain s0 where "run_state_from_dict raw = Inr s0"
    by (auto simp: decode_state_def split: if_splits sum.splits exn.splits)
  then have "run_state_fields raw = Inr s0"
    by (auto simp: run_state_from_dict_def split: sum.splits exn.splits)
  then obtain items where items: "dict_from_dict work_item_from_dict ''work_items'' raw = Inr items"
    by (auto simp: run_state_fields_def elim!: rbind_Inr_E)
  have "\<not> secret_key ''work_items''" by code_simp
  moreover have "dict_ok (case redact_json (run_state_to_dict s) of JObj kvs \<Rightarrow> kvs | _ \<Rightarrow> [])"
    by (simp add: run_state_to_dict_def dict_ok_def)
  ultimately obtain wis where wis: "field raw ''work_items'' = Inr (JObj wis)"
      and "(k, JStr redacted_mark) \<in> set wis"
  proof -
    let ?D = "map (\<lambda>(k, v). (k, if secret_key k then JStr redacted_mark else redact_json v))
        (map (\<lambda>(k, v). (k, work_item_to_dict v)) (sorted_items (st_work_items s)))"
    have rd: "raw = sorted_items (map (\<lambda>(k, v). (k, sort_keys v))
        (case redact_json (run_state_to_dict s) of JObj kvs \<Rightarrow> kvs | _ \<Rightarrow> []))"
      using raw by (simp add: run_state_to_dict_def)
    have "(k, item) \<in> set (st_work_items s)" using assms(1) by (rule map_of_SomeD)
    then have "(k, JStr redacted_mark) \<in> set (map (\<lambda>(k, v). (k, sort_keys v)) ?D)"
      using assms(2) by force
    moreover have "field raw ''work_items'' = Inr (JObj (sorted_items (map (\<lambda>(k, v). (k, sort_keys v)) ?D)))"
      using \<open>\<not> secret_key ''work_items''\<close> unfolding rd
      by (simp add: run_state_to_dict_def field_sorted field_simps dict_ok_def dict_to_dict_def
          del: map_map)
    ultimately show thesis using that by simp
  qed
  then show False
    using items
    by (auto simp: dict_from_dict_def string_mapping_def field_mapping_def wis as_mapping_def
        redacted_mark_def dest!: rmap_InrD)
qed

section \<open>Saving succeeds\<close>

lemma save_succeeds:
  assumes "fs_faults w = []" and "run_id_matches (run_id s)" and "run_dir root (run_id s) \<in> fs_dirs w"
    and "state_path root (run_id s) \<notin> fs_dirs w" and "r \<in> set (fs_temps w)"
    and "\<not> fs_exists w (temp_path (run_dir root (run_id s)) (temp_prefix (state_path root (run_id s))) r)"
  shows "\<exists>w'. store_save root s w = (Inr (), w') \<and> fs_faults w' = []"
proof -
  obtain w' where "atomic_write_text (state_path root (run_id s)) (state_text s) w = (Inr (), w')"
    and "fs_faults w' = []"
    using atomic_write_succeeds [OF assms(1,5) _ store_paths(2) assms(4)] assms(6) by auto
  then show ?thesis using assms
    by (simp add: store_save_def io_bind_def validate_run_id_def save_sync_def fs_is_dir_def
        io_map_error_def atomic_json_text)
qed

end
