(* ===== verification/Ports.thy ===== *)
theory Ports
  imports Store
begin

text \<open>
  The interfaces between the components, as locales: what the scheduler and the application
  rely on from the run store (\<open>storage/protocol.py\<close>). Each is interpreted on the model of the
  component that provides it; the run store here, the others in their own theories.
\<close>

section \<open>Run store\<close>

text \<open>
  \<open>stored w rid\<close> is what loading \<open>rid\<close> returns in \<open>w\<close>, \<open>reads s\<close> what a stored \<open>s\<close> is read
  back as, and \<open>fits\<close> says which states are stored without loss.
\<close>

locale run_store =
  fixes save :: "run_state \<Rightarrow> 'w \<Rightarrow> (exn + unit) \<times> 'w"
    and stored :: "'w \<Rightarrow> string \<Rightarrow> run_state result"
    and reads :: "run_state \<Rightarrow> run_state result"
    and fits :: "run_state \<Rightarrow> bool"
  assumes stored_saved: "save s w = (Inr (), w') \<Longrightarrow> stored w' (run_id s) = reads s"
    and reads_fitting: "fits s \<Longrightarrow> reads s = Inr (canonical s)"
    and stored_failed:
      "save s w = (Inl e, w') \<Longrightarrow> stored w' (run_id s) = stored w (run_id s)"
    and stored_other:
      "save s w = (r, w') \<Longrightarrow> rid \<noteq> run_id s \<Longrightarrow> run_id_matches rid \<Longrightarrow> stored w' rid = stored w rid"
begin

text \<open>Saving one state after another, until one fails.\<close>

fun save_all :: "run_state list \<Rightarrow> 'w \<Rightarrow> (exn + unit) \<times> 'w" where
  "save_all [] w = (Inr (), w)"
| "save_all (s # ss) w = io_bind (save s) (\<lambda>_. save_all ss) w"

lemma save_all_other:
  assumes "save_all ss w = (r, w')" and "\<forall>s \<in> set ss. run_id s \<noteq> rid" and "run_id_matches rid"
  shows "stored w' rid = stored w rid"
  using assms
proof (induction ss arbitrary: w)
  case Nil
  then show ?case by simp
next
  case (Cons s ss)
  obtain r1 w1 where s: "save s w = (r1, w1)" by fastforce
  have w1: "stored w1 rid = stored w rid" using s Cons.prems by (intro stored_other) auto
  show ?case
  proof (cases r1)
    case (Inl e)
    then show ?thesis using Cons.prems s w1 by (simp add: io_bind_def)
  next
    case (Inr u)
    then have "save_all ss w1 = (r, w')" using Cons.prems s by (simp add: io_bind_def)
    then show ?thesis using Cons w1 by auto
  qed
qed

lemma save_all_split:
  assumes "save_all (ss @ s # later) w = (Inr (), w')"
  shows "\<exists>v u. save s v = (Inr (), u) \<and> save_all later u = (Inr (), w')"
  using assms by (induction ss arbitrary: w) (auto simp: io_bind_Inr_iff)

text \<open>After any number of checkpoints, a load of a run gives its last one.\<close>

lemma last_checkpoint:
  assumes "save_all (ss @ s # later) w = (Inr (), w')" and "\<forall>a \<in> set later. run_id a \<noteq> run_id s"
    and "run_id_matches (run_id s)"
  shows "stored w' (run_id s) = reads s"
proof -
  obtain v u where last: "save s v = (Inr (), u)" and rest: "save_all later u = (Inr (), w')"
    using save_all_split [OF assms(1)] by blast
  have "stored w' (run_id s) = stored u (run_id s)" by (rule save_all_other [OF rest assms(2,3)])
  then show ?thesis using stored_saved [OF last] by simp
qed

end

definition stored_state :: "path \<Rightarrow> fs \<Rightarrow> string \<Rightarrow> run_state result" where
  "stored_state root w rid =
     (case fs_files w (state_path root rid) of
        None \<Rightarrow> Inl (StateError (''Run '' @ rid @ '' state is corrupt or unreadable: No such file or directory''))
      | Some t \<Rightarrow> decode_state rid t)"

lemma stored_state_load:
  "fault_of w = None \<Longrightarrow> fst (load_sync root rid w) = stored_state root w rid"
  by (simp add: load_sync_reads stored_state_def split: option.split)

lemma save_other_state:
  assumes s: "store_save root s w = (r, w')" and rid: "rid \<noteq> run_id s" "run_id_matches rid"
  shows "fs_files w' (state_path root rid) = fs_files w (state_path root rid)"
proof (cases "run_id_matches (run_id s)")
  case True
  then have "parent_of (state_path root rid) \<noteq> run_dir root (run_id s)"
    using rid by (simp add: run_dir_inject)
  with s show ?thesis by (rule save_frame)
next
  case False
  then show ?thesis using s invalid_run_id_untouched(4) [of "run_id s" s root w] by auto
qed

definition read_back :: "run_state \<Rightarrow> run_state result" where
  "read_back s = decode_state (run_id s) (state_text s)"

interpretation json_store: run_store "store_save root" "stored_state root" read_back storable
proof unfold_locales
  fix s w w' assume "store_save root s w = (Inr (), w')"
  then show "stored_state root w' (run_id s) = read_back s"
    by (simp add: stored_state_def read_back_def save_success(1))
next
  fix s assume "storable s"
  then show "read_back s = Inr (canonical s)" by (simp add: read_back_def decode_state_text)
next
  fix s w e w' assume "store_save root s w = (Inl e, w')"
  from save_failure [OF this] show "stored_state root w' (run_id s) = stored_state root w (run_id s)"
    by (simp add: stored_state_def)
next
  fix s w r w' rid
  assume "store_save root s w = (r, w')" and "rid \<noteq> run_id s" and "run_id_matches rid"
  from save_other_state [OF this] show "stored_state root w' rid = stored_state root w rid"
    by (simp add: stored_state_def)
qed

end
