(* ===== verification/Store_Properties.thy ===== *)
theory Store_Properties
  imports Examples Ports
begin

text \<open>
  The properties of persistence: what a saved run loads as, what a crash can leave, what is
  never written, and which files an operation can touch.
\<close>

definition ex_fs :: fs where
  "ex_fs = \<lparr>fs_files = (\<lambda>_. None), fs_dirs = {ex_root, run_dir ex_root ''r1''}, fs_faults = [],
     fs_temps = [''x''], fs_history = []\<rparr>"

lemma plain_names:
  "\<not> secret_key ''schema_version''" "\<not> secret_key ''configuration_digest''" "\<not> secret_key ''objective''"
  "\<not> secret_key ''repository''" "\<not> secret_key ''work_items''" "\<not> secret_key ''routes''"
  "\<not> secret_key ''results''" "\<not> secret_key ''approvals''" "\<not> secret_key ''status''"
  "\<not> secret_key ''id''" "\<not> secret_key ''prompt''" "\<not> secret_key ''project_path''"
  "\<not> secret_key ''explicit_task''" "\<not> secret_key ''config_path''" "\<not> secret_key ''created_at''"
  "\<not> secret_key ''is_git_worktree''" "\<not> secret_key ''branch''" "\<not> secret_key ''dirty_paths''"
  "\<not> secret_key ''instruction_files''" "\<not> secret_key ''language_counts''" "\<not> secret_key ''docker_files''"
  "\<not> secret_key ''command_errors''" "\<not> secret_key ''language''" "\<not> secret_key ''count''"
  "\<not> secret_key ''title''" "\<not> secret_key ''instructions''" "\<not> secret_key ''task''"
  "\<not> secret_key ''phase''" "\<not> secret_key ''dependencies''" "\<not> secret_key ''access''"
  "\<not> secret_key ''affected_paths''" "\<not> secret_key ''expected_result''" "\<not> secret_key ''verification''"
  "\<not> secret_key ''confidence''" "\<not> secret_key ''risk_flags''" "\<not> secret_key ''model_alias''"
  "\<not> secret_key ''model''" "\<not> secret_key ''reasoning_effort''" "\<not> secret_key ''sandbox''"
  "\<not> secret_key ''approval''" "\<not> secret_key ''timeout_seconds''" "\<not> secret_key ''max_attempts''"
  "\<not> secret_key ''destructive''" "\<not> secret_key ''external_write''" "\<not> secret_key ''escalation_task''"
  "\<not> secret_key ''source''" "\<not> secret_key ''reason''" "\<not> secret_key ''a''" "\<not> secret_key ''b''"
  by code_simp+

lemma plain_value:
  "\<not> secret_value []"
  "c \<notin> {CHR ''s'', CHR ''b'', CHR ''B''} \<Longrightarrow> \<not> secret_value (c # s)"
proof -
  show "\<not> secret_value []" by code_simp
  assume c: "c \<notin> {CHR ''s'', CHR ''b'', CHR ''B''}"
  have "char_of (98 :: nat) = CHR ''b''" and "char_of (66 :: nat) = CHR ''B''" by code_simp+
  then have "ord c \<noteq> 98" and "ord c \<noteq> 66" using c by (metis char_of_char insertCI)+
  then have "hd (casefold (c # s)) \<noteq> CHR ''b''"
    by (auto simp: casefold_Cons casefold_char_def char_of_eq_iff take_bit_eq_mod)
  moreover have "casefold (c # s) \<noteq> []" by (auto simp: casefold_Cons casefold_char_def)
  ultimately have "\<not> starts_with ''bearer '' (casefold (c # s))" by (auto simp: starts_with_iff)
  then show "\<not> secret_value (c # s)" using c by (auto simp: secret_value_def starts_with_iff)
qed

lemma plain_b: "\<not> secret_value ''b''" "sorted_list_of_fset ({||} :: string fset) = []"
  by (code_simp, simp add: sorted_list_of_fset.rep_eq)

lemma ex_time_text: "isoformat ex_time = ''2026-01-02T03:04:05.000006+00:00''"
  by code_simp

lemma ex_redacted: "redacted (run_state_to_dict (ex_state approval))"
  by (simp add: to_dict_defs dict_to_dict_def sorted_items_def plain_names plain_value ex_time_text
      ex_objective_def ex_repository_def ex_item_def ex_route_def ex_state_def json_opt_def
      json_path_def str_path_def)
    (cases approval; simp add: plain_value plain_b)

lemma ex_storable: "storable (ex_state approval)"
  by (simp add: storable_def ex_state_ok ex_redacted) (simp add: ex_state_def)

lemma ex_run_id: "run_id (ex_state approval) = ''r1''"
  by (simp add: run_id_def ex_state_def ex_objective_def)

lemma ex_run_id_matches: "run_id_matches ''r1''"
  by code_simp

lemma ex_save: "\<exists>w'. store_save ex_root (ex_state approval) ex_fs = (Inr (), w') \<and> fs_faults w' = []"
proof (rule save_succeeds [where r = "''x''"])
  show "run_id_matches (run_id (ex_state approval))" by (simp add: ex_run_id ex_run_id_matches)
  have "path_parts (state_path ex_root ''r1'') \<noteq> path_parts ex_root"
    "path_parts (state_path ex_root ''r1'') \<noteq> path_parts (run_dir ex_root ''r1'')"
    by (simp_all add: child_def run_dir_def path_join_def is_absolute_def file_names
        path_of_run_id [OF ex_run_id_matches])
  then show "state_path ex_root (run_id (ex_state approval)) \<notin> fs_dirs ex_fs"
    by (auto simp: ex_run_id ex_fs_def)
  let ?t = "temp_path (run_dir ex_root ''r1'') (temp_prefix (state_path ex_root ''r1'')) ''x''"
  have "length (path_parts ?t) = Suc (length (path_parts (run_dir ex_root ''r1'')))"
    "length (path_parts (run_dir ex_root ''r1'')) = Suc (length (path_parts ex_root))"
    by (simp_all add: temp_path_def run_dir_def path_join_def is_absolute_def path_of_run_id [OF ex_run_id_matches])
  then have "?t \<noteq> ex_root" "?t \<noteq> run_dir ex_root ''r1''" by auto
  then show "\<not> fs_exists ex_fs (temp_path (run_dir ex_root (run_id (ex_state approval)))
      (temp_prefix (state_path ex_root (run_id (ex_state approval)))) ''x'')"
    by (simp add: ex_run_id fs_exists_def ex_fs_def)
qed (simp_all add: ex_run_id ex_fs_def)

text \<open>The run directory of \<open>r1\<close> and nothing that fails.\<close>

definition ex_disk :: "(path \<Rightarrow> string option) \<Rightarrow> (path \<Rightarrow> string option) list \<Rightarrow> fs" where
  "ex_disk f h = \<lparr>fs_files = f, fs_dirs = {ex_root, run_dir ex_root ''r1''}, fs_faults = [], fs_temps = [''x''],
     fs_history = h\<rparr>"

definition ex_temp :: "path \<Rightarrow> path" where
  "ex_temp p = temp_path (parent_of p) (temp_prefix p) ''x''"

lemma ex_paths:
  "run_dir ex_root ''r1'' = Path ''/'' [''srv'', ''r1'']"
  "state_path ex_root ''r1'' = Path ''/'' [''srv'', ''r1'', ''state.json'']"
  "events_path ex_root ''r1'' = Path ''/'' [''srv'', ''r1'', ''events.jsonl'']"
  "report_path ex_root ''r1'' = Path ''/'' [''srv'', ''r1'', ''report.md'']"
  by code_simp+

lemma ex_temps:
  "ex_temp (state_path ex_root ''r1'') = Path ''/'' [''srv'', ''r1'', ''.state.json.x.tmp'']"
  "ex_temp (report_path ex_root ''r1'') = Path ''/'' [''srv'', ''r1'', ''.report.md.x.tmp'']"
  unfolding ex_paths by code_simp+

lemma ex_temps_free:
  "ex_temp (state_path ex_root ''r1'') \<noteq> state_path ex_root ''r1''" "ex_temp (state_path ex_root ''r1'') \<noteq> events_path ex_root ''r1''"
  "ex_temp (report_path ex_root ''r1'') \<noteq> state_path ex_root ''r1''" "ex_temp (report_path ex_root ''r1'') \<noteq> events_path ex_root ''r1''"
  unfolding ex_temps unfolding ex_paths(2,3) by simp_all

lemma ex_write:
  assumes "p \<in> {state_path ex_root ''r1'', report_path ex_root ''r1''}" and "f (ex_temp p) = None"
  shows "\<exists>h'. atomic_write_text p t (ex_disk f h) = (Inr (), ex_disk (f(p \<mapsto> t)) h')"
proof -
  let ?q = "ex_temp p"
  have dirs: "fs_dirs (ex_disk f h) = {Path ''/'' [''srv''], Path ''/'' [''srv'', ''r1'']}"
    by (simp add: ex_disk_def ex_paths(1)) (simp add: ex_root_def)
  have "p = Path ''/'' [''srv'', ''r1'', ''state.json''] \<and> ?q = Path ''/'' [''srv'', ''r1'', ''.state.json.x.tmp'']
      \<or> p = Path ''/'' [''srv'', ''r1'', ''report.md''] \<and> ?q = Path ''/'' [''srv'', ''r1'', ''.report.md.x.tmp'']"
    using assms(1) by (metis ex_temps ex_paths(2,4) insert_iff singletonD)
  then have free: "p \<noteq> ?q" "?q \<notin> fs_dirs (ex_disk f h)" "p \<notin> fs_dirs (ex_disk f h)"
    by (auto simp: dirs)
  then have "find (\<lambda>r. \<not> fs_exists (ex_disk f h) (temp_path (parent_of p) (temp_prefix p) r)) [''x''] = Some ''x''"
    using assms(2) by (simp add: fs_exists_def ex_temp_def) (simp add: ex_disk_def)
  moreover have "f(?q := None, p \<mapsto> t) = f(p \<mapsto> t)" using assms(2) free(1) by auto
  ultimately show ?thesis
    using free unfolding ex_disk_def
    by (auto simp: atomic_write_text_def io_bind_def fs_prims fs_prim_def fault_of_def ex_temp_def [symmetric])
qed

lemma ex_in_disk: "run_dir ex_root ''r1'' \<in> fs_dirs (ex_disk f h)" "fs_files (ex_disk f h) = f" "fault_of (ex_disk f h) = None"
  by (simp_all add: ex_disk_def fault_of_def)

lemma ex_save_disk:
  assumes "run_id s = ''r1''" and "f (ex_temp (state_path ex_root ''r1'')) = None"
  shows "\<exists>h'. store_save ex_root s (ex_disk f h) = (Inr (), ex_disk (f(state_path ex_root ''r1'' \<mapsto> state_text s)) h')"
  using ex_write [of "state_path ex_root ''r1''" f "state_text s" h] assms
  by (auto simp: store_save_def save_sync_def io_bind_def io_map_error_def validate_run_id_def
      ex_run_id_matches fs_is_dir_def atomic_json_text ex_in_disk)

section \<open>Round trips\<close>

text \<open>
  C11. A run state survives its JSON text: writing it with sorted keys, in either layout, and
  reading it back gives the state with its dictionaries in key order. Objective, repository,
  configuration digest and status are unchanged, and every work item, route, approval and
  result is found again under its key, a result's SDK items with sorted keys.
\<close>

theorem run_state_text_roundtrip:
  assumes "run_state_ok s"
  shows "\<exists>raw s'. loads (dumps l (run_state_to_dict s)) = Some (JObj raw)
    \<and> run_state_from_dict raw = Inr s'
    \<and> st_objective s' = st_objective s \<and> st_repository s' = st_repository s
    \<and> st_configuration_digest s' = st_configuration_digest s \<and> st_status s' = st_status s
    \<and> st_schema_version s' = st_schema_version s
    \<and> map_of (st_work_items s') = map_of (st_work_items s)
    \<and> map_of (st_routes s') = map_of (st_routes s)
    \<and> map_of (st_approvals s') = map_of (st_approvals s)
    \<and> (\<forall>k. map_of (st_results s') k = map_option canonical_result (map_of (st_results s) k))"
proof -
  obtain raw where raw: "sort_keys (run_state_to_dict s) = JObj raw"
    by (simp add: run_state_to_dict_def)
  have "loads (dumps l (run_state_to_dict s)) = Some (JObj raw)"
    using loads_dumps [OF run_state_json_ok [OF assms]] raw by simp
  moreover have "run_state_from_dict raw = Inr (canonical s)"
    using run_state_from_to_dict [OF assms, of "[]"] by (simp add: raw as_mapping_def)
  ultimately show ?thesis using canonical_lookup [OF assms]
    by (intro exI [of _ raw] exI [of _ "canonical s"]) (simp add: canonical_def)
qed

lemma run_state_text_roundtrip_witness:
  "\<exists>raw s'. loads (dumps Compact (run_state_to_dict (ex_state Required))) = Some (JObj raw)
     \<and> run_state_from_dict raw = Inr s' \<and> st_objective s' = ex_objective"
  using run_state_text_roundtrip [OF ex_state_ok, of Compact Required]
  by (auto simp: ex_state_def)

text \<open>
  What was saved is what is loaded: after a successful \<open>save\<close> of a state that holds
  nothing to redact, \<open>load\<close> returns the state with its dictionaries in key order, unless the
  read itself fails.
\<close>

theorem load_returns_saved_state:
  assumes "storable s" and "store_save root s w = (Inr (), w')" and "fault_of w' = None"
  shows "fst (store_load root (run_id s) None False w') = Inr (canonical s)"
  using assms by (rule load_saved)

lemma load_returns_saved_state_witness:
  "\<exists>w'. store_save ex_root (ex_state Required) ex_fs = (Inr (), w')
     \<and> fst (store_load ex_root ''r1'' None False w') = Inr (canonical (ex_state Required))"
proof -
  obtain w' where w': "store_save ex_root (ex_state Required) ex_fs = (Inr (), w')" "fs_faults w' = []"
    using ex_save by blast
  from load_returns_saved_state [OF ex_storable w'(1)] w' show ?thesis by (auto simp: ex_run_id)
qed

section \<open>Crashes and failures\<close>

text \<open>
  C9. A save is atomic. At every moment of a save, whichever of its steps fails and wherever
  the process dies, the snapshot file holds either what it held before or the complete new
  text; when the save raises, it holds what it held before, and every file outside the run's
  directory is untouched.
\<close>

theorem save_is_atomic:
  assumes "store_save root s w = (r, w')"
  shows "(\<forall>h \<in> set (drop (length (fs_history w)) (fs_history w')).
      h (state_path root (run_id s)) \<in> {fs_files w (state_path root (run_id s)), Some (state_text s)})
    \<and> (r = Inr () \<longrightarrow> fs_files w' = (fs_files w)(state_path root (run_id s) \<mapsto> state_text s))
    \<and> (\<forall>e. r = Inl e \<longrightarrow>
         fs_files w' (state_path root (run_id s)) = fs_files w (state_path root (run_id s)))
    \<and> (\<forall>q. parent_of q \<noteq> run_dir root (run_id s) \<longrightarrow> fs_files w' q = fs_files w q)"
  using assms save_crash [OF assms] save_frame [OF assms] save_success save_failure
  by (auto simp del: store_paths)

lemma save_is_atomic_witness:
  "\<exists>w'. store_save ex_root (ex_state Required) ex_fs = (Inr (), w')
     \<and> fs_files w' = (fs_files ex_fs)(state_path ex_root ''r1'' \<mapsto> state_text (ex_state Required))"
proof -
  obtain w' where w': "store_save ex_root (ex_state Required) ex_fs = (Inr (), w')"
    using ex_save by blast
  from save_is_atomic [OF w'] w' show ?thesis by (auto simp: ex_run_id)
qed

text \<open>
  C28. The checkpoints of a run: after any sequence of successful saves, of this run and of others,
  a load decodes the text of the last save of the run and nothing of the earlier ones. If
  the last state is storable, that is well-formed and with nothing to redact, it is that state
  with its dictionaries in key order; without this condition a redacted state is read back.
  A run that none of the saves was of is read as before.
\<close>

theorem last_checkpoint_wins:
  assumes "json_store.save_all root (ss @ s # later) w = (Inr (), w')"
    and "\<forall>a \<in> set later. run_id a \<noteq> run_id s"
  shows "stored_state root w' (run_id s) = decode_state (run_id s) (state_text s)
    \<and> (storable s \<longrightarrow> stored_state root w' (run_id s) = Inr (canonical s))
    \<and> (fault_of w' = None \<longrightarrow>
         fst (store_load root (run_id s) None False w') = stored_state root w' (run_id s))
    \<and> (\<forall>rid. run_id_matches rid \<longrightarrow> (\<forall>a \<in> set (ss @ s # later). run_id a \<noteq> rid)
         \<longrightarrow> stored_state root w' rid = stored_state root w rid)"
proof -
  obtain v u where last: "store_save root s v = (Inr (), u)" and rest: "json_store.save_all root later u = (Inr (), w')"
    using json_store.save_all_split [OF assms(1)] by blast
  have id: "run_id_matches (run_id s)" by (rule save_success(3) [OF last])
  have now: "stored_state root w' (run_id s) = read_back s"
    using json_store.last_checkpoint [OF assms(1,2) id] .
  moreover have "fst (store_load root (run_id s) None False w') = stored_state root w' (run_id s)"
    if "fault_of w' = None"
    using stored_state_load [OF that, of root "run_id s"] id
    by (cases "load_sync root (run_id s) w'") (auto simp: store_load_def validate_run_id_def io_bind_def split: sum.splits)
  ultimately show ?thesis
    using json_store.save_all_other [OF assms(1)] json_store.reads_fitting by (auto simp: read_back_def)
qed

text \<open>Two saves of one run, one after the other.\<close>

lemma last_checkpoint_wins_witness:
  "\<exists>w'. json_store.save_all ex_root [ex_state Required, ex_state Automatic] (ex_disk (\<lambda>_. None) []) = (Inr (), w')
     \<and> fst (store_load ex_root ''r1'' None False w') = Inr (canonical (ex_state Automatic))
     \<and> canonical (ex_state Automatic) \<noteq> canonical (ex_state Required)"
proof -
  let ?s = "state_path ex_root ''r1''"
  obtain h1 where one: "store_save ex_root (ex_state Required) (ex_disk (\<lambda>_. None) [])
      = (Inr (), ex_disk [?s \<mapsto> state_text (ex_state Required)] h1)"
    using ex_save_disk [OF ex_run_id, of "\<lambda>_. None" Required "[]"] by auto
  obtain h2 where two: "store_save ex_root (ex_state Automatic) (ex_disk [?s \<mapsto> state_text (ex_state Required)] h1)
      = (Inr (), ex_disk ([?s \<mapsto> state_text (ex_state Required), ?s \<mapsto> state_text (ex_state Automatic)]) h2)"
    using ex_save_disk [OF ex_run_id, of "[?s \<mapsto> state_text (ex_state Required)]" Automatic h1] by (auto simp: ex_temps_free)
  then have saves: "json_store.save_all ex_root ([ex_state Required] @ ex_state Automatic # []) (ex_disk (\<lambda>_. None) [])
      = (Inr (), ex_disk ([?s \<mapsto> state_text (ex_state Required), ?s \<mapsto> state_text (ex_state Automatic)]) h2)"
    by (simp only: json_store.save_all.simps append.simps io_bind_def one two prod.case sum.case)
  have "fst (store_load ex_root ''r1'' None False
      (ex_disk ([?s \<mapsto> state_text (ex_state Required), ?s \<mapsto> state_text (ex_state Automatic)]) h2))
    = Inr (canonical (ex_state Automatic))"
    using last_checkpoint_wins [OF saves, unfolded ex_run_id] ex_storable [of Automatic] ex_in_disk(3)
    by (metis empty_iff empty_set)
  moreover have "canonical (ex_state Automatic) \<noteq> canonical (ex_state Required)" by code_simp
  ultimately show ?thesis using saves by (simp only: append.simps) blast
qed

text \<open>
  The event log is append-only: whatever happens to an append, the log afterwards is the
  log before followed by a prefix of the event's line, the whole line if the append returned,
  and no other file changes.
\<close>

theorem events_only_appended:
  assumes "store_append_event root rid ev w = (r, w')"
  shows "(\<exists>k. fs_files w' (events_path root rid) =
        map_option (\<lambda>t. t @ take k (event_line ev)) (fs_files w (events_path root rid)))
    \<and> (r = Inr () \<longrightarrow> (\<exists>t. fs_files w (events_path root rid) = Some t
          \<and> fs_files w' (events_path root rid) = Some (t @ event_line ev)))
    \<and> (\<forall>q. q \<noteq> events_path root rid \<longrightarrow> fs_files w' q = fs_files w q)"
  using append_event_spec [OF assms] by blast

definition ex_event :: run_event where
  "ex_event = \<lparr>ev_timestamp = ex_time, ev_event = ''planned'', ev_work_item_id = None, ev_details = []\<rparr>"

lemma events_only_appended_witness:
  "fs_files (snd (store_append_event ex_root ''r1'' ex_event ex_fs)) (state_path ex_root ''r1'') = None"
proof -
  obtain r w' where w': "store_append_event ex_root ''r1'' ex_event ex_fs = (r, w')" by fastforce
  have "state_path ex_root ''r1'' \<noteq> events_path ex_root ''r1''" by (rule store_paths_distinct)
  with events_only_appended [OF w'] w' show ?thesis by (simp add: ex_fs_def)
qed

text \<open>
  A run is created once: when the run's directory exists, \<open>create\<close> raises \<open>StateError\<close>
  and changes no file.
\<close>

theorem create_never_overwrites:
  assumes "run_id_matches (run_id s)" and "run_dir root (run_id s) \<in> fs_dirs w"
  shows "\<exists>m w'. store_create root s w = (Inl (StateError m), w') \<and> fs_files w' = fs_files w"
  using create_existing [OF assms] by (metis prod.collapse)

lemma create_never_overwrites_witness:
  "\<exists>m w'. store_create ex_root (ex_state Automatic) ex_fs = (Inl (StateError m), w')
     \<and> fs_files w' = fs_files ex_fs"
  by (rule create_never_overwrites) (simp_all add: ex_run_id ex_run_id_matches ex_fs_def)

section \<open>What is never written, and where\<close>

text \<open>
  C27. Nothing that looks like a secret is written: redaction removes every value below a key
  that normalises to a secret name and every key-shaped string, at any depth, it changes
  nothing that has none, and the snapshot of a saved run is the text of such a value.
\<close>

theorem saved_state_has_no_secret:
  assumes "store_save root s w = (Inr (), w')"
  shows "\<exists>v. redacted v \<and> fs_files w' (state_path root (run_id s)) = Some (dumps (Indent 2) v @ [CHR 10])
    \<and> v = redact_json (run_state_to_dict s) \<and> redact_json v = v
    \<and> (redacted (run_state_to_dict s) \<longrightarrow> v = run_state_to_dict s)"
  using save_success(1) [OF assms] redact_json_redacted redact_json_id
  by (intro exI [of _ "redact_json (run_state_to_dict s)"]) (simp add: state_text_def)

lemma saved_state_has_no_secret_witness:
  "\<exists>w' v. store_save ex_root (ex_state Automatic) ex_fs = (Inr (), w') \<and> redacted v
     \<and> fs_files w' (state_path ex_root ''r1'') = Some (dumps (Indent 2) v @ [CHR 10])"
proof -
  obtain w' where w': "store_save ex_root (ex_state Automatic) ex_fs = (Inr (), w')"
    using ex_save by blast
  from saved_state_has_no_secret [OF w'] w' show ?thesis by (auto simp: ex_run_id)
qed

text \<open>
  C37. Redaction also hits names: a run with a work item whose id normalises to a secret name
  (such as "secret" or "Access-Token") is saved without an error, but its snapshot can never be
  loaded again.
\<close>

theorem secretly_named_item_is_lost:
  assumes "map_of (st_work_items s) k = Some item" and "secret_key k" and "run_state_ok s"
    and "store_save root s w = (Inr (), w')"
  shows "\<exists>e. stored_state root w' (run_id s) = Inl e"
  using secret_item_unloadable [OF assms(1-3)] save_success(1) [OF assms(4)]
  by (cases "stored_state root w' (run_id s)") (auto simp: stored_state_def)

lemma secretly_named_item_is_lost_witness:
  "\<exists>s w' e. map_of (st_work_items s) ''Access-Token'' = Some (ex_item ''Access-Token'' [] AccessReadOnly {||})
     \<and> store_save ex_root s ex_fs = (Inr (), w') \<and> stored_state ex_root w' ''r1'' = Inl e"
proof -
  let ?i = "ex_item ''Access-Token'' [] AccessReadOnly {||}"
  define s where "s = (ex_state Automatic)\<lparr>st_work_items := [(''Access-Token'', ?i)]\<rparr>"
  have i: "map_of (st_work_items s) ''Access-Token'' = Some ?i" by (simp add: s_def)
  have ok: "run_state_ok s" using ex_state_ok [of Automatic]
    by (simp add: s_def run_state_ok_def values_ok_def dict_ok_def work_item_ok_def ex_item_def
        path_ok_def keep_part_def too_big_def too_small_def float_limit_def)
  have rid: "run_id s = ''r1''" by (simp add: s_def run_id_def ex_state_def ex_objective_def)
  obtain w' where w': "store_save ex_root s ex_fs = (Inr (), w')"
  proof -
    have "\<exists>w'. store_save ex_root s ex_fs = (Inr (), w') \<and> fs_faults w' = []"
    proof (rule save_succeeds [where r = "''x''"])
      show "\<not> fs_exists ex_fs (temp_path (run_dir ex_root (run_id s)) (temp_prefix (state_path ex_root (run_id s))) ''x'')"
        and "state_path ex_root (run_id s) \<notin> fs_dirs ex_fs"
        by (auto simp: rid fs_exists_def ex_fs_def temp_path_def run_dir_def child_def path_join_def
            is_absolute_def file_names path_of_run_id [OF ex_run_id_matches] ex_root_def)
    qed (simp_all add: rid ex_run_id_matches ex_fs_def)
    then show thesis using that by blast
  qed
  have "secret_key ''Access-Token''" by code_simp
  from secretly_named_item_is_lost [OF i this ok w'] i w' rid show ?thesis by auto
qed

text \<open>
  C36. A run identifier that is not a plain name (letters, digits, dot, underscore and hyphen,
  not starting with a dot) reaches no file: every operation of the store raises and leaves the
  file system as it was. For every other identifier the run's directory is one level below the
  root, and different runs have different directories.
\<close>

theorem run_ids_confined:
  "(\<not> run_id_matches rid \<longrightarrow>
      snd (store_append_event root rid ev w) = w \<and> snd (store_load root rid d a w) = w
      \<and> snd (store_write_report root rid t w) = w
      \<and> (run_id s = rid \<longrightarrow> snd (store_save root s w) = w \<and> snd (store_create root s w) = w))
   \<and> (run_id_matches rid \<longrightarrow>
        run_dir root rid = Path (path_root root) (path_parts root @ [rid])
        \<and> rid \<noteq> ''..'' \<and> CHR ''/'' \<notin> set rid
        \<and> (\<forall>other. run_id_matches other \<longrightarrow> run_dir root other = run_dir root rid \<longrightarrow> other = rid))"
  using invalid_run_id_untouched [of rid] run_dir_inject [of _ rid root]
    run_id_matches_safe [of rid] path_of_run_id [of rid]
  by (auto simp: run_dir_def path_join_def is_absolute_def)

lemma run_ids_confined_witness:
  "snd (store_save ex_root ((ex_state Automatic)\<lparr>st_objective := ex_objective\<lparr>ob_id := ''../x''\<rparr>\<rparr>) ex_fs) = ex_fs"
proof -
  have "\<not> run_id_matches ''../x''" by code_simp
  with run_ids_confined [where rid = "''../x''" and root = ex_root and w = ex_fs
      and s = "(ex_state Automatic)\<lparr>st_objective := ex_objective\<lparr>ob_id := ''../x''\<rparr>\<rparr>"]
  show ?thesis by (simp add: run_id_def)
qed

text \<open>
  C29. A run is not resumed under a changed policy unnoticed: loading with an expected digest
  returns a state only when the digests agree or the change is acknowledged, and otherwise
  raises \<open>ResumeConfigurationChangedError\<close> although the snapshot is readable.
\<close>

theorem changed_configuration_is_refused:
  assumes "fault_of w = None" and "run_id_matches rid" and "stored_state root w rid = Inr s"
  shows "if st_configuration_digest s = d \<or> ack
         then fst (store_load root rid (Some d) ack w) = Inr s
         else \<exists>m. fst (store_load root rid (Some d) ack w) = Inl (ResumeConfigurationChangedError m)"
proof -
  obtain w' where "load_sync root rid w = (Inr s, w')"
    using stored_state_load [OF assms(1), of root rid] assms(3)
    by (cases "load_sync root rid w") simp
  then show ?thesis using assms(2) by (simp add: store_load_def validate_run_id_def io_bind_def)
qed

lemma changed_configuration_is_refused_witness:
  "\<exists>w' m. store_save ex_root (ex_state Automatic) ex_fs = (Inr (), w')
     \<and> fst (store_load ex_root ''r1'' (Some ''d2'') False w') = Inl (ResumeConfigurationChangedError m)"
proof -
  obtain w' where w': "store_save ex_root (ex_state Automatic) ex_fs = (Inr (), w')" "fs_faults w' = []"
    using ex_save by blast
  have "stored_state ex_root w' ''r1'' = Inr (canonical (ex_state Automatic))"
    using json_store.stored_saved [OF w'(1)] json_store.reads_fitting [OF ex_storable] by (simp add: ex_run_id)
  from changed_configuration_is_refused [OF fault_of_Nil [OF w'(2)] ex_run_id_matches this, of "''d2''" False] w'
  show ?thesis by (auto simp: canonical_def ex_state_def)
qed

end
