(* ===== verification/Planner.thy ===== *)
theory Planner
  imports Routing Json_Roundtrip
begin

text \<open>
  \<open>StructuredPlanner\<close> of \<open>src/goalrouter/planner.py\<close>: the prompt, the one correction of a
  structurally invalid response, and the semantic validation of the work items. The Codex
  client, the schema file, \<open>jsonschema\<close>, the message of a \<open>JSONDecodeError\<close> and the
  resolution of symbolic links are the fields of \<open>planner_ports\<close>. The second part shows that
  \<open>_reject_cycles\<close> ends and accepts exactly the acyclic plans.
\<close>

section \<open>Ports\<close>

record 'w planner_ports =
  pl_run_new :: "path \<Rightarrow> route_decision \<Rightarrow> string \<Rightarrow> string \<Rightarrow> json \<Rightarrow> ('w, work_result) eff"
  pl_resume :: "string \<Rightarrow> path \<Rightarrow> route_decision \<Rightarrow> string \<Rightarrow> json \<Rightarrow> ('w, work_result) eff"
  pl_read :: "path \<Rightarrow> ('w, string) eff"
  pl_json_error :: "string \<Rightarrow> string"
  pl_first_error :: "json \<Rightarrow> json \<Rightarrow> (string list \<times> string) option"
  pl_resolve :: "path \<Rightarrow> path"
  pl_schema_path :: path

section \<open>Field helpers\<close>

definition pl_field :: "json dict \<Rightarrow> string \<Rightarrow> json result" where
  "pl_field raw name =
     (case map_of raw name of
        None \<Rightarrow> Inl (PlannerOutputError (''Missing planner field '' @ name)) | Some v \<Rightarrow> Inr v)"

definition pl_mapping :: "json \<Rightarrow> string \<Rightarrow> json dict result" where
  "pl_mapping v ctx =
     (case v of JObj kvs \<Rightarrow> Inr kvs | _ \<Rightarrow> Inl (StructuralPlannerOutputError (''Expected object for '' @ ctx)))"

definition pl_sequence :: "json \<Rightarrow> string \<Rightarrow> json list result" where
  "pl_sequence v ctx =
     (case v of JList vs \<Rightarrow> Inr vs | _ \<Rightarrow> Inl (PlannerOutputError (''Expected array for '' @ ctx)))"

definition pl_plain_string :: "json \<Rightarrow> string \<Rightarrow> string result" where
  "pl_plain_string v ctx =
     (case v of JStr s \<Rightarrow> Inr s | _ \<Rightarrow> Inl (PlannerOutputError (''Expected string for '' @ ctx)))"

definition pl_string :: "json dict \<Rightarrow> string \<Rightarrow> string result" where
  "pl_string raw name = rbind (pl_field raw name) (\<lambda>v. pl_plain_string v name)"

definition pl_string_tuple :: "json dict \<Rightarrow> string \<Rightarrow> string list result" where
  "pl_string_tuple raw name =
     rbind (pl_field raw name) (\<lambda>v. rbind (pl_sequence v name) (\<lambda>vs.
       rmap (\<lambda>x. pl_plain_string x name) vs))"

definition pl_number :: "json dict \<Rightarrow> string \<Rightarrow> pyfloat result" where
  "pl_number raw name =
     rbind (pl_field raw name) (\<lambda>v.
       case v of
         JInt i \<Rightarrow> (case float_of_int i of
                      None \<Rightarrow> Inl (PyOverflowError ''int too large to convert to float'') | Some f \<Rightarrow> Inr f)
       | JFloat f \<Rightarrow> Inr f
       | _ \<Rightarrow> Inl (PlannerOutputError (''Expected number for '' @ name)))"

section \<open>Semantic validation\<close>

text \<open>\<open>_contained_relative_path\<close>; \<open>resolve\<close> is \<open>Path.resolve\<close>.\<close>

definition contained_relative_path :: "(path \<Rightarrow> path) \<Rightarrow> string \<Rightarrow> path \<Rightarrow> path result" where
  "contained_relative_path resolve raw project =
     (let root = resolve project;
          candidate = path_of raw;
          resolved = (if is_absolute candidate then resolve candidate else resolve (path_join root candidate))
      in case relative_to resolved root of
           None \<Rightarrow> Inl (PlannerOutputError (''Affected path escapes project: '' @ raw))
         | Some p \<Rightarrow> Inr p)"

text \<open>\<open>AccessMode(value)\<close>\<close>

definition access_of :: "string \<Rightarrow> access_mode result" where
  "access_of s =
     (if s = access_mode_value AccessReadOnly then Inr AccessReadOnly
      else if s = access_mode_value AccessWorkspaceWrite then Inr AccessWorkspaceWrite
      else Inl (PyValueError (py_repr s @ '' is not a valid AccessMode'')))"

text \<open>One round of the loop, after the identifier was found to be new.\<close>

definition parse_work_item ::
  "(path \<Rightarrow> path) \<Rightarrow> objective \<Rightarrow> router_config \<Rightarrow> nat \<Rightarrow> json dict \<Rightarrow> string \<Rightarrow> work_item result" where
  "parse_work_item resolve obj cfg index raw wid =
     rbind (pl_string raw ''task'') (\<lambda>task.
     if task \<notin> set (dkeys (cf_tasks cfg))
     then Inl (PlannerOutputError (''Planner returned unknown task '' @ py_repr task))
     else
       rbind (pl_string raw ''access'') (\<lambda>acc. rbind (access_of acc) (\<lambda>access.
       rbind (pl_string_tuple raw ''verification'') (\<lambda>verification.
       if access = AccessWorkspaceWrite \<and> verification = []
       then Inl (PlannerOutputError (''Write-capable work item '' @ py_repr wid @ '' has no verification''))
       else
         rbind (pl_field raw ''affected-paths'') (\<lambda>v. rbind (pl_sequence v ''affected-paths'') (\<lambda>paths.
         rbind (rmap (\<lambda>x. rbind (pl_plain_string x (indexed_ctx ''work-items'' index @ ''.affected-paths'')) (\<lambda>s.
                  contained_relative_path resolve s (ob_project_path obj))) paths) (\<lambda>affected.
         rbind (pl_string raw ''title'') (\<lambda>title.
         rbind (pl_string raw ''instructions'') (\<lambda>instructions.
         rbind (pl_string raw ''phase'') (\<lambda>phase.
         rbind (pl_string_tuple raw ''dependencies'') (\<lambda>deps.
         rbind (pl_string raw ''expected-result'') (\<lambda>expected.
         rbind (pl_number raw ''confidence'') (\<lambda>confidence.
         rbind (pl_string_tuple raw ''risk-flags'') (\<lambda>flags.
           Inr \<lparr>wi_id = wid, wi_title = title, wi_instructions = instructions, wi_task = task,
                wi_phase = phase, wi_dependencies = deps, wi_access = access,
                wi_affected_paths = affected, wi_expected_result = expected,
                wi_verification = verification, wi_confidence = confidence,
                wi_risk_flags = fset_of_list flags\<rparr>))))))))))))))"

fun parse_work_items ::
  "(path \<Rightarrow> path) \<Rightarrow> objective \<Rightarrow> router_config \<Rightarrow> nat \<Rightarrow> string list \<Rightarrow> json list \<Rightarrow> work_item list result" where
  "parse_work_items resolve obj cfg index seen [] = Inr []"
| "parse_work_items resolve obj cfg index seen (v # vs) =
     rbind (pl_mapping v (indexed_ctx ''work-items'' index)) (\<lambda>raw.
     rbind (pl_string raw ''id'') (\<lambda>wid.
     if wid \<in> set seen
     then Inl (PlannerOutputError (''Planner returned duplicate work-item ID '' @ py_repr wid))
     else
       rbind (parse_work_item resolve obj cfg index raw wid) (\<lambda>item.
       rbind (parse_work_items resolve obj cfg (Suc index) (wid # seen) vs) (\<lambda>items.
         Inr (item # items)))))"

fun check_dependencies :: "string list \<Rightarrow> string \<Rightarrow> string list \<Rightarrow> unit result" where
  "check_dependencies ids wid [] = Inr ()"
| "check_dependencies ids wid (d # ds) =
     (if d \<in> set ids then check_dependencies ids wid ds
      else Inl (PlannerOutputError (''Work item '' @ py_repr wid @ '' has missing dependency '' @ py_repr d)))"

fun check_all_dependencies :: "string list \<Rightarrow> work_item list \<Rightarrow> unit result" where
  "check_all_dependencies ids [] = Inr ()"
| "check_all_dependencies ids (i # is) =
     rbind (check_dependencies ids (wi_id i) (wi_dependencies i)) (\<lambda>_. check_all_dependencies ids is)"

section \<open>Cycles\<close>

text \<open>Every nested visit marks one more key.\<close>

definition unmarked :: "string list dict \<Rightarrow> string list \<Rightarrow> nat" where
  "unmarked deps visiting = card (set (dkeys deps) - set visiting)"

lemma unmarked_less:
  assumes "k \<notin> set visiting" and "map_of deps k = Some ds"
  shows "unmarked deps (k # visiting) < unmarked deps visiting"
proof -
  have "k \<in> set (dkeys deps) - set visiting" using assms map_of_Some_key by auto
  then have "set (dkeys deps) - set (k # visiting) \<subset> set (dkeys deps) - set visiting" by auto
  then show ?thesis unfolding unmarked_def by (intro psubset_card_mono) auto
qed

text \<open>
  \<open>visit\<close> of \<open>_reject_cycles\<close>. A raise ends the search, so \<open>visiting\<close> is what the
  enclosing calls have added; \<open>visited\<close> is passed on. The depth of the recursion is bounded by
  the number of items; Python's recursion limit is not modelled.
\<close>

function visit :: "string list dict \<Rightarrow> string list \<Rightarrow> string list \<Rightarrow> string \<Rightarrow> string list result"
  and visit_all :: "string list dict \<Rightarrow> string list \<Rightarrow> string list \<Rightarrow> string list \<Rightarrow> string list result" where
  "visit deps visiting visited k =
     (if k \<in> set visiting
      then Inl (PlannerOutputError (''Planner dependency cycle includes '' @ py_repr k))
      else if k \<in> set visited then Inr visited
      else (case map_of deps k of
              None \<Rightarrow> Inl (PyKeyError (py_repr k))
            | Some ds \<Rightarrow> rbind (visit_all deps (k # visiting) visited ds) (\<lambda>v. Inr (k # v))))"
| "visit_all deps visiting visited [] = Inr visited"
| "visit_all deps visiting visited (d # ds) =
     rbind (visit deps visiting visited d) (\<lambda>v. visit_all deps visiting v ds)"
  by pat_completeness auto

termination
  by (relation "measures
      [case_sum (\<lambda>(deps, visiting, _, _). unmarked deps visiting) (\<lambda>(deps, visiting, _, _). unmarked deps visiting),
       case_sum (\<lambda>_. 0) (\<lambda>(_, _, _, ds). Suc (length ds))]")
    (auto dest: unmarked_less)

declare visit.simps [simp del]

definition dependency_map :: "work_item list \<Rightarrow> string list dict" where
  "dependency_map items = dict_of (map (\<lambda>i. (wi_id i, wi_dependencies i)) items)"

definition reject_cycles :: "work_item list \<Rightarrow> unit result" where
  "reject_cycles items =
     rbind (visit_all (dependency_map items) [] [] (map wi_id items)) (\<lambda>_. Inr ())"

definition parse_semantic_work_items ::
  "(path \<Rightarrow> path) \<Rightarrow> objective \<Rightarrow> router_config \<Rightarrow> json dict \<Rightarrow> work_item list result" where
  "parse_semantic_work_items resolve obj cfg raw =
     rbind (pl_field raw ''work-items'') (\<lambda>v. rbind (pl_sequence v ''work-items'') (\<lambda>values.
     rbind (parse_work_items resolve obj cfg 0 [] values) (\<lambda>items.
     rbind (check_all_dependencies (map wi_id items) items) (\<lambda>_.
     rbind (reject_cycles items) (\<lambda>_. Inr items)))))"

section \<open>The prompt\<close>

text \<open>\<open>json.dumps\<close> with its default separators, on one line.\<close>

fun dump_line :: "json \<Rightarrow> string" where
  "dump_line (JList vs) = ''['' @ py_join '', '' (map dump_line vs) @ '']''"
| "dump_line (JObj kvs) = ''{'' @ py_join '', '' (map (\<lambda>(k, v). json_string k @ '': '' @ dump_line v) kvs) @ ''}''"
| "dump_line v = dump Compact 0 v"

definition build_prompt :: "objective \<Rightarrow> repository_context \<Rightarrow> router_config \<Rightarrow> json \<Rightarrow> string" where
  "build_prompt obj repo cfg schema =
     (let task_lines = py_join nl (map (\<lambda>(name, policy). ''- '' @ name @ '': '' @ tp_description policy) (cf_tasks cfg));
          instruction_lines = or_else (py_join (nl @ nl)
            (map (\<lambda>i. ''## '' @ str_path (inf_path i) @ nl @ inf_content i) (rc_instruction_files repo))) ''(none)'';
          dirty_lines = or_else (py_join nl (map str_path (rc_dirty_paths repo))) ''(clean)''
      in ''Objective:'' @ nl @ ob_prompt obj @ nl @ nl
         @ ''Project path:'' @ nl @ str_path (ob_project_path obj) @ nl @ nl
         @ ''Repository instructions:'' @ nl @ instruction_lines @ nl @ nl
         @ ''Dirty paths:'' @ nl @ dirty_lines @ nl @ nl
         @ ''Configured task identifiers and descriptions:'' @ nl @ task_lines @ nl @ nl
         @ ''Return work items only. Choose task identifiers from the list above; do not assign ''
         @ ''concrete models. The response must satisfy this JSON Schema:'' @ nl
         @ dump_line (sort_keys schema))"

definition planner_work_item :: "objective \<Rightarrow> router_config \<Rightarrow> work_item" where
  "planner_work_item obj cfg =
     \<lparr>wi_id = ''objective-plan'', wi_title = ''Plan objective'', wi_instructions = ob_prompt obj,
      wi_task = cf_planner_task cfg, wi_phase = ''planning'', wi_dependencies = [],
      wi_access = AccessReadOnly, wi_affected_paths = [],
      wi_expected_result = ''A validated graph of bounded work items.'', wi_verification = [],
      wi_confidence = Fin 1 0, wi_risk_flags = {||}\<rparr>"

section \<open>Planning\<close>

text \<open>\<open>read_text\<close> raises \<open>OSError\<close> or, for undecodable bytes, a \<open>ValueError\<close>.\<close>

definition load_schema :: "'w planner_ports \<Rightarrow> path \<Rightarrow> ('w, json) eff" where
  "load_schema p schema_path =
     io_bind (io_map_error (\<lambda>e. case e of
                 PyOSError m \<Rightarrow> PlannerOutputError (''Cannot load planner schema '' @ str_path schema_path @ '': '' @ m)
               | PyValueError m \<Rightarrow> PlannerOutputError (''Cannot load planner schema '' @ str_path schema_path @ '': '' @ m)
               | _ \<Rightarrow> e) (pl_read p schema_path)) (\<lambda>content.
     io_bind (io_lift (case loads content of
                 None \<Rightarrow> Inl (PlannerOutputError (''Cannot load planner schema '' @ str_path schema_path @ '': ''
                               @ pl_json_error p content))
               | Some v \<Rightarrow> Inr v)) (\<lambda>loaded.
       io_lift (rbind (pl_mapping loaded (''planner schema '' @ str_path schema_path)) (\<lambda>kvs. Inr (JObj kvs)))))"

definition parse_and_validate ::
  "'w planner_ports \<Rightarrow> string option \<Rightarrow> objective \<Rightarrow> router_config \<Rightarrow> json \<Rightarrow> work_item list result" where
  "parse_and_validate p content obj cfg schema =
     (case content of
        None \<Rightarrow> Inl (StructuralPlannerOutputError ''Planner returned no final response'')
      | Some text \<Rightarrow>
          (case loads text of
             None \<Rightarrow> Inl (StructuralPlannerOutputError (''Planner response is not valid JSON: '' @ pl_json_error p text))
           | Some loaded \<Rightarrow>
               rbind (pl_mapping loaded ''planner response'') (\<lambda>raw.
                 case pl_first_error p schema (JObj raw) of
                   Some (location, message) \<Rightarrow>
                     Inl (StructuralPlannerOutputError (''Planner response violates schema at ''
                       @ or_else (py_join ''.'' location) ''root'' @ '': '' @ message))
                 | None \<Rightarrow> parse_semantic_work_items (pl_resolve p) obj cfg raw)))"

definition validate_plan_result ::
  "'w planner_ports \<Rightarrow> string \<Rightarrow> objective \<Rightarrow> router_config \<Rightarrow> path \<Rightarrow> ('w, work_item list) eff" where
  "validate_plan_result p content obj cfg schema_path =
     io_bind (load_schema p schema_path) (\<lambda>schema.
       io_lift (parse_and_validate p (Some content) obj cfg schema))"

definition planner_instructions :: string where
  "planner_instructions =
     ''Return only structured work items that satisfy the supplied JSON Schema. ''
     @ ''Do not assign concrete models; choose only configured task identifiers.''"

text \<open>The \<open>except\<close> clause of \<open>plan\<close>: one correction on the same thread.\<close>

definition correct_plan ::
  "'w planner_ports \<Rightarrow> objective \<Rightarrow> router_config \<Rightarrow> json \<Rightarrow> route_decision \<Rightarrow> work_result \<Rightarrow> string
   \<Rightarrow> ('w, work_item list) eff" where
  "correct_plan p obj cfg schema rt first first_error =
     (case wr_thread_id first of
        None \<Rightarrow> io_raise (PlannerOutputError ''Planner response was structurally invalid and had no resumable thread ID'')
      | Some thread \<Rightarrow>
          io_bind (pl_resume p thread (ob_project_path obj) rt
                    (''Correct the previous response to satisfy the supplied JSON schema exactly. ''
                     @ ''Structural error: '' @ first_error) schema) (\<lambda>corrected.
            io_lift (parse_and_validate p (wr_final_response corrected) obj cfg schema)))"

definition plan ::
  "'w planner_ports \<Rightarrow> router_config \<Rightarrow> objective \<Rightarrow> repository_context \<Rightarrow> router_config \<Rightarrow> ('w, work_item list) eff" where
  "plan p router_cfg obj repo cfg =
     io_bind (load_schema p (pl_schema_path p)) (\<lambda>schema.
     io_bind (io_lift (route router_cfg (planner_work_item obj cfg) None)) (\<lambda>rt.
     io_bind (pl_run_new p (ob_project_path obj) rt (build_prompt obj repo cfg schema)
               planner_instructions schema) (\<lambda>first.
       case parse_and_validate p (wr_final_response first) obj cfg schema of
         Inl (StructuralPlannerOutputError m) \<Rightarrow> correct_plan p obj cfg schema rt first m
       | Inl e \<Rightarrow> io_raise e
       | Inr items \<Rightarrow> io_return items)))"

end
