(* ===== verification/Scheduler.thy ===== *)
theory Scheduler
  imports Approvals
begin

text \<open>
  \<open>WorkScheduler\<close> of \<open>src/goalrouter/scheduler.py\<close>. The collaborators that the constructor
  injects (store, lease, client, clock) are the fields of \<open>sched_ports\<close> over any world. A
  method is a computation over the pair of the run state, which the code mutates in place, and
  that world; what was assigned before a raise stays assigned. The task group that runs a read
  batch is a port too: it gets one call per item and returns one outcome per call, or raises
  when its owner is cancelled.
\<close>

section \<open>Ports\<close>

text \<open>The call that \<open>_dispatch\<close> makes: \<open>run_new_thread\<close> or \<open>resume_thread\<close>.\<close>

datatype client_call =
    NewThread path route_decision string string
  | ResumeThread string path route_decision string

text \<open>How one child of the task group ends.\<close>

datatype outcome = Returned work_result | Raised exn | Cancelled

record 'w sched_ports =
  sp_save :: "run_state \<Rightarrow> ('w, unit) eff"
  sp_append_event :: "string \<Rightarrow> run_event \<Rightarrow> ('w, unit) eff"
  sp_acquire :: "path \<Rightarrow> ('w, unit) eff"
  sp_release :: "path \<Rightarrow> ('w, unit) eff"
  sp_call :: "client_call \<Rightarrow> ('w, work_result) eff"
  sp_group :: "client_call result list \<Rightarrow> ('w, outcome list) eff"
  sp_now :: "('w, datetime) eff"
  sp_sha :: "string \<Rightarrow> string"
  sp_max_read_concurrency :: nat

text \<open>\<open>WorkScheduler.__init__\<close> refuses a limit below one.\<close>

definition make_scheduler :: "'w sched_ports \<Rightarrow> int \<Rightarrow> 'w sched_ports result" where
  "make_scheduler p limit =
     (if limit < 1
      then Inl (ConfigurationError ''maximum read concurrency must be at least one'')
      else Inr (p\<lparr>sp_max_read_concurrency := nat limit\<rparr>))"

section \<open>Pure parts\<close>

definition dependency_failure :: "work_status \<Rightarrow> bool" where
  "dependency_failure st \<longleftrightarrow> st \<in> {Failed, Blocked}"

definition resumable_status :: "work_status \<Rightarrow> bool" where
  "resumable_status st \<longleftrightarrow> st \<in> {Pending, AwaitingApproval, Running}"

definition pre_writer_status :: "run_status \<Rightarrow> bool" where
  "pre_writer_status st \<longleftrightarrow> st \<in> {RunAwaitingApproval, RunRunning}"

definition is_pending :: "run_state \<Rightarrow> string \<Rightarrow> bool" where
  "is_pending s wid \<longleftrightarrow>
     (case map_of (st_results s) wid of None \<Rightarrow> True | Some r \<Rightarrow> resumable_status (wr_status r))"

definition pending_items :: "run_state \<Rightarrow> work_item list" where
  "pending_items s =
     map (\<lambda>wid. the (map_of (st_work_items s) wid))
       (filter (is_pending s) (sorted_keys (st_work_items s)))"

definition has_failed_dependency :: "run_state \<Rightarrow> work_item \<Rightarrow> bool" where
  "has_failed_dependency s item \<longleftrightarrow>
     list_ex (\<lambda>d. case map_of (st_results s) d of
                     None \<Rightarrow> False | Some r \<Rightarrow> dependency_failure (wr_status r)) (wi_dependencies item)"

definition dependencies_succeeded :: "run_state \<Rightarrow> work_item \<Rightarrow> bool" where
  "dependencies_succeeded s item \<longleftrightarrow>
     list_all (\<lambda>d. case map_of (st_results s) d of
                      None \<Rightarrow> False | Some r \<Rightarrow> wr_status r = Succeeded) (wi_dependencies item)"

definition newly_blocked :: "run_state \<Rightarrow> work_item list" where
  "newly_blocked s = filter (has_failed_dependency s) (pending_items s)"

text \<open>\<open>require_dispatchable\<close> raises nothing but \<open>ApprovalRequiredError\<close>, which skips the item.\<close>

definition dispatchable :: "(string \<Rightarrow> string) \<Rightarrow> run_state \<Rightarrow> work_item list" where
  "dispatchable sha s =
     filter (\<lambda>item. dependencies_succeeded s item \<and> require_dispatchable sha s (wi_id item) = Inr ())
       (pending_items s)"

definition failure_result :: "work_item \<Rightarrow> work_status \<Rightarrow> string \<Rightarrow> work_result" where
  "failure_result item status message =
     \<lparr>wr_work_item_id = wi_id item, wr_thread_id = None, wr_turn_id = None, wr_status = status,
      wr_final_response = None, wr_sdk_items = [], wr_input_tokens = 0,
      wr_cached_input_tokens = 0, wr_output_tokens = 0, wr_duration_seconds = Fin 0 0,
      wr_changed_paths = [], wr_verification = [], wr_confidence = Fin 0 0,
      wr_escalation_requested = False, wr_error = Some message\<rparr>"

definition developer_instructions :: "run_state \<Rightarrow> string" where
  "developer_instructions s =
     py_join [CHR 10, CHR 10]
       (''Respect the declared sandbox and make only the bounded change described by the work item.''
        # map (\<lambda>i. ''Repository instructions from '' @ str_path (inf_path i) @ '':'' @ [CHR 10] @ inf_content i)
            (rc_instruction_files (st_repository s)))"

text \<open>\<open>state.routes[item.id]\<close> is a \<open>KeyError\<close> when there is no route.\<close>

definition dispatch_call :: "run_state \<Rightarrow> work_item \<Rightarrow> client_call result" where
  "dispatch_call s item =
     (case map_of (st_routes s) (wi_id item) of
        None \<Rightarrow> Inl (PyKeyError (py_repr (wi_id item)))
      | Some route \<Rightarrow>
          (case Option.bind (map_of (st_results s) (wi_id item)) wr_thread_id of
             Some thread \<Rightarrow>
               Inr (ResumeThread thread (ob_project_path (st_objective s)) route (wi_instructions item))
           | None \<Rightarrow>
               Inr (NewThread (ob_project_path (st_objective s)) route (wi_instructions item)
                     (developer_instructions s))))"

text \<open>\<open>f"{type(error).__name__}: {error}"\<close>\<close>

definition error_text :: "exn \<Rightarrow> string" where
  "error_text e = exn_name e @ '': '' @ exn_str e"

fun missing_approval :: "run_state \<Rightarrow> work_item list \<Rightarrow> bool result" where
  "missing_approval s [] = Inr False"
| "missing_approval s (item # items) =
     (if map_of (st_results s) (wi_id item) \<noteq> None then missing_approval s items
      else (case map_of (st_routes s) (wi_id item) of
              None \<Rightarrow> Inl (PyKeyError (py_repr (wi_id item)))
            | Some route \<Rightarrow>
                if rd_approval route = Required then Inr True else missing_approval s items))"

definition final_status :: "run_state \<Rightarrow> run_status result" where
  "final_status s =
     (let statuses = map (\<lambda>kr. wr_status (snd kr)) (st_results s)
      in if Failed \<in> set statuses then Inr RunFailed
         else if Blocked \<in> set statuses then Inr RunBlocked
         else if length (st_results s) = length (st_work_items s) \<and> set statuses \<subseteq> {Succeeded}
         then Inr RunCompleted
         else rbind (missing_approval s (map snd (st_work_items s))) (\<lambda>b.
                Inr (if b then RunAwaitingApproval else RunPlanned)))"

section \<open>The state in the world\<close>

type_synonym ('w, 'a) sched = "(run_state \<times> 'w, 'a) eff"

definition get_state :: "('w, run_state) sched" where
  "get_state = (\<lambda>(s, w). (Inr s, (s, w)))"

definition set_state :: "run_state \<Rightarrow> ('w, unit) sched" where
  "set_state s' = (\<lambda>(s, w). (Inr (), (s', w)))"

definition lift_world :: "('w, 'a) eff \<Rightarrow> ('w, 'a) sched" where
  "lift_world m = (\<lambda>(s, w). case m w of (r, w') \<Rightarrow> (r, (s, w')))"

definition modify_state :: "(run_state \<Rightarrow> run_state) \<Rightarrow> ('w, unit) sched" where
  "modify_state f = io_bind get_state (\<lambda>s. set_state (f s))"

definition save_state :: "'w sched_ports \<Rightarrow> ('w, unit) sched" where
  "save_state p = io_bind get_state (\<lambda>s. lift_world (sp_save p s))"

section \<open>Methods\<close>

definition persist_result :: "'w sched_ports \<Rightarrow> work_result \<Rightarrow> ('w, unit) sched" where
  "persist_result p result =
     io_bind (modify_state (\<lambda>s. s\<lparr>st_results := dset (st_results s) (wr_work_item_id result) result\<rparr>))
       (\<lambda>_. io_bind (save_state p) (\<lambda>_.
            io_bind (lift_world (sp_now p)) (\<lambda>now.
            io_bind get_state (\<lambda>s.
              lift_world (sp_append_event p (run_id s)
                \<lparr>ev_timestamp = now, ev_event = ''work-item-finished'',
                 ev_work_item_id = Some (wr_work_item_id result),
                 ev_details = [(''status'', JStr (work_status_value (wr_status result)))]\<rparr>)))))"

fun persist_all :: "'w sched_ports \<Rightarrow> work_result list \<Rightarrow> ('w, unit) sched" where
  "persist_all p [] = io_return ()"
| "persist_all p (r # rs) = io_bind (persist_result p r) (\<lambda>_. persist_all p rs)"

definition dispatch :: "'w sched_ports \<Rightarrow> work_item \<Rightarrow> ('w, work_result) sched" where
  "dispatch p item =
     io_bind get_state (\<lambda>s.
     io_bind (io_lift (dispatch_call s item)) (\<lambda>c.
     io_bind (lift_world (sp_call p c)) (\<lambda>result.
       io_return (result\<lparr>wr_work_item_id := wi_id item\<rparr>))))"

text \<open>\<open>except Exception\<close>: everything but a cancellation becomes a failed result.\<close>

definition run_one :: "'w sched_ports \<Rightarrow> work_item \<Rightarrow> ('w, work_result) sched" where
  "run_one p item = (\<lambda>w.
     case dispatch p item w of
       (Inr r, w') \<Rightarrow> (Inr r, w')
     | (Inl e, w') \<Rightarrow>
         (if is_exception e then (Inr (failure_result item Failed (error_text e)), w')
          else (Inl e, w')))"

definition outcome_result :: "work_item \<Rightarrow> outcome \<Rightarrow> work_result" where
  "outcome_result item oc =
     (case oc of
        Returned r \<Rightarrow> r\<lparr>wr_work_item_id := wi_id item\<rparr>
      | Raised e \<Rightarrow> failure_result item Failed (error_text e)
      | Cancelled \<Rightarrow> failure_result item Failed ''Cancelled because a sibling task failed'')"

definition run_read_batch :: "'w sched_ports \<Rightarrow> work_item list \<Rightarrow> ('w, work_result list) sched" where
  "run_read_batch p items =
     io_bind get_state (\<lambda>s.
     io_bind (lift_world (sp_group p (map (dispatch_call s) items))) (\<lambda>outcomes.
       io_return (map2 outcome_result items outcomes)))"

definition run_writer :: "'w sched_ports \<Rightarrow> work_item \<Rightarrow> ('w, unit) sched" where
  "run_writer p item =
     io_bind get_state (\<lambda>s.
     io_bind (if pre_writer_status (st_status s)
              then io_bind (set_state (s\<lparr>st_status := RunPlanned\<rparr>)) (\<lambda>_. save_state p)
              else io_return ()) (\<lambda>_.
     io_bind (lift_world (sp_acquire p (ob_project_path (st_objective s)))) (\<lambda>_.
       io_finally
         (io_bind get_state (\<lambda>s.
          io_bind (io_lift (require_dispatchable (sp_sha p) s (wi_id item))) (\<lambda>_.
          io_bind (modify_state (\<lambda>s. s\<lparr>st_status := RunRunning\<rparr>)) (\<lambda>_.
          io_bind (run_one p item) (\<lambda>result.
            persist_result p result)))))
         (lift_world (sp_release p (ob_project_path (st_objective s)))))))"

definition run_readers :: "'w sched_ports \<Rightarrow> work_item list \<Rightarrow> ('w, unit) sched" where
  "run_readers p ready =
     io_bind (modify_state (\<lambda>s. s\<lparr>st_status := RunRunning\<rparr>)) (\<lambda>_.
     io_bind (run_read_batch p (take (sp_max_read_concurrency p) ready)) (\<lambda>results.
       persist_all p results))"

definition is_writer :: "work_item \<Rightarrow> bool" where
  "is_writer item \<longleftrightarrow> wi_access item = AccessWorkspaceWrite"

text \<open>The body of the loop; the result says whether to go on (\<open>False\<close> is \<open>break\<close>).\<close>

definition run_step :: "'w sched_ports \<Rightarrow> ('w, bool) sched" where
  "run_step p =
     io_bind get_state (\<lambda>s0.
     io_bind (persist_all p
               (map (\<lambda>item. failure_result item Blocked ''A dependency did not succeed'')
                    (newly_blocked s0))) (\<lambda>_.
     io_bind get_state (\<lambda>s.
       let ready = dispatchable (sp_sha p) s
       in if ready = [] then io_return False
          else (case filter is_writer ready of
                  item # _ \<Rightarrow> io_bind (run_writer p item) (\<lambda>_. io_return True)
                | [] \<Rightarrow> io_bind (run_readers p ready) (\<lambda>_. io_return True)))))"

fun run_loop :: "nat \<Rightarrow> 'w sched_ports \<Rightarrow> ('w, unit) sched" where
  "run_loop 0 p = io_return ()"
| "run_loop (Suc n) p =
     io_bind (run_step p) (\<lambda>continue. if continue then run_loop n p else io_return ())"

definition finish_run :: "'w sched_ports \<Rightarrow> ('w, unit) sched" where
  "finish_run p =
     io_bind get_state (\<lambda>s.
     io_bind (io_lift (final_status s)) (\<lambda>status.
       if st_status s \<noteq> status
       then io_bind (set_state (s\<lparr>st_status := status\<rparr>)) (\<lambda>_. save_state p)
       else io_return ()))"

definition run_ready :: "'w sched_ports \<Rightarrow> ('w, unit) sched" where
  "run_ready p =
     io_bind get_state (\<lambda>s.
     io_bind (run_loop (length (st_work_items s)) p) (\<lambda>_. finish_run p))"

end
