(* ===== verification/Application.thy ===== *)
theory Application
  imports Planner Scheduler
begin

text \<open>
  \<open>GoalRouterApplication\<close> of \<open>src/goalrouter/application.py\<close>: the use cases over the ports that
  its constructor injects. The fields of \<open>app_ports\<close> are those collaborators; the router and
  the approval service are pure and used directly. A run state lives only inside one use case,
  so a use case is a computation over the world that returns the state, and the scheduler port
  takes and returns it (\<open>scheduler_port\<close>).
\<close>

record 'w app_ports =
  ap_config :: router_config
  ap_config_path :: path
  ap_available_models :: "('w, string list) eff"
  ap_inspect :: "path \<Rightarrow> ('w, repository_context) eff"
  ap_plan :: "objective \<Rightarrow> repository_context \<Rightarrow> router_config \<Rightarrow> ('w, work_item list) eff"
  ap_run_ready :: "run_state \<Rightarrow> ('w, run_state) eff"
  ap_create :: "run_state \<Rightarrow> ('w, unit) eff"
  ap_load :: "string \<Rightarrow> string option \<Rightarrow> bool \<Rightarrow> ('w, run_state) eff"
  ap_save :: "run_state \<Rightarrow> ('w, unit) eff"
  ap_append_event :: "string \<Rightarrow> run_event \<Rightarrow> ('w, unit) eff"
  ap_write_report :: "string \<Rightarrow> string \<Rightarrow> ('w, unit) eff"
  ap_render :: "run_state \<Rightarrow> string result"
  ap_acquire :: "string \<Rightarrow> ('w, unit) eff"
  ap_release :: "string \<Rightarrow> ('w, unit) eff"
  ap_now :: "('w, datetime) eff"
  ap_new_run_id :: "('w, string) eff"
  ap_sha :: "string \<Rightarrow> string"

definition completion_id :: string where
  "completion_id = ''__goalrouter_completion_review__''"

text \<open>The scheduler mutates the state it is given; a raise drops it.\<close>

definition scheduler_port :: "'w sched_ports \<Rightarrow> run_state \<Rightarrow> ('w, run_state) eff" where
  "scheduler_port p s = (\<lambda>w. case run_ready p (s, w) of
      (Inl e, (s', w')) \<Rightarrow> (Inl e, w') | (Inr _, (s', w')) \<Rightarrow> (Inr s', w'))"

section \<open>Pure parts\<close>

definition make_objective :: "'w app_ports \<Rightarrow> path \<Rightarrow> string \<Rightarrow> string option \<Rightarrow> string \<Rightarrow> ('w, objective) eff" where
  "make_objective p project prompt explicit_task rid =
     io_bind (ap_now p) (\<lambda>now.
       io_return \<lparr>ob_id = rid, ob_prompt = prompt, ob_project_path = project,
         ob_explicit_task = explicit_task, ob_config_path = ap_config_path p, ob_created_at = now\<rparr>)"

definition explicit_item ::
  "router_config \<Rightarrow> string \<Rightarrow> string \<Rightarrow> path list \<Rightarrow> (work_item \<times> route_decision) result" where
  "explicit_item cfg task prompt affected =
     (let provisional = \<lparr>wi_id = ''task'', wi_title = ''Run '' @ task, wi_instructions = prompt,
            wi_task = task, wi_phase = ''explicit'', wi_dependencies = [], wi_access = AccessReadOnly,
            wi_affected_paths = affected,
            wi_expected_result = ''The requested bounded task is complete.'', wi_verification = [],
            wi_confidence = Fin 1 0, wi_risk_flags = {||}\<rparr>
      in rbind (route cfg provisional (Some task)) (\<lambda>rt.
           Inr (provisional\<lparr>wi_access :=
                  (if rd_sandbox rt = SandboxWorkspaceWrite then AccessWorkspaceWrite else AccessReadOnly)\<rparr>,
                rt)))"

definition base_work_succeeded :: "run_state \<Rightarrow> bool" where
  "base_work_succeeded s \<longleftrightarrow>
     (let base = filter (\<lambda>k. k \<noteq> completion_id) (dkeys (st_work_items s))
      in base \<noteq> [] \<and> list_all (\<lambda>k. case map_of (st_results s) k of
           None \<Rightarrow> False | Some r \<Rightarrow> wr_status r = Succeeded) base)"

definition completion_item :: "run_state \<Rightarrow> string \<Rightarrow> work_item" where
  "completion_item s task =
     (let response = (\<lambda>k. case map_of (st_results s) k of
            None \<Rightarrow> []
          | Some r \<Rightarrow> (case wr_final_response r of None \<Rightarrow> ''(no response)'' | Some t \<Rightarrow> or_else t ''(no response)''));
          summaries = py_join nl (map (\<lambda>k. ''- '' @ k @ '': '' @ response k) (sorted_keys (st_results s)))
      in \<lparr>wi_id = completion_id, wi_title = ''Independent completion review'',
          wi_instructions =
            ''Independently verify that the objective scope and required evidence are complete. ''
            @ ''Do not modify files. Report any missing verification explicitly.'' @ nl @ nl
            @ ''Objective: '' @ ob_prompt (st_objective s) @ nl @ nl @ ''Completed work:'' @ nl @ summaries,
          wi_task = task, wi_phase = ''completion'', wi_dependencies = sorted_keys (st_work_items s),
          wi_access = AccessReadOnly, wi_affected_paths = [],
          wi_expected_result = ''An independent completion decision with evidence.'',
          wi_verification = [], wi_confidence = Fin 1 0, wi_risk_flags = {||}\<rparr>)"

text \<open>\<open>_adopt_current_configuration\<close> routes the unfinished items again and drops every approval.\<close>

fun reroute :: "router_config \<Rightarrow> run_state \<Rightarrow> work_item dict \<Rightarrow> route_decision dict result" where
  "reroute cfg s [] = Inr (st_routes s)"
| "reroute cfg s ((k, item) # rest) =
     (if is_pending s k
      then rbind (route cfg item None) (\<lambda>rt.
             reroute cfg (s\<lparr>st_routes := dset (st_routes s) k rt\<rparr>) rest)
      else reroute cfg s rest)"

definition adopt_configuration :: "router_config \<Rightarrow> run_state \<Rightarrow> run_state result" where
  "adopt_configuration cfg s =
     rbind (reroute cfg s (st_work_items s)) (\<lambda>routes.
       Inr (s\<lparr>st_routes := routes, st_configuration_digest := cf_digest cfg, st_approvals := []\<rparr>))"

section \<open>Events, reports, models\<close>

definition app_event ::
  "'w app_ports \<Rightarrow> run_state \<Rightarrow> string \<Rightarrow> string option \<Rightarrow> json dict \<Rightarrow> ('w, unit) eff" where
  "app_event p s event item details =
     io_bind (ap_now p) (\<lambda>now.
       ap_append_event p (run_id s)
         \<lparr>ev_timestamp = now, ev_event = event, ev_work_item_id = item, ev_details = details\<rparr>)"

definition write_report :: "'w app_ports \<Rightarrow> run_state \<Rightarrow> ('w, string) eff" where
  "write_report p s =
     io_bind (io_lift (ap_render p s)) (\<lambda>content.
     io_bind (ap_write_report p (run_id s) content) (\<lambda>_. io_return content))"

definition validate_model_inventory :: "'w app_ports \<Rightarrow> ('w, unit) eff" where
  "validate_model_inventory p =
     io_bind (ap_available_models p) (\<lambda>models. io_lift (validate_models (ap_config p) models))"

definition models :: "'w app_ports \<Rightarrow> ('w, string list) eff" where
  "models p =
     io_bind (ap_available_models p) (\<lambda>available.
     io_bind (io_lift (validate_models (ap_config p) available)) (\<lambda>_. io_return available))"

definition route_task :: "'w app_ports \<Rightarrow> string \<Rightarrow> string \<Rightarrow> path list \<Rightarrow> ('w, route_decision) eff" where
  "route_task p task prompt affected =
     io_bind (validate_model_inventory p) (\<lambda>_.
     io_bind (io_lift (explicit_item (ap_config p) task prompt affected)) (\<lambda>(item, rt). io_return rt))"

section \<open>Use cases\<close>

text \<open>\<open>async with self._run_lease.acquire(run_id)\<close>\<close>

definition with_lease :: "'w app_ports \<Rightarrow> string \<Rightarrow> ('w, 'a) eff \<Rightarrow> ('w, 'a) eff" where
  "with_lease p rid body = io_bind (ap_acquire p rid) (\<lambda>_. io_finally body (ap_release p rid))"

text \<open>\<open>run_id or self._run_id_factory()\<close>\<close>

definition select_run_id :: "'w app_ports \<Rightarrow> string option \<Rightarrow> ('w, string) eff" where
  "select_run_id p given =
     (case given of Some rid \<Rightarrow> if rid = [] then ap_new_run_id p else io_return rid | None \<Rightarrow> ap_new_run_id p)"

text \<open>The end of \<open>_plan_objective_unlocked\<close>: the routed state of the planned items.\<close>

definition planned_state ::
  "router_config \<Rightarrow> objective \<Rightarrow> repository_context \<Rightarrow> work_item list \<Rightarrow> run_state result" where
  "planned_state cfg obj repo items =
     (if completion_id \<in> wi_id ` set items
      then Inl (PlannerOutputError (''Planner used reserved work-item ID '' @ completion_id))
      else
        rbind (rmap (\<lambda>i. rbind (route cfg i None) (\<lambda>rt. Inr (wi_id i, rt))) items) (\<lambda>routes.
          Inr \<lparr>st_schema_version = 1, st_configuration_digest = cf_digest cfg,
               st_objective = obj, st_repository = repo,
               st_work_items = dict_of (map (\<lambda>i. (wi_id i, i)) items), st_routes = dict_of routes,
               st_results = [], st_approvals = [], st_status = RunPlanned\<rparr>))"

definition plan_unlocked :: "'w app_ports \<Rightarrow> path \<Rightarrow> string \<Rightarrow> string \<Rightarrow> ('w, run_state) eff" where
  "plan_unlocked p project prompt rid =
     io_bind (ap_inspect p project) (\<lambda>repo.
     io_bind (validate_model_inventory p) (\<lambda>_.
     io_bind (make_objective p (rc_project_path repo) prompt None rid) (\<lambda>obj.
     io_bind (ap_plan p obj repo (ap_config p)) (\<lambda>items.
     io_bind (io_lift (planned_state (ap_config p) obj repo items)) (\<lambda>s.
     io_bind (ap_create p s) (\<lambda>_.
     io_bind (app_event p s ''objective-planned'' None []) (\<lambda>_. io_return s)))))))"

definition plan_objective :: "'w app_ports \<Rightarrow> path \<Rightarrow> string \<Rightarrow> string option \<Rightarrow> ('w, run_state) eff" where
  "plan_objective p project prompt given =
     io_bind (select_run_id p given) (\<lambda>rid. with_lease p rid (plan_unlocked p project prompt rid))"

definition task_state :: "router_config \<Rightarrow> objective \<Rightarrow> repository_context \<Rightarrow> work_item \<Rightarrow> route_decision \<Rightarrow> run_state" where
  "task_state cfg obj repo item rt =
     \<lparr>st_schema_version = 1, st_configuration_digest = cf_digest cfg, st_objective = obj,
      st_repository = repo, st_work_items = [(wi_id item, item)], st_routes = [(wi_id item, rt)],
      st_results = [], st_approvals = [], st_status = RunPlanned\<rparr>"

definition run_task :: "'w app_ports \<Rightarrow> path \<Rightarrow> string \<Rightarrow> string \<Rightarrow> path list \<Rightarrow> string option \<Rightarrow> ('w, run_state) eff" where
  "run_task p project task prompt affected given =
     io_bind (select_run_id p given) (\<lambda>rid. with_lease p rid
      (io_bind (ap_inspect p project) (\<lambda>repo.
       io_bind (validate_model_inventory p) (\<lambda>_.
       io_bind (io_lift (explicit_item (ap_config p) task prompt affected)) (\<lambda>(item, rt).
       io_bind (make_objective p (rc_project_path repo) prompt (Some task) rid) (\<lambda>obj.
       io_bind (io_return (task_state (ap_config p) obj repo item rt)) (\<lambda>s.
       io_bind (ap_create p s) (\<lambda>_.
       io_bind (app_event p s ''task-created'' None []) (\<lambda>_.
       io_bind (ap_run_ready p s) (\<lambda>s'.
       io_bind (write_report p s') (\<lambda>_. io_return s')))))))))))"

text \<open>\<open>_continue\<close>; \<open>append_completion\<close> is the branch that adds the completion review.\<close>

definition append_completion :: "'w app_ports \<Rightarrow> run_state \<Rightarrow> ('w, run_state) eff" where
  "append_completion p s =
     (let item = completion_item s (cf_completion_task (ap_config p))
      in io_bind (io_lift (route (ap_config p) item None)) (\<lambda>rt.
         let s' = s\<lparr>st_work_items := dset (st_work_items s) completion_id item,
                    st_routes := dset (st_routes s) completion_id rt, st_status := RunPlanned\<rparr>
         in io_bind (ap_save p s') (\<lambda>_.
            io_bind (app_event p s' ''completion-review-appended'' None []) (\<lambda>_. io_return s'))))"

definition continue_run :: "'w app_ports \<Rightarrow> run_state \<Rightarrow> ('w, run_state) eff" where
  "continue_run p s =
     io_bind (ap_run_ready p s) (\<lambda>s1.
     io_bind (if ob_explicit_task (st_objective s1) = None \<and> base_work_succeeded s1
              then io_bind (if map_of (st_work_items s1) completion_id = None
                            then append_completion p s1 else io_return s1) (\<lambda>s2.
                   if map_of (st_results s2) completion_id = None then ap_run_ready p s2 else io_return s2)
              else io_return s1) (\<lambda>s3.
     io_bind (write_report p s3) (\<lambda>_. io_return s3)))"

definition run_objective :: "'w app_ports \<Rightarrow> path \<Rightarrow> string \<Rightarrow> string option \<Rightarrow> ('w, run_state) eff" where
  "run_objective p project prompt given =
     io_bind (select_run_id p given) (\<lambda>rid. with_lease p rid
       (io_bind (plan_unlocked p project prompt rid) (continue_run p)))"

definition app_approve :: "'w app_ports \<Rightarrow> string \<Rightarrow> string \<Rightarrow> string \<Rightarrow> ('w, run_state) eff" where
  "app_approve p rid wid approved_by = with_lease p rid
     (io_bind (ap_load p rid (Some (cf_digest (ap_config p))) False) (\<lambda>s.
      io_bind (ap_now p) (\<lambda>now.
      io_bind (io_lift (approve (ap_sha p) s wid approved_by now)) (\<lambda>(approval, s').
      io_bind (ap_save p s') (\<lambda>_.
      io_bind (app_event p s' ''approval-recorded'' (Some wid) [(''approved_by'', JStr approved_by)]) (\<lambda>_.
      io_bind (write_report p s') (\<lambda>_. io_return s')))))))"

definition resume_run :: "'w app_ports \<Rightarrow> string \<Rightarrow> bool \<Rightarrow> ('w, run_state) eff" where
  "resume_run p rid acknowledge = with_lease p rid
     (io_bind (ap_load p rid (Some (cf_digest (ap_config p))) acknowledge) (\<lambda>s.
      io_bind (if st_configuration_digest s \<noteq> cf_digest (ap_config p)
               then io_bind (io_lift (adopt_configuration (ap_config p) s)) (\<lambda>s'.
                    io_bind (ap_save p s') (\<lambda>_.
                    io_bind (app_event p s' ''configuration-change-acknowledged'' None []) (\<lambda>_. io_return s')))
               else io_return s) (\<lambda>s'.
      io_bind (validate_model_inventory p) (\<lambda>_. continue_run p s'))))"

definition status :: "'w app_ports \<Rightarrow> string \<Rightarrow> ('w, run_state) eff" where
  "status p rid = ap_load p rid None False"

definition report :: "'w app_ports \<Rightarrow> string \<Rightarrow> ('w, string) eff" where
  "report p rid = with_lease p rid (io_bind (ap_load p rid None False) (write_report p))"

end
