(* ===== verification/Planner_Properties.thy ===== *)
theory Planner_Properties
  imports Planner Examples
begin

text \<open>
  What a plan that the planner returns satisfies. \<open>visit\<close> accepts exactly the acyclic dependency
  graphs: a search that ends has put every visited item after all its dependencies
  (\<open>visit_sound\<close>), and an item that is met while it is being visited lies on a cycle
  (\<open>visit_complete\<close>).
\<close>

section \<open>The cycle search\<close>

text \<open>\<open>(d, k)\<close>: \<open>d\<close> is a dependency of \<open>k\<close>.\<close>

definition dep_rel :: "string list dict \<Rightarrow> (string \<times> string) set" where
  "dep_rel deps = {(d, k). \<exists>ds. map_of deps k = Some ds \<and> d \<in> set ds}"

definition grounded :: "string list dict \<Rightarrow> string list \<Rightarrow> bool" where
  "grounded deps v \<longleftrightarrow> set v \<subseteq> Wellfounded.acc (dep_rel deps)"

lemma visit_sound:
  "visit deps visiting visited k = Inr v \<Longrightarrow> grounded deps visited
     \<Longrightarrow> grounded deps v \<and> set visited \<subseteq> set v \<and> k \<in> set v"
  "visit_all deps visiting visited ds = Inr v \<Longrightarrow> grounded deps visited
     \<Longrightarrow> grounded deps v \<and> set visited \<subseteq> set v \<and> set ds \<subseteq> set v"
proof (induction deps visiting visited k and deps visiting visited ds arbitrary: v and v
    rule: visit_visit_all.induct)
  case (1 deps visiting visited k)
  show ?case
  proof (cases "k \<in> set visited")
    case True
    then show ?thesis using "1.prems" by (auto simp: visit.simps split: if_splits)
  next
    case False
    with "1.prems"(1) obtain ds u where k: "k \<notin> set visiting" and ds: "map_of deps k = Some ds"
      and u: "visit_all deps (k # visiting) visited ds = Inr u" and v: "v = k # u"
      by (auto simp: visit.simps rbind_eq_Inr_iff split: if_splits option.splits)
    from "1.IH" [OF k False ds u "1.prems"(2)]
    have g: "grounded deps u" and sub: "set visited \<subseteq> set u" "set ds \<subseteq> set u" by auto
    have "k \<in> Wellfounded.acc (dep_rel deps)"
      by (rule accI) (use g sub ds in \<open>auto simp: dep_rel_def grounded_def\<close>)
    then show ?thesis using g sub v by (auto simp: grounded_def)
  qed
next
  case (2 deps visiting visited)
  then show ?case by simp
next
  case (3 deps visiting visited d ds)
  from "3.prems"(1) obtain u where u: "visit deps visiting visited d = Inr u"
    and v: "visit_all deps visiting u ds = Inr v"
    by (auto simp: rbind_eq_Inr_iff)
  from "3.IH"(1) [OF u "3.prems"(2)] "3.IH"(2) [OF u v] show ?case by auto
qed

definition all_known :: "string list dict \<Rightarrow> bool" where
  "all_known deps \<longleftrightarrow> (\<forall>k ds. map_of deps k = Some ds \<longrightarrow> set ds \<subseteq> set (dkeys deps))"

lemma visit_complete:
  "acyclic (dep_rel deps) \<Longrightarrow> all_known deps \<Longrightarrow> k \<in> set (dkeys deps)
     \<Longrightarrow> \<forall>x \<in> set visiting. (k, x) \<in> (dep_rel deps)\<^sup>+ \<Longrightarrow> \<exists>v. visit deps visiting visited k = Inr v"
  "acyclic (dep_rel deps) \<Longrightarrow> all_known deps \<Longrightarrow> set ds \<subseteq> set (dkeys deps)
     \<Longrightarrow> \<forall>d \<in> set ds. \<forall>x \<in> set visiting. (d, x) \<in> (dep_rel deps)\<^sup>+
     \<Longrightarrow> \<exists>v. visit_all deps visiting visited ds = Inr v"
proof (induction deps visiting visited k and deps visiting visited ds rule: visit_visit_all.induct)
  case (1 deps visiting visited k)
  have k: "k \<notin> set visiting" using "1.prems"(1,4) by (auto simp: acyclic_def)
  obtain ds where ds: "map_of deps k = Some ds"
    using "1.prems"(3) by (metis map_of_None_iff not_None_eq)
  show ?case
  proof (cases "k \<in> set visited")
    case True
    then show ?thesis using k by (simp add: visit.simps)
  next
    case False
    have edge: "(d, k) \<in> dep_rel deps" if "d \<in> set ds" for d using that ds by (auto simp: dep_rel_def)
    have "\<exists>v. visit_all deps (k # visiting) visited ds = Inr v"
    proof (rule "1.IH" [OF k False ds "1.prems"(1,2)])
      show "set ds \<subseteq> set (dkeys deps)" using "1.prems"(2) ds by (simp add: all_known_def)
      show "\<forall>d \<in> set ds. \<forall>x \<in> set (k # visiting). (d, x) \<in> (dep_rel deps)\<^sup>+"
        using edge "1.prems"(4) by (auto intro: trancl_into_trancl2)
    qed
    then show ?thesis using k False ds by (auto simp: visit.simps)
  qed
next
  case (2 deps visiting visited)
  then show ?case by simp
next
  case (3 deps visiting visited d ds)
  then obtain u where u: "visit deps visiting visited d = Inr u" by auto
  then obtain v where "visit_all deps visiting u ds = Inr v" using "3.IH"(2) [OF u] "3.prems" by auto
  with u show ?case by simp
qed

section \<open>Dependency graphs of plans\<close>

definition plan_rel :: "work_item list \<Rightarrow> (string \<times> string) set" where
  "plan_rel items = {(d, k). \<exists>i \<in> set items. wi_id i = k \<and> d \<in> set (wi_dependencies i)}"

definition plan_known :: "work_item list \<Rightarrow> bool" where
  "plan_known items \<longleftrightarrow> (\<forall>i \<in> set items. set (wi_dependencies i) \<subseteq> wi_id ` set items)"

lemma dependency_map_of:
  assumes "distinct (map wi_id items)"
  shows "dependency_map items = map (\<lambda>i. (wi_id i, wi_dependencies i)) items"
  unfolding dependency_map_def by (rule dict_of_distinct) (use assms in \<open>simp add: comp_def\<close>)

lemma dependency_map_Some:
  assumes "distinct (map wi_id items)"
  shows "map_of (dependency_map items) k = Some ds \<longleftrightarrow>
    (\<exists>i \<in> set items. wi_id i = k \<and> wi_dependencies i = ds)"
  unfolding dependency_map_of [OF assms]
  by (subst map_of_eq_Some_iff) (use assms in \<open>auto simp: comp_def\<close>)

lemma dep_rel_plan: "distinct (map wi_id items) \<Longrightarrow> dep_rel (dependency_map items) = plan_rel items"
  by (auto simp: dep_rel_def plan_rel_def dependency_map_Some)

lemma dkeys_dependency_map: "distinct (map wi_id items) \<Longrightarrow> set (dkeys (dependency_map items)) = wi_id ` set items"
  by (force simp: dependency_map_of)

lemma acyclic_accepted:
  assumes "distinct (map wi_id items)" and "plan_known items" and "acyclic (plan_rel items)"
  shows "reject_cycles items = Inr ()"
proof -
  let ?deps = "dependency_map items"
  have "all_known ?deps" unfolding all_known_def dkeys_dependency_map [OF assms(1)]
    using assms(2) by (auto simp: dependency_map_Some [OF assms(1)] plan_known_def)
  moreover have "acyclic (dep_rel ?deps)" using assms(3) by (simp add: dep_rel_plan [OF assms(1)])
  ultimately have "\<exists>v. visit_all ?deps [] [] (map wi_id items) = Inr v"
    using dkeys_dependency_map [OF assms(1)] by (intro visit_complete(2)) auto
  then show ?thesis by (auto simp: reject_cycles_def)
qed

lemma accepted_wf:
  assumes "distinct (map wi_id items)" and "reject_cycles items = Inr ()"
  shows "wf (plan_rel items)"
proof -
  obtain v where "visit_all (dependency_map items) [] [] (map wi_id items) = Inr v"
    using assms(2) by (auto simp: reject_cycles_def rbind_eq_Inr_iff)
  from visit_sound(2) [OF this] have "grounded (dependency_map items) (map wi_id items)"
    by (auto simp: grounded_def)
  then have acc: "k \<in> Wellfounded.acc (plan_rel items)" if "k \<in> wi_id ` set items" for k
    using that by (auto simp: grounded_def dep_rel_plan [OF assms(1)])
  have "k \<in> Wellfounded.acc (plan_rel items)" for k
  proof (rule accI)
    fix d assume "(d, k) \<in> plan_rel items"
    then have "k \<in> wi_id ` set items" by (auto simp: plan_rel_def)
    from acc [OF this] \<open>(d, k) \<in> plan_rel items\<close> show "d \<in> Wellfounded.acc (plan_rel items)"
      by (rule acc_downward)
  qed
  then show ?thesis by (blast intro: acc_wfI)
qed

text \<open>
  C18. The search for cycles is exact: for a plan with distinct identifiers and known
  dependencies, \<open>_reject_cycles\<close> returns exactly when the dependency relation is acyclic.
\<close>

theorem cycle_check_is_exact:
  assumes "distinct (map wi_id items)" and "plan_known items"
  shows "reject_cycles items = Inr () \<longleftrightarrow> acyclic (plan_rel items)"
  using acyclic_accepted [OF assms] accepted_wf [OF assms(1)] wf_acyclic by blast

lemma cycle_check_is_exact_witness:
  "\<not> acyclic (plan_rel [ex_item ''a'' [''b''] AccessReadOnly {||}, ex_item ''b'' [''a''] AccessReadOnly {||}])"
proof -
  let ?items = "[ex_item ''a'' [''b''] AccessReadOnly {||}, ex_item ''b'' [''a''] AccessReadOnly {||}]"
  have "reject_cycles ?items \<noteq> Inr ()"
    by (simp add: reject_cycles_def dependency_map_def dict_of_def ex_item_def visit.simps)
  moreover have "distinct (map wi_id ?items)" and "plan_known ?items"
    by (simp_all add: ex_item_def plan_known_def)
  ultimately show ?thesis using cycle_check_is_exact [of ?items] by blast
qed

section \<open>Valid plans\<close>

text \<open>
  A path is contained when it is the rest of a resolved path below the resolved project:
  relative, and without a parent reference if resolved paths have none.
\<close>

definition item_valid :: "(path \<Rightarrow> path) \<Rightarrow> objective \<Rightarrow> router_config \<Rightarrow> work_item \<Rightarrow> bool" where
  "item_valid resolve obj cfg item \<longleftrightarrow>
     wi_task item \<in> set (dkeys (cf_tasks cfg))
     \<and> (wi_access item = AccessWorkspaceWrite \<longrightarrow> wi_verification item \<noteq> [])
     \<and> (\<forall>p \<in> set (wi_affected_paths item). \<not> is_absolute p
          \<and> (\<exists>q. resolve q = path_join (resolve (ob_project_path obj)) p))"

definition plan_valid :: "(path \<Rightarrow> path) \<Rightarrow> objective \<Rightarrow> router_config \<Rightarrow> work_item list \<Rightarrow> bool" where
  "plan_valid resolve obj cfg items \<longleftrightarrow>
     distinct (map wi_id items) \<and> list_all (item_valid resolve obj cfg) items
     \<and> plan_known items \<and> wf (plan_rel items)"

lemma contained_relative:
  assumes "contained_relative_path resolve raw project = Inr p"
  shows "\<not> is_absolute p \<and> (\<exists>q. resolve q = path_join (resolve project) p)"
proof -
  let ?root = "resolve project"
  obtain q where q: "relative_to (resolve q) ?root = Some p"
    using assms by (auto simp: contained_relative_path_def Let_def split: if_splits option.splits)
  then have root: "path_root (resolve q) = path_root ?root"
    and parts: "take (length (path_parts ?root)) (path_parts (resolve q)) = path_parts ?root"
    and p: "p = Path [] (drop (length (path_parts ?root)) (path_parts (resolve q)))"
    by (auto simp: relative_to_def split: if_splits)
  have "path_parts (resolve q) = path_parts ?root @ path_parts p"
    using append_take_drop_id [of "length (path_parts ?root)" "path_parts (resolve q)"] parts p by simp
  then have "resolve q = path_join ?root p"
    using root p by (simp add: path_join_def is_absolute_def path.expand)
  then show ?thesis using p by (auto simp: is_absolute_def)
qed

lemma parse_work_item_valid:
  assumes "parse_work_item resolve obj cfg index raw wid = Inr item"
  shows "wi_id item = wid" and "item_valid resolve obj cfg item"
proof -
  obtain task access verification affected paths where
    task: "task \<in> set (dkeys (cf_tasks cfg))"
    and ver: "\<not> (access = AccessWorkspaceWrite \<and> verification = [])"
    and aff: "rmap (\<lambda>x. rbind (pl_plain_string x (indexed_ctx ''work-items'' index @ ''.affected-paths'')) (\<lambda>s.
                  contained_relative_path resolve s (ob_project_path obj))) paths = Inr affected"
    and item: "wi_id item = wid" "wi_task item = task" "wi_access item = access"
      "wi_verification item = verification" "wi_affected_paths item = affected"
    using assms unfolding parse_work_item_def
    by (elim rbind_Inr_E) (simp split: if_splits, elim rbind_Inr_E, simp split: if_splits, elim rbind_Inr_E, force+)
  show "wi_id item = wid" by (rule item)
  have "\<not> is_absolute p \<and> (\<exists>q. resolve q = path_join (resolve (ob_project_path obj)) p)" if p: "p \<in> set affected" for p
  proof -
    obtain x where "rbind (pl_plain_string x (indexed_ctx ''work-items'' index @ ''.affected-paths'')) (\<lambda>s.
                  contained_relative_path resolve s (ob_project_path obj)) = Inr p"
      using rmap_set [OF aff p] by blast
    then show ?thesis by (elim rbind_Inr_E) (rule contained_relative)
  qed
  then show "item_valid resolve obj cfg item" using task ver item by (auto simp: item_valid_def)
qed

lemma parse_work_items_valid:
  assumes "parse_work_items resolve obj cfg index seen vs = Inr items"
  shows "distinct (map wi_id items) \<and> set (map wi_id items) \<inter> set seen = {}
    \<and> list_all (item_valid resolve obj cfg) items"
  using assms
proof (induction vs arbitrary: index seen items)
  case Nil
  then show ?case by simp
next
  case (Cons v vs)
  obtain raw wid item rest where wid: "wid \<notin> set seen"
    and item: "parse_work_item resolve obj cfg index raw wid = Inr item"
    and rest: "parse_work_items resolve obj cfg (Suc index) (wid # seen) vs = Inr rest"
    and items: "items = item # rest"
    using Cons.prems by (auto simp: rbind_eq_Inr_iff split: if_splits)
  from Cons.IH [OF rest] parse_work_item_valid [OF item] wid show ?case
    unfolding items by auto
qed

lemma check_dependencies_Inr: "check_dependencies ids wid ds = Inr () \<longleftrightarrow> set ds \<subseteq> set ids"
  by (induction ds) auto

lemma check_all_dependencies_Inr:
  "check_all_dependencies ids items = Inr () \<longleftrightarrow> (\<forall>i \<in> set items. set (wi_dependencies i) \<subseteq> set ids)"
  by (induction items) (auto simp: rbind_eq_Inr_iff check_dependencies_Inr)

lemma parse_semantic_valid:
  assumes "parse_semantic_work_items resolve obj cfg raw = Inr items"
  shows "plan_valid resolve obj cfg items"
proof -
  obtain vs where "parse_work_items resolve obj cfg 0 [] vs = Inr items"
    and deps: "check_all_dependencies (map wi_id items) items = Inr ()"
    and cyc: "reject_cycles items = Inr ()"
    using assms unfolding parse_semantic_work_items_def by (auto simp: rbind_eq_Inr_iff)
  from parse_work_items_valid [OF this(1)] have items: "distinct (map wi_id items)"
    "list_all (item_valid resolve obj cfg) items" by auto
  moreover have "plan_known items" using deps by (auto simp: check_all_dependencies_Inr plan_known_def)
  ultimately show ?thesis using accepted_wf [OF items(1) cyc] by (simp add: plan_valid_def)
qed

lemma parse_and_validate_valid:
  "parse_and_validate p content obj cfg schema = Inr items \<Longrightarrow> plan_valid (pl_resolve p) obj cfg items"
  unfolding parse_and_validate_def
  by (auto simp: rbind_eq_Inr_iff split: option.splits intro: parse_semantic_valid)

lemma correct_plan_valid:
  "correct_plan p obj cfg schema rt first m w = (Inr items, w') \<Longrightarrow> plan_valid (pl_resolve p) obj cfg items"
  unfolding correct_plan_def
  by (auto simp: io_bind_Inr_iff split: option.splits intro: parse_and_validate_valid)

lemma plan_returns_valid:
  assumes "plan p rc obj repo cfg w = (Inr items, w')"
  shows "plan_valid (pl_resolve p) obj cfg items"
proof -
  obtain schema rt first v where
    "(case parse_and_validate p (wr_final_response first) obj cfg schema of
         Inl (StructuralPlannerOutputError m) \<Rightarrow> correct_plan p obj cfg schema rt first m
       | Inl e \<Rightarrow> io_raise e
       | Inr items \<Rightarrow> io_return items) v = (Inr items, w')"
    using assms unfolding plan_def by (elim io_bind_Inr_E) blast
  then show ?thesis
    by (auto split: sum.splits exn.splits intro: parse_and_validate_valid correct_plan_valid)
qed

text \<open>
  C17. Whatever the model answers, at first or after the correction, a plan that \<open>plan\<close> returns
  is valid: distinct identifiers, configured tasks, verification for every write-capable item,
  affected paths inside the project, known dependencies and no dependency cycle (the relation
  is well-founded).
\<close>

theorem returned_plan_is_valid:
  assumes "plan p rc obj repo cfg w = (Inr items, w')"
  shows "distinct (map wi_id items) \<and> list_all (item_valid (pl_resolve p) obj cfg) items
    \<and> (\<forall>i \<in> set items. set (wi_dependencies i) \<subseteq> wi_id ` set items)
    \<and> wf {(d, k). \<exists>i \<in> set items. wi_id i = k \<and> d \<in> set (wi_dependencies i)}"
  using plan_returns_valid [OF assms] by (simp add: plan_valid_def plan_known_def plan_rel_def)

definition ex_plan_json :: json where
  "ex_plan_json = JObj [(''work-items'', JList [JObj
     [(''access'', JStr ''workspace-write''), (''affected-paths'', JList [JStr ''a.py'']),
      (''confidence'', JInt 1), (''dependencies'', JList []), (''expected-result'', JStr ''e''),
      (''id'', JStr ''a''), (''instructions'', JStr ''do''), (''phase'', JStr ''p''),
      (''risk-flags'', JList []), (''task'', JStr ''code''), (''title'', JStr ''t''),
      (''verification'', JList [JStr ''test''])]])]"

definition ex_planner :: "unit planner_ports" where
  "ex_planner = \<lparr>pl_run_new = (\<lambda>_ _ _ _ _. io_return ((ex_result ''plan'' Succeeded)\<lparr>wr_final_response := Some (dumps Compact ex_plan_json)\<rparr>)),
     pl_resume = (\<lambda>_ _ _ _ _. io_return (ex_result ''plan'' Succeeded)),
     pl_read = (\<lambda>_. io_return (dumps Compact (JObj []))), pl_json_error = (\<lambda>_. []),
     pl_first_error = (\<lambda>_ _. None), pl_resolve = (\<lambda>p. p), pl_schema_path = ex_root\<rparr>"

definition ex_planned_item :: work_item where
  "ex_planned_item = \<lparr>wi_id = ''a'', wi_title = ''t'', wi_instructions = ''do'', wi_task = ''code'',
     wi_phase = ''p'', wi_dependencies = [], wi_access = AccessWorkspaceWrite,
     wi_affected_paths = [Path [] [''a.py'']], wi_expected_result = ''e'', wi_verification = [''test''],
     wi_confidence = Fin 1 0, wi_risk_flags = {||}\<rparr>"

lemma ex_plan_text: "loads (dumps Compact ex_plan_json) = Some ex_plan_json"
proof -
  have "json_ok ex_plan_json" by (simp add: ex_plan_json_def dict_ok_def)
  moreover have "sort_keys ex_plan_json = ex_plan_json"
    by (simp add: ex_plan_json_def sorted_items_def)
  ultimately show ?thesis using loads_dumps [of ex_plan_json Compact] by simp
qed

lemma ex_plan_parsed:
  "parse_and_validate ex_planner (Some (dumps Compact ex_plan_json)) ex_objective ex_config schema = Inr [ex_planned_item]"
proof -
  have float: "float_of_int 1 = Some (Fin 1 0)"
    by (simp add: float_of_int_def float_limit_def norm_dec.simps)
  have path: "contained_relative_path (\<lambda>p. p) ''a.py'' (ob_project_path ex_objective) = Inr (Path [] [''a.py''])"
    by (simp add: contained_relative_path_def ex_objective_def path_of_def root_of_def starts_with_def
        keep_part_def is_absolute_def path_join_def relative_to_def)
  show ?thesis
    by (simp add: parse_and_validate_def ex_plan_text, simp add: ex_plan_json_def ex_planner_def pl_mapping_def
        parse_semantic_work_items_def pl_field_def pl_sequence_def pl_string_def pl_plain_string_def
        parse_work_item_def access_of_def pl_string_tuple_def path pl_number_def float
        ex_config_def reject_cycles_def dependency_map_def dict_of_def visit.simps ex_planned_item_def)
qed

lemma ex_plan: "plan ex_planner ex_config ex_objective ex_repository ex_config () = (Inr [ex_planned_item], ())"
proof -
  have schema: "loads (dumps Compact (JObj [])) = Some (JObj [])"
    using loads_dumps [of "JObj []" Compact] by (simp add: dict_ok_def sorted_items_def)
  obtain rt where rt: "route ex_config (planner_work_item ex_objective ex_config) None = Inr rt"
    using route_total [OF ex_config_ok, where explicit = None and item = "planner_work_item ex_objective ex_config"]
    by (auto simp: planner_work_item_def ex_config_def)
  have ports: "pl_read ex_planner x = io_return (dumps Compact (JObj []))"
    "pl_run_new ex_planner a b c d e = io_return ((ex_result ''plan'' Succeeded)\<lparr>wr_final_response := Some (dumps Compact ex_plan_json)\<rparr>)"
    for x a b c d e
    by (simp_all add: ex_planner_def)
  show ?thesis
    by (simp add: plan_def load_schema_def ports schema rt pl_mapping_def ex_plan_parsed io_bind_def io_map_error_def)
qed

lemma returned_plan_is_valid_witness: "plan_valid (\<lambda>p. p) ex_objective ex_config [ex_planned_item]"
  using returned_plan_is_valid [OF ex_plan] by (simp add: plan_valid_def plan_known_def plan_rel_def ex_planner_def)

text \<open>
  Planning is bounded: for every answer of the client, \<open>plan\<close> starts at most one thread and
  resumes it at most once.
\<close>

definition counted :: "'w planner_ports \<Rightarrow> ('w \<times> nat \<times> nat) planner_ports" where
  "counted p =
     \<lparr>pl_run_new = (\<lambda>a b c d e (w, n, m). case pl_run_new p a b c d e w of (r, w') \<Rightarrow> (r, (w', Suc n, m))),
      pl_resume = (\<lambda>a b c d e (w, n, m). case pl_resume p a b c d e w of (r, w') \<Rightarrow> (r, (w', n, Suc m))),
      pl_read = (\<lambda>x (w, n, m). case pl_read p x w of (r, w') \<Rightarrow> (r, (w', n, m))),
      pl_json_error = pl_json_error p, pl_first_error = pl_first_error p,
      pl_resolve = pl_resolve p, pl_schema_path = pl_schema_path p\<rparr>"

lemma planning_is_bounded:
  "case plan (counted p) rc obj repo cfg (w, 0, 0) of (_, (_, started, resumed)) \<Rightarrow>
     started \<le> 1 \<and> resumed \<le> started"
proof -
  let ?Q = "\<lambda>n m v. case v of (_, a, b) \<Rightarrow> a = (n :: nat) \<and> b \<le> (m :: nat)"
  let ?E = "\<lambda>v. case v of (_, a, b) \<Rightarrow> a \<le> 1 \<and> b \<le> a"
  have schema: "io_spec (?Q 0 0) (load_schema (counted p) x) (\<lambda>_. ?Q 0 0) ?E" for x
    by (auto simp: io_spec_def load_schema_def io_bind_def io_map_error_def counted_def
        split: prod.splits sum.splits)
  have start: "io_spec (?Q 0 0) (pl_run_new (counted p) a b c d e) (\<lambda>_. ?Q 1 0) ?E" for a b c d e
    by (auto simp: io_spec_def counted_def split: prod.splits)
  have resume: "io_spec (?Q 1 0) (pl_resume (counted p) a b c d e) (\<lambda>_. ?E) ?E" for a b c d e
    by (auto simp: io_spec_def counted_def split: prod.splits)
  have correct: "io_spec (?Q 1 0) (correct_plan (counted p) obj cfg s rt first m) (\<lambda>_. ?E) ?E" for s rt first m
  proof (cases "wr_thread_id first")
    case None
    show ?thesis
      unfolding correct_plan_def None option.case by (rule io_spec_raise) auto
  next
    case (Some thread)
    have "io_spec ?E (io_lift r) (\<lambda>_. ?E) ?E" for r :: "work_item list result"
      by (auto simp: io_spec_def)
    then show ?thesis unfolding correct_plan_def Some option.case by (intro io_spec_bind [OF resume])
  qed
  have answer: "io_spec (?Q 1 0)
     (case parse_and_validate (counted p) (wr_final_response first) obj cfg s of
         Inl (StructuralPlannerOutputError m) \<Rightarrow> correct_plan (counted p) obj cfg s rt first m
       | Inl e \<Rightarrow> io_raise e
       | Inr items \<Rightarrow> io_return items) (\<lambda>_. ?E) ?E" for s rt first
    using correct by (auto simp: io_spec_def split: sum.split exn.split)
  have lift: "io_spec (?Q 0 0) (io_lift r) (\<lambda>_. ?Q 0 0) ?E" for r :: "route_decision result"
    by (auto simp: io_spec_def)
  have "io_spec (?Q 0 0) (plan (counted p) rc obj repo cfg) (\<lambda>_. ?E) ?E"
    unfolding plan_def by (intro io_spec_bind [OF schema] io_spec_bind [OF lift] io_spec_bind [OF start] answer)
  then show ?thesis
    by (cases "plan (counted p) rc obj repo cfg (w, 0, 0)") (auto dest: io_spec_snd)
qed

end
