(* ===== verification/Scheduler_Invariants.thy ===== *)
theory Scheduler_Invariants
  imports Scheduler
begin

text \<open>
  What every run of the scheduler keeps, return or raise, for arbitrary collaborators
  (\<open>run_ready_invariant\<close>): only results and status change, a finished result is never
  replaced, and every new result is earned: its dependencies had succeeded and its dispatch was
  allowed, or it is blocked and one of its dependencies had failed. The last part shows that the
  loop's bound is enough: when it ends nothing is left to dispatch
  (\<open>run_loop_exhausts\<close>).
\<close>

definition keyed :: "run_state \<Rightarrow> bool" where
  "keyed s \<longleftrightarrow> dict_ok (st_work_items s) \<and> dict_ok (st_results s)
     \<and> (\<forall>k item. map_of (st_work_items s) k = Some item \<longrightarrow> wi_id item = k)"

definition same_plan :: "run_state \<Rightarrow> run_state \<Rightarrow> bool" where
  "same_plan s0 s \<longleftrightarrow> s = s0\<lparr>st_results := st_results s, st_status := st_status s\<rparr>"

definition finished :: "run_state \<Rightarrow> string \<Rightarrow> bool" where
  "finished s k \<longleftrightarrow> \<not> is_pending s k"

text \<open>An item that the scheduler may dispatch, and a result that it may record for it.\<close>

definition may_run :: "(string \<Rightarrow> string) \<Rightarrow> run_state \<Rightarrow> string \<Rightarrow> bool" where
  "may_run sha s k \<longleftrightarrow>
     (\<exists>item. map_of (st_work_items s) k = Some item \<and> dependencies_succeeded s item)
     \<and> require_dispatchable sha s k = Inr ()"

definition must_block :: "run_state \<Rightarrow> string \<Rightarrow> bool" where
  "must_block s k \<longleftrightarrow> (\<exists>item. map_of (st_work_items s) k = Some item \<and> has_failed_dependency s item)"

definition earned :: "(string \<Rightarrow> string) \<Rightarrow> run_state \<Rightarrow> string \<Rightarrow> work_result \<Rightarrow> bool" where
  "earned sha s k r \<longleftrightarrow>
     wr_work_item_id r = k \<and> (may_run sha s k \<or> wr_status r = Blocked \<and> must_block s k)"

definition sched_inv :: "(string \<Rightarrow> string) \<Rightarrow> run_state \<Rightarrow> run_state \<Rightarrow> bool" where
  "sched_inv sha s0 s \<longleftrightarrow>
     same_plan s0 s \<and> dict_ok (st_results s)
     \<and> (\<forall>k. finished s0 k \<longrightarrow> map_of (st_results s) k = map_of (st_results s0) k)
     \<and> (\<forall>k r. map_of (st_results s) k = Some r \<longrightarrow>
          map_of (st_results s0) k = Some r \<or> (is_pending s0 k \<and> earned sha s k r))"

lemma sched_inv_refl: "keyed s \<Longrightarrow> sched_inv sha s s"
  by (simp add: sched_inv_def same_plan_def keyed_def)

lemma same_plan_simps:
  assumes "same_plan s0 s"
  shows "st_work_items s = st_work_items s0" "st_routes s = st_routes s0"
    "st_approvals s = st_approvals s0" "st_objective s = st_objective s0"
    "st_repository s = st_repository s0" "st_configuration_digest s = st_configuration_digest s0"
    "run_id s = run_id s0" "require_dispatchable sha s k = require_dispatchable sha s0 k"
proof -
  obtain x y where s: "s = s0\<lparr>st_results := x, st_status := y\<rparr>"
    using assms unfolding same_plan_def by blast
  show "st_work_items s = st_work_items s0" "st_routes s = st_routes s0"
    "st_approvals s = st_approvals s0" "st_objective s = st_objective s0"
    "st_repository s = st_repository s0" "st_configuration_digest s = st_configuration_digest s0"
    "run_id s = run_id s0"
    by (simp_all add: s run_id_def)
  then show "require_dispatchable sha s k = require_dispatchable sha s0 k"
    by (simp only: require_dispatchable_def require_item_and_route_def fingerprint_def)
qed

lemma sched_inv_keyed: "sched_inv sha s0 s \<Longrightarrow> keyed s0 \<Longrightarrow> keyed s"
  by (auto simp: sched_inv_def keyed_def dest: same_plan_simps(1))

section \<open>Recording one result\<close>

text \<open>Finished results do not change, so what depends on them does not either.\<close>

definition grows :: "run_state \<Rightarrow> run_state \<Rightarrow> bool" where
  "grows s s' \<longleftrightarrow> same_plan s s' \<and> (\<forall>k. finished s k \<longrightarrow> map_of (st_results s') k = map_of (st_results s) k)"

lemma succeeded_finished:
  "map_of (st_results s) k = Some r \<Longrightarrow> wr_status r = Succeeded \<or> dependency_failure (wr_status r) \<Longrightarrow> finished s k"
  by (auto simp: finished_def is_pending_def resumable_status_def dependency_failure_def)

lemma grows_deps:
  assumes "grows s s'"
  shows "dependencies_succeeded s item \<Longrightarrow> dependencies_succeeded s' item"
    and "has_failed_dependency s item \<Longrightarrow> has_failed_dependency s' item"
proof -
  have keep: "map_of (st_results s') k = Some r"
    if "map_of (st_results s) k = Some r" "wr_status r = Succeeded \<or> dependency_failure (wr_status r)" for k r
    using assms that succeeded_finished [OF that] by (simp add: grows_def)
  show "dependencies_succeeded s item \<Longrightarrow> dependencies_succeeded s' item"
    using keep unfolding dependencies_succeeded_def list_all_iff by (fastforce split: option.splits)
  show "has_failed_dependency s item \<Longrightarrow> has_failed_dependency s' item"
    using keep unfolding has_failed_dependency_def list_ex_iff by (fastforce split: option.splits)
qed

lemma grows_earned:
  assumes "grows s s'" and "earned sha s k r"
  shows "earned sha s' k r"
proof -
  have plan: "same_plan s s'" using assms(1) by (simp add: grows_def)
  show ?thesis using assms(2) grows_deps [OF assms(1)]
    by (auto simp: earned_def may_run_def must_block_def same_plan_simps [OF plan])
qed

lemma sched_inv_status:
  assumes inv: "sched_inv sha s0 s"
  shows "sched_inv sha s0 (s\<lparr>st_status := x\<rparr>)"
proof -
  have "grows s (s\<lparr>st_status := x\<rparr>)" by (simp add: grows_def same_plan_def)
  note earned = grows_earned [OF this, of sha]
  obtain a b where "s = s0\<lparr>st_results := a, st_status := b\<rparr>"
    using inv unfolding sched_inv_def same_plan_def by blast
  then have "same_plan s0 (s\<lparr>st_status := x\<rparr>)" by (simp add: same_plan_def)
  then show ?thesis using inv earned unfolding sched_inv_def by simp blast
qed

abbreviation with_result :: "run_state \<Rightarrow> string \<Rightarrow> work_result \<Rightarrow> run_state" where
  "with_result s k r \<equiv> s\<lparr>st_results := dset (st_results s) k r\<rparr>"

lemma with_result_grows: "is_pending s k \<Longrightarrow> grows s (with_result s k r)"
  by (auto simp: grows_def same_plan_def finished_def)

lemma with_result_pending: "j \<noteq> k \<Longrightarrow> is_pending (with_result s k r) j = is_pending s j"
  by (simp add: is_pending_def)

lemma sched_inv_add:
  assumes inv: "sched_inv sha s0 s" and pend: "is_pending s k" and earn: "earned sha s k r"
  shows "sched_inv sha s0 (with_result s k r)"
proof -
  let ?s = "with_result s k r"
  have g: "grows s ?s" using pend by (rule with_result_grows)
  have "finished s0 k \<Longrightarrow> is_pending s k = is_pending s0 k"
    using inv by (simp add: sched_inv_def is_pending_def)
  then have "is_pending s0 k" using pend by (auto simp: finished_def)
  moreover have "earned sha ?s k r" using g earn by (rule grows_earned)
  moreover have "finished s0 j \<longrightarrow> map_of (st_results ?s) j = map_of (st_results s0) j" for j
    using inv \<open>is_pending s0 k\<close> by (auto simp: sched_inv_def finished_def)
  moreover obtain a b where "s = s0\<lparr>st_results := a, st_status := b\<rparr>"
    using inv unfolding sched_inv_def same_plan_def by blast
  then have "same_plan s0 ?s" by (simp add: same_plan_def)
  moreover have "dict_ok (st_results ?s)" using inv by (simp add: sched_inv_def)
  moreover have "map_of (st_results s0) j = Some x \<or> (is_pending s0 j \<and> earned sha ?s j x)"
    if "j \<noteq> k" "map_of (st_results s) j = Some x" for j x
    using inv that(2) grows_earned [OF g, of sha] unfolding sched_inv_def by blast
  ultimately show ?thesis by (auto simp: sched_inv_def)
qed

section \<open>Specifications of the methods\<close>

text \<open>Assertions about the state, with an invariant of the world.\<close>

definition watching :: "('w \<Rightarrow> bool) \<Rightarrow> (run_state \<Rightarrow> bool) \<Rightarrow> run_state \<times> 'w \<Rightarrow> bool" where
  "watching I P sw \<longleftrightarrow> P (fst sw) \<and> I (snd sw)"

abbreviation on_state :: "(run_state \<Rightarrow> bool) \<Rightarrow> run_state \<times> 'w \<Rightarrow> bool" where
  "on_state \<equiv> watching (\<lambda>_. True)"

lemma on_state_def: "on_state P sw \<longleftrightarrow> P (fst sw)"
  by (simp add: watching_def)

lemma spec_lift_watching: "io_keeps I m \<Longrightarrow> io_spec (watching I P) (lift_world m) (\<lambda>_. watching I P) (watching I P)"
  by (rule io_specI) (auto simp: lift_world_def watching_def split: prod.splits dest: io_keepsD)

lemma spec_lift_on_state: "io_spec (on_state P) (lift_world m) (\<lambda>_. on_state P) (on_state P)"
  by (rule spec_lift_watching) (simp add: io_keeps_def)

lemma spec_get_on_state: "io_spec (watching I P) get_state (\<lambda>s. watching I (\<lambda>t. t = s \<and> P s)) E"
  by (auto simp: io_spec_def get_state_def watching_def split: prod.splits)

lemma spec_set_on_state:
  "(\<And>t. P t \<Longrightarrow> Q s) \<Longrightarrow> io_spec (watching I P) (set_state s) (\<lambda>_. watching I Q) E"
  by (auto simp: io_spec_def set_state_def watching_def split: prod.splits)

lemma spec_modify_on_state:
  "(\<And>t. P t \<Longrightarrow> Q (f t)) \<Longrightarrow> io_spec (watching I P) (modify_state f) (\<lambda>_. watching I Q) E"
  unfolding modify_state_def
  by (rule io_spec_bind [OF spec_get_on_state]) (auto intro: spec_set_on_state)

lemma spec_io_lift: "(\<And>sw. P sw \<Longrightarrow> E sw) \<Longrightarrow> io_spec P (io_lift r) (\<lambda>a sw. P sw \<and> r = Inr a) E"
  by (auto simp: io_spec_def)

lemma spec_get_keep: "io_spec (watching I P) get_state (\<lambda>_. watching I P) E"
  by (rule io_spec_weaken [OF spec_get_on_state]) (auto simp: watching_def)

lemma spec_lift_keep: "io_spec (watching I P) (io_lift r) (\<lambda>_. watching I P) (watching I P)"
  by (rule io_spec_weaken [OF spec_io_lift [of "watching I P" "watching I P"]]) simp_all

lemma spec_return_keep: "io_spec (watching I P) (io_return a) (\<lambda>_. watching I P) E"
  by (rule io_spec_return)

text \<open>
  Collaborators that keep an invariant of their world, provided that only states are saved that
  are \<open>ok\<close>. With the trivial invariant these are arbitrary collaborators.
\<close>

locale watched_scheduler =
  fixes p :: "'w sched_ports" and I :: "'w \<Rightarrow> bool" and ok :: "run_state \<Rightarrow> bool"
  assumes save_kept: "ok s \<Longrightarrow> io_keeps I (sp_save p s)"
    and event_kept: "io_keeps I (sp_append_event p rid e)"
    and acquire_kept: "io_keeps I (sp_acquire p q)"
    and release_kept: "io_keeps I (sp_release p q)"
    and call_kept: "io_keeps I (sp_call p c)"
    and group_kept: "io_keeps I (sp_group p cs)"
    and now_kept: "io_keeps I (sp_now p)"
begin

lemma spec_saving:
  assumes "\<And>s. P s \<Longrightarrow> ok s"
  shows "io_spec (watching I P) (save_state p) (\<lambda>_. watching I P) (watching I P)"
  unfolding save_state_def
proof (rule io_spec_bind [OF spec_get_on_state])
  fix s
  show "io_spec (watching I (\<lambda>t. t = s \<and> P s)) (lift_world (sp_save p s)) (\<lambda>_. watching I P) (watching I P)"
  proof (cases "P s")
    case True
    show ?thesis
      by (rule io_spec_weaken [OF spec_lift_watching [OF save_kept [OF assms [OF True]], of P]])
        (auto simp: watching_def)
  qed (simp add: io_spec_def watching_def)
qed

lemma spec_persisting:
  assumes "\<And>t. P t \<Longrightarrow> Q (with_result t (wr_work_item_id r) r)" and "\<And>t. Q t \<Longrightarrow> ok t"
  shows "io_spec (watching I P) (persist_result p r) (\<lambda>_. watching I Q) (watching I Q)"
  unfolding persist_result_def
  by (intro io_spec_bind [where R = "\<lambda>_. watching I Q"] spec_modify_on_state spec_saving spec_lift_watching
      now_kept event_kept spec_get_keep assms)

end

interpretation any: watched_scheduler p "\<lambda>_. True" "\<lambda>_. True"
  by unfold_locales (simp_all add: io_keeps_def)

lemma spec_save: "io_spec (on_state P) (save_state p) (\<lambda>_. on_state P) (on_state P)"
  by (rule any.spec_saving) simp

lemma spec_persist_result:
  "(\<And>t. P t \<Longrightarrow> Q (with_result t (wr_work_item_id r) r)) \<Longrightarrow>
     io_spec (on_state P) (persist_result p r) (\<lambda>_. on_state Q) (on_state Q)"
  by (rule any.spec_persisting) simp_all

section \<open>Pending and ready items\<close>

lemma pending_items_ids:
  assumes "keyed s"
  shows "map wi_id (pending_items s) = filter (is_pending s) (sorted_keys (st_work_items s))"
proof -
  have "map (\<lambda>k. wi_id (the (map_of (st_work_items s) k))) ks = ks"
    if "set ks \<subseteq> set (dkeys (st_work_items s))" for ks
    using that
  proof (induction ks)
    case (Cons k ks)
    then obtain item where "map_of (st_work_items s) k = Some item"
      by (cases "map_of (st_work_items s) k") (auto simp: map_of_None_iff)
    with Cons assms show ?case by (simp add: keyed_def)
  qed simp
  then show ?thesis by (simp add: pending_items_def comp_def)
qed

lemma pending_items_mem:
  assumes "keyed s" and "item \<in> set (pending_items s)"
  shows "map_of (st_work_items s) (wi_id item) = Some item" and "is_pending s (wi_id item)"
proof -
  from assms(2) obtain k where k: "k \<in> set (dkeys (st_work_items s))" "is_pending s k"
    "item = the (map_of (st_work_items s) k)"
    by (auto simp: pending_items_def)
  then have "map_of (st_work_items s) k = Some item"
    by (cases "map_of (st_work_items s) k") (auto simp: map_of_None_iff)
  with k assms(1) show "map_of (st_work_items s) (wi_id item) = Some item" and "is_pending s (wi_id item)"
    by (auto simp: keyed_def)
qed

lemma pending_items_distinct: "keyed s \<Longrightarrow> distinct (map wi_id (pending_items s))"
  by (simp add: pending_items_ids distinct_filter keyed_def)

text \<open>Results that may be recorded one after the other.\<close>

definition batch_ok :: "(string \<Rightarrow> string) \<Rightarrow> run_state \<Rightarrow> work_result list \<Rightarrow> bool" where
  "batch_ok sha s rs \<longleftrightarrow> distinct (map wr_work_item_id rs)
     \<and> (\<forall>r \<in> set rs. is_pending s (wr_work_item_id r) \<and> earned sha s (wr_work_item_id r) r)"

lemma batch_ok_Cons:
  assumes "batch_ok sha s (r # rs)"
  shows "is_pending s (wr_work_item_id r)" and "earned sha s (wr_work_item_id r) r"
    and "batch_ok sha (with_result s (wr_work_item_id r) r) rs"
proof -
  show p: "is_pending s (wr_work_item_id r)" and "earned sha s (wr_work_item_id r) r"
    using assms by (simp_all add: batch_ok_def)
  note g = with_result_grows [OF p, of r]
  show "batch_ok sha (with_result s (wr_work_item_id r) r) rs"
    using assms grows_earned [OF g] unfolding batch_ok_def
    by (auto simp: with_result_pending image_iff)
qed

lemma blocked_batch_ok:
  assumes "keyed s"
  shows "batch_ok sha s (map (\<lambda>item. failure_result item Blocked m) (newly_blocked s))"
proof -
  have "distinct (map wi_id (newly_blocked s))"
    using pending_items_distinct [OF assms] by (simp add: newly_blocked_def distinct_map_filter)
  moreover have "is_pending s (wi_id item) \<and> must_block s (wi_id item)" if "item \<in> set (newly_blocked s)" for item
    using that pending_items_mem [OF assms] by (auto simp: newly_blocked_def must_block_def)
  ultimately show ?thesis
    by (auto simp: batch_ok_def failure_result_def earned_def comp_def)
qed

lemma dispatchable_mem:
  assumes "keyed s" and "item \<in> set (dispatchable sha s)"
  shows "is_pending s (wi_id item)" and "may_run sha s (wi_id item)"
    and "map_of (st_work_items s) (wi_id item) = Some item"
  using assms pending_items_mem [OF assms(1)] by (auto simp: dispatchable_def may_run_def)

lemma dispatchable_distinct: "keyed s \<Longrightarrow> distinct (map wi_id (dispatchable sha s))"
  using pending_items_distinct by (simp add: dispatchable_def distinct_map_filter)

lemma map_mem: "x \<in> set xs \<Longrightarrow> f x \<in> set (map f xs)"
  by simp

lemma outcome_ids: "map wr_work_item_id (map2 outcome_result items outcomes) = take (length outcomes) (map wi_id items)"
proof (induction items arbitrary: outcomes)
  case Nil
  then show ?case by simp
next
  case (Cons i items)
  then show ?case
    by (cases outcomes) (auto simp: outcome_result_def failure_result_def split: outcome.splits)
qed

lemma outcomes_batch_ok:
  assumes "keyed s" and "set items \<subseteq> set (dispatchable sha s)" and "distinct (map wi_id items)"
  shows "batch_ok sha s (map2 outcome_result items outcomes)"
proof -
  let ?rs = "map2 outcome_result items outcomes"
  have ids: "map wr_work_item_id ?rs = take (length outcomes) (map wi_id items)" by (rule outcome_ids)
  have "is_pending s (wr_work_item_id r) \<and> earned sha s (wr_work_item_id r) r" if "r \<in> set ?rs" for r
  proof -
    have "wr_work_item_id r \<in> set (map wr_work_item_id ?rs)"
      using that by (rule map_mem)
    then obtain item where "item \<in> set items" "wr_work_item_id r = wi_id item"
      unfolding ids by (auto dest!: in_set_takeD)
    then show ?thesis using dispatchable_mem [OF assms(1)] assms(2) by (auto simp: earned_def)
  qed
  moreover have "distinct (map wr_work_item_id ?rs)" unfolding ids using assms(3) by (rule distinct_take)
  ultimately show ?thesis by (simp add: batch_ok_def)
qed

text \<open>The state when a writer holds the lease: its item is still pending and may still run.\<close>

definition ready_state :: "(string \<Rightarrow> string) \<Rightarrow> run_state \<Rightarrow> string \<Rightarrow> run_state \<Rightarrow> bool" where
  "ready_state sha s0 k s \<longleftrightarrow> sched_inv sha s0 s \<and> is_pending s k \<and> may_run sha s k"

lemma ready_state_status: "ready_state sha s0 k s \<Longrightarrow> ready_state sha s0 k (s\<lparr>st_status := x\<rparr>)"
proof -
  assume r: "ready_state sha s0 k s"
  have "grows s (s\<lparr>st_status := x\<rparr>)" by (simp add: grows_def same_plan_def)
  note deps = grows_deps(1) [OF this]
  have "same_plan s (s\<lparr>st_status := x\<rparr>)" by (simp add: same_plan_def)
  note same = same_plan_simps [OF this]
  have "may_run sha (s\<lparr>st_status := x\<rparr>) k"
    using r deps unfolding ready_state_def may_run_def same by blast
  then show ?thesis using r sched_inv_status by (simp add: ready_state_def is_pending_def)
qed

lemma spec_if: "io_spec P a Q E \<Longrightarrow> io_spec P b Q E \<Longrightarrow> io_spec P (if c then a else b) Q E"
  by simp

lemma spec_cases:
  "(c \<Longrightarrow> io_spec P a Q E) \<Longrightarrow> (\<not> c \<Longrightarrow> io_spec P b Q E) \<Longrightarrow> io_spec P (if c then a else b) Q E"
  by simp

lemma spec_error: "io_spec P m Q E \<Longrightarrow> (\<And>w. E w \<Longrightarrow> E' w) \<Longrightarrow> io_spec P m Q E'"
  by (rule io_spec_weaken)

section \<open>The steps keep the invariant\<close>

locale watched_run = watched_scheduler p I ok
  for p :: "'w sched_ports" and I :: "'w \<Rightarrow> bool" and ok :: "run_state \<Rightarrow> bool" +
  fixes s0 :: run_state
  assumes invariant_ok: "sched_inv (sp_sha p) s0 s \<Longrightarrow> ok s"
begin

lemma spec_persist_all:
  "io_spec (watching I (\<lambda>s. sched_inv (sp_sha p) s0 s \<and> batch_ok (sp_sha p) s rs)) (persist_all p rs)
     (\<lambda>_. watching I (sched_inv (sp_sha p) s0)) (watching I (sched_inv (sp_sha p) s0))"
proof (induction rs)
  case Nil
  show ?case unfolding persist_all.simps by (rule io_spec_return) (simp add: watching_def)
next
  case (Cons r rs)
  have "io_spec (watching I (\<lambda>s. sched_inv (sp_sha p) s0 s \<and> batch_ok (sp_sha p) s (r # rs))) (persist_result p r)
     (\<lambda>_. watching I (\<lambda>s. sched_inv (sp_sha p) s0 s \<and> batch_ok (sp_sha p) s rs))
     (watching I (\<lambda>s. sched_inv (sp_sha p) s0 s \<and> batch_ok (sp_sha p) s rs))"
    by (rule spec_persisting) (blast intro: sched_inv_add batch_ok_Cons invariant_ok)+
  then have "io_spec (watching I (\<lambda>s. sched_inv (sp_sha p) s0 s \<and> batch_ok (sp_sha p) s (r # rs))) (persist_result p r)
     (\<lambda>_. watching I (\<lambda>s. sched_inv (sp_sha p) s0 s \<and> batch_ok (sp_sha p) s rs)) (watching I (sched_inv (sp_sha p) s0))"
    by (rule io_spec_weaken) (simp_all add: watching_def)
  then show ?case using Cons.IH by (simp add: io_spec_bind)
qed

lemma spec_dispatch:
  "io_spec (watching I P) (dispatch p item)
     (\<lambda>r sw. watching I P sw \<and> wr_work_item_id r = wi_id item) (watching I P)"
  unfolding dispatch_def
proof (rule io_spec_bind [where R = "\<lambda>_. watching I P"])
  show "io_spec (watching I P) get_state (\<lambda>_. watching I P) (watching I P)"
    by (rule io_spec_weaken [OF spec_get_on_state]) (auto simp: watching_def)
  fix s
  show "io_spec (watching I P) (io_bind (io_lift (dispatch_call s item)) (\<lambda>c.
      io_bind (lift_world (sp_call p c)) (\<lambda>result. io_return (result\<lparr>wr_work_item_id := wi_id item\<rparr>))))
      (\<lambda>r sw. watching I P sw \<and> wr_work_item_id r = wi_id item) (watching I P)"
    by (intro io_spec_bind [where R = "\<lambda>_. watching I P"] spec_lift_watching call_kept io_spec_return)
      (auto simp: io_spec_def)
qed

lemma spec_run_one:
  "io_spec (watching I P) (run_one p item)
     (\<lambda>r sw. watching I P sw \<and> wr_work_item_id r = wi_id item) (watching I P)"
proof (rule io_specI)
  fix w r w' assume w: "watching I P w" and r: "run_one p item w = (Inr r, w')"
  obtain x v where d: "dispatch p item w = (x, v)" by (cases "dispatch p item w")
  show "watching I P w' \<and> wr_work_item_id r = wi_id item"
  proof (cases x)
    case (Inl e)
    then show ?thesis
      using r d io_spec_Inl [OF spec_dispatch w, of item]
      by (auto simp: run_one_def failure_result_def split: if_splits)
  next
    case (Inr r')
    then show ?thesis
      using r d io_spec_Inr [OF spec_dispatch w, of item] by (auto simp: run_one_def)
  qed
next
  fix w e w' assume w: "watching I P w" and r: "run_one p item w = (Inl e, w')"
  then have "dispatch p item w = (Inl e, w')"
    by (auto simp: run_one_def split: if_splits prod.splits sum.splits)
  with w show "watching I P w'" by (rule io_spec_Inl [OF spec_dispatch])
qed

lemma spec_run_read_batch:
  "io_spec (watching I P) (run_read_batch p items)
     (\<lambda>rs sw. watching I P sw \<and> (\<exists>outcomes. rs = map2 outcome_result items outcomes)) (watching I P)"
  unfolding run_read_batch_def
proof (rule io_spec_bind [where R = "\<lambda>_. watching I P"])
  show "io_spec (watching I P) get_state (\<lambda>_. watching I P) (watching I P)"
    by (rule io_spec_weaken [OF spec_get_on_state]) (auto simp: watching_def)
  fix s
  show "io_spec (watching I P) (io_bind (lift_world (sp_group p (map (dispatch_call s) items)))
      (\<lambda>outcomes. io_return (map2 outcome_result items outcomes)))
     (\<lambda>rs sw. watching I P sw \<and> (\<exists>outcomes. rs = map2 outcome_result items outcomes)) (watching I P)"
    by (intro io_spec_bind [where R = "\<lambda>_. watching I P"] spec_lift_watching group_kept io_spec_return) auto
qed

lemma spec_writer_body:
  assumes "ready_state (sp_sha p) s0 (wi_id item) = R"
  shows "io_spec (watching I R)
    (io_bind get_state (\<lambda>s.
     io_bind (io_lift (require_dispatchable (sp_sha p) s (wi_id item))) (\<lambda>_.
     io_bind (modify_state (\<lambda>s. s\<lparr>st_status := RunRunning\<rparr>)) (\<lambda>_.
     io_bind (run_one p item) (\<lambda>result. persist_result p result)))))
    (\<lambda>_. watching I (sched_inv (sp_sha p) s0)) (watching I (sched_inv (sp_sha p) s0))"
proof -
  have weak: "watching I R w \<Longrightarrow> watching I (sched_inv (sp_sha p) s0) w" for w :: "run_state \<times> 'w"
    unfolding assms [symmetric] watching_def ready_state_def by blast
  have persist: "io_spec (\<lambda>sw. watching I R sw \<and> wr_work_item_id r = wi_id item) (persist_result p r)
     (\<lambda>_. watching I (sched_inv (sp_sha p) s0)) (watching I (sched_inv (sp_sha p) s0))" for r
  proof (rule io_spec_weaken [OF spec_persisting
        [of "\<lambda>s. ready_state (sp_sha p) s0 (wi_id item) s \<and> wr_work_item_id r = wi_id item"]])
    fix s assume "ready_state (sp_sha p) s0 (wi_id item) s \<and> wr_work_item_id r = wi_id item"
    then show "sched_inv (sp_sha p) s0 (with_result s (wr_work_item_id r) r)"
      by (intro sched_inv_add) (auto simp: ready_state_def earned_def)
  qed (auto simp: watching_def assms intro: invariant_ok)
  have modify: "io_spec (watching I R) (modify_state (\<lambda>s. s\<lparr>st_status := RunRunning\<rparr>))
     (\<lambda>_. watching I R) (watching I (sched_inv (sp_sha p) s0))"
    by (rule spec_modify_on_state) (use assms ready_state_status in blast)
  show ?thesis
    by (intro io_spec_bind [where R = "\<lambda>_. watching I R"] spec_get_keep modify
        spec_error [OF spec_lift_keep] io_spec_bind [OF spec_error [OF spec_run_one [of R]] persist])
      (auto intro: weak)
qed

lemma spec_run_writer:
  "io_spec (watching I (ready_state (sp_sha p) s0 (wi_id item))) (run_writer p item)
     (\<lambda>_. watching I (sched_inv (sp_sha p) s0)) (watching I (sched_inv (sp_sha p) s0))"
proof -
  let ?R = "ready_state (sp_sha p) s0 (wi_id item)"
  have weak: "watching I ?R w \<Longrightarrow> watching I (sched_inv (sp_sha p) s0) w" for w :: "run_state \<times> 'w"
    by (simp add: watching_def ready_state_def)
  have set: "io_spec (watching I (\<lambda>t. t = s \<and> ?R s)) (set_state (s\<lparr>st_status := x\<rparr>)) (\<lambda>_. watching I ?R)
     (watching I ?R)" for s x
    by (rule spec_set_on_state) (blast intro: ready_state_status)
  have first: "io_spec (watching I (\<lambda>t. t = s \<and> ?R s))
     (if pre_writer_status (st_status s)
      then io_bind (set_state (s\<lparr>st_status := RunPlanned\<rparr>)) (\<lambda>_. save_state p) else io_return ())
     (\<lambda>_. watching I ?R) (watching I ?R)" for s
    by (intro spec_if io_spec_bind [OF set] spec_saving io_spec_return)
      (auto simp: watching_def ready_state_def intro: invariant_ok)
  have release: "io_spec (watching I (sched_inv (sp_sha p) s0)) (lift_world (sp_release p path))
     (\<lambda>_. watching I (sched_inv (sp_sha p) s0)) (watching I (sched_inv (sp_sha p) s0))" for path
    by (rule spec_lift_watching [OF release_kept])
  show ?thesis
    unfolding run_writer_def
    by (rule io_spec_bind [OF spec_get_on_state], rule io_spec_bind [OF spec_error [OF first]],
        erule weak, rule io_spec_bind [OF spec_error [OF spec_lift_watching [OF acquire_kept]]], erule weak)
      (rule io_spec_finally [OF spec_writer_body [OF refl] release release])
qed

lemma spec_run_readers:
  "io_spec (watching I (\<lambda>s. sched_inv (sp_sha p) s0 s \<and> ready = dispatchable (sp_sha p) s \<and> keyed s))
     (run_readers p ready) (\<lambda>_. watching I (sched_inv (sp_sha p) s0)) (watching I (sched_inv (sp_sha p) s0))"
proof -
  let ?b = "take (sp_max_read_concurrency p) ready"
  let ?R = "\<lambda>s. sched_inv (sp_sha p) s0 s \<and> (\<forall>outcomes. batch_ok (sp_sha p) s (map2 outcome_result ?b outcomes))"
  have ok: "batch_ok (sp_sha p) s (map2 outcome_result ?b outcomes)"
    if "ready = dispatchable (sp_sha p) s" "keyed s" for s outcomes
    using that dispatchable_distinct [OF that(2), of "sp_sha p"]
    by (intro outcomes_batch_ok) (auto simp: take_map [symmetric] dest: in_set_takeD)
  have status: "batch_ok (sp_sha p) (s\<lparr>st_status := x\<rparr>) rs" if "batch_ok (sp_sha p) s rs" for s x rs
  proof -
    have "grows s (s\<lparr>st_status := x\<rparr>)" by (simp add: grows_def same_plan_def)
    note earned = grows_earned [OF this, of "sp_sha p"]
    then show ?thesis using that by (auto simp: batch_ok_def is_pending_def)
  qed
  have first: "io_spec (watching I (\<lambda>s. sched_inv (sp_sha p) s0 s \<and> ready = dispatchable (sp_sha p) s \<and> keyed s))
     (modify_state (\<lambda>s. s\<lparr>st_status := RunRunning\<rparr>)) (\<lambda>_. watching I ?R) (watching I (sched_inv (sp_sha p) s0))"
    by (rule spec_modify_on_state) (metis sched_inv_status status ok)
  have last: "io_spec (\<lambda>sw. watching I ?R sw \<and> (\<exists>outcomes. rs = map2 outcome_result ?b outcomes))
     (persist_all p rs) (\<lambda>_. watching I (sched_inv (sp_sha p) s0)) (watching I (sched_inv (sp_sha p) s0))" for rs
    by (rule io_spec_weaken [OF spec_persist_all]) (auto simp: watching_def)
  show ?thesis
    unfolding run_readers_def
    by (rule io_spec_bind [OF first], rule io_spec_bind [OF spec_error [OF spec_run_read_batch] last])
      (simp add: watching_def)
qed

lemma spec_run_step:
  assumes "keyed s0"
  shows "io_spec (watching I (sched_inv (sp_sha p) s0)) (run_step p)
     (\<lambda>b. watching I (\<lambda>s. sched_inv (sp_sha p) s0 s \<and> (\<not> b \<longrightarrow> dispatchable (sp_sha p) s = [])))
     (watching I (sched_inv (sp_sha p) s0))"
proof -
  let ?I = "sched_inv (sp_sha p) s0"
  let ?rs = "\<lambda>s. map (\<lambda>item. failure_result item Blocked ''A dependency did not succeed'') (newly_blocked s)"
  have block: "io_spec (watching I (\<lambda>t. t = s \<and> ?I s)) (persist_all p (?rs s)) (\<lambda>_. watching I ?I) (watching I ?I)" for s
    by (rule io_spec_weaken [OF spec_persist_all])
      (auto simp: watching_def dest!: sched_inv_keyed [OF _ assms] intro: blocked_batch_ok)
  have go: "io_spec P (io_return True) (\<lambda>b. watching I (\<lambda>s. ?I s \<and> (\<not> b \<longrightarrow> dispatchable (sp_sha p) s = []))) E"
    if "\<And>sw. P sw \<Longrightarrow> watching I ?I sw" for P :: "run_state \<times> 'w \<Rightarrow> bool" and E
    by (rule io_spec_return) (use that in \<open>auto simp: watching_def\<close>)
  have run: "io_spec (watching I (\<lambda>t. t = s \<and> ?I s))
     (let ready = dispatchable (sp_sha p) s
       in if ready = [] then io_return False
          else (case filter is_writer ready of
                  item # _ \<Rightarrow> io_bind (run_writer p item) (\<lambda>_. io_return True)
                | [] \<Rightarrow> io_bind (run_readers p ready) (\<lambda>_. io_return True)))
     (\<lambda>b. watching I (\<lambda>s. ?I s \<and> (\<not> b \<longrightarrow> dispatchable (sp_sha p) s = []))) (watching I ?I)" for s
  proof (cases "filter is_writer (dispatchable (sp_sha p) s)")
    case Nil
    have "io_spec (watching I (\<lambda>t. t = s \<and> ?I s)) (run_readers p (dispatchable (sp_sha p) s))
       (\<lambda>_. watching I ?I) (watching I ?I)"
      by (rule io_spec_weaken [OF spec_run_readers]) (auto simp: watching_def dest: sched_inv_keyed [OF _ assms])
    from io_spec_bind [OF this go] show ?thesis unfolding Let_def Nil
      by (auto intro!: spec_if io_spec_return simp: watching_def)
  next
    case (Cons item rest)
    then have mem: "item \<in> set (dispatchable (sp_sha p) s)" by (metis filter_eq_ConsD in_set_conv_decomp)
    have "io_spec (watching I (\<lambda>t. t = s \<and> ?I s)) (run_writer p item) (\<lambda>_. watching I ?I) (watching I ?I)"
    proof (rule io_spec_weaken [OF spec_run_writer])
      fix w :: "run_state \<times> 'w" assume "watching I (\<lambda>t. t = s \<and> ?I s) w"
      then have "fst w = s" "I (snd w)" and i: "?I s" by (auto simp: watching_def)
      then show "watching I (ready_state (sp_sha p) s0 (wi_id item)) w"
        using dispatchable_mem [OF sched_inv_keyed [OF i assms] mem] by (simp add: watching_def ready_state_def)
    qed auto
    from io_spec_bind [OF this go] show ?thesis unfolding Let_def Cons
      by (auto intro!: spec_if io_spec_return simp: watching_def)
  qed
  show ?thesis
    unfolding run_step_def
    by (rule io_spec_bind [OF spec_get_on_state], rule io_spec_bind [OF block],
        rule io_spec_bind [OF spec_get_on_state run])
qed

lemma spec_run_loop:
  assumes "keyed s0"
  shows "io_spec (watching I (sched_inv (sp_sha p) s0)) (run_loop n p)
     (\<lambda>_. watching I (sched_inv (sp_sha p) s0)) (watching I (sched_inv (sp_sha p) s0))"
proof (induction n)
  case 0
  show ?case unfolding run_loop.simps by (rule io_spec_return)
next
  case (Suc n)
  have "io_spec (watching I (\<lambda>s. sched_inv (sp_sha p) s0 s \<and> (\<not> b \<longrightarrow> dispatchable (sp_sha p) s = [])))
     (if b then run_loop n p else io_return ())
     (\<lambda>_. watching I (sched_inv (sp_sha p) s0)) (watching I (sched_inv (sp_sha p) s0))" for b
    by (rule io_spec_weaken [OF spec_if [OF Suc io_spec_return]]) (auto simp: watching_def)
  then show ?case unfolding run_loop.simps by (intro io_spec_bind [OF spec_run_step [OF assms]])
qed

text \<open>What the closing status says.\<close>

lemma spec_finish_run:
  "io_spec (watching I (sched_inv (sp_sha p) s0)) (finish_run p)
     (\<lambda>_. watching I (\<lambda>s. sched_inv (sp_sha p) s0 s \<and> final_status s = Inr (st_status s)))
     (watching I (sched_inv (sp_sha p) s0))"
proof -
  let ?I = "sched_inv (sp_sha p) s0"
  let ?Q = "\<lambda>s. ?I s \<and> final_status s = Inr (st_status s)"
  have fs: "final_status (s\<lparr>st_status := x\<rparr>) = final_status s" for s x
  proof -
    have "missing_approval (s\<lparr>st_status := x\<rparr>) items = missing_approval s items" for items
      by (induction items) (auto split: option.splits)
    then show ?thesis unfolding final_status_def Let_def by simp
  qed
  have lift: "io_spec (watching I (\<lambda>t. t = s \<and> ?I s)) (io_lift (final_status s))
     (\<lambda>x sw. watching I (\<lambda>t. t = s \<and> ?I s) sw \<and> final_status s = Inr x) (watching I ?I)" for s
    by (rule spec_io_lift) (auto simp: watching_def)
  have set: "io_spec (\<lambda>sw. watching I (\<lambda>t. t = s \<and> ?I s) sw \<and> final_status s = Inr x)
     (set_state (s\<lparr>st_status := x\<rparr>)) (\<lambda>_. watching I ?Q) (watching I ?I)" for s x
    by (rule io_specI) (auto simp: set_state_def watching_def fs sched_inv_status)
  show ?thesis
    unfolding finish_run_def
  proof (rule io_spec_bind [OF spec_get_on_state], rule io_spec_bind [OF lift], rule spec_cases)
    fix s x
    show "io_spec (\<lambda>sw. watching I (\<lambda>t. t = s \<and> ?I s) sw \<and> final_status s = Inr x)
       (io_bind (set_state (s\<lparr>st_status := x\<rparr>)) (\<lambda>_. save_state p)) (\<lambda>_. watching I ?Q) (watching I ?I)"
      by (rule io_spec_bind [OF set], rule spec_error [OF spec_saving]) (auto simp: watching_def intro: invariant_ok)
  next
    fix s :: run_state and x assume "\<not> st_status s \<noteq> x"
    then show "io_spec (\<lambda>sw. watching I (\<lambda>t. t = s \<and> ?I s) sw \<and> final_status s = Inr x)
       (io_return ()) (\<lambda>_. watching I ?Q) (watching I ?I)"
      by (intro io_spec_return) (auto simp: watching_def)
  qed
qed

lemma spec_run_ready:
  assumes "keyed s0"
  shows "io_spec (watching I (\<lambda>s. s = s0)) (run_ready p)
     (\<lambda>_. watching I (\<lambda>s. sched_inv (sp_sha p) s0 s \<and> final_status s = Inr (st_status s)))
     (watching I (sched_inv (sp_sha p) s0))"
proof -
  have start: "io_spec (watching I (\<lambda>s. s = s0)) get_state
     (\<lambda>_. watching I (sched_inv (sp_sha p) s0)) (watching I (sched_inv (sp_sha p) s0))"
    by (rule io_spec_weaken [OF spec_get_on_state])
      (auto simp: watching_def intro: sched_inv_refl [OF assms])
  show ?thesis
    unfolding run_ready_def
    by (intro io_spec_bind [OF start] io_spec_bind [OF spec_run_loop [OF assms] spec_finish_run])
qed
end

interpretation any_run: watched_run p "\<lambda>_. True" "\<lambda>_. True" s0
  by unfold_locales simp

lemmas spec_run_one = any_run.spec_run_one
lemmas spec_run_read_batch = any_run.spec_run_read_batch
lemmas spec_persist_all = any_run.spec_persist_all
lemmas spec_run_step = any_run.spec_run_step
lemmas spec_run_loop = any_run.spec_run_loop
lemmas spec_run_ready = any_run.spec_run_ready

section \<open>The bound of the loop is enough\<close>

text \<open>
  What the scheduler relies on from the client and the task group: a turn that returns is over,
  and a batch ends with one outcome per child.
\<close>

locale client_contract =
  fixes p :: "'w sched_ports"
  assumes call_terminal:
      "sp_call p c w = (Inr r, w') \<Longrightarrow> \<not> resumable_status (wr_status r)"
    and group_complete: "sp_group p cs w = (Inr ocs, w') \<Longrightarrow> length ocs = length cs"
    and group_terminal:
      "sp_group p cs w = (Inr ocs, w') \<Longrightarrow> Returned r \<in> set ocs \<Longrightarrow> \<not> resumable_status (wr_status r)"
    and batch_size: "0 < sp_max_read_concurrency p"

definition terminal :: "work_result \<Rightarrow> bool" where
  "terminal r \<longleftrightarrow> \<not> resumable_status (wr_status r)"

lemma terminal_failure [simp]: "terminal (failure_result item Failed m)" "terminal (failure_result item Blocked m)"
  by (simp_all add: terminal_def failure_result_def resumable_status_def)

abbreviation settled :: "string \<Rightarrow> run_state \<times> 'w \<Rightarrow> bool" where
  "settled k \<equiv> on_state (\<lambda>s. finished s k)"

lemma persist_finishes:
  assumes "terminal r"
  shows "io_spec (on_state (\<lambda>s. finished s k \<or> k = wr_work_item_id r)) (persist_result p r)
     (\<lambda>_. settled k) (\<lambda>_. True)"
  by (rule spec_error [OF spec_persist_result])
    (use assms in \<open>auto simp: finished_def is_pending_def terminal_def\<close>)

lemma persist_all_finishes:
  assumes "\<forall>r \<in> set rs. terminal r"
  shows "io_spec (on_state (\<lambda>s. finished s k \<or> k \<in> wr_work_item_id ` set rs)) (persist_all p rs)
     (\<lambda>_. settled k) (\<lambda>_. True)"
  using assms
proof (induction rs)
  case Nil
  show ?case unfolding persist_all.simps by (rule io_spec_return) (simp add: on_state_def)
next
  case (Cons r rs)
  have "io_spec (on_state (\<lambda>s. finished s k \<or> k \<in> wr_work_item_id ` set (r # rs))) (persist_result p r)
     (\<lambda>_. on_state (\<lambda>s. finished s k \<or> k \<in> wr_work_item_id ` set rs)) (\<lambda>_. True)"
    by (rule spec_error [OF spec_persist_result])
      (use Cons.prems in \<open>auto simp: finished_def is_pending_def terminal_def\<close>)
  then show ?case using Cons unfolding persist_all.simps by (intro io_spec_bind) auto
qed

text \<open>The number of items left decreases with every round.\<close>

definition left_over :: "run_state \<Rightarrow> nat" where
  "left_over s = length (pending_items s)"

lemma filter_shorter:
  assumes "\<And>x. P x \<Longrightarrow> Q x" and "k \<in> set xs" and "Q k" and "\<not> P k"
  shows "length (filter P xs) < length (filter Q xs)"
proof -
  have "filter P xs = filter P (filter Q xs)" using assms(1) by (auto intro: filter_cong)
  moreover have "length (filter P (filter Q xs)) < length (filter Q xs)"
    using assms(2-4) by (intro length_filter_less [of k]) simp_all
  ultimately show ?thesis by simp
qed

lemma left_over_less:
  assumes "sched_inv sha s1 s" and "map_of (st_work_items s1) k = Some item"
    and "is_pending s1 k" and "finished s k"
  shows "left_over s < left_over s1"
proof -
  have "is_pending s j \<Longrightarrow> is_pending s1 j" for j
    using assms(1) by (auto simp: sched_inv_def finished_def is_pending_def)
  moreover have "st_work_items s = st_work_items s1"
    using assms(1) unfolding sched_inv_def by (blast dest: same_plan_simps(1))
  ultimately show ?thesis
    unfolding left_over_def pending_items_def
    using assms(3,4) map_of_Some_key [OF assms(2)] by (simp add: finished_def filter_shorter)
qed

lemma left_over_0: "left_over s = 0 \<Longrightarrow> dispatchable sha s = []"
  by (simp add: left_over_def dispatchable_def)

lemma left_over_bound: "left_over s \<le> length (st_work_items s)"
  unfolding left_over_def pending_items_def length_map
  using length_filter_le [of "is_pending s" "sorted_keys (st_work_items s)"] by simp

lemma io_spec_conj:
  "io_spec P m Q E \<Longrightarrow> io_spec P m Q' E' \<Longrightarrow> io_spec P m (\<lambda>a w. Q a w \<and> Q' a w) (\<lambda>w. E w \<and> E' w)"
  by (simp add: io_spec_def)

lemma lift_world_Inr_iff:
  "lift_world m sw = (Inr a, sw') \<longleftrightarrow> (\<exists>v. m (snd sw) = (Inr a, v) \<and> sw' = (fst sw, v))"
  by (cases sw) (auto simp: lift_world_def split: prod.splits)

lemma io_spec_any: "io_spec P m (\<lambda>_ _. True) (\<lambda>_. True)"
  by (simp add: io_spec_def)

context client_contract
begin

lemma dispatch_terminal: "io_spec (\<lambda>_. True) (dispatch p item)
     (\<lambda>r _. wr_work_item_id r = wi_id item \<and> terminal r) (\<lambda>_. True)"
  unfolding dispatch_def
  by (intro io_spec_bind [where R = "\<lambda>_ _. True"] io_spec_bind [where R = "\<lambda>r _. terminal r"] io_spec_return)
    (auto simp: io_spec_def lift_world_def terminal_def call_terminal split: prod.splits)

lemma run_one_terminal: "io_spec (\<lambda>_. True) (run_one p item)
     (\<lambda>r _. wr_work_item_id r = wi_id item \<and> terminal r) (\<lambda>_. True)"
proof (rule io_specI)
  fix w r w' assume r: "run_one p item w = (Inr r, w')"
  obtain x v where d: "dispatch p item w = (x, v)" by (cases "dispatch p item w")
  show "wr_work_item_id r = wi_id item \<and> terminal r"
  proof (cases x)
    case (Inl e)
    then show ?thesis using r d by (auto simp: run_one_def failure_result_def split: if_splits)
        (simp_all add: terminal_def resumable_status_def)
  next
    case (Inr r')
    then show ?thesis using r d io_spec_Inr [OF dispatch_terminal TrueI] by (auto simp: run_one_def)
  qed
qed simp

lemma run_writer_finishes: "io_spec (\<lambda>_. True) (run_writer p item) (\<lambda>_. settled (wi_id item)) (\<lambda>_. True)"
proof -
  have persist: "io_spec (\<lambda>_. wr_work_item_id r = wi_id item \<and> terminal r) (persist_result p r)
     (\<lambda>_. settled (wi_id item)) (\<lambda>_. True)" for r
    by (rule io_spec_pre, rule io_spec_weaken [OF persist_finishes]) (auto simp: on_state_def)
  have release: "io_spec (settled k) (lift_world (sp_release p path)) (\<lambda>_. settled k) (\<lambda>_. True)" for k path
    by (rule spec_error [OF spec_lift_on_state]) simp
  have body: "io_spec P
    (io_bind get_state (\<lambda>s.
     io_bind (io_lift (require_dispatchable (sp_sha p) s (wi_id item))) (\<lambda>_.
     io_bind (modify_state (\<lambda>s. s\<lparr>st_status := RunRunning\<rparr>)) (\<lambda>_.
     io_bind (run_one p item) (\<lambda>result. persist_result p result)))))
    (\<lambda>_. settled (wi_id item)) (\<lambda>_. True)" for P
    by (intro io_spec_bind [OF io_spec_any] io_spec_bind [OF run_one_terminal persist])
  show ?thesis
    unfolding run_writer_def
    by (intro io_spec_bind [OF io_spec_any] io_spec_finally [OF body release io_spec_any])
qed

lemma run_readers_finishes:
  "io_spec (\<lambda>_. True) (run_readers p (item # ready)) (\<lambda>_. settled (wi_id item)) (\<lambda>_. True)"
proof -
  let ?b = "take (sp_max_read_concurrency p) (item # ready)"
  let ?Q = "\<lambda>rs. (\<forall>r \<in> set rs. terminal r) \<and> wi_id item \<in> wr_work_item_id ` set rs"
  obtain b where b: "?b = item # b" using batch_size by (cases "sp_max_read_concurrency p") auto
  have good: "?Q (map2 outcome_result ?b ocs)"
    if g: "sp_group p cs w = (Inr ocs, w')" "length cs = length ?b" for cs w ocs w'
  proof -
    have "terminal r" if r: "r \<in> set (map2 outcome_result ?b ocs)" for r
    proof -
      obtain i oc where "oc \<in> set ocs" and "r = outcome_result i oc"
        using r by (auto dest: set_zip_leftD set_zip_rightD)
      moreover have "terminal (outcome_result i oc)" if "oc \<in> set ocs"
        using that group_terminal [OF g(1)]
        by (cases oc rule: outcome.exhaust) (auto simp: outcome_result_def terminal_def failure_result_def resumable_status_def)
      ultimately show ?thesis by simp
    qed
    moreover obtain oc rest where "ocs = oc # rest"
      using group_complete [OF g(1)] g(2) unfolding b by (cases ocs) auto
    ultimately show ?thesis unfolding b
      by (auto simp: outcome_result_def failure_result_def split: outcome.splits)
  qed
  have batch: "io_spec (\<lambda>_. True) (run_read_batch p ?b) (\<lambda>rs _. ?Q rs) (\<lambda>_. True)"
  proof (rule io_specI)
    fix w rs w' assume "run_read_batch p ?b w = (Inr rs, w')"
    then obtain ocs s v v' where "sp_group p (map (dispatch_call s) ?b) v = (Inr ocs, v')"
      and "rs = map2 outcome_result ?b ocs"
      unfolding run_read_batch_def by (auto simp: io_bind_Inr_iff lift_world_Inr_iff)
    then show "?Q rs" using good by simp
  qed simp
  have persist: "io_spec (\<lambda>_. ?Q rs) (persist_all p rs) (\<lambda>_. settled (wi_id item)) (\<lambda>_. True)" for rs
    by (rule io_spec_pre, rule io_spec_weaken [OF persist_all_finishes]) (auto simp: on_state_def)
  show ?thesis
    unfolding run_readers_def by (intro io_spec_bind [OF io_spec_any] io_spec_bind [OF batch persist])
qed

lemma run_step_progress:
  assumes k: "keyed s1"
  shows "io_spec (on_state (\<lambda>s. s = s1)) (run_step p)
     (\<lambda>b. on_state (\<lambda>s. b \<longrightarrow> left_over s < left_over s1)) (\<lambda>_. True)"
proof -
  let ?I = "sched_inv (sp_sha p) s1"
  let ?Q = "\<lambda>b. on_state (\<lambda>s. b \<longrightarrow> (\<exists>k item. map_of (st_work_items s1) k = Some item \<and> is_pending s1 k \<and> finished s k))"
  have go: "io_spec (settled (wi_id item)) (io_return b) ?Q (\<lambda>_. True)"
    if "item \<in> set (dispatchable (sp_sha p) s)" "?I s" for item b s
  proof (rule io_spec_return)
    note mem = dispatchable_mem [OF sched_inv_keyed [OF that(2) k] that(1)]
    have "is_pending s1 (wi_id item)"
      using mem(1) that(2) by (auto simp: sched_inv_def finished_def is_pending_def)
    moreover have "map_of (st_work_items s1) (wi_id item) = Some item"
      using mem(3) that(2) by (metis same_plan_simps(1) sched_inv_def)
    ultimately show "settled (wi_id item) w \<Longrightarrow> ?Q b w" for w
      unfolding on_state_def by blast
  qed
  have run: "io_spec (on_state (\<lambda>t. t = s \<and> ?I s))
     (let ready = dispatchable (sp_sha p) s
       in if ready = [] then io_return False
          else (case filter is_writer ready of
                  item # _ \<Rightarrow> io_bind (run_writer p item) (\<lambda>_. io_return True)
                | [] \<Rightarrow> io_bind (run_readers p ready) (\<lambda>_. io_return True))) ?Q (\<lambda>_. True)" for s
  proof (rule io_spec_pre)
    fix v :: "run_state \<times> 'w" assume "on_state (\<lambda>t. t = s \<and> ?I s) v"
    then have I: "?I s" by (simp add: on_state_def)
    show "io_spec (\<lambda>w. w = v) (let ready = dispatchable (sp_sha p) s
       in if ready = [] then io_return False
          else (case filter is_writer ready of
                  item # _ \<Rightarrow> io_bind (run_writer p item) (\<lambda>_. io_return True)
                | [] \<Rightarrow> io_bind (run_readers p ready) (\<lambda>_. io_return True))) ?Q (\<lambda>_. True)"
    proof (cases "dispatchable (sp_sha p) s")
      case Nil
      show ?thesis unfolding Let_def Nil by (auto intro: io_spec_return simp: on_state_def)
    next
      case (Cons first rest)
      then have first: "first \<in> set (dispatchable (sp_sha p) s)" by simp
      show ?thesis
      proof (cases "filter is_writer (dispatchable (sp_sha p) s)")
        case Nil
        have "io_spec (\<lambda>w. w = v) (io_bind (run_readers p (first # rest)) (\<lambda>_. io_return True)) ?Q (\<lambda>_. True)"
          by (intro io_spec_bind [OF io_spec_weaken [OF run_readers_finishes] go [OF first I]]) auto
        then show ?thesis using Nil unfolding Let_def Cons by simp
      next
        case (Cons item others)
        then have item: "item \<in> set (dispatchable (sp_sha p) s)"
          by (metis filter_eq_ConsD in_set_conv_decomp)
        have "io_spec (\<lambda>w. w = v) (io_bind (run_writer p item) (\<lambda>_. io_return True)) ?Q (\<lambda>_. True)"
          by (intro io_spec_bind [OF io_spec_weaken [OF run_writer_finishes] go [OF item I]]) auto
        then show ?thesis using \<open>dispatchable (sp_sha p) s = first # rest\<close> unfolding Let_def Cons by simp
      qed
    qed
  qed
  have block: "io_spec (on_state (\<lambda>t. t = s \<and> s = s1))
     (persist_all p (map (\<lambda>item. failure_result item Blocked ''A dependency did not succeed'') (newly_blocked s)))
     (\<lambda>_. on_state ?I) (\<lambda>_. True)" for s
    by (rule io_spec_weaken [OF spec_persist_all])
      (use k in \<open>auto simp: on_state_def intro: blocked_batch_ok sched_inv_refl\<close>)
  have Q: "io_spec (on_state (\<lambda>s. s = s1)) (run_step p) ?Q (\<lambda>_. True)"
    unfolding run_step_def
    by (rule io_spec_bind [OF spec_get_on_state], rule io_spec_bind [OF block],
        rule io_spec_bind [OF spec_get_on_state run])
  have I: "io_spec (on_state (\<lambda>s. s = s1)) (run_step p) (\<lambda>_. on_state ?I) (\<lambda>_. True)"
    by (rule io_spec_weaken [OF spec_run_step [OF k]]) (use k in \<open>auto simp: on_state_def intro: sched_inv_refl\<close>)
  show ?thesis
    by (rule io_spec_weaken [OF io_spec_conj [OF Q I]]) (auto simp: on_state_def intro: left_over_less)
qed

lemma run_loop_exhausts:
  assumes "keyed s1" and "left_over s1 \<le> n"
  shows "io_spec (on_state (\<lambda>s. s = s1)) (run_loop n p)
     (\<lambda>_. on_state (\<lambda>s. dispatchable (sp_sha p) s = [])) (\<lambda>_. True)"
  using assms
proof (induction n arbitrary: s1)
  case 0
  then show ?case unfolding run_loop.simps
    by (intro io_spec_return) (simp add: on_state_def left_over_0)
next
  case (Suc n)
  let ?I = "sched_inv (sp_sha p) s1"
  have step: "io_spec (on_state (\<lambda>s. s = s1)) (run_step p)
     (\<lambda>b. on_state (\<lambda>s. ?I s \<and> (\<not> b \<longrightarrow> dispatchable (sp_sha p) s = []) \<and> (b \<longrightarrow> left_over s < left_over s1)))
     (\<lambda>_. True)"
  proof -
    have "io_spec (on_state (\<lambda>s. s = s1)) (run_step p)
       (\<lambda>b. on_state (\<lambda>s. ?I s \<and> (\<not> b \<longrightarrow> dispatchable (sp_sha p) s = []))) (\<lambda>_. True)"
      by (rule io_spec_weaken [OF spec_run_step [OF Suc.prems(1)]])
        (use Suc.prems(1) in \<open>auto simp: on_state_def intro: sched_inv_refl\<close>)
    from io_spec_conj [OF run_step_progress [OF Suc.prems(1)] this] show ?thesis
      by (rule io_spec_weaken) (auto simp: on_state_def)
  qed
  have rest: "io_spec (on_state (\<lambda>s. ?I s \<and> (\<not> b \<longrightarrow> dispatchable (sp_sha p) s = []) \<and> (b \<longrightarrow> left_over s < left_over s1)))
     (if b then run_loop n p else io_return ())
     (\<lambda>_. on_state (\<lambda>s. dispatchable (sp_sha p) s = [])) (\<lambda>_. True)" for b
  proof (rule io_spec_pre)
    fix v :: "run_state \<times> 'w"
    assume v: "on_state (\<lambda>s. ?I s \<and> (\<not> b \<longrightarrow> dispatchable (sp_sha p) s = []) \<and> (b \<longrightarrow> left_over s < left_over s1)) v"
    show "io_spec (\<lambda>w. w = v) (if b then run_loop n p else io_return ())
       (\<lambda>_. on_state (\<lambda>s. dispatchable (sp_sha p) s = [])) (\<lambda>_. True)"
    proof (cases b)
      case True
      then have "keyed (fst v)" and "left_over (fst v) \<le> n"
        using v Suc.prems sched_inv_keyed by (auto simp: on_state_def)
      from Suc.IH [OF this] have "io_spec (\<lambda>w. w = v) (run_loop n p)
         (\<lambda>_. on_state (\<lambda>s. dispatchable (sp_sha p) s = [])) (\<lambda>_. True)"
        by (rule io_spec_weaken) (simp_all add: on_state_def)
      with True show ?thesis by simp
    next
      case False
      then show ?thesis using v by (auto intro!: io_spec_return simp: on_state_def)
    qed
  qed
  show ?case unfolding run_loop.simps by (rule io_spec_bind [OF step rest])
qed

text \<open>When \<open>run_ready\<close> returns, no item is left that it could still dispatch.\<close>

lemma run_ready_exhausts:
  assumes "keyed s0"
  shows "io_spec (on_state (\<lambda>s. s = s0)) (run_ready p)
     (\<lambda>_. on_state (\<lambda>s. dispatchable (sp_sha p) s = [])) (\<lambda>_. True)"
proof -
  let ?D = "on_state (\<lambda>s. dispatchable (sp_sha p) s = [])"
  have status: "dispatchable sha (s\<lparr>st_status := x\<rparr>) = dispatchable sha s" for sha s x
  proof -
    have "same_plan s (s\<lparr>st_status := x\<rparr>)" by (simp add: same_plan_def)
    then show ?thesis
      by (simp add: dispatchable_def dependencies_succeeded_def pending_items_def is_pending_def
          same_plan_simps cong: filter_cong)
  qed
  have start: "io_spec (on_state (\<lambda>t. t = s \<and> s = s0)) (run_loop (length (st_work_items s)) p) (\<lambda>_. ?D) (\<lambda>_. True)" for s
  proof (cases "s = s0")
    case True
    show ?thesis unfolding True
      by (rule io_spec_weaken [OF run_loop_exhausts [OF assms left_over_bound]]) (auto simp: on_state_def)
  qed (auto simp: on_state_def io_spec_def)
  have set: "io_spec (on_state (\<lambda>t. t = s \<and> dispatchable (sp_sha p) s = []))
     (set_state (s\<lparr>st_status := x\<rparr>)) (\<lambda>_. ?D) (\<lambda>_. True)" for s x
    by (rule spec_set_on_state) (simp add: status)
  have finish: "io_spec ?D (finish_run p) (\<lambda>_. ?D) (\<lambda>_. True)"
    unfolding finish_run_def
    by (rule io_spec_bind [OF spec_get_on_state], rule io_spec_bind [OF spec_error [OF spec_lift_keep]], simp,
        rule spec_if, rule io_spec_bind [OF set spec_error [OF spec_save]], simp, rule io_spec_return)
      (auto simp: on_state_def)
  show ?thesis
    unfolding run_ready_def by (rule io_spec_bind [OF spec_get_on_state io_spec_bind [OF start finish]])
qed

end

end
