(* ===== verification/Scheduler_Checkpoints.thy ===== *)
theory Scheduler_Checkpoints
  imports Scheduler_Invariants
begin

text \<open>
  The state that a run returns is the one it saved last: \<open>here s w\<close> says that the world \<open>w\<close> has
  \<open>s\<close> as the checkpoint of its run. A save establishes it, events, clock and lease keep it; what
  turns and task groups do to it does not matter, since their results are saved.
\<close>

lemma final_status_not_running: "final_status s = Inr x \<Longrightarrow> x \<noteq> RunRunning"
  by (auto simp: final_status_def Let_def rbind_eq_Inr_iff split: if_splits)

locale checkpointing =
  fixes p :: "'w sched_ports" and here :: "run_state \<Rightarrow> 'w \<Rightarrow> bool"
  assumes save_here: "sp_save p s w = (Inr (), w') \<Longrightarrow> here s w'"
    and event_here: "here s w \<Longrightarrow> sp_append_event p rid e w = (Inr u, w') \<Longrightarrow> here s w'"
    and now_here: "here s w \<Longrightarrow> sp_now p w = (Inr t, w') \<Longrightarrow> here s w'"
    and release_here: "here s w \<Longrightarrow> sp_release p q w = (Inr u, w') \<Longrightarrow> here s w'"
begin

abbreviation at_checkpoint :: "run_state \<times> 'w \<Rightarrow> bool" where
  "at_checkpoint sw \<equiv> here (fst sw) (snd sw)"

abbreviation running :: "run_state \<times> 'w \<Rightarrow> bool" where
  "running sw \<equiv> st_status (fst sw) = RunRunning"

abbreviation reaches :: "(run_state \<times> 'w \<Rightarrow> bool) \<Rightarrow> ('w, 'a) sched \<Rightarrow> (run_state \<times> 'w \<Rightarrow> bool) \<Rightarrow> bool" where
  "reaches P m Q \<equiv> io_spec P m (\<lambda>_. Q) (\<lambda>_. True)"

lemma keeps_lift:
  assumes "\<And>s w a w'. here s w \<Longrightarrow> m w = (Inr a, w') \<Longrightarrow> here s w'"
  shows "reaches at_checkpoint (lift_world m) at_checkpoint"
  using assms by (auto simp: io_spec_def lift_world_def split: prod.splits)

lemma keeps_get: "reaches P get_state P"
  by (auto simp: io_spec_def get_state_def split: prod.splits)

lemma reaches_save: "reaches P (save_state p) at_checkpoint"
  by (auto simp: io_spec_def save_state_def io_bind_def get_state_def lift_world_def
      split: prod.splits sum.splits intro: save_here)

lemma reaches_persist: "reaches P (persist_result p r) at_checkpoint"
  unfolding persist_result_def
  by (rule io_spec_bind [OF io_spec_any], rule io_spec_bind [OF reaches_save],
      rule io_spec_bind [OF keeps_lift [OF now_here]], assumption+,
      rule io_spec_bind [OF keeps_get keeps_lift [OF event_here]])

text \<open>Between a change of the status to running and the next save the state is ahead of its checkpoint.\<close>

abbreviation ahead :: "run_state \<times> 'w \<Rightarrow> bool" where
  "ahead sw \<equiv> at_checkpoint sw \<or> running sw"

lemma reaches_persist_all: "reaches ahead (persist_all p rs) ahead"
proof (induction rs)
  case Nil
  show ?case unfolding persist_all.simps by (rule io_spec_return)
next
  case (Cons r rs)
  have "reaches ahead (persist_result p r) ahead" by (rule io_spec_weaken [OF reaches_persist]) auto
  then show ?case using Cons unfolding persist_all.simps by (intro io_spec_bind)
qed

lemma reaches_writer: "reaches P (run_writer p item) ahead"
proof -
  have body: "io_spec Q
    (io_bind get_state (\<lambda>s.
     io_bind (io_lift (require_dispatchable (sp_sha p) s (wi_id item))) (\<lambda>_.
     io_bind (modify_state (\<lambda>s. s\<lparr>st_status := RunRunning\<rparr>)) (\<lambda>_.
     io_bind (run_one p item) (\<lambda>result. persist_result p result)))))
    (\<lambda>_. at_checkpoint) (\<lambda>_. True)" for Q
    by (intro io_spec_bind [OF io_spec_any] reaches_persist)
  have release: "reaches at_checkpoint (lift_world (sp_release p q)) ahead" for q
    by (rule io_spec_weaken [OF keeps_lift]) (auto intro: release_here)
  show ?thesis
    unfolding run_writer_def
    by (intro io_spec_bind [OF io_spec_any] io_spec_finally [OF body release io_spec_any])
qed

lemma reaches_readers: "reaches P (run_readers p ready) ahead"
proof -
  have status: "reaches P (modify_state (\<lambda>s. s\<lparr>st_status := RunRunning\<rparr>)) running"
    by (auto simp: io_spec_def modify_state_def io_bind_def get_state_def set_state_def split: prod.splits)
  have group: "reaches running (lift_world (sp_group p cs)) running" for cs
    by (auto simp: io_spec_def lift_world_def split: prod.splits)
  have batch: "reaches running (run_read_batch p items) ahead" for items
    unfolding run_read_batch_def
    by (intro io_spec_bind [OF keeps_get] io_spec_bind [OF group] io_spec_return) simp
  show ?thesis
    unfolding run_readers_def by (rule io_spec_bind [OF status io_spec_bind [OF batch reaches_persist_all]])
qed

lemma reaches_step: "reaches ahead (run_step p) ahead"
proof -
  have run: "reaches ahead
     (let ready = dispatchable (sp_sha p) s
       in if ready = [] then io_return False
          else (case filter is_writer ready of
                  item # _ \<Rightarrow> io_bind (run_writer p item) (\<lambda>_. io_return True)
                | [] \<Rightarrow> io_bind (run_readers p ready) (\<lambda>_. io_return True))) ahead" for s
  proof (cases "filter is_writer (dispatchable (sp_sha p) s)")
    case Nil
    show ?thesis unfolding Let_def Nil list.case
      by (intro spec_if io_spec_return io_spec_bind [OF reaches_readers])
  next
    case (Cons item rest)
    show ?thesis unfolding Let_def Cons list.case
      by (intro spec_if io_spec_return io_spec_bind [OF reaches_writer])
  qed
  show ?thesis
    unfolding run_step_def
    by (intro io_spec_bind [OF keeps_get] io_spec_bind [OF reaches_persist_all] io_spec_bind [OF keeps_get run])
qed

lemma reaches_loop: "reaches ahead (run_loop n p) ahead"
proof (induction n)
  case 0
  show ?case unfolding run_loop.simps by (rule io_spec_return)
next
  case (Suc n)
  show ?case unfolding run_loop.simps
    by (rule io_spec_bind [OF reaches_step spec_if [OF Suc io_spec_return]])
qed

lemma reaches_finish: "reaches ahead (finish_run p) at_checkpoint"
proof -
  have get: "io_spec ahead get_state (\<lambda>s sw. fst sw = s \<and> ahead sw) (\<lambda>_. True)"
    by (auto simp: io_spec_def get_state_def split: prod.splits)
  have lift: "io_spec (\<lambda>sw. fst sw = s \<and> ahead sw) (io_lift (final_status s))
     (\<lambda>x sw. (fst sw = s \<and> ahead sw) \<and> final_status s = Inr x) (\<lambda>_. True)" for s
    by (rule spec_io_lift) simp
  have same: "reaches (\<lambda>sw. (fst sw = s \<and> ahead sw) \<and> final_status s = Inr x) (io_return ()) at_checkpoint"
    if "\<not> st_status s \<noteq> x" for s x
    by (rule io_spec_return) (use that final_status_not_running [of s x] in auto)
  show ?thesis
    unfolding finish_run_def
    by (rule io_spec_bind [OF get], rule io_spec_bind [OF lift], rule spec_cases,
        rule io_spec_bind [OF io_spec_any reaches_save], rule same)
qed

lemma run_ready_here:
  assumes "here s w" and "run_ready p (s, w) = (Inr (), (s', w'))"
  shows "here s' w'"
proof -
  have "reaches ahead (run_ready p) at_checkpoint"
    unfolding run_ready_def
    by (intro io_spec_bind [OF keeps_get] io_spec_bind [OF reaches_loop reaches_finish])
  from io_spec_Inr [OF this _ assms(2)] assms(1) show ?thesis by simp
qed

end

end
