(* ===== verification/Scheduler_Trace.thy ===== *)
theory Scheduler_Trace
  imports Scheduler_Checkpoints
begin

text \<open>
  The order in which the scheduler uses its collaborators. \<open>traced\<close> wraps the ports so that
  every call is logged: saves, events and acquisitions when they succeed, releases, client calls
  and task groups when they start. \<open>lease_step\<close> is the protocol that the log of any run
  follows (\<open>run_ready_follows\<close>): a write-capable item is called only while the project lease
  is held, a batch is bounded, holds no writer and never runs under the lease, and the lease is
  free again at the end, also after a raise.
\<close>

section \<open>Logged collaborators\<close>

datatype action =
    ASave run_state
  | AEvent string run_event
  | AAcquire path
  | ARelease path
  | ACall client_call
  | AGroup "client_call result list"

definition log_start :: "action \<Rightarrow> ('w, 'a) eff \<Rightarrow> ('w \<times> action list, 'a) eff" where
  "log_start a m = (\<lambda>(w, l). case m w of (r, w') \<Rightarrow> (r, (w', l @ [a])))"

definition log_success :: "action \<Rightarrow> ('w, 'a) eff \<Rightarrow> ('w \<times> action list, 'a) eff" where
  "log_success a m = (\<lambda>(w, l). case m w of
      (Inl e, w') \<Rightarrow> (Inl e, (w', l)) | (Inr x, w') \<Rightarrow> (Inr x, (w', l @ [a])))"

definition log_nothing :: "('w, 'a) eff \<Rightarrow> ('w \<times> action list, 'a) eff" where
  "log_nothing m = (\<lambda>(w, l). case m w of (r, w') \<Rightarrow> (r, (w', l)))"

definition traced :: "'w sched_ports \<Rightarrow> ('w \<times> action list) sched_ports" where
  "traced p =
     \<lparr>sp_save = (\<lambda>s. log_success (ASave s) (sp_save p s)),
      sp_append_event = (\<lambda>rid e. log_success (AEvent rid e) (sp_append_event p rid e)),
      sp_acquire = (\<lambda>pth. log_success (AAcquire pth) (sp_acquire p pth)),
      sp_release = (\<lambda>pth. log_start (ARelease pth) (sp_release p pth)),
      sp_call = (\<lambda>c. log_start (ACall c) (sp_call p c)),
      sp_group = (\<lambda>cs. log_start (AGroup cs) (sp_group p cs)),
      sp_now = log_nothing (sp_now p), sp_sha = sp_sha p,
      sp_max_read_concurrency = sp_max_read_concurrency p\<rparr>"

section \<open>The protocol\<close>

datatype lease_phase = Free | Held

text \<open>A call is made for an item: its route, its instructions, the run's project.\<close>

fun call_for :: "run_state \<Rightarrow> work_item \<Rightarrow> client_call \<Rightarrow> bool" where
  "call_for s item (NewThread project rt prompt dev) \<longleftrightarrow>
     project = ob_project_path (st_objective s) \<and> map_of (st_routes s) (wi_id item) = Some rt
     \<and> prompt = wi_instructions item \<and> dev = developer_instructions s"
| "call_for s item (ResumeThread thread project rt prompt) \<longleftrightarrow>
     project = ob_project_path (st_objective s) \<and> map_of (st_routes s) (wi_id item) = Some rt
     \<and> prompt = wi_instructions item"

definition planned_call :: "run_state \<Rightarrow> bool \<Rightarrow> client_call \<Rightarrow> bool" where
  "planned_call s writer c \<longleftrightarrow>
     (\<exists>k item. map_of (st_work_items s) k = Some item \<and> is_writer item = writer \<and> call_for s item c)"

inductive lease_step :: "run_state \<Rightarrow> nat \<Rightarrow> lease_phase \<Rightarrow> action \<Rightarrow> lease_phase \<Rightarrow> bool"
  for s0 n where
  step_save: "same_plan s0 s \<Longrightarrow> lease_step s0 n ph (ASave s) ph"
| step_event: "lease_step s0 n ph (AEvent (run_id s0) e) ph"
| step_acquire: "lease_step s0 n Free (AAcquire (ob_project_path (st_objective s0))) Held"
| step_release: "lease_step s0 n Held (ARelease (ob_project_path (st_objective s0))) Free"
| step_call: "planned_call s0 True c \<Longrightarrow> lease_step s0 n Held (ACall c) Held"
| step_group:
    "0 < length cs \<Longrightarrow> length cs \<le> n \<Longrightarrow> \<forall>c. Inr c \<in> set cs \<longrightarrow> planned_call s0 False c
     \<Longrightarrow> lease_step s0 n Free (AGroup cs) Free"

inductive lease_run :: "run_state \<Rightarrow> nat \<Rightarrow> action list \<Rightarrow> lease_phase \<Rightarrow> bool" for s0 n where
  run_start: "lease_run s0 n [] Free"
| run_more: "lease_run s0 n l ph \<Longrightarrow> lease_step s0 n ph a ph' \<Longrightarrow> lease_run s0 n (l @ [a]) ph'"

inductive_simps lease_step_save: "lease_step s0 n ph (ASave s) ph'"
inductive_simps lease_step_event: "lease_step s0 n ph (AEvent rid e) ph'"
inductive_simps lease_step_acquire: "lease_step s0 n ph (AAcquire pth) ph'"
inductive_simps lease_step_release: "lease_step s0 n ph (ARelease pth) ph'"
inductive_simps lease_step_call: "lease_step s0 n ph (ACall c) ph'"
inductive_simps lease_step_group: "lease_step s0 n ph (AGroup cs) ph'"
inductive_cases lease_run_snocE: "lease_run s0 n (l @ [a]) ph"

lemmas lease_step_simps = lease_step_save lease_step_event lease_step_acquire
  lease_step_release lease_step_call lease_step_group

text \<open>While the lease is held, its acquisition is the last word on it.\<close>

definition lease_quiet :: "action \<Rightarrow> bool" where
  "lease_quiet a \<longleftrightarrow> (case a of AAcquire _ \<Rightarrow> False | ARelease _ \<Rightarrow> False | AGroup _ \<Rightarrow> False | _ \<Rightarrow> True)"

lemma held_since_acquire:
  assumes "lease_run s0 n l ph" and "ph = Held"
  shows "\<exists>xs ys. l = xs @ AAcquire (ob_project_path (st_objective s0)) # ys \<and> list_all lease_quiet ys"
  using assms
proof (induction rule: lease_run.induct)
  case run_start
  then show ?case by simp
next
  case (run_more l ph a ph')
  show ?case
  proof (cases "ph = Held")
    case True
    then obtain xs ys where "l = xs @ AAcquire (ob_project_path (st_objective s0)) # ys" "list_all lease_quiet ys"
      using run_more.IH by blast
    moreover have "lease_quiet a"
      using run_more.hyps(2) True run_more.prems
      by (cases rule: lease_step.cases) (simp_all add: lease_quiet_def)
    ultimately show ?thesis by (intro exI [of _ xs] exI [of _ "ys @ [a]"]) simp
  next
    case False
    have "a = AAcquire (ob_project_path (st_objective s0))"
      using run_more.hyps(2) False run_more.prems by (cases rule: lease_step.cases) simp_all
    then show ?thesis by (intro exI [of _ l] exI [of _ "[]"]) simp
  qed
qed

lemma lease_run_prefix: "lease_run s0 n l ph \<Longrightarrow> l = xs @ ys \<Longrightarrow> \<exists>ph'. lease_run s0 n xs ph'"
proof (induction arbitrary: ys rule: lease_run.induct)
  case run_start
  then show ?case by (auto intro: lease_run.run_start)
next
  case (run_more l ph a ph')
  show ?case
  proof (cases ys rule: rev_cases)
    case Nil
    then show ?thesis using run_more.hyps run_more.prems by (auto intro: lease_run.run_more)
  next
    case (snoc zs z)
    then show ?thesis using run_more.IH run_more.prems by auto
  qed
qed

lemma lease_run_split:
  assumes "lease_run s0 n (xs @ a # ys) ph"
  obtains ph1 ph2 where "lease_run s0 n xs ph1" and "lease_step s0 n ph1 a ph2"
proof -
  obtain ph' where "lease_run s0 n (xs @ [a]) ph'"
    using lease_run_prefix [OF assms, of "xs @ [a]"] by auto
  then show ?thesis by (rule lease_run_snocE) (auto intro: that)
qed

section \<open>The scheduler follows the protocol\<close>

definition on_log :: "(run_state \<Rightarrow> action list \<Rightarrow> bool) \<Rightarrow> run_state \<times> 'w \<times> action list \<Rightarrow> bool" where
  "on_log P sw \<longleftrightarrow> P (fst sw) (snd (snd sw))"

lemma log_start_spec:
  "(\<And>s l. P s l \<Longrightarrow> Q s (l @ [a])) \<Longrightarrow> io_spec (on_log P) (lift_world (log_start a m)) (\<lambda>_. on_log Q) (on_log Q)"
  by (auto simp: io_spec_def on_log_def lift_world_def log_start_def split: prod.splits)

lemma log_success_spec:
  assumes "\<And>s l. P s l \<Longrightarrow> Q s (l @ [a])" and "\<And>s l. P s l \<Longrightarrow> E s l"
  shows "io_spec (on_log P) (lift_world (log_success a m)) (\<lambda>_. on_log Q) (on_log E)"
  using assms
  by (auto simp: io_spec_def on_log_def lift_world_def log_success_def split: prod.splits sum.splits)

lemma log_nothing_spec: "io_spec (on_log P) (lift_world (log_nothing m)) (\<lambda>_. on_log P) (on_log P)"
  by (auto simp: io_spec_def on_log_def lift_world_def log_nothing_def split: prod.splits)

lemma log_get_spec: "io_spec (on_log P) get_state (\<lambda>s. on_log (\<lambda>t l. t = s \<and> P s l)) E"
  by (auto simp: io_spec_def get_state_def on_log_def split: prod.splits)

lemma log_set_spec:
  "(\<And>t l. P t l \<Longrightarrow> Q s l) \<Longrightarrow> io_spec (on_log P) (set_state s) (\<lambda>_. on_log Q) E"
  by (auto simp: io_spec_def set_state_def on_log_def split: prod.splits)

lemma log_modify_spec:
  "(\<And>t l. P t l \<Longrightarrow> Q (f t) l) \<Longrightarrow> io_spec (on_log P) (modify_state f) (\<lambda>_. on_log Q) E"
  unfolding modify_state_def
  by (rule io_spec_bind [OF log_get_spec log_set_spec]) auto

lemma log_lift_spec: "io_spec (on_log P) (io_lift r) (\<lambda>a sw. on_log P sw \<and> r = Inr a) (on_log P)"
  by (auto simp: io_spec_def)

lemma log_weaken: "(\<And>s l. P s l \<Longrightarrow> Q s l) \<Longrightarrow> on_log P sw \<Longrightarrow> on_log Q sw"
  by (simp add: on_log_def)

lemma traced_simps:
  "sp_save (traced p) s = log_success (ASave s) (sp_save p s)"
  "sp_append_event (traced p) rid e = log_success (AEvent rid e) (sp_append_event p rid e)"
  "sp_acquire (traced p) pth = log_success (AAcquire pth) (sp_acquire p pth)"
  "sp_release (traced p) pth = log_start (ARelease pth) (sp_release p pth)"
  "sp_call (traced p) c = log_start (ACall c) (sp_call p c)"
  "sp_group (traced p) cs = log_start (AGroup cs) (sp_group p cs)"
  "sp_now (traced p) = log_nothing (sp_now p)"
  "sp_sha (traced p) = sp_sha p"
  "sp_max_read_concurrency (traced p) = sp_max_read_concurrency p"
  by (simp_all add: traced_def)

definition following :: "run_state \<Rightarrow> nat \<Rightarrow> lease_phase \<Rightarrow> run_state \<Rightarrow> action list \<Rightarrow> bool" where
  "following s0 n ph s l \<longleftrightarrow> same_plan s0 s \<and> keyed s \<and> lease_run s0 n l ph"

lemma same_plan_update:
  assumes "same_plan s0 s"
  shows "same_plan s0 (s\<lparr>st_status := x\<rparr>)" and "same_plan s0 (s\<lparr>st_results := y\<rparr>)"
proof -
  obtain a b where "s = s0\<lparr>st_results := a, st_status := b\<rparr>"
    using assms unfolding same_plan_def by blast
  then show "same_plan s0 (s\<lparr>st_status := x\<rparr>)" and "same_plan s0 (s\<lparr>st_results := y\<rparr>)"
    by (simp_all add: same_plan_def)
qed

lemma following_same [simp]:
  "following s0 n ph s l \<Longrightarrow> following s0 n ph (s\<lparr>st_status := x\<rparr>) l"
  "following s0 n ph s l \<Longrightarrow> following s0 n ph (with_result s k r) l"
  by (simp_all add: following_def same_plan_update keyed_def)

lemma following_step:
  "following s0 n ph s l \<Longrightarrow> lease_step s0 n ph a ph' \<Longrightarrow> following s0 n ph' s (l @ [a])"
  unfolding following_def by (blast intro: lease_run.run_more)

lemma following_get: "io_spec (on_log P) get_state (\<lambda>_. on_log P) E"
  by (rule io_spec_weaken [OF log_get_spec]) (auto simp: on_log_def)

lemma following_save:
  "io_spec (on_log (following s0 n ph)) (save_state (traced p)) (\<lambda>_. on_log (following s0 n ph))
     (on_log (following s0 n ph))"
  unfolding save_state_def traced_simps
proof (rule io_spec_bind [OF log_get_spec], rule log_success_spec)
  fix s t l assume a: "t = s \<and> following s0 n ph s l"
  then have "lease_step s0 n ph (ASave s) ph" by (simp add: following_def step_save)
  with a show "following s0 n ph t (l @ [ASave s])" by (blast intro: following_step)
qed simp

lemma following_persist_result:
  "io_spec (on_log (following s0 n ph)) (persist_result (traced p) r) (\<lambda>_. on_log (following s0 n ph))
     (on_log (following s0 n ph))"
proof -
  let ?F = "following s0 n ph"
  have event: "io_spec (on_log (\<lambda>t l. t = s \<and> ?F s l))
     (lift_world (sp_append_event (traced p) (run_id s) e)) (\<lambda>_. on_log ?F) (on_log ?F)" for s e
    unfolding traced_simps
  proof (rule log_success_spec)
    fix t l assume a: "t = s \<and> ?F s l"
    then have "run_id s = run_id s0" by (auto simp: following_def dest: same_plan_simps)
    with a show "?F t (l @ [AEvent (run_id s) e])" by (auto intro: following_step step_event)
  qed simp
  have modify: "io_spec (on_log ?F) (modify_state (\<lambda>s. with_result s (wr_work_item_id r) r))
     (\<lambda>_. on_log ?F) (on_log ?F)"
    by (rule log_modify_spec) simp
  have now: "io_spec (on_log ?F) (lift_world (sp_now (traced p))) (\<lambda>_. on_log ?F) (on_log ?F)"
    unfolding traced_simps by (rule log_nothing_spec)
  show ?thesis
    unfolding persist_result_def
    by (intro io_spec_bind [OF modify] io_spec_bind [OF following_save] io_spec_bind [OF now]
        io_spec_bind [OF log_get_spec event])
qed

lemma following_persist_all:
  "io_spec (on_log (following s0 n ph)) (persist_all (traced p) rs) (\<lambda>_. on_log (following s0 n ph))
     (on_log (following s0 n ph))"
proof (induction rs)
  case Nil
  show ?case unfolding persist_all.simps by (rule io_spec_return)
next
  case (Cons r rs)
  then show ?case unfolding persist_all.simps by (intro io_spec_bind [OF following_persist_result])
qed

lemma dispatch_call_planned:
  assumes "same_plan s0 s" and "map_of (st_work_items s0) k = Some item"
    and "dispatch_call s item = Inr c"
  shows "planned_call s0 (is_writer item) c"
proof -
  note same = same_plan_simps [OF assms(1)]
  have "developer_instructions s = developer_instructions s0" by (simp add: developer_instructions_def same)
  then have "call_for s0 item c" using assms(3)
    by (auto simp: dispatch_call_def same split: option.splits)
  then show ?thesis using assms(2) unfolding planned_call_def by blast
qed

lemma following_dispatch:
  assumes "map_of (st_work_items s0) k = Some item" and "is_writer item"
  shows "io_spec (on_log (following s0 n Held)) (dispatch (traced p) item)
     (\<lambda>_. on_log (following s0 n Held)) (on_log (following s0 n Held))"
proof -
  let ?F = "following s0 n Held"
  have call: "io_spec (\<lambda>sw. on_log (\<lambda>t l. t = s \<and> ?F s l) sw \<and> dispatch_call s item = Inr c)
     (lift_world (sp_call (traced p) c)) (\<lambda>_. on_log ?F) (on_log ?F)" for s c
  proof (rule io_spec_pre)
    fix v :: "run_state \<times> 'a \<times> action list"
    assume v: "on_log (\<lambda>t l. t = s \<and> ?F s l) v \<and> dispatch_call s item = Inr c"
    then have "same_plan s0 s" by (auto simp: on_log_def following_def)
    then have "planned_call s0 True c" using dispatch_call_planned [OF _ assms(1)] assms(2) v by metis
    then have step: "lease_step s0 n Held (ACall c) Held" by (rule step_call)
    have "io_spec (on_log ?F) (lift_world (sp_call (traced p) c)) (\<lambda>_. on_log ?F) (on_log ?F)"
      unfolding traced_simps by (rule log_start_spec) (blast intro: following_step step)
    then show "io_spec (\<lambda>w. w = v) (lift_world (sp_call (traced p) c)) (\<lambda>_. on_log ?F) (on_log ?F)"
      by (rule io_spec_weaken) (use v in \<open>auto simp: on_log_def\<close>)
  qed
  have lift: "io_spec (on_log (\<lambda>t l. t = s \<and> ?F s l)) (io_lift (dispatch_call s item))
     (\<lambda>c sw. on_log (\<lambda>t l. t = s \<and> ?F s l) sw \<and> dispatch_call s item = Inr c) (on_log ?F)" for s
    by (rule spec_error [OF log_lift_spec]) (auto simp: on_log_def)
  show ?thesis
    unfolding dispatch_def
    by (intro io_spec_bind [OF log_get_spec] io_spec_bind [OF lift] io_spec_bind [OF call]) (rule io_spec_return)
qed

lemma following_run_one:
  assumes "map_of (st_work_items s0) k = Some item" and "is_writer item"
  shows "io_spec (on_log (following s0 n Held)) (run_one (traced p) item)
     (\<lambda>_. on_log (following s0 n Held)) (on_log (following s0 n Held))"
proof (rule io_specI)
  note spec = following_dispatch [OF assms, of n p]
  fix w r w' assume w: "on_log (following s0 n Held) w" and r: "run_one (traced p) item w = (Inr r, w')"
  then have "\<exists>x. dispatch (traced p) item w = (x, w')"
    by (auto simp: run_one_def split: if_splits prod.splits sum.splits)
  then show "on_log (following s0 n Held) w'" using io_spec_snd [OF spec w] by blast
next
  note spec = following_dispatch [OF assms, of n p]
  fix w e w' assume w: "on_log (following s0 n Held) w" and r: "run_one (traced p) item w = (Inl e, w')"
  then have "\<exists>x. dispatch (traced p) item w = (x, w')"
    by (auto simp: run_one_def split: if_splits prod.splits sum.splits)
  then show "on_log (following s0 n Held) w'" using io_spec_snd [OF spec w] by blast
qed

lemma spec_frame:
  assumes "io_spec (on_log P) m (\<lambda>_. on_log Q) (on_log E)"
  shows "io_spec (on_log (\<lambda>t l. P t l \<and> c)) m (\<lambda>_. on_log (\<lambda>t l. Q t l \<and> c)) (on_log (\<lambda>t l. E t l \<and> c))"
  using assms by (cases c) (simp_all add: io_spec_def on_log_def)

lemma following_run_writer:
  assumes "map_of (st_work_items s0) k = Some item" and "is_writer item"
  shows "io_spec (on_log (following s0 n Free)) (run_writer (traced p) item)
     (\<lambda>_. on_log (following s0 n Free)) (on_log (following s0 n Free))"
proof -
  let ?F = "following s0 n Free" and ?H = "following s0 n Held"
  have first: "io_spec (on_log (\<lambda>t l. t = s \<and> ?F s l))
     (if pre_writer_status (st_status s)
      then io_bind (set_state (s\<lparr>st_status := RunPlanned\<rparr>)) (\<lambda>_. save_state (traced p)) else io_return ())
     (\<lambda>_. on_log (\<lambda>t l. ?F t l \<and> same_plan s0 s)) (on_log ?F)" for s
  proof -
    have set: "io_spec (on_log (\<lambda>t l. t = s \<and> ?F s l)) (set_state (s\<lparr>st_status := RunPlanned\<rparr>))
       (\<lambda>_. on_log (\<lambda>t l. ?F t l \<and> same_plan s0 s)) (on_log ?F)"
      by (rule log_set_spec) (simp add: following_def [of s0 n Free s])
    have save: "io_spec (on_log (\<lambda>t l. ?F t l \<and> same_plan s0 s)) (save_state (traced p))
       (\<lambda>_. on_log (\<lambda>t l. ?F t l \<and> same_plan s0 s)) (on_log ?F)"
    proof (cases "same_plan s0 s")
      case True
      then show ?thesis by (intro io_spec_weaken [OF following_save]) (auto simp: on_log_def)
    qed (simp add: io_spec_def on_log_def)
    show ?thesis
      by (intro spec_if io_spec_bind [OF set save] io_spec_return) (auto simp: on_log_def following_def)
  qed
  have acquire: "io_spec (on_log (\<lambda>t l. ?F t l \<and> same_plan s0 s))
     (lift_world (sp_acquire (traced p) (ob_project_path (st_objective s))))
     (\<lambda>_. on_log (\<lambda>t l. ?H t l \<and> same_plan s0 s)) (on_log ?F)" for s
    unfolding traced_simps
  proof (rule log_success_spec)
    fix t l assume a: "?F t l \<and> same_plan s0 s"
    then show "?H t (l @ [AAcquire (ob_project_path (st_objective s))]) \<and> same_plan s0 s"
      using following_step [OF conjunct1 [OF a] step_acquire] same_plan_simps(4) [OF conjunct2 [OF a]] by simp
  qed simp
  have release: "io_spec (on_log (\<lambda>t l. ?H t l \<and> same_plan s0 s))
     (lift_world (sp_release (traced p) (ob_project_path (st_objective s)))) (\<lambda>_. on_log ?F) (on_log ?F)" for s
    unfolding traced_simps
  proof (rule log_start_spec)
    fix t l assume a: "?H t l \<and> same_plan s0 s"
    then show "?F t (l @ [ARelease (ob_project_path (st_objective s))])"
      using following_step [OF conjunct1 [OF a] step_release] same_plan_simps(4) [OF conjunct2 [OF a]] by simp
  qed
  have body: "io_spec (on_log (\<lambda>t l. ?H t l \<and> same_plan s0 s))
    (io_bind get_state (\<lambda>s.
     io_bind (io_lift (require_dispatchable (sp_sha (traced p)) s (wi_id item))) (\<lambda>_.
     io_bind (modify_state (\<lambda>s. s\<lparr>st_status := RunRunning\<rparr>)) (\<lambda>_.
     io_bind (run_one (traced p) item) (\<lambda>result. persist_result (traced p) result)))))
    (\<lambda>_. on_log (\<lambda>t l. ?H t l \<and> same_plan s0 s)) (on_log (\<lambda>t l. ?H t l \<and> same_plan s0 s))" for s
  proof -
    have modify: "io_spec (on_log ?H) (modify_state (\<lambda>s. s\<lparr>st_status := RunRunning\<rparr>)) (\<lambda>_. on_log ?H) (on_log ?H)"
      by (rule log_modify_spec) simp
    have lift: "io_spec (on_log ?H) (io_lift r) (\<lambda>_. on_log ?H) (on_log ?H)" for r :: "unit result"
      by (rule io_spec_weaken [OF log_lift_spec]) auto
    have "io_spec (on_log ?H)
      (io_bind get_state (\<lambda>s.
       io_bind (io_lift (require_dispatchable (sp_sha (traced p)) s (wi_id item))) (\<lambda>_.
       io_bind (modify_state (\<lambda>s. s\<lparr>st_status := RunRunning\<rparr>)) (\<lambda>_.
       io_bind (run_one (traced p) item) (\<lambda>result. persist_result (traced p) result)))))
      (\<lambda>_. on_log ?H) (on_log ?H)"
      by (intro io_spec_bind [OF following_get] io_spec_bind [OF lift] io_spec_bind [OF modify]
          io_spec_bind [OF following_run_one [OF assms] following_persist_result])
    then show ?thesis by (rule spec_frame)
  qed
  show ?thesis
    unfolding run_writer_def
    by (intro io_spec_bind [OF log_get_spec] io_spec_bind [OF first] io_spec_bind [OF acquire]
        io_spec_finally [OF body release release])
qed

lemma following_run_readers:
  assumes "ready = dispatchable sha s" and "same_plan s0 s" and "keyed s" and "ready \<noteq> []"
    and "filter is_writer ready = []" and "0 < sp_max_read_concurrency p"
  shows "io_spec (on_log (following s0 (sp_max_read_concurrency p) Free)) (run_readers (traced p) ready)
     (\<lambda>_. on_log (following s0 (sp_max_read_concurrency p) Free))
     (on_log (following s0 (sp_max_read_concurrency p) Free))"
proof -
  let ?n = "sp_max_read_concurrency p"
  let ?F = "following s0 ?n Free" and ?b = "take ?n ready"
  have item: "map_of (st_work_items s0) (wi_id item) = Some item \<and> \<not> is_writer item" if "item \<in> set ?b" for item
  proof -
    have "item \<in> set ready" using that by (rule in_set_takeD)
    then show ?thesis using assms(1,5) dispatchable_mem(3) [OF assms(3)] same_plan_simps(1) [OF assms(2)]
      by (auto simp: filter_empty_conv)
  qed
  have group: "io_spec (on_log (\<lambda>u l. u = t \<and> ?F t l))
     (lift_world (sp_group (traced p) (map (dispatch_call t) ?b))) (\<lambda>_. on_log ?F) (on_log ?F)" for t
    unfolding traced_simps
  proof (rule log_start_spec)
    fix u l assume a: "u = t \<and> ?F t l"
    have "planned_call s0 False c" if "Inr c \<in> set (map (dispatch_call t) ?b)" for c
    proof -
      obtain i where "i \<in> set ?b" and "dispatch_call t i = Inr c" using \<open>Inr c \<in> _\<close> by auto
      then show ?thesis using dispatch_call_planned [of s0 t "wi_id i" i c] item a by (auto simp: following_def)
    qed
    then have "lease_step s0 ?n Free (AGroup (map (dispatch_call t) ?b)) Free"
      using assms(4,6) by (intro step_group) auto
    with a show "?F u (l @ [AGroup (map (dispatch_call t) ?b)])" by (blast intro: following_step)
  qed
  have modify: "io_spec (on_log ?F) (modify_state (\<lambda>s. s\<lparr>st_status := RunRunning\<rparr>)) (\<lambda>_. on_log ?F) (on_log ?F)"
    by (rule log_modify_spec) simp
  have batch: "io_spec (on_log ?F) (run_read_batch (traced p) ?b) (\<lambda>_. on_log ?F) (on_log ?F)"
    unfolding run_read_batch_def
    by (intro io_spec_bind [OF log_get_spec] io_spec_bind [OF group] io_spec_return)
  show ?thesis
    unfolding run_readers_def traced_simps(9)
    by (intro io_spec_bind [OF modify] io_spec_bind [OF batch following_persist_all])
qed

lemma following_run_step:
  assumes "0 < sp_max_read_concurrency p"
  shows "io_spec (on_log (following s0 (sp_max_read_concurrency p) Free)) (run_step (traced p))
     (\<lambda>_. on_log (following s0 (sp_max_read_concurrency p) Free))
     (on_log (following s0 (sp_max_read_concurrency p) Free))"
proof -
  let ?F = "following s0 (sp_max_read_concurrency p) Free"
  have run: "io_spec (on_log (\<lambda>t l. t = s \<and> ?F s l))
     (let ready = dispatchable (sp_sha (traced p)) s
       in if ready = [] then io_return False
          else (case filter is_writer ready of
                  item # _ \<Rightarrow> io_bind (run_writer (traced p) item) (\<lambda>_. io_return True)
                | [] \<Rightarrow> io_bind (run_readers (traced p) ready) (\<lambda>_. io_return True)))
     (\<lambda>_. on_log ?F) (on_log ?F)" for s
  proof (cases "same_plan s0 s \<and> keyed s")
    case False
    then show ?thesis by (auto simp: io_spec_def on_log_def following_def)
  next
    case s: True
    have weak: "io_spec (on_log ?F) m Q E \<Longrightarrow> io_spec (on_log (\<lambda>t l. t = s \<and> ?F s l)) m Q E"
      for m :: "('a \<times> action list, bool) sched" and Q E
      by (erule io_spec_weaken) (auto simp: on_log_def)
    show ?thesis
    proof (cases "filter is_writer (dispatchable (sp_sha (traced p)) s)")
      case Nil
      then show ?thesis unfolding Let_def Nil list.case
        by (intro weak spec_cases io_spec_return io_spec_bind [OF following_run_readers [OF refl]])
          (use s assms Nil in auto)
    next
      case (Cons item rest)
      then have "item \<in> set (dispatchable (sp_sha (traced p)) s)" and w: "is_writer item"
        by (metis filter_eq_ConsD in_set_conv_decomp, metis filter_eq_ConsD)
      then have "map_of (st_work_items s0) (wi_id item) = Some item"
        using dispatchable_mem(3) s same_plan_simps(1) by metis
      from following_run_writer [OF this w] show ?thesis unfolding Let_def Cons list.case
        by (intro weak spec_if io_spec_return io_spec_bind)
    qed
  qed
  show ?thesis
    unfolding run_step_def
    by (intro io_spec_bind [OF following_get] io_spec_bind [OF following_persist_all]
        io_spec_bind [OF log_get_spec run])
qed

lemma following_run_loop:
  assumes "0 < sp_max_read_concurrency p"
  shows "io_spec (on_log (following s0 (sp_max_read_concurrency p) Free)) (run_loop k (traced p))
     (\<lambda>_. on_log (following s0 (sp_max_read_concurrency p) Free))
     (on_log (following s0 (sp_max_read_concurrency p) Free))"
proof (induction k)
  case 0
  show ?case unfolding run_loop.simps by (rule io_spec_return)
next
  case (Suc k)
  show ?case unfolding run_loop.simps
    by (rule io_spec_bind [OF following_run_step [OF assms] spec_if [OF Suc io_spec_return]])
qed

lemma run_ready_follows:
  assumes "keyed s0" and "0 < sp_max_read_concurrency p"
    and "run_ready (traced p) (s0, (w, [])) = (r, (s, (w', l)))"
  shows "lease_run s0 (sp_max_read_concurrency p) l Free"
proof -
  let ?F = "following s0 (sp_max_read_concurrency p) Free"
  have set: "io_spec (on_log (\<lambda>t l. t = s \<and> ?F s l)) (set_state (s\<lparr>st_status := x\<rparr>)) (\<lambda>_. on_log ?F) (on_log ?F)" for s x
    by (rule log_set_spec) simp
  have lift: "io_spec (on_log (\<lambda>t l. t = s \<and> ?F s l)) (io_lift r) (\<lambda>_. on_log (\<lambda>t l. t = s \<and> ?F s l)) (on_log ?F)"
    for s and r :: "run_status result"
    by (rule io_spec_weaken [OF log_lift_spec [of "\<lambda>t l. t = s \<and> ?F s l"]]) (auto simp: on_log_def)
  have "io_spec (on_log ?F) (finish_run (traced p)) (\<lambda>_. on_log ?F) (on_log ?F)"
    unfolding finish_run_def
    by (intro io_spec_bind [OF log_get_spec] io_spec_bind [OF lift] spec_if io_spec_bind [OF set following_save]
        io_spec_return) (auto simp: on_log_def)
  then have spec: "io_spec (on_log ?F) (run_ready (traced p)) (\<lambda>_. on_log ?F) (on_log ?F)"
    unfolding run_ready_def
    by (intro io_spec_bind [OF following_get] io_spec_bind [OF following_run_loop [OF assms(2)]])
  have "on_log ?F (s0, (w, []))"
    using assms(1) by (simp add: on_log_def following_def same_plan_def run_start)
  from io_spec_snd [OF spec this assms(3)] show ?thesis by (simp add: on_log_def following_def)
qed

section \<open>What is returned is what was saved last\<close>

definition last_saved :: "run_state \<Rightarrow> action list \<Rightarrow> run_state" where
  "last_saved s0 l = foldl (\<lambda>s a. case a of ASave t \<Rightarrow> t | _ \<Rightarrow> s) s0 l"

lemma last_saved_simps [simp]:
  "last_saved s0 [] = s0"
  "last_saved s0 (l @ [a]) = (case a of ASave t \<Rightarrow> t | _ \<Rightarrow> last_saved s0 l)"
  by (simp_all add: last_saved_def split: action.split)

interpretation traced_saves: checkpointing "traced p" "\<lambda>s wl. last_saved s0 (snd wl) = s"
  by unfold_locales
    (auto simp: traced_simps log_success_def log_start_def log_nothing_def split: prod.splits sum.splits)

lemma run_ready_returns_saved:
  assumes "run_ready (traced p) (s0, (w, [])) = (Inr (), (s, (w', l)))"
  shows "last_saved s0 l = s"
  using traced_saves.run_ready_here [OF _ assms, of s0] by simp

end
