(* ===== verification/Codex_Sdk.thy ===== *)
theory Codex_Sdk
  imports Scheduler_Invariants
begin

text \<open>
  The adapter of \<open>src/goalrouter/sdk/codex.py\<close>. The OpenAI SDK (\<open>AsyncCodex\<close>, its enums and
  its child process), the operating system calls that stage the session files, and the clock
  behind \<open>asyncio.timeout\<close> are the fields of \<open>codex_ports\<close>. A client is its settings and
  the flag \<open>_staged\<close>, which is the first part of the world of its methods. The last part shows
  that the adapter keeps the contract that the scheduler relies on
  (\<open>interpretation codex\<close>).
\<close>

section \<open>Values of the SDK\<close>

text \<open>
  The Python values that a turn may carry. A \<open>ThreadItem\<close> of the SDK comes with what its
  \<open>model_dump\<close> returns and its \<open>str\<close>, a mapping and any other object with its type name and
  its \<open>str\<close>.
\<close>

datatype py_object =
    PNone | PBool bool | PInt int | PFloat pyfloat | PStr string
  | PList "py_object list"
  | PTuple "py_object list"
  | PMap string "(py_object \<times> py_object) list" string
  | PThreadItem json string
  | POther string string

record token_usage =
  tu_input :: int
  tu_cached_input :: int
  tu_output :: int

record turn_result =
  tn_id :: string
  tn_status :: string
  tn_final_response :: "string option"
  tn_items :: "py_object list"
  tn_usage :: "token_usage option"
  tn_duration_ms :: "int option"

fun is_str_key :: "py_object \<times> py_object \<Rightarrow> bool" where
  "is_str_key (PStr _, _) = True"
| "is_str_key _ = False"

fun key_text :: "py_object \<Rightarrow> string" where
  "key_text (PStr s) = s"
| "key_text _ = []"

text \<open>\<open>_json_value\<close>\<close>

fun py_json :: "py_object \<Rightarrow> json" where
  "py_json PNone = JNull"
| "py_json (PBool b) = JBool b"
| "py_json (PInt i) = JInt i"
| "py_json (PFloat f) = JFloat f"
| "py_json (PStr s) = JStr s"
| "py_json (PList vs) = JList (map py_json vs)"
| "py_json (PTuple vs) = JList (map py_json vs)"
| "py_json (PMap n kvs s) =
     (if list_all is_str_key kvs
      then JObj (dict_of (map (\<lambda>(k, v). (key_text k, py_json v)) kvs)) else JStr s)"
| "py_json (PThreadItem j s) = JStr s"
| "py_json (POther n s) = JStr s"

fun type_name :: "py_object \<Rightarrow> string" where
  "type_name PNone = ''NoneType''"
| "type_name (PBool _) = ''bool''"
| "type_name (PInt _) = ''int''"
| "type_name (PFloat _) = ''float''"
| "type_name (PStr _) = ''str''"
| "type_name (PList _) = ''list''"
| "type_name (PTuple _) = ''tuple''"
| "type_name (PMap n _ _) = n"
| "type_name (PThreadItem _ _) = ''ThreadItem''"
| "type_name (POther n _) = n"

definition sdk_item :: "py_object \<Rightarrow> json" where
  "sdk_item item =
     (case item of
        PThreadItem dumped s \<Rightarrow> dumped
      | PMap n kvs s \<Rightarrow>
          if list_all is_str_key kvs
          then JObj (dict_of (map (\<lambda>(k, v). (key_text k, py_json v)) kvs))
          else JObj [(''type'', JStr n)]
      | _ \<Rightarrow> JObj [(''type'', JStr (type_name item))])"

text \<open>\<open>(turn.duration_ms or 0) / 1000\<close>, a true division of integers.\<close>

definition normalize_result :: "route_decision \<Rightarrow> string \<Rightarrow> turn_result \<Rightarrow> work_result result" where
  "normalize_result rt thread turn =
     (if tn_status turn \<noteq> ''completed''
      then Inl (SdkError (''Codex turn ended with status '' @ tn_status turn))
      else if tn_final_response turn = None
      then Inl (SdkError ''Codex turn completed without a final response'')
      else (let ms = (case tn_duration_ms turn of None \<Rightarrow> 0 | Some n \<Rightarrow> n);
                use = (\<lambda>f. case tn_usage turn of None \<Rightarrow> 0 | Some u \<Rightarrow> f u)
            in if too_big ms (-3)
               then Inl (PyOverflowError ''integer division result too large for a float'')
               else Inr \<lparr>wr_work_item_id = rd_task rt, wr_thread_id = Some thread,
                   wr_turn_id = Some (tn_id turn), wr_status = Succeeded,
                   wr_final_response = tn_final_response turn,
                   wr_sdk_items = map sdk_item (tn_items turn), wr_input_tokens = use tu_input,
                   wr_cached_input_tokens = use tu_cached_input, wr_output_tokens = use tu_output,
                   wr_duration_seconds = float_of_decimal ms (-3), wr_changed_paths = [],
                   wr_verification = [], wr_confidence = Fin 1 0,
                   wr_escalation_requested = False, wr_error = None\<rparr>))"

section \<open>The client\<close>

record codex_client =
  cc_auth_mode :: auth_mode
  cc_api_key :: "string option"
  cc_environ :: "string dict"
  cc_home_source :: "path option"
  cc_home_staging :: "path option"
  cc_operation_timeout :: pyfloat
  cc_codex_bin :: "string option"
  cc_sdk_environment :: "(string \<times> string) option"

text \<open>\<open>x or default\<close> on an environment value: an unset or empty one gives no path.\<close>

definition environ_path :: "string dict \<Rightarrow> string \<Rightarrow> path option" where
  "environ_path env name =
     (case map_of env name of None \<Rightarrow> None | Some v \<Rightarrow> if v = [] then None else Some (path_of v))"

definition make_client ::
  "auth_mode \<Rightarrow> string option \<Rightarrow> string dict \<Rightarrow> string option \<Rightarrow> path option \<Rightarrow> path option
   \<Rightarrow> pyfloat \<Rightarrow> (codex_client \<times> bool) result" where
  "make_client auth api_key env codex_bin source_arg staging_arg timeout =
     (let source = (case source_arg of Some p \<Rightarrow> Some p | None \<Rightarrow> environ_path env ''GOALROUTER_CODEX_HOME'');
          staging = (case staging_arg of Some p \<Rightarrow> Some p
                     | None \<Rightarrow> environ_path env ''GOALROUTER_CODEX_STAGING_PATH'')
      in if (source = None) \<noteq> (staging = None)
         then Inl (SdkError ''Codex home staging requires both source and staging paths'')
         else Inr (\<lparr>cc_auth_mode = auth, cc_api_key = api_key, cc_environ = env,
                     cc_home_source = source, cc_home_staging = staging,
                     cc_operation_timeout = timeout, cc_codex_bin = codex_bin,
                     cc_sdk_environment = map_option (\<lambda>p. (''CODEX_HOME'', str_path p)) staging\<rparr>,
                   source = None))"

text \<open>
  \<open>cx_deadline t w w'\<close> says that the deadline of a block entered in \<open>w\<close> has passed in \<open>w'\<close>;
  \<open>cx_effort\<close> is the constructor of the SDK enum \<open>ReasoningEffort\<close>, \<open>cx_process\<close> the
  child process behind the private attributes of the SDK client.
\<close>

record thread_request =
  tr_approval_mode :: string
  tr_cwd :: string
  tr_developer_instructions :: "string option"
  tr_model :: string
  tr_sandbox :: string

record 'w codex_ports =
  cx_open :: "string option \<Rightarrow> (string \<times> string) option \<Rightarrow> ('w, unit) eff"
  cx_close :: "('w, unit) eff"
  cx_process :: "'w \<Rightarrow> bool"
  cx_close_streams :: "('w, unit) eff"
  cx_models :: "('w, string list) eff"
  cx_account :: "('w, bool) eff"
  cx_login_api_key :: "string \<Rightarrow> ('w, unit) eff"
  cx_thread_start :: "thread_request \<Rightarrow> ('w, string) eff"
  cx_thread_resume :: "string \<Rightarrow> thread_request \<Rightarrow> ('w, string) eff"
  cx_run :: "string \<Rightarrow> string \<Rightarrow> string \<Rightarrow> json option \<Rightarrow> ('w, turn_result) eff"
  cx_effort :: "string \<Rightarrow> string result"
  cx_deadline :: "pyfloat \<Rightarrow> 'w \<Rightarrow> 'w \<Rightarrow> bool"
  cx_resolve :: "path \<Rightarrow> bool \<Rightarrow> ('w, path) eff"
  cx_is_dir :: "path \<Rightarrow> ('w, bool) eff"
  cx_is_file :: "path \<Rightarrow> ('w, bool) eff"
  cx_mkdir :: "path \<Rightarrow> nat \<Rightarrow> ('w, unit) eff"
  cx_chmod :: "path \<Rightarrow> nat \<Rightarrow> ('w, unit) eff"
  cx_copy :: "path \<Rightarrow> path \<Rightarrow> ('w, unit) eff"

type_synonym ('w, 'a) sdk = "(bool \<times> 'w, 'a) eff"

definition sdk_lift :: "('w, 'a) eff \<Rightarrow> ('w, 'a) sdk" where
  "sdk_lift m = (\<lambda>(b, w). case m w of (r, w') \<Rightarrow> (r, (b, w')))"

section \<open>Staging\<close>

definition session_files :: "string list" where
  "session_files = [''auth.json'', ''config.toml'', ''models_cache.json'']"

definition child :: "path \<Rightarrow> string \<Rightarrow> path" where
  "child p name = path_join p (path_of name)"

fun copy_session_files :: "'w codex_ports \<Rightarrow> path \<Rightarrow> path \<Rightarrow> string list \<Rightarrow> ('w, unit) eff" where
  "copy_session_files p source staging [] = io_return ()"
| "copy_session_files p source staging (name # names) =
     io_bind (cx_is_file p (child source name)) (\<lambda>present.
     io_bind (if present
              then io_bind (cx_copy p (child source name) (child staging name)) (\<lambda>_.
                     cx_chmod p (child staging name) 0x180)
              else io_return ()) (\<lambda>_.
       copy_session_files p source staging names))"

text \<open>0x1C0 is the mode 0700, 0x180 the mode 0600.\<close>

definition stage_codex_home :: "'w codex_ports \<Rightarrow> path \<Rightarrow> path \<Rightarrow> ('w, unit) eff" where
  "stage_codex_home p source staging =
     io_bind (cx_resolve p source True) (\<lambda>rsource.
     io_bind (cx_is_dir p rsource) (\<lambda>dir.
       if \<not> dir then io_raise (PyOSError (str_path rsource))
       else io_bind (cx_resolve p staging False) (\<lambda>rstaging.
         if rstaging = rsource
         then io_raise (PyOSError ''Codex staging path must differ from the read-only source'')
         else io_bind (cx_mkdir p rstaging 0x1C0) (\<lambda>_.
              io_bind (cx_chmod p rstaging 0x1C0) (\<lambda>_.
                copy_session_files p rsource rstaging session_files)))))"

text \<open>\<open>_stage_codex_home_once\<close>; the lock of \<open>_prepare_codex_home\<close> serializes its callers.\<close>

definition is_os_error :: "exn \<Rightarrow> bool" where
  "is_os_error e \<longleftrightarrow> (case e of PyOSError _ \<Rightarrow> True | PyTimeoutError _ \<Rightarrow> True | _ \<Rightarrow> False)"

definition stage_once :: "codex_client \<Rightarrow> 'w codex_ports \<Rightarrow> ('w, unit) sdk" where
  "stage_once c p = (\<lambda>(staged, w).
     if staged then (Inr (), (staged, w))
     else (case (cc_home_source c, cc_home_staging c) of
             (Some source, Some staging) \<Rightarrow>
               (case stage_codex_home p source staging w of
                  (Inl e, w') \<Rightarrow>
                    (Inl (if is_os_error e
                          then AuthenticationError ''Cannot stage the selected Codex authentication session''
                          else e), (staged, w'))
                | (Inr _, w') \<Rightarrow> (Inr (), (True, w')))
           | _ \<Rightarrow> (Inl (SdkError ''Codex home staging paths are incomplete''), (staged, w))))"

definition prepare_codex_home :: "codex_client \<Rightarrow> 'w codex_ports \<Rightarrow> ('w, unit) sdk" where
  "prepare_codex_home c p = (\<lambda>(staged, w).
     if staged then (Inr (), (staged, w)) else stage_once c p (staged, w))"

section \<open>Turns\<close>

text \<open>A cleanup that raises replaces the outcome of its body, as in a plain \<open>finally\<close> clause.\<close>

definition io_ensure :: "('w, 'a) eff \<Rightarrow> ('w \<Rightarrow> ('w, unit) eff) \<Rightarrow> ('w, 'a) eff" where
  "io_ensure m c = (\<lambda>w. case m w of (r, w') \<Rightarrow>
     (case c w' w' of (Inl e, w'') \<Rightarrow> (Inl e, w'') | (Inr _, w'') \<Rightarrow> (r, w'')))"

text \<open>
  \<open>_managed_codex\<close>: the process is read when the body ends; its streams are closed after the
  SDK client is.
\<close>

definition managed_codex :: "codex_client \<Rightarrow> 'w codex_ports \<Rightarrow> ('w, 'a) sdk \<Rightarrow> ('w, 'a) sdk" where
  "managed_codex c p body =
     io_bind (sdk_lift (cx_open p (cc_codex_bin c) (cc_sdk_environment c))) (\<lambda>_.
       \<lambda>bw. case body bw of (r, bw') \<Rightarrow>
         io_ensure (io_ensure (\<lambda>_. (r, bw')) (\<lambda>_. sdk_lift (cx_close p)))
           (\<lambda>_. if cx_process p (snd bw') then sdk_lift (cx_close_streams p) else io_return ()) bw)"

definition authenticate_raw :: "codex_client \<Rightarrow> 'w codex_ports \<Rightarrow> ('w, unit) sdk" where
  "authenticate_raw c p =
     (if cc_auth_mode c = ExistingSession
      then io_bind (sdk_lift (cx_account p)) (\<lambda>account.
             if account then io_return ()
             else io_raise (AuthenticationError
               ''No authenticated Codex session is available; log in with Codex first''))
      else (let key = (case cc_api_key c of
                         Some k \<Rightarrow> if k = [] then map_of (cc_environ c) ''OPENAI_API_KEY'' else Some k
                       | None \<Rightarrow> map_of (cc_environ c) ''OPENAI_API_KEY'')
            in (case key of
                  None \<Rightarrow> io_raise (AuthenticationError
                    ''API-key authentication requires OPENAI_API_KEY or an explicit API key'')
                | Some k \<Rightarrow>
                    if k = [] then io_raise (AuthenticationError
                      ''API-key authentication requires OPENAI_API_KEY or an explicit API key'')
                    else sdk_lift (cx_login_api_key p k))))"

definition is_auth_error :: "exn \<Rightarrow> bool" where
  "is_auth_error e \<longleftrightarrow> (case e of AuthenticationError _ \<Rightarrow> True | _ \<Rightarrow> False)"

definition authenticate :: "codex_client \<Rightarrow> 'w codex_ports \<Rightarrow> ('w, unit) sdk" where
  "authenticate c p =
     io_map_error (\<lambda>e. if is_auth_error e \<or> \<not> is_exception e then e
                       else AuthenticationError (''The selected '' @ auth_mode_value (cc_auth_mode c)
                              @ '' authentication mode failed''))
       (authenticate_raw c p)"

text \<open>\<open>asyncio.timeout\<close> turns the cancellation that its own deadline caused into \<open>TimeoutError\<close>.\<close>

definition io_timeout :: "'w codex_ports \<Rightarrow> pyfloat \<Rightarrow> ('w, 'a) sdk \<Rightarrow> ('w, 'a) sdk" where
  "io_timeout p t m = (\<lambda>bw. case m bw of
      (Inl (PyCancelledError s), bw') \<Rightarrow>
        (Inl (if cx_deadline p t (snd bw) (snd bw') then PyTimeoutError [] else PyCancelledError s), bw')
    | (r, bw') \<Rightarrow> (r, bw'))"

text \<open>The \<open>except\<close> clauses around a turn and around the model listing.\<close>

definition sdk_errors :: "exn \<Rightarrow> string \<Rightarrow> exn \<Rightarrow> exn" where
  "sdk_errors timeout_error message e =
     (case e of
        PyTimeoutError _ \<Rightarrow> timeout_error
      | AuthenticationError _ \<Rightarrow> e
      | SdkError _ \<Rightarrow> e
      | _ \<Rightarrow> if is_exception e then SdkError message else e)"

fun sdk_sandbox :: "sandbox_mode \<Rightarrow> string" where
  "sdk_sandbox SandboxReadOnly = ''read_only''"
| "sdk_sandbox SandboxWorkspaceWrite = ''workspace_write''"

text \<open>The frozenset of identifiers is a list without duplicates; only membership is used.\<close>

definition available_models :: "codex_client \<Rightarrow> 'w codex_ports \<Rightarrow> ('w, string list) sdk" where
  "available_models c p =
     io_map_error
       (sdk_errors (SdkError ''Timed out while listing available Codex models'')
          ''Codex SDK could not list available models'')
       (io_timeout p (cc_operation_timeout c)
         (io_bind (prepare_codex_home c p) (\<lambda>_.
            managed_codex c p
              (io_bind (authenticate c p) (\<lambda>_.
               io_bind (sdk_lift (cx_models p)) (\<lambda>ids. io_return (remdups ids)))))))"

text \<open>Both turn methods differ in how they get the thread.\<close>

definition run_turn ::
  "codex_client \<Rightarrow> 'w codex_ports \<Rightarrow> route_decision \<Rightarrow> string \<Rightarrow> json option \<Rightarrow> ('w, string) eff
   \<Rightarrow> ('w, work_result) sdk" where
  "run_turn c p rt prompt schema get_thread =
     io_bind (prepare_codex_home c p) (\<lambda>_.
       managed_codex c p
         (io_bind (authenticate c p) (\<lambda>_.
          io_bind (sdk_lift get_thread) (\<lambda>thread.
          io_bind (io_lift (cx_effort p (rd_reasoning_effort rt))) (\<lambda>effort.
          io_bind (sdk_lift (cx_run p thread prompt effort schema)) (\<lambda>turn.
            io_lift (normalize_result rt thread turn)))))))"

definition turn_timeout_error :: "route_decision \<Rightarrow> exn" where
  "turn_timeout_error rt =
     TurnTimeoutError (''Codex turn exceeded the '' @ str_of_int (rd_timeout_seconds rt) @ ''-second timeout'')"

definition run_new_thread ::
  "codex_client \<Rightarrow> 'w codex_ports \<Rightarrow> path \<Rightarrow> route_decision \<Rightarrow> string \<Rightarrow> string \<Rightarrow> json option
   \<Rightarrow> ('w, work_result) sdk" where
  "run_new_thread c p project rt prompt instructions schema =
     io_map_error (sdk_errors (turn_timeout_error rt) ''Codex SDK could not complete a new thread'')
       (io_timeout p (norm_dec (rd_timeout_seconds rt) 0)
         (run_turn c p rt prompt schema
           (cx_thread_start p \<lparr>tr_approval_mode = ''deny_all'', tr_cwd = str_path project,
              tr_developer_instructions = Some instructions, tr_model = rd_model rt,
              tr_sandbox = sdk_sandbox (rd_sandbox rt)\<rparr>)))"

definition resume_thread ::
  "codex_client \<Rightarrow> 'w codex_ports \<Rightarrow> string \<Rightarrow> path \<Rightarrow> route_decision \<Rightarrow> string \<Rightarrow> json option
   \<Rightarrow> ('w, work_result) sdk" where
  "resume_thread c p thread_id project rt prompt schema =
     io_map_error (sdk_errors (turn_timeout_error rt) ''Codex SDK could not resume the stored thread'')
       (io_timeout p (norm_dec (rd_timeout_seconds rt) 0)
         (run_turn c p rt prompt schema
           (cx_thread_resume p thread_id \<lparr>tr_approval_mode = ''deny_all'', tr_cwd = str_path project,
              tr_developer_instructions = None, tr_model = rd_model rt,
              tr_sandbox = sdk_sandbox (rd_sandbox rt)\<rparr>)))"

section \<open>What a turn can end with\<close>

lemma normalize_result_Inr:
  assumes "normalize_result rt thread turn = Inr r"
  shows "wr_status r = Succeeded" and "wr_thread_id r = Some thread" and "wr_turn_id r = Some (tn_id turn)"
    and "wr_final_response r = tn_final_response turn" and "wr_final_response r \<noteq> None"
    and "tn_status turn = ''completed''" and "wr_error r = None"
  using assms by (auto simp: normalize_result_def Let_def split: if_splits)

lemma io_ensure_Inr: "io_ensure m c w = (Inr a, w') \<Longrightarrow> \<exists>v. m w = (Inr a, v)"
  by (auto simp: io_ensure_def split: prod.splits sum.splits)

lemma managed_codex_Inr:
  assumes "managed_codex c p body bw = (Inr a, bw')"
  shows "\<exists>v v'. body v = (Inr a, v')"
proof -
  obtain u v where body: "(case body v of (r, v') \<Rightarrow>
         io_ensure (io_ensure (\<lambda>_. (r, v')) (\<lambda>_. sdk_lift (cx_close p)))
           (\<lambda>_. if cx_process p (snd v') then sdk_lift (cx_close_streams p) else io_return ()) v) = (Inr a, bw')"
    using assms unfolding managed_codex_def by (auto simp: io_bind_Inr_iff)
  obtain r v' where b: "body v = (r, v')" by (cases "body v")
  from body have "\<exists>x. io_ensure (\<lambda>_. (r, v')) (\<lambda>_. sdk_lift (cx_close p)) v = (Inr a, x)"
    unfolding b prod.case by (rule io_ensure_Inr)
  then have "\<exists>x. (r, v') = (Inr a, x)" using io_ensure_Inr by metis
  then show ?thesis using b by blast
qed

lemma io_timeout_Inr: "io_timeout p t m bw = (Inr a, bw') \<Longrightarrow> m bw = (Inr a, bw')"
  by (auto simp: io_timeout_def split: prod.splits sum.splits exn.splits)

lemma run_turn_Inr:
  assumes "run_turn c p rt prompt schema get_thread bw = (Inr r, bw')"
  shows "\<exists>thread turn. normalize_result rt thread turn = Inr r"
proof -
  obtain b v where "managed_codex c p
         (io_bind (authenticate c p) (\<lambda>_.
          io_bind (sdk_lift get_thread) (\<lambda>thread.
          io_bind (io_lift (cx_effort p (rd_reasoning_effort rt))) (\<lambda>effort.
          io_bind (sdk_lift (cx_run p thread prompt effort schema)) (\<lambda>turn.
            io_lift (normalize_result rt thread turn)))))) v = (Inr r, bw')"
    using assms unfolding run_turn_def by (elim io_bind_Inr_E) blast
  from managed_codex_Inr [OF this] show ?thesis
    by (auto simp: io_bind_Inr_iff)
qed

lemma turn_succeeds:
  assumes "run_new_thread c p project rt prompt dev schema bw = (Inr r, bw')
     \<or> resume_thread c p thread project rt prompt schema bw = (Inr r, bw')"
  shows "\<exists>thread turn. normalize_result rt thread turn = Inr r"
  using assms unfolding run_new_thread_def resume_thread_def io_map_error_Inr_iff
  by (blast dest: io_timeout_Inr run_turn_Inr)

text \<open>The errors that a turn lets out.\<close>

definition turn_error :: "exn \<Rightarrow> bool" where
  "turn_error e \<longleftrightarrow> (case e of
      SdkError _ \<Rightarrow> True | AuthenticationError _ \<Rightarrow> True | TurnTimeoutError _ \<Rightarrow> True
    | PyCancelledError _ \<Rightarrow> True | _ \<Rightarrow> False)"

lemma sdk_errors_closed: "turn_error t \<Longrightarrow> turn_error (sdk_errors t m e)"
  by (cases e) (simp_all add: sdk_errors_def turn_error_def is_exception_def)

lemma io_map_error_Inl: "io_map_error g m w = (Inl e, w') \<Longrightarrow> \<exists>e'. e = g e'"
  by (auto simp: io_map_error_def split: prod.splits sum.splits)

lemma turn_errors:
  "run_new_thread c p project rt prompt dev schema bw = (Inl e, bw') \<Longrightarrow> turn_error e"
  "resume_thread c p thread project rt prompt schema bw = (Inl e, bw') \<Longrightarrow> turn_error e"
  "available_models c p bw = (Inl e, bw') \<Longrightarrow> turn_error e"
proof -
  have "turn_error (turn_timeout_error rt)" and "turn_error (SdkError m)" for m
    by (simp_all add: turn_error_def turn_timeout_error_def)
  note closed = this [THEN sdk_errors_closed]
  show "run_new_thread c p project rt prompt dev schema bw = (Inl e, bw') \<Longrightarrow> turn_error e"
    "resume_thread c p thread project rt prompt schema bw = (Inl e, bw') \<Longrightarrow> turn_error e"
    "available_models c p bw = (Inl e, bw') \<Longrightarrow> turn_error e"
    unfolding run_new_thread_def resume_thread_def available_models_def
    by (drule io_map_error_Inl, elim exE, simp only: closed)+
qed

section \<open>The adapter under the scheduler\<close>

definition codex_call :: "codex_client \<Rightarrow> 'w codex_ports \<Rightarrow> client_call \<Rightarrow> ('w, work_result) sdk" where
  "codex_call c p call =
     (case call of
        NewThread project rt prompt dev \<Rightarrow> run_new_thread c p project rt prompt dev None
      | ResumeThread thread project rt prompt \<Rightarrow> resume_thread c p thread project rt prompt None)"

text \<open>
  \<open>asyncio.TaskGroup\<close> over the children of a batch: they end in some order, which the world
  decides; a child that was cancelled itself does not stop the others, the first other failure
  cancels those that have not ended; a \<open>BaseException\<close> of the owner is not modelled.
\<close>

fun end_children ::
  "(client_call \<Rightarrow> ('w, work_result) eff) \<Rightarrow> client_call result list \<Rightarrow> nat list \<Rightarrow> outcome list
   \<Rightarrow> ('w, outcome list) eff" where
  "end_children call cs [] ocs w = (Inr ocs, w)"
| "end_children call cs (i # order) ocs w =
     (if length cs \<le> i then end_children call cs order ocs w
      else (case (case cs ! i of Inl e \<Rightarrow> (Inl e, w) | Inr c \<Rightarrow> call c w) of
              (Inr r, w') \<Rightarrow> end_children call cs order (ocs[i := Returned r]) w'
            | (Inl e, w') \<Rightarrow>
                if is_exception e then (Inr (ocs[i := Raised e]), w')
                else end_children call cs order (ocs[i := Cancelled]) w'))"

definition task_group ::
  "(client_call \<Rightarrow> ('w, work_result) eff) \<Rightarrow> ('w \<Rightarrow> nat list) \<Rightarrow> client_call result list
   \<Rightarrow> ('w, outcome list) eff" where
  "task_group call order cs = (\<lambda>w. end_children call cs (order w) (replicate (length cs) Cancelled) w)"

lemma end_children_outcomes:
  assumes "end_children call cs order ocs w = (Inr ocs', w')"
    and "\<And>c v r v'. call c v = (Inr r, v') \<Longrightarrow> ok r" and "\<forall>r. Returned r \<in> set ocs \<longrightarrow> ok r"
  shows "length ocs' = length ocs \<and> (\<forall>r. Returned r \<in> set ocs' \<longrightarrow> ok r)"
  using assms
proof (induction call cs order ocs w rule: end_children.induct)
  case (1 call cs ocs w)
  then show ?case by simp
next
  case (2 call cs i order ocs w)
  note IH = "2.IH" and call_ok = "2.prems"(2) and start = "2.prems"(3)
  have upd: "\<forall>r. Returned r \<in> set (ocs[i := oc]) \<longrightarrow> ok r" if "\<And>r. oc = Returned r \<Longrightarrow> ok r" for oc
    using start that set_update_subset_insert [of ocs i oc] by blast
  obtain x v where x: "(case cs ! i of Inl e \<Rightarrow> (Inl e, w) | Inr c \<Rightarrow> call c w) = (x, v)"
    by (cases "case cs ! i of Inl e \<Rightarrow> (Inl e, w) | Inr c \<Rightarrow> call c w")
  note run = "2.prems"(1) [unfolded end_children.simps x]
  show ?case
  proof (cases "length cs \<le> i")
    case True
    then have "end_children call cs order ocs w = (Inr ocs', w')" using run by simp
    from IH(1) [OF True this call_ok start] show ?thesis by simp
  next
    case i: False
    show ?thesis
    proof (cases x)
      case (Inl e)
      show ?thesis
      proof (cases "is_exception e")
        case True
        then have "ocs' = ocs[i := Raised e]" using run i Inl by simp
        then show ?thesis using upd [of "Raised e"] by simp
      next
        case cancelled: False
        then have "end_children call cs order (ocs[i := Cancelled]) v = (Inr ocs', w')"
          using run i Inl by simp
        moreover have "\<forall>r. Returned r \<in> set (ocs[i := Cancelled]) \<longrightarrow> ok r" by (intro upd) simp
        ultimately show ?thesis using IH(2) [OF i x [symmetric] Inl cancelled _ call_ok] by simp
      qed
    next
      case (Inr r)
      then have "ok r" using x call_ok by (auto split: sum.splits)
      then have new: "\<forall>s. Returned s \<in> set (ocs[i := Returned r]) \<longrightarrow> ok s" by (intro upd) simp
      have "end_children call cs order (ocs[i := Returned r]) v = (Inr ocs', w')" using run i Inr by simp
      from IH(3) [OF i x [symmetric] Inr this call_ok new] show ?thesis by simp
    qed
  qed
qed

text \<open>The ports of a scheduler over this adapter; the limit is positive.\<close>

definition codex_scheduler ::
  "codex_client \<Rightarrow> 'w codex_ports \<Rightarrow> (bool \<times> 'w \<Rightarrow> nat list) \<Rightarrow> (bool \<times> 'w) sched_ports \<Rightarrow> nat
   \<Rightarrow> (bool \<times> 'w) sched_ports" where
  "codex_scheduler c p order sp n =
     sp\<lparr>sp_call := codex_call c p, sp_group := task_group (codex_call c p) order,
        sp_max_read_concurrency := Suc n\<rparr>"

lemma codex_call_terminal: "codex_call c p call bw = (Inr r, bw') \<Longrightarrow> \<not> resumable_status (wr_status r)"
proof -
  assume "codex_call c p call bw = (Inr r, bw')"
  have "\<exists>rt thread turn. normalize_result rt thread turn = Inr r"
  proof (cases call)
    case (NewThread project rt prompt dev)
    then show ?thesis using \<open>codex_call c p call bw = (Inr r, bw')\<close>
      unfolding codex_call_def by simp (blast dest: turn_succeeds [OF disjI1])
  next
    case (ResumeThread thread project rt prompt)
    then show ?thesis using \<open>codex_call c p call bw = (Inr r, bw')\<close>
      unfolding codex_call_def by simp (blast dest: turn_succeeds [OF disjI2])
  qed
  then show ?thesis by (auto dest: normalize_result_Inr(1) simp: resumable_status_def)
qed

interpretation codex: client_contract "codex_scheduler c p order sp n"
proof unfold_locales
  fix call bw r bw'
  show "sp_call (codex_scheduler c p order sp n) call bw = (Inr r, bw') \<Longrightarrow> \<not> resumable_status (wr_status r)"
    by (simp add: codex_scheduler_def codex_call_terminal)
next
  fix cs bw ocs bw'
  assume "sp_group (codex_scheduler c p order sp n) cs bw = (Inr ocs, bw')"
  then have "end_children (codex_call c p) cs (order bw) (replicate (length cs) Cancelled) bw = (Inr ocs, bw')"
    by (simp add: codex_scheduler_def task_group_def)
  from end_children_outcomes [OF this, of "\<lambda>r. \<not> resumable_status (wr_status r)"]
  have ocs: "length ocs = length cs \<and> (\<forall>r. Returned r \<in> set ocs \<longrightarrow> \<not> resumable_status (wr_status r))"
    by (auto dest: codex_call_terminal)
  then show "length ocs = length cs" by simp
  show "\<And>r. Returned r \<in> set ocs \<Longrightarrow> \<not> resumable_status (wr_status r)" using ocs by simp
qed (simp add: codex_scheduler_def)

end
