(* ===== verification/Scheduler_Properties.thy ===== *)
theory Scheduler_Properties
  imports Examples Scheduler_Trace Codex_Sdk
begin

text \<open>
  The properties of the scheduler and of the SDK adapter under it: what a run may change, which
  results it may record, how it ends, and in which order it uses its collaborators.
\<close>

section \<open>A run of two items\<close>

definition ex_sched :: "unit sched_ports" where
  "ex_sched = \<lparr>sp_save = (\<lambda>_. io_return ()), sp_append_event = (\<lambda>_ _. io_return ()),
     sp_acquire = (\<lambda>_. io_return ()), sp_release = (\<lambda>_. io_return ()),
     sp_call = (\<lambda>_. io_return (ex_result ''code'' Succeeded)),
     sp_group = (\<lambda>cs. io_return (map (\<lambda>_. Returned (ex_result ''code'' Succeeded)) cs)),
     sp_now = io_return ex_time, sp_sha = (\<lambda>s. s), sp_max_read_concurrency = 2\<rparr>"

definition ex_first :: run_state where
  "ex_first = (ex_state Automatic)\<lparr>st_results := [(''a'', ex_result ''a'' Succeeded)], st_status := RunRunning\<rparr>"

definition ex_second :: run_state where
  "ex_second = (ex_state Automatic)\<lparr>st_results := [(''a'', ex_result ''a'' Succeeded), (''b'', ex_result ''b'' Succeeded)],
     st_status := RunRunning\<rparr>"

definition ex_finished :: run_state where
  "ex_finished = ex_second\<lparr>st_status := RunCompleted\<rparr>"

lemmas run_defs = get_state_def set_state_def lift_world_def modify_state_def save_state_def
  persist_result_def dispatch_def run_one_def run_read_batch_def run_writer_def run_readers_def
  io_bind_def io_finally_def

lemma ex_pending:
  "pending_items (ex_state Automatic) = [ex_item ''a'' [] AccessReadOnly {||}, ex_item ''b'' [''a''] AccessWorkspaceWrite {||}]"
  "pending_items ex_first = [ex_item ''b'' [''a''] AccessWorkspaceWrite {||}]"
  "pending_items ex_second = []"
  by (simp_all add: pending_items_def ex_first_def ex_second_def ex_state_def sorted_keys_def is_pending_def ex_result_def resumable_status_def)

lemma ex_dispatchable:
  "dispatchable sha (ex_state Automatic) = [ex_item ''a'' [] AccessReadOnly {||}]"
  "dispatchable sha ex_first = [ex_item ''b'' [''a''] AccessWorkspaceWrite {||}]"
  "dispatchable sha ex_second = []"
  by (simp_all add: dispatchable_def ex_pending dependencies_succeeded_def ex_item_def)
    (simp_all add: ex_first_def ex_second_def ex_state_def ex_result_def require_dispatchable_def require_item_and_route_def ex_route_def)

lemma ex_blocked: "newly_blocked (ex_state Automatic) = []" "newly_blocked ex_first = []" "newly_blocked ex_second = []"
  by (simp_all add: newly_blocked_def ex_pending has_failed_dependency_def ex_item_def)
    (simp_all add: ex_first_def ex_second_def ex_state_def ex_result_def dependency_failure_def)

definition ex_event :: "string \<Rightarrow> action" where
  "ex_event wid = AEvent ''r1'' \<lparr>ev_timestamp = ex_time, ev_event = ''work-item-finished'',
     ev_work_item_id = Some wid, ev_details = [(''status'', JStr ''succeeded'')]\<rparr>"

definition ex_call :: client_call where
  "ex_call = NewThread (Path ''/'' [''p'']) (ex_route Automatic) ''do''
     ''Respect the declared sandbox and make only the bounded change described by the work item.''"

definition ex_log :: "action list" where
  "ex_log =
     [AGroup [Inr ex_call],
      ASave ex_first, ex_event ''a'', ASave (ex_first\<lparr>st_status := RunPlanned\<rparr>),
      AAcquire (Path ''/'' [''p'']),
      ACall ex_call,
      ASave ex_second, ex_event ''b'', ARelease (Path ''/'' [''p'']), ASave ex_finished]"

lemma ex_dispatch_call:
  "dispatch_call ((ex_state Automatic)\<lparr>st_status := x\<rparr>) (ex_item ''a'' [] AccessReadOnly {||}) =
     Inr ex_call"
  "dispatch_call (ex_first\<lparr>st_status := x\<rparr>) (ex_item ''b'' [''a''] AccessWorkspaceWrite {||}) =
     Inr ex_call"
  by (simp_all add: dispatch_call_def developer_instructions_def ex_item_def ex_first_def ex_state_def
      ex_objective_def ex_repository_def ex_call_def)

lemma ex_step_1: "run_step (traced ex_sched) (ex_state Automatic, ((), [])) = (Inr True, (ex_first, ((), take 3 ex_log)))"
  by (simp add: run_step_def run_defs ex_blocked ex_dispatchable traced_simps log_start_def log_success_def
      log_nothing_def ex_sched_def is_writer_def ex_dispatch_call ex_log_def ex_event_def)
    (simp add: ex_item_def ex_first_def ex_state_def ex_objective_def ex_result_def outcome_result_def run_id_def)

lemma ex_step_2: "run_step (traced ex_sched) (ex_first, ((), take 3 ex_log)) = (Inr True, (ex_second, ((), take 9 ex_log)))"
proof -
  have d: "require_dispatchable sha (ex_first\<lparr>st_status := x\<rparr>) ''b'' = Inr ()" for sha x
    by (simp add: ex_first_def ex_state_def require_dispatchable_def require_item_and_route_def ex_route_def)
  have s: "st_status ex_first = RunRunning" "st_objective ex_first = ex_objective"
    by (simp_all add: ex_first_def ex_state_def)
  have i: "wi_id (ex_item ''b'' deps acc flags) = ''b''" "wi_access (ex_item wid deps acc flags) = acc" for wid deps acc flags
    by (simp_all add: ex_item_def)
  show ?thesis
    by (simp add: run_step_def run_defs ex_blocked ex_dispatchable traced_simps log_start_def log_success_def
        log_nothing_def ex_sched_def is_writer_def i s d pre_writer_status_def ex_dispatch_call ex_log_def ex_event_def)
      (simp add: ex_first_def ex_second_def ex_state_def ex_objective_def ex_result_def run_id_def)
qed

lemma ex_run:
  "run_ready (traced ex_sched) (ex_state Automatic, ((), [])) = (Inr (), (ex_finished, ((), ex_log)))"
proof -
  have n: "length (st_work_items (ex_state Automatic)) = Suc (Suc 0)" by (simp add: ex_state_def)
  have f: "final_status ex_second = Inr RunCompleted" "st_status ex_second = RunRunning"
    by (simp_all add: ex_second_def final_status_def ex_state_def ex_result_def)
  have save: "sp_save (traced ex_sched) s ((), l) = (Inr (), ((), l @ [ASave s]))" for s l
    by (simp add: traced_simps log_success_def ex_sched_def)
  have loop: "run_loop (Suc (Suc 0)) (traced ex_sched) (ex_state Automatic, ((), [])) = (Inr (), (ex_second, ((), take 9 ex_log)))"
    by (simp add: io_bind_def ex_step_1 ex_step_2)
  show ?thesis
    by (simp add: run_ready_def n loop finish_run_def run_defs f save ex_finished_def del: run_loop.simps)
      (simp add: ex_log_def ex_finished_def)
qed

lemma ex_keyed: "keyed (ex_state approval)"
  by (auto simp: keyed_def ex_state_def dict_ok_def ex_item_def split: if_splits)

section \<open>What a run may change\<close>

lemma run_ready_spec:
  assumes "keyed s0" and "run_ready p (s0, w) = (r, (s, w'))"
  shows "sched_inv (sp_sha p) s0 s"
  using io_spec_Inr [OF spec_run_ready [OF assms(1)], of "(s0, w)" p _ "(s, w')"]
    io_spec_Inl [OF spec_run_ready [OF assms(1)], of "(s0, w)" p _ "(s, w')"] assms(2)
  by (cases r) (auto simp: on_state_def)

text \<open>
  Whatever the store, the client, the lease and the clock do, and whether \<open>run_ready\<close>
  returns or raises, it changes nothing of the run but results and status, and the result of an
  item that was finished (succeeded, failed or blocked) stays as it was.
\<close>

theorem run_keeps_finished_results:
  assumes "keyed s0" and "run_ready p (s0, w) = (r, (s, w'))"
  shows "s = s0\<lparr>st_results := st_results s, st_status := st_status s\<rparr>
    \<and> (\<forall>k. \<not> is_pending s0 k \<longrightarrow> map_of (st_results s) k = map_of (st_results s0) k)"
proof -
  have i: "sched_inv (sp_sha p) s0 s" using assms by (rule run_ready_spec)
  then have "same_plan s0 s" by (simp add: sched_inv_def)
  moreover have "\<not> is_pending s0 k \<longrightarrow> map_of (st_results s) k = map_of (st_results s0) k" for k
    using i by (simp add: sched_inv_def finished_def)
  ultimately show ?thesis unfolding same_plan_def by blast
qed

lemma run_keeps_finished_results_witness:
  "ex_finished = (ex_state Automatic)\<lparr>st_results := st_results ex_finished, st_status := st_status ex_finished\<rparr>"
  using run_keeps_finished_results [OF ex_keyed ex_run] by blast

text \<open>
  C2. Every new result is earned. It belongs to an item of the plan that had no final result
  before, and either all dependencies of the item have succeeded and its dispatch was allowed
  (\<open>require_dispatchable\<close>), or it says \<open>blocked\<close> and a dependency has failed or is blocked.
\<close>

theorem new_results_are_earned:
  assumes "keyed s0" and "run_ready p (s0, w) = (r, (s, w'))"
    and "map_of (st_results s) k = Some res" and "map_of (st_results s0) k \<noteq> Some res"
  shows "is_pending s0 k \<and> wr_work_item_id res = k
    \<and> (\<exists>item. map_of (st_work_items s0) k = Some item
         \<and> (require_dispatchable (sp_sha p) s0 k = Inr () \<and> dependencies_succeeded s item
            \<or> wr_status res = Blocked \<and> has_failed_dependency s item))"
proof -
  have i: "sched_inv (sp_sha p) s0 s" using assms(1,2) by (rule run_ready_spec)
  then have same: "same_plan s0 s" by (simp add: sched_inv_def)
  have "is_pending s0 k \<and> earned (sp_sha p) s k res" using i assms(3,4) by (auto simp: sched_inv_def)
  then show ?thesis
    by (auto simp: earned_def may_run_def must_block_def same_plan_simps(1,8) [OF same])
qed

lemma new_results_are_earned_witness:
  "is_pending (ex_state Automatic) ''b'' \<and> wr_work_item_id (ex_result ''b'' Succeeded) = ''b''"
  using new_results_are_earned [OF ex_keyed ex_run, of "''b''" "ex_result ''b'' Succeeded"]
  by (simp add: ex_finished_def ex_second_def ex_state_def)

section \<open>How a run ends\<close>

definition results_of_items :: "run_state \<Rightarrow> bool" where
  "results_of_items s \<longleftrightarrow> set (dkeys (st_results s)) \<subseteq> set (dkeys (st_work_items s))"

lemma final_status_cases:
  assumes "final_status s = Inr x"
  defines "S \<equiv> set (map (\<lambda>kr. wr_status (snd kr)) (st_results s))"
  shows "x = RunFailed \<longleftrightarrow> Failed \<in> S"
    and "x = RunCompleted \<longleftrightarrow> Failed \<notin> S \<and> Blocked \<notin> S
      \<and> length (st_results s) = length (st_work_items s) \<and> S \<subseteq> {Succeeded}"
proof -
  let ?all_done = "length (st_results s) = length (st_work_items s) \<and> S \<subseteq> {Succeeded}"
  have fs: "(if Failed \<in> S then Inr RunFailed else if Blocked \<in> S then Inr RunBlocked
       else if ?all_done then Inr RunCompleted
       else rbind (missing_approval s (map snd (st_work_items s))) (\<lambda>b.
              Inr (if b then RunAwaitingApproval else RunPlanned))) = Inr x"
    using assms(1) unfolding final_status_def Let_def S_def .
  have rest: "x = RunAwaitingApproval \<or> x = RunPlanned" if "Failed \<notin> S" "Blocked \<notin> S" "\<not> ?all_done"
    using fs that by (auto simp: rbind_eq_Inr_iff split: if_splits)
  show "x = RunFailed \<longleftrightarrow> Failed \<in> S"
    using fs rest by (cases "Failed \<in> S"; cases "Blocked \<in> S"; cases ?all_done) auto
  show "x = RunCompleted \<longleftrightarrow> Failed \<notin> S \<and> Blocked \<notin> S \<and> ?all_done"
    using fs rest by (cases "Failed \<in> S"; cases "Blocked \<in> S"; cases ?all_done) auto
qed

lemma final_status_completed:
  assumes "dict_ok (st_results s)" and "dict_ok (st_work_items s)" and "results_of_items s"
    and "final_status s = Inr x"
  shows "x = RunCompleted \<longleftrightarrow>
     (\<forall>k \<in> set (dkeys (st_work_items s)). \<exists>r. map_of (st_results s) k = Some r \<and> wr_status r = Succeeded)"
proof -
  let ?all = "\<forall>r \<in> snd ` set (st_results s). wr_status r = Succeeded"
  have vals: "r \<in> snd ` set (st_results s) \<longleftrightarrow> (\<exists>k. map_of (st_results s) k = Some r)" for r
    using assms(1) by (force simp: map_of_mem_iff)
  have card: "length (st_results s) = card (set (dkeys (st_results s)))"
    "length (st_work_items s) = card (set (dkeys (st_work_items s)))"
    using assms(1,2) distinct_card [of "dkeys (st_results s)"] distinct_card [of "dkeys (st_work_items s)"]
    by (simp_all add: dict_ok_def)
  have len: "length (st_results s) = length (st_work_items s) \<longleftrightarrow> set (dkeys (st_results s)) = set (dkeys (st_work_items s))"
    using assms(3) card by (metis List.finite_set card_subset_eq results_of_items_def)
  let ?S = "set (map (\<lambda>kr. wr_status (snd kr)) (st_results s))"
  have "x = RunCompleted \<longleftrightarrow> Failed \<notin> ?S \<and> Blocked \<notin> ?S \<and> length (st_results s) = length (st_work_items s) \<and> ?S \<subseteq> {Succeeded}"
    using assms(4) by (rule final_status_cases)
  also have "\<dots> \<longleftrightarrow> ?S \<subseteq> {Succeeded} \<and> length (st_results s) = length (st_work_items s)" by blast
  also have "?S \<subseteq> {Succeeded} \<longleftrightarrow> ?all" by auto
  finally have "x = RunCompleted \<longleftrightarrow> ?all \<and> length (st_results s) = length (st_work_items s)" .
  also have "\<dots> \<longleftrightarrow> (\<forall>k \<in> set (dkeys (st_work_items s)). \<exists>r. map_of (st_results s) k = Some r \<and> wr_status r = Succeeded)"
    (is "_ \<longleftrightarrow> ?items")
  proof
    assume a: "?all \<and> length (st_results s) = length (st_work_items s)"
    show ?items
    proof
      fix k assume "k \<in> set (dkeys (st_work_items s))"
      then have "k \<in> set (dkeys (st_results s))" using a len by simp
      then obtain r where "map_of (st_results s) k = Some r" by (metis map_of_None_iff not_None_eq)
      with a vals show "\<exists>r. map_of (st_results s) k = Some r \<and> wr_status r = Succeeded" by blast
    qed
  next
    assume i: ?items
    then have "set (dkeys (st_work_items s)) \<subseteq> set (dkeys (st_results s))"
      by (metis map_of_Some_key subsetI)
    then have eq: "set (dkeys (st_results s)) = set (dkeys (st_work_items s))"
      using assms(3) by (auto simp: results_of_items_def)
    have ?all
    proof
      fix r assume "r \<in> snd ` set (st_results s)"
      then obtain k where k: "map_of (st_results s) k = Some r" using vals by blast
      then have "k \<in> set (dkeys (st_work_items s))" using eq map_of_Some_key by metis
      then show "wr_status r = Succeeded" using i k by fastforce
    qed
    then show "?all \<and> length (st_results s) = length (st_work_items s)" using eq len by blast
  qed
  finally show ?thesis .
qed

lemma run_ready_closing:
  assumes "keyed s0" and "results_of_items s0" and "run_ready p (s0, w) = (Inr (), (s, w'))"
  shows "results_of_items s \<and> st_status s \<noteq> RunRunning
    \<and> (st_status s = RunFailed \<longleftrightarrow> (\<exists>k r. map_of (st_results s) k = Some r \<and> wr_status r = Failed))
    \<and> (st_status s = RunCompleted \<longleftrightarrow>
        (\<forall>k \<in> set (dkeys (st_work_items s)). \<exists>r. map_of (st_results s) k = Some r \<and> wr_status r = Succeeded))"
proof -
  have i: "sched_inv (sp_sha p) s0 s" using assms(1,3) by (rule run_ready_spec)
  then have k: "keyed s" using assms(1) by (rule sched_inv_keyed)
  have items: "st_work_items s = st_work_items s0"
    using i unfolding sched_inv_def by (blast dest: same_plan_simps(1))
  have "k \<in> set (dkeys (st_work_items s))" if "map_of (st_results s) k = Some r" for k r
  proof -
    have "map_of (st_results s0) k = Some r \<or> earned (sp_sha p) s k r" using i that by (auto simp: sched_inv_def)
    then show ?thesis
      using assms(2) items map_of_Some_key [of "st_results s0" k r] map_of_Some_key [of "st_work_items s0" k]
      by (auto simp: earned_def may_run_def must_block_def results_of_items_def)
  qed
  then have sub: "results_of_items s"
    unfolding results_of_items_def by (metis map_of_None_iff not_None_eq subsetI)
  have fs: "final_status s = Inr (st_status s)"
    using io_spec_Inr [OF spec_run_ready [OF assms(1)] _ assms(3)] by (simp add: on_state_def)
  then have "st_status s = RunFailed \<longleftrightarrow> (\<exists>r \<in> snd ` set (st_results s). wr_status r = Failed)"
    unfolding final_status_cases(1) [OF fs] by force
  also have "\<dots> \<longleftrightarrow> (\<exists>k r. map_of (st_results s) k = Some r \<and> wr_status r = Failed)"
    using k by (force simp: keyed_def map_of_mem_iff)
  finally show ?thesis
    using final_status_not_running [OF fs] final_status_completed [OF _ _ sub fs] k
    by (auto simp: keyed_def sub)
qed

text \<open>
  C21. A run that returns has one of the closing statuses, never \<open>running\<close>: \<open>failed\<close> exactly
  when some result is a failure, and \<open>completed\<close> exactly when every item of the plan has
  succeeded.
\<close>

theorem closing_status:
  assumes "keyed s0" and "results_of_items s0" and "run_ready p (s0, w) = (Inr (), (s, w'))"
  shows "st_status s \<noteq> RunRunning
    \<and> (st_status s = RunFailed \<longleftrightarrow> (\<exists>k r. map_of (st_results s) k = Some r \<and> wr_status r = Failed))
    \<and> (st_status s = RunCompleted \<longleftrightarrow>
        (\<forall>k \<in> set (dkeys (st_work_items s)). \<exists>r. map_of (st_results s) k = Some r \<and> wr_status r = Succeeded))"
  using run_ready_closing [OF assms] by blast

lemma ex_results_of_items: "results_of_items (ex_state approval)"
  by (simp add: results_of_items_def ex_state_def)

lemma closing_status_witness:
  "\<exists>r. map_of (st_results ex_finished) ''b'' = Some r \<and> wr_status r = Succeeded"
proof -
  have "st_status ex_finished = RunCompleted" by (simp add: ex_finished_def)
  moreover have "''b'' \<in> set (dkeys (st_work_items ex_finished))"
    by (simp add: ex_finished_def ex_second_def ex_state_def)
  ultimately show ?thesis using closing_status [OF ex_keyed ex_results_of_items ex_run] by blast
qed

text \<open>A client whose turns all succeed, and a run that waits for an approval.\<close>

definition ex_turn :: turn_result where
  "ex_turn = \<lparr>tn_id = ''t1'', tn_status = ''completed'', tn_final_response = Some ''ok'', tn_items = [],
     tn_usage = None, tn_duration_ms = Some 1500\<rparr>"

definition ex_codex :: "unit codex_ports" where
  "ex_codex = \<lparr>cx_open = (\<lambda>_ _. io_return ()), cx_close = io_return (), cx_process = (\<lambda>_. False),
     cx_close_streams = io_return (), cx_models = io_return [''m1''], cx_account = io_return True,
     cx_login_api_key = (\<lambda>_. io_return ()), cx_thread_start = (\<lambda>_. io_return ''th''),
     cx_thread_resume = (\<lambda>t _. io_return t), cx_run = (\<lambda>_ _ _ _. io_return ex_turn),
     cx_effort = Inr, cx_deadline = (\<lambda>_ _ _. False), cx_resolve = (\<lambda>p _. io_return p),
     cx_is_dir = (\<lambda>_. io_return True), cx_is_file = (\<lambda>_. io_return False),
     cx_mkdir = (\<lambda>_ _. io_return ()), cx_chmod = (\<lambda>_ _. io_return ()), cx_copy = (\<lambda>_ _. io_return ())\<rparr>"

definition ex_client :: codex_client where
  "ex_client = \<lparr>cc_auth_mode = ExistingSession, cc_api_key = None, cc_environ = [], cc_home_source = None,
     cc_home_staging = None, cc_operation_timeout = Fin 3 1, cc_codex_bin = None, cc_sdk_environment = None\<rparr>"

definition ex_gate :: run_state where
  "ex_gate = (ex_state Required)\<lparr>st_work_items := [(''b'', ex_item ''b'' [] AccessReadOnly {||})]\<rparr>"

definition ex_quiet :: "(bool \<times> unit) sched_ports" where
  "ex_quiet = \<lparr>sp_save = (\<lambda>_. io_return ()), sp_append_event = (\<lambda>_ _. io_return ()),
     sp_acquire = (\<lambda>_. io_return ()), sp_release = (\<lambda>_. io_return ()),
     sp_call = (\<lambda>_. io_return (ex_result ''code'' Succeeded)), sp_group = (\<lambda>_. io_return []),
     sp_now = io_return ex_time, sp_sha = (\<lambda>s. s), sp_max_read_concurrency = 2\<rparr>"

lemma ex_gate_closed: "require_dispatchable sha ex_gate ''b'' \<noteq> Inr ()"
  by (simp add: ex_gate_def ex_state_def require_dispatchable_def require_item_and_route_def ex_route_def)

lemma ex_gate_pending: "pending_items ex_gate = [ex_item ''b'' [] AccessReadOnly {||}]"
  by (simp add: pending_items_def ex_gate_def sorted_keys_def is_pending_def ex_state_def)

lemma ex_gate_run:
  "run_ready (codex_scheduler ex_client ex_codex (\<lambda>_. []) ex_quiet 1) (ex_gate, (True, ())) =
     (Inr (), (ex_gate\<lparr>st_status := RunAwaitingApproval\<rparr>, (True, ())))"
proof -
  have d: "dispatchable sha ex_gate = []" for sha
    using ex_gate_closed by (simp add: dispatchable_def ex_gate_pending ex_item_def)
  have b: "newly_blocked ex_gate = []"
    by (simp add: newly_blocked_def ex_gate_pending has_failed_dependency_def ex_item_def)
  have l: "length (st_work_items ex_gate) = Suc 0" by (simp add: ex_gate_def)
  have f: "final_status ex_gate = Inr RunAwaitingApproval" "st_status ex_gate = RunPlanned"
    by (simp_all add: final_status_def ex_gate_def ex_state_def ex_item_def ex_route_def)
  show ?thesis
    by (simp add: run_ready_def l run_step_def run_defs b d finish_run_def f codex_scheduler_def ex_quiet_def)
qed

text \<open>
  C23. Over the SDK adapter the bound of the loop is enough: when a run returns, no item is left
  that could still be dispatched. Every pending item waits for an approval, for a dependency
  without a result, or behind a dependency that did not succeed.
\<close>

theorem run_leaves_nothing_dispatchable:
  assumes "keyed s0"
    and "run_ready (codex_scheduler c x order sp n) (s0, bw) = (Inr (), (s, bw'))"
    and "map_of (st_work_items s) k = Some item" and "is_pending s k"
  shows "require_dispatchable (sp_sha sp) s k \<noteq> Inr ()
    \<or> (\<exists>d \<in> set (wi_dependencies item). \<forall>r. map_of (st_results s) d = Some r \<longrightarrow> wr_status r \<noteq> Succeeded)"
proof -
  have sha: "sp_sha (codex_scheduler c x order sp n) = sp_sha sp" by (simp add: codex_scheduler_def)
  have none: "dispatchable (sp_sha sp) s = []"
    using io_spec_Inr [OF codex.run_ready_exhausts [OF assms(1)] _ assms(2)] by (simp add: on_state_def sha)
  have k: "keyed s" using run_ready_spec [OF assms(1,2)] assms(1) by (rule sched_inv_keyed)
  then have "wi_id item = k" using assms(3) by (simp add: keyed_def)
  have "item \<in> set (pending_items s)"
    using assms(3,4) map_of_Some_key [OF assms(3)] by (force simp: pending_items_def)
  then have "\<not> dependencies_succeeded s item \<or> require_dispatchable (sp_sha sp) s k \<noteq> Inr ()"
    using none \<open>wi_id item = k\<close> by (auto simp: dispatchable_def filter_empty_conv)
  then show ?thesis
    by (auto simp: dependencies_succeeded_def list_all_iff split: option.splits)
qed

lemma run_leaves_nothing_dispatchable_witness:
  "require_dispatchable (\<lambda>s. s) (ex_gate\<lparr>st_status := RunAwaitingApproval\<rparr>) ''b'' \<noteq> Inr ()"
proof -
  have k: "keyed ex_gate" by (auto simp: keyed_def dict_ok_def ex_gate_def ex_state_def ex_item_def split: if_splits)
  have i: "map_of (st_work_items (ex_gate\<lparr>st_status := RunAwaitingApproval\<rparr>)) ''b'' = Some (ex_item ''b'' [] AccessReadOnly {||})"
    "is_pending (ex_gate\<lparr>st_status := RunAwaitingApproval\<rparr>) ''b''"
    by (simp_all add: ex_gate_def is_pending_def ex_state_def)
  show ?thesis
    using run_leaves_nothing_dispatchable [OF k ex_gate_run i] by (simp add: ex_quiet_def ex_item_def)
qed

text \<open>
  C38. Whatever the SDK does, a result of the adapter always
  belongs to a completed turn of a known thread with a final response. Nothing else escapes but
  an SDK, authentication or timeout error, or the cancellation of the caller.
\<close>

theorem turn_outcome:
  "(case run_new_thread c x project rt prompt dev schema bw of
      (Inr r, _) \<Rightarrow> wr_status r = Succeeded \<and> wr_thread_id r \<noteq> None \<and> wr_final_response r \<noteq> None \<and> wr_error r = None
    | (Inl e, _) \<Rightarrow> turn_error e)
   \<and> (case resume_thread c x thread project rt prompt schema bw of
      (Inr r, _) \<Rightarrow> wr_status r = Succeeded \<and> wr_thread_id r \<noteq> None \<and> wr_final_response r \<noteq> None \<and> wr_error r = None
    | (Inl e, _) \<Rightarrow> turn_error e)"
  (is "?new \<and> ?resumed")
proof
  obtain a v where n: "run_new_thread c x project rt prompt dev schema bw = (a, v)"
    by (cases "run_new_thread c x project rt prompt dev schema bw")
  obtain b u where m: "resume_thread c x thread project rt prompt schema bw = (b, u)"
    by (cases "resume_thread c x thread project rt prompt schema bw")
  show ?new
    using n turn_errors(1) [of c x project rt prompt dev schema bw] turn_succeeds [OF disjI1]
    by (cases a) (fastforce dest: normalize_result_Inr)+
  show ?resumed
    using m turn_errors(2) [of c x thread project rt prompt schema bw] turn_succeeds [OF disjI2]
    by (cases b) (fastforce dest: normalize_result_Inr)+
qed

text \<open>
  The authentication mode is exclusive: with an existing session no API key is ever sent,
  and with an API key the session of the account is never asked for.
\<close>

lemma authentication_mode_is_exclusive:
  "authenticate (c\<lparr>cc_auth_mode := ExistingSession\<rparr>) (x\<lparr>cx_login_api_key := login\<rparr>)
     = authenticate (c\<lparr>cc_auth_mode := ExistingSession\<rparr>) x
   \<and> authenticate (c\<lparr>cc_auth_mode := ApiKey\<rparr>) (x\<lparr>cx_account := account\<rparr>)
     = authenticate (c\<lparr>cc_auth_mode := ApiKey\<rparr>) x"
proof
  show "authenticate (c\<lparr>cc_auth_mode := ExistingSession\<rparr>) (x\<lparr>cx_login_api_key := login\<rparr>)
     = authenticate (c\<lparr>cc_auth_mode := ExistingSession\<rparr>) x"
    by (simp add: authenticate_def authenticate_raw_def)
  have "cx_login_api_key (x\<lparr>cx_account := account\<rparr>) = cx_login_api_key x" by simp
  moreover have "cc_auth_mode (c\<lparr>cc_auth_mode := ApiKey\<rparr>) \<noteq> ExistingSession" by simp
  ultimately show "authenticate (c\<lparr>cc_auth_mode := ApiKey\<rparr>) (x\<lparr>cx_account := account\<rparr>)
     = authenticate (c\<lparr>cc_auth_mode := ApiKey\<rparr>) x"
    unfolding authenticate_def authenticate_raw_def by (simp only: if_False)
qed

section \<open>The order of effects\<close>

text \<open>
  C3. A write-capable turn runs only under the project lease: before every single call the
  lease of the run's project was acquired, and since then it was neither released nor taken
  again and no batch was started. The call carries the route, instructions and project of a
  write-capable item of the plan.
\<close>

theorem writers_hold_the_lease:
  assumes "keyed s0" and "0 < sp_max_read_concurrency p"
    and "run_ready (traced p) (s0, (w, [])) = (r, (s, (w', l)))" and "l = before @ ACall c # rest"
  shows "planned_call s0 True c
    \<and> (\<exists>xs ys. before = xs @ AAcquire (ob_project_path (st_objective s0)) # ys \<and> list_all lease_quiet ys)"
proof -
  have "lease_run s0 (sp_max_read_concurrency p) (before @ ACall c # rest) Free"
    using run_ready_follows [OF assms(1-3)] assms(4) by simp
  then obtain ph1 ph2 where run: "lease_run s0 (sp_max_read_concurrency p) before ph1"
    and step: "lease_step s0 (sp_max_read_concurrency p) ph1 (ACall c) ph2"
    by (rule lease_run_split)
  from step have "ph1 = Held" and c: "planned_call s0 True c" by (simp_all add: lease_step_call)
  with held_since_acquire [OF run] show ?thesis by blast
qed

lemma ex_log_call:
  "ex_log = take 5 ex_log @ ACall ex_call # drop 6 ex_log"
  by (simp add: ex_log_def)

lemma writers_hold_the_lease_witness: "planned_call (ex_state Automatic) True ex_call"
  using writers_hold_the_lease [OF ex_keyed _ ex_run ex_log_call] by (simp add: ex_sched_def)

definition is_acquire :: "action \<Rightarrow> bool" where
  "is_acquire a \<longleftrightarrow> (case a of AAcquire _ \<Rightarrow> True | _ \<Rightarrow> False)"

definition is_release :: "action \<Rightarrow> bool" where
  "is_release a \<longleftrightarrow> (case a of ARelease _ \<Rightarrow> True | _ \<Rightarrow> False)"

lemma lease_balance:
  "lease_run s0 n l ph \<Longrightarrow>
   length (filter is_acquire l) = length (filter is_release l) + (if ph = Held then 1 else 0)"
proof (induction rule: lease_run.induct)
  case run_start
  then show ?case by simp
next
  case (run_more l ph a ph')
  show ?case using run_more.hyps(2) run_more.IH
    by (cases rule: lease_step.cases) (simp_all add: is_acquire_def is_release_def)
qed

text \<open>
  C22. Whatever limit \<open>make_scheduler\<close> accepts, every batch has between one and that many
  calls, all of them for read-only items of the plan, and it runs while the lease is free; and
  the log of a run, returned or not, has a release for every acquisition.
\<close>

theorem batches_are_bounded_and_read_only:
  assumes "make_scheduler p0 limit = Inr p" and "keyed s0"
    and "run_ready (traced p) (s0, (w, [])) = (r, (s, (w', l)))"
  shows "(\<forall>cs. AGroup cs \<in> set l \<longrightarrow>
      1 \<le> length cs \<and> int (length cs) \<le> limit \<and> (\<forall>c. Inr c \<in> set cs \<longrightarrow> planned_call s0 False c))
    \<and> length (filter is_acquire l) = length (filter is_release l)"
proof -
  from assms(1) have lim: "1 \<le> limit" and p: "sp_max_read_concurrency p = nat limit"
    by (auto simp: make_scheduler_def split: if_splits)
  then have run: "lease_run s0 (nat limit) l Free"
    using run_ready_follows [OF assms(2) _ assms(3)] by simp
  have "1 \<le> length cs \<and> int (length cs) \<le> limit \<and> (\<forall>c. Inr c \<in> set cs \<longrightarrow> planned_call s0 False c)"
    if "AGroup cs \<in> set l" for cs
  proof -
    obtain xs ys where "l = xs @ AGroup cs # ys" using \<open>AGroup cs \<in> set l\<close> by (meson split_list)
    then obtain ph1 ph2 where "lease_step s0 (nat limit) ph1 (AGroup cs) ph2"
      using run lease_run_split by metis
    then show ?thesis using lim by (auto simp: lease_step_group Suc_le_eq)
  qed
  with lease_balance [OF run] show ?thesis by simp
qed

lemma batches_are_bounded_and_read_only_witness:
  "planned_call (ex_state Automatic) False ex_call"
proof -
  have "make_scheduler ex_sched 2 = Inr ex_sched" by (simp add: make_scheduler_def ex_sched_def)
  from batches_are_bounded_and_read_only [OF this ex_keyed ex_run] show ?thesis
    by (simp add: ex_log_def)
qed

text \<open>
  The state that \<open>run_ready\<close> returns is the one it saved last; if it saved nothing, it
  changed nothing.
\<close>

theorem returned_state_is_last_saved:
  assumes "run_ready (traced p) (s0, (w, [])) = (Inr (), (s, (w', l)))"
  shows "last_saved s0 l = s"
  using assms by (rule run_ready_returns_saved)

lemma returned_state_is_last_saved_witness: "last_saved (ex_state Automatic) ex_log = ex_finished"
  using returned_state_is_last_saved [OF ex_run] .

end
