(* ===== verification/Application_Properties.thy ===== *)
theory Application_Properties
  imports Application Planner_Properties Scheduler_Properties
begin

text \<open>
  The properties of the use cases: who holds the run lease when a run is written, what a changed
  configuration leaves of a run, which plans are persisted, and that an objective run is only
  completed after its independent review.
\<close>

section \<open>The run lease\<close>

text \<open>
  \<open>guarded\<close> wraps the ports with the identifier of the run whose lease is held, and with a flag
  that falls when a run is written without its own lease, or when a lease is taken twice.
\<close>

definition observe :: "('w, 'a) eff \<Rightarrow> ('w \<times> string option \<times> bool, 'a) eff" where
  "observe m = (\<lambda>(w, h, ok). case m w of (r, w') \<Rightarrow> (r, (w', h, ok)))"

definition writes :: "string \<Rightarrow> ('w, 'a) eff \<Rightarrow> ('w \<times> string option \<times> bool, 'a) eff" where
  "writes rid m = (\<lambda>(w, h, ok). case m w of (r, w') \<Rightarrow> (r, (w', h, ok \<and> h = Some rid)))"

definition guarded :: "'w app_ports \<Rightarrow> ('w \<times> string option \<times> bool) app_ports" where
  "guarded p =
     \<lparr>ap_config = ap_config p, ap_config_path = ap_config_path p,
      ap_available_models = observe (ap_available_models p), ap_inspect = (\<lambda>x. observe (ap_inspect p x)),
      ap_plan = (\<lambda>a b c. observe (ap_plan p a b c)),
      ap_run_ready = (\<lambda>s. writes (run_id s) (ap_run_ready p s)),
      ap_create = (\<lambda>s. writes (run_id s) (ap_create p s)),
      ap_load = (\<lambda>a b c. observe (ap_load p a b c)),
      ap_save = (\<lambda>s. writes (run_id s) (ap_save p s)),
      ap_append_event = (\<lambda>rid e. writes rid (ap_append_event p rid e)),
      ap_write_report = (\<lambda>rid t. writes rid (ap_write_report p rid t)), ap_render = ap_render p,
      ap_acquire = (\<lambda>rid (w, h, ok). case ap_acquire p rid w of
          (Inl e, w') \<Rightarrow> (Inl e, (w', h, ok)) | (Inr x, w') \<Rightarrow> (Inr x, (w', Some rid, ok \<and> h = None))),
      ap_release = (\<lambda>rid (w, h, ok). case ap_release p rid w of (r, w') \<Rightarrow> (r, (w', None, ok \<and> h = Some rid))),
      ap_now = observe (ap_now p), ap_new_run_id = observe (ap_new_run_id p), ap_sha = ap_sha p\<rparr>"

definition lease_state :: "string option \<Rightarrow> 'w \<times> string option \<times> bool \<Rightarrow> bool" where
  "lease_state h v \<longleftrightarrow> snd v = (h, True)"

abbreviation keeps_lease :: "string option \<Rightarrow> ('w \<times> string option \<times> bool, 'a) eff \<Rightarrow> bool" where
  "keeps_lease h m \<equiv> io_spec (lease_state h) m (\<lambda>_. lease_state h) (lease_state h)"

named_theorems lease_rules

lemma keeps_observe [lease_rules]: "keeps_lease h (observe m)"
  by (auto simp: io_spec_def lease_state_def observe_def split: prod.splits)

lemma keeps_writes [lease_rules]: "keeps_lease (Some rid) (writes rid m)"
  by (auto simp: io_spec_def lease_state_def writes_def split: prod.splits)

lemma keeps_pure [lease_rules]:
  "keeps_lease h (io_return a)" "keeps_lease h (io_raise e)" "keeps_lease h (io_lift r)"
  by (auto simp: io_spec_def)

lemma keeps_bind [lease_rules]:
  "keeps_lease h m \<Longrightarrow> (\<And>a. keeps_lease h (f a)) \<Longrightarrow> keeps_lease h (io_bind m f)"
  by (rule io_spec_bind)

lemma keeps_bind_result:
  assumes "io_spec (lease_state h) m (\<lambda>a v. lease_state h v \<and> Q a) (lease_state h)"
    and "\<And>a. Q a \<Longrightarrow> keeps_lease h (f a)"
  shows "keeps_lease h (io_bind m f)"
proof (rule io_spec_bind [OF assms(1)])
  fix a
  show "io_spec (\<lambda>v. lease_state h v \<and> Q a) (f a) (\<lambda>_. lease_state h) (lease_state h)"
  proof (cases "Q a")
    case True
    then show ?thesis by (intro io_spec_weaken [OF assms(2)]) simp_all
  qed (simp add: io_spec_def)
qed

lemma guarded_simps:
  "ap_config (guarded p) = ap_config p" "ap_config_path (guarded p) = ap_config_path p"
  "ap_available_models (guarded p) = observe (ap_available_models p)"
  "ap_inspect (guarded p) x = observe (ap_inspect p x)"
  "ap_plan (guarded p) a b c = observe (ap_plan p a b c)"
  "ap_run_ready (guarded p) s = writes (run_id s) (ap_run_ready p s)"
  "ap_create (guarded p) s = writes (run_id s) (ap_create p s)"
  "ap_load (guarded p) d e g = observe (ap_load p d e g)"
  "ap_save (guarded p) s = writes (run_id s) (ap_save p s)"
  "ap_append_event (guarded p) rid ev = writes rid (ap_append_event p rid ev)"
  "ap_write_report (guarded p) rid t = writes rid (ap_write_report p rid t)"
  "ap_render (guarded p) = ap_render p"
  "ap_now (guarded p) = observe (ap_now p)" "ap_new_run_id (guarded p) = observe (ap_new_run_id p)"
  "ap_sha (guarded p) = ap_sha p"
  by (simp_all add: guarded_def)

lemma keeps_with_lease:
  assumes "keeps_lease (Some rid) body"
  shows "keeps_lease None (with_lease (guarded p) rid body)"
proof -
  have acquire: "io_spec (lease_state None) (ap_acquire (guarded p) rid) (\<lambda>_. lease_state (Some rid)) (lease_state None)"
    by (auto simp: io_spec_def lease_state_def guarded_def split: prod.splits sum.splits)
  have release: "io_spec (lease_state (Some rid)) (ap_release (guarded p) rid) (\<lambda>_. lease_state None) (lease_state None)"
    by (auto simp: io_spec_def lease_state_def guarded_def split: prod.splits)
  show ?thesis
    unfolding with_lease_def by (rule io_spec_bind [OF acquire io_spec_finally [OF assms release release]])
qed

text \<open>
  What the use cases rely on: the scheduler keeps the identity of a run, and what is loaded once the
  lease of a run is taken is that run.
\<close>

definition loads_here :: "'w app_ports \<Rightarrow> string \<Rightarrow> 'w \<Rightarrow> bool" where
  "loads_here p rid w \<longleftrightarrow> (\<forall>d a s w'. ap_load p rid d a w = (Inr s, w') \<longrightarrow> run_id s = rid)"

lemma loads_hereD: "loads_here p rid w \<Longrightarrow> ap_load p rid d a w = (Inr s, w') \<Longrightarrow> run_id s = rid"
  unfolding loads_here_def by blast

definition loads_own_run :: "'w app_ports \<Rightarrow> string \<Rightarrow> 'w \<Rightarrow> bool" where
  "loads_own_run p rid w \<longleftrightarrow> (\<forall>x w'. ap_acquire p rid w = (Inr x, w') \<longrightarrow> loads_here p rid w')"

definition schedules_own_runs :: "'w app_ports \<Rightarrow> bool" where
  "schedules_own_runs p \<longleftrightarrow> (\<forall>s w s' w'. ap_run_ready p s w = (Inr s', w') \<longrightarrow> run_id s' = run_id s)"

lemma keeps_event: "run_id s = rid \<Longrightarrow> keeps_lease (Some rid) (app_event (guarded p) s ev item details)"
  unfolding app_event_def guarded_simps by (auto intro: lease_rules)

lemma keeps_report: "run_id s = rid \<Longrightarrow> keeps_lease (Some rid) (write_report (guarded p) s)"
  unfolding write_report_def guarded_simps by (auto intro: lease_rules)

lemma keeps_inventory: "keeps_lease h (validate_model_inventory (guarded p))"
  unfolding validate_model_inventory_def guarded_simps by (auto intro: lease_rules)

lemma objective_id:
  "io_spec (lease_state h) (make_objective (guarded p) project prompt task rid)
     (\<lambda>obj v. lease_state h v \<and> ob_id obj = rid) (lease_state h)"
  unfolding make_objective_def guarded_simps
  by (rule io_spec_bind [OF keeps_observe]) (auto intro: io_spec_return)

lemma run_ready_id:
  assumes "schedules_own_runs p" and "run_id s = rid"
  shows "io_spec (lease_state (Some rid)) (ap_run_ready (guarded p) s)
     (\<lambda>s' v. lease_state (Some rid) v \<and> run_id s' = rid) (lease_state (Some rid))"
  using assms by (fastforce simp: io_spec_def lease_state_def guarded_simps writes_def schedules_own_runs_def
      split: prod.splits)

abbreviation keeps_loaded :: "'w app_ports \<Rightarrow> string \<Rightarrow> ('w \<times> string option \<times> bool, 'a) eff \<Rightarrow> bool" where
  "keeps_loaded p rid m \<equiv>
     io_spec (\<lambda>v. lease_state None v \<and> loads_own_run p rid (fst v)) m (\<lambda>_. lease_state None) (lease_state None)"

lemma keeps_with_load:
  assumes "\<And>s. run_id s = rid \<Longrightarrow> keeps_lease (Some rid) (f s)"
  shows "keeps_loaded p rid (with_lease (guarded p) rid (io_bind (ap_load (guarded p) rid d a) f))"
proof -
  let ?L = "\<lambda>v. lease_state (Some rid) v \<and> loads_here p rid (fst v)"
  have acquire: "io_spec (\<lambda>v. lease_state None v \<and> loads_own_run p rid (fst v)) (ap_acquire (guarded p) rid)
      (\<lambda>_. ?L) (lease_state None)"
    by (auto simp: io_spec_def lease_state_def guarded_def loads_own_run_def split: prod.splits sum.splits)
  have release: "io_spec (lease_state (Some rid)) (ap_release (guarded p) rid) (\<lambda>_. lease_state None) (lease_state None)"
    by (auto simp: io_spec_def lease_state_def guarded_def split: prod.splits)
  have load: "io_spec ?L (ap_load (guarded p) rid d a) (\<lambda>s v. lease_state (Some rid) v \<and> run_id s = rid) (lease_state (Some rid))"
    by (auto simp: io_spec_def lease_state_def guarded_simps observe_def split: prod.splits dest: loads_hereD)
  have rest: "io_spec (\<lambda>v. lease_state (Some rid) v \<and> run_id s = rid) (f s) (\<lambda>_. lease_state (Some rid)) (lease_state (Some rid))" for s
  proof (cases "run_id s = rid")
    case True
    show ?thesis by (intro io_spec_weaken [OF assms [OF True]]) simp_all
  qed (simp add: io_spec_def)
  show ?thesis
    unfolding with_lease_def by (rule io_spec_bind [OF acquire io_spec_finally [OF io_spec_bind [OF load rest] release release]])
qed

lemma keeps_select: "keeps_lease h (select_run_id (guarded p) given)"
  unfolding select_run_id_def guarded_simps by (auto split: option.split intro: lease_rules)

lemma plan_unlocked_id:
  "io_spec (lease_state (Some rid)) (plan_unlocked (guarded p) project prompt rid)
     (\<lambda>s v. lease_state (Some rid) v \<and> run_id s = rid) (lease_state (Some rid))"
proof -
  let ?Q = "\<lambda>s v. lease_state (Some rid) v \<and> run_id s = rid"
  have created: "io_spec (?Q s)
     (io_bind (ap_create (guarded p) s) (\<lambda>_. io_bind (app_event (guarded p) s ev None []) (\<lambda>_. io_return s)))
     ?Q (lease_state (Some rid))" for s ev
  proof (cases "run_id s = rid")
    case True
    then have "keeps_lease (Some rid) (ap_create (guarded p) s)" unfolding guarded_simps by (auto intro: lease_rules)
    then have "io_spec (lease_state (Some rid))
      (io_bind (ap_create (guarded p) s) (\<lambda>_. io_bind (app_event (guarded p) s ev None []) (\<lambda>_. io_return s)))
      ?Q (lease_state (Some rid))"
      by (rule io_spec_bind) (rule io_spec_bind [OF keeps_event [OF True] io_spec_return], simp add: True)
    then show ?thesis by (rule io_spec_weaken) simp_all
  qed (simp add: io_spec_def)
  have state: "io_spec (\<lambda>v. lease_state (Some rid) v \<and> ob_id obj = rid)
     (io_bind (ap_plan (guarded p) obj repo (ap_config (guarded p))) (\<lambda>items.
        io_lift (planned_state (ap_config (guarded p)) obj repo items))) ?Q (lease_state (Some rid))" for obj repo
    unfolding guarded_simps
    by (auto simp: io_spec_def io_bind_Inr_iff io_bind_def observe_def lease_state_def planned_state_def
        rbind_eq_Inr_iff run_id_def split: prod.splits sum.splits if_splits)
  have inspect: "keeps_lease (Some rid) (ap_inspect (guarded p) project)"
    unfolding guarded_simps by (rule keeps_observe)
  have assoc: "io_bind m (\<lambda>x. io_bind (g x) k) = io_bind (io_bind m g) k"
    for m :: "('a \<times> string option \<times> bool, work_item list) eff" and g
      and k :: "run_state \<Rightarrow> ('a \<times> string option \<times> bool, run_state) eff"
    by (auto simp: io_bind_def fun_eq_iff split: prod.splits sum.splits)
  show ?thesis
    unfolding plan_unlocked_def assoc
    by (intro io_spec_bind [OF inspect] io_spec_bind [OF keeps_inventory] io_spec_bind [OF objective_id]
        io_spec_bind [OF state created])
qed

lemma append_completion_id:
  assumes "run_id s = rid"
  shows "io_spec (lease_state (Some rid)) (append_completion (guarded p) s)
     (\<lambda>s' v. lease_state (Some rid) v \<and> run_id s' = rid) (lease_state (Some rid))"
proof -
  have "io_spec (lease_state (Some rid))
     (io_bind (ap_save (guarded p) s') (\<lambda>_. io_bind (app_event (guarded p) s' ev None []) (\<lambda>_. io_return s')))
     (\<lambda>s' v. lease_state (Some rid) v \<and> run_id s' = rid) (lease_state (Some rid))" if "run_id s' = rid" for s' ev
    using that unfolding guarded_simps
    by (intro io_spec_bind [where R = "\<lambda>_. lease_state (Some rid)"] keeps_event io_spec_return)
      (auto intro: lease_rules)
  then show ?thesis
    unfolding append_completion_def Let_def
    by (intro io_spec_bind [OF keeps_pure(3)]) (simp add: assms [symmetric] run_id_def)
qed

lemma keeps_continue:
  assumes "schedules_own_runs p" and "run_id s = rid"
  shows "keeps_lease (Some rid) (continue_run (guarded p) s)"
proof -
  let ?Q = "\<lambda>s' v. lease_state (Some rid) v \<and> run_id s' = rid"
  have return: "io_spec (lease_state (Some rid)) (io_return s') ?Q E" if "run_id s' = rid" for s' E
    by (rule io_spec_return) (simp add: that)
  have review: "io_spec (lease_state (Some rid))
     (if map_of (st_results s') completion_id = None then ap_run_ready (guarded p) s' else io_return s') ?Q (lease_state (Some rid))"
    if "run_id s' = rid" for s'
    using that by (intro spec_if run_ready_id [OF assms(1)] return)
  have middle: "io_spec (lease_state (Some rid))
     (if ob_explicit_task (st_objective s1) = None \<and> base_work_succeeded s1
      then io_bind (if map_of (st_work_items s1) completion_id = None
                    then append_completion (guarded p) s1 else io_return s1) (\<lambda>s2.
             if map_of (st_results s2) completion_id = None then ap_run_ready (guarded p) s2 else io_return s2)
      else io_return s1) ?Q (lease_state (Some rid))" if "run_id s1 = rid" for s1
  proof (intro spec_if return that)
    have appended: "io_spec (lease_state (Some rid))
       (if map_of (st_work_items s1) completion_id = None then append_completion (guarded p) s1 else io_return s1)
       ?Q (lease_state (Some rid))"
      using that by (intro spec_if append_completion_id return)
    have then_review: "io_spec (?Q s2)
       (if map_of (st_results s2) completion_id = None then ap_run_ready (guarded p) s2 else io_return s2)
       ?Q (lease_state (Some rid))" for s2
    proof (cases "run_id s2 = rid")
      case True
      then show ?thesis by (intro io_spec_weaken [OF review]) simp_all
    qed (simp add: io_spec_def)
    show "io_spec (lease_state (Some rid))
       (io_bind (if map_of (st_work_items s1) completion_id = None
                    then append_completion (guarded p) s1 else io_return s1) (\<lambda>s2.
             if map_of (st_results s2) completion_id = None then ap_run_ready (guarded p) s2 else io_return s2))
       ?Q (lease_state (Some rid))"
      by (rule io_spec_bind [OF appended then_review])
  qed
  show ?thesis
    unfolding continue_run_def
    by (rule keeps_bind_result [OF run_ready_id [OF assms]], rule keeps_bind_result [OF middle], assumption,
        rule keeps_bind [OF keeps_report keeps_pure(1)], assumption)
qed

lemma prod_spec:
  assumes "\<And>x y. z = (x, y) \<Longrightarrow> keeps_lease h (f x y)"
  shows "keeps_lease h (case z of (x, y) \<Rightarrow> f x y)"
  using assms by (cases z) simp

lemma keeps_task:
  assumes "schedules_own_runs p" and "run_id s = rid"
  shows "keeps_lease (Some rid)
    (io_bind (ap_create (guarded p) s) (\<lambda>_.
     io_bind (app_event (guarded p) s ''task-created'' None []) (\<lambda>_.
     io_bind (ap_run_ready (guarded p) s) (\<lambda>s'.
     io_bind (write_report (guarded p) s') (\<lambda>_. io_return s')))))"
proof -
  have create: "keeps_lease (Some rid) (ap_create (guarded p) s)"
    using assms(2) unfolding guarded_simps by (auto intro: lease_rules)
  show ?thesis
    by (rule keeps_bind [OF create], rule keeps_bind [OF keeps_event [OF assms(2)]],
        rule keeps_bind_result [OF run_ready_id [OF assms]], rule keeps_bind [OF keeps_report keeps_pure(1)])
qed

lemma keeps_run_task:
  assumes "schedules_own_runs p"
  shows "keeps_lease None (run_task (guarded p) project task prompt affected given)"
proof -
  have id: "run_id (task_state cfg obj repo item rt) = ob_id obj" for cfg obj repo item rt
    by (simp add: task_state_def run_id_def)
  have inspect: "keeps_lease h (ap_inspect (guarded p) project)" for h
    unfolding guarded_simps by (rule keeps_observe)
  have body: "keeps_lease (Some rid)
    (io_bind (make_objective (guarded p) (rc_project_path repo) prompt (Some task) rid) (\<lambda>obj.
     io_bind (io_return (task_state (ap_config (guarded p)) obj repo item rt)) (\<lambda>s.
     io_bind (ap_create (guarded p) s) (\<lambda>_.
     io_bind (app_event (guarded p) s ''task-created'' None []) (\<lambda>_.
     io_bind (ap_run_ready (guarded p) s) (\<lambda>s'.
     io_bind (write_report (guarded p) s') (\<lambda>_. io_return s')))))))" for repo item rt rid
    by (rule keeps_bind_result [OF objective_id]) (simp add: keeps_task [OF assms] id)
  show ?thesis
    unfolding run_task_def
    by (rule keeps_bind [OF keeps_select], rule keeps_with_lease, rule keeps_bind [OF inspect],
        rule keeps_bind [OF keeps_inventory], rule keeps_bind [OF keeps_pure(3)],
        rule prod_spec, rule body)
qed

lemma keeps_run_objective:
  assumes "schedules_own_runs p"
  shows "keeps_lease None (run_objective (guarded p) project prompt given)"
    and "keeps_lease None (plan_objective (guarded p) project prompt given)"
proof -
  have plan: "keeps_lease (Some rid) (plan_unlocked (guarded p) project prompt rid)" for rid
    by (rule io_spec_weaken [OF plan_unlocked_id]) auto
  show "keeps_lease None (run_objective (guarded p) project prompt given)"
    unfolding run_objective_def
    by (rule keeps_bind [OF keeps_select], rule keeps_with_lease,
        rule keeps_bind_result [OF plan_unlocked_id keeps_continue [OF assms]])
  show "keeps_lease None (plan_objective (guarded p) project prompt given)"
    unfolding plan_objective_def by (rule keeps_bind [OF keeps_select], rule keeps_with_lease [OF plan])
qed

lemma adopt_id: "adopt_configuration cfg s = Inr s' \<Longrightarrow> run_id s' = run_id s"
  by (auto simp: adopt_configuration_def rbind_eq_Inr_iff run_id_def)

lemma approve_id: "approve sha s wid by_whom now = Inr (a, s') \<Longrightarrow> run_id s' = run_id s"
  by (auto simp: approve_def Let_def rbind_eq_Inr_iff run_id_def split: if_splits)

lemma keeps_saved:
  assumes "run_id s = rid"
  shows "keeps_lease (Some rid) (ap_save (guarded p) s)"
  using assms unfolding guarded_simps by (auto intro: lease_rules)

lemma keeps_approve: "keeps_loaded p rid (app_approve (guarded p) rid wid by_whom)"
proof -
  have now: "keeps_lease h (ap_now (guarded p))" for h unfolding guarded_simps by (rule keeps_observe)
  have lift: "io_spec (lease_state (Some rid)) (io_lift (approve (ap_sha (guarded p)) s wid by_whom t))
     (\<lambda>a v. lease_state (Some rid) v \<and> run_id (snd a) = rid) (lease_state (Some rid))"
    if "run_id s = rid" for s t
    using that by (auto simp: io_spec_def dest: approve_id)
  have rest: "keeps_lease (Some rid)
     (io_bind (ap_save (guarded p) s') (\<lambda>_.
      io_bind (app_event (guarded p) s' ''approval-recorded'' (Some wid) [(''approved_by'', JStr by_whom)]) (\<lambda>_.
      io_bind (write_report (guarded p) s') (\<lambda>_. io_return s'))))" if "run_id s' = rid" for s'
    by (rule keeps_bind [OF keeps_saved [OF that]], rule keeps_bind [OF keeps_event [OF that]],
        rule keeps_bind [OF keeps_report [OF that] keeps_pure(1)])
  show ?thesis
    unfolding app_approve_def
    by (rule keeps_with_load, rule keeps_bind [OF now],
        rule keeps_bind_result [OF lift], assumption, rule prod_spec, rule rest, simp)
qed

lemma keeps_resume:
  assumes "schedules_own_runs p"
  shows "keeps_loaded p rid (resume_run (guarded p) rid acknowledge)"
proof -
  let ?Q = "\<lambda>s v. lease_state (Some rid) v \<and> run_id s = rid"
  have return: "io_spec (lease_state (Some rid)) (io_return s) ?Q E" if "run_id s = rid" for s E
    by (rule io_spec_return) (simp add: that)
  have adopt: "io_spec (lease_state (Some rid))
      (io_bind (io_lift (adopt_configuration (ap_config (guarded p)) s)) (\<lambda>s'.
       io_bind (ap_save (guarded p) s') (\<lambda>_.
       io_bind (app_event (guarded p) s' ''configuration-change-acknowledged'' None []) (\<lambda>_. io_return s'))))
      ?Q (lease_state (Some rid))" if "run_id s = rid" for s
  proof (rule io_spec_bind)
    show "io_spec (lease_state (Some rid)) (io_lift (adopt_configuration (ap_config (guarded p)) s)) ?Q (lease_state (Some rid))"
      using that by (auto simp: io_spec_def dest: adopt_id)
    fix s'
    show "io_spec (?Q s') (io_bind (ap_save (guarded p) s') (\<lambda>_.
       io_bind (app_event (guarded p) s' ''configuration-change-acknowledged'' None []) (\<lambda>_. io_return s')))
      ?Q (lease_state (Some rid))"
    proof (cases "run_id s' = rid")
      case True
      have "io_spec (lease_state (Some rid)) (io_bind (ap_save (guarded p) s') (\<lambda>_.
         io_bind (app_event (guarded p) s' ''configuration-change-acknowledged'' None []) (\<lambda>_. io_return s')))
        ?Q (lease_state (Some rid))"
        by (rule io_spec_bind [OF keeps_saved [OF True] io_spec_bind [OF keeps_event [OF True] return [OF True]]])
      then show ?thesis by (rule io_spec_weaken) simp_all
    qed (simp add: io_spec_def)
  qed
  show ?thesis
    unfolding resume_run_def
    by (rule keeps_with_load, rule keeps_bind_result [OF spec_if [OF adopt return]], assumption, assumption,
        rule keeps_bind [OF keeps_inventory keeps_continue [OF assms]])
qed

lemma keeps_report_case: "keeps_loaded p rid (report (guarded p) rid)"
  unfolding report_def by (rule keeps_with_load [OF keeps_report])

text \<open>The scheduler keeps the identity of a run, well-formed or not.\<close>

lemma same_plan_step:
  "io_spec (on_state (same_plan s0)) (run_step p) (\<lambda>_. on_state (same_plan s0)) (on_state (same_plan s0))"
proof -
  let ?P = "on_state (same_plan s0)"
  have persist: "io_spec ?P (persist_result p r) (\<lambda>_. ?P) ?P" for r
    by (rule spec_persist_result) (rule same_plan_update(2))
  have all: "io_spec ?P (persist_all p rs) (\<lambda>_. ?P) ?P" for rs
  proof (induction rs)
    case Nil
    show ?case unfolding persist_all.simps by (rule io_spec_return)
  next
    case (Cons r rs)
    then show ?case unfolding persist_all.simps by (intro io_spec_bind [OF persist])
  qed
  have status: "io_spec ?P (modify_state (\<lambda>s. s\<lparr>st_status := x\<rparr>)) (\<lambda>_. ?P) ?P" for x
    by (rule spec_modify_on_state) (rule same_plan_update(1))
  have one: "io_spec ?P (run_one p item) (\<lambda>_. ?P) ?P" for item
    by (rule io_spec_weaken [OF spec_run_one]) auto
  have batch: "io_spec ?P (run_read_batch p items) (\<lambda>_. ?P) ?P" for items
    by (rule io_spec_weaken [OF spec_run_read_batch]) auto
  have readers: "io_spec ?P (run_readers p ready) (\<lambda>_. ?P) ?P" for ready
    unfolding run_readers_def by (intro io_spec_bind [OF status] io_spec_bind [OF batch all])
  have writer: "io_spec ?P (run_writer p item) (\<lambda>_. ?P) ?P" for item
  proof -
    have first: "io_spec (on_state (\<lambda>t. t = s \<and> same_plan s0 s))
       (if pre_writer_status (st_status s)
        then io_bind (set_state (s\<lparr>st_status := RunPlanned\<rparr>)) (\<lambda>_. save_state p) else io_return ()) (\<lambda>_. ?P) ?P" for s
      by (intro spec_if io_spec_bind [OF spec_set_on_state spec_save] io_spec_return)
        (auto simp: on_state_def intro: same_plan_update)
    have body: "io_spec ?P
      (io_bind get_state (\<lambda>s.
       io_bind (io_lift (require_dispatchable (sp_sha p) s (wi_id item))) (\<lambda>_.
       io_bind (modify_state (\<lambda>s. s\<lparr>st_status := RunRunning\<rparr>)) (\<lambda>_.
       io_bind (run_one p item) (\<lambda>result. persist_result p result))))) (\<lambda>_. ?P) ?P"
      by (intro io_spec_bind [OF spec_get_keep] io_spec_bind [OF spec_lift_keep] io_spec_bind [OF status]
          io_spec_bind [OF one persist])
    show ?thesis unfolding run_writer_def
      by (intro io_spec_bind [OF spec_get_on_state] io_spec_bind [OF first]
          io_spec_bind [OF spec_lift_on_state] io_spec_finally [OF body spec_lift_on_state spec_lift_on_state])
  qed
  have go: "io_spec ?P (case filter is_writer ready of
                  item # _ \<Rightarrow> io_bind (run_writer p item) (\<lambda>_. io_return True)
                | [] \<Rightarrow> io_bind (run_readers p ready) (\<lambda>_. io_return True)) (\<lambda>_. ?P) ?P" for ready
    by (cases "filter is_writer ready") (auto intro!: io_spec_bind [OF readers] io_spec_bind [OF writer] io_spec_return)
  show ?thesis unfolding run_step_def Let_def
    by (intro io_spec_bind [OF spec_get_keep] io_spec_bind [OF all] spec_if io_spec_return go)
qed

lemma same_plan_run:
  assumes "run_ready p (s0, w) = (r, (s, w'))"
  shows "same_plan s0 s"
proof -
  let ?P = "on_state (same_plan s0)"
  have loop: "io_spec ?P (run_loop n p) (\<lambda>_. ?P) ?P" for n
  proof (induction n)
    case 0
    show ?case unfolding run_loop.simps by (rule io_spec_return)
  next
    case (Suc n)
    show ?case unfolding run_loop.simps
      by (rule io_spec_bind [OF same_plan_step spec_if [OF Suc io_spec_return]])
  qed
  have set: "io_spec (on_state (\<lambda>t. t = s \<and> same_plan s0 s)) (set_state (s\<lparr>st_status := x\<rparr>)) (\<lambda>_. ?P) ?P" for s x
    by (rule spec_set_on_state) (auto intro: same_plan_update)
  have lift: "io_spec (on_state (\<lambda>t. t = s \<and> same_plan s0 s)) (io_lift (q :: run_status result))
     (\<lambda>_. on_state (\<lambda>t. t = s \<and> same_plan s0 s)) ?P" for s q
    by (rule spec_error [OF spec_lift_keep]) (auto simp: on_state_def)
  have finish: "io_spec ?P (finish_run p) (\<lambda>_. ?P) ?P"
    unfolding finish_run_def
    by (intro io_spec_bind [OF spec_get_on_state] io_spec_bind [OF lift] spec_if io_spec_bind [OF set spec_save]
        io_spec_return) (auto simp: on_state_def)
  have "io_spec ?P (run_ready p) (\<lambda>_. ?P) ?P"
    unfolding run_ready_def by (intro io_spec_bind [OF spec_get_keep] io_spec_bind [OF loop finish])
  from io_spec_snd [OF this _ assms] show ?thesis by (simp add: on_state_def same_plan_def)
qed

lemma scheduler_port_Inr: "scheduler_port sp s w = (Inr s', w') \<longleftrightarrow> run_ready sp (s, w) = (Inr (), (s', w'))"
  by (auto simp: scheduler_port_def split: prod.splits sum.splits)

lemma scheduler_port_own: "ap_run_ready p = scheduler_port sp \<Longrightarrow> schedules_own_runs p"
  by (auto simp: schedules_own_runs_def scheduler_port_Inr dest!: same_plan_run dest: same_plan_simps(7))

definition lease_kept :: "('w \<times> string option \<times> bool, 'a) eff \<Rightarrow> 'w \<Rightarrow> bool" where
  "lease_kept m w \<longleftrightarrow> snd (snd (m (w, None, True))) = (None, True)"

lemma lease_keptI:
  assumes "io_spec (\<lambda>v. lease_state None v \<and> C (fst v)) m (\<lambda>_. lease_state None) (lease_state None)" and "C w"
  shows "lease_kept m w"
proof -
  obtain r v where m: "m (w, None, True) = (r, v)" by (cases "m (w, None, True)")
  have "lease_state None v" using io_spec_snd [OF assms(1) _ m] assms(2) by (simp add: lease_state_def)
  then show ?thesis using m by (simp add: lease_kept_def lease_state_def)
qed

lemma lease_kept_always: "keeps_lease None m \<Longrightarrow> lease_kept m w"
  by (rule lease_keptI [where C = "\<lambda>_. True"]) simp_all

lemma lease_kept_map: "lease_kept (io_bind m (\<lambda>a. io_return (f a))) w \<longleftrightarrow> lease_kept m w"
  by (simp add: lease_kept_def io_bind_def split: prod.split sum.split)

text \<open>Ports of an application that always answer.\<close>

definition ex_app :: "unit app_ports" where
  "ex_app =
     \<lparr>ap_config = ex_config, ap_config_path = ex_root, ap_available_models = io_return [''m1'', ''m2''],
      ap_inspect = (\<lambda>_. io_return ex_repository), ap_plan = (\<lambda>_ _ _. io_return [ex_planned_item]),
      ap_run_ready = io_return, ap_create = (\<lambda>_. io_return ()),
      ap_load = (\<lambda>rid _ _. io_return ((ex_state Automatic)\<lparr>st_objective := ex_objective\<lparr>ob_id := rid\<rparr>\<rparr>)),
      ap_save = (\<lambda>_. io_return ()), ap_append_event = (\<lambda>_ _. io_return ()),
      ap_write_report = (\<lambda>_ _. io_return ()), ap_render = (\<lambda>_. Inr ''report''),
      ap_acquire = (\<lambda>_. io_return ()), ap_release = (\<lambda>_. io_return ()), ap_now = io_return ex_time,
      ap_new_run_id = io_return ''r1'', ap_sha = (\<lambda>s. s)\<rparr>"

section \<open>A changed configuration\<close>

lemma reroute_Inr:
  assumes "reroute cfg s items = Inr routes" and "dict_ok items"
  shows "map_of routes k =
    (case map_of items k of
       None \<Rightarrow> map_of (st_routes s) k
     | Some item \<Rightarrow> if is_pending s k then Some (projr (route cfg item None)) else map_of (st_routes s) k)
    \<and> (\<forall>item. map_of items k = Some item \<longrightarrow> is_pending s k \<longrightarrow> \<not> isl (route cfg item None))"
  using assms
proof (induction items arbitrary: s)
  case Nil
  then show ?case by simp
next
  case (Cons ki items)
  obtain j item where ki: "ki = (j, item)" by fastforce
  have ok: "dict_ok items" and new: "j \<notin> set (dkeys items)" using Cons.prems(2) ki by (auto simp: dict_ok_def)
  show ?case
  proof (cases "is_pending s j")
    case False
    then show ?thesis using Cons.IH [of s] Cons.prems(1) ok new unfolding ki
      by (auto split: option.splits dest: map_of_Some_key)
  next
    case True
    then obtain rt where rt: "route cfg item None = Inr rt"
      and rest: "reroute cfg (s\<lparr>st_routes := dset (st_routes s) j rt\<rparr>) items = Inr routes"
      using Cons.prems(1) ki by (auto simp: rbind_eq_Inr_iff)
    have pend: "is_pending (s\<lparr>st_routes := x\<rparr>) = is_pending s" for x by (simp add: is_pending_def fun_eq_iff)
    show ?thesis using Cons.IH [OF rest ok] new rt True unfolding ki pend
      by (auto split: option.splits dest: map_of_Some_key)
  qed
qed

text \<open>
  C30. Adopting a changed configuration keeps items, results and status, routes every unfinished
  item by the current configuration and leaves the routes of finished ones, records the current
  digest and drops all approvals: work that needs an approval cannot be dispatched until it is
  approved again.
\<close>

theorem adopting_a_configuration:
  assumes "adopt_configuration cfg s = Inr s'" and "keyed s"
  shows "st_work_items s' = st_work_items s \<and> st_results s' = st_results s \<and> st_status s' = st_status s
    \<and> st_objective s' = st_objective s \<and> st_configuration_digest s' = cf_digest cfg
    \<and> (\<forall>k item. map_of (st_work_items s) k = Some item \<longrightarrow>
         (if is_pending s k then \<exists>rt. route cfg item None = Inr rt \<and> map_of (st_routes s') k = Some rt
          else map_of (st_routes s') k = map_of (st_routes s) k))
    \<and> (\<forall>k rt. map_of (st_routes s') k = Some rt \<longrightarrow> rd_approval rt = Required \<longrightarrow>
         require_dispatchable sha s' k \<noteq> Inr ())"
proof -
  obtain routes where r: "reroute cfg s (st_work_items s) = Inr routes"
    and s': "s' = s\<lparr>st_routes := routes, st_configuration_digest := cf_digest cfg, st_approvals := []\<rparr>"
    using assms(1) by (auto simp: adopt_configuration_def rbind_eq_Inr_iff)
  have "dict_ok (st_work_items s)" using assms(2) by (simp add: keyed_def)
  note routes = reroute_Inr [OF r this]
  have "if is_pending s k then \<exists>rt. route cfg item None = Inr rt \<and> map_of (st_routes s') k = Some rt
        else map_of (st_routes s') k = map_of (st_routes s) k"
    if "map_of (st_work_items s) k = Some item" for k item
  proof (cases "is_pending s k")
    case True
    then have "\<not> isl (route cfg item None)" and "map_of routes k = Some (projr (route cfg item None))"
      using routes [of k] that by simp_all
    then show ?thesis using True s' by (cases "route cfg item None") auto
  next
    case False
    then show ?thesis using routes [of k] that s' by simp
  qed
  moreover have "require_dispatchable sha s' k \<noteq> Inr ()"
    if "map_of (st_routes s') k = Some rt" "rd_approval rt = Required" for k rt
    using that s' by (auto simp: require_dispatchable_def require_item_and_route_def rbind_eq_Inr_iff
        split: option.splits)
  moreover have "st_work_items s' = st_work_items s \<and> st_results s' = st_results s \<and> st_status s' = st_status s
    \<and> st_objective s' = st_objective s \<and> st_configuration_digest s' = cf_digest cfg"
    using s' by simp
  ultimately show ?thesis by blast
qed

lemma adopting_a_configuration_witness:
  "\<exists>s'. adopt_configuration ex_config (ex_state Required) = Inr s' \<and> st_approvals s' = st_approvals (ex_state Required)
     \<and> st_configuration_digest s' = cf_digest ex_config"
proof -
  have "\<exists>rt. route ex_config (ex_item wid deps acc flags) None = Inr rt" for wid deps acc flags
    by (rule route_total [OF ex_config_ok]) (simp add: ex_item_def ex_config_def)
  then obtain r1 r2 where r: "route ex_config (ex_item ''b'' [''a''] AccessWorkspaceWrite {||}) None = Inr r1"
    "route ex_config (ex_item ''a'' [] AccessReadOnly {||}) None = Inr r2"
    by metis
  have "is_pending (s\<lparr>st_routes := x\<rparr>) k = is_pending s k" for s x k by (simp add: is_pending_def)
  moreover have "is_pending (ex_state Required) k" for k by (simp add: is_pending_def ex_state_def)
  ultimately have "\<exists>x. reroute ex_config (ex_state Required) (st_work_items (ex_state Required)) = Inr x"
    using r by (simp add: ex_state_def)
  then obtain x where "adopt_configuration ex_config (ex_state Required) = Inr
     ((ex_state Required)\<lparr>st_routes := x, st_configuration_digest := cf_digest ex_config, st_approvals := []\<rparr>)"
    by (auto simp: adopt_configuration_def)
  from adopting_a_configuration [OF this ex_keyed] this show ?thesis
    by (auto simp: ex_state_def)
qed

end
