(* ===== verification/Scheduler_Liveness.thy ===== *)
theory Scheduler_Liveness
  imports Scheduler_Properties
begin

text \<open>
  When a run returns and how it ends: over ports that answer, \<open>run_ready\<close> raises nothing
  (\<open>run_returns\<close>), and with the SDK adapter a run without approval gates ends with a final
  status.
\<close>

section \<open>Runs that return\<close>

text \<open>
  Ports that do not fail: the store, the lease and the clock answer, and a turn raises nothing
  but ordinary exceptions. A run over them returns, provided that every item has a route.
\<close>

definition answers :: "('w, 'a) eff \<Rightarrow> bool" where
  "answers m \<longleftrightarrow> (\<forall>w e w'. m w \<noteq> (Inl e, w'))"

definition calm :: "'w sched_ports \<Rightarrow> bool" where
  "calm p \<longleftrightarrow>
     (\<forall>s. answers (sp_save p s)) \<and> (\<forall>k e. answers (sp_append_event p k e))
     \<and> (\<forall>x. answers (sp_acquire p x)) \<and> (\<forall>x. answers (sp_release p x))
     \<and> (\<forall>cs. answers (sp_group p cs)) \<and> answers (sp_now p)
     \<and> (\<forall>c w e w'. sp_call p c w = (Inl e, w') \<longrightarrow> is_exception e)"

abbreviation returns_from :: "('w \<Rightarrow> bool) \<Rightarrow> ('w, 'a) eff \<Rightarrow> bool" where
  "returns_from P m \<equiv> io_spec P m (\<lambda>_ _. True) (\<lambda>_. False)"

abbreviation always :: "('w, 'a) eff \<Rightarrow> bool" where
  "always m \<equiv> returns_from (\<lambda>_. True) m"

lemma always_bind: "always m \<Longrightarrow> (\<And>a. always (f a)) \<Longrightarrow> always (io_bind m f)"
  by (rule io_spec_bind)

lemma always_lift: "answers m \<Longrightarrow> always (lift_world m)"
  by (auto simp: io_spec_def lift_world_def answers_def split: prod.splits)

lemma always_pure: "always (io_return a)" "always get_state" "always (set_state s)" "always (modify_state f)"
  by (auto simp: io_spec_def get_state_def set_state_def modify_state_def io_bind_def)

lemma always_from: "always m \<Longrightarrow> returns_from P m"
  by (rule io_spec_weaken) simp_all

lemma always_ports:
  assumes "calm p"
  shows "always (save_state p)" "always (lift_world (sp_append_event p k e))" "always (lift_world (sp_now p))"
    "always (lift_world (sp_acquire p x))" "always (lift_world (sp_release p x))" "always (lift_world (sp_group p cs))"
  using assms by (auto simp: calm_def save_state_def intro!: always_bind always_lift always_pure)

lemma always_persist:
  assumes "calm p"
  shows "always (persist_result p r)" and "always (persist_all p rs)"
proof -
  show one: "always (persist_result p r)" for r
    unfolding persist_result_def by (intro always_bind always_pure always_ports [OF assms])
  show "always (persist_all p rs)"
  proof (induction rs)
    case Nil
    show ?case unfolding persist_all.simps by (rule always_pure)
  next
    case (Cons r rs)
    then show ?case unfolding persist_all.simps by (intro always_bind one)
  qed
qed

lemma always_run_one:
  assumes "calm p"
  shows "always (run_one p item)"
proof -
  have call: "is_exception e" if "sp_call p c w = (Inl e, w')" for c w e w'
    using assms that unfolding calm_def by blast
  have "is_exception e" if "dispatch p item sw = (Inl e, sw')" for e sw sw'
  proof -
    obtain s w where sw: "sw = (s, w)" by (cases sw)
    show ?thesis
    proof (cases "dispatch_call s item")
      case (Inl x)
      then have "\<exists>k. x = PyKeyError k" by (auto simp: dispatch_call_def split: option.splits)
      then show ?thesis using that Inl by (auto simp: sw dispatch_def get_state_def io_bind_def is_exception_def)
    next
      case (Inr c)
      then show ?thesis using that
        by (auto simp: sw dispatch_def get_state_def io_bind_def lift_world_def dest: call split: prod.splits sum.splits)
    qed
  qed
  then show ?thesis by (fastforce simp: io_spec_def run_one_def split: prod.splits sum.splits if_splits)
qed

lemma always_run_writer:
  assumes "calm p"
  shows "returns_from (on_state (\<lambda>s. require_dispatchable (sp_sha p) s (wi_id item) = Inr ())) (run_writer p item)"
proof -
  let ?P = "\<lambda>s. require_dispatchable (sp_sha p) s (wi_id item) = Inr ()"
  have status: "?P (s\<lparr>st_status := x\<rparr>) = ?P s" for s x
    using same_plan_simps(8) [of s "s\<lparr>st_status := x\<rparr>"] by (simp add: same_plan_def)
  have keep: "io_spec (on_state ?P) m (\<lambda>_. on_state ?P) (\<lambda>_. False)"
    if "always m" and "io_spec (on_state ?P) m (\<lambda>_. on_state ?P) (on_state ?P)" for m :: "('a, 'b) sched"
    using that unfolding io_spec_def by blast
  have lift: "io_spec (on_state ?P) (lift_world m) (\<lambda>_. on_state ?P) (\<lambda>_. False)" if "always (lift_world m)"
    for m :: "('a, 'b) eff" by (rule keep [OF that spec_lift_on_state])
  have first: "io_spec (on_state (\<lambda>t. t = s \<and> ?P s))
     (if pre_writer_status (st_status s)
      then io_bind (set_state (s\<lparr>st_status := RunPlanned\<rparr>)) (\<lambda>_. save_state p) else io_return ())
     (\<lambda>_. on_state ?P) (\<lambda>_. False)" for s
    by (intro spec_if io_spec_bind [OF spec_set_on_state keep [OF always_ports(1) [OF assms] spec_save]] io_spec_return)
      (auto simp: on_state_def status)
  have check: "io_spec (on_state (\<lambda>t. t = s \<and> ?P s)) (io_lift (require_dispatchable (sp_sha p) s (wi_id item)))
     (\<lambda>_ _. True) (\<lambda>_. False)" for s
    by (auto simp: io_spec_def on_state_def)
  have body: "returns_from (on_state ?P)
      (io_bind get_state (\<lambda>s.
       io_bind (io_lift (require_dispatchable (sp_sha p) s (wi_id item))) (\<lambda>_.
       io_bind (modify_state (\<lambda>s. s\<lparr>st_status := RunRunning\<rparr>)) (\<lambda>_.
       io_bind (run_one p item) (\<lambda>result. persist_result p result)))))"
    by (rule io_spec_bind [OF spec_get_on_state], rule io_spec_bind [OF check],
        intro always_bind always_pure always_run_one always_persist assms)
  show ?thesis
    unfolding run_writer_def
    by (rule io_spec_bind [OF spec_get_on_state], rule io_spec_bind [OF first],
        rule io_spec_bind [OF lift [OF always_ports(4) [OF assms]]],
        rule io_spec_finally [where F = "\<lambda>_. False", OF body always_ports(5) [OF assms]]) (simp add: io_spec_def)
qed

lemma always_run_step:
  assumes "calm p"
  shows "always (run_step p)"
proof -
  have readers: "always (run_readers p ready)" for ready
    unfolding run_readers_def run_read_batch_def
    by (intro always_bind always_pure always_ports always_persist assms)
  have go: "returns_from (on_state (\<lambda>t. t = s))
     (case filter is_writer (dispatchable (sp_sha p) s) of
        item # _ \<Rightarrow> io_bind (run_writer p item) (\<lambda>_. io_return True)
      | [] \<Rightarrow> io_bind (run_readers p (dispatchable (sp_sha p) s)) (\<lambda>_. io_return True))" for s
  proof (cases "filter is_writer (dispatchable (sp_sha p) s)")
    case Nil
    have "always (io_bind (run_readers p (dispatchable (sp_sha p) s)) (\<lambda>_. io_return True))"
      by (intro always_bind readers always_pure)
    then show ?thesis unfolding Nil list.case by (rule always_from)
  next
    case (Cons item items)
    then have "item \<in> set (dispatchable (sp_sha p) s)" by (metis filter_eq_ConsD in_set_conv_decomp)
    then have "require_dispatchable (sp_sha p) s (wi_id item) = Inr ()" by (simp add: dispatchable_def)
    then have "returns_from (on_state (\<lambda>t. t = s)) (run_writer p item)"
      by (intro io_spec_weaken [OF always_run_writer [OF assms]]) (auto simp: on_state_def)
    then show ?thesis unfolding Cons list.case by (rule io_spec_bind) (rule always_pure)
  qed
  have get: "io_spec (\<lambda>_. True) get_state (\<lambda>s. on_state (\<lambda>t. t = s)) (\<lambda>_. False)"
    by (auto simp: io_spec_def get_state_def on_state_def)
  show ?thesis
    unfolding run_step_def Let_def
    by (intro always_bind always_pure always_persist assms io_spec_bind [OF get] spec_if always_from [OF always_pure(1)] go)
qed

lemma always_run_loop: "calm p \<Longrightarrow> always (run_loop n p)"
proof (induction n)
  case 0
  show ?case unfolding run_loop.simps by (rule always_pure)
next
  case (Suc n)
  then show ?case unfolding run_loop.simps by (intro always_bind always_run_step spec_if always_pure)
qed

definition routed :: "run_state \<Rightarrow> bool" where
  "routed s \<longleftrightarrow> (\<forall>i \<in> snd ` set (st_work_items s). map_of (st_routes s) (wi_id i) \<noteq> None)"

lemma final_status_routed:
  assumes "routed s"
  shows "\<exists>x. final_status s = Inr x"
proof -
  have "\<exists>b. missing_approval s items = Inr b" if "\<forall>i \<in> set items. map_of (st_routes s) (wi_id i) \<noteq> None" for items
    using that by (induction items) (auto split: option.split)
  then have "\<exists>b. missing_approval s (map snd (st_work_items s)) = Inr b" using assms by (simp add: routed_def)
  then show ?thesis unfolding final_status_def Let_def by auto
qed

text \<open>A run over calm ports of a state whose items all have a route returns.\<close>

lemma run_returns:
  assumes "calm p" and "keyed s0" and "routed s0"
  shows "\<exists>s w'. run_ready p (s0, w) = (Inr (), (s, w'))"
proof -
  let ?I = "sched_inv (sp_sha p) s0"
  have start: "io_spec (on_state (\<lambda>s. s = s0)) get_state (\<lambda>_. on_state ?I) (\<lambda>_. False)"
    using sched_inv_refl [OF assms(2)] by (auto simp: io_spec_def get_state_def on_state_def)
  have loop: "io_spec (on_state ?I) (run_loop n p) (\<lambda>_. on_state ?I) (\<lambda>_. False)" for n
    using always_run_loop [OF assms(1), of n] spec_run_loop [OF assms(2), of p n] unfolding io_spec_def by blast
  have status: "\<exists>x. final_status s = Inr x" if "?I s" for s
  proof -
    have "same_plan s0 s" using that by (simp add: sched_inv_def)
    then have "routed s" using assms(3) by (simp add: routed_def same_plan_simps)
    then show ?thesis by (rule final_status_routed)
  qed
  have lift: "io_spec (on_state (\<lambda>t. t = s \<and> ?I s)) (io_lift (final_status s)) (\<lambda>_ _. True) (\<lambda>_. False)" for s
    using status [of s] by (auto simp: io_spec_def on_state_def)
  have finish: "returns_from (on_state ?I) (finish_run p)"
    unfolding finish_run_def
    by (rule io_spec_bind [OF spec_get_on_state], rule io_spec_bind [OF lift],
        intro spec_if always_bind always_pure always_ports assms)
  have "returns_from (on_state (\<lambda>s. s = s0)) (run_ready p)"
    unfolding run_ready_def by (rule io_spec_bind [OF start], rule io_spec_bind [OF loop finish])
  then show ?thesis
    by (cases "run_ready p (s0, w)"; cases "fst (run_ready p (s0, w))") (auto simp: io_spec_def on_state_def)
qed

section \<open>Runs without approval gates\<close>

definition state_rel :: "run_state \<Rightarrow> (string \<times> string) set" where
  "state_rel s = {(d, k). \<exists>i. map_of (st_work_items s) k = Some i \<and> d \<in> set (wi_dependencies i)}"

definition automatic :: "run_state \<Rightarrow> bool" where
  "automatic s \<longleftrightarrow> (\<forall>k \<in> set (dkeys (st_work_items s)).
     \<exists>rt. map_of (st_routes s) k = Some rt \<and> rd_approval rt = Automatic)"

definition closed_deps :: "run_state \<Rightarrow> bool" where
  "closed_deps s \<longleftrightarrow> (\<forall>k i. map_of (st_work_items s) k = Some i \<longrightarrow>
     set (wi_dependencies i) \<subseteq> set (dkeys (st_work_items s)))"

lemma automatic_dispatchable:
  assumes "automatic s" and "k \<in> set (dkeys (st_work_items s))"
  shows "require_dispatchable sha s k = Inr ()"
proof -
  obtain rt where "map_of (st_routes s) k = Some rt" "rd_approval rt = Automatic"
    using assms unfolding automatic_def by blast
  moreover obtain i where "map_of (st_work_items s) k = Some i"
    using assms(2) by (metis map_of_None_iff not_None_eq)
  ultimately show ?thesis unfolding require_dispatchable_iff by blast
qed

text \<open>
  Nothing is dispatchable any more and nothing failed: then everything has succeeded, by
  induction over the dependency relation.
\<close>

lemma exhausted_succeeded:
  assumes "keyed s" and "automatic s" and "closed_deps s" and "wf (state_rel s)"
    and none: "dispatchable sha s = []"
    and no_failure: "\<And>k r. map_of (st_results s) k = Some r \<Longrightarrow> \<not> dependency_failure (wr_status r)"
    and k: "k \<in> set (dkeys (st_work_items s))"
  shows "\<exists>r. map_of (st_results s) k = Some r \<and> wr_status r = Succeeded"
  using assms(4) k
proof (induction k rule: wf_induct_rule)
  case (less k)
  obtain i where i: "map_of (st_work_items s) k = Some i"
    using less.prems by (metis map_of_None_iff not_None_eq)
  have "dependencies_succeeded s i"
    unfolding dependencies_succeeded_def list_all_iff
  proof
    fix d assume d: "d \<in> set (wi_dependencies i)"
    then have "(d, k) \<in> state_rel s" and "d \<in> set (dkeys (st_work_items s))"
      using i assms(3) by (auto simp: state_rel_def closed_deps_def)
    from less.IH [OF this] show "case map_of (st_results s) d of None \<Rightarrow> False | Some r \<Rightarrow> wr_status r = Succeeded"
      by auto
  qed
  moreover have "wi_id i = k" using assms(1) i by (simp add: keyed_def)
  moreover have "require_dispatchable sha s k = Inr ()" by (rule automatic_dispatchable [OF assms(2) less.prems])
  ultimately have "i \<notin> set (pending_items s)" using none by (auto simp: dispatchable_def filter_empty_conv)
  then have "\<not> is_pending s k" using i less.prems by (force simp: pending_items_def)
  then obtain r where r: "map_of (st_results s) k = Some r" and "\<not> resumable_status (wr_status r)"
    by (auto simp: is_pending_def split: option.splits)
  then show ?case using no_failure [OF r]
    by (cases "wr_status r") (auto simp: resumable_status_def dependency_failure_def)
qed

lemma final_status_failure:
  assumes "final_status s = Inr x" and "map_of (st_results s) k = Some r" and "dependency_failure (wr_status r)"
  shows "x \<in> {RunFailed, RunBlocked}"
proof -
  define S where "S = set (map (\<lambda>kr. wr_status (snd kr)) (st_results s))"
  have "wr_status r \<in> S" using map_of_SomeD [OF assms(2)] unfolding S_def by force
  then have "Failed \<in> S \<or> Blocked \<in> S" using assms(3) by (auto simp: dependency_failure_def)
  then show ?thesis using assms(1) unfolding final_status_def Let_def S_def [symmetric]
    by (auto split: if_splits)
qed

text \<open>
  C5. A run whose items form an acyclic plan without approval gates comes to its end: over the
  SDK adapter and collaborators that answer, \<open>run_ready\<close> returns, and it has completed, failed
  or is blocked by a failure; it is never left planned, running or waiting for an approval.
\<close>

theorem automatic_runs_finish:
  assumes "calm (codex_scheduler c x order sp n)"
    and "keyed s0" and "results_of_items s0" and "automatic s0" and "closed_deps s0" and "wf (state_rel s0)"
  shows "\<exists>s bw'. run_ready (codex_scheduler c x order sp n) (s0, bw) = (Inr (), (s, bw'))
    \<and> st_status s \<in> {RunCompleted, RunFailed, RunBlocked}"
proof -
  let ?p = "codex_scheduler c x order sp n"
  have "routed s0" unfolding routed_def
  proof
    fix i assume "i \<in> snd ` set (st_work_items s0)"
    then obtain k where ki: "(k, i) \<in> set (st_work_items s0)" by force
    then have "wi_id i = k" using assms(2) by (auto simp: keyed_def map_of_mem_iff)
    moreover have "k \<in> set (dkeys (st_work_items s0))" using ki by force
    ultimately show "map_of (st_routes s0) (wi_id i) \<noteq> None" using assms(4) by (force simp: automatic_def)
  qed
  then obtain s bw' where run: "run_ready ?p (s0, bw) = (Inr (), (s, bw'))"
    using run_returns [OF assms(1,2)] by blast
  have plan: "same_plan s0 s" using run_ready_spec [OF assms(2) run] unfolding sched_inv_def by blast
  have k: "keyed s" using run_ready_spec [OF assms(2) run] assms(2) by (rule sched_inv_keyed)
  have s: "automatic s" "closed_deps s" "wf (state_rel s)"
    using assms(4-6) by (simp_all add: automatic_def closed_deps_def state_rel_def same_plan_simps [OF plan])
  have none: "dispatchable (sp_sha ?p) s = []"
    using io_spec_Inr [OF codex.run_ready_exhausts [OF assms(2)] _ run] by (simp add: on_state_def)
  have final: "final_status s = Inr (st_status s)"
    using io_spec_Inr [OF spec_run_ready [OF assms(2)] _ run] by (simp add: on_state_def)
  have "st_status s \<in> {RunCompleted, RunFailed, RunBlocked}"
  proof (cases "\<exists>k r. map_of (st_results s) k = Some r \<and> dependency_failure (wr_status r)")
    case True
    then show ?thesis using final_status_failure [OF final] by blast
  next
    case False
    then have "\<exists>r. map_of (st_results s) k = Some r \<and> wr_status r = Succeeded"
      if "k \<in> set (dkeys (st_work_items s))" for k
      by (intro exhausted_succeeded [OF k s none _ that]) blast
    then show ?thesis using run_ready_closing [OF assms(2,3) run] by blast
  qed
  then show ?thesis using run by blast
qed

text \<open>Adapters whose cancellations are all their own deadlines.\<close>

lemma codex_call_exception:
  assumes "\<And>t v v'. cx_deadline p t v v'" and "codex_call c p call bw = (Inl e, bw')"
  shows "is_exception e"
proof -
  have no_cancel: "is_exception e'" if "io_timeout p t m v = (Inl e', v')" for t e' v v' and m :: "('a, work_result) sdk"
    using that assms(1) by (auto simp: io_timeout_def is_exception_def split: prod.splits sum.splits exn.splits)
  have mapped: "is_exception e"
    if "io_map_error (sdk_errors te msg) (io_timeout p t m) bw = (Inl e, bw')" "is_exception te"
    for te msg t and m :: "('a, work_result) sdk"
    using that(1,2) no_cancel [of t m bw]
    by (auto simp: io_map_error_def sdk_errors_def is_exception_def split: prod.splits sum.splits exn.splits)
  have "is_exception (turn_timeout_error rt)" for rt by (simp add: turn_timeout_error_def is_exception_def)
  then show ?thesis
    using assms(2) mapped unfolding codex_call_def run_new_thread_def resume_thread_def
    by (cases call) auto
qed

lemma task_group_answers: "answers (task_group call order cs)"
proof -
  have "\<exists>r w'. end_children call cs ord ocs w = (Inr r, w')" for ord ocs w
    by (induction call cs ord ocs w rule: end_children.induct) (auto split: prod.split sum.split)
  then show ?thesis by (metis answers_def task_group_def sum.distinct(1) prod.inject)
qed

definition ex_deadline :: "unit codex_ports" where
  "ex_deadline = ex_codex\<lparr>cx_deadline := \<lambda>_ _ _. True\<rparr>"

lemma ex_calm: "calm (codex_scheduler ex_client ex_deadline (\<lambda>_. [0]) ex_quiet 1)"
  using codex_call_exception [of ex_deadline]
  by (auto simp: calm_def codex_scheduler_def task_group_answers ex_quiet_def ex_deadline_def)
    (auto simp: answers_def)

lemma automatic_runs_finish_witness:
  "\<exists>s bw. run_ready (codex_scheduler ex_client ex_deadline (\<lambda>_. [0]) ex_quiet 1) (ex_state Automatic, (True, ()))
     = (Inr (), (s, bw)) \<and> st_status s \<in> {RunCompleted, RunFailed, RunBlocked}"
proof -
  have "state_rel (ex_state Automatic) \<subseteq> measure (\<lambda>k. if k = ''b'' then 1 else 0)"
    by (auto simp: state_rel_def ex_state_def ex_item_def split: if_splits)
  then have "wf (state_rel (ex_state Automatic))" by (rule wf_subset [OF wf_measure])
  moreover have "automatic (ex_state Automatic)" by (simp add: automatic_def ex_state_def ex_route_def)
  moreover have "closed_deps (ex_state Automatic)" by (simp add: closed_deps_def ex_state_def ex_item_def)
  ultimately show ?thesis
    using automatic_runs_finish [OF ex_calm ex_keyed ex_results_of_items] by blast
qed

end
