(* ===== verification/Run_Properties.thy ===== *)
theory Run_Properties
  imports Application_Properties Scheduler_Liveness
begin

text \<open>
  Properties of whole runs, through planner, application, scheduler and SDK adapter: the plans
  that are persisted are well-formed, a run without approval gates always ends, and a completed
  objective has passed its independent review. \<open>app_scheduler\<close> is what the application relies
  on from the scheduler, interpreted on the model of \<open>WorkScheduler\<close>.
\<close>

section \<open>The application over the scheduler\<close>

locale app_scheduler =
  fixes p :: "'w app_ports"
  assumes scheduled_plan:
      "keyed s \<Longrightarrow> results_of_items s \<Longrightarrow> ap_run_ready p s w = (Inr s', w') \<Longrightarrow> same_plan s s'"
    and scheduled_ok:
      "keyed s \<Longrightarrow> results_of_items s \<Longrightarrow> ap_run_ready p s w = (Inr s', w') \<Longrightarrow> keyed s' \<and> results_of_items s'"
    and scheduled_completed:
      "keyed s \<Longrightarrow> results_of_items s \<Longrightarrow> ap_run_ready p s w = (Inr s', w') \<Longrightarrow> st_status s' = RunCompleted
       \<Longrightarrow> k \<in> set (dkeys (st_work_items s')) \<Longrightarrow> \<exists>r. map_of (st_results s') k = Some r \<and> wr_status r = Succeeded"
begin

lemma append_completion_ok:
  assumes "append_completion p s w = (Inr s', w')" and "keyed s" and "results_of_items s"
  shows "keyed s' \<and> results_of_items s' \<and> completion_id \<in> set (dkeys (st_work_items s'))
    \<and> st_results s' = st_results s"
proof -
  obtain rt where s': "s' = s\<lparr>st_work_items := dset (st_work_items s) completion_id
      (completion_item s (cf_completion_task (ap_config p))),
    st_routes := dset (st_routes s) completion_id rt, st_status := RunPlanned\<rparr>"
    using assms(1) unfolding append_completion_def Let_def by (auto simp: io_bind_Inr_iff)
  have id: "wi_id (completion_item s task) = completion_id" for task
    by (simp add: completion_item_def Let_def)
  have items: "st_work_items s' = dset (st_work_items s) completion_id (completion_item s (cf_completion_task (ap_config p)))"
    and results: "st_results s' = st_results s"
    unfolding s' by simp_all
  have "keyed s'" using assms(2) id unfolding keyed_def items results by auto
  moreover have keys: "set (dkeys (st_work_items s')) = insert completion_id (set (dkeys (st_work_items s)))"
    unfolding items by (rule set_dkeys_dset)
  moreover have "results_of_items s'"
    using assms(3) unfolding results_of_items_def results keys by blast
  ultimately show ?thesis using results by blast
qed

text \<open>An objective run that ends completed has a successful completion review.\<close>

lemma completed_reviewed:
  assumes s: "keyed s" "results_of_items s" "ob_explicit_task (st_objective s) = None"
    and base: "k0 \<in> set (dkeys (st_work_items s))" "k0 \<noteq> completion_id"
    and run: "continue_run p s w = (Inr s', w')" and fin: "st_status s' = RunCompleted"
  shows "\<forall>k \<in> insert completion_id (set (dkeys (st_work_items s'))).
    \<exists>r. map_of (st_results s') k = Some r \<and> wr_status r = Succeeded"
proof -
  define middle where "middle s1 = (if ob_explicit_task (st_objective s1) = None \<and> base_work_succeeded s1
      then io_bind (if map_of (st_work_items s1) completion_id = None then append_completion p s1 else io_return s1)
             (\<lambda>s2. if map_of (st_results s2) completion_id = None then ap_run_ready p s2 else io_return s2)
      else io_return s1)" for s1
  obtain s1 w1 where r1: "ap_run_ready p s w = (Inr s1, w1)"
    and rest: "io_bind (middle s1) (\<lambda>s3. io_bind (write_report p s3) (\<lambda>_. io_return s3)) w1 = (Inr s', w')"
    using run unfolding continue_run_def middle_def by (rule io_bind_Inr_E)
  obtain s3 w2 where mid: "middle s1 w1 = (Inr s3, w2)"
    and wrote: "io_bind (write_report p s3) (\<lambda>_. io_return s3) w2 = (Inr s', w')"
    using rest by (rule io_bind_Inr_E)
  have "s' = s3" using wrote by (rule io_bind_Inr_E) simp
  note s1 = scheduled_plan [OF s(1,2) r1] scheduled_ok [OF s(1,2) r1, THEN conjunct1] scheduled_ok [OF s(1,2) r1, THEN conjunct2]
  have items1: "st_work_items s1 = st_work_items s" and explicit: "ob_explicit_task (st_objective s1) = None"
    using same_plan_simps [OF s1(1)] s(3) by simp_all
  have "base_work_succeeded s1" if fin1: "st_status s1 = RunCompleted"
  proof -
    have all: "case map_of (st_results s1) k of None \<Rightarrow> False | Some r \<Rightarrow> wr_status r = Succeeded"
      if k: "k \<in> set (dkeys (st_work_items s1))" for k
    proof -
      obtain r where "map_of (st_results s1) k = Some r" "wr_status r = Succeeded"
        using scheduled_completed [OF s(1,2) r1 fin1 k] by blast
      then show ?thesis by (simp only: option.case)
    qed
    have ne: "filter (\<lambda>k. k \<noteq> completion_id) (dkeys (st_work_items s1)) \<noteq> []"
      using base unfolding items1 filter_empty_conv by blast
    show ?thesis
      unfolding base_work_succeeded_def Let_def list_all_iff set_filter using ne all by blast
  qed
  then have succeeded: "base_work_succeeded s1"
    using mid fin explicit unfolding \<open>s' = s3\<close> middle_def by (cases "base_work_succeeded s1") simp_all
  obtain s2 v where s2: "(if map_of (st_work_items s1) completion_id = None then append_completion p s1 else io_return s1) w1 = (Inr s2, v)"
    and s3: "(if map_of (st_results s2) completion_id = None then ap_run_ready p s2 else io_return s2) v = (Inr s3, w2)"
    using mid succeeded explicit unfolding middle_def by (simp only: simp_thms if_True) (rule io_bind_Inr_E)
  have ok2: "keyed s2 \<and> results_of_items s2 \<and> completion_id \<in> set (dkeys (st_work_items s2))
      \<and> st_results s2 = st_results s1"
  proof (cases "map_of (st_work_items s1) completion_id = None")
    case True
    then show ?thesis using s2 append_completion_ok [OF _ s1(2,3)] by simp
  next
    case False
    then have "s2 = s1" using s2 by (simp only: if_False io_return_apply prod.inject sum.inject)
    then show ?thesis using s1 False by (auto dest: map_of_Some_key)
  qed
  show ?thesis
  proof (cases "map_of (st_results s2) completion_id = None")
    case True
    then have r2: "ap_run_ready p s2 v = (Inr s3, w2)" using s3 by simp
    have "st_work_items s3 = st_work_items s2"
      using scheduled_plan [OF _ _ r2] ok2 by (blast dest: same_plan_simps(1))
    then have "insert completion_id (set (dkeys (st_work_items s3))) = set (dkeys (st_work_items s3))"
      using ok2 by (auto simp: insert_absorb)
    moreover have "\<exists>r. map_of (st_results s3) k = Some r \<and> wr_status r = Succeeded"
      if "k \<in> set (dkeys (st_work_items s3))" for k
      using scheduled_completed [OF _ _ r2 _ that] ok2 fin unfolding \<open>s' = s3\<close> by blast
    ultimately show ?thesis unfolding \<open>s' = s3\<close> by blast
  next
    case False
    then have mem: "completion_id \<in> set (dkeys (st_work_items s1))"
      using ok2 s1(3) by (auto simp: results_of_items_def dest!: map_of_Some_key)
    then have "map_of (st_work_items s1) completion_id \<noteq> None" by (simp only: map_of_None_iff not_not)
    then have "s2 = s1" using s2 by (simp only: if_False io_return_apply prod.inject sum.inject)
    moreover have "s3 = s2" using s3 False by (simp only: if_False io_return_apply prod.inject sum.inject)
    ultimately have "s' = s1" using \<open>s' = s3\<close> by simp
    then have "\<exists>r. map_of (st_results s') k = Some r \<and> wr_status r = Succeeded"
      if "k \<in> set (dkeys (st_work_items s'))" for k
      using scheduled_completed [OF s(1,2) r1] fin that by blast
    moreover have "completion_id \<in> set (dkeys (st_work_items s'))" using mem \<open>s' = s1\<close> by simp
    ultimately show ?thesis by blast
  qed
qed

text \<open>A run without items stays one.\<close>

lemma continue_empty:
  assumes "keyed s" "results_of_items s" "st_work_items s = []" and run: "continue_run p s w = (Inr s', w')"
  shows "st_work_items s' = []"
proof -
  obtain s1 w1 where r1: "ap_run_ready p s w = (Inr s1, w1)"
    and rest: "io_bind (if ob_explicit_task (st_objective s1) = None \<and> base_work_succeeded s1
      then io_bind (if map_of (st_work_items s1) completion_id = None then append_completion p s1 else io_return s1)
             (\<lambda>s2. if map_of (st_results s2) completion_id = None then ap_run_ready p s2 else io_return s2)
      else io_return s1) (\<lambda>s3. io_bind (write_report p s3) (\<lambda>_. io_return s3)) w1 = (Inr s', w')"
    using run unfolding continue_run_def by (rule io_bind_Inr_E)
  have items: "st_work_items s1 = []"
    using same_plan_simps(1) [OF scheduled_plan [OF assms(1,2) r1]] assms(3) by simp
  then have "\<not> base_work_succeeded s1" by (simp add: base_work_succeeded_def)
  then have "io_bind (write_report p s1) (\<lambda>_. io_return s1) w1 = (Inr s', w')" using rest by simp
  then have "s' = s1" by (rule io_bind_Inr_E) simp
  then show ?thesis using items by simp
qed

end

text \<open>The model of \<open>WorkScheduler\<close> is such a scheduler, whatever its own ports do.\<close>

interpretation app: app_scheduler "p\<lparr>ap_run_ready := scheduler_port sp\<rparr>"
proof unfold_locales
  fix s w s' w'
  assume s: "keyed s" "results_of_items s"
    and run: "ap_run_ready (p\<lparr>ap_run_ready := scheduler_port sp\<rparr>) s w = (Inr s', w')"
  have r: "run_ready sp (s, w) = (Inr (), (s', w'))" using run by (simp add: scheduler_port_Inr)
  show "same_plan s s'" using r by (rule same_plan_run)
  show "keyed s' \<and> results_of_items s'"
    using run_ready_spec [OF s(1) r] s(1) run_ready_closing [OF s r] by (blast dest: sched_inv_keyed)
  fix k assume "st_status s' = RunCompleted" and "k \<in> set (dkeys (st_work_items s'))"
  then show "\<exists>r. map_of (st_results s') k = Some r \<and> wr_status r = Succeeded"
    using run_ready_closing [OF s r] by blast
qed

section \<open>Planned runs\<close>

definition well_planned :: "router_config \<Rightarrow> run_state \<Rightarrow> bool" where
  "well_planned cfg s \<longleftrightarrow>
     keyed s \<and> completion_id \<notin> set (dkeys (st_work_items s))
     \<and> st_results s = [] \<and> st_approvals s = [] \<and> st_status s = RunPlanned
     \<and> st_configuration_digest s = cf_digest cfg \<and> ob_explicit_task (st_objective s) = None
     \<and> (\<forall>k item. map_of (st_work_items s) k = Some item \<longrightarrow>
          (\<exists>rt. map_of (st_routes s) k = Some rt \<and> route cfg item None = Inr rt))
     \<and> closed_deps s \<and> wf (state_rel s)"

lemma list_all2_image: "list_all2 P xs ys \<Longrightarrow> x \<in> set xs \<Longrightarrow> \<exists>y \<in> set ys. P x y"
  by (induction rule: list_all2_induct) auto

lemma planned_state_ok:
  assumes "planned_state cfg obj repo items = Inr s" and "plan_valid resolve obj' cfg' items"
    and "ob_explicit_task obj = None"
  shows "well_planned cfg s" and "dkeys (st_work_items s) = map wi_id items"
proof -
  have d: "distinct (map wi_id items)" and known: "plan_known items" and rel: "wf (plan_rel items)"
    using assms(2) by (simp_all add: plan_valid_def)
  obtain routes where no: "completion_id \<notin> wi_id ` set items"
    and routes: "rmap (\<lambda>i. rbind (route cfg i None) (\<lambda>rt. Inr (wi_id i, rt))) items = Inr routes"
    and s: "s = \<lparr>st_schema_version = 1, st_configuration_digest = cf_digest cfg,
               st_objective = obj, st_repository = repo,
               st_work_items = dict_of (map (\<lambda>i. (wi_id i, i)) items), st_routes = dict_of routes,
               st_results = [], st_approvals = [], st_status = RunPlanned\<rparr>"
    using assms(1) by (auto simp: planned_state_def rbind_eq_Inr_iff split: if_splits)
  have items: "dict_of (map (\<lambda>i. (wi_id i, i)) items) = map (\<lambda>i. (wi_id i, i)) items"
    by (rule dict_of_distinct) (use d in \<open>simp add: comp_def\<close>)
  then show keys: "dkeys (st_work_items s) = map wi_id items" by (simp add: s comp_def)
  have all2: "list_all2 (\<lambda>i r. fst r = wi_id i \<and> route cfg i None = Inr (snd r)) items routes"
    using routes by (auto simp: rmap_Inr_iff rbind_eq_Inr_iff elim!: list_all2_mono)
  have rkeys: "map fst routes = map wi_id items"
    using all2 by (induction rule: list_all2_induct) auto
  then have rd: "dict_of routes = routes" and ok: "dict_ok routes"
    using d by (simp_all add: dict_of_distinct dict_ok_def)
  have find: "map_of (st_work_items s) k = Some i \<longleftrightarrow> i \<in> set items \<and> wi_id i = k" for k i
    using d unfolding s items by (subst run_state.simps, subst map_of_eq_Some_iff) (auto simp: comp_def)
  have "\<exists>rt. map_of (st_routes s) k = Some rt \<and> route cfg item None = Inr rt"
    if "map_of (st_work_items s) k = Some item" for k item
  proof -
    have i: "item \<in> set items" "wi_id item = k" using that find by auto
    with list_all2_image [OF all2] obtain r where
      "r \<in> set routes" "fst r = wi_id item" "route cfg item None = Inr (snd r)" by blast
    then show ?thesis using ok i(2) by (auto simp: s rd map_of_mem_iff)
  qed
  moreover have "closed_deps s" using known unfolding closed_deps_def keys plan_known_def find by auto
  moreover have "state_rel s = plan_rel items" by (auto simp: state_rel_def plan_rel_def find)
  moreover have "keyed s" using d find by (auto simp: keyed_def s items dict_ok_def comp_def)
  moreover have "st_results s = [] \<and> st_approvals s = [] \<and> st_status s = RunPlanned
     \<and> st_configuration_digest s = cf_digest cfg \<and> ob_explicit_task (st_objective s) = None"
    using assms(3) by (simp add: s)
  moreover have "completion_id \<notin> set (dkeys (st_work_items s))" using no unfolding keys by simp
  ultimately show "well_planned cfg s" using rel unfolding well_planned_def by metis
qed

lemma foldl_dset_entry:
  "map_of (foldl (\<lambda>d (k, v). dset d k v) d ps) k = Some v \<Longrightarrow> (k, v) \<in> set ps \<or> map_of d k = Some v"
proof (induction ps arbitrary: d)
  case (Cons x ps)
  obtain j u where x: "x = (j, u)" by (cases x)
  from Cons.IH [of "dset d j u"] Cons.prems show ?case unfolding x by (cases "j = k") auto
qed simp

lemma map_of_dict_of: "map_of (dict_of ps) k = Some v \<Longrightarrow> (k, v) \<in> set ps"
  using foldl_dset_entry [of "[]" ps k v] by (simp add: dict_of_def)

lemma plan_unlocked_E:
  assumes "plan_unlocked p project prompt rid w = (Inr s, w')"
  obtains obj repo items v v' where "ob_explicit_task obj = None"
    and "ap_plan p obj repo (ap_config p) v = (Inr items, v')"
    and "planned_state (ap_config p) obj repo items = Inr s"
  using assms unfolding plan_unlocked_def make_objective_def
  by (elim io_bind_Inr_E) (clarsimp, erule that [rotated], assumption, simp)

lemma created_state:
  assumes "plan_unlocked p project prompt rid w = (Inr s, w')"
  shows "keyed s" and "results_of_items s" and "ob_explicit_task (st_objective s) = None"
    and "completion_id \<notin> set (dkeys (st_work_items s))"
proof -
  obtain obj repo items where obj: "ob_explicit_task obj = None"
    and state: "planned_state (ap_config p) obj repo items = Inr s"
    using plan_unlocked_E [OF assms] by blast
  then have no: "completion_id \<notin> wi_id ` set items" and results: "st_results s = []" "st_objective s = obj"
    and items: "st_work_items s = dict_of (map (\<lambda>i. (wi_id i, i)) items)"
    by (auto simp: planned_state_def rbind_eq_Inr_iff split: if_splits)
  have find: "wi_id i = k \<and> i \<in> set items" if "map_of (st_work_items s) k = Some i" for k i
    using map_of_dict_of [OF that [unfolded items]] by auto
  have "dict_ok (st_work_items s)" unfolding items by (rule dict_of_ok)
  then show "keyed s" using find by (simp add: keyed_def results)
  have "map_of (st_work_items s) completion_id = None"
    using find no by (cases "map_of (st_work_items s) completion_id") (force dest: find)+
  then show "completion_id \<notin> set (dkeys (st_work_items s))" by (simp only: map_of_None_iff not_False_eq_True)
  show "results_of_items s" and "ob_explicit_task (st_objective s) = None"
    using results obj by (simp_all add: results_of_items_def)
qed

lemma plan_unlocked_Inr:
  assumes "plan_unlocked (p\<lparr>ap_plan := plan pp rc\<rparr>) project prompt rid w = (Inr s, w')"
  shows "well_planned (ap_config p) s"
  using assms unfolding plan_unlocked_def make_objective_def
  by (elim io_bind_Inr_E) (clarsimp, erule planned_state_ok(1) [OF _ plan_returns_valid], assumption, simp)

text \<open>
  C16. The runs that planning returns, and stores, are well-formed whatever the model answered:
  every item is keyed by its own identifier and routed by the current configuration, its
  dependencies are items of the run, the dependency relation is well-founded, no item uses the
  identifier of the completion review, and nothing is recorded as done or approved.
\<close>

theorem planned_runs_are_well_formed:
  assumes "plan_objective (p\<lparr>ap_plan := plan pp rc\<rparr>) project prompt given w = (Inr s, w')"
  shows "well_planned (ap_config p) s"
proof -
  obtain rid v v' where "plan_unlocked (p\<lparr>ap_plan := plan pp rc\<rparr>) project prompt rid v = (Inr s, v')"
    using assms unfolding plan_objective_def with_lease_def by (auto simp: io_bind_Inr_iff io_finally_Inr_iff)
  then show ?thesis by (rule plan_unlocked_Inr)
qed

lemma planned_runs_are_well_formed_witness:
  "\<exists>s. plan_objective (ex_app\<lparr>ap_config_path := Path ''/'' [''c''], ap_plan := plan ex_planner ex_config\<rparr>)
      ex_root ''fix it'' None () = (Inr s, ()) \<and> well_planned ex_config s"
proof -
  let ?p = "ex_app\<lparr>ap_config_path := Path ''/'' [''c''], ap_plan := plan ex_planner ex_config\<rparr>"
  have "\<exists>rt. route ex_config ex_planned_item None = Inr rt"
    by (rule route_total [OF ex_config_ok]) (simp add: ex_planned_item_def ex_config_def)
  then obtain s where s: "planned_state ex_config ex_objective ex_repository [ex_planned_item] = Inr s"
    by (auto simp: planned_state_def completion_id_def ex_planned_item_def)
  have obj: "\<lparr>ob_id = ''r1'', ob_prompt = ''fix it'', ob_project_path = rc_project_path ex_repository,
      ob_explicit_task = None, ob_config_path = Path ''/'' [''c''], ob_created_at = ex_time\<rparr> = ex_objective"
    by (simp add: ex_objective_def ex_repository_def)
  have models: "validate_models ex_config [''m1'', ''m2''] = Inr ()"
    by code_simp
  have "plan_objective ?p ex_root ''fix it'' None () = (Inr s, ())"
    by (simp add: plan_objective_def select_run_id_def with_lease_def plan_unlocked_def ex_app_def
        validate_model_inventory_def make_objective_def app_event_def io_bind_def io_finally_def models obj ex_plan s)
  with planned_runs_are_well_formed [OF this, unfolded ex_app_def] show ?thesis by (simp add: ex_app_def)
qed

text \<open>
  C4. Whatever planner, store and client do, an objective run over the modelled scheduler that
  returns completed, and has any work, has passed its independent completion review: the review
  item succeeded, and so did every other item.
\<close>

theorem completed_means_reviewed:
  assumes "run_objective (p\<lparr>ap_run_ready := scheduler_port sp\<rparr>) project prompt given w = (Inr s, w')"
    and "st_status s = RunCompleted" and "st_work_items s \<noteq> []"
  shows "\<forall>k \<in> insert completion_id (set (dkeys (st_work_items s))).
    \<exists>r. map_of (st_results s) k = Some r \<and> wr_status r = Succeeded"
proof -
  let ?p = "p\<lparr>ap_run_ready := scheduler_port sp\<rparr>"
  obtain rid s0 v0 v1 v2 where plan: "plan_unlocked ?p project prompt rid v0 = (Inr s0, v1)"
    and run: "continue_run ?p s0 v1 = (Inr s, v2)"
    using assms(1) unfolding run_objective_def with_lease_def by (auto simp: io_bind_Inr_iff io_finally_Inr_iff)
  note s0 = created_state [OF plan]
  have "st_work_items s0 \<noteq> []" using app.continue_empty [OF s0(1,2) _ run] assms(3) by blast
  then obtain k0 where k0: "k0 \<in> set (dkeys (st_work_items s0))" by (cases "st_work_items s0") auto
  then have "k0 \<noteq> completion_id" using s0(4) by blast
  then show ?thesis by (rule app.completed_reviewed [OF s0(1-3) k0 _ run assms(2)])
qed

definition ex_flow :: "unit app_ports" where
  "ex_flow = ex_app\<lparr>ap_plan := (\<lambda>_ _ _. io_return [ex_item ''a'' [] AccessReadOnly {||}]),
     ap_run_ready := scheduler_port ex_sched\<rparr>"

lemma ex_flow_completes:
  "case run_objective ex_flow ex_root ''x'' None () of
     (Inr s, _) \<Rightarrow> st_status s = RunCompleted \<and> st_work_items s \<noteq> [] | _ \<Rightarrow> False"
  by code_simp

lemma completed_means_reviewed_witness:
  "\<exists>s. run_objective ex_flow ex_root ''x'' None () = (Inr s, ())
     \<and> (\<exists>r. map_of (st_results s) completion_id = Some r \<and> wr_status r = Succeeded)"
proof -
  obtain s where s: "run_objective ex_flow ex_root ''x'' None () = (Inr s, ())"
    and ok: "st_status s = RunCompleted" "st_work_items s \<noteq> []"
    using ex_flow_completes by (auto split: prod.splits sum.splits)
  from completed_means_reviewed [OF s [unfolded ex_flow_def] ok] s show ?thesis by blast
qed

end
