(* ===== verification/Descriptors.thy ===== *)
theory Descriptors
  imports Errors Py_Path
begin

text \<open>
  The system calls that \<open>src/goalrouter/locking.py\<close> makes on file descriptors. The process has
  a table of open descriptors and of the \<open>flock\<close> locks they hold; everything else is decided by
  a \<open>kernel\<close>, which sees the calls made so far: it may fail any call, chooses the file that an
  open finds, and knows which files other processes have locked. \<open>close\<close> gives up its
  descriptor, and with it the lock, even when it reports an error, as on Linux.
\<close>

datatype errno = EACCES | EAGAIN | EEXIST | EBADF | OtherErrno int

record os_error =
  oe_errno :: errno
  oe_text :: string

datatype location = AtPath path | AtDescriptor nat string

datatype open_flag =
  O_RDONLY | O_RDWR | O_CREAT | O_DIRECTORY | O_CLOEXEC | O_NOFOLLOW | O_NONBLOCK

datatype lock_operation = LockExclusiveNonblocking | LockRelease

datatype os_call =
    Resolve path
  | MakeDirs path int
  | Mkdir location int
  | OpenAt location "open_flag list" int
  | Fstat nat
  | Fchmod nat int
  | Flock nat lock_operation
  | Close nat

text \<open>
  \<open>kn_wakes\<close> is what an owner observes while it waits for a task that it started now
  (\<open>wait_for_owned_task\<close>).
\<close>

datatype wake = CancelRequest nat string | TaskFailed

record kernel =
  kn_fails :: "os_call list \<Rightarrow> os_call \<Rightarrow> os_error option"
  kn_resolve :: "os_call list \<Rightarrow> path \<Rightarrow> path"
  kn_finds :: "os_call list \<Rightarrow> location \<Rightarrow> nat"
  kn_regular :: "os_call list \<Rightarrow> nat \<Rightarrow> bool"
  kn_locked :: "os_call list \<Rightarrow> nat \<Rightarrow> bool"
  kn_wakes :: "os_call list \<Rightarrow> nat \<times> wake list"

text \<open>A descriptor with the file it is open on, a locked file with the descriptor that holds the lock.\<close>

record os =
  os_log :: "os_call list"
  os_fds :: "(nat \<times> nat) list"
  os_locks :: "(nat \<times> nat) list"

datatype lock_exn = LockOs os_error | LockExn exn

definition lock_text :: "lock_exn \<Rightarrow> string" where
  "lock_text e = (case e of LockOs x \<Rightarrow> oe_text x | LockExn x \<Rightarrow> exn_str x)"

type_synonym 'a locking = "(lock_exn, os, 'a) io"

section \<open>Calls\<close>

definition sys :: "kernel \<Rightarrow> os_call \<Rightarrow> unit locking" where
  "sys k c = (\<lambda>w.
     (case kn_fails k (os_log w) c of Some e \<Rightarrow> Inl (LockOs e) | None \<Rightarrow> Inr (),
      w\<lparr>os_log := os_log w @ [c]\<rparr>))"

definition free_fd :: "(nat \<times> nat) list \<Rightarrow> nat" where
  "free_fd fds = hd (filter (\<lambda>n. n \<notin> fst ` set fds) [0 ..< Suc (length fds)])"

definition os_resolve :: "kernel \<Rightarrow> path \<Rightarrow> path locking" where
  "os_resolve k p = io_bind (sys k (Resolve p)) (\<lambda>_. \<lambda>w. (Inr (kn_resolve k (os_log w) p), w))"

definition os_open :: "kernel \<Rightarrow> location \<Rightarrow> open_flag list \<Rightarrow> int \<Rightarrow> nat locking" where
  "os_open k loc flags mode =
     io_bind (sys k (OpenAt loc flags mode)) (\<lambda>_. \<lambda>w.
       (Inr (free_fd (os_fds w)),
        w\<lparr>os_fds := (free_fd (os_fds w), kn_finds k (os_log w) loc) # os_fds w\<rparr>))"

text \<open>A call on a descriptor that is not open fails with \<open>EBADF\<close>.\<close>

definition on_fd :: "nat \<Rightarrow> (nat \<Rightarrow> 'a locking) \<Rightarrow> 'a locking" where
  "on_fd fd m = (\<lambda>w. case map_of (os_fds w) fd of
     None \<Rightarrow> (Inl (LockOs \<lparr>oe_errno = EBADF, oe_text = ''[Errno 9] Bad file descriptor''\<rparr>), w)
   | Some file \<Rightarrow> m file w)"

definition os_is_regular :: "kernel \<Rightarrow> nat \<Rightarrow> bool locking" where
  "os_is_regular k fd = on_fd fd (\<lambda>file.
     io_bind (sys k (Fstat fd)) (\<lambda>_. \<lambda>w. (Inr (kn_regular k (os_log w) file), w)))"

definition os_fchmod :: "kernel \<Rightarrow> nat \<Rightarrow> int \<Rightarrow> unit locking" where
  "os_fchmod k fd mode = on_fd fd (\<lambda>_. sys k (Fchmod fd mode))"

text \<open>A nonblocking lock is refused while another process or another descriptor holds it.\<close>

definition os_flock :: "kernel \<Rightarrow> nat \<Rightarrow> lock_operation \<Rightarrow> unit locking" where
  "os_flock k fd oper = on_fd fd (\<lambda>file. io_bind (sys k (Flock fd oper)) (\<lambda>_. \<lambda>w.
     case oper of
       LockRelease \<Rightarrow> (Inr (), w\<lparr>os_locks := filter (\<lambda>(_, d). d \<noteq> fd) (os_locks w)\<rparr>)
     | LockExclusiveNonblocking \<Rightarrow>
         if kn_locked k (os_log w) file \<or> list_ex (\<lambda>(f, d). f = file \<and> d \<noteq> fd) (os_locks w)
         then (Inl (LockOs \<lparr>oe_errno = EAGAIN, oe_text = ''[Errno 11] Resource temporarily unavailable''\<rparr>), w)
         else (Inr (), w\<lparr>os_locks := (file, fd) # filter (\<lambda>(_, d). d \<noteq> fd) (os_locks w)\<rparr>)))"

definition os_close :: "kernel \<Rightarrow> nat \<Rightarrow> unit locking" where
  "os_close k fd = on_fd fd (\<lambda>_. \<lambda>w. case sys k (Close fd) w of (r, v) \<Rightarrow>
     (r, v\<lparr>os_fds := filter (\<lambda>(d, _). d \<noteq> fd) (os_fds v),
           os_locks := filter (\<lambda>(_, d). d \<noteq> fd) (os_locks v)\<rparr>))"

section \<open>The tables\<close>

definition tables :: "os \<Rightarrow> (nat \<times> nat) list \<times> (nat \<times> nat) list" where
  "tables w = (os_fds w, os_locks w)"

text \<open>Descriptors are distinct and every lock belongs to an open one.\<close>

definition os_ok :: "os \<Rightarrow> bool" where
  "os_ok w \<longleftrightarrow> distinct (map fst (os_fds w)) \<and> snd ` set (os_locks w) \<subseteq> fst ` set (os_fds w)"

lemma free_fd_fresh: "free_fd fds \<notin> fst ` set fds"
proof -
  have "\<not> set [0 ..< Suc (length fds)] \<subseteq> fst ` set fds"
  proof
    assume "set [0 ..< Suc (length fds)] \<subseteq> fst ` set fds"
    then have "card (set [0 ..< Suc (length fds)]) \<le> card (fst ` set fds)" by (intro card_mono) auto
    also have "\<dots> \<le> length fds" using card_image_le [of "set fds" fst] card_length [of fds] by simp
    finally show False by simp
  qed
  then have "filter (\<lambda>n. n \<notin> fst ` set fds) [0 ..< Suc (length fds)] \<noteq> []"
    unfolding filter_empty_conv by blast
  from hd_in_set [OF this] show ?thesis unfolding free_fd_def set_filter by blast
qed

named_theorems os_simps

lemma sys_tables [os_simps]: "tables (snd (sys k c w)) = tables w"
  by (simp add: sys_def tables_def)

lemma sys_apply: "sys k c w = (r, v) \<Longrightarrow> tables v = tables w \<and> (\<forall>e. r = Inl e \<longrightarrow> (\<exists>x. e = LockOs x))"
  by (auto simp: sys_def tables_def split: option.splits)

lemma os_resolve_cases:
  assumes "os_resolve k p w = (r, v)"
  shows "tables v = tables w"
  using assms by (auto simp: os_resolve_def io_bind_def dest: sys_apply split: prod.splits sum.splits)

lemma os_open_cases:
  assumes "os_open k loc flags mode w = (r, v)"
  shows "case r of
      Inl e \<Rightarrow> tables v = tables w \<and> (\<exists>x. e = LockOs x)
    | Inr fd \<Rightarrow> fd \<notin> fst ` set (os_fds w) \<and> (\<exists>file. tables v = ((fd, file) # os_fds w, os_locks w))"
proof -
  obtain r1 v1 where s: "sys k (OpenAt loc flags mode) w = (r1, v1)" by fastforce
  from sys_apply [OF this] have "tables v1 = tables w" "\<forall>e. r1 = Inl e \<longrightarrow> (\<exists>x. e = LockOs x)" by auto
  then show ?thesis using assms free_fd_fresh [of "os_fds w"]
    by (cases r1) (auto simp: os_open_def io_bind_def s tables_def)
qed

lemma os_fchmod_cases:
  "os_fchmod k fd mode w = (r, v) \<Longrightarrow> tables v = tables w \<and> (\<forall>e. r = Inl e \<longrightarrow> (\<exists>x. e = LockOs x))"
  by (auto simp: os_fchmod_def on_fd_def dest: sys_apply split: option.splits)

lemma os_is_regular_cases:
  "os_is_regular k fd w = (r, v) \<Longrightarrow> tables v = tables w \<and> (\<forall>e. r = Inl e \<longrightarrow> (\<exists>x. e = LockOs x))"
  by (auto simp: os_is_regular_def on_fd_def io_bind_def dest: sys_apply split: option.splits prod.splits sum.splits)

text \<open>Closing removes the descriptor and its lock, whether or not it reports an error.\<close>

definition drop_fd :: "nat \<Rightarrow> (nat \<times> nat) list \<times> (nat \<times> nat) list \<Rightarrow> (nat \<times> nat) list \<times> (nat \<times> nat) list" where
  "drop_fd fd ts = (filter (\<lambda>(d, _). d \<noteq> fd) (fst ts), filter (\<lambda>(_, d). d \<noteq> fd) (snd ts))"

lemma os_close_cases:
  assumes "os_close k fd w = (r, v)" and "fd \<in> fst ` set (os_fds w)"
  shows "tables v = drop_fd fd (tables w) \<and> (\<forall>e. r = Inl e \<longrightarrow> (\<exists>x. e = LockOs x))"
proof -
  obtain ino where f: "map_of (os_fds w) fd = Some ino"
    using assms(2) by (metis map_of_eq_None_iff not_None_eq)
  obtain r1 v1 where s: "sys k (Close fd) w = (r1, v1)" by fastforce
  from sys_apply [OF this] show ?thesis using assms(1) f
    by (auto simp: os_close_def on_fd_def s tables_def drop_fd_def)
qed

lemma drop_fd_absent:
  assumes "fd \<notin> fst ` set fds" and "fd \<notin> snd ` set locks"
  shows "drop_fd fd (fds, locks) = (fds, locks)"
    and "drop_fd fd ((fd, file) # fds, locks) = (fds, locks)"
    and "drop_fd fd ((fd, file) # fds, (file', fd) # locks) = (fds, locks)"
  using assms by (force simp: drop_fd_def intro!: filter_True)+

end
