(* ===== verification/Leases.thy ===== *)
theory Leases
  imports Descriptors
begin

text \<open>
  \<open>src/goalrouter/locking.py\<close> with \<open>src/goalrouter/async_tools.py\<close>: exclusive \<open>flock\<close> leases
  on a project directory and on the lock file of a run. The steps of one acquisition or release
  run on a worker thread, one after the other; the owner of the task may be cancelled while it
  waits, as \<open>kn_wakes\<close> says. Notes that the code attaches to exceptions are not modelled.
\<close>

section \<open>Waiting for an owned task\<close>

text \<open>
  \<open>wait_for_owned_task\<close>: every round of the loop ends when the task does (the end of the list),
  with a cancellation of the owner, or with an error of the task. \<open>observed\<close> is the number of
  cancellation requests seen so far; a \<open>CancelledError\<close> that comes without a new one is the
  task's own.
\<close>

fun wait_for_owned_task :: "nat \<Rightarrow> wake list \<Rightarrow> string list" where
  "wait_for_owned_task observed [] = []"
| "wait_for_owned_task observed (TaskFailed # _) = []"
| "wait_for_owned_task observed (CancelRequest current message # wakes) =
     (if current = observed then [] else message # wait_for_owned_task current wakes)"

definition prepare_cancellation :: "string list \<Rightarrow> lock_exn" where
  "prepare_cancellation cancellations = LockExn (PyCancelledError (hd cancellations))"

text \<open>\<open>create_task(to_thread(m))\<close> and the wait for it.\<close>

definition owned_task :: "kernel \<Rightarrow> 'a locking \<Rightarrow> os \<Rightarrow> string list \<times> (lock_exn + 'a) \<times> os" where
  "owned_task k m w =
     (case kn_wakes k (os_log w) of (observed, wakes) \<Rightarrow>
        (case m w of (r, v) \<Rightarrow> (wait_for_owned_task observed wakes, r, v)))"

section \<open>Descriptors\<close>

definition directory_flags :: "open_flag list" where
  "directory_flags = [O_RDONLY, O_DIRECTORY, O_CLOEXEC, O_NOFOLLOW]"

definition run_lock_flags :: "open_flag list" where
  "run_lock_flags = [O_RDWR, O_CREAT, O_CLOEXEC, O_NOFOLLOW, O_NONBLOCK]"

definition private_directory_mode :: int where
  "private_directory_mode = 448"

definition private_file_mode :: int where
  "private_file_mode = 384"

text \<open>\<open>try: os.close(fd) except OSError\<close>, then the raise that goes on.\<close>

definition close_and_raise :: "kernel \<Rightarrow> nat \<Rightarrow> lock_exn \<Rightarrow> 'a locking" where
  "close_and_raise k fd e = (\<lambda>w. (Inl e, snd (os_close k fd w)))"

definition acquire_descriptor :: "kernel \<Rightarrow> nat locking \<Rightarrow> exn \<Rightarrow> nat locking" where
  "acquire_descriptor k open_descriptor busy_error =
     io_bind open_descriptor (\<lambda>fd.
       io_except (io_bind (os_flock k fd LockExclusiveNonblocking) (\<lambda>_. io_return fd))
         (\<lambda>e. close_and_raise k fd
           (case e of
              LockOs x \<Rightarrow> if oe_errno x \<in> {EACCES, EAGAIN} then LockExn busy_error else e
            | _ \<Rightarrow> e)))"

definition release_descriptor :: "kernel \<Rightarrow> nat \<Rightarrow> unit locking" where
  "release_descriptor k fd = (\<lambda>w.
     case os_flock k fd LockRelease w of (unlocked, v) \<Rightarrow>
     case os_close k fd v of (closed, u) \<Rightarrow>
       ((case unlocked of Inl e \<Rightarrow> Inl e | Inr _ \<Rightarrow> closed), u))"

definition open_project_directory :: "kernel \<Rightarrow> path \<Rightarrow> nat locking" where
  "open_project_directory k project =
     io_map_error (\<lambda>e. LockExn (RepositoryError
         (''Cannot open project write lease directory '' @ str_path project @ '': '' @ lock_text e)))
       (io_bind (os_resolve k project) (\<lambda>resolved. os_open k (AtPath resolved) directory_flags 511))"

text \<open>\<open>suppress(FileExistsError)\<close>\<close>

definition make_directory :: "kernel \<Rightarrow> nat \<Rightarrow> string \<Rightarrow> unit locking" where
  "make_directory k parent name =
     io_except (sys k (Mkdir (AtDescriptor parent name) private_directory_mode))
       (\<lambda>e. case e of LockOs x \<Rightarrow> if oe_errno x = EEXIST then io_return () else io_raise e | _ \<Rightarrow> io_raise e)"

definition open_private_directory :: "kernel \<Rightarrow> nat \<Rightarrow> string \<Rightarrow> nat locking" where
  "open_private_directory k parent name =
     io_bind (make_directory k parent name) (\<lambda>_.
     io_bind (os_open k (AtDescriptor parent name) directory_flags 511) (\<lambda>fd.
       io_except (io_bind (os_fchmod k fd private_directory_mode) (\<lambda>_. io_return fd))
         (close_and_raise k fd)))"

text \<open>\<open>_close_descriptors\<close> closes in reverse order and returns the first error.\<close>

fun close_in_order :: "kernel \<Rightarrow> nat list \<Rightarrow> os \<Rightarrow> lock_exn option \<times> os" where
  "close_in_order k [] w = (None, w)"
| "close_in_order k (fd # fds) w =
     (case os_close k fd w of (r, v) \<Rightarrow>
      case close_in_order k fds v of (later, u) \<Rightarrow>
        ((case r of Inl e \<Rightarrow> Some e | Inr _ \<Rightarrow> later), u))"

definition close_descriptors :: "kernel \<Rightarrow> nat list \<Rightarrow> os \<Rightarrow> lock_exn option \<times> os" where
  "close_descriptors k fds = close_in_order k (rev fds)"

section \<open>The lock file of a run\<close>

text \<open>The local variables \<open>descriptors\<close> and \<open>lock_descriptor\<close>, beside the world.\<close>

type_synonym run_lock_locals = "nat list \<times> nat option"

definition in_os :: "'a locking \<Rightarrow> (lock_exn, run_lock_locals \<times> os, 'a) io" where
  "in_os m = (\<lambda>(l, w). case m w of (r, v) \<Rightarrow> (r, (l, v)))"

definition append_descriptor :: "nat \<Rightarrow> (lock_exn, run_lock_locals \<times> os, unit) io" where
  "append_descriptor fd = (\<lambda>((dirs, lk), w). (Inr (), ((dirs @ [fd], lk), w)))"

definition set_lock_descriptor :: "nat \<Rightarrow> (lock_exn, run_lock_locals \<times> os, unit) io" where
  "set_lock_descriptor fd = (\<lambda>((dirs, lk), w). (Inr (), ((dirs, Some fd), w)))"

definition run_lock_path :: "path \<Rightarrow> string \<Rightarrow> path" where
  "run_lock_path root rid =
     path_join (path_join (path_join root (Path [] [''.locks''])) (Path [] [''runs''])) (Path [] [rid @ ''.lock''])"

text \<open>The \<open>try\<close> block; it returns the lock descriptor.\<close>

definition open_run_lock_body :: "kernel \<Rightarrow> path \<Rightarrow> string \<Rightarrow> (lock_exn, run_lock_locals \<times> os, nat) io" where
  "open_run_lock_body k root rid =
     io_bind (in_os (sys k (MakeDirs root private_directory_mode))) (\<lambda>_.
     io_bind (in_os (os_open k (AtPath root) directory_flags 511)) (\<lambda>root_fd.
     io_bind (append_descriptor root_fd) (\<lambda>_.
     io_bind (in_os (open_private_directory k root_fd ''.locks'')) (\<lambda>locks_fd.
     io_bind (append_descriptor locks_fd) (\<lambda>_.
     io_bind (in_os (open_private_directory k locks_fd ''runs'')) (\<lambda>runs_fd.
     io_bind (append_descriptor runs_fd) (\<lambda>_.
     io_bind (in_os (os_open k (AtDescriptor runs_fd (rid @ ''.lock'')) run_lock_flags private_file_mode)) (\<lambda>fd.
     io_bind (set_lock_descriptor fd) (\<lambda>_.
     io_bind (in_os (os_is_regular k fd)) (\<lambda>regular.
     io_bind (if regular then io_return ()
              else io_raise (LockExn (StateError
                (''Run lease path is not a regular file: '' @ str_path (run_lock_path root rid))))) (\<lambda>_.
     io_bind (in_os (os_fchmod k fd private_file_mode)) (\<lambda>_. io_return fd))))))))))))"

text \<open>The \<open>except OSError\<close> clause.\<close>

definition run_lock_outcome :: "path \<Rightarrow> lock_exn + nat \<Rightarrow> lock_exn + nat" where
  "run_lock_outcome lock_path r =
     (case r of
        Inl e \<Rightarrow> (case e of
            LockOs x \<Rightarrow> Inl (LockExn (StateError (''Cannot open run lease '' @ str_path lock_path @ '': '' @ oe_text x)))
          | LockExn x \<Rightarrow> Inl (LockExn x))
      | Inr fd \<Rightarrow> Inr fd)"

text \<open>
  The \<open>finally\<close> clause closes the lock descriptor unless it is handed to the caller, then the
  directories, and takes the lock descriptor back when that fails. The result is its error.
\<close>

definition run_lock_cleanup :: "kernel \<Rightarrow> bool \<Rightarrow> nat list \<Rightarrow> nat list \<Rightarrow> os \<Rightarrow> lock_exn option \<times> os" where
  "run_lock_cleanup k transfer lock_fds dirs w1 =
     (case close_descriptors k (if transfer then [] else lock_fds) w1 of (lock_error, w2) \<Rightarrow>
       (case close_descriptors k dirs w2 of (directory_error, w3) \<Rightarrow>
         (case (case lock_error of None \<Rightarrow> directory_error | Some e \<Rightarrow> Some e) of
            None \<Rightarrow> (None, w3)
          | Some e \<Rightarrow> (Some e, if transfer then snd (close_descriptors k lock_fds w3) else w3))))"

definition open_run_lock :: "kernel \<Rightarrow> path \<Rightarrow> string \<Rightarrow> nat locking" where
  "open_run_lock k root rid = (\<lambda>w.
     case open_run_lock_body k root rid (([], None), w) of (r, ((dirs, lk), w1)) \<Rightarrow>
       (case run_lock_cleanup k (\<not> isl r) (case lk of None \<Rightarrow> [] | Some fd \<Rightarrow> [fd]) dirs w1 of (cleanup, w2) \<Rightarrow>
         (case run_lock_outcome (run_lock_path root rid) r of
            Inl e \<Rightarrow> (Inl e, w2)
          | Inr fd \<Rightarrow>
              (case cleanup of
                 None \<Rightarrow> (Inr fd, w2)
               | Some _ \<Rightarrow> (Inl (LockExn (StateError
                   (''Run lease descriptor cleanup failed for '' @ str_path (run_lock_path root rid)))), w2)))))"

section \<open>Leases\<close>

definition release_cancellation_safe :: "kernel \<Rightarrow> nat \<Rightarrow> unit locking" where
  "release_cancellation_safe k fd = (\<lambda>w.
     case owned_task k (release_descriptor k fd) w of (cancellations, r, v) \<Rightarrow>
       (if cancellations \<noteq> [] then Inl (prepare_cancellation cancellations) else r, v))"

definition acquire_cancellation_safe ::
  "kernel \<Rightarrow> nat locking \<Rightarrow> exn \<Rightarrow> (os_error \<Rightarrow> exn) \<Rightarrow> nat locking" where
  "acquire_cancellation_safe k open_descriptor busy_error failure_error = (\<lambda>w.
     case owned_task k (acquire_descriptor k open_descriptor busy_error) w of (cancellations, r, v) \<Rightarrow>
       (case r of
          Inl e \<Rightarrow>
            (if cancellations \<noteq> [] then Inl (prepare_cancellation cancellations)
             else (case e of LockOs x \<Rightarrow> Inl (LockExn (failure_error x)) | _ \<Rightarrow> Inl e), v)
        | Inr fd \<Rightarrow>
            if cancellations \<noteq> []
            then (Inl (prepare_cancellation cancellations), snd (release_cancellation_safe k fd v))
            else (Inr fd, v)))"

definition exclusive_lease ::
  "kernel \<Rightarrow> nat locking \<Rightarrow> exn \<Rightarrow> (os_error \<Rightarrow> exn) \<Rightarrow> 'a locking \<Rightarrow> 'a locking" where
  "exclusive_lease k open_descriptor busy_error failure_error body =
     io_bind (acquire_cancellation_safe k open_descriptor busy_error failure_error) (\<lambda>fd.
       io_finally body (release_cancellation_safe k fd))"

text \<open>\<open>ProjectDirectoryWriteLease.acquire\<close> and \<open>FileRunLease.acquire\<close>, around a body.\<close>

definition project_busy :: "path \<Rightarrow> exn" where
  "project_busy project = ProjectBusyError (''Project is busy: '' @ str_path project)"

definition project_failure :: "path \<Rightarrow> os_error \<Rightarrow> exn" where
  "project_failure project e = RepositoryError
     (''Cannot acquire project write lease for '' @ str_path project @ '': '' @ oe_text e)"

definition project_lease :: "kernel \<Rightarrow> path \<Rightarrow> 'a locking \<Rightarrow> 'a locking" where
  "project_lease k project =
     exclusive_lease k (open_project_directory k project) (project_busy project) (project_failure project)"

definition run_busy :: "string \<Rightarrow> exn" where
  "run_busy rid = RunBusyError (''Run is busy: '' @ rid)"

definition run_failure :: "string \<Rightarrow> os_error \<Rightarrow> exn" where
  "run_failure rid e = StateError (''Cannot acquire run lease for '' @ rid @ '': '' @ oe_text e)"

definition run_lease :: "kernel \<Rightarrow> path \<Rightarrow> string \<Rightarrow> 'a locking \<Rightarrow> 'a locking" where
  "run_lease k root rid body =
     (case validate_run_id rid of
        Inl e \<Rightarrow> io_raise (LockExn e)
      | Inr valid \<Rightarrow> exclusive_lease k (open_run_lock k root valid) (run_busy valid) (run_failure valid) body)"

end
