(* ===== verification/Lease_Properties.thy ===== *)
theory Lease_Properties
  imports Leases
begin

text \<open>
  The properties of the leases: nothing stays open or locked whatever fails or is cancelled, and
  the body of a lease runs under the exclusive lock. \<open>opener\<close> is what a lease relies on from the
  function that opens its descriptor, interpreted on both of them.
\<close>

section \<open>Opening a descriptor\<close>

text \<open>What an opener does to the tables: it adds the descriptor it returns, or nothing.\<close>

definition opens :: "nat locking \<Rightarrow> bool" where
  "opens m \<longleftrightarrow> (\<forall>w r v. os_ok w \<longrightarrow> m w = (r, v) \<longrightarrow>
     (case r of
        Inl _ \<Rightarrow> tables v = tables w
      | Inr fd \<Rightarrow> fd \<notin> fst ` set (os_fds w) \<and> (\<exists>file. tables v = ((fd, file) # os_fds w, os_locks w))))"

lemma opensD:
  assumes "opens m" and "os_ok w" and "m w = (r, v)"
  shows "(\<exists>e. r = Inl e \<and> tables v = tables w)
    \<or> (\<exists>fd x. r = Inr fd \<and> fd \<notin> fst ` set (os_fds w) \<and> tables v = ((fd, x) # os_fds w, os_locks w))"
  using assms unfolding opens_def by (cases r) force+

lemma tables_ok: "tables v = tables w \<Longrightarrow> os_ok w \<Longrightarrow> os_ok v"
  by (simp add: tables_def os_ok_def)

lemma os_ok_unlocked: "os_ok w \<Longrightarrow> fd \<notin> fst ` set (os_fds w) \<Longrightarrow> fd \<notin> snd ` set (os_locks w)"
  by (auto simp: os_ok_def)

lemma os_ok_opened:
  "os_ok w \<Longrightarrow> fd \<notin> fst ` set (os_fds w) \<Longrightarrow> tables v = ((fd, x) # os_fds w, os_locks w) \<Longrightarrow> os_ok v"
  by (auto simp: os_ok_def tables_def)

lemma opens_open: "opens (os_open k loc flags mode)"
  unfolding opens_def by (intro allI impI, drule os_open_cases) (simp split: sum.splits)

text \<open>Closing the descriptor opened last restores the tables.\<close>

lemma close_opened:
  assumes "os_ok w" and "fd \<notin> fst ` set (os_fds w)"
    and "tables v = ((fd, x) # os_fds w, os_locks w) \<or> tables v = ((fd, x) # os_fds w, (y, fd) # os_locks w)"
    and "os_close k fd v = (r, u)"
  shows "tables u = tables w" and "\<forall>e. r = Inl e \<longrightarrow> (\<exists>z. e = LockOs z)"
proof -
  have "fd \<in> fst ` set (os_fds v)" using assms(3) by (auto simp: tables_def)
  from os_close_cases [OF assms(4) this]
  show "tables u = tables w" and "\<forall>e. r = Inl e \<longrightarrow> (\<exists>z. e = LockOs z)"
    using assms(3) drop_fd_absent [OF assms(2) os_ok_unlocked [OF assms(1,2)]] by (auto simp: tables_def)
qed

lemma make_directory_tables: "make_directory k parent name w = (r, v) \<Longrightarrow> tables v = tables w"
  by (auto simp: make_directory_def io_except_def dest: sys_apply
      split: prod.splits sum.splits lock_exn.splits if_splits)

lemma opens_private_directory: "opens (open_private_directory k parent name)"
  unfolding opens_def
proof (intro allI impI)
  fix w r v assume ok: "os_ok w" and run: "open_private_directory k parent name w = (r, v)"
  obtain r1 v1 where mk: "make_directory k parent name w = (r1, v1)" by fastforce
  have t1: "tables v1 = tables w" using mk by (rule make_directory_tables)
  then have ok1: "os_ok v1" using ok by (rule tables_ok)
  obtain r2 v2 where op: "os_open k (AtDescriptor parent name) directory_flags 511 v1 = (r2, v2)" by fastforce
  show "case r of Inl _ \<Rightarrow> tables v = tables w
     | Inr fd \<Rightarrow> fd \<notin> fst ` set (os_fds w) \<and> (\<exists>file. tables v = ((fd, file) # os_fds w, os_locks w))"
  proof (cases r1)
    case (Inl e)
    then show ?thesis using run t1 by (auto simp: open_private_directory_def io_bind_def mk)
  next
    case Inr1: (Inr _)
    from opensD [OF opens_open ok1 op] show ?thesis
    proof (elim disjE exE conjE)
      fix e assume "r2 = Inl e" and "tables v2 = tables v1"
      then show ?thesis using run t1 Inr1 by (auto simp: open_private_directory_def io_bind_def mk op)
    next
      fix fd x assume fd: "r2 = Inr fd" "fd \<notin> fst ` set (os_fds v1)" "tables v2 = ((fd, x) # os_fds v1, os_locks v1)"
      obtain r3 v3 where ch: "os_fchmod k fd private_directory_mode v2 = (r3, v3)" by fastforce
      have t3: "tables v3 = ((fd, x) # os_fds v1, os_locks v1)" using os_fchmod_cases [OF ch] fd(3) by simp
      obtain r4 v4 where cl: "os_close k fd v3 = (r4, v4)" by fastforce
      have "tables v4 = tables w" using close_opened(1) [OF ok1 fd(2) disjI1 [OF t3] cl] t1 by simp
      then show ?thesis using run t1 t3 fd(1,2) Inr1
        by (cases r3) (auto simp: open_private_directory_def io_bind_def io_except_def close_and_raise_def
            mk op ch cl tables_def)
    qed
  qed
qed

lemma opens_project_directory: "opens (open_project_directory k project)"
  unfolding opens_def
proof (intro allI impI)
  fix w r v assume ok: "os_ok w" and run: "open_project_directory k project w = (r, v)"
  obtain r1 v1 where re: "os_resolve k project w = (r1, v1)" by fastforce
  have t1: "tables v1 = tables w" using re by (rule os_resolve_cases)
  then have ok1: "os_ok v1" using ok by (rule tables_ok)
  show "case r of Inl _ \<Rightarrow> tables v = tables w
     | Inr fd \<Rightarrow> fd \<notin> fst ` set (os_fds w) \<and> (\<exists>file. tables v = ((fd, file) # os_fds w, os_locks w))"
  proof (cases r1)
    case (Inl e)
    then show ?thesis using run t1 by (auto simp: open_project_directory_def io_bind_def io_map_error_def re)
  next
    case (Inr p)
    obtain r2 v2 where op: "os_open k (AtPath p) directory_flags 511 v1 = (r2, v2)" by fastforce
    from opensD [OF opens_open ok1 op] show ?thesis using run t1 Inr
      by (auto simp: open_project_directory_def io_bind_def io_map_error_def re op tables_def)
  qed
qed

section \<open>The lock file\<close>

text \<open>
  The invariant of the \<open>try\<close> block, over its local variables: the tables are those of the start
  with exactly the descriptors that the local variables name.
\<close>

definition names :: "run_lock_locals \<Rightarrow> nat list" where
  "names l = (case snd l of None \<Rightarrow> [] | Some fd \<Rightarrow> [fd]) @ rev (fst l)"

definition opened_by :: "os \<Rightarrow> run_lock_locals \<times> os \<Rightarrow> bool" where
  "opened_by w0 lw \<longleftrightarrow> (\<exists>entries. tables (snd lw) = (entries @ os_fds w0, os_locks w0)
     \<and> map fst entries = names (fst lw) \<and> os_ok (snd lw))"

abbreviation keeps_opened :: "os \<Rightarrow> (lock_exn, run_lock_locals \<times> os, 'a) io \<Rightarrow> bool" where
  "keeps_opened w0 m \<equiv> io_spec (opened_by w0) m (\<lambda>_. opened_by w0) (opened_by w0)"

lemma keeps_in_os:
  assumes "\<And>w r v. m w = (r, v) \<Longrightarrow> tables v = tables w"
  shows "keeps_opened w0 (in_os m)"
proof -
  have "opened_by w0 (l, v)" if "opened_by w0 (l, w)" "m w = (r, v)" for l w r v
    using that assms [OF that(2)] tables_ok [of v w] by (auto simp: opened_by_def)
  then show ?thesis by (auto simp: io_spec_def in_os_def split: prod.splits)
qed

text \<open>An open followed by the bookkeeping of its descriptor.\<close>

lemma keeps_opening:
  assumes "opens m" and "\<And>fd l w. record_fd fd (l, w) = (Inr (), (add fd l, w))"
    and "\<And>fd l. snd l = None \<Longrightarrow> names (add fd l) = fd # names l"
    and "\<And>fd l. snd l = None \<Longrightarrow> snd (add fd l) = lk fd"
    and "\<And>fd. io_spec (\<lambda>lw. opened_by w0 lw \<and> snd (fst lw) = lk fd) (f fd) Q (opened_by w0)"
  shows "io_spec (\<lambda>lw. opened_by w0 lw \<and> snd (fst lw) = None)
    (io_bind (in_os m) (\<lambda>fd. io_bind (record_fd fd) (\<lambda>_. f fd))) Q (opened_by w0)"
proof -
  have step: "(\<exists>e. r = Inl e \<and> opened_by w0 (l, v)) \<or> (\<exists>fd. r = Inr fd \<and> opened_by w0 (add fd l, v) \<and> snd (add fd l) = lk fd)"
    if start: "opened_by w0 (l, w)" "snd l = None" and run: "m w = (r, v)" for l w r v
  proof -
    obtain entries where e: "tables w = (entries @ os_fds w0, os_locks w0)" "map fst entries = names l" "os_ok w"
      using start by (auto simp: opened_by_def)
    from opensD [OF assms(1) e(3) run] show ?thesis
    proof (elim disjE exE conjE)
      fix x assume "r = Inl x" "tables v = tables w"
      then show ?thesis using e tables_ok [of v w] by (auto simp: opened_by_def)
    next
      fix fd x assume fd: "r = Inr fd" "fd \<notin> fst ` set (os_fds w)" "tables v = ((fd, x) # os_fds w, os_locks w)"
      then have "tables v = (((fd, x) # entries) @ os_fds w0, os_locks w0)" using e(1) by (simp add: tables_def)
      moreover have "os_ok v" using os_ok_opened [OF e(3) fd(2,3)] .
      moreover have "map fst ((fd, x) # entries) = names (add fd l)" using e(2) assms(3) [OF start(2)] by simp
      ultimately have "opened_by w0 (add fd l, v)" unfolding opened_by_def by auto
      then show ?thesis using fd(1) assms(4) [OF start(2)] by blast
    qed
  qed
  show ?thesis
    unfolding io_spec_def
  proof (intro allI impI)
    fix lw lw' assume pre: "opened_by w0 lw \<and> snd (fst lw) = None"
    obtain l w where lw: "lw = (l, w)" by (cases lw)
    obtain r v where m: "m w = (r, v)" by (cases "m w")
    have "opened_by w0 (l, w)" "snd l = None" using pre lw by simp_all
    from step [OF this m]
    show "(\<forall>a. io_bind (in_os m) (\<lambda>fd. io_bind (record_fd fd) (\<lambda>_. f fd)) lw = (Inr a, lw') \<longrightarrow> Q a lw')
      \<and> (\<forall>e. io_bind (in_os m) (\<lambda>fd. io_bind (record_fd fd) (\<lambda>_. f fd)) lw = (Inl e, lw') \<longrightarrow> opened_by w0 lw')"
    proof (elim disjE exE conjE)
      fix e assume "r = Inl e" "opened_by w0 (l, v)"
      then show ?thesis by (auto simp: io_bind_def in_os_def lw m)
    next
      fix fd assume "r = Inr fd" "opened_by w0 (add fd l, v)" "snd (add fd l) = lk fd"
      then have pre': "opened_by w0 (add fd l, v) \<and> snd (fst (add fd l, v)) = lk fd" by simp
      have "io_bind (in_os m) (\<lambda>fd. io_bind (record_fd fd) (\<lambda>_. f fd)) lw = f fd (add fd l, v)"
        using \<open>r = Inr fd\<close> by (simp add: io_bind_def in_os_def lw m assms(2))
      then show ?thesis using io_spec_Inr [OF assms(5) pre'] io_spec_Inl [OF assms(5) pre'] by auto
    qed
  qed
qed

text \<open>A step that opens nothing keeps the local variables too.\<close>

lemma keeps_locals:
  assumes "\<And>w r v. m w = (r, v) \<Longrightarrow> tables v = tables w"
    and "\<And>a. io_spec (\<lambda>lw. opened_by w0 lw \<and> snd (fst lw) = lk) (f a) Q (opened_by w0)"
  shows "io_spec (\<lambda>lw. opened_by w0 lw \<and> snd (fst lw) = lk) (io_bind (in_os m) f) Q (opened_by w0)"
proof (rule io_spec_bind)
  have "opened_by w0 (l, v) \<and> (snd l = lk \<longrightarrow> snd (fst (l, v)) = lk)"
    if "opened_by w0 (l, w)" "m w = (r, v)" for l w r v
    using that assms(1) [OF that(2)] tables_ok [of v w] by (auto simp: opened_by_def)
  then show "io_spec (\<lambda>lw. opened_by w0 lw \<and> snd (fst lw) = lk) (in_os m)
      (\<lambda>_ lw. opened_by w0 lw \<and> snd (fst lw) = lk) (opened_by w0)"
    by (auto simp: io_spec_def in_os_def split: prod.splits)
qed (rule assms(2))

lemma open_run_lock_body_spec:
  "io_spec (\<lambda>lw. opened_by w0 lw \<and> snd (fst lw) = None) (open_run_lock_body k root rid)
     (\<lambda>fd lw. opened_by w0 lw \<and> snd (fst lw) = Some fd) (opened_by w0)"
proof -
  have directory: "io_spec (\<lambda>lw. opened_by w0 lw \<and> snd (fst lw) = None)
    (io_bind (in_os m) (\<lambda>fd. io_bind (append_descriptor fd) (\<lambda>_. f fd))) Q (opened_by w0)"
    if "opens m" "\<And>fd. io_spec (\<lambda>lw. opened_by w0 lw \<and> snd (fst lw) = None) (f fd) Q (opened_by w0)"
    for m and f :: "nat \<Rightarrow> (lock_exn, run_lock_locals \<times> os, nat) io" and Q
    by (rule keeps_opening [where add = "\<lambda>fd l. (fst l @ [fd], snd l)" and lk = "\<lambda>_. None", OF that(1) _ _ _ that(2)])
      (auto simp: append_descriptor_def names_def)
  have lock: "io_spec (\<lambda>lw. opened_by w0 lw \<and> snd (fst lw) = None)
    (io_bind (in_os m) (\<lambda>fd. io_bind (set_lock_descriptor fd) (\<lambda>_. f fd))) Q (opened_by w0)"
    if "opens m" "\<And>fd. io_spec (\<lambda>lw. opened_by w0 lw \<and> snd (fst lw) = Some fd) (f fd) Q (opened_by w0)"
    for m and f :: "nat \<Rightarrow> (lock_exn, run_lock_locals \<times> os, nat) io" and Q
    by (rule keeps_opening [where add = "\<lambda>fd l. (fst l, Some fd)" and lk = Some, OF that(1) _ _ _ that(2)])
      (auto simp: set_lock_descriptor_def names_def)
  have check: "io_spec (\<lambda>lw. opened_by w0 lw \<and> snd (fst lw) = Some fd)
      (if regular then io_return () else io_raise e)
      (\<lambda>_ lw. opened_by w0 lw \<and> snd (fst lw) = Some fd) (opened_by w0)" for fd regular e
    by (auto simp: io_spec_def)
  have sys: "sys k c w = (r, v) \<Longrightarrow> tables v = tables w" for c w r v by (simp add: sys_apply)
  have fstat: "os_is_regular k fd w = (r, v) \<Longrightarrow> tables v = tables w" for fd w r v
    by (simp add: os_is_regular_cases)
  have chmod: "os_fchmod k fd mode w = (r, v) \<Longrightarrow> tables v = tables w" for fd mode w r v
    by (simp add: os_fchmod_cases)
  show ?thesis
    unfolding open_run_lock_body_def
    by (rule keeps_locals [OF sys], assumption, rule directory [OF opens_open], rule directory [OF opens_private_directory],
        rule directory [OF opens_private_directory], rule lock [OF opens_open], rule keeps_locals [OF fstat], assumption,
        rule io_spec_bind [OF check], rule keeps_locals [OF chmod], assumption, rule io_spec_return)
qed

text \<open>Closing several distinct descriptors.\<close>

lemma close_in_order_tables:
  assumes "close_in_order k fds w = (e, v)" and "os_ok w" and "set fds \<subseteq> fst ` set (os_fds w)" and "distinct fds"
  shows "tables v = (filter (\<lambda>x. fst x \<notin> set fds) (os_fds w), filter (\<lambda>x. snd x \<notin> set fds) (os_locks w)) \<and> os_ok v"
  using assms
proof (induction fds arbitrary: w e v)
  case Nil
  then show ?case by (simp add: tables_def)
next
  case (Cons fd fds)
  obtain r u where c: "os_close k fd w = (r, u)" by fastforce
  obtain e' where rest: "close_in_order k fds u = (e', v)"
    using Cons.prems(1) by (auto simp: c split: prod.splits)
  have t: "os_fds u = filter (\<lambda>(d, _). d \<noteq> fd) (os_fds w)" "os_locks u = filter (\<lambda>(_, d). d \<noteq> fd) (os_locks w)"
    using os_close_cases [OF c] Cons.prems(3) by (simp_all add: tables_def drop_fd_def)
  have ok: "os_ok u" using Cons.prems(2) unfolding os_ok_def t
    by (auto simp: distinct_map_filter) force
  have "set fds \<subseteq> fst ` set (os_fds u)" using Cons.prems(3,4) unfolding t by force
  from Cons.IH [OF rest ok this] Cons.prems(4)
  show ?case by (simp add: t case_prod_unfold conj_commute)
qed

lemma close_descriptors_tables:
  assumes "close_descriptors k fds w = (e, v)" and "os_ok w" and "set fds \<subseteq> fst ` set (os_fds w)" and "distinct fds"
  shows "tables v = (filter (\<lambda>x. fst x \<notin> set fds) (os_fds w), filter (\<lambda>x. snd x \<notin> set fds) (os_locks w))" "os_ok v"
  using close_in_order_tables [of k "rev fds" w e v] assms by (simp_all add: close_descriptors_def)

lemma cleanup_cases:
  assumes "close_descriptors k dirs w1 = (x, w3)"
  shows "run_lock_cleanup k True lks dirs w1 =
    (x, if x = None then w3 else snd (close_descriptors k lks w3))"
proof -
  have closed_none: "close_descriptors k [] w1 = (None, w1)" by (simp add: close_descriptors_def)
  show ?thesis unfolding run_lock_cleanup_def if_True
    by (simp add: closed_none, cases x, simp_all add: assms)
qed

text \<open>After the cleanup only the lock descriptor is left, or nothing.\<close>

lemma opens_run_lock: "opens (open_run_lock k root rid)"
  unfolding opens_def
proof (intro allI impI)
  fix w r v assume ok: "os_ok w" and run: "open_run_lock k root rid w = (r, v)"
  obtain rb dirs lk w1 where body: "open_run_lock_body k root rid (([], None), w) = (rb, ((dirs, lk), w1))"
    by (metis surj_pair)
  have start: "opened_by w (([], None), w)" using ok by (simp add: opened_by_def names_def tables_def)
  have after: "opened_by w ((dirs, lk), w1)" and lock: "\<And>fd. rb = Inr fd \<Longrightarrow> lk = Some fd"
    using io_spec_Inr [OF open_run_lock_body_spec, of w "(([], None), w)"]
      io_spec_Inl [OF open_run_lock_body_spec, of w "(([], None), w)"] start body
    by (cases rb; fastforce)+
  define lks where "lks = (case lk of None \<Rightarrow> [] | Some fd \<Rightarrow> [fd])"
  obtain entries where e: "os_fds w1 = entries @ os_fds w" "os_locks w1 = os_locks w"
    and n: "map fst entries = lks @ rev dirs" and ok1: "os_ok w1"
    using after by (auto simp: opened_by_def tables_def names_def lks_def)
  have "distinct ((lks @ rev dirs) @ map fst (os_fds w))"
    using ok1 unfolding os_ok_def e(1) map_append n by blast
  then have d: "distinct (lks @ rev dirs)" and apart: "(set lks \<union> set dirs) \<inter> fst ` set (os_fds w) = {}"
    by auto
  define P where "P S u \<longleftrightarrow> tables u = (filter (\<lambda>x. fst x \<notin> S) entries @ os_fds w, os_locks w) \<and> os_ok u" for S u
  have P1: "P {} w1" using e ok1 by (simp add: P_def tables_def)
  have step: "P (S \<union> set fds) u'" if "P S u" "close_descriptors k fds u = (x, u')"
    "set fds \<subseteq> set lks \<union> set dirs - S" "distinct fds" for S u u' fds x
  proof -
    have u: "os_fds u = filter (\<lambda>x. fst x \<notin> S) entries @ os_fds w" "os_locks u = os_locks w" "os_ok u"
      using that(1) by (simp_all add: P_def tables_def)
    have "fst ` set entries = set lks \<union> set dirs" using arg_cong [OF n, of set] by simp
    then have mem: "fd \<in> fst ` set entries \<and> fd \<notin> S" if "fd \<in> set fds" for fd
      using that \<open>set fds \<subseteq> set lks \<union> set dirs - S\<close> by blast
    have "set fds \<subseteq> fst ` set (os_fds u)"
    proof
      fix fd assume "fd \<in> set fds"
      from mem [OF this] obtain y where "y \<in> set entries" "fst y = fd" "fd \<notin> S" by blast
      then have "y \<in> set (os_fds u)" unfolding u(1) by simp
      then show "fd \<in> fst ` set (os_fds u)" using \<open>fst y = fd\<close> by blast
    qed
    note t = close_descriptors_tables [OF that(2) u(3) this that(4)]
    have "filter (\<lambda>x. fst x \<notin> set fds) (os_fds w) = os_fds w" using that(3) apart by (intro filter_True) auto
    moreover have "filter (\<lambda>x. snd x \<notin> set fds) (os_locks w) = os_locks w"
    proof (intro filter_True ballI)
      fix l assume "l \<in> set (os_locks w)"
      then have "snd l \<in> fst ` set (os_fds w)" using ok unfolding os_ok_def by blast
      then show "snd l \<notin> set fds" using that(3) apart by blast
    qed
    ultimately show ?thesis using t unfolding P_def by (simp add: u conj_commute)
  qed
  have none: "tables u = tables w" if "P (set lks \<union> set dirs) u" for u
  proof -
    have "filter (\<lambda>x. fst x \<notin> set lks \<union> set dirs) entries = []"
      using arg_cong [OF n, of set] by (auto simp: filter_empty_conv)
    then show ?thesis using that by (simp add: P_def tables_def)
  qed
  have only: "fd \<notin> fst ` set (os_fds w) \<and> (\<exists>x. tables u = ((fd, x) # os_fds w, os_locks w))"
    if "P (set dirs) u" "lk = Some fd" for u fd
  proof -
    have "lks = [fd]" using that(2) by (simp add: lks_def)
    then obtain x rest where "entries = (fd, x) # rest" and r: "map fst rest = rev dirs"
      using n by (cases entries) auto
    moreover have "fst ` set rest = set dirs" using r by (metis list.set_map set_rev)
    then have "filter (\<lambda>x. fst x \<notin> set dirs) rest = []" by (auto simp: filter_empty_conv)
    ultimately have "filter (\<lambda>x. fst x \<notin> set dirs) entries = [(fd, x)]" using d \<open>lks = [fd]\<close> by simp
    then show ?thesis using that(1) apart \<open>lks = [fd]\<close> by (auto simp: P_def)
  qed
  show "case r of Inl _ \<Rightarrow> tables v = tables w
     | Inr fd \<Rightarrow> fd \<notin> fst ` set (os_fds w) \<and> (\<exists>file. tables v = ((fd, file) # os_fds w, os_locks w))"
  proof (cases rb)
    case (Inl err)
    obtain x1 w2 where c1: "close_descriptors k lks w1 = (x1, w2)" by fastforce
    obtain x2 w3 where c2: "close_descriptors k dirs w2 = (x2, w3)" by fastforce
    have "P ({} \<union> set lks) w2" by (rule step [OF P1 c1]) (use d in auto)
    then have "P (set lks \<union> set dirs) w3" using step [OF _ c2] d by auto
    then have "tables w3 = tables w" by (rule none)
    moreover have "run_lock_cleanup k False lks dirs w1 = (None, w3) \<or> (\<exists>x. run_lock_cleanup k False lks dirs w1 = (Some x, w3))"
      by (simp add: run_lock_cleanup_def c1 c2 split: option.split)
    then have "v = w3 \<and> isl r" using run unfolding open_run_lock_def body prod.case Inl sum.disc lks_def [symmetric]
      by (auto simp: run_lock_outcome_def split: lock_exn.splits)
    ultimately show ?thesis by (cases r) auto
  next
    case (Inr fd)
    then have lkfd: "lk = Some fd" by (rule lock)
    obtain x2 w3 where c2: "close_descriptors k dirs w1 = (x2, w3)" by fastforce
    have P3: "P (set dirs) w3" using step [OF P1 c2] d by auto
    obtain x4 w4 where c4: "close_descriptors k lks w3 = (x4, w4)" by fastforce
    have "P (set lks \<union> set dirs) w4" using step [OF P3 c4] d by (auto simp: Un_commute)
    then have t4: "tables w4 = tables w" by (rule none)
    show ?thesis
    proof (cases x2)
      case None
      have "run_lock_cleanup k True lks dirs w1 = (None, w3)"
        by (simp add: cleanup_cases [OF c2] None)
      then have "r = Inr fd \<and> v = w3" using run
        unfolding open_run_lock_def body prod.case Inr sum.disc lks_def [symmetric] by (simp add: run_lock_outcome_def)
      then show ?thesis using only [OF P3 lkfd] by simp
    next
      case (Some err)
      have "run_lock_cleanup k True lks dirs w1 = (Some err, w4)"
        by (simp add: cleanup_cases [OF c2] c4 Some)
      then have "isl r \<and> v = w4" using run
        unfolding open_run_lock_def body prod.case Inr sum.disc lks_def [symmetric] by (auto simp: run_lock_outcome_def)
      then show ?thesis using t4 by (cases r) auto
    qed
  qed
qed

section \<open>Leases over an opener\<close>

text \<open>
  \<open>holds k w fd v\<close>: since \<open>w\<close> just the descriptor \<open>fd\<close> was opened, and it has the exclusive lock on
  its file, which neither another descriptor nor another process held.
\<close>

definition holds :: "kernel \<Rightarrow> os \<Rightarrow> nat \<Rightarrow> os \<Rightarrow> bool" where
  "holds k w fd v \<longleftrightarrow> fd \<notin> fst ` set (os_fds w) \<and>
     (\<exists>ino. tables v = ((fd, ino) # os_fds w, (ino, fd) # os_locks w)
        \<and> ino \<notin> fst ` set (os_locks w) \<and> \<not> kn_locked k (os_log v) ino)"

lemma holds_ok: "os_ok w \<Longrightarrow> holds k w fd v \<Longrightarrow> os_ok v"
  by (force simp: holds_def os_ok_def tables_def)

text \<open>The outcomes of locking a descriptor that was just opened.\<close>

lemma flock_opened:
  assumes "os_ok w" and fd: "fd \<notin> fst ` set (os_fds w)" and t: "tables v = ((fd, ino) # os_fds w, os_locks w)"
    and run: "os_flock k fd LockExclusiveNonblocking v = (r, u)"
  shows "(r = Inr () \<and> holds k w fd u) \<or> (\<exists>x. r = Inl (LockOs x)) \<and> tables u = tables v"
proof -
  have v: "os_fds v = (fd, ino) # os_fds w" "os_locks v = os_locks w" using t by (simp_all add: tables_def)
  have unlocked: "fd \<notin> snd ` set (os_locks w)" using os_ok_unlocked [OF assms(1) fd] .
  obtain r1 v1 where s: "sys k (Flock fd LockExclusiveNonblocking) v = (r1, v1)" by fastforce
  from sys_apply [OF s] v have v1: "os_fds v1 = (fd, ino) # os_fds w" "os_locks v1 = os_locks w" "tables v1 = tables v"
    "\<forall>e. r1 = Inl e \<longrightarrow> (\<exists>x. e = LockOs x)"
    by (auto simp: tables_def)
  have keep: "filter (\<lambda>(_, d). d \<noteq> fd) (os_locks w) = os_locks w" using unlocked by (force intro: filter_True)
  let ?refused = "kn_locked k (os_log v1) ino \<or> list_ex (\<lambda>(f, d). f = ino \<and> d \<noteq> fd) (os_locks w)"
  have eq: "os_flock k fd LockExclusiveNonblocking v = (case r1 of Inl e \<Rightarrow> (Inl e, v1) | Inr _ \<Rightarrow>
      if ?refused
      then (Inl (LockOs \<lparr>oe_errno = EAGAIN, oe_text = ''[Errno 11] Resource temporarily unavailable''\<rparr>), v1)
      else (Inr (), v1\<lparr>os_locks := (ino, fd) # os_locks w\<rparr>))"
    by (cases r1) (simp_all add: os_flock_def on_fd_def v io_bind_def s v1 keep)
  show ?thesis
  proof (cases r1)
    case (Inl e)
    then show ?thesis using eq run v1(3,4) by auto
  next
    case (Inr a)
    show ?thesis
    proof (cases ?refused)
      case True
      then show ?thesis using eq run Inr v1(3) by simp
    next
      case False
      then have "ino \<notin> fst ` set (os_locks w)" using unlocked by (force simp: list_ex_iff)
      then have "holds k w fd (v1\<lparr>os_locks := (ino, fd) # os_locks w\<rparr>)"
        using fd v1 False by (simp add: holds_def tables_def)
      then show ?thesis using eq run Inr False by simp
    qed
  qed
qed

lemma release_descriptor_tables:
  assumes "os_ok w" and "holds k w fd v0" and "tables v = tables v0" and "release_descriptor k fd v = (r, u)"
  shows "tables u = tables w"
proof -
  obtain ino where fd: "fd \<notin> fst ` set (os_fds w)" and t: "tables v = ((fd, ino) # os_fds w, (ino, fd) # os_locks w)"
    using assms(2,3) by (auto simp: holds_def)
  have keep: "filter (\<lambda>(_, d). d \<noteq> fd) (os_locks w) = os_locks w"
    using os_ok_unlocked [OF assms(1) fd] by (force intro: filter_True)
  obtain r1 v1 where f: "os_flock k fd LockRelease v = (r1, v1)" by fastforce
  obtain r2 v2 where c: "os_close k fd v1 = (r2, v2)" by fastforce
  obtain r3 v3 where s: "sys k (Flock fd LockRelease) v = (r3, v3)" by fastforce
  have v3: "tables v3 = tables v" using sys_apply [OF s] by blast
  have "tables v1 = tables v \<or> tables v1 = ((fd, ino) # os_fds w, os_locks w)"
    using f t v3 keep by (cases r3) (auto simp: os_flock_def on_fd_def io_bind_def s tables_def)
  then have "tables v2 = tables w" using close_opened(1) [OF assms(1) fd _ c] t by metis
  then show ?thesis using assms(4) by (simp add: release_descriptor_def f c)
qed

lemma release_cancellation_safe_snd:
  "release_cancellation_safe k fd v = (r, u) \<Longrightarrow> \<exists>r'. release_descriptor k fd v = (r', u)"
  by (auto simp: release_cancellation_safe_def owned_task_def split: prod.splits)

text \<open>The contract of a function that opens the descriptor of a lease.\<close>

locale opener =
  fixes k :: kernel and opn :: "nat locking" and known :: "exn \<Rightarrow> bool"
  assumes opens: "opens opn"
    and opens_errors: "opn w = (Inl e, v) \<Longrightarrow> \<exists>x. e = LockExn x \<and> known x"
begin

lemma acquire_descriptor_outcome:
  assumes "os_ok w" and "acquire_descriptor k opn busy w = (r, v)"
  shows "(\<exists>fd. r = Inr fd \<and> holds k w fd v)
    \<or> (\<exists>e. r = Inl e \<and> tables v = tables w \<and> ((\<exists>x. e = LockExn x \<and> known x) \<or> e = LockExn busy \<or> (\<exists>x. e = LockOs x)))"
proof -
  obtain r1 v1 where op: "opn w = (r1, v1)" by fastforce
  from opensD [OF opens assms(1) op] show ?thesis
  proof (elim disjE exE conjE)
    fix e assume "r1 = Inl e" and "tables v1 = tables w"
    then show ?thesis using assms(2) opens_errors [of w e v1] op by (auto simp: acquire_descriptor_def io_bind_def)
  next
    fix fd ino assume fd: "r1 = Inr fd" "fd \<notin> fst ` set (os_fds w)" "tables v1 = ((fd, ino) # os_fds w, os_locks w)"
    obtain r2 v2 where fl: "os_flock k fd LockExclusiveNonblocking v1 = (r2, v2)" by fastforce
    obtain r3 v3 where cl: "os_close k fd v2 = (r3, v3)" by fastforce
    from flock_opened [OF assms(1) fd(2,3) fl] show ?thesis
    proof (elim disjE exE conjE)
      assume "r2 = Inr ()" and "holds k w fd v2"
      then show ?thesis using assms(2)
        by (auto simp: acquire_descriptor_def io_bind_def op fd(1) io_except_def fl)
    next
      fix x assume x: "r2 = Inl (LockOs x)" and t2: "tables v2 = tables v1"
      then have "tables v3 = tables w" using close_opened(1) [OF assms(1) fd(2) _ cl] fd(3) by auto
      then show ?thesis using assms(2) x
        by (auto simp: acquire_descriptor_def io_bind_def op fd(1) io_except_def fl close_and_raise_def cl
            split: if_splits)
    qed
  qed
qed

lemma acquire_outcome:
  assumes "os_ok w" and "acquire_cancellation_safe k opn busy failure w = (r, v)"
  shows "(\<exists>fd. r = Inr fd \<and> holds k w fd v)
    \<or> (\<exists>x. r = Inl (LockExn x) \<and> tables v = tables w
         \<and> (known x \<or> x = busy \<or> (\<exists>y. x = failure y) \<or> (\<exists>m. x = PyCancelledError m)))"
proof -
  obtain observed wakes where wk: "kn_wakes k (os_log w) = (observed, wakes)" by fastforce
  obtain r1 v1 where a: "acquire_descriptor k opn busy w = (r1, v1)" by fastforce
  let ?cs = "wait_for_owned_task observed wakes"
  from acquire_descriptor_outcome [OF assms(1) a] show ?thesis
  proof (elim disjE exE conjE)
    fix fd assume fd: "r1 = Inr fd" "holds k w fd v1"
    obtain r2 v2 where rel: "release_cancellation_safe k fd v1 = (r2, v2)" by fastforce
    then obtain r3 where "release_descriptor k fd v1 = (r3, v2)" by (auto dest: release_cancellation_safe_snd)
    then have "tables v2 = tables w" using release_descriptor_tables [OF assms(1) fd(2)] by blast
    then show ?thesis using assms(2) fd
      by (auto simp: acquire_cancellation_safe_def owned_task_def wk a rel prepare_cancellation_def split: if_splits)
  qed (insert assms(2), auto simp: acquire_cancellation_safe_def owned_task_def wk a prepare_cancellation_def
      split: if_splits)
qed

text \<open>A lease leaves the tables as its body does, and its body runs while it holds the lock.\<close>

lemma lease_tables:
  assumes "os_ok w" and "\<And>v s u. body v = (s, u) \<Longrightarrow> tables u = tables v"
  shows "tables (snd (exclusive_lease k opn busy failure body w)) = tables w"
proof -
  obtain r v where a: "acquire_cancellation_safe k opn busy failure w = (r, v)" by fastforce
  from acquire_outcome [OF assms(1) a] show ?thesis
  proof (elim disjE exE conjE)
    fix fd assume fd: "r = Inr fd" "holds k w fd v"
    obtain s u where b: "body v = (s, u)" by fastforce
    obtain s' u' where rel: "release_cancellation_safe k fd u = (s', u')" by fastforce
    then obtain s'' where "release_descriptor k fd u = (s'', u')" by (auto dest: release_cancellation_safe_snd)
    then have "tables u' = tables w" using release_descriptor_tables [OF assms(1) fd(2) assms(2) [OF b]] by blast
    then show ?thesis
      by (cases s; cases s') (auto simp: exclusive_lease_def io_bind_def a fd(1) io_finally_def b rel)
  next
  qed (simp_all add: exclusive_lease_def io_bind_def a)
qed

lemma lease_held:
  assumes "os_ok w" and "exclusive_lease k opn busy failure body w = (Inr a, v)"
  shows "\<exists>fd u u'. holds k w fd u \<and> body u = (Inr a, u')"
proof -
  obtain fd u where acq: "acquire_cancellation_safe k opn busy failure w = (Inr fd, u)"
    and rest: "io_finally body (release_cancellation_safe k fd) u = (Inr a, v)"
    using assms(2) unfolding exclusive_lease_def by (rule io_bind_Inr_E)
  from acquire_outcome [OF assms(1) acq] have "holds k w fd u" by auto
  then show ?thesis using rest by (auto simp: io_finally_Inr_iff)
qed

end

section \<open>Both leases\<close>

definition is_state_error :: "exn \<Rightarrow> bool" where
  "is_state_error x \<longleftrightarrow> (\<exists>m. x = StateError m)"

definition is_repository_error :: "exn \<Rightarrow> bool" where
  "is_repository_error x \<longleftrightarrow> (\<exists>m. x = RepositoryError m)"

definition raises_known :: "(lock_exn, 'w, 'a) io \<Rightarrow> bool" where
  "raises_known m \<longleftrightarrow> (\<forall>w e v. m w = (Inl e, v) \<longrightarrow>
     (case e of LockOs _ \<Rightarrow> True | LockExn x \<Rightarrow> is_state_error x))"

named_theorems known_rules

lemma raises_bind [known_rules]: "raises_known m \<Longrightarrow> (\<And>a. raises_known (f a)) \<Longrightarrow> raises_known (io_bind m f)"
  unfolding raises_known_def by (auto simp: io_bind_def split: prod.splits sum.splits)

lemma raises_pure [known_rules]:
  "raises_known (io_return a)" "raises_known (io_raise (LockExn (StateError m)))"
  "raises_known (append_descriptor fd)" "raises_known (set_lock_descriptor fd)"
  by (auto simp: raises_known_def is_state_error_def append_descriptor_def set_lock_descriptor_def)

lemma raises_in_os [known_rules]: "raises_known m \<Longrightarrow> raises_known (in_os m)"
  unfolding raises_known_def by (auto simp: in_os_def split: prod.splits)

lemma raises_calls [known_rules]:
  "raises_known (sys k c)" "raises_known (os_open k loc flags mode)" "raises_known (os_fchmod k fd mode)"
  "raises_known (os_is_regular k fd)" "raises_known (os_close k fd)"
proof -
  show s: "raises_known (sys k c)" for c
    by (auto simp: raises_known_def sys_def split: option.splits)
  have on: "raises_known (on_fd fd m)" if "\<And>file. raises_known (m file)" for m :: "nat \<Rightarrow> 'a locking" and fd
    using that by (auto simp: raises_known_def on_fd_def split: option.splits)
  have pure: "raises_known (\<lambda>w. (Inr (f w), g w))" for f :: "os \<Rightarrow> 'a" and g :: "os \<Rightarrow> os"
    by (simp add: raises_known_def)
  show "raises_known (os_open k loc flags mode)" unfolding os_open_def by (intro raises_bind s) (simp add: raises_known_def)
  show "raises_known (os_fchmod k fd mode)" "raises_known (os_is_regular k fd)" "raises_known (os_close k fd)"
    using s by (fastforce simp: raises_known_def on_fd_def os_fchmod_def os_is_regular_def os_close_def io_bind_def
        split: option.splits prod.splits sum.splits)+
qed

lemma raises_private_directory [known_rules]: "raises_known (open_private_directory k parent name)"
proof -
  have handler: "raises_known (io_except m h)" if "raises_known m"
    "\<And>e. (case e of LockOs _ \<Rightarrow> True | LockExn x \<Rightarrow> is_state_error x) \<Longrightarrow> raises_known (h e)"
    for m :: "'a locking" and h
    using that unfolding raises_known_def io_except_def by (auto split: prod.splits sum.splits) blast
  show ?thesis
    unfolding open_private_directory_def make_directory_def
    by (intro known_rules handler)
      (auto simp: raises_known_def close_and_raise_def split: lock_exn.splits if_splits)
qed

lemma open_run_lock_errors: "open_run_lock k root rid w = (Inl e, v) \<Longrightarrow> \<exists>x. e = LockExn x \<and> is_state_error x"
proof -
  assume run: "open_run_lock k root rid w = (Inl e, v)"
  have known: "raises_known (open_run_lock_body k root rid)"
    unfolding open_run_lock_body_def by (intro known_rules) (auto intro: known_rules)
  obtain r l w1 where b: "open_run_lock_body k root rid (([], None), w) = (r, (l, w1))" by (metis surj_pair)
  have raised: "is_state_error x" if "r = Inl (LockExn x)" for x
    using known b that unfolding raises_known_def by (metis lock_exn.simps(6))
  have "\<exists>x. e' = LockExn x \<and> is_state_error x" if "run_lock_outcome p r = Inl e'" for p e'
  proof (cases r)
    case (Inl y)
    then show ?thesis using that raised
      by (cases y) (auto simp: run_lock_outcome_def is_state_error_def)
  next
    case (Inr fd)
    then show ?thesis using that by (simp add: run_lock_outcome_def)
  qed
  then show ?thesis using run
    by (auto simp: open_run_lock_def b is_state_error_def split: prod.splits sum.splits option.splits)
qed

interpretation run_lock: opener k "open_run_lock k root rid" is_state_error
  by unfold_locales (rule opens_run_lock, rule open_run_lock_errors)

interpretation project_directory: opener k "open_project_directory k project" is_repository_error
proof unfold_locales
  show "opens (open_project_directory k project)" by (rule opens_project_directory)
  fix w e v assume "open_project_directory k project w = (Inl e, v)"
  then show "\<exists>x. e = LockExn x \<and> is_repository_error x"
    by (auto simp: open_project_directory_def io_map_error_def is_repository_error_def split: prod.splits sum.splits)
qed

section \<open>Properties\<close>

text \<open>A kernel that refuses nothing.\<close>

definition ex_kernel :: kernel where
  "ex_kernel = \<lparr>kn_fails = (\<lambda>_ _. None), kn_resolve = (\<lambda>_ p. p), kn_finds = (\<lambda>log _. length log),
     kn_regular = (\<lambda>_ _. True), kn_locked = (\<lambda>_ _. False), kn_wakes = (\<lambda>_. (0, []))\<rparr>"

definition ex_os :: os where
  "ex_os = \<lparr>os_log = [], os_fds = [(0, 7)], os_locks = []\<rparr>"

lemma ex_os_ok: "os_ok ex_os"
  by (simp add: os_ok_def ex_os_def)

text \<open>
  No lease leaves a descriptor open or a file locked: whatever system call fails, whatever
  the other processes do, and however often the owner is cancelled while the lease is taken or
  given up, the tables of descriptors and locks are in the end as they were before, provided the
  body leaves them as it finds them.
\<close>

theorem leases_leave_nothing_behind:
  assumes "os_ok w" and "\<And>v r u. body v = (r, u) \<Longrightarrow> tables u = tables v"
  shows "tables (snd (run_lease k root rid body w)) = tables w
    \<and> tables (snd (project_lease k project body w)) = tables w"
proof
  show "tables (snd (run_lease k root rid body w)) = tables w"
    unfolding run_lease_def
    by (cases "validate_run_id rid") (simp_all add: run_lock.lease_tables [OF assms])
  show "tables (snd (project_lease k project body w)) = tables w"
    unfolding project_lease_def by (rule project_directory.lease_tables [OF assms])
qed

lemma leases_leave_nothing_behind_witness:
  "tables (snd (run_lease ex_kernel (Path ''/'' [''s'']) ''r1'' (io_raise (LockExn (StateError ''x''))) ex_os))
     = ([(0, 7)], [])"
proof -
  have "tables (snd (run_lease ex_kernel (Path ''/'' [''s'']) ''r1'' (io_raise (LockExn (StateError ''x''))) ex_os))
      = tables ex_os"
    by (rule conjunct1 [OF leases_leave_nothing_behind [OF ex_os_ok]]) simp
  moreover have "tables ex_os = ([(0, 7)], [])" by (simp add: ex_os_def tables_def)
  ultimately show ?thesis by (rule trans)
qed

text \<open>
  C24. The lease is exclusive while the body runs: a body whose result a lease returns ran in a
  state where one new descriptor was open and had the exclusive lock on its file, which no other
  descriptor of the process and no other process had locked when it was granted.
\<close>

theorem leases_are_exclusive:
  assumes "os_ok w"
    and "run_lease k root rid body w = (Inr a, v) \<or> project_lease k project body w = (Inr a, v)"
  shows "\<exists>fd ino u u'. body u = (Inr a, u') \<and> fd \<notin> fst ` set (os_fds w)
    \<and> os_fds u = (fd, ino) # os_fds w \<and> os_locks u = (ino, fd) # os_locks w
    \<and> ino \<notin> fst ` set (os_locks w) \<and> \<not> kn_locked k (os_log u) ino"
proof -
  have "\<exists>fd u u'. holds k w fd u \<and> body u = (Inr a, u')"
    using assms(2)
  proof
    assume "run_lease k root rid body w = (Inr a, v)"
    then have "exclusive_lease k (open_run_lock k root rid) (run_busy rid) (run_failure rid) body w = (Inr a, v)"
      by (auto simp: run_lease_def validate_run_id_Inr_iff split: sum.splits)
    then show ?thesis by (rule run_lock.lease_held [OF assms(1)])
  next
    assume "project_lease k project body w = (Inr a, v)"
    then show ?thesis unfolding project_lease_def by (rule project_directory.lease_held [OF assms(1)])
  qed
  then show ?thesis unfolding holds_def tables_def by auto
qed

lemma ex_run_lease: "\<exists>v. run_lease ex_kernel (Path ''/'' [''s'']) ''r1'' (io_return (5 :: nat)) ex_os = (Inr 5, v)"
proof -
  have "fst (run_lease ex_kernel (Path ''/'' [''s'']) ''r1'' (io_return (5 :: nat)) ex_os) = Inr 5"
    by code_simp
  then show ?thesis by (metis surj_pair fst_conv)
qed

lemma leases_are_exclusive_witness:
  "\<exists>fd ino u u'. (io_return (5 :: nat) :: nat locking) u = (Inr 5, u') \<and> os_fds u = [(fd, ino), (0, 7)]
     \<and> os_locks u = [(ino, fd)]"
proof -
  obtain v where "run_lease ex_kernel (Path ''/'' [''s'']) ''r1'' (io_return (5 :: nat)) ex_os = (Inr 5, v)"
    using ex_run_lease by blast
  from leases_are_exclusive [OF ex_os_ok disjI1 [OF this]] show ?thesis by (auto simp: ex_os_def)
qed

text \<open>
  Taking a lease raises nothing but the errors the application knows: for a run
  \<open>StateError\<close>, \<open>RunBusyError\<close> or the cancellation of the owner, for a project
  \<open>RepositoryError\<close>, \<open>ProjectBusyError\<close> or the cancellation. No \<open>OSError\<close> comes out.
\<close>

theorem lease_errors_are_known:
  assumes "os_ok w"
  shows "(case acquire_cancellation_safe k (open_run_lock k root rid) (run_busy rid) (run_failure rid) w of
      (Inr _, _) \<Rightarrow> True
    | (Inl e, _) \<Rightarrow> \<exists>m. e \<in> LockExn ` {StateError m, RunBusyError m, PyCancelledError m})
    \<and> (case acquire_cancellation_safe k (open_project_directory k project) (project_busy project)
             (project_failure project) w of
      (Inr _, _) \<Rightarrow> True
    | (Inl e, _) \<Rightarrow> \<exists>m. e \<in> LockExn ` {RepositoryError m, ProjectBusyError m, PyCancelledError m})"
  (is "?run \<and> ?project")
proof
  obtain r v where a: "acquire_cancellation_safe k (open_run_lock k root rid) (run_busy rid) (run_failure rid) w = (r, v)"
    by fastforce
  from run_lock.acquire_outcome [OF assms a] show ?run
    unfolding a prod.case by (auto simp: is_state_error_def run_busy_def run_failure_def)
  obtain r' v' where b: "acquire_cancellation_safe k (open_project_directory k project) (project_busy project)
      (project_failure project) w = (r', v')" by fastforce
  from project_directory.acquire_outcome [OF assms b] show ?project
    unfolding b prod.case by (auto simp: is_repository_error_def project_busy_def project_failure_def)
qed

lemma lease_errors_are_known_witness:
  "case acquire_cancellation_safe (ex_kernel\<lparr>kn_locked := \<lambda>_ _. True\<rparr>)
     (open_project_directory (ex_kernel\<lparr>kn_locked := \<lambda>_ _. True\<rparr>) (Path ''/'' [''p'']))
     (project_busy (Path ''/'' [''p''])) (project_failure (Path ''/'' [''p''])) ex_os of
      (Inr _, _) \<Rightarrow> True
    | (Inl e, _) \<Rightarrow> \<exists>m. e \<in> LockExn ` {RepositoryError m, ProjectBusyError m, PyCancelledError m}"
  by (rule conjunct2 [OF lease_errors_are_known [OF ex_os_ok]])

end
