(* ===== verification/Reporting.thy ===== *)
theory Reporting
  imports Store Json_Roundtrip
begin

text \<open>
  \<open>ReportRenderer\<close> of \<open>src/goalrouter/reporting.py\<close>: the Markdown text of a run. The formats
  \<open>:g\<close> of a float and of a sum of floats, which need binary arithmetic, are the fields of
  \<open>float_format\<close>. Characters are Latin-1, so the branches of \<open>_display_text\<close> for surrogates
  cannot be taken.
\<close>

record float_format =
  ff_general :: "pyfloat \<Rightarrow> string"
  ff_sum :: "pyfloat list \<Rightarrow> string"

section \<open>Text helpers\<close>

definition display_char :: "char \<Rightarrow> string" where
  "display_char c =
     (if c = CHR 92 then [CHR 92, CHR 92]
      else if c = CHR 10 then [CHR 92, CHR ''n'']
      else if c = CHR 13 then [CHR 92, CHR ''r'']
      else if c = CHR 9 then [CHR 92, CHR ''t'']
      else if ord c < 32 \<or> ord c = 127 then CHR 92 # CHR ''x'' # hex2 (ord c)
      else [c])"

definition display_text :: "string \<Rightarrow> string" where
  "display_text s = concat (map display_char s)"

definition display_path :: "path \<Rightarrow> string" where
  "display_path p = display_text (str_path p)"

definition none_text :: string where
  "none_text = ''(none)''"

definition comma_join :: "string list \<Rightarrow> string" where
  "comma_join xs = py_join '', '' xs"

definition report_paths :: "path list \<Rightarrow> string" where
  "report_paths ps = or_else (comma_join (map display_path ps)) none_text"

definition report_pairs :: "(string \<times> int) list \<Rightarrow> string" where
  "report_pairs values = or_else (comma_join (map (\<lambda>(name, count). name @ ''='' @ str_of_int count) values)) none_text"

definition dirty_summary :: "run_state \<Rightarrow> string" where
  "dirty_summary s =
     (if rc_dirty_paths (st_repository s) = [] then ''clean''
      else comma_join (map display_path (rc_dirty_paths (st_repository s))))"

definition safe_json :: "json list \<Rightarrow> string" where
  "safe_json items = dumps Compact (redact_json (JList items))"

section \<open>The report\<close>

definition optional_text :: "string option \<Rightarrow> string" where
  "optional_text x = (case x of None \<Rightarrow> none_text | Some t \<Rightarrow> or_else t none_text)"

definition heading_lines :: "run_state \<Rightarrow> string list" where
  "heading_lines s =
     [''# GoalRouter run '' @ run_id s, [], ''## Objective'', [],
      ''- Prompt: '' @ ob_prompt (st_objective s),
      ''- Project path: '' @ display_path (ob_project_path (st_objective s)),
      ''- Status: '' @ run_status_value (st_status s),
      ''- Created: '' @ isoformat (ob_created_at (st_objective s)),
      ''- Configuration: '' @ display_path (ob_config_path (st_objective s)),
      ''- Configuration digest: '' @ st_configuration_digest s,
      [], ''## Repository'', [],
      ''- Git worktree: '' @ (if rc_is_git_worktree (st_repository s) then ''yes'' else ''no''),
      ''- Branch: '' @ (case rc_branch (st_repository s) of
          None \<Rightarrow> none_text | Some b \<Rightarrow> if b = [] then none_text else display_text b),
      ''- Dirty state: '' @ dirty_summary s,
      ''- Languages: '' @ report_pairs (rc_language_counts (st_repository s)),
      ''- Docker files: '' @ report_paths (rc_docker_files (st_repository s)),
      [], ''### Instruction files'', []]"

definition instruction_lines :: "run_state \<Rightarrow> string list" where
  "instruction_lines s =
     (if rc_instruction_files (st_repository s) = [] then [none_text, []]
      else concat (map (\<lambda>i. [''#### '' @ display_path (inf_path i), [], py_rstrip (inf_content i), []])
                    (rc_instruction_files (st_repository s))))"

definition item_lines :: "work_item \<Rightarrow> route_decision \<Rightarrow> work_result option \<Rightarrow> string list" where
  "item_lines item rt result =
     [''### '' @ wi_id item @ '': '' @ wi_title item, [],
      ''- Phase: '' @ wi_phase item,
      ''- Task: '' @ rd_task rt,
      ''- Route reason: '' @ rd_reason rt,
      ''- Model: '' @ rd_model rt,
      ''- Reasoning effort: '' @ rd_reasoning_effort rt,
      ''- Sandbox: '' @ sandbox_mode_value (rd_sandbox rt),
      ''- Approval: '' @ approval_mode_value (rd_approval rt),
      ''- Dependencies: '' @ or_else (comma_join (wi_dependencies item)) none_text,
      ''- Affected paths: '' @ report_paths (wi_affected_paths item),
      ''- Required verification: '' @ or_else (comma_join (wi_verification item)) none_text,
      ''- Status: '' @ (case result of None \<Rightarrow> ''pending'' | Some r \<Rightarrow> work_status_value (wr_status r)),
      ''- Thread ID: '' @ optional_text (Option.bind result wr_thread_id),
      ''- Turn ID: '' @ optional_text (Option.bind result wr_turn_id)]"

definition result_lines :: "float_format \<Rightarrow> work_result \<Rightarrow> string list" where
  "result_lines ff r =
     [''- Usage: input '' @ str_of_int (wr_input_tokens r) @ '', cached ''
        @ str_of_int (wr_cached_input_tokens r) @ '', output '' @ str_of_int (wr_output_tokens r),
      ''- Duration seconds: '' @ ff_general ff (wr_duration_seconds r),
      ''- Changed paths: '' @ report_paths (wr_changed_paths r),
      ''- Verification evidence: '' @ or_else (comma_join (wr_verification r)) none_text,
      ''- Confidence: '' @ ff_general ff (wr_confidence r),
      ''- Error: '' @ optional_text (wr_error r),
      [], ''#### Final response'', [],
      optional_text (wr_final_response r),
      [], ''#### Safe SDK item summary'', [],
      safe_json (wr_sdk_items r), []]"

text \<open>The round of the loop for one identifier; a missing route is a \<open>KeyError\<close>.\<close>

definition work_item_lines :: "float_format \<Rightarrow> run_state \<Rightarrow> string \<Rightarrow> string list result" where
  "work_item_lines ff s k =
     (case map_of (st_work_items s) k of
        None \<Rightarrow> Inl (PyKeyError (py_repr k))
      | Some item \<Rightarrow>
          (case map_of (st_routes s) k of
             None \<Rightarrow> Inl (PyKeyError (py_repr k))
           | Some rt \<Rightarrow>
               (case map_of (st_results s) k of
                  None \<Rightarrow> Inr (item_lines item rt None @ [[]])
                | Some r \<Rightarrow> Inr (item_lines item rt (Some r) @ result_lines ff r))))"

definition total_lines :: "float_format \<Rightarrow> run_state \<Rightarrow> string list" where
  "total_lines ff s =
     (let rs = map snd (st_results s)
      in [''## Total usage'', [],
          ''- Input tokens: '' @ str_of_int (sum_list (map wr_input_tokens rs)),
          ''- Cached input tokens: '' @ str_of_int (sum_list (map wr_cached_input_tokens rs)),
          ''- Output tokens: '' @ str_of_int (sum_list (map wr_output_tokens rs)),
          ''- Duration seconds: '' @ ff_sum ff (map wr_duration_seconds rs), []])"

definition render :: "float_format \<Rightarrow> run_state \<Rightarrow> string result" where
  "render ff s =
     rbind (rmap (work_item_lines ff s) (sorted_keys (st_work_items s))) (\<lambda>items.
       Inr (py_join nl (heading_lines s @ instruction_lines s @ [''## Work items'', []]
              @ concat items @ total_lines ff s)))"

section \<open>Displayed text\<close>

text \<open>What a reader of the report can recover of a displayed text.\<close>

fun undisplay :: "string \<Rightarrow> string" where
  "undisplay [] = []"
| "undisplay [c] = [c]"
| "undisplay (c # d # s) =
     (if c \<noteq> CHR 92 then c # undisplay (d # s)
      else if d = CHR ''x'' then
        (case s of a # b # u \<Rightarrow> the (hex4 (CHR ''0'') (CHR ''0'') a b) # undisplay u | _ \<Rightarrow> [])
      else (if d = CHR ''n'' then CHR 10 else if d = CHR ''r'' then CHR 13
            else if d = CHR ''t'' then CHR 9 else d) # undisplay s)"

lemma undisplay_char: "undisplay (display_char c @ s) = c # undisplay s"
proof (cases "c = CHR 92 \<or> c = CHR 10 \<or> c = CHR 13 \<or> c = CHR 9")
  case True
  then show ?thesis by (auto simp: display_char_def)
next
  case plain: False
  show ?thesis
  proof (cases "ord c < 32 \<or> ord c = 127")
    case True
    then have "display_char c = CHR 92 # CHR ''x'' # hex2 (ord c)" using plain by (simp add: display_char_def)
    moreover have "hex4 (CHR ''0'') (CHR ''0'') (hex_char (ord c div 16)) (hex_char (ord c mod 16)) = Some c"
      using hex4_hex2 [of "ord c"] by simp
    ultimately show ?thesis by (simp add: hex2_def)
  next
    case False
    then have "display_char c = [c]" using plain by (auto simp: display_char_def)
    then show ?thesis using plain by (cases s) simp_all
  qed
qed

lemma undisplay_text: "undisplay (display_text s) = s"
  unfolding display_text_def by (induction s) (simp_all add: undisplay_char)

definition one_line_char :: "char \<Rightarrow> bool" where
  "one_line_char c \<longleftrightarrow> 32 \<le> ord c \<and> ord c \<noteq> 127"

lemma hex_char_one_line: "n < 16 \<Longrightarrow> one_line_char (hex_char n)"
  by (simp add: hex_char_def one_line_char_def)

lemma display_char_one_line: "list_all one_line_char (display_char c)"
proof -
  have "ord c div 16 < 16" "ord c mod 16 < 16" using ord_less [of c] by linarith+
  note h = this [THEN hex_char_one_line]
  have "one_line_char (CHR 92)" "one_line_char (CHR ''n'')" "one_line_char (CHR ''r'')"
    "one_line_char (CHR ''t'')" "one_line_char (CHR ''x'')"
    by (simp_all add: one_line_char_def)
  then show ?thesis using h by (auto simp: display_char_def hex2_def one_line_char_def)
qed

lemma display_text_one_line: "list_all one_line_char (display_text s)"
  unfolding display_text_def using display_char_one_line by (induction s) simp_all

text \<open>
  A displayed path, branch or file name stands on one line without control characters,
  whatever the repository contains, and shows exactly one value: different values are displayed
  differently.
\<close>

theorem displayed_text_is_unambiguous:
  "list_all (\<lambda>c. 32 \<le> ord c \<and> ord c \<noteq> 127) (display_text s)
   \<and> (display_text s = display_text t \<longleftrightarrow> s = t)"
proof
  show "list_all (\<lambda>c. 32 \<le> ord c \<and> ord c \<noteq> 127) (display_text s)"
    using display_text_one_line [of s] by (simp add: one_line_char_def [abs_def])
  show "display_text s = display_text t \<longleftrightarrow> s = t" using undisplay_text by metis
qed

section \<open>Rendering\<close>

lemma work_item_lines_Inr:
  "k \<in> set (dkeys (st_work_items s)) \<Longrightarrow> (\<exists>ls. work_item_lines ff s k = Inr ls) \<longleftrightarrow> k \<in> set (dkeys (st_routes s))"
  by (cases "map_of (st_work_items s) k"; cases "map_of (st_routes s) k")
    (auto simp: work_item_lines_def map_of_None_iff dest: map_of_Some_key split: option.splits)

text \<open>
  A report is rendered exactly when every work item has a route; otherwise the missing
  route is a \<open>KeyError\<close>.
\<close>

theorem reports_need_only_routes:
  "(\<exists>text. render ff s = Inr text) \<longleftrightarrow> set (dkeys (st_work_items s)) \<subseteq> set (dkeys (st_routes s))"
proof -
  have keys: "set (sorted_keys (st_work_items s)) = set (dkeys (st_work_items s))"
    by (simp add: sorted_keys_def)
  have all: "(\<exists>ys. rmap f ks = Inr ys) \<longleftrightarrow> (\<forall>k \<in> set ks. \<exists>y. f k = Inr y)"
    for f :: "string \<Rightarrow> string list result" and ks
    by (induction ks) (auto simp: rbind_eq_Inr_iff)
  have "(\<exists>text. render ff s = Inr text) \<longleftrightarrow> (\<exists>ys. rmap (work_item_lines ff s) (sorted_keys (st_work_items s)) = Inr ys)"
    by (auto simp: render_def rbind_eq_Inr_iff)
  also have "\<dots> \<longleftrightarrow> (\<forall>k \<in> set (dkeys (st_work_items s)). k \<in> set (dkeys (st_routes s)))"
    unfolding all keys using work_item_lines_Inr by blast
  finally show ?thesis by blast
qed

end
