(* ===== verification/Cli.thy ===== *)
theory Cli
  imports Application Codex_Sdk Config
begin

text \<open>
  \<open>src/goalrouter/cli.py\<close> and \<open>src/goalrouter/build_info.py\<close>: the arguments, their validation,
  the settings from which the application is composed, the dispatch of a command to its use case,
  the text that is printed and the exit code. The argument list is parsed in \<open>Arguments\<close>; the
  result is \<open>cli_args\<close>, with one constructor of \<open>command\<close> for each subcommand.
\<close>

section \<open>Arguments\<close>

datatype command =
    ConfigTemplate
  | ConfigValidate
  | Version
  | Models
  | Route path string string "path list"
  | Plan path string "string option"
  | Run path "string option" "string option" "string option" "string option" "path list"
  | Status string
  | Approve string string string
  | Resume string bool
  | Report string

record cli_args =
  ca_config :: "path option"
  ca_json :: bool
  ca_auth_mode :: "string option"
  ca_state_path :: "path option"
  ca_codex_bin :: "string option"
  ca_command :: command

text \<open>The fields of \<open>Run\<close>: project, task, objective, prompt, run identifier, affected paths.\<close>

definition validate_arguments :: "cli_args \<Rightarrow> unit result" where
  "validate_arguments args =
     (case ca_command args of
        Run project task objective prompt rid affected \<Rightarrow>
          if task \<noteq> None \<and> (prompt = None \<or> prompt = Some [])
          then Inl (ConfigurationError ''Task mode requires --prompt'')
          else if objective \<noteq> None \<and> prompt \<noteq> None
          then Inl (ConfigurationError ''Objective mode does not accept --prompt'')
          else Inr ()
      | _ \<Rightarrow> Inr ())"

section \<open>Build information\<close>

record build_info =
  bi_version :: string
  bi_protocol_version :: int
  bi_image_reference :: "string option"
  bi_image_revision :: "string option"

definition json_option :: "string option \<Rightarrow> json" where
  "json_option x = (case x of None \<Rightarrow> JNull | Some s \<Rightarrow> JStr s)"

definition build_info_to_json :: "build_info \<Rightarrow> json" where
  "build_info_to_json b =
     JObj [(''version'', JStr (bi_version b)), (''protocol_version'', JInt (bi_protocol_version b)),
           (''image_reference'', json_option (bi_image_reference b)),
           (''image_revision'', json_option (bi_image_revision b))]"

definition package_version :: string where
  "package_version = ''1.0.10''"

definition current_build_info :: "string dict \<Rightarrow> build_info" where
  "current_build_info env =
     \<lparr>bi_version = package_version, bi_protocol_version = 1,
      bi_image_reference = map_of env ''GOALROUTER_IMAGE_REFERENCE'',
      bi_image_revision = map_of env ''GOALROUTER_IMAGE_REVISION''\<rparr>"

section \<open>Output\<close>

datatype cli_output = OutJson json | OutRoute route_decision | OutRun run_state | OutText string

definition json_output :: "cli_output \<Rightarrow> json" where
  "json_output out =
     (case out of
        OutRoute r \<Rightarrow> route_to_dict r
      | OutRun s \<Rightarrow> run_state_to_dict s
      | OutText t \<Rightarrow> JObj [(''report'', JStr t)]
      | OutJson j \<Rightarrow> j)"

text \<open>\<open>str\<close> of the elements of a list of models; only strings are built by \<open>dispatch\<close>.\<close>

definition model_line :: "json \<Rightarrow> string" where
  "model_line v = (case v of JStr s \<Rightarrow> s | _ \<Rightarrow> dumps Compact v) @ nl"

definition models_of :: "json \<Rightarrow> json list option" where
  "models_of v = (case v of JObj [(k, JList ms)] \<Rightarrow> if k = ''models'' then Some ms else None | _ \<Rightarrow> None)"

definition pretty :: "json \<Rightarrow> string" where
  "pretty v = dumps (Indent 2) v @ nl"

text \<open>The text that \<open>_emit\<close> prints.\<close>

definition emit :: "cli_output \<Rightarrow> bool \<Rightarrow> string" where
  "emit out as_json =
     (if as_json then pretty (json_output out)
      else (case out of
          OutText t \<Rightarrow> if t \<noteq> [] \<and> last t = CHR 10 then t else t @ nl
        | OutRoute r \<Rightarrow>
            ''Task '' @ rd_task r @ '': '' @ rd_model r @ '' ('' @ rd_reasoning_effort r @ '', ''
            @ sandbox_mode_value (rd_sandbox r) @ '', approval '' @ approval_mode_value (rd_approval r) @ '')'' @ nl
            @ ''Reason: '' @ rd_reason r @ nl
        | OutRun s \<Rightarrow>
            ''Run '' @ run_id s @ '': '' @ run_status_value (st_status s) @ '' (''
            @ str_of_int (int (length (st_results s))) @ ''/'' @ str_of_int (int (length (st_work_items s)))
            @ '' work items terminal)'' @ nl
        | OutJson j \<Rightarrow>
            (case models_of j of Some ms \<Rightarrow> concat (map model_line ms) | None \<Rightarrow> pretty j)))"

definition config_summary :: "router_config \<Rightarrow> path \<Rightarrow> json" where
  "config_summary cfg path =
     JObj [(''status'', JStr ''valid''), (''path'', JStr (str_path path)),
           (''schema_version'', JInt (cf_schema_version cfg)),
           (''configuration_digest'', JStr (cf_digest cfg)),
           (''tasks'', JList (map JStr (sorted_keys (cf_tasks cfg)))),
           (''models'', JList (map JStr (sort (remdups (map (\<lambda>(_, a). ma_model a) (cf_model_aliases cfg))))))]"

section \<open>Composition\<close>

text \<open>
  What \<open>_compose_application\<close> decides from arguments and environment. The collaborators
  themselves are built from these settings by \<open>cl_application\<close>.
\<close>

record settings =
  se_client :: codex_client
  se_state_path :: path
  se_planner_schema :: "path option"
  se_max_read_concurrency :: int
  se_inspection_timeout :: int

definition nonempty :: "string option \<Rightarrow> string option" where
  "nonempty x = (case x of None \<Rightarrow> None | Some s \<Rightarrow> if s = [] then None else Some s)"

definition select_auth_mode :: "string option \<Rightarrow> string dict \<Rightarrow> auth_mode result" where
  "select_auth_mode override env =
     (let value = (case nonempty override of
            Some v \<Rightarrow> v
          | None \<Rightarrow> (case map_of env ''GOALROUTER_AUTH_MODE'' of
                       None \<Rightarrow> auth_mode_value ExistingSession | Some v \<Rightarrow> v))
      in case enum_of auth_mode_value auth_modes value of
           None \<Rightarrow> Inl (ConfigurationError ''GOALROUTER_AUTH_MODE is invalid'')
         | Some m \<Rightarrow> Inr m)"

definition compose_settings :: "router_config \<Rightarrow> string dict \<Rightarrow> cli_args \<Rightarrow> settings result" where
  "compose_settings cfg env args =
     rbind (select_auth_mode (ca_auth_mode args) env) (\<lambda>auth.
     rbind (make_client auth (map_of env ''OPENAI_API_KEY'') env
              (case nonempty (ca_codex_bin args) of
                 Some b \<Rightarrow> Some b | None \<Rightarrow> map_of env ''GOALROUTER_CODEX_BIN'')
              None None (Fin 3 1)) (\<lambda>(client, _).
       if cf_maximum_read_concurrency cfg < 1
       then Inl (ConfigurationError ''maximum read concurrency must be at least one'')
       else Inr \<lparr>se_client = client,
                 se_state_path = (case ca_state_path args of
                     Some p \<Rightarrow> p
                   | None \<Rightarrow> path_of (case map_of env ''GOALROUTER_STATE_PATH'' of
                                        None \<Rightarrow> ''.goalrouter/runs'' | Some v \<Rightarrow> v)),
                 se_planner_schema = map_option path_of (nonempty (map_of env ''GOALROUTER_PLANNER_SCHEMA'')),
                 se_max_read_concurrency = cf_maximum_read_concurrency cfg,
                 se_inspection_timeout = cf_repository_inspection_timeout_seconds cfg\<rparr>))"

section \<open>Commands\<close>

definition dispatch_command :: "'w app_ports \<Rightarrow> command \<Rightarrow> ('w, cli_output) eff" where
  "dispatch_command p c =
     (case c of
        Models \<Rightarrow> io_bind (models p) (\<lambda>ms.
          io_return (OutJson (JObj [(''models'', JList (map JStr (sort ms)))])))
      | Route project task prompt affected \<Rightarrow>
          io_bind (route_task p task prompt affected) (\<lambda>r. io_return (OutRoute r))
      | Plan project objective rid \<Rightarrow>
          io_bind (plan_objective p project objective rid) (\<lambda>s. io_return (OutRun s))
      | Run project task objective prompt rid affected \<Rightarrow>
          (case task of
             Some t \<Rightarrow> io_bind (run_task p project t (the prompt) affected rid) (\<lambda>s. io_return (OutRun s))
           | None \<Rightarrow> io_bind (run_objective p project (the objective) rid) (\<lambda>s. io_return (OutRun s)))
      | Status rid \<Rightarrow> io_bind (status p rid) (\<lambda>s. io_return (OutRun s))
      | Approve rid wid by_whom \<Rightarrow> io_bind (app_approve p rid wid by_whom) (\<lambda>s. io_return (OutRun s))
      | Resume rid acknowledge \<Rightarrow> io_bind (resume_run p rid acknowledge) (\<lambda>s. io_return (OutRun s))
      | Report rid \<Rightarrow> io_bind (report p rid) (\<lambda>t. io_return (OutText t))
      | ConfigTemplate \<Rightarrow> io_raise (ConfigurationError (''Unsupported command '' @ py_repr ''config''))
      | ConfigValidate \<Rightarrow> io_raise (ConfigurationError (''Unsupported command '' @ py_repr ''config''))
      | Version \<Rightarrow> io_raise (ConfigurationError (''Unsupported command '' @ py_repr ''version'')))"

record 'w cli_ports =
  cl_config :: "'w \<Rightarrow> config_ports"
  cl_template :: "('w, string) eff"
  cl_application :: "settings \<Rightarrow> router_config \<Rightarrow> path \<Rightarrow> 'w app_ports"

definition load_config :: "'w cli_ports \<Rightarrow> path \<Rightarrow> string dict \<Rightarrow> ('w, router_config) eff" where
  "load_config p path env = (\<lambda>w.
     (load_router_config (cl_config p w) path
        (map_option path_of (nonempty (map_of env ''GOALROUTER_SCHEMA''))), w))"

definition config_path :: "cli_args \<Rightarrow> string dict \<Rightarrow> path" where
  "config_path args env =
     (case ca_config args of
        Some q \<Rightarrow> q
      | None \<Rightarrow> path_of (case map_of env ''GOALROUTER_CONFIG'' of
                           None \<Rightarrow> ''/etc/goalrouter/task-models.yaml'' | Some v \<Rightarrow> v))"

text \<open>The \<open>try\<close> block of \<open>async_main\<close>; the result is what is written to the standard output.\<close>

definition main_body :: "'w cli_ports \<Rightarrow> cli_args \<Rightarrow> string dict \<Rightarrow> ('w, string) eff" where
  "main_body p args env =
     io_bind (io_lift (validate_arguments args)) (\<lambda>_.
       if ca_command args = Version
       then io_return (emit (OutJson (build_info_to_json (current_build_info env))) (ca_json args))
       else if ca_command args = ConfigTemplate
       then io_bind (cl_template p) (\<lambda>text.
              io_return (if ca_json args then emit (OutJson (JObj [(''template'', JStr text)])) True else text))
       else (let path = config_path args env
             in io_bind (load_config p path env) (\<lambda>cfg.
                  if ca_command args = ConfigValidate
                  then io_return (emit (OutJson (config_summary cfg path)) (ca_json args))
                  else io_bind (io_lift (compose_settings cfg env args)) (\<lambda>settings.
                       io_bind (dispatch_command (cl_application p settings cfg path) (ca_command args)) (\<lambda>out.
                         io_return (emit out (ca_json args)))))))"

text \<open>Exit code, standard output, standard error.\<close>

definition async_main :: "'w cli_ports \<Rightarrow> cli_args \<Rightarrow> string dict \<Rightarrow> ('w, int \<times> string \<times> string) eff" where
  "async_main p args env = (\<lambda>w.
     case main_body p args env w of
       (Inr text, w') \<Rightarrow> (Inr (0, text, []), w')
     | (Inl e, w') \<Rightarrow>
         (case exit_code e of
            Some code \<Rightarrow> (Inr (code, [], ''goalrouter: '' @ exn_str e @ nl), w')
          | None \<Rightarrow> (Inl e, w')))"

end
