(* ===== verification/Cli_Properties.thy ===== *)
theory Cli_Properties
  imports Cli Examples
begin

text \<open>
  The command line as a whole: nothing is done for a command line, configuration or environment
  that the checks refuse.
\<close>

lemma compose_settings_Inr:
  assumes "compose_settings cfg env args = Inr settings"
  shows "1 \<le> se_max_read_concurrency settings"
    and "se_max_read_concurrency settings = cf_maximum_read_concurrency cfg"
  using assms by (auto simp: compose_settings_def rbind_eq_Inr_iff Let_def split: if_splits)

lemma load_config_world: "snd (load_config p path env w) = w"
  by (simp add: load_config_def)

text \<open>The checks before the use case depend on the world only through the configuration.\<close>

definition accepted :: "'w cli_ports \<Rightarrow> cli_args \<Rightarrow> string dict \<Rightarrow> 'w \<Rightarrow> router_config \<Rightarrow> settings \<Rightarrow> bool" where
  "accepted p args env w cfg settings \<longleftrightarrow>
     validate_arguments args = Inr ()
     \<and> load_config p (config_path args env) env w = (Inr cfg, w)
     \<and> compose_settings cfg env args = Inr settings"

lemma main_body_changes:
  assumes "snd (main_body p args env w) \<noteq> w" and "ca_command args \<noteq> ConfigTemplate"
  shows "\<exists>cfg settings. accepted p args env w cfg settings"
proof (cases "load_config p (config_path args env) env w")
  case (Pair r v)
  then have v: "v = w" using load_config_world [of p "config_path args env" env w] by simp
  show ?thesis using assms Pair unfolding accepted_def main_body_def Let_def v
    by (cases r; cases "validate_arguments args")
      (auto simp: io_bind_def io_lift_def io_return_def split: if_splits sum.splits)
qed

text \<open>
  C31. Nothing is touched before everything is checked: unless the shipped template is read, the
  program changes something only for accepted arguments, a consistent configuration, a valid
  authentication mode and a positive bound on concurrent reads.
\<close>

theorem nothing_runs_before_validation:
  assumes "snd (async_main p args env w) \<noteq> w" and "ca_command args \<noteq> ConfigTemplate"
  shows "validate_arguments args = Inr ()
    \<and> (\<exists>cfg settings. fst (load_config p (config_path args env) env w) = Inr cfg \<and> config_ok cfg
        \<and> (\<exists>mode. select_auth_mode (ca_auth_mode args) env = Inr mode)
        \<and> compose_settings cfg env args = Inr settings \<and> 1 \<le> se_max_read_concurrency settings)"
proof -
  have "snd (main_body p args env w) \<noteq> w"
    using assms(1) by (auto simp: async_main_def split: prod.splits sum.splits option.splits)
  from main_body_changes [OF this assms(2)] obtain cfg settings where a: "accepted p args env w cfg settings"
    by blast
  then have load: "fst (load_config p (config_path args env) env w) = Inr cfg"
    and set: "compose_settings cfg env args = Inr settings" and val: "validate_arguments args = Inr ()"
    by (simp_all add: accepted_def)
  from load have "config_ok cfg" by (auto simp: load_config_def intro: load_router_config_ok)
  moreover from set have "\<exists>mode. select_auth_mode (ca_auth_mode args) env = Inr mode"
    by (auto simp: compose_settings_def rbind_eq_Inr_iff)
  ultimately show ?thesis using load set val compose_settings_Inr(1) [OF set] by blast
qed

text \<open>A world that records whether the account was asked for its models.\<close>

definition ex_counting_app :: "bool app_ports" where
  "ex_counting_app =
     \<lparr>ap_config = ex_loaded, ap_config_path = ex_root, ap_available_models = (\<lambda>_. (Inr [''m1'', ''m2''], True)),
      ap_inspect = (\<lambda>_. io_return ex_repository), ap_plan = (\<lambda>_ _ _. io_return []),
      ap_run_ready = io_return, ap_create = (\<lambda>_. io_return ()),
      ap_load = (\<lambda>_ _ _. io_return (ex_state Automatic)),
      ap_save = (\<lambda>_. io_return ()), ap_append_event = (\<lambda>_ _. io_return ()),
      ap_write_report = (\<lambda>_ _. io_return ()), ap_render = (\<lambda>_. Inr ''report''),
      ap_acquire = (\<lambda>_. io_return ()), ap_release = (\<lambda>_. io_return ()), ap_now = io_return ex_time,
      ap_new_run_id = io_return ''r1'', ap_sha = (\<lambda>s. s)\<rparr>"

definition ex_cli :: "bool cli_ports" where
  "ex_cli = \<lparr>cl_config = (\<lambda>_. ex_ports), cl_template = io_return ''template'',
     cl_application = (\<lambda>_ _ _. ex_counting_app)\<rparr>"

definition ex_args :: cli_args where
  "ex_args = \<lparr>ca_config = Some ex_root, ca_json = False, ca_auth_mode = None, ca_state_path = None,
     ca_codex_bin = None, ca_command = Models\<rparr>"

lemma nothing_runs_before_validation_witness:
  "snd (async_main ex_cli ex_args [] False) = True
   \<and> (\<exists>cfg settings. fst (load_config ex_cli (config_path ex_args []) [] False) = Inr cfg \<and> config_ok cfg
        \<and> compose_settings cfg [] ex_args = Inr settings \<and> 1 \<le> se_max_read_concurrency settings)"
proof -
  have run: "snd (async_main ex_cli ex_args [] False) = True"
    by code_simp
  show ?thesis
    using nothing_runs_before_validation [of ex_cli ex_args "[]" False] run by (auto simp: ex_args_def)
qed

end
