(* ===== verification/Git_Evidence.thy ===== *)
theory Git_Evidence
  imports Errors Py_Path
begin

text \<open>
  The Git output that \<open>src/goalrouter/repository.py\<close> accepts as evidence: the branch, the
  records of \<open>ls-files --stage\<close>, \<open>ls-tree\<close> and \<open>ls-files --others\<close>, and the comparison of index
  and HEAD. The second half shows that what is accepted is safe and that nothing Git prints for
  a regular repository is refused.
\<close>

section \<open>Commands\<close>

record command_result =
  cr_argv :: "string list"
  cr_returncode :: int
  cr_stdout :: string
  cr_stderr :: string

record index_entry =
  ie_tag :: string
  ie_mode :: string
  ie_object_id :: string
  ie_stage :: int
  ie_path :: path

record tree_entry =
  te_mode :: string
  te_object_id :: string
  te_path :: path

definition nul :: char where
  "nul = CHR 0x00"

definition tab :: char where
  "tab = CHR 9"

definition regular_index_modes :: "string list" where
  "regular_index_modes = [''100644'', ''100755'']"

definition symlink_index_mode :: string where
  "symlink_index_mode = ''120000''"

definition gitlink_index_mode :: string where
  "gitlink_index_mode = ''160000''"

definition allowed_index_modes :: "string list" where
  "allowed_index_modes = regular_index_modes @ [symlink_index_mode, gitlink_index_mode]"

text \<open>
  \<open>int(text)\<close>: white space around it, a sign, groups of digits between single underscores, and at
  most 4300 digits; \<open>None\<close> is its \<open>ValueError\<close>.
\<close>

definition is_int_space :: "char \<Rightarrow> bool" where
  "is_int_space c \<longleftrightarrow> (9 \<le> ord c \<and> ord c \<le> 13) \<or> ord c = 32 \<or> ord c = 133 \<or> ord c = 160"

definition int_strip :: "string \<Rightarrow> string" where
  "int_strip s = rev (dropWhile is_int_space (rev (dropWhile is_int_space s)))"

definition int_sign :: "string \<Rightarrow> int \<times> string" where
  "int_sign s =
     (if starts_with ''-'' s then (-1, tl s) else if starts_with ''+'' s then (1, tl s) else (1, s))"

definition int_max_str_digits :: nat where
  "int_max_str_digits = 4300"

definition py_int :: "string \<Rightarrow> int option" where
  "py_int s =
     (case int_sign (int_strip s) of (sign, body) \<Rightarrow>
        let groups = split_on (CHR ''_'') body
        in if list_all (\<lambda>g. g \<noteq> [] \<and> list_all is_digit g) groups \<and> length (concat groups) \<le> int_max_str_digits
           then Some (sign * int (nat_of_digits (concat groups))) else None)"

text \<open>\<open>s.split(c, 1)\<close> when it has two pieces.\<close>

definition split_once :: "char \<Rightarrow> string \<Rightarrow> (string \<times> string) option" where
  "split_once c s =
     (if c \<in> set s then Some (takeWhile (\<lambda>d. d \<noteq> c) s, tl (dropWhile (\<lambda>d. d \<noteq> c) s)) else None)"

section \<open>Parsing\<close>

definition branch_malformed :: exn where
  "branch_malformed = RepositoryError ''Git branch inspection returned malformed evidence''"

definition parse_branch :: "string \<Rightarrow> string option result" where
  "parse_branch stdout =
     (if nul \<in> set stdout \<or> 1 < count_list stdout (CHR 10) then Inl branch_malformed
      else (let branch = (if stdout \<noteq> [] \<and> last stdout = CHR 10 then butlast stdout else stdout)
            in if CHR 13 \<in> set branch then Inl branch_malformed
               else Inr (if branch = [] then None else Some branch)))"

text \<open>\<open>run\<close> is the runner within its time limit, applied to the pinned prefix.\<close>

definition head_failed :: "command_result \<Rightarrow> exn" where
  "head_failed outcome =
     RepositoryError (''Git HEAD tree inspection failed (exit '' @ str_of_int (cr_returncode outcome) @ '')'')"

definition resolve_head_tree ::
  "command_result result \<Rightarrow> string option \<Rightarrow> (string list \<Rightarrow> ('w, command_result) eff) \<Rightarrow> ('w, string) eff" where
  "resolve_head_tree outcome branch run =
     (case outcome of
        Inl _ \<Rightarrow> io_raise (RepositoryError ''Git HEAD tree inspection failed'')
      | Inr out \<Rightarrow>
          if cr_returncode out = 0 then io_return (cr_stdout out)
          else (case branch of
              Some b \<Rightarrow>
                if cr_returncode out = 128 \<and> cr_stdout out = []
                then io_bind (io_map_error (\<lambda>e. case e of
                         PyTimeoutError _ \<Rightarrow> RepositoryError ''Git unborn-HEAD inspection timed out''
                       | RepositoryError _ \<Rightarrow> RepositoryError ''Git unborn-HEAD inspection failed''
                       | _ \<Rightarrow> e)
                       (run [''show-ref'', ''--verify'', ''--quiet'', ''refs/heads/'' @ b])) (\<lambda>ref.
                     if cr_returncode ref = 1 \<and> cr_stdout ref = [] \<and> cr_stderr ref = []
                     then io_return [] else io_raise (head_failed out))
                else io_raise (head_failed out)
            | None \<Rightarrow> io_raise (head_failed out)))"

definition split_nul_records :: "string \<Rightarrow> string \<Rightarrow> string list result" where
  "split_nul_records stdout label =
     (if stdout = [] then Inr []
      else if last stdout \<noteq> nul
      then Inl (RepositoryError (''Git '' @ label @ '' returned malformed NUL-delimited evidence''))
      else (let records = butlast (split_on nul stdout)
            in if [] \<in> set records
               then Inl (RepositoryError (''Git '' @ label @ '' returned an empty evidence record''))
               else Inr records))"

definition parse_repository_path :: "string \<Rightarrow> string \<Rightarrow> path result" where
  "parse_repository_path raw label =
     (let p = path_of raw
      in if raw = [] \<or> is_absolute p \<or> list_ex (\<lambda>part. part = [] \<or> part = ''.'' \<or> part = ''..'') (path_parts p)
         then Inl (RepositoryError (''Git '' @ label @ '' returned an unsafe path''))
         else Inr p)"

definition object_id_ok :: "string \<Rightarrow> bool" where
  "object_id_ok s \<longleftrightarrow>
     (length s = 40 \<or> length s = 64) \<and> list_all (\<lambda>c. is_digit c \<or> (97 \<le> ord c \<and> ord c \<le> 102)) s"

definition validate_object_id :: "string \<Rightarrow> unit result" where
  "validate_object_id s =
     (if object_id_ok s then Inr () else Inl (RepositoryError ''Git returned an invalid object identifier''))"

definition require_consistent_object_format :: "nat list \<Rightarrow> unit result" where
  "require_consistent_object_format lengths =
     (if 1 < length (remdups lengths)
      then Inl (RepositoryError ''Git returned mixed object identifier formats'') else Inr ())"

definition index_malformed :: exn where
  "index_malformed = RepositoryError ''Git index returned malformed evidence''"

text \<open>The four fields of a record and the raw path, the \<open>try\<close> block of the loop.\<close>

definition index_fields :: "string \<Rightarrow> (string \<times> string \<times> string \<times> int \<times> string) option" where
  "index_fields record =
     (case split_once tab record of
        Some (metadata, raw_path) \<Rightarrow>
          (case split_on (CHR '' '') metadata of
             [tag, mode, object_id, raw_stage] \<Rightarrow>
               map_option (\<lambda>stage. (tag, mode, object_id, stage, raw_path)) (py_int raw_stage)
           | _ \<Rightarrow> None)
      | None \<Rightarrow> None)"

definition index_tags :: "string list" where
  "index_tags = [''H'', ''S'', ''M'']"

definition parse_index_record :: "string \<Rightarrow> index_entry result" where
  "parse_index_record record =
     (case index_fields record of
        None \<Rightarrow> Inl index_malformed
      | Some (tag, mode, object_id, stage, raw_path) \<Rightarrow>
          if tag \<notin> set index_tags then Inl (RepositoryError ''Git index returned an unknown entry tag'')
          else if mode \<notin> set allowed_index_modes
          then Inl (RepositoryError ''Git index returned an unsupported entry mode'')
          else if \<not> (0 \<le> stage \<and> stage \<le> 3) \<or> (tag = ''M'') \<noteq> (stage \<noteq> 0)
          then Inl (RepositoryError ''Git index returned an invalid stage entry'')
          else rbind (validate_object_id object_id) (\<lambda>_.
               rbind (parse_repository_path raw_path ''index'') (\<lambda>p.
                 Inr \<lparr>ie_tag = tag, ie_mode = mode, ie_object_id = object_id, ie_stage = stage, ie_path = p\<rparr>)))"

definition parse_index_entries :: "string \<Rightarrow> index_entry list result" where
  "parse_index_entries stdout =
     rbind (split_nul_records stdout ''index'') (\<lambda>records.
     rbind (rmap parse_index_record records) (\<lambda>entries.
     rbind (require_consistent_object_format (map (\<lambda>e. length (ie_object_id e)) entries)) (\<lambda>_.
       Inr entries)))"

definition tree_fields :: "string \<Rightarrow> (string \<times> string \<times> string \<times> string) option" where
  "tree_fields record =
     (case split_once tab record of
        Some (metadata, raw_path) \<Rightarrow>
          (case split_on (CHR '' '') metadata of
             [mode, object_type, object_id] \<Rightarrow> Some (mode, object_type, object_id, raw_path)
           | _ \<Rightarrow> None)
      | None \<Rightarrow> None)"

definition expected_type :: "string \<Rightarrow> string" where
  "expected_type mode = (if mode = gitlink_index_mode then ''commit'' else ''blob'')"

fun parse_tree_records :: "path list \<Rightarrow> string list \<Rightarrow> tree_entry list result" where
  "parse_tree_records seen [] = Inr []"
| "parse_tree_records seen (record # records) =
     (case tree_fields record of
        None \<Rightarrow> Inl (RepositoryError ''Git HEAD tree returned malformed evidence'')
      | Some (mode, object_type, object_id, raw_path) \<Rightarrow>
          if mode \<notin> set allowed_index_modes \<or> object_type \<noteq> expected_type mode
          then Inl (RepositoryError ''Git HEAD tree returned unsupported evidence'')
          else rbind (validate_object_id object_id) (\<lambda>_.
               rbind (parse_repository_path raw_path ''HEAD tree'') (\<lambda>p.
                 if p \<in> set seen
                 then Inl (RepositoryError ''Git HEAD tree returned duplicate path evidence'')
                 else rbind (parse_tree_records (p # seen) records) (\<lambda>entries.
                        Inr (\<lparr>te_mode = mode, te_object_id = object_id, te_path = p\<rparr> # entries)))))"

definition parse_tree_entries :: "string \<Rightarrow> tree_entry list result" where
  "parse_tree_entries stdout =
     rbind (split_nul_records stdout ''HEAD tree'') (\<lambda>records.
     rbind (parse_tree_records [] records) (\<lambda>entries.
     rbind (require_consistent_object_format (map (\<lambda>e. length (te_object_id e)) entries)) (\<lambda>_.
       Inr entries)))"

definition parse_nul_paths :: "string \<Rightarrow> string \<Rightarrow> path list result" where
  "parse_nul_paths stdout label =
     rbind (split_nul_records stdout label) (\<lambda>records.
     rbind (rmap (\<lambda>r. parse_repository_path r label) records) (\<lambda>paths.
       if distinct paths then Inr paths
       else Inl (RepositoryError (''Git '' @ label @ '' returned duplicate path evidence''))))"

section \<open>What is accepted\<close>

text \<open>A path below the root, without a step to a parent.\<close>

definition evidence_path :: "path \<Rightarrow> bool" where
  "evidence_path p \<longleftrightarrow> path_ok p \<and> \<not> is_absolute p \<and> ''..'' \<notin> set (path_parts p)"

definition same_length :: "string list \<Rightarrow> bool" where
  "same_length ids \<longleftrightarrow> list_all (\<lambda>s. length s = 40) ids \<or> list_all (\<lambda>s. length s = 64) ids"

definition index_entry_ok :: "index_entry \<Rightarrow> bool" where
  "index_entry_ok e \<longleftrightarrow>
     ie_tag e \<in> set index_tags \<and> ie_mode e \<in> set allowed_index_modes \<and> object_id_ok (ie_object_id e)
     \<and> 0 \<le> ie_stage e \<and> ie_stage e \<le> 3 \<and> (ie_tag e = ''M'' \<longleftrightarrow> ie_stage e \<noteq> 0)
     \<and> evidence_path (ie_path e)"

definition tree_entry_ok :: "tree_entry \<Rightarrow> bool" where
  "tree_entry_ok e \<longleftrightarrow>
     te_mode e \<in> set allowed_index_modes \<and> object_id_ok (te_object_id e) \<and> evidence_path (te_path e)"

definition repository_error :: "exn \<Rightarrow> bool" where
  "repository_error e \<longleftrightarrow> (\<exists>m. e = RepositoryError m)"

lemma repository_error_simp [simp]: "repository_error (RepositoryError m)"
  by (simp add: repository_error_def)

lemma split_nul_records_cases:
  "split_nul_records s label = Inl e \<Longrightarrow> repository_error e"
  by (auto simp: split_nul_records_def repository_error_def Let_def split: if_splits)

lemma parse_repository_path_Inr:
  "parse_repository_path raw label = Inr p \<Longrightarrow> evidence_path p"
  by (auto simp: parse_repository_path_def evidence_path_def Let_def list_ex_iff split: if_splits)

lemma parse_repository_path_Inl:
  "parse_repository_path raw label = Inl e \<Longrightarrow> repository_error e"
  by (auto simp: parse_repository_path_def repository_error_def Let_def split: if_splits)

lemma validate_object_id_Inr: "validate_object_id s = Inr u \<longleftrightarrow> object_id_ok s"
  by (simp add: validate_object_id_def)

lemma validate_object_id_Inl: "validate_object_id s = Inl e \<Longrightarrow> repository_error e"
  by (auto simp: validate_object_id_def repository_error_def split: if_splits)

lemma consistent_format_Inr:
  assumes "list_all object_id_ok ids"
  shows "require_consistent_object_format (map length ids) = Inr () \<longleftrightarrow> same_length ids"
proof -
  let ?ls = "map length ids"
  have "set ?ls \<subseteq> {40, 64}" using assms by (auto simp: list_all_iff object_id_ok_def)
  moreover have "\<not> 1 < length (remdups ?ls) \<longleftrightarrow> card (set ?ls) \<le> 1"
    by (simp only: length_remdups_card_conv not_less)
  moreover have "card (set ?ls) \<le> 1 \<longleftrightarrow> set ?ls \<subseteq> {40} \<or> set ?ls \<subseteq> {64}" if "set ?ls \<subseteq> {40, 64}"
  proof -
    from that have "set ?ls \<in> Pow {40, 64}" by (rule PowI)
    then have "set ?ls = {} \<or> set ?ls = {40} \<or> set ?ls = {64} \<or> set ?ls = {40, 64}"
      unfolding Pow_insert Pow_empty by blast
    then show ?thesis by (elim disjE) (simp_all del: set_map)
  qed
  ultimately show ?thesis
    by (auto simp: require_consistent_object_format_def same_length_def list_all_iff)
qed

lemma consistent_format_Inl:
  "require_consistent_object_format ls = Inl e \<Longrightarrow> repository_error e"
  by (auto simp: require_consistent_object_format_def repository_error_def split: if_splits)

lemma rmap_Inl: "rmap f xs = Inl e \<Longrightarrow> \<exists>x \<in> set xs. f x = Inl e"
  by (induction xs) (auto simp: rbind_eq_Inl_iff)

lemma parse_index_record_Inr: "parse_index_record r = Inr e \<Longrightarrow> index_entry_ok e"
  unfolding parse_index_record_def
  by (auto simp: index_entry_ok_def rbind_eq_Inr_iff validate_object_id_Inr
      split: option.splits if_splits dest!: parse_repository_path_Inr)

lemma parse_index_record_Inl: "parse_index_record r = Inl e \<Longrightarrow> repository_error e"
  unfolding parse_index_record_def
  by (auto simp: index_malformed_def rbind_eq_Inl_iff split: option.splits if_splits
      dest!: parse_repository_path_Inl validate_object_id_Inl)

lemma parse_tree_records_Cons:
  assumes "parse_tree_records seen (r # rs) = Inr es"
  obtains e es' where "es = e # es'" and "tree_entry_ok e" and "te_path e \<notin> set seen"
    and "parse_tree_records (te_path e # seen) rs = Inr es'"
  using assms
  by (auto simp: rbind_eq_Inr_iff validate_object_id_Inr tree_entry_ok_def
      split: option.splits if_splits dest!: parse_repository_path_Inr)

lemma parse_tree_records_Inr:
  "parse_tree_records seen rs = Inr es \<Longrightarrow>
     list_all tree_entry_ok es \<and> distinct (map te_path es) \<and> set (map te_path es) \<inter> set seen = {}"
proof (induction rs arbitrary: seen es)
  case (Cons r rs)
  from Cons.prems obtain e es' where "es = e # es'" "tree_entry_ok e" "te_path e \<notin> set seen"
    and rest: "parse_tree_records (te_path e # seen) rs = Inr es'"
    by (rule parse_tree_records_Cons)
  with Cons.IH [OF rest] show ?case by auto
qed simp

lemma parse_tree_records_Inl: "parse_tree_records seen rs = Inl e \<Longrightarrow> repository_error e"
proof (induction rs arbitrary: seen)
  case (Cons r rs)
  then show ?case
    by (auto simp: rbind_eq_Inl_iff split: option.splits if_splits
        dest!: parse_repository_path_Inl validate_object_id_Inl)
qed simp

lemma parse_index_entries_Inr:
  assumes "parse_index_entries s = Inr es"
  shows "list_all index_entry_ok es \<and> same_length (map ie_object_id es)"
proof -
  from assms obtain rs where rs: "rmap parse_index_record rs = Inr es"
    and fmt: "require_consistent_object_format (map length (map ie_object_id es)) = Inr ()"
    by (auto simp: parse_index_entries_def rbind_eq_Inr_iff comp_def)
  from rs have ok: "list_all index_entry_ok es"
    by (auto simp: rmap_Inr_iff list_all2_conv_all_nth list_all_length intro!: parse_index_record_Inr)
  then have "list_all object_id_ok (map ie_object_id es)"
    by (auto simp: list_all_iff index_entry_ok_def)
  from consistent_format_Inr [OF this] fmt ok show ?thesis by blast
qed

lemma parse_tree_entries_Inr:
  assumes "parse_tree_entries s = Inr es"
  shows "list_all tree_entry_ok es \<and> same_length (map te_object_id es) \<and> distinct (map te_path es)"
proof -
  from assms obtain rs where rs: "parse_tree_records [] rs = Inr es"
    and fmt: "require_consistent_object_format (map length (map te_object_id es)) = Inr ()"
    by (auto simp: parse_tree_entries_def rbind_eq_Inr_iff comp_def)
  from parse_tree_records_Inr [OF rs] have ok: "list_all tree_entry_ok es" and d: "distinct (map te_path es)"
    by simp_all
  then have "list_all object_id_ok (map te_object_id es)"
    by (auto simp: list_all_iff tree_entry_ok_def)
  from consistent_format_Inr [OF this] fmt ok d show ?thesis by blast
qed

lemma parse_nul_paths_Inr:
  "parse_nul_paths s label = Inr ps \<Longrightarrow> list_all evidence_path ps \<and> distinct ps"
  by (auto simp: parse_nul_paths_def rbind_eq_Inr_iff rmap_Inr_iff list_all2_conv_all_nth list_all_length
      split: if_splits intro!: parse_repository_path_Inr)

lemma parse_errors:
  "parse_index_entries s = Inl e \<Longrightarrow> repository_error e"
  "parse_tree_entries s = Inl e \<Longrightarrow> repository_error e"
  "parse_nul_paths s label = Inl e \<Longrightarrow> repository_error e"
  "parse_branch s = Inl e \<Longrightarrow> repository_error e"
proof -
  show "parse_index_entries s = Inl e \<Longrightarrow> repository_error e"
    by (auto simp: parse_index_entries_def rbind_eq_Inl_iff dest: split_nul_records_cases
        consistent_format_Inl rmap_Inl parse_index_record_Inl)
  show "parse_tree_entries s = Inl e \<Longrightarrow> repository_error e"
    by (auto simp: parse_tree_entries_def rbind_eq_Inl_iff dest: split_nul_records_cases
        consistent_format_Inl parse_tree_records_Inl)
  show "parse_nul_paths s label = Inl e \<Longrightarrow> repository_error e"
    by (auto simp: parse_nul_paths_def rbind_eq_Inl_iff split: if_splits dest: split_nul_records_cases
        rmap_Inl parse_repository_path_Inl)
  show "parse_branch s = Inl e \<Longrightarrow> repository_error e"
    by (auto simp: parse_branch_def branch_malformed_def repository_error_def Let_def split: if_splits)
qed

text \<open>
  Whatever Git prints, the evidence that is accepted is safe: every path is relative and never
  steps to a parent, tags, modes and stages fit together, object identifiers are lower-case
  hexadecimal and of one length, and no path of HEAD or of the untracked files comes twice.
  Everything else is refused with a \<open>RepositoryError\<close>.
\<close>

theorem accepted_evidence_is_safe:
  "(case parse_index_entries s of
      Inr es \<Rightarrow> list_all index_entry_ok es \<and> same_length (map ie_object_id es)
    | Inl e \<Rightarrow> repository_error e)
   \<and> (case parse_tree_entries s of
        Inr es \<Rightarrow> list_all tree_entry_ok es \<and> same_length (map te_object_id es) \<and> distinct (map te_path es)
      | Inl e \<Rightarrow> repository_error e)
   \<and> (case parse_nul_paths s label of
        Inr ps \<Rightarrow> list_all evidence_path ps \<and> distinct ps
      | Inl e \<Rightarrow> repository_error e)"
  using parse_index_entries_Inr [of s] parse_tree_entries_Inr [of s] parse_nul_paths_Inr [of s label] parse_errors [of s]
  by (auto split: sum.splits)

section \<open>What Git prints\<close>

definition index_line :: "index_entry \<Rightarrow> string" where
  "index_line e = ie_tag e @ '' '' @ ie_mode e @ '' '' @ ie_object_id e @ '' '' @ str_of_int (ie_stage e)
     @ [tab] @ str_path (ie_path e)"

definition tree_line :: "tree_entry \<Rightarrow> string" where
  "tree_line e = te_mode e @ '' '' @ expected_type (te_mode e) @ '' '' @ te_object_id e @ [tab] @ str_path (te_path e)"

definition nul_terminated :: "string list \<Rightarrow> string" where
  "nul_terminated lines = concat (map (\<lambda>l. l @ [nul]) lines)"

lemma split_nul_terminated:
  assumes "list_all (\<lambda>l. l \<noteq> [] \<and> nul \<notin> set l) ls"
  shows "split_nul_records (nul_terminated ls) label = Inr ls"
proof -
  have split: "split_on nul (nul_terminated ls) = ls @ [[]]"
    using assms by (induction ls) (simp_all add: nul_terminated_def split_on_append)
  have last: "nul_terminated ls = [] \<longleftrightarrow> ls = []" "ls \<noteq> [] \<Longrightarrow> last (nul_terminated ls) = nul"
    by (cases ls rule: rev_cases; simp add: nul_terminated_def)+
  from assms have "[] \<notin> set ls" by (auto simp: list_all_iff)
  with split last show ?thesis by (auto simp: split_nul_records_def)
qed

lemma split_once_append: "c \<notin> set p \<Longrightarrow> split_once c (p @ c # s) = Some (p, s)"
proof -
  assume c: "c \<notin> set p"
  then have "takeWhile (\<lambda>d. d \<noteq> c) (p @ c # s) = p \<and> dropWhile (\<lambda>d. d \<noteq> c) (p @ c # s) = c # s"
    by (induction p) auto
  then show ?thesis by (simp add: split_once_def)
qed

definition plain_word :: "string \<Rightarrow> bool" where
  "plain_word w \<longleftrightarrow> CHR '' '' \<notin> set w \<and> tab \<notin> set w \<and> nul \<notin> set w"

lemma object_id_plain: "object_id_ok s \<Longrightarrow> plain_word s"
  by (auto simp: object_id_ok_def plain_word_def list_all_iff is_digit_def tab_def nul_def)

lemma tags_modes_plain: "x \<in> set (index_tags @ allowed_index_modes @ [''commit'', ''blob'']) \<Longrightarrow> plain_word x"
  by (auto simp: index_tags_def allowed_index_modes_def regular_index_modes_def symlink_index_mode_def
      gitlink_index_mode_def plain_word_def tab_def nul_def)

lemma stage_text:
  assumes "0 \<le> n" and "n \<le> 3"
  shows "py_int (str_of_int n) = Some n \<and> plain_word (str_of_int n)"
proof -
  have all: "list_all (\<lambda>n. py_int (str_of_int n) = Some n \<and> plain_word (str_of_int n)) [0, 1, 2, 3]"
    by code_simp
  from assms have "n \<in> set [0, 1, 2, 3]" by auto
  with all show ?thesis unfolding list_all_iff by blast
qed

lemma str_path_not_Nil: "path_ok p \<Longrightarrow> str_path p \<noteq> []"
proof -
  assume ok: "path_ok p"
  show ?thesis
  proof (cases "path_parts p")
    case (Cons x xs)
    with ok have "x \<noteq> []" by (simp add: path_ok_def keep_part_def)
    then show ?thesis by (cases xs) (auto simp: str_path_def Cons)
  qed (auto simp: str_path_def)
qed

lemma parse_printed_path:
  assumes "evidence_path p"
  shows "parse_repository_path (str_path p) label = Inr p"
proof -
  from assms have ok: "path_ok p" and abs: "\<not> is_absolute p" and up: "''..'' \<notin> set (path_parts p)"
    by (simp_all add: evidence_path_def)
  have "\<not> list_ex (\<lambda>part. part = [] \<or> part = ''.'' \<or> part = ''..'') (path_parts p)"
    using up path_okD [OF ok] by (auto simp: list_ex_iff keep_part_def)
  then show ?thesis using str_path_not_Nil [OF ok] ok abs by (simp add: parse_repository_path_def)
qed

definition printable_path :: "path \<Rightarrow> bool" where
  "printable_path p \<longleftrightarrow> evidence_path p \<and> nul \<notin> set (str_path p)"

lemma parse_index_line:
  assumes "index_entry_ok e"
  shows "parse_index_record (index_line e) = Inr e"
proof -
  from assms have ok: "object_id_ok (ie_object_id e)" "evidence_path (ie_path e)"
    and st: "0 \<le> ie_stage e" "ie_stage e \<le> 3" and tag: "ie_tag e \<in> set index_tags"
    and mode: "ie_mode e \<in> set allowed_index_modes" and stage: "ie_tag e = ''M'' \<longleftrightarrow> ie_stage e \<noteq> 0"
    by (simp_all add: index_entry_ok_def)
  have w: "plain_word (ie_tag e)" "plain_word (ie_mode e)" "plain_word (ie_object_id e)"
    "plain_word (str_of_int (ie_stage e))"
    using tag mode ok(1) st by (auto intro: tags_modes_plain object_id_plain dest: stage_text)
  let ?m = "ie_tag e @ '' '' @ ie_mode e @ '' '' @ ie_object_id e @ '' '' @ str_of_int (ie_stage e)"
  have line: "index_line e = ?m @ tab # str_path (ie_path e)" by (simp add: index_line_def)
  have "tab \<notin> set ?m" using w by (auto simp: plain_word_def tab_def)
  then have once: "split_once tab (index_line e) = Some (?m, str_path (ie_path e))"
    unfolding line by (rule split_once_append)
  have "split_on (CHR '' '') ?m = [ie_tag e, ie_mode e, ie_object_id e, str_of_int (ie_stage e)]"
    using w by (simp add: plain_word_def split_on_append split_on_free)
  then have "index_fields (index_line e)
      = Some (ie_tag e, ie_mode e, ie_object_id e, ie_stage e, str_path (ie_path e))"
    using once stage_text [OF st] by (simp add: index_fields_def)
  then show ?thesis
    using tag mode st stage ok parse_printed_path [OF ok(2)]
    by (simp add: parse_index_record_def validate_object_id_def)
qed

lemma parse_tree_line:
  assumes "tree_entry_ok e"
  shows "tree_fields (tree_line e)
    = Some (te_mode e, expected_type (te_mode e), te_object_id e, str_path (te_path e))"
proof -
  from assms have w: "plain_word (te_mode e)" "plain_word (te_object_id e)" "plain_word (expected_type (te_mode e))"
    by (auto simp: tree_entry_ok_def expected_type_def intro: tags_modes_plain object_id_plain)
  let ?m = "te_mode e @ '' '' @ expected_type (te_mode e) @ '' '' @ te_object_id e"
  have line: "tree_line e = ?m @ tab # str_path (te_path e)" by (simp add: tree_line_def)
  have "tab \<notin> set ?m" using w by (auto simp: plain_word_def tab_def)
  then have "split_once tab (tree_line e) = Some (?m, str_path (te_path e))"
    unfolding line by (rule split_once_append)
  moreover have "split_on (CHR '' '') ?m = [te_mode e, expected_type (te_mode e), te_object_id e]"
    using w by (simp add: plain_word_def split_on_append split_on_free)
  ultimately show ?thesis by (simp add: tree_fields_def)
qed

lemma parse_tree_lines:
  assumes "list_all tree_entry_ok es" and "distinct (map te_path es)" and "set (map te_path es) \<inter> set seen = {}"
  shows "parse_tree_records seen (map tree_line es) = Inr es"
  using assms
proof (induction es arbitrary: seen)
  case (Cons e es)
  then have ok: "te_mode e \<in> set allowed_index_modes" "object_id_ok (te_object_id e)" "evidence_path (te_path e)"
    and new: "te_path e \<notin> set seen" and e: "tree_entry_ok e"
    by (auto simp: tree_entry_ok_def)
  have "parse_tree_records (te_path e # seen) (map tree_line es) = Inr es"
    using Cons.prems by (intro Cons.IH) auto
  then show ?case using ok new parse_tree_line [OF e] parse_printed_path [OF ok(3)]
    by (simp add: validate_object_id_def)
qed simp

lemma index_line_clean: "index_entry_ok e \<Longrightarrow> printable_path (ie_path e) \<Longrightarrow> index_line e \<noteq> [] \<and> nul \<notin> set (index_line e)"
proof -
  assume e: "index_entry_ok e" and p: "printable_path (ie_path e)"
  then have "plain_word (ie_tag e)" "plain_word (ie_mode e)" "plain_word (ie_object_id e)"
    "plain_word (str_of_int (ie_stage e))"
    by (auto simp: index_entry_ok_def intro: tags_modes_plain object_id_plain dest: stage_text)
  with p show ?thesis by (auto simp: index_line_def plain_word_def printable_path_def nul_def tab_def)
qed

lemma tree_line_clean: "tree_entry_ok e \<Longrightarrow> printable_path (te_path e) \<Longrightarrow> tree_line e \<noteq> [] \<and> nul \<notin> set (tree_line e)"
proof -
  assume e: "tree_entry_ok e" and p: "printable_path (te_path e)"
  then have "plain_word (te_mode e)" "plain_word (te_object_id e)" "plain_word (expected_type (te_mode e))"
    by (auto simp: tree_entry_ok_def expected_type_def intro: tags_modes_plain object_id_plain)
  with p show ?thesis by (auto simp: tree_line_def plain_word_def printable_path_def nul_def tab_def)
qed

text \<open>
  C35. Nothing that Git prints for a regular repository is refused or misread: the listing of any
  index, of any HEAD tree and of any untracked files is read back entry by entry, whatever spaces,
  tabs or newlines the names contain.
\<close>

theorem git_listings_are_read_back:
  assumes "list_all (\<lambda>e. index_entry_ok e \<and> printable_path (ie_path e)) es"
    and "same_length (map ie_object_id es)"
    and "list_all (\<lambda>t. tree_entry_ok t \<and> printable_path (te_path t)) ts"
    and "same_length (map te_object_id ts)" and "distinct (map te_path ts)"
    and "list_all printable_path ps" and "distinct ps"
  shows "parse_index_entries (nul_terminated (map index_line es)) = Inr es
    \<and> parse_tree_entries (nul_terminated (map tree_line ts)) = Inr ts
    \<and> parse_nul_paths (nul_terminated (map str_path ps)) label = Inr ps"
proof (intro conjI)
  have ok: "list_all index_entry_ok es" "list_all object_id_ok (map ie_object_id es)"
    "list_all tree_entry_ok ts" "list_all object_id_ok (map te_object_id ts)"
    using assms by (auto simp: list_all_iff index_entry_ok_def tree_entry_ok_def)
  have "split_nul_records (nul_terminated (map index_line es)) ''index'' = Inr (map index_line es)"
    using assms(1) by (intro split_nul_terminated) (auto simp: list_all_iff dest: index_line_clean)
  moreover have "rmap parse_index_record (map index_line es) = Inr es"
    using ok(1) by (induction es) (simp_all add: parse_index_line)
  moreover have "require_consistent_object_format (map (\<lambda>e. length (ie_object_id e)) es) = Inr ()"
    using consistent_format_Inr [OF ok(2)] assms(2) by (simp add: comp_def)
  ultimately show "parse_index_entries (nul_terminated (map index_line es)) = Inr es"
    by (simp add: parse_index_entries_def)
  have "split_nul_records (nul_terminated (map tree_line ts)) ''HEAD tree'' = Inr (map tree_line ts)"
    using assms(3) by (intro split_nul_terminated) (auto simp: list_all_iff dest: tree_line_clean)
  moreover have "parse_tree_records [] (map tree_line ts) = Inr ts"
    using ok(3) assms(5) by (intro parse_tree_lines) auto
  moreover have "require_consistent_object_format (map (\<lambda>e. length (te_object_id e)) ts) = Inr ()"
    using consistent_format_Inr [OF ok(4)] assms(4) by (simp add: comp_def)
  ultimately show "parse_tree_entries (nul_terminated (map tree_line ts)) = Inr ts"
    by (simp add: parse_tree_entries_def)
  have "split_nul_records (nul_terminated (map str_path ps)) label = Inr (map str_path ps)"
    using assms(6) by (intro split_nul_terminated)
      (auto simp: list_all_iff printable_path_def evidence_path_def dest: str_path_not_Nil)
  moreover have "rmap (\<lambda>r. parse_repository_path r label) (map str_path ps) = Inr ps"
    using assms(6) by (induction ps) (simp_all add: parse_printed_path printable_path_def)
  ultimately show "parse_nul_paths (nul_terminated (map str_path ps)) label = Inr ps"
    using assms(7) by (simp add: parse_nul_paths_def)
qed

definition ex_object_id :: string where
  "ex_object_id = replicate 40 (CHR ''a'')"

lemma git_listings_are_read_back_witness:
  "let e = \<lparr>ie_tag = ''M'', ie_mode = ''100644'', ie_object_id = ex_object_id, ie_stage = 2, ie_path = Path [] [''a b'']\<rparr>;
       t = \<lparr>te_mode = ''160000'', te_object_id = ex_object_id, te_path = Path [] [''sub'']\<rparr>
   in parse_index_entries (nul_terminated (map index_line [e])) = Inr [e]
      \<and> parse_tree_entries (nul_terminated (map tree_line [t])) = Inr [t]
      \<and> parse_nul_paths (nul_terminated (map str_path [Path [] [''x'', ''y'']])) ''untracked'' = Inr [Path [] [''x'', ''y'']]"
proof -
  let ?e = "\<lparr>ie_tag = ''M'', ie_mode = ''100644'', ie_object_id = ex_object_id, ie_stage = 2, ie_path = Path [] [''a b'']\<rparr>"
  let ?t = "\<lparr>te_mode = ''160000'', te_object_id = ex_object_id, te_path = Path [] [''sub'']\<rparr>"
  have "list_all (\<lambda>e. index_entry_ok e \<and> printable_path (ie_path e)) [?e]"
    and "same_length (map ie_object_id [?e])" by code_simp+
  moreover have "list_all (\<lambda>t. tree_entry_ok t \<and> printable_path (te_path t)) [?t]"
    and "same_length (map te_object_id [?t])" and "distinct (map te_path [?t])" by code_simp+
  moreover have "list_all printable_path [Path [] [''x'', ''y'']]" and "distinct [Path [] [''x'', ''y'']]" by code_simp+
  ultimately show ?thesis unfolding Let_def by (rule git_listings_are_read_back)
qed

end
