(* ===== verification/Worktree.thy ===== *)
theory Worktree
  imports Leases Git_Evidence
begin

text \<open>
  The comparison of the index with the work tree in \<open>src/goalrouter/repository.py\<close>, from
  \<open>_collect_dirty_paths\<close> down to the system calls. Other processes may change the tree between
  any two calls: a \<open>tree_kernel\<close> says what the tree looks like at each moment, which call fails
  and when the owner of a worker thread is cancelled. The inspector itself only reads, so its
  state is the clock and the table of its open descriptors. A file is an inode number; the inode
  has the fields of \<open>os.stat\<close>, its bytes (for a symbolic link its target) and its entries.
\<close>

section \<open>Trees and calls\<close>

record stat_result =
  sr_device :: int
  sr_inode :: int
  sr_mode :: int
  sr_size :: int
  sr_mtime_ns :: int
  sr_ctime_ns :: int

record inode =
  in_stat :: stat_result
  in_data :: string
  in_entries :: "(string \<times> nat) list"

type_synonym tree = "nat \<Rightarrow> inode"

record tree_kernel =
  tk_tree :: "nat \<Rightarrow> tree"
  tk_fails :: "nat \<Rightarrow> os_error option"
  tk_wakes :: "nat \<Rightarrow> nat \<times> wake list"

record tree_os =
  to_time :: nat
  to_fds :: "(nat \<times> nat) list"

type_synonym 'a inspection = "(lock_exn, tree_os, 'a) io"

definition from_result :: "'a result \<Rightarrow> 'a inspection" where
  "from_result r = (\<lambda>w. (case r of Inl e \<Rightarrow> Inl (LockExn e) | Inr a \<Rightarrow> Inr a, w))"

definition os_failure :: "int \<Rightarrow> string \<Rightarrow> lock_exn" where
  "os_failure n text = LockOs \<lparr>oe_errno = OtherErrno n, oe_text = text\<rparr>"

definition bad_descriptor :: lock_exn where
  "bad_descriptor = LockOs \<lparr>oe_errno = EBADF, oe_text = ''[Errno 9] Bad file descriptor''\<rparr>"

definition no_such_file :: lock_exn where
  "no_such_file = os_failure 2 ''[Errno 2] No such file or directory''"

definition is_missing :: "lock_exn \<Rightarrow> bool" where
  "is_missing e \<longleftrightarrow> (case e of LockOs x \<Rightarrow> oe_errno x = OtherErrno 2 | _ \<Rightarrow> False)"

text \<open>\<open>_mode_type\<close>; the file type is in the bits above the lower twelve.\<close>

definition mode_type :: "int \<Rightarrow> string" where
  "mode_type mode =
     (let t = (mode div 4096) mod 16
      in if t = 8 then ''regular'' else if t = 4 then ''directory'' else if t = 10 then ''symlink''
         else if t = 1 then ''fifo'' else if t = 12 then ''socket'' else if t = 6 then ''block-device''
         else if t = 2 then ''character-device'' else ''unknown'')"

definition inode_type :: "inode \<Rightarrow> string" where
  "inode_type n = mode_type (sr_mode (in_stat n))"

text \<open>One system call: the tree at this moment, or the fault that the kernel decides.\<close>

definition look :: "tree_kernel \<Rightarrow> tree inspection" where
  "look k = (\<lambda>w. (case tk_fails k (to_time w) of Some e \<Rightarrow> Inl (LockOs e) | None \<Rightarrow> Inr (tk_tree k (to_time w)),
                  w\<lparr>to_time := Suc (to_time w)\<rparr>))"

definition with_fd :: "nat \<Rightarrow> (nat \<Rightarrow> 'a inspection) \<Rightarrow> 'a inspection" where
  "with_fd fd m = (\<lambda>w. case map_of (to_fds w) fd of None \<Rightarrow> (Inl bad_descriptor, w) | Some file \<Rightarrow> m file w)"

definition new_fd :: "nat \<Rightarrow> nat inspection" where
  "new_fd file = (\<lambda>w. (Inr (free_fd (to_fds w)), w\<lparr>to_fds := (free_fd (to_fds w), file) # to_fds w\<rparr>))"

definition find_entry :: "tree \<Rightarrow> nat \<Rightarrow> string \<Rightarrow> lock_exn + nat" where
  "find_entry t directory name =
     (if inode_type (t directory) \<noteq> ''directory'' then Inl (os_failure 20 ''[Errno 20] Not a directory'')
      else (case map_of (in_entries (t directory)) name of None \<Rightarrow> Inl no_such_file | Some file \<Rightarrow> Inr file))"

definition fd_dup :: "tree_kernel \<Rightarrow> nat \<Rightarrow> nat inspection" where
  "fd_dup k fd = with_fd fd (\<lambda>file. io_bind (look k) (\<lambda>_. new_fd file))"

definition fd_fstat :: "tree_kernel \<Rightarrow> nat \<Rightarrow> stat_result inspection" where
  "fd_fstat k fd = with_fd fd (\<lambda>file. io_bind (look k) (\<lambda>t. io_return (in_stat (t file))))"

text \<open>\<open>os.stat(name, dir_fd=fd, follow_symlinks=False)\<close> and \<open>os.readlink\<close>.\<close>

definition fd_stat_at :: "tree_kernel \<Rightarrow> nat \<Rightarrow> string \<Rightarrow> stat_result inspection" where
  "fd_stat_at k fd name = with_fd fd (\<lambda>directory. io_bind (look k) (\<lambda>t.
     io_bind (io_lift (find_entry t directory name)) (\<lambda>file. io_return (in_stat (t file)))))"

definition fd_readlink :: "tree_kernel \<Rightarrow> nat \<Rightarrow> string \<Rightarrow> string inspection" where
  "fd_readlink k fd name = with_fd fd (\<lambda>directory. io_bind (look k) (\<lambda>t.
     io_bind (io_lift (find_entry t directory name)) (\<lambda>file.
       if inode_type (t file) = ''symlink'' then io_return (in_data (t file))
       else io_raise (os_failure 22 ''[Errno 22] Invalid argument''))))"

text \<open>\<open>os.open\<close> with \<open>O_NOFOLLOW\<close>, and with \<open>O_DIRECTORY\<close> or \<open>O_NONBLOCK\<close>.\<close>

definition open_node :: "open_flag list \<Rightarrow> tree \<Rightarrow> nat \<Rightarrow> nat inspection" where
  "open_node flags t node =
     (if O_DIRECTORY \<in> set flags \<and> inode_type (t node) \<noteq> ''directory''
      then io_raise (os_failure 20 ''[Errno 20] Not a directory'')
      else if O_NOFOLLOW \<in> set flags \<and> inode_type (t node) = ''symlink''
      then io_raise (os_failure 40 ''[Errno 40] Too many levels of symbolic links'')
      else if inode_type (t node) = ''socket''
      then io_raise (os_failure 6 ''[Errno 6] No such device or address'')
      else new_fd node)"

definition fd_open_at :: "tree_kernel \<Rightarrow> nat \<Rightarrow> string \<Rightarrow> open_flag list \<Rightarrow> nat inspection" where
  "fd_open_at k fd name flags = with_fd fd (\<lambda>directory. io_bind (look k) (\<lambda>t.
     io_bind (io_lift (find_entry t directory name)) (open_node flags t)))"

text \<open>\<open>os.close\<close> gives the descriptor up even when it reports an error, as on Linux.\<close>

definition fd_close :: "tree_kernel \<Rightarrow> nat \<Rightarrow> unit inspection" where
  "fd_close k fd = with_fd fd (\<lambda>_. \<lambda>w. case look k w of (r, v) \<Rightarrow>
     (case r of Inl e \<Rightarrow> Inl e | Inr _ \<Rightarrow> Inr (), v\<lparr>to_fds := filter (\<lambda>(d, _). d \<noteq> fd) (to_fds v)\<rparr>))"

text \<open>\<open>_close_descriptors\<close>: from the last to the first, with the first error.\<close>

fun close_fds_in_order :: "tree_kernel \<Rightarrow> nat list \<Rightarrow> tree_os \<Rightarrow> lock_exn option \<times> tree_os" where
  "close_fds_in_order k [] w = (None, w)"
| "close_fds_in_order k (fd # fds) w =
     (case fd_close k fd w of (r, v) \<Rightarrow>
      case close_fds_in_order k fds v of (later, u) \<Rightarrow>
        ((case r of Inl e \<Rightarrow> Some e | Inr _ \<Rightarrow> later), u))"

definition close_fds :: "tree_kernel \<Rightarrow> nat list \<Rightarrow> tree_os \<Rightarrow> lock_exn option \<times> tree_os" where
  "close_fds k fds = close_fds_in_order k (rev fds)"

text \<open>\<open>_run_filesystem_operation\<close>: the operation always ends; a cancelled owner does not see its result.\<close>

definition run_filesystem_operation :: "tree_kernel \<Rightarrow> 'a inspection \<Rightarrow> 'a inspection" where
  "run_filesystem_operation k operation = (\<lambda>w.
     case tk_wakes k (to_time w) of (observed, wakes) \<Rightarrow>
       (case operation w of (r, v) \<Rightarrow>
          (let cancellations = wait_for_owned_task observed wakes
           in (if cancellations \<noteq> [] then Inl (prepare_cancellation cancellations) else r, v))))"

section \<open>Opening an entry\<close>

record file_fingerprint =
  fp_device :: int
  fp_inode :: int
  fp_mode :: int
  fp_size :: int
  fp_modified_ns :: int
  fp_changed_ns :: int

definition file_fingerprint_of :: "stat_result \<Rightarrow> file_fingerprint" where
  "file_fingerprint_of v =
     \<lparr>fp_device = sr_device v, fp_inode = sr_inode v, fp_mode = sr_mode v, fp_size = sr_size v,
      fp_modified_ns = sr_mtime_ns v, fp_changed_ns = sr_ctime_ns v\<rparr>"

record directory_guard =
  dg_parent_descriptor :: nat
  dg_name :: string
  dg_descriptor :: nat
  dg_fingerprint :: file_fingerprint

record opened_entry =
  ow_kind :: string
  ow_mode :: "string option"
  ow_descriptor :: "nat option"
  ow_fingerprint :: "file_fingerprint option"
  ow_symlink_content :: "string option"
  ow_leaf_parent_descriptor :: nat
  ow_leaf_name :: string
  ow_directory_guards :: "directory_guard list"
  ow_owned_descriptors :: "nat list"

text \<open>The local list \<open>descriptors\<close> beside the world.\<close>

type_synonym 'a entry_opening = "(lock_exn, nat list \<times> tree_os, 'a) io"

definition own_descriptor :: "nat \<Rightarrow> unit entry_opening" where
  "own_descriptor fd = (\<lambda>(fds, w). (Inr (), (fds @ [fd], w)))"

definition owned :: "nat list entry_opening" where
  "owned = (\<lambda>(fds, w). (Inr fds, (fds, w)))"

definition changed_path :: lock_exn where
  "changed_path = LockExn (RepositoryError ''Tracked worktree path changed during inspection'')"

definition opened_nonmatching_entry ::
  "nat \<Rightarrow> string \<Rightarrow> directory_guard list \<Rightarrow> nat list \<Rightarrow> file_fingerprint option \<Rightarrow> opened_entry" where
  "opened_nonmatching_entry parent name guards fds fp =
     \<lparr>ow_kind = ''mismatch'', ow_mode = None, ow_descriptor = None, ow_fingerprint = fp,
      ow_symlink_content = None, ow_leaf_parent_descriptor = parent, ow_leaf_name = name,
      ow_directory_guards = guards, ow_owned_descriptors = fds\<rparr>"

definition nonmatching ::
  "nat \<Rightarrow> string \<Rightarrow> directory_guard list \<Rightarrow> file_fingerprint option \<Rightarrow> opened_entry entry_opening" where
  "nonmatching parent name guards fp =
     io_bind owned (\<lambda>fds. io_return (opened_nonmatching_entry parent name guards fds fp))"

text \<open>\<open>os.stat\<close> where \<open>FileNotFoundError\<close> is caught.\<close>

definition stat_if_present :: "tree_kernel \<Rightarrow> nat \<Rightarrow> string \<Rightarrow> stat_result option inspection" where
  "stat_if_present k fd name =
     io_except (io_bind (fd_stat_at k fd name) (\<lambda>v. io_return (Some v)))
       (\<lambda>e. if is_missing e then io_return None else io_raise e)"

definition directory_flags_at :: "open_flag list" where
  "directory_flags_at = [O_RDONLY, O_DIRECTORY, O_CLOEXEC, O_NOFOLLOW]"

definition leaf_flags :: "open_flag list" where
  "leaf_flags = [O_RDONLY, O_NONBLOCK, O_CLOEXEC, O_NOFOLLOW]"

text \<open>The loop over \<open>path.parts[:-1]\<close>: an entry that cannot match, or the last directory.\<close>

fun descend :: "tree_kernel \<Rightarrow> nat \<Rightarrow> directory_guard list \<Rightarrow> string list \<Rightarrow>
    (opened_entry + nat \<times> directory_guard list) entry_opening" where
  "descend k current guards [] = io_return (Inr (current, guards))"
| "descend k current guards (part # parts) =
     io_bind (io_inner (stat_if_present k current part)) (\<lambda>found.
       case found of
         None \<Rightarrow> io_bind (nonmatching current part guards None) (\<lambda>o'. io_return (Inl o'))
       | Some before \<Rightarrow>
           if mode_type (sr_mode before) = ''symlink'' \<or> mode_type (sr_mode before) \<notin> {''directory'', ''regular''}
           then io_raise (LockExn (RepositoryError ''Unsafe tracked worktree path boundary''))
           else if mode_type (sr_mode before) = ''regular''
           then io_bind (nonmatching current part guards (Some (file_fingerprint_of before))) (\<lambda>o'. io_return (Inl o'))
           else
             io_bind (io_inner (fd_open_at k current part directory_flags_at)) (\<lambda>child.
             io_bind (own_descriptor child) (\<lambda>_.
             io_bind (io_inner (fd_fstat k child)) (\<lambda>v.
               if file_fingerprint_of v \<noteq> file_fingerprint_of before then io_raise changed_path
               else descend k child
                      (guards @ [\<lparr>dg_parent_descriptor = current, dg_name = part, dg_descriptor = child,
                                  dg_fingerprint = file_fingerprint_of v\<rparr>]) parts))))"

definition executable_mode :: "int \<Rightarrow> string" where
  "executable_mode mode = (if odd (mode div 64) then ''100755'' else ''100644'')"

definition open_symlink ::
  "tree_kernel \<Rightarrow> nat \<Rightarrow> string \<Rightarrow> directory_guard list \<Rightarrow> file_fingerprint \<Rightarrow> opened_entry entry_opening" where
  "open_symlink k current leaf_name guards fp =
     io_bind (io_inner (fd_readlink k current leaf_name)) (\<lambda>content.
     io_bind (io_inner (fd_stat_at k current leaf_name)) (\<lambda>after.
       if file_fingerprint_of after \<noteq> fp then io_raise changed_path
       else io_bind owned (\<lambda>fds.
         io_return \<lparr>ow_kind = ''matched'', ow_mode = Some symlink_index_mode, ow_descriptor = None,
           ow_fingerprint = Some fp, ow_symlink_content = Some content, ow_leaf_parent_descriptor = current,
           ow_leaf_name = leaf_name, ow_directory_guards = guards, ow_owned_descriptors = fds\<rparr>)))"

definition open_regular ::
  "tree_kernel \<Rightarrow> nat \<Rightarrow> string \<Rightarrow> directory_guard list \<Rightarrow> file_fingerprint \<Rightarrow> opened_entry entry_opening" where
  "open_regular k current leaf_name guards fp =
     io_bind (io_inner (fd_open_at k current leaf_name leaf_flags)) (\<lambda>leaf.
     io_bind (own_descriptor leaf) (\<lambda>_.
     io_bind (io_inner (fd_fstat k leaf)) (\<lambda>v.
       if file_fingerprint_of v \<noteq> fp then io_raise changed_path
       else io_bind owned (\<lambda>fds.
         io_return \<lparr>ow_kind = ''matched'', ow_mode = Some (executable_mode (sr_mode v)), ow_descriptor = Some leaf,
           ow_fingerprint = Some fp, ow_symlink_content = None, ow_leaf_parent_descriptor = current,
           ow_leaf_name = leaf_name, ow_directory_guards = guards, ow_owned_descriptors = fds\<rparr>))))"

definition open_leaf ::
  "tree_kernel \<Rightarrow> nat \<Rightarrow> string \<Rightarrow> directory_guard list \<Rightarrow> string \<Rightarrow> opened_entry entry_opening" where
  "open_leaf k current leaf_name guards expected_mode =
     io_bind (io_inner (stat_if_present k current leaf_name)) (\<lambda>found.
       case found of
         None \<Rightarrow> nonmatching current leaf_name guards None
       | Some before \<Rightarrow>
           (let leaf_type = mode_type (sr_mode before); fp = file_fingerprint_of before
            in if leaf_type \<in> {''fifo'', ''socket'', ''block-device'', ''character-device'', ''unknown''}
               then io_raise (LockExn (RepositoryError ''Unsafe tracked worktree entry type''))
               else if leaf_type = ''directory'' then nonmatching current leaf_name guards (Some fp)
               else if leaf_type = ''symlink''
               then (if expected_mode \<noteq> symlink_index_mode then nonmatching current leaf_name guards (Some fp)
                     else open_symlink k current leaf_name guards fp)
               else if expected_mode \<notin> set regular_index_modes
               then nonmatching current leaf_name guards (Some fp)
               else open_regular k current leaf_name guards fp))"

definition open_parts :: "tree_kernel \<Rightarrow> nat \<Rightarrow> string list \<Rightarrow> string \<Rightarrow> opened_entry entry_opening" where
  "open_parts k root parts expected_mode =
     io_bind (descend k root [] (butlast parts)) (\<lambda>r.
       case r of
         Inl o' \<Rightarrow> io_return o'
       | Inr (current, guards) \<Rightarrow>
           if parts = [] then io_raise (LockExn (PyIndexError ''tuple index out of range''))
           else open_leaf k current (last parts) guards expected_mode)"

definition open_worktree_entry :: "tree_kernel \<Rightarrow> nat \<Rightarrow> path \<Rightarrow> string \<Rightarrow> opened_entry inspection" where
  "open_worktree_entry k root p expected_mode =
     io_bind (fd_dup k root) (\<lambda>copy. \<lambda>w.
       case open_parts k copy (path_parts p) expected_mode ([copy], w) of
         (Inl e, (fds, v)) \<Rightarrow> (Inl e, snd (close_fds k fds v))
       | (Inr o', (fds, v)) \<Rightarrow> (Inr o', v))"

section \<open>Validation\<close>

definition changed :: "string \<Rightarrow> lock_exn" where
  "changed text = LockExn (PyOSError text)"

fun validate_guards :: "tree_kernel \<Rightarrow> directory_guard list \<Rightarrow> unit inspection" where
  "validate_guards k [] = io_return ()"
| "validate_guards k (g # gs) =
     io_bind (fd_fstat k (dg_descriptor g)) (\<lambda>v.
       if file_fingerprint_of v \<noteq> dg_fingerprint g then io_raise (changed ''tracked directory descriptor changed'')
       else io_bind (fd_stat_at k (dg_parent_descriptor g) (dg_name g)) (\<lambda>u.
         if file_fingerprint_of u \<noteq> dg_fingerprint g then io_raise (changed ''tracked directory entry changed'')
         else validate_guards k gs))"

definition validate_descriptor :: "tree_kernel \<Rightarrow> opened_entry \<Rightarrow> unit inspection" where
  "validate_descriptor k opened =
     (case ow_descriptor opened of
        None \<Rightarrow> io_return ()
      | Some fd \<Rightarrow>
          (case ow_fingerprint opened of
             None \<Rightarrow> io_raise (changed ''tracked file fingerprint missing'')
           | Some fp \<Rightarrow> io_bind (fd_fstat k fd) (\<lambda>v.
               if file_fingerprint_of v \<noteq> fp then io_raise (changed ''tracked file descriptor changed'')
               else io_return ())))"

definition validate_leaf :: "tree_kernel \<Rightarrow> opened_entry \<Rightarrow> unit inspection" where
  "validate_leaf k opened =
     io_bind (stat_if_present k (ow_leaf_parent_descriptor opened) (ow_leaf_name opened)) (\<lambda>found.
       case found of
         None \<Rightarrow> if ow_fingerprint opened = None then io_return ()
                 else io_raise (changed ''tracked worktree entry disappeared'')
       | Some v \<Rightarrow> if ow_fingerprint opened \<noteq> Some (file_fingerprint_of v)
                   then io_raise (changed ''tracked worktree entry changed'') else io_return ())"

definition validate_opened_worktree_entry :: "tree_kernel \<Rightarrow> opened_entry \<Rightarrow> unit inspection" where
  "validate_opened_worktree_entry k opened =
     io_bind (validate_guards k (ow_directory_guards opened)) (\<lambda>_.
     io_bind (validate_descriptor k opened) (\<lambda>_. validate_leaf k opened))"

section \<open>Comparing a batch\<close>

text \<open>
  The hash function of \<open>hashlib\<close> for each algorithm is a parameter; \<open>_new_object_digest\<close> refuses
  any other name. The descriptor hasher is \<open>BlobHasherProtocol\<close>.
\<close>

type_synonym digest = "string \<Rightarrow> string \<Rightarrow> string"
type_synonym hasher = "(nat \<times> int) list \<Rightarrow> string \<Rightarrow> string list inspection"

definition blob_text :: "string \<Rightarrow> string" where
  "blob_text content = ''blob '' @ str_of_int (int (length content)) @ [nul] @ content"

definition hash_git_blob :: "digest \<Rightarrow> string \<Rightarrow> string \<Rightarrow> string result" where
  "hash_git_blob hash algorithm content =
     (if algorithm \<in> {''sha1'', ''sha256''} then Inr (hash algorithm (blob_text content))
      else Inl (RepositoryError ''Git returned an unsupported object format''))"

type_synonym opened_list = "(index_entry \<times> opened_entry) list"

fun open_entries :: "tree_kernel \<Rightarrow> nat \<Rightarrow> index_entry list \<Rightarrow> (lock_exn, opened_list \<times> tree_os, unit) io" where
  "open_entries k root [] = io_return ()"
| "open_entries k root (e # es) =
     io_bind (io_inner (run_filesystem_operation k (open_worktree_entry k root (ie_path e) (ie_mode e)))) (\<lambda>opened.
     io_bind (\<lambda>(os, w). (Inr (), (os @ [(e, opened)], w))) (\<lambda>_. open_entries k root es))"

text \<open>The second loop: the dirty paths found so far and the regular entries to hash.\<close>

definition check_opened :: "tree_kernel \<Rightarrow> digest \<Rightarrow> string \<Rightarrow> index_entry \<Rightarrow> opened_entry \<Rightarrow>
    (path list \<times> opened_list) inspection" where
  "check_opened k hash algorithm e opened =
     (if ow_kind opened \<noteq> ''matched'' \<or> ow_mode opened \<noteq> Some (ie_mode e)
      then io_bind (run_filesystem_operation k (validate_opened_worktree_entry k opened)) (\<lambda>_.
             io_return ([ie_path e], []))
      else (case ow_symlink_content opened of
          Some content \<Rightarrow>
            io_bind (from_result (hash_git_blob hash algorithm content)) (\<lambda>object_id.
            io_bind (run_filesystem_operation k (validate_opened_worktree_entry k opened)) (\<lambda>_.
              io_return (if object_id \<noteq> ie_object_id e then [ie_path e] else [], [])))
        | None \<Rightarrow>
            if ow_descriptor opened = None \<or> ow_fingerprint opened = None
            then io_raise (LockExn (RepositoryError ''Tracked worktree descriptor is unavailable''))
            else io_return ([], [(e, opened)])))"

fun check_entries :: "tree_kernel \<Rightarrow> digest \<Rightarrow> string \<Rightarrow> opened_list \<Rightarrow> (path list \<times> opened_list) inspection" where
  "check_entries k hash algorithm [] = io_return ([], [])"
| "check_entries k hash algorithm ((e, opened) # os) =
     io_bind (check_opened k hash algorithm e opened) (\<lambda>(dirty, regular).
     io_bind (check_entries k hash algorithm os) (\<lambda>(dirty', regular').
       io_return (dirty @ dirty', regular @ regular')))"

fun compare_digests :: "tree_kernel \<Rightarrow> opened_list \<Rightarrow> string list \<Rightarrow> path list inspection" where
  "compare_digests k [] ds = io_return []"
| "compare_digests k ((e, opened) # os) ds =
     io_bind (run_filesystem_operation k (validate_opened_worktree_entry k opened)) (\<lambda>_.
     io_bind (compare_digests k os (tl ds)) (\<lambda>dirty.
       io_return (if hd ds \<noteq> ie_object_id e then ie_path e # dirty else dirty)))"

definition blob_requests :: "opened_list \<Rightarrow> (nat \<times> int) list" where
  "blob_requests os = map (\<lambda>(_, opened). (the (ow_descriptor opened), fp_size (the (ow_fingerprint opened)))) os"

definition check_batch :: "tree_kernel \<Rightarrow> digest \<Rightarrow> hasher \<Rightarrow> string \<Rightarrow> opened_list \<Rightarrow> path list inspection" where
  "check_batch k hash hasher algorithm os =
     io_bind (check_entries k hash algorithm os) (\<lambda>(dirty, regular).
       if regular = [] then io_return dirty
       else io_bind (hasher (blob_requests regular) algorithm) (\<lambda>digests.
         if length digests \<noteq> length regular
         then io_raise (LockExn (RepositoryError ''Tracked worktree hashing returned wrong batch size''))
         else io_bind (compare_digests k regular digests) (\<lambda>dirty'. io_return (dirty @ dirty'))))"

text \<open>The \<open>finally\<close> clause.\<close>

fun close_opened :: "tree_kernel \<Rightarrow> opened_list \<Rightarrow> tree_os \<Rightarrow> lock_exn option \<times> tree_os" where
  "close_opened k [] w = (None, w)"
| "close_opened k ((e, opened) # os) w =
     (case close_fds k (ow_owned_descriptors opened) w of (first, v) \<Rightarrow>
      case close_opened k os v of (later, u) \<Rightarrow> ((case first of Some x \<Rightarrow> Some x | None \<Rightarrow> later), u))"

definition compare_worktree_batch ::
  "tree_kernel \<Rightarrow> digest \<Rightarrow> hasher \<Rightarrow> string \<Rightarrow> nat \<Rightarrow> index_entry list \<Rightarrow> path list inspection" where
  "compare_worktree_batch k hash hasher algorithm root es = (\<lambda>w.
     case open_entries k root es ([], w) of (opening, (os, w1)) \<Rightarrow>
     case (case opening of Inl e \<Rightarrow> (Inl e, w1) | Inr _ \<Rightarrow> check_batch k hash hasher algorithm os w1) of (r, w2) \<Rightarrow>
     case close_opened k (rev os) w2 of (cleanup_error, w3) \<Rightarrow>
       (case r of
          Inl e \<Rightarrow> (Inl e, w3)
        | Inr dirty \<Rightarrow>
            (case cleanup_error of
               Some _ \<Rightarrow> (Inl (LockExn (RepositoryError ''Tracked worktree descriptor cleanup failed'')), w3)
             | None \<Rightarrow> (Inr dirty, w3))))"

section \<open>Dirty paths\<close>

definition candidates_of :: "index_entry list \<Rightarrow> path \<Rightarrow> index_entry list" where
  "candidates_of index p = filter (\<lambda>e. ie_path e = p) index"

text \<open>\<open>head_by_path.get(path)\<close>; a later entry for the same path wins.\<close>

definition head_entry_of :: "tree_entry list \<Rightarrow> path \<Rightarrow> tree_entry option" where
  "head_entry_of head p = map_of (rev (map (\<lambda>t. (te_path t, t)) head)) p"

text \<open>One round of the loop over the sorted paths: is it dirty, and what is to be compared.\<close>

definition classify_path ::
  "index_entry list \<Rightarrow> tree_entry list \<Rightarrow> path \<Rightarrow> (bool \<times> index_entry list) result" where
  "classify_path index head p =
     (let candidates = candidates_of index p; stages = map ie_stage candidates
      in if \<not> distinct stages \<or> (0 \<in> set stages \<and> length stages \<noteq> 1)
         then Inl (RepositoryError ''Git index returned conflicting stage evidence'')
         else (case candidates of
             [e] \<Rightarrow>
               if ie_stage e \<noteq> 0 then Inr (True, [])
               else Inr ((case head_entry_of head p of
                            None \<Rightarrow> True
                          | Some h \<Rightarrow> te_mode h \<noteq> ie_mode e \<or> te_object_id h \<noteq> ie_object_id e),
                         if ie_mode e = gitlink_index_mode \<or> ie_tag e = ''S'' then [] else [e])
           | _ \<Rightarrow> Inr (True, [])))"

definition sorted_paths :: "path list \<Rightarrow> path list" where
  "sorted_paths ps = sort_key str_path (remdups ps)"

definition classify_paths ::
  "index_entry list \<Rightarrow> tree_entry list \<Rightarrow> (path list \<times> index_entry list) result" where
  "classify_paths index head =
     (let ps = sorted_paths (map ie_path index @ map te_path head)
      in rbind (rmap (classify_path index head) ps) (\<lambda>cs.
           Inr (map fst (filter (\<lambda>(_, dirty, _). dirty) (zip ps cs)), concat (map snd cs))))"

definition blob_hash_batch_max :: nat where
  "blob_hash_batch_max = 64"

function compare_batches ::
  "tree_kernel \<Rightarrow> digest \<Rightarrow> hasher \<Rightarrow> string \<Rightarrow> nat \<Rightarrow> index_entry list \<Rightarrow> path list inspection" where
  "compare_batches k hash hasher algorithm root es =
     (if es = [] then io_return []
      else io_bind (compare_worktree_batch k hash hasher algorithm root (take blob_hash_batch_max es)) (\<lambda>dirty.
           io_bind (compare_batches k hash hasher algorithm root (drop blob_hash_batch_max es)) (\<lambda>dirty'.
             io_return (dirty @ dirty'))))"
  by pat_completeness auto

termination
  by (relation "measure (\<lambda>(k, hash, hasher, algorithm, root, es). length es)") (auto simp: blob_hash_batch_max_def)

declare compare_batches.simps [simp del]

definition object_algorithm :: "nat list \<Rightarrow> string" where
  "object_algorithm lengths = (if set lengths = {64} then ''sha256'' else ''sha1'')"

definition collect_dirty_paths ::
  "tree_kernel \<Rightarrow> digest \<Rightarrow> hasher \<Rightarrow> nat \<Rightarrow> index_entry list \<Rightarrow> tree_entry list \<Rightarrow> path list \<Rightarrow> path list inspection" where
  "collect_dirty_paths k hash hasher root index head untracked =
     (let lengths = map (\<lambda>e. length (ie_object_id e)) index @ map (\<lambda>t. length (te_object_id t)) head
      in io_bind (from_result (require_consistent_object_format lengths)) (\<lambda>_.
         io_bind (from_result (classify_paths index head)) (\<lambda>(dirty, worktree).
         io_bind (compare_batches k hash hasher (object_algorithm lengths) root worktree) (\<lambda>dirty'.
           io_return (sorted_paths (untracked @ dirty @ dirty'))))))"

end
