(* ===== verification/Processes.thy ===== *)
theory Processes
  imports Git_Evidence Leases
begin

text \<open>
  The child processes of \<open>src/goalrouter/repository.py\<close>: bounded capture of their output, the
  mapping of everything that can go wrong to the program's errors, and \<open>LocalCommandRunner\<close>.
  The operating system decides what a \<open>spawned\<close> process is and does, how killing and reaping it
  end and which cancellations arrive meanwhile. The error of a cleanup is only attached as a note.
\<close>

section \<open>Captured output\<close>

text \<open>The chunks that a stream delivers until it ends, or until reading it fails.\<close>

datatype stream_end = EndOfFile | ReadFailed

text \<open>\<open>_stop_and_reap_process\<close>: whether the process had ended, the kill and the two waits.\<close>

datatype kill_outcome = Killed | ProcessGone | KillFailed string

record reaping =
  rp_ended :: bool
  rp_kill :: kill_outcome
  rp_communication :: "nat \<times> wake list"
  rp_wait :: "nat \<times> wake list"
  rp_wait_error :: "string option"

definition stop_and_reap_process :: "reaping \<Rightarrow> string list \<times> string option" where
  "stop_and_reap_process r =
     (let kill_error = (if rp_ended r then None else (case rp_kill r of KillFailed m \<Rightarrow> Some m | _ \<Rightarrow> None));
          communication_cancellations = (case rp_communication r of (observed, wakes) \<Rightarrow> wait_for_owned_task observed wakes);
          reap_cancellations = (case rp_wait r of (observed, wakes) \<Rightarrow> wait_for_owned_task observed wakes)
      in (communication_cancellations @ reap_cancellations,
          case kill_error of Some m \<Rightarrow> Some m | None \<Rightarrow> rp_wait_error r))"

definition quiet_reaping :: reaping where
  "quiet_reaping = \<lparr>rp_ended = False, rp_kill = Killed, rp_communication = (0, []), rp_wait = (0, []), rp_wait_error = None\<rparr>"

record process_run =
  pr_pipes :: bool
  pr_stdout :: "string list \<times> stream_end"
  pr_stderr :: "string list \<times> stream_end"
  pr_returncode :: int
  pr_cancelled :: "string option"
  pr_reaping :: reaping

datatype spawned = NotStarted | Started process_run

datatype capture_error = OwnerCancelled string | OutputLimitExceeded | CaptureRepositoryError string | OtherCaptureError

definition git_output_limit_bytes :: int where
  "git_output_limit_bytes = 8 * 1024 * 1024"

fun read_bounded_stream :: "int \<Rightarrow> string \<Rightarrow> string list \<Rightarrow> stream_end \<Rightarrow> capture_error + string" where
  "read_bounded_stream limit acc [] EndOfFile = Inr acc"
| "read_bounded_stream limit acc [] ReadFailed = Inl OtherCaptureError"
| "read_bounded_stream limit acc (chunk # chunks) e =
     (if chunk = [] then Inr acc
      else if limit < int (length acc + length chunk) then Inl OutputLimitExceeded
      else read_bounded_stream limit (acc @ chunk) chunks e)"

definition read_stream :: "string list \<times> stream_end \<Rightarrow> capture_error + string" where
  "read_stream s = (case s of (chunks, e) \<Rightarrow> read_bounded_stream git_output_limit_bytes [] chunks e)"

text \<open>
  The task group raises the errors of both readers together, and \<open>_map_git_capture_error\<close> looks
  for the limit first.
\<close>

definition collect_process_output :: "process_run \<Rightarrow> capture_error + (string \<times> string)" where
  "collect_process_output p =
     (if \<not> pr_pipes p then Inl (CaptureRepositoryError ''Git subprocess capture pipes are unavailable'')
      else (case (read_stream (pr_stdout p), read_stream (pr_stderr p)) of
          (Inr out, Inr err) \<Rightarrow> Inr (out, err)
        | (Inl e, Inr _) \<Rightarrow> Inl e
        | (Inr _, Inl e) \<Rightarrow> Inl e
        | (Inl e, Inl e') \<Rightarrow> Inl (if e = OutputLimitExceeded then e else e')))"

text \<open>\<open>await asyncio.shield(communication)\<close>\<close>

definition communicate :: "process_run \<Rightarrow> capture_error + (string \<times> string)" where
  "communicate p =
     (case pr_cancelled p of Some m \<Rightarrow> Inl (OwnerCancelled m) | None \<Rightarrow> collect_process_output p)"

definition map_git_capture_error :: "capture_error \<Rightarrow> exn" where
  "map_git_capture_error e =
     (case e of
        OutputLimitExceeded \<Rightarrow> RepositoryError ''Repository Git inspection output exceeded safe limit''
      | CaptureRepositoryError m \<Rightarrow> RepositoryError m
      | _ \<Rightarrow> RepositoryError ''Cannot capture Git repository inspection output'')"

text \<open>The \<open>except BaseException\<close> clause of both runners; \<open>mapped\<close> is the error of the capture.\<close>

definition capture_failure :: "exn \<Rightarrow> capture_error \<Rightarrow> string list \<Rightarrow> exn" where
  "capture_failure mapped e cancellations =
     (case e of
        OwnerCancelled m \<Rightarrow> PyCancelledError m
      | _ \<Rightarrow> if cancellations \<noteq> [] then PyCancelledError (hd cancellations) else mapped)"

section \<open>Commands\<close>

text \<open>
  \<open>LocalCommandRunner.run_read_only\<close>; \<open>decode\<close> is UTF-8 with \<open>surrogateescape\<close>.
\<close>

definition run_read_only :: "(string \<Rightarrow> string) \<Rightarrow> string list \<Rightarrow> spawned \<Rightarrow> command_result result" where
  "run_read_only decode argv s =
     (case s of
        NotStarted \<Rightarrow> Inl (RepositoryError ''Cannot start Git repository inspection'')
      | Started p \<Rightarrow>
          (case communicate p of
             Inl e \<Rightarrow> Inl (capture_failure (map_git_capture_error e) e (fst (stop_and_reap_process (pr_reaping p))))
           | Inr (out, err) \<Rightarrow>
               Inr \<lparr>cr_argv = argv, cr_returncode = pr_returncode p, cr_stdout = decode out, cr_stderr = decode err\<rparr>))"

text \<open>\<open>_capture_git_command\<close> and \<open>_require_git_command\<close>: a \<open>RepositoryError\<close> is kept as a value.\<close>

definition capture_git_command :: "command_result result \<Rightarrow> command_result result result" where
  "capture_git_command r =
     (case r of
        Inr out \<Rightarrow> Inr (Inr out)
      | Inl (RepositoryError m) \<Rightarrow> Inr (Inl (RepositoryError m))
      | Inl e \<Rightarrow> Inl e)"

definition require_git_command :: "string \<Rightarrow> command_result result \<Rightarrow> command_result result" where
  "require_git_command label outcome =
     (case outcome of
        Inl _ \<Rightarrow> Inl (RepositoryError (''Git '' @ label @ '' inspection failed''))
      | Inr out \<Rightarrow>
          if cr_returncode out \<noteq> 0
          then Inl (RepositoryError (''Git '' @ label @ '' inspection failed (exit '' @ str_of_int (cr_returncode out) @ '')''))
          else Inr out)"

section \<open>Bounds\<close>

lemma read_bounded_length:
  "read_bounded_stream limit acc chunks e = Inr out \<Longrightarrow> int (length acc) \<le> limit \<Longrightarrow> int (length out) \<le> limit"
  by (induction limit acc chunks e rule: read_bounded_stream.induct) (auto split: if_splits)

lemma read_bounded_all:
  "read_bounded_stream limit acc chunks e = Inr out \<Longrightarrow> [] \<notin> set chunks \<Longrightarrow> e = EndOfFile \<and> out = acc @ concat chunks"
  by (induction limit acc chunks e rule: read_bounded_stream.induct) (auto split: if_splits)

lemma read_bounded_complete:
  "int (length acc + length (concat chunks)) \<le> limit \<Longrightarrow> [] \<notin> set chunks \<Longrightarrow>
     read_bounded_stream limit acc chunks EndOfFile = Inr (acc @ concat chunks)"
  by (induction chunks arbitrary: acc) auto

lemma read_bounded_exceeds:
  "limit < int (length acc + length (concat chunks)) \<Longrightarrow> int (length acc) \<le> limit \<Longrightarrow> [] \<notin> set chunks \<Longrightarrow>
     read_bounded_stream limit acc chunks e = Inl OutputLimitExceeded"
  by (induction chunks arbitrary: acc) auto

end
