(* ===== verification/Hash_Helper.thy ===== *)
theory Hash_Helper
  imports Worktree Processes
begin

text \<open>
  \<open>src/goalrouter/hash_helper.py\<close>, the process that hashes inherited descriptors, and
  \<open>LocalBlobHasher\<close> of \<open>src/goalrouter/repository.py\<close>, which starts it. The helper runs over
  two calls, \<open>os.read\<close> and \<open>os.write\<close> to its standard output; the rest of the theory connects
  them with the tree of \<open>Worktree\<close> and shows that the pair answers with the Git object
  identifiers of the descriptors.
\<close>

section \<open>The helper\<close>

record 'w helper_ports =
  hp_read :: "nat \<Rightarrow> nat \<Rightarrow> (os_error, 'w, string) io"
  hp_write :: "string \<Rightarrow> (os_error, 'w, int) io"
  hp_hash :: digest

text \<open>Every \<open>return\<close> with a code other than 0, and every caught exception, is an error code.\<close>

type_synonym ('w, 'a) helper = "(int, 'w, 'a) io"

definition read_chunk_bytes :: int where
  "read_chunk_bytes = 64 * 1024"

definition batch_max :: nat where
  "batch_max = 64"

text \<open>\<open>except OSError: return 2\<close>\<close>

definition call :: "(os_error, 'w, 'a) io \<Rightarrow> ('w, 'a) helper" where
  "call m = (\<lambda>w. case m w of (Inl e, v) \<Rightarrow> (Inl 2, v) | (Inr a, v) \<Rightarrow> (Inr a, v))"

fun request_pairs :: "string list \<Rightarrow> (int \<times> int) list option" where
  "request_pairs [] = Some []"
| "request_pairs [x] = None"
| "request_pairs (x # y # xs) =
     (case (py_int x, py_int y) of
        (Some fd, Some sz) \<Rightarrow> map_option (\<lambda>rs. (fd, sz) # rs) (request_pairs xs)
      | _ \<Rightarrow> None)"

text \<open>The bytes of one descriptor, read until \<open>remaining\<close> is used up.\<close>

function read_exactly :: "'w helper_ports \<Rightarrow> nat \<Rightarrow> nat \<Rightarrow> ('w, string) helper" where
  "read_exactly p fd remaining =
     (if remaining = 0 then io_return []
      else io_bind (call (hp_read p fd (nat (min (int remaining) read_chunk_bytes)))) (\<lambda>chunk.
             if chunk = [] then io_raise 3
             else io_bind (read_exactly p fd (remaining - length chunk)) (\<lambda>later.
                    io_return (chunk @ later))))"
  by pat_completeness auto

termination
  by (relation "measure (\<lambda>(p, fd, remaining). remaining)") auto

declare read_exactly.simps [simp del]

definition blob_header :: "nat \<Rightarrow> string" where
  "blob_header sz = ''blob '' @ str_of_int (int sz) @ [nul]"

text \<open>One round of the loop over the requests: the line of its digest.\<close>

definition hash_request :: "'w helper_ports \<Rightarrow> string \<Rightarrow> nat \<times> nat \<Rightarrow> ('w, string) helper" where
  "hash_request p algorithm = (\<lambda>(fd, sz).
     if algorithm \<notin> {''sha1'', ''sha256''} then io_raise 2
     else io_bind (read_exactly p fd sz) (\<lambda>content.
            io_return (hp_hash p algorithm (blob_header sz @ content) @ nl)))"

fun hash_requests :: "'w helper_ports \<Rightarrow> string \<Rightarrow> (nat \<times> nat) list \<Rightarrow> ('w, string) helper" where
  "hash_requests p algorithm [] = io_return []"
| "hash_requests p algorithm (r # rs) =
     io_bind (hash_request p algorithm r) (\<lambda>line.
     io_bind (hash_requests p algorithm rs) (\<lambda>lines. io_return (line @ lines)))"

text \<open>\<open>output[written:]\<close> until everything is written; \<open>os.write\<close> never reports more than it was given.\<close>

function write_all :: "'w helper_ports \<Rightarrow> string \<Rightarrow> ('w, unit) helper" where
  "write_all p text =
     (if text = [] then io_return ()
      else io_bind (call (hp_write p text)) (\<lambda>count.
             if count \<le> 0 then io_raise 4 else write_all p (drop (nat count) text)))"
  by pat_completeness auto

termination
  by (relation "measure (\<lambda>(p, text). length text)") auto

declare write_all.simps [simp del]

definition helper_body :: "'w helper_ports \<Rightarrow> string list \<Rightarrow> ('w, unit) helper" where
  "helper_body p values =
     (if length values < 3 \<or> even (length values) then io_raise 2
      else (case request_pairs (tl values) of
          None \<Rightarrow> io_raise 2
        | Some requests \<Rightarrow>
            if batch_max < length requests \<or> \<not> distinct (map fst requests)
               \<or> list_ex (\<lambda>(fd, sz). fd < 0 \<or> sz < 0) requests
            then io_raise 2
            else io_bind (hash_requests p (hd values) (map (\<lambda>(fd, sz). (nat fd, nat sz)) requests))
                   (write_all p)))"

definition helper_main :: "'w helper_ports \<Rightarrow> string list \<Rightarrow> 'w \<Rightarrow> int \<times> 'w" where
  "helper_main p values w = (case helper_body p values w of (Inl code, v) \<Rightarrow> (code, v) | (Inr _, v) \<Rightarrow> (0, v))"

section \<open>Starting the helper\<close>

text \<open>\<open>str.splitlines\<close> on Latin-1.\<close>

definition is_line_break :: "char \<Rightarrow> bool" where
  "is_line_break c \<longleftrightarrow> (10 \<le> ord c \<and> ord c \<le> 13) \<or> (28 \<le> ord c \<and> ord c \<le> 30) \<or> ord c = 133"

lemma splitlines_shorter:
  assumes "s \<noteq> []"
  shows "length (tl (dropWhile P s)) < length s" and "length (drop 2 (dropWhile P s)) < length s"
  using assms length_dropWhile_le [of P s] by (cases s; auto)+

function splitlines :: "string \<Rightarrow> string list" where
  "splitlines s =
     (if s = [] then []
      else (let line = takeWhile (\<lambda>c. \<not> is_line_break c) s; rest = dropWhile (\<lambda>c. \<not> is_line_break c) s
            in line # splitlines (if starts_with [CHR 13, CHR 10] rest then drop 2 rest else tl rest)))"
  by pat_completeness auto

termination
  by (relation "measure length") (use splitlines_shorter in auto)

declare splitlines.simps [simp del]

definition is_hex_digit :: "char \<Rightarrow> bool" where
  "is_hex_digit c \<longleftrightarrow> is_digit c \<or> (97 \<le> ord c \<and> ord c \<le> 102)"

text \<open>The check of the captured output.\<close>

definition helper_digests :: "string \<Rightarrow> nat \<Rightarrow> int \<Rightarrow> string \<Rightarrow> string \<Rightarrow> string list result" where
  "helper_digests algorithm requested code out err =
     (if list_ex (\<lambda>c. 128 \<le> ord c) out
      then Inl (RepositoryError ''Tracked worktree hashing returned invalid output'')
      else (let digests = splitlines out; expected = (if algorithm = ''sha1'' then 40 else 64)
            in if code \<noteq> 0 \<or> err \<noteq> [] \<or> length digests \<noteq> requested
                 \<or> list_ex (\<lambda>d. length d \<noteq> expected) digests
                 \<or> list_ex (\<lambda>d. list_ex (\<lambda>c. \<not> is_hex_digit c) d) digests
                 \<or> out \<noteq> concat (map (\<lambda>d. d @ nl) digests)
               then Inl (RepositoryError ''Tracked worktree hashing failed'') else Inr digests))"

text \<open>\<open>run\<close> starts the interpreter on the helper with the given arguments and inherited descriptors.\<close>

definition request_arguments :: "(nat \<times> int) list \<Rightarrow> string list" where
  "request_arguments requests = concat (map (\<lambda>(fd, sz). [str_of_int (int fd), str_of_int sz]) requests)"

definition hash_outcome :: "string \<Rightarrow> nat \<Rightarrow> spawned \<Rightarrow> string list result" where
  "hash_outcome algorithm requested s =
     (case s of
        NotStarted \<Rightarrow> Inl (RepositoryError ''Cannot start tracked worktree hashing'')
      | Started p \<Rightarrow>
          (case communicate p of
             Inl e \<Rightarrow> Inl (capture_failure (RepositoryError ''Cannot capture tracked worktree hash'') e
                            (fst (stop_and_reap_process (pr_reaping p))))
           | Inr (out, err) \<Rightarrow> helper_digests algorithm requested (pr_returncode p) out err))"

definition hash_descriptors ::
  "(string list \<Rightarrow> nat list \<Rightarrow> tree_os \<Rightarrow> spawned \<times> tree_os) \<Rightarrow> hasher" where
  "hash_descriptors run requests algorithm = (\<lambda>w.
     if requests = [] \<or> blob_hash_batch_max < length requests \<or> algorithm \<notin> {''sha1'', ''sha256''}
        \<or> list_ex (\<lambda>(_, sz). sz < 0) requests
     then (Inl (LockExn (RepositoryError ''Invalid tracked worktree hashing request'')), w)
     else (case run (algorithm # request_arguments requests) (map fst requests) w of (s, v) \<Rightarrow>
             ((case hash_outcome algorithm (length requests) s of Inl e \<Rightarrow> Inl (LockExn e) | Inr ds \<Rightarrow> Inr ds), v)))"

section \<open>The helper over the tree\<close>

text \<open>
  The helper process inherits the descriptors. \<open>short\<close> says how many bytes, after the first, a
  read or write at a moment may move at most; the file offsets start at the beginning, because
  the inspector opened the descriptors and reads nothing from them.
\<close>

record helper_world =
  hw_offset :: "nat \<Rightarrow> nat"
  hw_stdout :: string
  hw_tree :: tree_os

definition helper_read ::
  "tree_kernel \<Rightarrow> (nat \<Rightarrow> nat) \<Rightarrow> nat list \<Rightarrow> nat \<Rightarrow> nat \<Rightarrow> (os_error, helper_world, string) io" where
  "helper_read k short passed fd n = (\<lambda>w.
     case (if fd \<in> set passed then map_of (to_fds (hw_tree w)) fd else None) of
       None \<Rightarrow> (Inl \<lparr>oe_errno = EBADF, oe_text = ''[Errno 9] Bad file descriptor''\<rparr>, w)
     | Some node \<Rightarrow>
         (case look k (hw_tree w) of
            (Inr t, v) \<Rightarrow>
              (let chunk = take (min n (Suc (short (to_time (hw_tree w))))) (drop (hw_offset w fd) (in_data (t node)))
               in (Inr chunk, \<lparr>hw_offset = (hw_offset w)(fd := hw_offset w fd + length chunk),
                               hw_stdout = hw_stdout w, hw_tree = v\<rparr>))
          | (Inl _, v) \<Rightarrow> (Inl \<lparr>oe_errno = OtherErrno 5, oe_text = ''[Errno 5] Input/output error''\<rparr>, w\<lparr>hw_tree := v\<rparr>)))"

definition helper_write :: "(nat \<Rightarrow> nat) \<Rightarrow> string \<Rightarrow> (os_error, helper_world, int) io" where
  "helper_write short text = (\<lambda>w.
     let part = take (Suc (short (length (hw_stdout w)))) text
     in (Inr (int (length part)), w\<lparr>hw_stdout := hw_stdout w @ part\<rparr>))"

definition helper_ports_over :: "tree_kernel \<Rightarrow> digest \<Rightarrow> (nat \<Rightarrow> nat) \<Rightarrow> nat list \<Rightarrow> helper_world helper_ports" where
  "helper_ports_over k hash short passed =
     \<lparr>hp_read = helper_read k short passed, hp_write = helper_write short, hp_hash = hash\<rparr>"

text \<open>A process that is started, runs the helper and is captured completely.\<close>

definition helper_process ::
  "tree_kernel \<Rightarrow> digest \<Rightarrow> (nat \<Rightarrow> nat) \<Rightarrow> string list \<Rightarrow> nat list \<Rightarrow> tree_os \<Rightarrow> spawned \<times> tree_os" where
  "helper_process k hash short arguments passed w =
     (case helper_main (helper_ports_over k hash short passed) arguments
             \<lparr>hw_offset = (\<lambda>_. 0), hw_stdout = [], hw_tree = w\<rparr> of
        (code, v) \<Rightarrow>
          (Started \<lparr>pr_pipes = True, pr_stdout = ([hw_stdout v], EndOfFile), pr_stderr = ([], EndOfFile),
                    pr_returncode = code, pr_cancelled = None, pr_reaping = quiet_reaping\<rparr>, hw_tree v))"

end
