(* ===== verification/Worktree_Properties.thy ===== *)
theory Worktree_Properties
  imports Worktree
begin

text \<open>
  The comparison with the work tree: it leaves no descriptor open whatever the tree and the
  kernel do, as long as the owner is not cancelled, and for a tree that holds still it finds
  exactly the paths that differ.
\<close>

lemma io_bind_assoc: "io_bind (io_bind m f) g = io_bind m (\<lambda>a. io_bind (f a) g)"
  by (rule ext) (auto simp: io_bind_def split: prod.splits sum.splits)

section \<open>Open descriptors\<close>

text \<open>A step that leaves the table of open descriptors as it was.\<close>

definition keeps_fds :: "'a inspection \<Rightarrow> bool" where
  "keeps_fds m \<longleftrightarrow> (\<forall>w. to_fds (snd (m w)) = to_fds w)"

named_theorems keeps_intros

lemma keeps_fdsD: "keeps_fds m \<Longrightarrow> to_fds (snd (m w)) = to_fds w"
  by (simp add: keeps_fds_def)

lemma keeps_fds_return [keeps_intros]: "keeps_fds (io_return a)"
  and keeps_fds_raise [keeps_intros]: "keeps_fds (io_raise e)"
  and keeps_fds_lift [keeps_intros]: "keeps_fds (io_lift r)"
  and keeps_fds_look [keeps_intros]: "keeps_fds (look k)"
  and keeps_fds_from_result [keeps_intros]: "keeps_fds (from_result q)"
  by (simp_all add: keeps_fds_def look_def from_result_def)

lemma keeps_fds_bind [keeps_intros]:
  assumes "keeps_fds m" and "\<And>a. keeps_fds (f a)"
  shows "keeps_fds (io_bind m f)"
  unfolding keeps_fds_def
proof
  fix w
  show "to_fds (snd (io_bind m f w)) = to_fds w"
    using keeps_fdsD [OF assms(1), of w] keeps_fdsD [OF assms(2)]
    by (auto simp: io_bind_def split: prod.splits sum.splits)
qed

lemma keeps_fds_except [keeps_intros]:
  assumes "keeps_fds m" and "\<And>e. keeps_fds (h e)"
  shows "keeps_fds (io_except m h)"
  unfolding keeps_fds_def
proof
  fix w
  show "to_fds (snd (io_except m h w)) = to_fds w"
    using keeps_fdsD [OF assms(1), of w] keeps_fdsD [OF assms(2)]
    by (auto simp: io_except_def split: prod.splits sum.splits)
qed

lemma keeps_fds_with_fd [keeps_intros]: "(\<And>x. keeps_fds (f x)) \<Longrightarrow> keeps_fds (with_fd fd f)"
  by (auto simp: keeps_fds_def with_fd_def split: option.splits)

lemma keeps_fds_if [keeps_intros]: "keeps_fds m \<Longrightarrow> keeps_fds n \<Longrightarrow> keeps_fds (if b then m else n)"
  by simp

lemma keeps_fds_operation [keeps_intros]: "keeps_fds m \<Longrightarrow> keeps_fds (run_filesystem_operation k m)"
  by (auto simp: keeps_fds_def run_filesystem_operation_def Let_def split: prod.splits) (metis snd_conv)

lemma keeps_fds_calls [keeps_intros]:
  "keeps_fds (fd_fstat k fd)" "keeps_fds (fd_stat_at k fd name)" "keeps_fds (fd_readlink k fd name)"
  "keeps_fds (stat_if_present k fd name)"
  unfolding fd_fstat_def fd_stat_at_def fd_readlink_def stat_if_present_def
  by (intro keeps_intros)+

lemma keeps_fds_guards [keeps_intros]: "keeps_fds (validate_guards k gs)"
  by (induction gs) (simp_all only: validate_guards.simps, (intro keeps_intros | assumption)+)

lemma keeps_fds_validate [keeps_intros]: "keeps_fds (validate_opened_worktree_entry k opened)"
  unfolding validate_opened_worktree_entry_def validate_descriptor_def validate_leaf_def
  by (intro keeps_intros) (auto split: option.splits intro!: keeps_intros)

lemma keeps_fds_check_entries [keeps_intros]: "keeps_fds (check_entries k hash algorithm os)"
proof (induction os)
  case (Cons x os)
  obtain e opened where x: "x = (e, opened)" by fastforce
  have "keeps_fds (check_opened k hash algorithm e opened)"
    unfolding check_opened_def by (cases "ow_symlink_content opened") (simp_all only: option.case, (intro keeps_intros)+)
  then show ?case unfolding x check_entries.simps split_def by (intro keeps_intros Cons.IH)
qed (simp only: check_entries.simps keeps_fds_return)

lemma keeps_fds_compare_digests [keeps_intros]: "keeps_fds (compare_digests k os ds)"
proof (induction os arbitrary: ds)
  case (Cons x os)
  obtain e opened where x: "x = (e, opened)" by fastforce
  show ?case unfolding x compare_digests.simps by (intro keeps_intros Cons.IH)
qed (simp only: compare_digests.simps keeps_fds_return)

lemma keeps_fds_check_batch [keeps_intros]:
  assumes "\<And>requests. keeps_fds (hasher requests algorithm)"
  shows "keeps_fds (check_batch k hash hasher algorithm os)"
  unfolding check_batch_def split_def by (intro keeps_intros assms)

subsection \<open>Closing\<close>

definition without :: "nat set \<Rightarrow> (nat \<times> nat) list \<Rightarrow> (nat \<times> nat) list" where
  "without A fds = filter (\<lambda>(d, _). d \<notin> A) fds"

lemma without_empty [simp]: "without {} fds = fds"
  by (simp add: without_def)

lemma without_without [simp]: "without A (without B fds) = without (A \<union> B) fds"
  by (auto simp: without_def intro!: filter_cong)

lemma without_absent: "A \<inter> fst ` set fds = {} \<Longrightarrow> without A fds = fds"
  unfolding without_def filter_id_conv by force

lemma fd_close_fds: "to_fds (snd (fd_close k fd w)) = without {fd} (to_fds w)"
proof (cases "map_of (to_fds w) fd")
  case None
  then have "fd \<notin> fst ` set (to_fds w)" by (simp add: map_of_eq_None_iff)
  then have "without {fd} (to_fds w) = to_fds w" by (intro without_absent) simp
  then show ?thesis by (simp add: fd_close_def with_fd_def None)
next
  case (Some node)
  then show ?thesis
    by (auto simp: fd_close_def with_fd_def without_def look_def split: option.splits)
qed

lemma close_fds_in_order_fds: "to_fds (snd (close_fds_in_order k fds w)) = without (set fds) (to_fds w)"
proof (induction fds arbitrary: w)
  case (Cons fd fds)
  obtain r v where c: "fd_close k fd w = (r, v)" by fastforce
  obtain later u where l: "close_fds_in_order k fds v = (later, u)" by fastforce
  have "to_fds v = without {fd} (to_fds w)" using fd_close_fds [of k fd w] c by simp
  moreover have "to_fds u = without (set fds) (to_fds v)" using Cons.IH [of v] l by simp
  ultimately show ?case using c l by (simp add: Un_commute)
qed simp

lemma close_fds_fds: "to_fds (snd (close_fds k fds w)) = without (set fds) (to_fds w)"
  by (simp add: close_fds_def close_fds_in_order_fds)

definition owned_by :: "opened_list \<Rightarrow> nat set" where
  "owned_by os = (\<Union>(e, opened) \<in> set os. set (ow_owned_descriptors opened))"

lemma owned_by_simps [simp]:
  "owned_by [] = {}" "owned_by ((e, opened) # os) = set (ow_owned_descriptors opened) \<union> owned_by os"
  "owned_by (os @ os') = owned_by os \<union> owned_by os'" "owned_by (rev os) = owned_by os"
  by (auto simp: owned_by_def)

lemma close_opened_fds: "to_fds (snd (close_opened k os w)) = without (owned_by os) (to_fds w)"
proof (induction os arbitrary: w)
  case (Cons x os)
  obtain e opened where x: "x = (e, opened)" by fastforce
  obtain first v where c: "close_fds k (ow_owned_descriptors opened) w = (first, v)" by fastforce
  obtain later u where l: "close_opened k os v = (later, u)" by fastforce
  have "to_fds v = without (set (ow_owned_descriptors opened)) (to_fds w)"
    using close_fds_fds [of k "ow_owned_descriptors opened" w] c by simp
  then show ?case using Cons.IH [of v] c l by (simp add: x Un_commute)
qed simp

subsection \<open>Opening\<close>

text \<open>The descriptors of the list are new, and without them the table is the one before.\<close>

definition owns :: "(nat \<times> nat) list \<Rightarrow> nat list \<times> tree_os \<Rightarrow> bool" where
  "owns table s \<longleftrightarrow> without (set (fst s)) (to_fds (snd s)) = table \<and> set (fst s) \<inter> fst ` set table = {}
     \<and> distinct (fst s) \<and> set (fst s) \<subseteq> fst ` set (to_fds (snd s))"

lemma owns_same: "owns table (fds, w) \<Longrightarrow> to_fds v = to_fds w \<Longrightarrow> owns table (fds, v)"
  by (simp add: owns_def)

definition entry_opens :: "(nat \<times> nat) list \<Rightarrow> 'a entry_opening \<Rightarrow> ('a \<Rightarrow> nat list \<Rightarrow> bool) \<Rightarrow> bool" where
  "entry_opens table m Q \<longleftrightarrow> io_spec (owns table) m (\<lambda>a s. owns table s \<and> Q a (fst s)) (owns table)"

lemma entry_opens_return: "(\<And>fds. Q a fds) \<Longrightarrow> entry_opens table (io_return a) Q"
  and entry_opens_raise: "entry_opens table (io_raise e) Q"
  unfolding entry_opens_def by (auto intro: io_spec_return io_spec_raise)

lemma entry_opens_bind:
  assumes "entry_opens table m (\<lambda>_ _. True)" and "\<And>a. entry_opens table (f a) Q"
  shows "entry_opens table (io_bind m f) Q"
  unfolding entry_opens_def
  by (rule io_spec_bind [OF assms(1) [unfolded entry_opens_def]], rule io_spec_weaken [OF assms(2) [unfolded entry_opens_def]]) auto

lemma entry_opens_inner: "keeps_fds m \<Longrightarrow> entry_opens table (io_inner m) (\<lambda>_ _. True)"
  unfolding entry_opens_def
proof (rule io_specI)
  fix s a s' assume "keeps_fds m" and "owns table s" and "io_inner m s = (Inr a, s')"
  then show "owns table s' \<and> True"
    by (cases s; cases "m (snd s)") (use keeps_fdsD [of m "snd s"] in \<open>auto simp: io_inner_def intro: owns_same\<close>)
next
  fix s e s' assume "keeps_fds m" and "owns table s" and "io_inner m s = (Inl e, s')"
  then show "owns table s'"
    by (cases s; cases "m (snd s)") (use keeps_fdsD [of m "snd s"] in \<open>auto simp: io_inner_def intro: owns_same\<close>)
qed

lemma entry_opens_owned: "(\<And>fds. Q (f fds) fds) \<Longrightarrow> entry_opens table (io_bind owned (\<lambda>fds. io_return (f fds))) Q"
  unfolding entry_opens_def by (rule io_specI) (auto simp: owned_def io_bind_def)

lemma new_fd_fds: "new_fd file w = (r, v) \<Longrightarrow> r = Inr (free_fd (to_fds w)) \<and> to_fds v = (free_fd (to_fds w), file) # to_fds w"
  by (auto simp: new_fd_def)

lemma fd_open_at_cases:
  "fd_open_at k fd name flags w = (r, v) \<Longrightarrow>
     (\<exists>e. r = Inl e \<and> to_fds v = to_fds w)
     \<or> (\<exists>file. r = Inr (free_fd (to_fds w)) \<and> to_fds v = (free_fd (to_fds w), file) # to_fds w)"
  unfolding fd_open_at_def with_fd_def open_node_def
  by (cases "map_of (to_fds w) fd"; cases "tk_fails k (to_time w)";
      cases "find_entry (tk_tree k (to_time w)) (the (map_of (to_fds w) fd)) name")
    (auto simp: io_bind_def look_def new_fd_def split: if_splits, metis+)

lemma owns_new:
  assumes "owns table (fds, w)" and "to_fds v = (free_fd (to_fds w), file) # to_fds w"
  shows "owns table (fds @ [free_fd (to_fds w)], v)"
proof -
  let ?fd = "free_fd (to_fds w)"
  have new: "?fd \<notin> fst ` set (to_fds w)" by (rule free_fd_fresh)
  from assms(1) have t: "without (set fds) (to_fds w) = table" and d: "set fds \<inter> fst ` set table = {}"
    and own: "distinct fds" "set fds \<subseteq> fst ` set (to_fds w)"
    by (simp_all add: owns_def)
  have here: "distinct (fds @ [?fd])" "set (fds @ [?fd]) \<subseteq> fst ` set (to_fds v)"
    using own new assms(2) by auto
  have "fst ` set table \<subseteq> fst ` set (to_fds w)" using t by (auto simp: without_def)
  with new have "?fd \<notin> fst ` set table" by blast
  moreover have "without (set fds \<union> {?fd}) (to_fds v) = without (set fds) (without {?fd} (to_fds w))"
    by (auto simp: assms(2) without_def intro!: filter_cong)
  moreover have "without {?fd} (to_fds w) = to_fds w" using new by (intro without_absent) simp
  ultimately have "without (set (fds @ [?fd])) (to_fds v) = table" and "set (fds @ [?fd]) \<inter> fst ` set table = {}"
    using t d by (auto simp: Un_commute)
  with here show ?thesis by (simp only: owns_def fst_conv snd_conv simp_thms)
qed

lemma entry_opens_open:
  assumes "\<And>fd. entry_opens table (f fd) Q"
  shows "entry_opens table (io_bind (io_inner (fd_open_at k d name flags)) (\<lambda>fd. io_bind (own_descriptor fd) (\<lambda>_. f fd))) Q"
proof -
  have "entry_opens table (io_bind (io_inner (fd_open_at k d name flags))
          (\<lambda>fd. io_bind (own_descriptor fd) (\<lambda>_. io_return fd))) (\<lambda>_ _. True)"
    unfolding entry_opens_def
  proof (rule io_specI)
    fix s a s'
    assume o': "owns table s" and m: "io_bind (io_inner (fd_open_at k d name flags))
          (\<lambda>fd. io_bind (own_descriptor fd) (\<lambda>_. io_return fd)) s = (Inr a, s')"
    obtain fds w where s: "s = (fds, w)" by fastforce
    obtain r v where c: "fd_open_at k d name flags w = (r, v)" by fastforce
    with m s have "r = Inr a" "s' = (fds @ [a], v)"
      by (auto simp: io_bind_def io_inner_def own_descriptor_def split: sum.splits)
    with fd_open_at_cases [OF c] o' show "owns table s' \<and> True" unfolding s by (auto intro: owns_new)
  next
    fix s e s'
    assume o': "owns table s" and m: "io_bind (io_inner (fd_open_at k d name flags))
          (\<lambda>fd. io_bind (own_descriptor fd) (\<lambda>_. io_return fd)) s = (Inl e, s')"
    obtain fds w where s: "s = (fds, w)" by fastforce
    obtain r v where c: "fd_open_at k d name flags w = (r, v)" by fastforce
    with m s have "r = Inl e" "s' = (fds, v)"
      by (auto simp: io_bind_def io_inner_def own_descriptor_def split: sum.splits)
    with fd_open_at_cases [OF c] o' show "owns table s'" unfolding s by (auto simp: owns_def)
  qed
  from entry_opens_bind [OF this assms] show ?thesis
    by (simp only: io_bind_assoc io_bind_return)
qed


lemma entry_opens_nonmatching:
  "entry_opens table (nonmatching parent name guards fp) (\<lambda>o' fds. ow_owned_descriptors o' = fds)"
  unfolding nonmatching_def by (rule entry_opens_owned) (simp add: opened_nonmatching_entry_def)

lemma entry_opens_weaken: "entry_opens table m Q \<Longrightarrow> (\<And>a fds. Q a fds \<Longrightarrow> R a fds) \<Longrightarrow> entry_opens table m R"
  unfolding entry_opens_def by (erule io_spec_weaken) auto

lemma entry_opens_map:
  assumes "entry_opens table m Q" and "\<And>a fds. Q a fds \<Longrightarrow> R (f a) fds"
  shows "entry_opens table (io_bind m (\<lambda>a. io_return (f a))) R"
  unfolding entry_opens_def
  by (rule io_spec_bind [OF assms(1) [unfolded entry_opens_def]], rule io_spec_return) (auto dest: assms(2))

lemma entry_opens_descend:
  "entry_opens table (descend k current guards parts)
     (\<lambda>r fds. case r of Inl o' \<Rightarrow> ow_owned_descriptors o' = fds | Inr _ \<Rightarrow> True)"
proof (induction parts arbitrary: current guards)
  case (Cons part parts)
  show ?case
    unfolding descend.simps
  proof (rule entry_opens_bind [OF entry_opens_inner [OF keeps_fds_calls(4)]])
    fix found :: "stat_result option"
    show "entry_opens table (case found of
        None \<Rightarrow> io_bind (nonmatching current part guards None) (\<lambda>o'. io_return (Inl o'))
      | Some before \<Rightarrow>
          if mode_type (sr_mode before) = ''symlink'' \<or> mode_type (sr_mode before) \<notin> {''directory'', ''regular''}
          then io_raise (LockExn (RepositoryError ''Unsafe tracked worktree path boundary''))
          else if mode_type (sr_mode before) = ''regular''
          then io_bind (nonmatching current part guards (Some (file_fingerprint_of before))) (\<lambda>o'. io_return (Inl o'))
          else
            io_bind (io_inner (fd_open_at k current part directory_flags_at)) (\<lambda>child.
            io_bind (own_descriptor child) (\<lambda>_.
            io_bind (io_inner (fd_fstat k child)) (\<lambda>v.
              if file_fingerprint_of v \<noteq> file_fingerprint_of before then io_raise changed_path
              else descend k child
                     (guards @ [\<lparr>dg_parent_descriptor = current, dg_name = part, dg_descriptor = child,
                                 dg_fingerprint = file_fingerprint_of v\<rparr>]) parts))))
      (\<lambda>r fds. case r of Inl o' \<Rightarrow> ow_owned_descriptors o' = fds | Inr _ \<Rightarrow> True)"
    proof (cases found)
      case None
      show ?thesis unfolding None option.case
        by (rule entry_opens_map [OF entry_opens_nonmatching]) simp
    next
      case (Some before)
      have "entry_opens table (io_bind (nonmatching current part guards (Some (file_fingerprint_of before)))
          (\<lambda>o'. io_return (Inl o'))) (\<lambda>r fds. case r of Inl o' \<Rightarrow> ow_owned_descriptors o' = fds | Inr _ \<Rightarrow> True)"
        by (rule entry_opens_map [OF entry_opens_nonmatching]) simp
      then show ?thesis unfolding Some option.case
        by (auto intro!: entry_opens_raise entry_opens_open entry_opens_bind [OF entry_opens_inner [OF keeps_fds_calls(1)]] Cons.IH)
    qed
  qed
qed (unfold descend.simps, rule entry_opens_return, simp)

lemma entry_opens_leaf:
  "entry_opens table (open_leaf k current leaf_name guards expected_mode) (\<lambda>o' fds. ow_owned_descriptors o' = fds)"
proof -
  have "entry_opens table (open_symlink k current leaf_name guards fp) (\<lambda>o' fds. ow_owned_descriptors o' = fds)" for fp
    unfolding open_symlink_def
    by (intro entry_opens_bind [OF entry_opens_inner [OF keeps_fds_calls(3)]] entry_opens_bind [OF entry_opens_inner [OF keeps_fds_calls(2)]])
      (auto intro!: entry_opens_raise entry_opens_owned)
  moreover have "entry_opens table (open_regular k current leaf_name guards fp) (\<lambda>o' fds. ow_owned_descriptors o' = fds)" for fp
    unfolding open_regular_def
    by (intro entry_opens_open entry_opens_bind [OF entry_opens_inner [OF keeps_fds_calls(1)]])
      (auto intro!: entry_opens_raise entry_opens_owned)
  ultimately show ?thesis
    unfolding open_leaf_def
    by (intro entry_opens_bind [OF entry_opens_inner [OF keeps_fds_calls(4)]])
      (auto split: option.splits simp: Let_def intro: entry_opens_raise entry_opens_nonmatching)
qed

lemma entry_opens_parts:
  "entry_opens table (open_parts k root parts expected_mode) (\<lambda>o' fds. ow_owned_descriptors o' = fds)"
  unfolding entry_opens_def open_parts_def
proof (rule io_spec_bind [OF entry_opens_descend [unfolded entry_opens_def]])
  fix r :: "opened_entry + nat \<times> directory_guard list"
  show "io_spec (\<lambda>s. owns table s \<and> (case r of Inl o' \<Rightarrow> ow_owned_descriptors o' = fst s | Inr _ \<Rightarrow> True))
     (case r of Inl o' \<Rightarrow> io_return o'
      | Inr (current, guards) \<Rightarrow>
          if parts = [] then io_raise (LockExn (PyIndexError ''tuple index out of range''))
          else open_leaf k current (last parts) guards expected_mode)
     (\<lambda>o' s. owns table s \<and> ow_owned_descriptors o' = fst s) (owns table)"
    using entry_opens_leaf [unfolded entry_opens_def, of table k]
    by (cases r) (auto split: prod.splits intro!: io_spec_return io_spec_raise)
qed

text \<open>An entry that is returned owns exactly the descriptors that are new; a failure leaves none.\<close>

lemma fd_dup_cases:
  "fd_dup k fd w = (r, v) \<Longrightarrow>
     (\<exists>e. r = Inl e \<and> to_fds v = to_fds w)
     \<or> (\<exists>node. r = Inr (free_fd (to_fds w)) \<and> to_fds v = (free_fd (to_fds w), node) # to_fds w)"
  unfolding fd_dup_def with_fd_def
  by (cases "map_of (to_fds w) fd"; cases "tk_fails k (to_time w)")
    (auto simp: io_bind_def look_def new_fd_def)

lemma open_worktree_entry_fds:
  assumes "open_worktree_entry k root p mode w = (r, v)"
  shows "case r of Inl _ \<Rightarrow> to_fds v = to_fds w
    | Inr opened \<Rightarrow> without (set (ow_owned_descriptors opened)) (to_fds v) = to_fds w
        \<and> set (ow_owned_descriptors opened) \<inter> fst ` set (to_fds w) = {}
        \<and> distinct (ow_owned_descriptors opened)
        \<and> set (ow_owned_descriptors opened) \<subseteq> fst ` set (to_fds v)"
proof -
  obtain d u where d: "fd_dup k root w = (d, u)" by fastforce
  show ?thesis
  proof (cases d)
    case (Inl e)
    then show ?thesis using assms d fd_dup_cases [OF d] by (auto simp: open_worktree_entry_def io_bind_def)
  next
    case (Inr fd)
    then have u: "\<exists>node. to_fds u = (fd, node) # to_fds w" "fd = free_fd (to_fds w)"
      using fd_dup_cases [OF d] by auto
    have "owns (to_fds w) ([] @ [fd], u)"
      using u owns_new [of "to_fds w" "[]" w u] by (auto simp: owns_def)
    then have start: "owns (to_fds w) ([fd], u)" by simp
    obtain q fds x where run: "open_parts k fd (path_parts p) mode ([fd], u) = (q, (fds, x))"
      by (metis prod.exhaust)
    note spec = entry_opens_parts [of "to_fds w" k fd "path_parts p" mode, unfolded entry_opens_def]
    show ?thesis
    proof (cases q)
      case (Inl e)
      with run have "owns (to_fds w) (fds, x)" using io_spec_Inl [OF spec start] by blast
      then show ?thesis using assms d Inr run Inl close_fds_fds [of k fds x]
        by (auto simp: open_worktree_entry_def io_bind_def owns_def)
    next
      case (Inr opened)
      with run have "owns (to_fds w) (fds, x) \<and> ow_owned_descriptors opened = fds"
        using io_spec_Inr [OF spec start] by fastforce
      then show ?thesis using assms d \<open>d = Inr fd\<close> run Inr
        by (auto simp: open_worktree_entry_def io_bind_def owns_def)
    qed
  qed
qed

subsection \<open>A batch\<close>

text \<open>The owner is not cancelled while it waits for a worker thread.\<close>

definition undisturbed :: "tree_kernel \<Rightarrow> bool" where
  "undisturbed k \<longleftrightarrow> (\<forall>n. case tk_wakes k n of (observed, wakes) \<Rightarrow> wait_for_owned_task observed wakes = [])"

lemma undisturbed_operation: "undisturbed k \<Longrightarrow> run_filesystem_operation k m = m"
  by (rule ext) (auto simp: run_filesystem_operation_def undisturbed_def Let_def split: prod.splits)

lemma open_entries_fds:
  assumes "undisturbed k"
    and "without (owned_by os) (to_fds w) = table"
    and "open_entries k root es (os, w) = (r, (os', v))"
  shows "without (owned_by os') (to_fds v) = table"
  using assms(2,3)
proof (induction es arbitrary: os w)
  case (Cons e es)
  obtain q u where q: "open_worktree_entry k root (ie_path e) (ie_mode e) w = (q, u)" by fastforce
  note fds = open_worktree_entry_fds [OF q]
  show ?case
  proof (cases q)
    case (Inl x)
    with Cons.prems q fds show ?thesis
      by (auto simp: undisturbed_operation [OF assms(1)] io_bind_def io_inner_def)
  next
    case (Inr opened)
    with fds have "without (set (ow_owned_descriptors opened)) (to_fds u) = to_fds w" by simp
    then have "without (owned_by (os @ [(e, opened)])) (to_fds u) = without (owned_by os) (to_fds w)"
      using without_without [of "owned_by os" "set (ow_owned_descriptors opened)" "to_fds u"] by simp
    with Cons.prems(1) have step: "without (owned_by (os @ [(e, opened)])) (to_fds u) = table" by simp
    from Cons.prems(2) q Inr have "open_entries k root es (os @ [(e, opened)], u) = (r, (os', v))"
      by (simp add: undisturbed_operation [OF assms(1)] io_bind_def io_inner_def)
    from Cons.IH [OF step this] show ?thesis .
  qed
qed simp

text \<open>What the comparison needs of a hasher: it gives back the descriptors that it opens.\<close>

locale descriptor_keeper =
  fixes hasher :: hasher
  assumes keeps: "keeps_fds (hasher requests algorithm)"
begin

lemma batch_keeps:
  assumes "undisturbed k"
  shows "keeps_fds (compare_worktree_batch k hash hasher algorithm root es)"
  unfolding keeps_fds_def
proof
  fix w
  obtain started os w1 where o': "open_entries k root es ([], w) = (started, (os, w1))"
    by (metis prod.exhaust)
  have w1: "without (owned_by os) (to_fds w1) = to_fds w"
    using open_entries_fds [OF assms _ o'] by simp
  obtain r w2 where c: "(case started of Inl e \<Rightarrow> (Inl e, w1) | Inr _ \<Rightarrow> check_batch k hash hasher algorithm os w1) = (r, w2)"
    by fastforce
  have w2: "to_fds w2 = to_fds w1"
    using c keeps_fdsD [OF keeps_fds_check_batch [of hasher algorithm k hash os], OF keeps, of w1]
    by (cases started) auto
  obtain cleanup_error w3 where f: "close_opened k (rev os) w2 = (cleanup_error, w3)" by fastforce
  have "to_fds w3 = to_fds w"
    using close_opened_fds [of k "rev os" w2] f w1 w2 by simp
  then show "to_fds (snd (compare_worktree_batch k hash hasher algorithm root es w)) = to_fds w"
    using o' c f by (auto simp: compare_worktree_batch_def split: sum.splits option.splits)
qed

lemma batches_keep:
  assumes "undisturbed k"
  shows "keeps_fds (compare_batches k hash hasher algorithm root es)"
proof (induction "length es" arbitrary: es rule: less_induct)
  case less
  show ?case
  proof (cases "es = []")
    case True
    then show ?thesis by (subst compare_batches.simps) (simp only: True simp_thms if_True keeps_fds_return)
  next
    case False
    then have "keeps_fds (compare_batches k hash hasher algorithm root (drop blob_hash_batch_max es))"
      by (intro less) (simp add: blob_hash_batch_max_def)
    with False show ?thesis
      by (subst compare_batches.simps)
        (simp only: if_False, intro keeps_intros batch_keeps assms; assumption)
  qed
qed

lemma dirty_paths_keep:
  assumes "undisturbed k"
  shows "to_fds (snd (collect_dirty_paths k hash hasher root index head untracked w)) = to_fds w"
proof -
  have "keeps_fds (collect_dirty_paths k hash hasher root index head untracked)"
    unfolding collect_dirty_paths_def Let_def split_def by (intro keeps_intros batches_keep assms)
  then show ?thesis by (rule keeps_fdsD)
qed

end

end
