(* ===== verification/Hash_Properties.thy ===== *)
theory Hash_Properties
  imports Hash_Helper Worktree_Properties
begin

text \<open>
  The helper process as the hasher of the work tree comparison: it leaves the descriptors of the
  inspector open, and over a tree that holds still it answers every request with the identifier
  that Git gives the file.
\<close>

section \<open>The descriptors of the parent\<close>

definition same_fds :: "('e, helper_world, 'a) io \<Rightarrow> bool" where
  "same_fds m \<longleftrightarrow> (\<forall>w. to_fds (hw_tree (snd (m w))) = to_fds (hw_tree w))"

lemma same_fds_return: "same_fds (io_return a)"
  and same_fds_raise: "same_fds (io_raise e)"
  by (simp_all add: same_fds_def)

lemma same_fds_bind:
  assumes "same_fds m" and "\<And>a. same_fds (f a)"
  shows "same_fds (io_bind m f)"
  unfolding same_fds_def
proof
  fix w
  show "to_fds (hw_tree (snd (io_bind m f w))) = to_fds (hw_tree w)"
    using assms(1) [unfolded same_fds_def, rule_format, of w] assms(2) [unfolded same_fds_def, rule_format]
    by (auto simp: io_bind_def split: prod.splits sum.splits)
qed

lemma same_fds_call: "same_fds m \<Longrightarrow> same_fds (call m)"
  unfolding same_fds_def call_def by (auto split: prod.splits sum.splits) (metis snd_conv)+

lemma same_fds_read: "same_fds (helper_read k short passed fd n)"
  unfolding same_fds_def helper_read_def look_def by (auto simp: Let_def split: option.splits)

lemma same_fds_write: "same_fds (helper_write short text)"
  unfolding same_fds_def helper_write_def by (simp add: Let_def)

lemma same_fds_read_exactly: "same_fds (read_exactly (helper_ports_over k hash short passed) fd n)"
proof (induction n rule: less_induct)
  case (less n)
  have "same_fds (if chunk = [] then io_raise 3
          else io_bind (read_exactly (helper_ports_over k hash short passed) fd (n - length chunk))
                 (\<lambda>later. io_return (chunk @ later)))" if "n \<noteq> 0" for chunk
    using that less [of "n - length chunk"] by (auto intro!: same_fds_raise same_fds_bind same_fds_return)
  then show ?case
    by (subst read_exactly.simps)
      (auto simp: helper_ports_over_def intro!: same_fds_return same_fds_bind same_fds_call same_fds_read)
qed

lemma same_fds_write_all: "same_fds (write_all (helper_ports_over k hash short passed) s)"
proof (induction "length s" arbitrary: s rule: less_induct)
  case less
  have "same_fds (if count \<le> 0 then io_raise 4
          else write_all (helper_ports_over k hash short passed) (drop (nat count) s))" if "s \<noteq> []" for count
    using that less [of "drop (nat count) s"] by (auto intro!: same_fds_raise)
  then show ?case
    by (subst write_all.simps)
      (auto simp: helper_ports_over_def intro!: same_fds_return same_fds_bind same_fds_call same_fds_write)
qed

lemma same_fds_requests: "same_fds (hash_requests (helper_ports_over k hash short passed) algorithm rs)"
proof (induction rs)
  case (Cons r rs)
  have "same_fds (hash_request (helper_ports_over k hash short passed) algorithm r)"
    unfolding hash_request_def split_def
    by (auto intro!: same_fds_raise same_fds_bind same_fds_read_exactly same_fds_return)
  then show ?case unfolding hash_requests.simps by (intro same_fds_bind same_fds_return Cons.IH)
qed (simp only: hash_requests.simps same_fds_return)

lemma same_fds_body: "same_fds (helper_body (helper_ports_over k hash short passed) values)"
  unfolding helper_body_def
  by (auto split: option.splits intro!: same_fds_raise same_fds_bind same_fds_requests same_fds_write_all)

lemma helper_process_fds: "to_fds (snd (helper_process k hash short arguments passed w)) = to_fds w"
  using same_fds_body [unfolded same_fds_def, rule_format, of k hash short passed arguments
      "\<lparr>hw_offset = (\<lambda>_. 0), hw_stdout = [], hw_tree = w\<rparr>"]
  by (auto simp: helper_process_def helper_main_def split: prod.splits sum.splits)

lemma hash_descriptors_keeps: "keeps_fds (hash_descriptors (helper_process k hash short) requests algorithm)"
  unfolding keeps_fds_def hash_descriptors_def
  using helper_process_fds by (auto split: prod.splits) (metis snd_conv)+

interpretation helper: descriptor_keeper "hash_descriptors (helper_process k hash short)"
  by unfold_locales (rule hash_descriptors_keeps)

text \<open>
  Comparing a repository with its work tree leaves the table of open descriptors exactly as it
  was, whatever other processes do to the tree, whichever system calls fail and whether the
  comparison returns or raises, as long as the inspector is not cancelled while a worker runs.
\<close>

theorem worktree_leaves_no_descriptor_open:
  assumes "undisturbed k"
  shows "to_fds (snd (collect_dirty_paths k hash (hash_descriptors (helper_process k hash short))
           root index head untracked w)) = to_fds w"
  using assms by (rule helper.dirty_paths_keep)

section \<open>Reading and writing\<close>

text \<open>The kernel of a tree that holds still, without faults and cancellations.\<close>

definition still :: "tree \<Rightarrow> tree_kernel" where
  "still t = \<lparr>tk_tree = (\<lambda>_. t), tk_fails = (\<lambda>_. None), tk_wakes = (\<lambda>_. (0, []))\<rparr>"

lemma still_undisturbed: "undisturbed (still t)"
  by (simp add: undisturbed_def still_def)

lemma look_still: "look (still t) w = (Inr t, w\<lparr>to_time := Suc (to_time w)\<rparr>)"
  by (simp add: look_def still_def)

abbreviation still_ports :: "tree \<Rightarrow> digest \<Rightarrow> (nat \<Rightarrow> nat) \<Rightarrow> nat list \<Rightarrow> helper_world helper_ports" where
  "still_ports t hash short passed \<equiv> helper_ports_over (still t) hash short passed"

lemma read_still:
  assumes "fd \<in> set passed" and "map_of (to_fds (hw_tree w)) fd = Some node"
    and "n \<noteq> 0" and "hw_offset w fd + n \<le> length (in_data (t node))"
  obtains m v where "0 < m" and "m \<le> n" and "int m \<le> read_chunk_bytes"
    and "call (hp_read (still_ports t hash short passed) fd (nat (min (int n) read_chunk_bytes))) w
      = (Inr (take m (drop (hw_offset w fd) (in_data (t node)))), v)"
    and "hw_offset v = (hw_offset w)(fd := hw_offset w fd + m)"
    and "hw_stdout v = hw_stdout w" and "to_fds (hw_tree v) = to_fds (hw_tree w)"
proof -
  let ?m = "min (nat (min (int n) read_chunk_bytes)) (Suc (short (to_time (hw_tree w))))"
  let ?chunk = "take ?m (drop (hw_offset w fd) (in_data (t node)))"
  have part: "?m \<le> n" "int ?m \<le> read_chunk_bytes" by (simp_all add: read_chunk_bytes_def min_def nat_le_iff)
  with assms(4) have len: "length ?chunk = ?m" by (simp only: length_take length_drop) linarith
  let ?v = "\<lparr>hw_offset = (hw_offset w)(fd := hw_offset w fd + ?m), hw_stdout = hw_stdout w,
             hw_tree = (hw_tree w)\<lparr>to_time := Suc (to_time (hw_tree w))\<rparr>\<rparr>"
  have "call (hp_read (still_ports t hash short passed) fd (nat (min (int n) read_chunk_bytes))) w = (Inr ?chunk, ?v)"
    using assms(1,2) len by (simp add: call_def helper_ports_over_def helper_read_def look_still Let_def)
  moreover have "0 < ?m" using assms(3) by (simp add: read_chunk_bytes_def)
  ultimately show ?thesis using part by (intro that [of ?m ?v]) simp_all
qed

lemma read_exactly_still:
  assumes "fd \<in> set passed" and "map_of (to_fds (hw_tree w)) fd = Some node"
    and "hw_offset w fd + n \<le> length (in_data (t node))"
  shows "\<exists>v. read_exactly (still_ports t hash short passed) fd n w
      = (Inr (take n (drop (hw_offset w fd) (in_data (t node)))), v)
    \<and> hw_offset v = (hw_offset w)(fd := hw_offset w fd + n)
    \<and> hw_stdout v = hw_stdout w \<and> to_fds (hw_tree v) = to_fds (hw_tree w)"
  using assms(2,3)
proof (induction n arbitrary: w rule: less_induct)
  case (less n)
  let ?data = "in_data (t node)"
  show ?case
  proof (cases "n = 0")
    case True
    then show ?thesis by (subst read_exactly.simps) simp
  next
    case False
    from read_still [of fd passed w node n t hash short, OF assms(1) less.prems(1) False less.prems(2)] obtain m v where m: "0 < m" "m \<le> n"
      and r: "call (hp_read (still_ports t hash short passed) fd (nat (min (int n) read_chunk_bytes))) w
        = (Inr (take m (drop (hw_offset w fd) ?data)), v)"
      and v: "hw_offset v = (hw_offset w)(fd := hw_offset w fd + m)"
        "hw_stdout v = hw_stdout w" "to_fds (hw_tree v) = to_fds (hw_tree w)"
      by blast
    have len: "length (take m (drop (hw_offset w fd) ?data)) = m" using less.prems(2) m by simp
    have "\<exists>u. read_exactly (still_ports t hash short passed) fd (n - m) v
        = (Inr (take (n - m) (drop (hw_offset v fd) ?data)), u)
      \<and> hw_offset u = (hw_offset v)(fd := hw_offset v fd + (n - m))
      \<and> hw_stdout u = hw_stdout v \<and> to_fds (hw_tree u) = to_fds (hw_tree v)"
      using m less.prems v by (intro less.IH) auto
    then obtain u where u: "read_exactly (still_ports t hash short passed) fd (n - m) v
        = (Inr (take (n - m) (drop (hw_offset w fd + m) ?data)), u)"
      "hw_offset u = (hw_offset w)(fd := hw_offset w fd + n)"
      "hw_stdout u = hw_stdout w" "to_fds (hw_tree u) = to_fds (hw_tree w)"
      using v m by auto
    have "take m (drop (hw_offset w fd) ?data) @ take (n - m) (drop (hw_offset w fd + m) ?data)
        = take n (drop (hw_offset w fd) ?data)"
      using m take_add [of m "n - m" "drop (hw_offset w fd) ?data"] by (simp add: add.commute)
    moreover have "take m (drop (hw_offset w fd) ?data) \<noteq> []" using len m(1) by auto
    ultimately have "read_exactly (still_ports t hash short passed) fd n w
        = (Inr (take n (drop (hw_offset w fd) ?data)), u)"
      using False r u(1) len by (subst read_exactly.simps) (simp add: io_bind_def)
    with u show ?thesis by blast
  qed
qed

lemma write_all_still:
  "\<exists>v. write_all (still_ports t hash short passed) s w = (Inr (), v)
     \<and> hw_stdout v = hw_stdout w @ s \<and> to_fds (hw_tree v) = to_fds (hw_tree w)"
proof (induction "length s" arbitrary: s w rule: less_induct)
  case less
  show ?case
  proof (cases "s = []")
    case True
    then show ?thesis by (subst write_all.simps) simp
  next
    case False
    let ?n = "Suc (short (length (hw_stdout w)))"
    let ?part = "take ?n s"
    let ?v = "w\<lparr>hw_stdout := hw_stdout w @ ?part\<rparr>"
    have c: "call (hp_write (still_ports t hash short passed) s) w = (Inr (int (length ?part)), ?v)"
      by (simp add: call_def helper_ports_over_def helper_write_def Let_def)
    have pos: "\<not> int (length ?part) \<le> 0" using False by simp
    have d: "drop (nat (int (length ?part))) s = drop ?n s" by (simp add: min_def)
    from False have "length (drop ?n s) < length s" by simp
    from less [OF this, of ?v] obtain u where u: "write_all (still_ports t hash short passed) (drop ?n s) ?v = (Inr (), u)"
      "hw_stdout u = hw_stdout w @ s" "to_fds (hw_tree u) = to_fds (hw_tree w)"
      by auto
    have "write_all (still_ports t hash short passed) s w = (Inr (), u)"
      using False c pos u(1) unfolding write_all.simps [of _ s]
      by (simp only: if_False io_bind_def prod.case sum.case d)
    with u show ?thesis by blast
  qed
qed

section \<open>Digests\<close>

definition digest_line :: "tree \<Rightarrow> digest \<Rightarrow> string \<Rightarrow> nat \<Rightarrow> string" where
  "digest_line t hash algorithm node = hash algorithm (blob_text (in_data (t node))) @ nl"

text \<open>Every requested descriptor is inherited, open, unread and of the given length.\<close>

definition readable :: "tree \<Rightarrow> nat list \<Rightarrow> helper_world \<Rightarrow> nat \<times> nat \<Rightarrow> bool" where
  "readable t passed w = (\<lambda>(fd, sz). fd \<in> set passed \<and> hw_offset w fd = 0
     \<and> (\<exists>node. map_of (to_fds (hw_tree w)) fd = Some node \<and> sz = length (in_data (t node))))"

definition node_of :: "helper_world \<Rightarrow> nat \<Rightarrow> nat" where
  "node_of w fd = the (map_of (to_fds (hw_tree w)) fd)"

lemma hash_request_still:
  assumes "algorithm \<in> {''sha1'', ''sha256''}" and "readable t passed w (fd, sz)"
  shows "\<exists>v. hash_request (still_ports t hash short passed) algorithm (fd, sz) w
      = (Inr (digest_line t hash algorithm (node_of w fd)), v)
    \<and> hw_offset v = (hw_offset w)(fd := sz) \<and> hw_stdout v = hw_stdout w
    \<and> to_fds (hw_tree v) = to_fds (hw_tree w)"
proof -
  from assms(2) obtain node where node: "fd \<in> set passed" "hw_offset w fd = 0"
    "map_of (to_fds (hw_tree w)) fd = Some node" "sz = length (in_data (t node))"
    by (auto simp: readable_def)
  from read_exactly_still [of fd passed w node sz t hash short] node
  obtain v where v: "read_exactly (still_ports t hash short passed) fd sz w = (Inr (in_data (t node)), v)"
    "hw_offset v = (hw_offset w)(fd := sz)" "hw_stdout v = hw_stdout w"
    "to_fds (hw_tree v) = to_fds (hw_tree w)"
    by auto
  have "hash_request (still_ports t hash short passed) algorithm (fd, sz) w
      = (Inr (digest_line t hash algorithm (node_of w fd)), v)"
    using assms(1) v(1) node
    by (auto simp: hash_request_def io_bind_def digest_line_def node_of_def blob_header_def blob_text_def
        helper_ports_over_def)
  with v show ?thesis by blast
qed

lemma hash_requests_still:
  assumes "algorithm \<in> {''sha1'', ''sha256''}" and "list_all (readable t passed w) rs" and "distinct (map fst rs)"
  shows "\<exists>v. hash_requests (still_ports t hash short passed) algorithm rs w
      = (Inr (concat (map (\<lambda>(fd, _). digest_line t hash algorithm (node_of w fd)) rs)), v)
    \<and> hw_stdout v = hw_stdout w \<and> to_fds (hw_tree v) = to_fds (hw_tree w)"
  using assms(2,3)
proof (induction rs arbitrary: w)
  case (Cons r rs)
  obtain fd sz where r: "r = (fd, sz)" by fastforce
  from Cons.prems have "readable t passed w (fd, sz)" by (simp add: r)
  from hash_request_still [OF assms(1) this, of hash short] obtain v where
    v: "hash_request (still_ports t hash short passed) algorithm (fd, sz) w
      = (Inr (digest_line t hash algorithm (node_of w fd)), v)"
    "hw_offset v = (hw_offset w)(fd := sz)" "hw_stdout v = hw_stdout w"
    "to_fds (hw_tree v) = to_fds (hw_tree w)" by blast
  have same: "node_of v = node_of w" using v(4) by (simp add: node_of_def [abs_def])
  have "list_all (readable t passed v) rs"
    unfolding list_all_iff
  proof
    fix x assume x: "x \<in> set rs"
    then have "readable t passed w x" and "fst x \<noteq> fd" using Cons.prems by (force simp: r list_all_iff)+
    then show "readable t passed v x" using v(2,4) by (auto simp: readable_def split: prod.splits)
  qed
  with Cons.IH [of v] Cons.prems obtain u where
    "hash_requests (still_ports t hash short passed) algorithm rs v
      = (Inr (concat (map (\<lambda>(fd, _). digest_line t hash algorithm (node_of w fd)) rs)), u)"
    "hw_stdout u = hw_stdout v" "to_fds (hw_tree u) = to_fds (hw_tree v)"
    unfolding same by auto
  with v show ?case by (auto simp: r io_bind_def)
qed simp

lemma int_strip_digits: "list_all is_digit s \<Longrightarrow> int_strip s = s"
proof -
  assume "list_all is_digit s"
  then have "\<not> is_int_space c" if "c \<in> set s" for c
    using that by (auto simp: list_all_iff is_digit_def is_int_space_def)
  then have plain: "\<And>c. c \<in> set s \<Longrightarrow> \<not> is_int_space c" by simp
  have "dropWhile is_int_space s = s" using plain by (cases s) auto
  moreover have "dropWhile is_int_space (rev s) = rev s" using plain by (cases s rule: rev_cases) auto
  ultimately show ?thesis by (simp add: int_strip_def)
qed

lemma py_int_digits:
  assumes "length (digits_of n) \<le> int_max_str_digits"
  shows "py_int (str_of_int (int n)) = Some (int n)"
proof -
  have d: "list_all is_digit (digits_of n)" and ne: "digits_of n \<noteq> []" by simp_all
  then have "is_digit (hd (digits_of n))" by (cases "digits_of n") auto
  then have "\<not> starts_with ''-'' (digits_of n) \<and> \<not> starts_with ''+'' (digits_of n)"
    using ne by (cases "digits_of n") (auto simp: starts_with_def is_digit_def)
  then have sign: "int_sign (digits_of n) = (1, digits_of n)" by (simp add: int_sign_def)
  have "CHR ''_'' \<notin> set (digits_of n)" using d by (auto simp: list_all_iff is_digit_def)
  then have "split_on (CHR ''_'') (digits_of n) = [digits_of n]" by (rule split_on_free)
  with d ne sign assms show ?thesis by (simp add: py_int_def str_of_int_def int_strip_digits)
qed

lemma digits_of_length: "n < 10 ^ k \<Longrightarrow> 0 < k \<Longrightarrow> length (digits_of n) \<le> k"
proof (induction k arbitrary: n)
  case (Suc k)
  show ?case
  proof (cases "n < 10")
    case True
    then show ?thesis by (simp add: digits_of.simps [of n])
  next
    case False
    then have "0 < k" using Suc.prems(1) by (cases k) auto
    moreover have "n div 10 < 10 ^ k" using Suc.prems(1) by (simp add: less_mult_imp_div_less mult.commute)
    ultimately have "length (digits_of (n div 10)) \<le> k" by (intro Suc.IH)
    with False show ?thesis by (simp add: digits_of.simps [of n])
  qed
qed simp

text \<open>A number that \<open>str\<close> and \<open>int\<close> take in their stride.\<close>

definition printable_nat :: "nat \<Rightarrow> bool" where
  "printable_nat n \<longleftrightarrow> length (digits_of n) \<le> int_max_str_digits"

lemma request_pairs_arguments:
  "list_all (\<lambda>(fd, sz). printable_nat fd \<and> 0 \<le> sz \<and> printable_nat (nat sz)) requests \<Longrightarrow>
     request_pairs (request_arguments requests) = Some (map (\<lambda>(fd, sz). (int fd, sz)) requests)"
proof (induction requests)
  case (Cons r requests)
  obtain fd sz where r: "r = (fd, sz)" by fastforce
  from Cons.prems have p: "printable_nat fd" "printable_nat (nat sz)" and sz: "int (nat sz) = sz" by (simp_all add: r)
  have "py_int (str_of_int (int fd)) = Some (int fd)"
    using py_int_digits [of fd] p(1) unfolding printable_nat_def .
  moreover have "py_int (str_of_int sz) = Some sz"
    using py_int_digits [of "nat sz"] p(2) sz unfolding printable_nat_def by metis
  ultimately show ?case using Cons by (simp add: r request_arguments_def)
qed (simp add: request_arguments_def)

lemma request_arguments_length: "length (request_arguments requests) = 2 * length requests"
  by (induction requests) (auto simp: request_arguments_def)

text \<open>\<open>hashlib\<close>: 40 or 64 lower-case hexadecimal digits.\<close>

definition digest_ok :: "digest \<Rightarrow> bool" where
  "digest_ok hash \<longleftrightarrow>
     (\<forall>s. length (hash ''sha1'' s) = 40 \<and> list_all is_hex_digit (hash ''sha1'' s)
        \<and> length (hash ''sha256'' s) = 64 \<and> list_all is_hex_digit (hash ''sha256'' s))"

lemma splitlines_lines:
  "list_all (list_all is_hex_digit) ds \<Longrightarrow> splitlines (concat (map (\<lambda>d. d @ nl) ds)) = ds"
proof (induction ds)
  case Nil
  then show ?case by (simp add: splitlines.simps)
next
  case (Cons d ds)
  let ?rest = "concat (map (\<lambda>d. d @ nl) ds)"
  from Cons.prems have plain: "\<not> is_line_break c" if "c \<in> set d" for c
    using that by (auto simp: list_all_iff is_hex_digit_def is_digit_def is_line_break_def)
  have br: "is_line_break (CHR 10)" by (simp add: is_line_break_def)
  have "takeWhile (\<lambda>c. \<not> is_line_break c) (d @ nl @ ?rest) = d"
    "dropWhile (\<lambda>c. \<not> is_line_break c) (d @ nl @ ?rest) = nl @ ?rest"
    using plain br by (simp_all add: takeWhile_append2 dropWhile_append2 nl_def)
  then have "splitlines (d @ nl @ ?rest) = d # splitlines ?rest"
    by (subst splitlines.simps) (simp add: Let_def nl_def starts_with_def)
  with Cons show ?case by simp
qed

lemma helper_digests_lines:
  assumes "digest_ok hash" and "algorithm \<in> {''sha1'', ''sha256''}"
  shows "helper_digests algorithm (length texts) 0 (concat (map (\<lambda>x. hash algorithm x @ nl) texts)) []
    = Inr (map (hash algorithm) texts)"
proof -
  let ?ds = "map (hash algorithm) texts"
  let ?out = "concat (map (\<lambda>d. d @ nl) ?ds)"
  have hex: "list_all (list_all is_hex_digit) ?ds"
    using assms by (auto simp: digest_ok_def list_all_iff)
  have len: "\<not> list_ex (\<lambda>d. length d \<noteq> (if algorithm = ''sha1'' then 40 else 64)) ?ds"
    using assms by (auto simp: digest_ok_def list_ex_iff)
  have low: "is_hex_digit c \<or> c = CHR 10 \<Longrightarrow> ord c < 128" for c
    by (auto simp: is_hex_digit_def is_digit_def)
  have "c \<in> set ?out \<Longrightarrow> is_hex_digit c \<or> c = CHR 10" for c
    using hex unfolding list_all_iff nl_def set_concat set_map set_append by (auto split: if_splits)
  then have "c \<in> set ?out \<Longrightarrow> ord c < 128" for c using low by blast
  then have ascii: "\<not> list_ex (\<lambda>c. 128 \<le> ord c) ?out" by (auto simp: list_ex_iff not_le)
  have hex': "\<not> list_ex (\<lambda>d. list_ex (\<lambda>c. \<not> is_hex_digit c) d) ?ds"
    using hex by (auto simp: list_ex_iff list_all_iff)
  have out: "concat (map (\<lambda>x. hash algorithm x @ nl) texts) = ?out" by (simp add: comp_def)
  show ?thesis
    unfolding helper_digests_def out splitlines_lines [OF hex] Let_def
    using ascii len hex' by simp
qed

section \<open>The hasher\<close>

text \<open>What the comparison needs of a hasher over a tree that holds still.\<close>

definition open_request :: "tree \<Rightarrow> tree_os \<Rightarrow> nat \<times> int \<Rightarrow> bool" where
  "open_request t w = (\<lambda>(fd, sz). \<exists>node. map_of (to_fds w) fd = Some node
     \<and> sz = int (length (in_data (t node))) \<and> printable_nat fd \<and> printable_nat (nat sz))"

locale blob_hasher = descriptor_keeper hasher for hasher :: hasher +
  fixes t :: tree and hash :: digest
  assumes answers: "digest_ok hash \<Longrightarrow> requests \<noteq> [] \<Longrightarrow> length requests \<le> blob_hash_batch_max \<Longrightarrow>
    algorithm \<in> {''sha1'', ''sha256''} \<Longrightarrow> distinct (map fst requests) \<Longrightarrow>
    list_all (open_request t w) requests \<Longrightarrow>
    fst (hasher requests algorithm w)
      = Inr (map (\<lambda>(fd, _). hash algorithm (blob_text (in_data (t (the (map_of (to_fds w) fd)))))) requests)"

lemma helper_main_still:
  assumes "requests \<noteq> []" and "length requests \<le> batch_max" and "algorithm \<in> {''sha1'', ''sha256''}"
    and "distinct (map fst requests)" and "list_all (open_request t w) requests"
  shows "\<exists>v. helper_main (still_ports t hash short (map fst requests)) (algorithm # request_arguments requests)
      \<lparr>hw_offset = (\<lambda>_. 0), hw_stdout = [], hw_tree = w\<rparr> = (0, v)
    \<and> hw_stdout v = concat (map (\<lambda>(fd, _). digest_line t hash algorithm (the (map_of (to_fds w) fd))) requests)"
proof -
  let ?p = "still_ports t hash short (map fst requests)"
  let ?w = "\<lparr>hw_offset = (\<lambda>_. 0), hw_stdout = [], hw_tree = w\<rparr>"
  let ?pairs = "map (\<lambda>(fd, sz). (int fd, sz)) requests"
  let ?nats = "map (\<lambda>(fd, sz). (fd, nat sz)) requests"
  have args: "list_all (\<lambda>(fd, sz). printable_nat fd \<and> 0 \<le> sz \<and> printable_nat (nat sz)) requests"
    using assms(5) by (auto simp: list_all_iff open_request_def)
  have pairs: "request_pairs (request_arguments requests) = Some ?pairs"
    by (rule request_pairs_arguments [OF args])
  have "map fst ?pairs = map int (map fst requests)" by (simp add: split_def comp_def)
  moreover have "distinct (map int (map fst requests))" using assms(4) by (simp only: distinct_map) (simp add: inj_on_def)
  ultimately have d: "distinct (map fst ?pairs)" by (simp only:)
  have nonneg: "\<not> list_ex (\<lambda>(fd, sz). fd < 0 \<or> sz < 0) ?pairs"
    using args by (force simp: list_ex_iff list_all_iff)
  have nats: "map (\<lambda>(fd, sz). (nat fd, nat sz)) ?pairs = ?nats" by (simp add: split_def comp_def)
  have fsts: "map fst ?nats = map fst requests" by (simp add: split_def comp_def)
  have dn: "distinct (map fst ?nats)" unfolding fsts by (rule assms(4))
  have ready: "list_all (readable t (map fst requests) ?w) ?nats"
    using assms(5) by (force simp: list_all_iff open_request_def readable_def)
  from hash_requests_still [OF assms(3) ready dn, of hash short] obtain u where
    u: "hash_requests ?p algorithm ?nats ?w
      = (Inr (concat (map (\<lambda>(fd, _). digest_line t hash algorithm (node_of ?w fd)) ?nats)), u)" "hw_stdout u = []"
    by auto
  from write_all_still [of t hash short "map fst requests"
      "concat (map (\<lambda>(fd, _). digest_line t hash algorithm (node_of ?w fd)) ?nats)" u] u(2)
  obtain v where v: "write_all ?p (concat (map (\<lambda>(fd, _). digest_line t hash algorithm (node_of ?w fd)) ?nats)) u = (Inr (), v)"
    "hw_stdout v = concat (map (\<lambda>(fd, _). digest_line t hash algorithm (node_of ?w fd)) ?nats)"
    by auto
  have bounds: "\<not> (length (algorithm # request_arguments requests) < 3 \<or> even (length (algorithm # request_arguments requests)))"
    using assms(1) by (cases requests) (simp_all add: request_arguments_length)
  have few: "\<not> (batch_max < length ?pairs \<or> \<not> distinct (map fst ?pairs) \<or> list_ex (\<lambda>(fd, sz). fd < 0 \<or> sz < 0) ?pairs)"
    using assms(2) d nonneg by simp
  have "helper_body ?p (algorithm # request_arguments requests) ?w = (Inr (), v)"
    unfolding helper_body_def list.sel pairs option.case nats
    using bounds few u(1) v(1) by (simp only: if_False io_bind_def prod.case sum.case)
  moreover have "hw_stdout v = concat (map (\<lambda>(fd, _). digest_line t hash algorithm (the (map_of (to_fds w) fd))) requests)"
    unfolding v(2) by (simp add: node_of_def split_def comp_def)
  ultimately show ?thesis by (auto simp: helper_main_def)
qed

lemma digest_length:
  "digest_ok hash \<Longrightarrow> algorithm \<in> {''sha1'', ''sha256''} \<Longrightarrow> length (hash algorithm s) \<le> 64"
  by (auto simp: digest_ok_def)

lemma concat_lines_length:
  "(\<And>x. x \<in> set xs \<Longrightarrow> length (f x) \<le> 65) \<Longrightarrow> length (concat (map f xs)) \<le> 65 * length xs"
  by (induction xs) (auto simp: add_mono)

lemma hash_descriptors_still:
  assumes "digest_ok hash"
    and "requests \<noteq> []" and "length requests \<le> blob_hash_batch_max" and "algorithm \<in> {''sha1'', ''sha256''}"
    and "distinct (map fst requests)" and "list_all (open_request t w) requests"
  shows "fst (hash_descriptors (helper_process (still t) hash short) requests algorithm w)
    = Inr (map (\<lambda>(fd, _). hash algorithm (blob_text (in_data (t (the (map_of (to_fds w) fd)))))) requests)"
proof -
  let ?texts = "map (\<lambda>(fd, _). blob_text (in_data (t (the (map_of (to_fds w) fd))))) requests"
  define out where "out = concat (map (\<lambda>x. hash algorithm x @ nl) ?texts)"
  from helper_main_still [OF assms(2) _ assms(4-6), of hash short] assms(3)
  obtain v where v: "helper_main (still_ports t hash short (map fst requests)) (algorithm # request_arguments requests)
      \<lparr>hw_offset = (\<lambda>_. 0), hw_stdout = [], hw_tree = w\<rparr> = (0, v)"
    and "hw_stdout v = concat (map (\<lambda>(fd, _). digest_line t hash algorithm (the (map_of (to_fds w) fd))) requests)"
    by (auto simp: batch_max_def blob_hash_batch_max_def)
  then have out: "hw_stdout v = out" by (simp add: out_def digest_line_def split_def comp_def)
  have "length out \<le> 65 * length requests"
    using concat_lines_length [of ?texts "\<lambda>x. hash algorithm x @ nl"] digest_length [OF assms(1,4)]
    by (simp add: nl_def out_def)
  then have small: "\<not> git_output_limit_bytes < int (length out)"
    using assms(3) by (simp add: git_output_limit_bytes_def blob_hash_batch_max_def)
  have stream: "read_stream ([out], EndOfFile) = Inr out" "read_stream ([], EndOfFile) = Inr []"
    using small by (auto simp: read_stream_def)
  have run: "helper_process (still t) hash short (algorithm # request_arguments requests) (map fst requests) w
    = (Started \<lparr>pr_pipes = True, pr_stdout = ([out], EndOfFile), pr_stderr = ([], EndOfFile),
         pr_returncode = 0, pr_cancelled = None, pr_reaping = quiet_reaping\<rparr>, hw_tree v)"
    by (simp add: helper_process_def v out)
  have ok: "\<not> (requests = [] \<or> blob_hash_batch_max < length requests \<or> algorithm \<notin> {''sha1'', ''sha256''}
        \<or> list_ex (\<lambda>(_, sz). sz < 0) requests)"
    using assms(2-4,6) by (force simp: list_ex_iff list_all_iff open_request_def)
  have "helper_digests algorithm (length requests) 0 out [] = Inr (map (hash algorithm) ?texts)"
    using helper_digests_lines [OF assms(1,4), of ?texts] by (simp add: out_def)
  then show ?thesis
    unfolding hash_descriptors_def if_not_P [OF ok] run prod.case
    by (simp add: hash_outcome_def communicate_def collect_process_output_def stream split_def comp_def)
qed

text \<open>The helper is such a hasher for every tree and however its reads and writes are cut up.\<close>

interpretation still_helper: blob_hasher "hash_descriptors (helper_process (still t) hash short)" t hash
  by unfold_locales (rule hash_descriptors_still)

end
