(* ===== verification/Worktree_Exactness.thy ===== *)
theory Worktree_Exactness
  imports Hash_Properties
begin

text \<open>
  Over a tree that holds still the comparison is exact: it reports the paths for which the index,
  HEAD and the work tree do not agree, and no others. The reference \<open>node_at\<close> resolves a path in
  the tree without descriptors, fingerprints and system calls.
\<close>

section \<open>The reference\<close>

fun node_at :: "tree \<Rightarrow> nat \<Rightarrow> string list \<Rightarrow> nat option" where
  "node_at t d [] = Some d"
| "node_at t d (x # xs) =
     (if inode_type (t d) \<noteq> ''directory'' then None
      else (case map_of (in_entries (t d)) x of None \<Rightarrow> None | Some f \<Rightarrow> node_at t f xs))"

text \<open>The bytes to be hashed, if the file is of the kind that the index records.\<close>

definition content_at :: "tree \<Rightarrow> nat \<Rightarrow> string list \<Rightarrow> string \<Rightarrow> string option" where
  "content_at t d parts mode =
     (case node_at t d parts of
        None \<Rightarrow> None
      | Some f \<Rightarrow>
          if inode_type (t f) = (if mode = symlink_index_mode then ''symlink'' else ''regular'')
             \<and> (mode = symlink_index_mode \<or> executable_mode (sr_mode (in_stat (t f))) = mode)
          then Some (in_data (t f)) else None)"

definition unchanged_entry :: "tree \<Rightarrow> nat \<Rightarrow> digest \<Rightarrow> string \<Rightarrow> index_entry \<Rightarrow> bool" where
  "unchanged_entry t d hash algorithm e \<longleftrightarrow>
     (case content_at t d (path_parts (ie_path e)) (ie_mode e) of
        None \<Rightarrow> False
      | Some content \<Rightarrow> hash algorithm (blob_text content) = ie_object_id e)"

text \<open>
  No symbolic link and no device stands where a directory is expected, and the last part is a
  file, a directory, a link or nothing; otherwise the inspection refuses the repository.
\<close>

fun boundary_ok :: "tree \<Rightarrow> nat \<Rightarrow> string list \<Rightarrow> bool" where
  "boundary_ok t d [] \<longleftrightarrow> False"
| "boundary_ok t d (x # xs) \<longleftrightarrow>
     inode_type (t d) = ''directory''
     \<and> (case map_of (in_entries (t d)) x of
          None \<Rightarrow> True
        | Some f \<Rightarrow>
            if xs = [] then inode_type (t f) \<in> {''regular'', ''directory'', ''symlink''}
            else inode_type (t f) = ''regular'' \<or> boundary_ok t f xs)"

definition sizes_ok :: "tree \<Rightarrow> bool" where
  "sizes_ok t \<longleftrightarrow> (\<forall>f. inode_type (t f) = ''regular'' \<longrightarrow>
     sr_size (in_stat (t f)) = int (length (in_data (t f))) \<and> printable_nat (length (in_data (t f))))"

section \<open>Calls over a tree that holds still\<close>

definition tick :: "tree_os \<Rightarrow> tree_os" where
  "tick w = w\<lparr>to_time := Suc (to_time w)\<rparr>"

lemma tick_fds [simp]: "to_fds (tick w) = to_fds w"
  by (simp add: tick_def)

lemma look_tick: "look (still t) w = (Inr t, tick w)"
  by (simp add: look_still tick_def)

definition node_print :: "tree \<Rightarrow> nat \<Rightarrow> file_fingerprint" where
  "node_print t f = file_fingerprint_of (in_stat (t f))"

lemma fstat_still:
  "map_of (to_fds w) fd = Some f \<Longrightarrow> fd_fstat (still t) fd w = (Inr (in_stat (t f)), tick w)"
  by (simp add: fd_fstat_def with_fd_def io_bind_def look_tick)

lemma stat_if_present_still:
  assumes "map_of (to_fds w) fd = Some d" and "inode_type (t d) = ''directory''"
  shows "stat_if_present (still t) fd name w
    = (Inr (map_option (\<lambda>f. in_stat (t f)) (map_of (in_entries (t d)) name)), tick w)"
  using assms
  by (cases "map_of (in_entries (t d)) name")
    (simp_all add: stat_if_present_def io_except_def fd_stat_at_def with_fd_def io_bind_def look_tick find_entry_def
      no_such_file_def os_failure_def is_missing_def)

lemma stat_at_still:
  assumes "map_of (to_fds w) fd = Some d" and "inode_type (t d) = ''directory''"
    and "map_of (in_entries (t d)) name = Some f"
  shows "fd_stat_at (still t) fd name w = (Inr (in_stat (t f)), tick w)"
  using assms by (simp add: fd_stat_at_def with_fd_def io_bind_def look_tick find_entry_def)

lemma readlink_still:
  assumes "map_of (to_fds w) fd = Some d" and "inode_type (t d) = ''directory''"
    and "map_of (in_entries (t d)) name = Some f" and "inode_type (t f) = ''symlink''"
  shows "fd_readlink (still t) fd name w = (Inr (in_data (t f)), tick w)"
  using assms by (simp add: fd_readlink_def with_fd_def io_bind_def look_tick find_entry_def)

text \<open>The world after a descriptor was opened on \<open>f\<close>.\<close>

definition opened_on :: "nat \<Rightarrow> tree_os \<Rightarrow> tree_os" where
  "opened_on f w = (tick w)\<lparr>to_fds := (free_fd (to_fds w), f) # to_fds w\<rparr>"

lemma opened_on_fds [simp]: "to_fds (opened_on f w) = (free_fd (to_fds w), f) # to_fds w"
  by (simp add: opened_on_def)

lemma new_fd_tick: "new_fd f (tick w) = (Inr (free_fd (to_fds w)), opened_on f w)"
  by (simp add: new_fd_def opened_on_def)

lemma open_at_still:
  assumes "map_of (to_fds w) fd = Some d" and "inode_type (t d) = ''directory''"
    and "map_of (in_entries (t d)) name = Some f"
    and "inode_type (t f) = ''directory'' \<or> inode_type (t f) = ''regular'' \<and> O_DIRECTORY \<notin> set flags"
  shows "fd_open_at (still t) fd name flags w = (Inr (free_fd (to_fds w)), opened_on f w)"
  using assms by (auto simp: fd_open_at_def open_node_def with_fd_def io_bind_def look_tick find_entry_def new_fd_tick)

lemma dup_still:
  "map_of (to_fds w) fd = Some f \<Longrightarrow> fd_dup (still t) fd w = (Inr (free_fd (to_fds w)), opened_on f w)"
  by (simp add: fd_dup_def with_fd_def io_bind_def look_tick new_fd_tick)

text \<open>The table keeps what it has, and grows by at most \<open>n\<close> descriptors.\<close>

definition later :: "tree_os \<Rightarrow> tree_os \<Rightarrow> bool" where
  "later w v \<longleftrightarrow> map_of (to_fds w) \<subseteq>\<^sub>m map_of (to_fds v) \<and> length (to_fds w) \<le> length (to_fds v)"

definition grows :: "nat \<Rightarrow> tree_os \<Rightarrow> tree_os \<Rightarrow> bool" where
  "grows n w v \<longleftrightarrow> later w v \<and> length (to_fds v) \<le> length (to_fds w) + n"

lemma later_lookup: "later w v \<Longrightarrow> map_of (to_fds w) fd = Some f \<Longrightarrow> map_of (to_fds v) fd = Some f"
  unfolding later_def map_le_def by (metis domI)

lemma later_trans: "later u v \<Longrightarrow> later v w \<Longrightarrow> later u w"
  by (auto simp: later_def intro: map_le_trans)

lemma later_same: "to_fds v = to_fds w \<Longrightarrow> later w v"
  by (simp add: later_def)

lemma grows_same: "to_fds v = to_fds w \<Longrightarrow> grows n w v"
  by (simp add: grows_def later_def)

lemma grows_opened: "grows (Suc 0) w (opened_on f w)"
proof -
  have "map_of (to_fds w) (free_fd (to_fds w)) = None"
    using free_fd_fresh [of "to_fds w"] by (simp add: map_of_eq_None_iff)
  then show ?thesis by (auto simp: grows_def later_def map_le_def dom_def)
qed

lemma grows_trans: "grows m u v \<Longrightarrow> grows n v w \<Longrightarrow> grows (m + n) u w"
  by (auto simp: grows_def intro: later_trans)

lemma grows_mono: "grows m u v \<Longrightarrow> m \<le> n \<Longrightarrow> grows n u v"
  by (auto simp: grows_def)

lemma grows_lookup: "grows n w v \<Longrightarrow> map_of (to_fds w) fd = Some f \<Longrightarrow> map_of (to_fds v) fd = Some f"
  unfolding grows_def using later_lookup by blast

lemma free_fd_bound: "free_fd fds \<le> length fds"
proof -
  let ?free = "filter (\<lambda>n. n \<notin> fst ` set fds) [0 ..< Suc (length fds)]"
  have "?free \<noteq> []"
  proof
    assume "?free = []"
    then have "set [0 ..< Suc (length fds)] \<subseteq> fst ` set fds" unfolding filter_empty_conv by blast
    then have "card (set [0 ..< Suc (length fds)]) \<le> card (fst ` set fds)" by (intro card_mono) auto
    also have "\<dots> \<le> length fds" using card_image_le [of "set fds" fst] card_length [of fds] by simp
    finally show False by simp
  qed
  from hd_in_set [OF this] show ?thesis unfolding free_fd_def set_filter by (simp del: upt_Suc)
qed

section \<open>Opening an entry\<close>

definition guard_ok :: "tree \<Rightarrow> tree_os \<Rightarrow> directory_guard \<Rightarrow> bool" where
  "guard_ok t w g \<longleftrightarrow> (\<exists>d f. map_of (to_fds w) (dg_parent_descriptor g) = Some d
     \<and> inode_type (t d) = ''directory'' \<and> map_of (in_entries (t d)) (dg_name g) = Some f
     \<and> map_of (to_fds w) (dg_descriptor g) = Some f \<and> dg_fingerprint g = node_print t f)"

definition leaf_ok :: "tree \<Rightarrow> tree_os \<Rightarrow> opened_entry \<Rightarrow> bool" where
  "leaf_ok t w opened \<longleftrightarrow> (\<exists>d. map_of (to_fds w) (ow_leaf_parent_descriptor opened) = Some d
     \<and> inode_type (t d) = ''directory''
     \<and> ow_fingerprint opened = map_option (node_print t) (map_of (in_entries (t d)) (ow_leaf_name opened)))"

definition handle_ok :: "tree \<Rightarrow> tree_os \<Rightarrow> opened_entry \<Rightarrow> bool" where
  "handle_ok t w opened \<longleftrightarrow> (\<forall>fd. ow_descriptor opened = Some fd \<longrightarrow>
     (\<exists>f. map_of (to_fds w) fd = Some f \<and> ow_fingerprint opened = Some (node_print t f)
        \<and> fd \<in> set (ow_owned_descriptors opened) \<and> fd < length (to_fds w)))"

definition opened_ok :: "tree \<Rightarrow> tree_os \<Rightarrow> opened_entry \<Rightarrow> bool" where
  "opened_ok t w opened \<longleftrightarrow>
     list_all (guard_ok t w) (ow_directory_guards opened) \<and> leaf_ok t w opened \<and> handle_ok t w opened"

lemma guard_ok_later: "guard_ok t w g \<Longrightarrow> later w v \<Longrightarrow> guard_ok t v g"
  unfolding guard_ok_def using later_lookup by blast

lemma opened_ok_later: "opened_ok t w opened \<Longrightarrow> later w v \<Longrightarrow> opened_ok t v opened"
proof -
  assume o': "opened_ok t w opened" and l: "later w v"
  have "list_all (guard_ok t v) (ow_directory_guards opened)"
    using o' guard_ok_later [OF _ l] by (auto simp: opened_ok_def list_all_iff)
  moreover have "leaf_ok t v opened"
    using o' later_lookup [OF l] unfolding opened_ok_def leaf_ok_def by blast
  moreover have "handle_ok t v opened"
    unfolding handle_ok_def
  proof (intro allI impI)
    fix fd assume "ow_descriptor opened = Some fd"
    with o' obtain f where "map_of (to_fds w) fd = Some f" "ow_fingerprint opened = Some (node_print t f)"
      "fd \<in> set (ow_owned_descriptors opened)" "fd < length (to_fds w)"
      by (auto simp: opened_ok_def handle_ok_def)
    with later_lookup [OF l] l show "\<exists>f. map_of (to_fds v) fd = Some f \<and> ow_fingerprint opened = Some (node_print t f)
        \<and> fd \<in> set (ow_owned_descriptors opened) \<and> fd < length (to_fds v)"
      by (auto simp: later_def)
  qed
  ultimately show ?thesis by (simp add: opened_ok_def)
qed

text \<open>What an opened entry says about the file, against the reference.\<close>

definition verdict_ok :: "tree \<Rightarrow> nat \<Rightarrow> string list \<Rightarrow> string \<Rightarrow> tree_os \<Rightarrow> opened_entry \<Rightarrow> bool" where
  "verdict_ok t d parts mode w opened \<longleftrightarrow>
     (case content_at t d parts mode of
        None \<Rightarrow> ow_kind opened \<noteq> ''matched'' \<or> ow_mode opened \<noteq> Some mode
      | Some content \<Rightarrow>
          ow_kind opened = ''matched'' \<and> ow_mode opened = Some mode
          \<and> (if mode = symlink_index_mode then ow_symlink_content opened = Some content
             else ow_symlink_content opened = None
               \<and> (\<exists>fd f. ow_descriptor opened = Some fd \<and> map_of (to_fds w) fd = Some f
                    \<and> inode_type (t f) = ''regular'' \<and> in_data (t f) = content)))"

lemma verdict_ok_later: "verdict_ok t d parts mode w opened \<Longrightarrow> later w v \<Longrightarrow> verdict_ok t d parts mode v opened"
  unfolding verdict_ok_def by (auto split: option.splits if_splits dest: later_lookup)

lemma nonmatching_run:
  "nonmatching parent name guards fp (fds, w) = (Inr (opened_nonmatching_entry parent name guards fds fp), (fds, w))"
  by (simp add: nonmatching_def owned_def io_bind_def)

lemma inner_run: "m w = (r, v) \<Longrightarrow> io_inner m (fds, w) = (r, (fds, v))"
  by (simp add: io_inner_def)

lemma own_run: "own_descriptor fd (fds, w) = (Inr (), (fds @ [fd], w))"
  by (simp add: own_descriptor_def)

lemma node_at_append: "node_at t d (xs @ ys) = (case node_at t d xs of None \<Rightarrow> None | Some d' \<Rightarrow> node_at t d' ys)"
  by (induction t d xs rule: node_at.induct) (auto split: option.splits)

lemma nonmatching_ok:
  assumes "map_of (to_fds w) parent = Some d" and "inode_type (t d) = ''directory''" and "list_all (guard_ok t w) guards"
    and "fp = map_option (node_print t) (map_of (in_entries (t d)) name)" and "to_fds v = to_fds w"
  shows "opened_ok t v (opened_nonmatching_entry parent name guards fds fp)"
proof (rule opened_ok_later [OF _ later_same [OF assms(5)]])
  show "opened_ok t w (opened_nonmatching_entry parent name guards fds fp)"
    using assms(1-4) by (simp add: opened_ok_def leaf_ok_def handle_ok_def opened_nonmatching_entry_def)
qed

lemma mismatch_kind: "ow_kind (opened_nonmatching_entry parent name guards fds fp) \<noteq> ''matched''"
  by (simp add: opened_nonmatching_entry_def)

definition descended :: "tree \<Rightarrow> nat \<Rightarrow> string list \<Rightarrow> string \<Rightarrow> tree_os \<Rightarrow> opened_entry + nat \<times> directory_guard list \<Rightarrow> bool" where
  "descended t d parts leaf w r \<longleftrightarrow>
     (case r of
        Inl o' \<Rightarrow> node_at t d (parts @ [leaf]) = None \<and> ow_kind o' \<noteq> ''matched'' \<and> opened_ok t w o'
      | Inr (current, guards) \<Rightarrow> \<exists>d'. map_of (to_fds w) current = Some d' \<and> node_at t d parts = Some d'
          \<and> list_all (guard_ok t w) guards \<and> boundary_ok t d' [leaf])"

lemma descend_still:
  assumes "map_of (to_fds w) current = Some d" and "boundary_ok t d (parts @ [leaf])"
    and "list_all (guard_ok t w) guards"
  shows "\<exists>r fds' v. descend (still t) current guards parts (fds, w) = (Inr r, (fds', v))
    \<and> grows (length parts) w v \<and> descended t d parts leaf v r"
  using assms
proof (induction parts arbitrary: current d guards fds w)
  case Nil
  then have "descended t d [] leaf w (Inr (current, guards))" by (simp add: descended_def)
  then show ?case using grows_same [of w w 0] by auto
next
  case (Cons x xs)
  let ?name = "map_of (in_entries (t d)) x"
  from Cons.prems(2) have dir: "inode_type (t d) = ''directory''" by simp
  have stat: "io_inner (stat_if_present (still t) current x) (fds, w)
      = (Inr (map_option (\<lambda>f. in_stat (t f)) ?name), (fds, tick w))"
    by (rule inner_run, rule stat_if_present_still [where t = t and d = d, OF Cons.prems(1) dir])
  have grow: "grows (length (x # xs)) w (tick w)" by (rule grows_same) simp
  have prints: "map_option file_fingerprint_of (map_option (\<lambda>f. in_stat (t f)) ?name) = map_option (node_print t) ?name"
    by (cases ?name) (simp_all add: node_print_def)
  have wrong: "descended t d (x # xs) leaf (tick w)
      (Inl (opened_nonmatching_entry current x guards fds (map_option (node_print t) ?name)))"
    if "node_at t d ((x # xs) @ [leaf]) = None"
    using that mismatch_kind nonmatching_ok [where t = t and d = d, OF Cons.prems(1) dir Cons.prems(3) refl tick_fds]
    by (simp add: descended_def)
  show ?case
  proof (cases ?name)
    case None
    have "descend (still t) current guards (x # xs) (fds, w)
        = (Inr (Inl (opened_nonmatching_entry current x guards fds None)), (fds, tick w))"
      by (simp add: None io_bind_def stat nonmatching_run)
    moreover have "node_at t d ((x # xs) @ [leaf]) = None" using None by simp
    ultimately show ?thesis using wrong grow None by auto
  next
    case (Some f)
    show ?thesis
    proof (cases "inode_type (t f) = ''regular''")
      case True
      have "descend (still t) current guards (x # xs) (fds, w)
          = (Inr (Inl (opened_nonmatching_entry current x guards fds (Some (node_print t f)))), (fds, tick w))"
        using True by (simp add: Some io_bind_def stat nonmatching_run inode_type_def node_print_def)
      moreover have "node_at t d ((x # xs) @ [leaf]) = None" using Some True by (cases xs) auto
      ultimately show ?thesis using wrong grow Some by auto
    next
      case False
      with Cons.prems(2) Some have inner: "boundary_ok t f (xs @ [leaf])" by simp
      then have fdir: "inode_type (t f) = ''directory''" by (cases xs) simp_all
      let ?fd = "free_fd (to_fds w)"
      let ?u = "tick (opened_on f (tick w))"
      let ?guard = "\<lparr>dg_parent_descriptor = current, dg_name = x, dg_descriptor = ?fd, dg_fingerprint = node_print t f\<rparr>"
      have "map_of (to_fds (tick w)) current = Some d" using Cons.prems(1) by simp
      from open_at_still [where t = t and d = d, OF this dir Some, of directory_flags_at] fdir
      have open_run: "io_inner (fd_open_at (still t) current x directory_flags_at) (fds, tick w)
          = (Inr ?fd, (fds, opened_on f (tick w)))"
        by (intro inner_run) simp
      have "map_of (to_fds (opened_on f (tick w))) ?fd = Some f" by simp
      from fstat_still [OF this] have stat_run: "io_inner (fd_fstat (still t) ?fd) (fds @ [?fd], opened_on f (tick w))
          = (Inr (in_stat (t f)), (fds @ [?fd], ?u))"
        by (rule inner_run)
      have run: "descend (still t) current guards (x # xs) (fds, w)
          = descend (still t) ?fd (guards @ [?guard]) xs (fds @ [?fd], ?u)"
        using fdir by (simp add: Some io_bind_def stat open_run own_run stat_run inode_type_def node_print_def)
      have g: "grows (Suc 0) w ?u"
        using grows_trans [OF grows_trans [OF grows_same [of "tick w" w 0, OF tick_fds] grows_opened [of "tick w" f]]
            grows_same [of ?u "opened_on f (tick w)" 0, OF tick_fds]] by simp
      then have l: "later w ?u" by (simp add: grows_def)
      have "guard_ok t ?u ?guard"
        using later_lookup [OF l Cons.prems(1)] dir Some by (auto simp: guard_ok_def)
      then have "list_all (guard_ok t ?u) (guards @ [?guard])"
        using Cons.prems(3) guard_ok_later [OF _ l] by (auto simp: list_all_iff)
      from Cons.IH [OF _ inner this, of ?fd "fds @ [?fd]"] obtain r fds' v where
        r: "descend (still t) ?fd (guards @ [?guard]) xs (fds @ [?fd], ?u) = (Inr r, (fds', v))"
        "grows (length xs) ?u v" "descended t f xs leaf v r"
        by auto
      have "descended t d (x # xs) leaf v r"
        using r(3) dir Some by (auto simp: descended_def simp del: boundary_ok.simps split: sum.splits)
      moreover have "grows (length (x # xs)) w v" using grows_trans [OF g r(2)] by simp
      ultimately show ?thesis using run r(1) by auto
    qed
  qed
qed

definition opens_well :: "tree \<Rightarrow> nat \<Rightarrow> string list \<Rightarrow> string \<Rightarrow> nat \<Rightarrow> tree_os \<Rightarrow> opened_entry \<Rightarrow> tree_os \<Rightarrow> bool" where
  "opens_well t d parts mode n w opened v \<longleftrightarrow> grows n w v \<and> opened_ok t v opened \<and> verdict_ok t d parts mode v opened"

lemma executable_mode_regular: "executable_mode m \<in> set regular_index_modes"
  by (simp add: executable_mode_def regular_index_modes_def)

lemma symlink_not_regular: "symlink_index_mode \<notin> set regular_index_modes"
  by (simp add: symlink_index_mode_def regular_index_modes_def)

lemma open_symlink_still:
  assumes "map_of (to_fds w) current = Some d" and "inode_type (t d) = ''directory''"
    and "map_of (in_entries (t d)) leaf = Some f" and "inode_type (t f) = ''symlink''"
    and "list_all (guard_ok t w) guards"
  shows "\<exists>opened fds' v. open_symlink (still t) current leaf guards (node_print t f) (fds, w) = (Inr opened, (fds', v))
    \<and> opens_well t d [leaf] symlink_index_mode 0 w opened v"
proof -
  let ?v = "tick (tick w)"
  let ?o = "\<lparr>ow_kind = ''matched'', ow_mode = Some symlink_index_mode, ow_descriptor = None,
    ow_fingerprint = Some (node_print t f), ow_symlink_content = Some (in_data (t f)),
    ow_leaf_parent_descriptor = current, ow_leaf_name = leaf, ow_directory_guards = guards, ow_owned_descriptors = fds\<rparr>"
  have read: "io_inner (fd_readlink (still t) current leaf) (fds, w) = (Inr (in_data (t f)), (fds, tick w))"
    by (rule inner_run, rule readlink_still [where t = t and d = d]) (use assms in auto)
  have stat: "io_inner (fd_stat_at (still t) current leaf) (fds, tick w) = (Inr (in_stat (t f)), (fds, ?v))"
    by (rule inner_run, rule stat_at_still [where t = t and d = d]) (use assms in auto)
  have "open_symlink (still t) current leaf guards (node_print t f) (fds, w) = (Inr ?o, (fds, ?v))"
    by (simp add: open_symlink_def io_bind_def read stat owned_def node_print_def)
  moreover have "opened_ok t w ?o" using assms by (simp add: opened_ok_def leaf_ok_def handle_ok_def)
  then have "opened_ok t ?v ?o" by (rule opened_ok_later) (simp add: later_same)
  moreover have "verdict_ok t d [leaf] symlink_index_mode ?v ?o"
    using assms by (simp add: verdict_ok_def content_at_def)
  ultimately show ?thesis unfolding opens_well_def using grows_same [of ?v w 0] by auto
qed

lemma open_regular_still:
  assumes "map_of (to_fds w) current = Some d" and "inode_type (t d) = ''directory''"
    and "map_of (in_entries (t d)) leaf = Some f" and "inode_type (t f) = ''regular''"
    and "list_all (guard_ok t w) guards" and "mode \<noteq> symlink_index_mode"
  shows "\<exists>opened fds' v. open_regular (still t) current leaf guards (node_print t f) (fds, w) = (Inr opened, (fds', v))
    \<and> opens_well t d [leaf] mode 1 w opened v"
proof -
  let ?fd = "free_fd (to_fds w)"
  let ?v = "tick (opened_on f w)"
  let ?o = "\<lparr>ow_kind = ''matched'', ow_mode = Some (executable_mode (sr_mode (in_stat (t f)))), ow_descriptor = Some ?fd,
    ow_fingerprint = Some (node_print t f), ow_symlink_content = None,
    ow_leaf_parent_descriptor = current, ow_leaf_name = leaf, ow_directory_guards = guards, ow_owned_descriptors = fds @ [?fd]\<rparr>"
  have open_run: "io_inner (fd_open_at (still t) current leaf leaf_flags) (fds, w) = (Inr ?fd, (fds, opened_on f w))"
    by (rule inner_run, rule open_at_still [where t = t and d = d]) (use assms in \<open>auto simp: leaf_flags_def\<close>)
  have stat: "io_inner (fd_fstat (still t) ?fd) (fds @ [?fd], opened_on f w) = (Inr (in_stat (t f)), (fds @ [?fd], ?v))"
    by (rule inner_run, rule fstat_still) simp
  have "open_regular (still t) current leaf guards (node_print t f) (fds, w) = (Inr ?o, (fds @ [?fd], ?v))"
    by (simp add: open_regular_def io_bind_def open_run own_run stat owned_def node_print_def)
  moreover have g: "grows 1 w ?v"
    using grows_trans [OF grows_opened [of w f] grows_same [of ?v "opened_on f w" 0, OF tick_fds]] by simp
  then have l: "later w ?v" by (simp add: grows_def)
  have "opened_ok t ?v ?o"
    using assms(2,3,5) guard_ok_later [OF _ l] later_lookup [OF l assms(1)] free_fd_bound [of "to_fds w"]
    by (auto simp: opened_ok_def leaf_ok_def handle_ok_def list_all_iff)
  moreover have "verdict_ok t d [leaf] mode ?v ?o"
    using assms by (auto simp: verdict_ok_def content_at_def)
  ultimately show ?thesis unfolding opens_well_def using g by auto
qed

lemma open_leaf_still:
  assumes "map_of (to_fds w) current = Some d" and "boundary_ok t d [leaf]" and "list_all (guard_ok t w) guards"
  shows "\<exists>opened fds' v. open_leaf (still t) current leaf guards mode (fds, w) = (Inr opened, (fds', v))
    \<and> opens_well t d [leaf] mode 1 w opened v"
proof -
  let ?name = "map_of (in_entries (t d)) leaf"
  from assms(2) have dir: "inode_type (t d) = ''directory''" by simp
  have stat: "io_inner (stat_if_present (still t) current leaf) (fds, w)
      = (Inr (map_option (\<lambda>f. in_stat (t f)) ?name), (fds, tick w))"
    by (rule inner_run, rule stat_if_present_still [where t = t and d = d, OF assms(1) dir])
  have tick_fd: "map_of (to_fds (tick w)) current = Some d" using assms(1) by simp
  have guards: "list_all (guard_ok t (tick w)) guards"
    using assms(3) guard_ok_later [OF _ later_same [OF tick_fds]] by (auto simp: list_all_iff)
  have wrong: "opens_well t d [leaf] mode 1 w
      (opened_nonmatching_entry current leaf guards fds (map_option (node_print t) ?name)) (tick w)"
    if "content_at t d [leaf] mode = None"
    using that mismatch_kind nonmatching_ok [where t = t and d = d, OF assms(1) dir assms(3) refl tick_fds] grows_same [of "tick w" w 1]
    by (simp add: opens_well_def verdict_ok_def)
  show ?thesis
  proof (cases ?name)
    case None
    then have "open_leaf (still t) current leaf guards mode (fds, w)
        = (Inr (opened_nonmatching_entry current leaf guards fds None), (fds, tick w))"
      by (simp add: open_leaf_def io_bind_def stat nonmatching_run)
    moreover have "content_at t d [leaf] mode = None" using None by (simp add: content_at_def)
    ultimately show ?thesis using wrong None by auto
  next
    case (Some f)
    have fold: "mode_type (sr_mode (in_stat (t f))) = inode_type (t f)" "file_fingerprint_of (in_stat (t f)) = node_print t f"
      by (simp_all add: inode_type_def node_print_def)
    from assms(2) Some consider (regular) "inode_type (t f) = ''regular''" | (directory) "inode_type (t f) = ''directory''"
      | (symlink) "inode_type (t f) = ''symlink''" by auto
    note types = this
    have miss: ?thesis if run: "open_leaf (still t) current leaf guards mode (fds, w) = nonmatching current leaf guards (Some (node_print t f)) (fds, tick w)"
      and none: "content_at t d [leaf] mode = None"
      using wrong [OF none] Some by (auto simp: run nonmatching_run)
    have hit: ?thesis if run: "open_leaf (still t) current leaf guards mode (fds, w) = m (fds, tick w)"
      and "\<exists>opened fds' v. m (fds, tick w) = (Inr opened, (fds', v)) \<and> opens_well t d [leaf] mode n (tick w) opened v"
      and "n \<le> 1" for m n
    proof -
      from that(2) obtain opened fds' v where r: "m (fds, tick w) = (Inr opened, (fds', v))"
        "opens_well t d [leaf] mode n (tick w) opened v" by blast
      then have "grows 1 w v"
        using grows_mono [OF grows_trans [OF grows_same [of "tick w" w 0, OF tick_fds], of n v]] that(3)
        by (simp add: opens_well_def)
      with r run show ?thesis by (auto simp: opens_well_def)
    qed
    show ?thesis
      using types
    proof cases
      case directory
      then show ?thesis using Some dir
        by (intro miss) (simp_all add: open_leaf_def io_bind_def stat Let_def fold content_at_def)
    next
      case symlink
      show ?thesis
      proof (cases "mode = symlink_index_mode")
        case True
        have "\<exists>opened fds' v. open_symlink (still t) current leaf guards (node_print t f) (fds, tick w) = (Inr opened, (fds', v))
            \<and> opens_well t d [leaf] mode 0 (tick w) opened v"
          unfolding True by (rule open_symlink_still [where t = t and d = d, OF tick_fd dir Some symlink guards])
        then show ?thesis using symlink Some True
          by (intro hit [of "open_symlink (still t) current leaf guards (node_print t f)" 0])
            (simp_all add: open_leaf_def io_bind_def stat Let_def fold)
      next
        case False
        then show ?thesis using symlink Some dir
          by (intro miss) (simp_all add: open_leaf_def io_bind_def stat Let_def fold content_at_def)
      qed
    next
      case regular
      show ?thesis
      proof (cases "mode \<in> set regular_index_modes")
        case True
        then have "mode \<noteq> symlink_index_mode" using symlink_not_regular by auto
        from open_regular_still [where t = t and d = d, OF tick_fd dir Some regular guards this] show ?thesis
          using regular Some True
          by (intro hit [of "open_regular (still t) current leaf guards (node_print t f)" 1])
            (simp_all add: open_leaf_def io_bind_def stat Let_def fold)
      next
        case False
        have "content_at t d [leaf] mode = None"
          using regular Some dir False executable_mode_regular [of "sr_mode (in_stat (t f))"] by (auto simp: content_at_def)
        with regular Some False show ?thesis
          by (intro miss) (simp_all add: open_leaf_def io_bind_def stat Let_def fold)
      qed
    qed
  qed
qed

lemma boundary_parts: "boundary_ok t d parts \<Longrightarrow> parts = butlast parts @ [last parts]"
  by (cases parts) auto

lemma open_parts_still:
  assumes "map_of (to_fds w) root = Some d" and "boundary_ok t d parts"
  shows "\<exists>opened fds' v. open_parts (still t) root parts mode (fds, w) = (Inr opened, (fds', v))
    \<and> opens_well t d parts mode (length parts) w opened v"
proof -
  let ?leaf = "last parts"
  have parts: "parts = butlast parts @ [?leaf]" by (rule boundary_parts [OF assms(2)])
  have "boundary_ok t d (butlast parts @ [?leaf])" using assms(2) parts by simp
  from descend_still [where t = t and d = d, OF assms(1) this, of "[]" fds] obtain r fds1 v where
    run: "descend (still t) root [] (butlast parts) (fds, w) = (Inr r, (fds1, v))"
    and g: "grows (length (butlast parts)) w v" and r: "descended t d (butlast parts) ?leaf v r"
    by auto
  show ?thesis
  proof (cases r)
    case (Inl o')
    have "node_at t d parts = None" using r Inl parts by (simp add: descended_def)
    then have "verdict_ok t d parts mode v o'" using r Inl by (simp add: verdict_ok_def content_at_def descended_def)
    moreover have "grows (length parts) w v" using g by (rule grows_mono) simp
    moreover have "open_parts (still t) root parts mode (fds, w) = (Inr o', (fds1, v))"
      using run Inl by (simp add: open_parts_def io_bind_def)
    ultimately show ?thesis using r Inl by (auto simp: opens_well_def descended_def)
  next
    case (Inr q)
    then obtain current guards where q: "r = Inr (current, guards)" by (cases q) auto
    with r obtain d' where d': "map_of (to_fds v) current = Some d'" "node_at t d (butlast parts) = Some d'"
      "list_all (guard_ok t v) guards" "boundary_ok t d' [?leaf]"
      by (auto simp: descended_def simp del: boundary_ok.simps)
    from open_leaf_still [where t = t and d = d', OF d'(1,4,3), of mode fds1] obtain opened fds' u where
      leaf: "open_leaf (still t) current ?leaf guards mode (fds1, v) = (Inr opened, (fds', u))"
      "opens_well t d' [?leaf] mode 1 v opened u" by blast
    have ne: "parts \<noteq> []" using assms(2) by (cases parts) auto
    have "open_parts (still t) root parts mode (fds, w) = (Inr opened, (fds', u))"
      using run q leaf(1) ne by (simp add: open_parts_def io_bind_def)
    moreover have "node_at t d parts = node_at t d' [?leaf]"
      using node_at_append [of t d "butlast parts" "[?leaf]"] d'(2) parts by simp
    then have "content_at t d parts mode = content_at t d' [?leaf] mode" by (simp add: content_at_def)
    then have "verdict_ok t d parts mode u opened" using leaf(2) by (simp add: opens_well_def verdict_ok_def)
    moreover have "grows (length parts) w u"
      using grows_trans [OF g, of 1 u] leaf(2) ne by (simp add: opens_well_def)
    ultimately show ?thesis using leaf(2) by (auto simp: opens_well_def)
  qed
qed

lemma open_worktree_entry_still:
  assumes "map_of (to_fds w) root = Some d" and "boundary_ok t d (path_parts p)"
  shows "\<exists>opened v. open_worktree_entry (still t) root p mode w = (Inr opened, v)
    \<and> opens_well t d (path_parts p) mode (Suc (length (path_parts p))) w opened v"
proof -
  let ?fd = "free_fd (to_fds w)"
  let ?u = "opened_on d w"
  have "map_of (to_fds ?u) ?fd = Some d" by simp
  from open_parts_still [where t = t and d = d, OF this assms(2), of mode "[?fd]"] obtain opened fds' v where
    run: "open_parts (still t) ?fd (path_parts p) mode ([?fd], ?u) = (Inr opened, (fds', v))"
    and well: "opens_well t d (path_parts p) mode (length (path_parts p)) ?u opened v" by blast
  have "open_worktree_entry (still t) root p mode w = (Inr opened, v)"
    by (simp add: open_worktree_entry_def io_bind_def dup_still [OF assms(1)] run)
  moreover have "grows (Suc (length (path_parts p))) w v"
    using grows_trans [OF grows_opened [of w d], of "length (path_parts p)" v] well by (simp add: opens_well_def)
  ultimately show ?thesis using well by (auto simp: opens_well_def)
qed

section \<open>Validation\<close>

lemma guards_still:
  "list_all (guard_ok t w) gs \<Longrightarrow> \<exists>v. validate_guards (still t) gs w = (Inr (), v) \<and> to_fds v = to_fds w"
proof (induction gs arbitrary: w)
  case (Cons g gs)
  then obtain d f where g: "map_of (to_fds w) (dg_parent_descriptor g) = Some d" "inode_type (t d) = ''directory''"
    "map_of (in_entries (t d)) (dg_name g) = Some f" "map_of (to_fds w) (dg_descriptor g) = Some f"
    "dg_fingerprint g = node_print t f" by (auto simp: guard_ok_def)
  have st: "fd_stat_at (still t) (dg_parent_descriptor g) (dg_name g) (tick w) = (Inr (in_stat (t f)), tick (tick w))"
    by (rule stat_at_still [where t = t and d = d]) (use g in auto)
  have "list_all (guard_ok t (tick (tick w))) gs"
    using Cons.prems guard_ok_later [OF _ later_same, of t w _ "tick (tick w)"] by (auto simp: list_all_iff)
  from Cons.IH [OF this] show ?case
    using g(5) by (auto simp: io_bind_def fstat_still [OF g(4)] st node_print_def)
qed simp

lemma validate_still:
  assumes "opened_ok t w opened"
  shows "\<exists>v. validate_opened_worktree_entry (still t) opened w = (Inr (), v) \<and> to_fds v = to_fds w"
proof -
  from assms have "list_all (guard_ok t w) (ow_directory_guards opened)" by (simp add: opened_ok_def)
  from guards_still [OF this] obtain u where u: "validate_guards (still t) (ow_directory_guards opened) w = (Inr (), u)"
    "to_fds u = to_fds w" by blast
  have o': "opened_ok t u opened" by (rule opened_ok_later [OF assms later_same [OF u(2)]])
  obtain x where x: "validate_descriptor (still t) opened u = (Inr (), x)" "to_fds x = to_fds w"
  proof (cases "ow_descriptor opened")
    case None
    then show ?thesis using u(2) by (intro that [of u]) (simp_all add: validate_descriptor_def)
  next
    case (Some fd)
    with o' obtain f where "map_of (to_fds u) fd = Some f" "ow_fingerprint opened = Some (node_print t f)"
      by (auto simp: opened_ok_def handle_ok_def)
    then show ?thesis using u(2) Some
      by (intro that [of "tick u"]) (simp_all add: validate_descriptor_def io_bind_def fstat_still node_print_def)
  qed
  have "opened_ok t x opened" by (rule opened_ok_later [OF assms later_same [OF x(2)]])
  then obtain d where d: "map_of (to_fds x) (ow_leaf_parent_descriptor opened) = Some d" "inode_type (t d) = ''directory''"
    "ow_fingerprint opened = map_option (node_print t) (map_of (in_entries (t d)) (ow_leaf_name opened))"
    by (auto simp: opened_ok_def leaf_ok_def)
  have "validate_leaf (still t) opened x = (Inr (), tick x)"
    using d(3) by (cases "map_of (in_entries (t d)) (ow_leaf_name opened)")
      (simp_all add: validate_leaf_def io_bind_def stat_if_present_still [where t = t and d = d, OF d(1,2)] node_print_def)
  then show ?thesis using u x by (auto simp: validate_opened_worktree_entry_def io_bind_def)
qed

lemma operation_still: "run_filesystem_operation (still t) m = m"
  by (rule undisturbed_operation [OF still_undisturbed])

section \<open>A batch\<close>

definition pair_ok :: "tree \<Rightarrow> nat \<Rightarrow> tree_os \<Rightarrow> index_entry \<times> opened_entry \<Rightarrow> bool" where
  "pair_ok t d w = (\<lambda>(e, opened). opened_ok t w opened \<and> verdict_ok t d (path_parts (ie_path e)) (ie_mode e) w opened)"

lemma pair_ok_later: "pair_ok t d w x \<Longrightarrow> later w v \<Longrightarrow> pair_ok t d v x"
  by (auto simp: pair_ok_def intro: opened_ok_later verdict_ok_later)

definition all_owned :: "opened_list \<Rightarrow> nat list" where
  "all_owned os = concat (map (\<lambda>(_, opened). ow_owned_descriptors opened) os)"

lemma all_owned_simps [simp]:
  "all_owned [] = []" "all_owned ((e, opened) # os) = ow_owned_descriptors opened @ all_owned os"
  by (simp_all add: all_owned_def)

lemma all_owned_set: "set (all_owned os) = owned_by os"
  by (auto simp: all_owned_def owned_by_def)

definition keys :: "tree_os \<Rightarrow> nat set" where
  "keys w = fst ` set (to_fds w)"

lemma later_keys: "later w v \<Longrightarrow> keys w \<subseteq> keys v"
  unfolding later_def keys_def by (metis dom_map_of_conv_image_fst map_le_implies_dom_le)

definition entries_room :: "index_entry list \<Rightarrow> nat" where
  "entries_room es = sum_list (map (\<lambda>e. Suc (length (path_parts (ie_path e)))) es)"

definition opened_batch :: "tree \<Rightarrow> nat \<Rightarrow> index_entry list \<Rightarrow> tree_os \<Rightarrow> opened_list \<Rightarrow> tree_os \<Rightarrow> bool" where
  "opened_batch t d es w os v \<longleftrightarrow> map fst os = es \<and> grows (entries_room es) w v \<and> list_all (pair_ok t d v) os
     \<and> distinct (all_owned os) \<and> owned_by os \<subseteq> keys v \<and> owned_by os \<inter> keys w = {}
     \<and> without (owned_by os) (to_fds v) = to_fds w"

lemma open_entries_still:
  assumes "map_of (to_fds w) root = Some d" and "list_all (\<lambda>e. boundary_ok t d (path_parts (ie_path e))) es"
  shows "\<exists>os v. open_entries (still t) root es (os0, w) = (Inr (), (os0 @ os, v)) \<and> opened_batch t d es w os v"
  using assms
proof (induction es arbitrary: os0 w)
  case Nil
  then show ?case
    using grows_same [of w w 0] by (auto simp: opened_batch_def all_owned_def entries_room_def)
next
  case (Cons e es)
  from Cons.prems(2) have b: "boundary_ok t d (path_parts (ie_path e))" by simp
  from open_worktree_entry_still [where t = t and d = d, OF Cons.prems(1) b, of "ie_mode e"] obtain opened u where
    run: "open_worktree_entry (still t) root (ie_path e) (ie_mode e) w = (Inr opened, u)"
    and well: "opens_well t d (path_parts (ie_path e)) (ie_mode e) (Suc (length (path_parts (ie_path e)))) w opened u"
    by blast
  let ?own = "ow_owned_descriptors opened"
  from open_worktree_entry_fds [OF run] have own: "without (set ?own) (to_fds u) = to_fds w"
    "set ?own \<inter> keys w = {}" "distinct ?own" "set ?own \<subseteq> keys u" by (simp_all add: keys_def)
  have wu: "later w u" using well by (simp add: opens_well_def grows_def)
  have "map_of (to_fds u) root = Some d" using later_lookup [OF wu Cons.prems(1)] .
  moreover have "list_all (\<lambda>e. boundary_ok t d (path_parts (ie_path e))) es" using Cons.prems(2) by simp
  ultimately obtain os v where rest: "open_entries (still t) root es (os0 @ [(e, opened)], u) = (Inr (), ((os0 @ [(e, opened)]) @ os, v))"
    and batch: "opened_batch t d es u os v" using Cons.IH [of u "os0 @ [(e, opened)]"] by blast
  from batch have uv: "later u v" by (simp add: opened_batch_def grows_def)
  have "open_entries (still t) root (e # es) (os0, w) = (Inr (), (os0 @ (e, opened) # os, v))"
    using rest by (simp add: operation_still io_bind_def io_inner_def run)
  moreover have "opened_batch t d (e # es) w ((e, opened) # os) v"
    unfolding opened_batch_def
  proof (intro conjI)
    show "map fst ((e, opened) # os) = e # es" using batch by (simp add: opened_batch_def)
    show "grows (entries_room (e # es)) w v"
      using grows_trans [of "Suc (length (path_parts (ie_path e)))" w u "entries_room es" v] well batch
      by (simp add: opens_well_def opened_batch_def entries_room_def)
    show "list_all (pair_ok t d v) ((e, opened) # os)"
      using well batch pair_ok_later [OF _ uv, of t d "(e, opened)"]
      by (simp add: opens_well_def opened_batch_def pair_ok_def)
    have disjoint: "set ?own \<inter> owned_by os = {}" using own(4) batch by (auto simp: opened_batch_def)
    show "distinct (all_owned ((e, opened) # os))"
      using own(3) batch disjoint by (simp add: opened_batch_def all_owned_def all_owned_set [unfolded all_owned_def] del: set_concat)
    show "owned_by ((e, opened) # os) \<subseteq> keys v"
      using own(4) later_keys [OF uv] batch by (auto simp: opened_batch_def)
    show "owned_by ((e, opened) # os) \<inter> keys w = {}"
      using own(2) later_keys [OF wu] batch by (auto simp: opened_batch_def)
    have "without (set ?own) (without (owned_by os) (to_fds v)) = to_fds w"
      using batch own(1) by (simp add: opened_batch_def del: without_without)
    then show "without (owned_by ((e, opened) # os)) (to_fds v) = to_fds w" by simp
  qed
  ultimately show ?case by blast
qed

lemma close_still: "fd \<in> keys w \<Longrightarrow> \<exists>v. fd_close (still t) fd w = (Inr (), v)"
proof -
  assume "fd \<in> keys w"
  then have "map_of (to_fds w) fd \<noteq> None" by (simp add: keys_def map_of_eq_None_iff)
  then show ?thesis by (auto simp: fd_close_def with_fd_def look_tick)
qed

lemma without_keys: "to_fds v = without A (to_fds w) \<Longrightarrow> keys v = keys w - A"
  by (force simp: keys_def without_def)

lemma close_in_order_still:
  "distinct fds \<Longrightarrow> set fds \<subseteq> keys w \<Longrightarrow> fst (close_fds_in_order (still t) fds w) = None"
proof (induction fds arbitrary: w)
  case (Cons fd fds)
  then obtain v where v: "fd_close (still t) fd w = (Inr (), v)" using close_still by fastforce
  have "to_fds v = without {fd} (to_fds w)" using fd_close_fds [of "still t" fd w] v by simp
  then have "set fds \<subseteq> keys v" using Cons.prems by (auto simp: without_keys)
  with Cons v show ?case by (auto split: prod.splits)
qed simp

lemma close_opened_still:
  "distinct (all_owned os) \<Longrightarrow> owned_by os \<subseteq> keys w \<Longrightarrow> fst (close_opened (still t) os w) = None"
proof (induction os arbitrary: w)
  case (Cons x os)
  obtain e opened where x: "x = (e, opened)" by fastforce
  let ?own = "ow_owned_descriptors opened"
  obtain first v where c: "close_fds (still t) ?own w = (first, v)" by fastforce
  have "first = None"
    using close_in_order_still [of "rev ?own" w t] Cons.prems c by (simp add: x all_owned_def close_fds_def)
  moreover have "to_fds v = without (set ?own) (to_fds w)" using close_fds_fds [of "still t" ?own w] c by simp
  then have "owned_by os \<subseteq> keys v"
    using Cons.prems all_owned_set [of os] by (auto simp: x all_owned_def without_keys)
  ultimately show ?case using Cons.IH [of v] Cons.prems c by (auto simp: x all_owned_def split: prod.splits)
qed simp

section \<open>Hashing and comparing\<close>

text \<open>What the second loop decides at once, and what it leaves to the hasher.\<close>

definition now_dirty :: "tree \<Rightarrow> nat \<Rightarrow> digest \<Rightarrow> string \<Rightarrow> index_entry \<Rightarrow> bool" where
  "now_dirty t d hash algorithm e \<longleftrightarrow>
     (case content_at t d (path_parts (ie_path e)) (ie_mode e) of
        None \<Rightarrow> True
      | Some content \<Rightarrow> ie_mode e = symlink_index_mode \<and> hash algorithm (blob_text content) \<noteq> ie_object_id e)"

definition is_hashed :: "tree \<Rightarrow> nat \<Rightarrow> index_entry \<Rightarrow> bool" where
  "is_hashed t d e \<longleftrightarrow>
     content_at t d (path_parts (ie_path e)) (ie_mode e) \<noteq> None \<and> ie_mode e \<noteq> symlink_index_mode"

definition hash_of :: "tree \<Rightarrow> nat \<Rightarrow> digest \<Rightarrow> string \<Rightarrow> index_entry \<Rightarrow> string" where
  "hash_of t d hash algorithm e = hash algorithm (blob_text (the (content_at t d (path_parts (ie_path e)) (ie_mode e))))"

lemma unchanged_cases:
  "\<not> unchanged_entry t d hash algorithm e \<longleftrightarrow>
     now_dirty t d hash algorithm e \<or> is_hashed t d e \<and> hash_of t d hash algorithm e \<noteq> ie_object_id e"
  by (auto simp: unchanged_entry_def now_dirty_def is_hashed_def hash_of_def split: option.splits)

lemma check_opened_still:
  assumes "pair_ok t d w (e, opened)" and "algorithm \<in> {''sha1'', ''sha256''}"
  shows "\<exists>v. check_opened (still t) hash algorithm e opened w
      = (Inr (if now_dirty t d hash algorithm e then [ie_path e] else [],
              if is_hashed t d e then [(e, opened)] else []), v) \<and> to_fds v = to_fds w"
proof -
  let ?c = "content_at t d (path_parts (ie_path e)) (ie_mode e)"
  from assms(1) have ok: "opened_ok t w opened" and verdict: "verdict_ok t d (path_parts (ie_path e)) (ie_mode e) w opened"
    by (simp_all add: pair_ok_def)
  from validate_still [OF ok] obtain v where v: "validate_opened_worktree_entry (still t) opened w = (Inr (), v)"
    "to_fds v = to_fds w" by blast
  show ?thesis
  proof (cases ?c)
    case None
    then have "ow_kind opened \<noteq> ''matched'' \<or> ow_mode opened \<noteq> Some (ie_mode e)"
      using verdict by (simp add: verdict_ok_def)
    with None v show ?thesis
      by (auto simp: check_opened_def operation_still io_bind_def now_dirty_def is_hashed_def)
  next
    case (Some content)
    then have m: "\<not> (ow_kind opened \<noteq> ''matched'' \<or> ow_mode opened \<noteq> Some (ie_mode e))"
      using verdict by (simp add: verdict_ok_def)
    show ?thesis
    proof (cases "ie_mode e = symlink_index_mode")
      case True
      then have "ow_symlink_content opened = Some content" using verdict Some by (simp add: verdict_ok_def)
      moreover have "hash_git_blob hash algorithm content = Inr (hash algorithm (blob_text content))"
        using assms(2) by (simp add: hash_git_blob_def)
      ultimately show ?thesis using m v Some True
        by (auto simp: check_opened_def operation_still io_bind_def now_dirty_def is_hashed_def from_result_def)
    next
      case False
      then have "ow_symlink_content opened = None" and "ow_descriptor opened \<noteq> None"
        using verdict Some by (auto simp: verdict_ok_def)
      moreover have "ow_fingerprint opened \<noteq> None"
        using ok calculation(2) by (auto simp: opened_ok_def handle_ok_def)
      ultimately show ?thesis using m Some False
        by (simp add: check_opened_def now_dirty_def is_hashed_def)
    qed
  qed
qed

lemma pairs_ok_same: "list_all (pair_ok t d w) os \<Longrightarrow> to_fds v = to_fds w \<Longrightarrow> list_all (pair_ok t d v) os"
  using pair_ok_later [OF _ later_same] by (auto simp: list_all_iff)

lemma check_entries_still:
  assumes "list_all (pair_ok t d w) os" and "algorithm \<in> {''sha1'', ''sha256''}"
  shows "\<exists>v. check_entries (still t) hash algorithm os w
      = (Inr (map ie_path (filter (now_dirty t d hash algorithm) (map fst os)), filter (is_hashed t d \<circ> fst) os), v)
    \<and> to_fds v = to_fds w"
  using assms(1)
proof (induction os arbitrary: w)
  case (Cons x os)
  obtain e opened where x: "x = (e, opened)" by fastforce
  from Cons.prems have "pair_ok t d w (e, opened)" by (simp add: x)
  from check_opened_still [OF this assms(2), of hash] obtain u where
    u: "check_opened (still t) hash algorithm e opened w
      = (Inr (if now_dirty t d hash algorithm e then [ie_path e] else [], if is_hashed t d e then [(e, opened)] else []), u)"
    "to_fds u = to_fds w" by blast
  have "list_all (pair_ok t d u) os" using Cons.prems pairs_ok_same [OF _ u(2)] by auto
  from Cons.IH [OF this] u show ?case by (auto simp: x io_bind_def)
qed simp

lemma compare_digests_still:
  "list_all (pair_ok t d w) os \<Longrightarrow> \<exists>v. compare_digests (still t) os (map f os) w
      = (Inr (map (ie_path \<circ> fst) (filter (\<lambda>x. f x \<noteq> ie_object_id (fst x)) os)), v) \<and> to_fds v = to_fds w"
proof (induction os arbitrary: w)
  case (Cons x os)
  obtain e opened where x: "x = (e, opened)" by fastforce
  from Cons.prems validate_still [of t w opened] obtain u where
    u: "validate_opened_worktree_entry (still t) opened w = (Inr (), u)" "to_fds u = to_fds w"
    by (auto simp: x pair_ok_def)
  have "list_all (pair_ok t d u) os" using Cons.prems pairs_ok_same [OF _ u(2)] by auto
  from Cons.IH [OF this] u show ?case by (auto simp: x io_bind_def operation_still)
qed simp

subsection \<open>The requests\<close>

lemma hashed_descriptor:
  assumes "pair_ok t d w (e, opened)" and "is_hashed t d e"
  obtains fd f where "ow_descriptor opened = Some fd" and "map_of (to_fds w) fd = Some f"
    and "ow_fingerprint opened = Some (node_print t f)" and "fd \<in> set (ow_owned_descriptors opened)"
    and "fd < length (to_fds w)" and "inode_type (t f) = ''regular''"
    and "content_at t d (path_parts (ie_path e)) (ie_mode e) = Some (in_data (t f))"
  using assms by (fastforce simp: pair_ok_def is_hashed_def verdict_ok_def opened_ok_def handle_ok_def)

lemma requests_distinct:
  assumes "list_all (pair_ok t d w) os" and "distinct (all_owned os)"
  shows "distinct (map fst (blob_requests (filter (is_hashed t d \<circ> fst) os)))
    \<and> set (map fst (blob_requests (filter (is_hashed t d \<circ> fst) os))) \<subseteq> set (all_owned os)"
  using assms
proof (induction os)
  case (Cons x os)
  obtain e opened where x: "x = (e, opened)" by fastforce
  have "list_all (pair_ok t d w) os" "distinct (all_owned os)" using Cons.prems by (simp_all add: x)
  from Cons.IH [OF this] have rest: "distinct (map fst (blob_requests (filter (is_hashed t d \<circ> fst) os)))"
    "set (map fst (blob_requests (filter (is_hashed t d \<circ> fst) os))) \<subseteq> set (all_owned os)"
    by blast+
  have owned': "set (all_owned (x # os)) = set (ow_owned_descriptors opened) \<union> set (all_owned os)"
    "set (ow_owned_descriptors opened) \<inter> set (all_owned os) = {}"
    using Cons.prems(2) by (simp_all add: x)
  show ?case
  proof (cases "is_hashed t d e")
    case True
    with Cons.prems(1) obtain fd where "ow_descriptor opened = Some fd" "fd \<in> set (ow_owned_descriptors opened)"
      using hashed_descriptor [of t d w e opened] by (auto simp: x)
    with rest owned' True show ?thesis by (auto simp: x blob_requests_def comp_def)
  next
    case False
    with rest owned' show ?thesis by (auto simp: x comp_def)
  qed
qed (simp add: blob_requests_def)

definition room_for_names :: "nat \<Rightarrow> bool" where
  "room_for_names n \<longleftrightarrow> n \<le> 10 ^ int_max_str_digits"

lemma printable_below: "room_for_names n \<Longrightarrow> fd < n \<Longrightarrow> printable_nat fd"
proof -
  assume "room_for_names n" and "fd < n"
  then have "fd < 10 ^ int_max_str_digits" unfolding room_for_names_def by (blast intro: less_le_trans)
  moreover have "0 < int_max_str_digits" by (simp add: int_max_str_digits_def)
  ultimately show ?thesis unfolding printable_nat_def by (rule digits_of_length)
qed

lemma requests_open:
  assumes "list_all (pair_ok t d w) os" and "sizes_ok t" and "room_for_names (length (to_fds w))"
  shows "list_all (open_request t w) (blob_requests (filter (is_hashed t d \<circ> fst) os))"
  unfolding list_all_iff
proof
  fix r assume "r \<in> set (blob_requests (filter (is_hashed t d \<circ> fst) os))"
  then obtain e opened where x: "(e, opened) \<in> set os" "is_hashed t d e"
    and r: "r = (the (ow_descriptor opened), fp_size (the (ow_fingerprint opened)))"
    by (auto simp: blob_requests_def)
  from assms(1) x(1) have "pair_ok t d w (e, opened)" by (auto simp: list_all_iff)
  from hashed_descriptor [OF this x(2)] obtain fd f where f: "ow_descriptor opened = Some fd" "map_of (to_fds w) fd = Some f"
    "ow_fingerprint opened = Some (node_print t f)" "fd < length (to_fds w)" "inode_type (t f) = ''regular''"
    by metis
  moreover have "sr_size (in_stat (t f)) = int (length (in_data (t f)))" "printable_nat (length (in_data (t f)))"
    using assms(2) f(5) by (simp_all add: sizes_ok_def)
  ultimately show "open_request t w r"
    using printable_below [OF assms(3)] by (simp add: r open_request_def node_print_def file_fingerprint_of_def)
qed

lemma requests_texts:
  assumes "list_all (pair_ok t d w) os"
  shows "map (\<lambda>(fd, _). hash algorithm (blob_text (in_data (t (the (map_of (to_fds w) fd))))))
      (blob_requests (filter (is_hashed t d \<circ> fst) os))
    = map (hash_of t d hash algorithm \<circ> fst) (filter (is_hashed t d \<circ> fst) os)"
proof -
  have "hash algorithm (blob_text (in_data (t (the (map_of (to_fds w) (the (ow_descriptor opened)))))))
      = hash_of t d hash algorithm e" if x: "(e, opened) \<in> set os" "is_hashed t d e" for e opened
  proof -
    from assms x(1) have "pair_ok t d w (e, opened)" by (auto simp: list_all_iff)
    from hashed_descriptor [OF this x(2)] obtain fd f where "ow_descriptor opened = Some fd" "map_of (to_fds w) fd = Some f"
      "content_at t d (path_parts (ie_path e)) (ie_mode e) = Some (in_data (t f))"
      by metis
    then show ?thesis by (simp add: hash_of_def)
  qed
  then show ?thesis by (auto simp: blob_requests_def)
qed

section \<open>All batches\<close>

definition changed_paths :: "tree \<Rightarrow> nat \<Rightarrow> digest \<Rightarrow> string \<Rightarrow> index_entry list \<Rightarrow> path set" where
  "changed_paths t d hash algorithm es = ie_path ` {e \<in> set es. \<not> unchanged_entry t d hash algorithm e}"

lemma changed_paths_append:
  "changed_paths t d hash algorithm (xs @ ys) = changed_paths t d hash algorithm xs \<union> changed_paths t d hash algorithm ys"
  by (auto simp: changed_paths_def)

lemma entries_room_take: "entries_room (take n es) \<le> entries_room es"
  and entries_room_drop: "entries_room (drop n es) \<le> entries_room es"
  unfolding entries_room_def
  using sum_list_append [of "map (\<lambda>e. Suc (length (path_parts (ie_path e)))) (take n es)"
      "map (\<lambda>e. Suc (length (path_parts (ie_path e)))) (drop n es)"]
  by (simp_all add: map_append [symmetric] del: map_append)

lemma room_mono: "room_for_names n \<Longrightarrow> m \<le> n \<Longrightarrow> room_for_names m"
  unfolding room_for_names_def by (rule le_trans)

context blob_hasher
begin

lemma check_batch_still:
  assumes "digest_ok hash" and "sizes_ok t" and "algorithm \<in> {''sha1'', ''sha256''}"
    and "list_all (pair_ok t d w) os" and "distinct (all_owned os)" and "length os \<le> blob_hash_batch_max"
    and "room_for_names (length (to_fds w))"
  shows "\<exists>dirty v. check_batch (still t) hash hasher algorithm os w = (Inr dirty, v)
    \<and> set dirty = changed_paths t d hash algorithm (map fst os)"
proof -
  let ?regular = "filter (is_hashed t d \<circ> fst) os"
  let ?now = "map ie_path (filter (now_dirty t d hash algorithm) (map fst os))"
  let ?later = "map (ie_path \<circ> fst) (filter (\<lambda>x. hash_of t d hash algorithm (fst x) \<noteq> ie_object_id (fst x)) ?regular)"
  from check_entries_still [OF assms(4,3), of hash] obtain u where
    u: "check_entries (still t) hash algorithm os w = (Inr (?now, ?regular), u)" "to_fds u = to_fds w" by blast
  have all: "changed_paths t d hash algorithm (map fst os) = set ?now \<union> set ?later"
    unfolding changed_paths_def unchanged_cases by force
  show ?thesis
  proof (cases "?regular = []")
    case True
    then have "check_batch (still t) hash hasher algorithm os w = (Inr ?now, u)"
      using u(1) by (simp add: check_batch_def io_bind_def)
    moreover have "changed_paths t d hash algorithm (map fst os) = set ?now"
      unfolding all using True by simp
    ultimately show ?thesis by blast
  next
    case False
    let ?requests = "blob_requests ?regular"
    have pairs: "list_all (pair_ok t d u) os" by (rule pairs_ok_same [OF assms(4) u(2)])
    have "length ?requests \<le> blob_hash_batch_max"
      using assms(6) length_filter_le [of "is_hashed t d \<circ> fst" os] by (simp add: blob_requests_def del: length_filter_le)
    moreover have "?requests \<noteq> []" using False by (simp add: blob_requests_def)
    moreover have "distinct (map fst ?requests)" using requests_distinct [OF pairs assms(5)] by blast
    moreover have "list_all (open_request t u) ?requests" by (rule requests_open [OF pairs assms(2)]) (simp add: u(2) assms(7))
    ultimately have "fst (hasher ?requests algorithm u)
        = Inr (map (\<lambda>(fd, _). hash algorithm (blob_text (in_data (t (the (map_of (to_fds u) fd)))))) ?requests)"
      using assms(1,3) by (intro answers)
    then have "fst (hasher ?requests algorithm u) = Inr (map (hash_of t d hash algorithm \<circ> fst) ?regular)"
      unfolding requests_texts [OF pairs] .
    then obtain x where x: "hasher ?requests algorithm u = (Inr (map (hash_of t d hash algorithm \<circ> fst) ?regular), x)"
      by (cases "hasher ?requests algorithm u") auto
    have "to_fds x = to_fds w" using keeps_fdsD [OF keeps [of ?requests algorithm], of u] x u(2) by simp
    from pairs_ok_same [OF assms(4) this] have "list_all (pair_ok t d x) ?regular" by (auto simp: list_all_iff)
    from compare_digests_still [OF this, of "hash_of t d hash algorithm \<circ> fst"] obtain v where
      v: "compare_digests (still t) ?regular (map (hash_of t d hash algorithm \<circ> fst) ?regular) x = (Inr ?later, v)"
      by auto
    have "check_batch (still t) hash hasher algorithm os w = (Inr (?now @ ?later), v)"
      using False u(1) x v by (simp add: check_batch_def io_bind_def)
    then show ?thesis unfolding all by auto
  qed
qed

lemma compare_worktree_batch_still:
  assumes "digest_ok hash" and "sizes_ok t" and "algorithm \<in> {''sha1'', ''sha256''}"
    and "map_of (to_fds w) root = Some d" and "list_all (\<lambda>e. boundary_ok t d (path_parts (ie_path e))) es"
    and "length es \<le> blob_hash_batch_max" and "room_for_names (length (to_fds w) + entries_room es)"
  shows "\<exists>dirty v. compare_worktree_batch (still t) hash hasher algorithm root es w = (Inr dirty, v)
    \<and> set dirty = changed_paths t d hash algorithm es \<and> to_fds v = to_fds w"
proof -
  from open_entries_still [where t = t and d = d, OF assms(4,5), of "[]"] obtain os w1 where
    o': "open_entries (still t) root es ([], w) = (Inr (), (os, w1))" and batch: "opened_batch t d es w os w1" by auto
  from batch have fst_os: "map fst os = es" and pairs: "list_all (pair_ok t d w1) os" and dist: "distinct (all_owned os)"
    and own: "owned_by os \<subseteq> keys w1" and len: "length (to_fds w1) \<le> length (to_fds w) + entries_room es"
    by (simp_all add: opened_batch_def grows_def)
  have "length os \<le> blob_hash_batch_max" using fst_os assms(6) by (metis length_map)
  from check_batch_still [OF assms(1-3) pairs dist this room_mono [OF assms(7) len]] obtain dirty w2 where
    c: "check_batch (still t) hash hasher algorithm os w1 = (Inr dirty, w2)"
    and dirty: "set dirty = changed_paths t d hash algorithm es" by (auto simp: fst_os)
  have w2: "to_fds w2 = to_fds w1"
    using keeps_fdsD [OF keeps_fds_check_batch [of hasher algorithm "still t" hash os], OF keeps, of w1] c by simp
  have "distinct (all_owned (rev os))" 
  proof -
    have "mset (all_owned (rev os)) = mset (all_owned os)"
      by (induction os) (auto simp: all_owned_def)
    then show ?thesis using dist by (metis mset_eq_imp_distinct_iff)
  qed
  moreover have "owned_by (rev os) \<subseteq> keys w2" using own w2 by (simp add: keys_def)
  ultimately have "fst (close_opened (still t) (rev os) w2) = None" by (rule close_opened_still)
  then obtain w3 where f: "close_opened (still t) (rev os) w2 = (None, w3)"
    by (cases "close_opened (still t) (rev os) w2") simp
  have "to_fds w3 = to_fds w"
    using close_opened_fds [of "still t" "rev os" w2] f w2 batch by (simp add: opened_batch_def)
  then show ?thesis using o' c f dirty by (auto simp: compare_worktree_batch_def)
qed

lemma compare_batches_still:
  assumes "digest_ok hash" and "sizes_ok t" and "algorithm \<in> {''sha1'', ''sha256''}"
    and "map_of (to_fds w) root = Some d" and "list_all (\<lambda>e. boundary_ok t d (path_parts (ie_path e))) es"
    and "room_for_names (length (to_fds w) + entries_room es)"
  shows "\<exists>dirty v. compare_batches (still t) hash hasher algorithm root es w = (Inr dirty, v)
    \<and> set dirty = changed_paths t d hash algorithm es \<and> to_fds v = to_fds w"
  using assms(4-6)
proof (induction "length es" arbitrary: es w rule: less_induct)
  case less
  show ?case
  proof (cases "es = []")
    case True
    then show ?thesis by (subst compare_batches.simps) (simp add: changed_paths_def)
  next
    case False
    let ?now = "take blob_hash_batch_max es" and ?rest = "drop blob_hash_batch_max es"
    have parts: "list_all (\<lambda>e. boundary_ok t d (path_parts (ie_path e))) ?now"
      "list_all (\<lambda>e. boundary_ok t d (path_parts (ie_path e))) ?rest"
      using less.prems(2) by (auto simp: list_all_iff dest: in_set_takeD in_set_dropD)
    have "room_for_names (length (to_fds w) + entries_room ?now)"
      by (rule room_mono [OF less.prems(3)]) (simp add: entries_room_take)
    from compare_worktree_batch_still [OF assms(1-3) less.prems(1) parts(1) _ this] obtain dirty u where
      u: "compare_worktree_batch (still t) hash hasher algorithm root ?now w = (Inr dirty, u)"
      "set dirty = changed_paths t d hash algorithm ?now" "to_fds u = to_fds w" by auto
    have "length ?rest < length es" using False by (simp add: blob_hash_batch_max_def)
    moreover have "map_of (to_fds u) root = Some d" using less.prems(1) u(3) by simp
    moreover have "room_for_names (length (to_fds u) + entries_room ?rest)"
      by (rule room_mono [OF less.prems(3)]) (simp add: u(3) entries_room_drop)
    ultimately obtain dirty' v where
      v: "compare_batches (still t) hash hasher algorithm root ?rest u = (Inr dirty', v)"
      "set dirty' = changed_paths t d hash algorithm ?rest" "to_fds v = to_fds u"
      using less.hyps [of ?rest u] parts(2) by blast
    have "compare_batches (still t) hash hasher algorithm root es w = (Inr (dirty @ dirty'), v)"
      using False u(1) v(1) by (subst compare_batches.simps) (simp add: io_bind_def)
    moreover have "set (dirty @ dirty') = changed_paths t d hash algorithm es"
      using u(2) v(2) changed_paths_append [of t d hash algorithm ?now ?rest] by simp
    ultimately show ?thesis using u(3) v(3) by auto
  qed
qed

end

end
