(* ===== verification/Dirty_Paths.thy ===== *)
theory Dirty_Paths
  imports Worktree_Exactness
begin

text \<open>
  \<open>_collect_dirty_paths\<close> as a whole against its specification: the comparison of index and HEAD,
  the batches of the work tree and the untracked files together report a path exactly when
  \<open>dirty_path\<close> holds. The last section shows the one way in which descriptors do leak.
\<close>

section \<open>The specification\<close>

text \<open>Index and HEAD record the same mode and object for the path, and there is no merge conflict.\<close>

definition agree :: "index_entry list \<Rightarrow> tree_entry list \<Rightarrow> path \<Rightarrow> bool" where
  "agree index head p \<longleftrightarrow>
     list_ex (\<lambda>e. ie_path e = p \<and> ie_stage e = 0 \<and>
       list_ex (\<lambda>h. te_path h = p \<and> te_mode h = ie_mode e \<and> te_object_id h = ie_object_id e) head) index"

text \<open>Entries with a work tree file: no conflict, no submodule and not marked \<open>skip-worktree\<close>.\<close>

definition is_checked :: "index_entry \<Rightarrow> bool" where
  "is_checked e \<longleftrightarrow> ie_stage e = 0 \<and> ie_mode e \<noteq> gitlink_index_mode \<and> ie_tag e \<noteq> ''S''"

definition object_ids :: "index_entry list \<Rightarrow> tree_entry list \<Rightarrow> string list" where
  "object_ids index head = map ie_object_id index @ map te_object_id head"

definition dirty_path ::
  "tree \<Rightarrow> nat \<Rightarrow> digest \<Rightarrow> index_entry list \<Rightarrow> tree_entry list \<Rightarrow> path list \<Rightarrow> path \<Rightarrow> bool" where
  "dirty_path t d hash index head untracked p \<longleftrightarrow>
     p \<in> set untracked
     \<or> (p \<in> set (map ie_path index @ map te_path head) \<and> \<not> agree index head p)
     \<or> list_ex (\<lambda>e. ie_path e = p \<and> is_checked e
          \<and> \<not> unchanged_entry t d hash (object_algorithm (map length (object_ids index head))) e) index"

text \<open>What Git guarantees of the stages of one path: either one merged entry or distinct conflict stages.\<close>

definition stages_ok :: "index_entry list \<Rightarrow> path \<Rightarrow> bool" where
  "stages_ok index p \<longleftrightarrow>
     (let stages = map ie_stage (candidates_of index p)
      in distinct stages \<and> (0 \<in> set stages \<longrightarrow> length stages = 1))"

section \<open>Index and HEAD\<close>

lemma head_entry_Some:
  assumes "distinct (map te_path head)"
  shows "head_entry_of head p = Some h \<longleftrightarrow> h \<in> set head \<and> te_path h = p"
proof -
  have "distinct (map fst (rev (map (\<lambda>t. (te_path t, t)) head)))"
    using assms by (simp add: comp_def rev_map [symmetric])
  then have "head_entry_of head p = Some h \<longleftrightarrow> (p, h) \<in> set (rev (map (\<lambda>t. (te_path t, t)) head))"
    unfolding head_entry_of_def by (rule map_of_eq_Some_iff)
  then show ?thesis by auto
qed

lemma head_entry_None: "head_entry_of head p = None \<longleftrightarrow> p \<notin> set (map te_path head)"
  by (auto simp: head_entry_of_def map_of_eq_None_iff image_image)

lemma candidates_mem: "e \<in> set (candidates_of index p) \<longleftrightarrow> e \<in> set index \<and> ie_path e = p"
  by (auto simp: candidates_of_def)

lemma agree_candidates:
  assumes "distinct (map te_path head)"
  shows "agree index head p \<longleftrightarrow>
    (\<exists>e \<in> set (candidates_of index p). ie_stage e = 0 \<and>
       (\<exists>h. head_entry_of head p = Some h \<and> te_mode h = ie_mode e \<and> te_object_id h = ie_object_id e))"
  by (auto simp: agree_def list_ex_iff candidates_mem head_entry_Some [OF assms])

lemma classify_path_ok:
  assumes "stages_ok index p" and "distinct (map te_path head)"
  shows "classify_path index head p = Inr (\<not> agree index head p, filter is_checked (candidates_of index p))"
proof -
  let ?c = "candidates_of index p"
  from assms(1) have stages: "distinct (map ie_stage ?c)" "0 \<in> set (map ie_stage ?c) \<Longrightarrow> length ?c = 1"
    by (auto simp: stages_ok_def Let_def)
  then have ok: "\<not> (\<not> distinct (map ie_stage ?c) \<or> 0 \<in> set (map ie_stage ?c) \<and> length (map ie_stage ?c) \<noteq> 1)"
    by auto
  note step = classify_path_def [of index head p, unfolded Let_def if_not_P [OF ok]]
  show ?thesis
  proof (cases "\<exists>e. ?c = [e] \<and> ie_stage e = 0")
    case True
    then obtain e where e: "?c = [e]" "ie_stage e = 0" by blast
    then show ?thesis
      unfolding step agree_candidates [OF assms(2)]
      by (cases "head_entry_of head p") (auto simp: is_checked_def)
  next
    case False
    have none: "e \<in> set ?c \<Longrightarrow> ie_stage e \<noteq> 0" for e
    proof
      assume "e \<in> set ?c" and "ie_stage e = 0"
      then have "0 \<in> set (map ie_stage ?c)" by force
      then have "length ?c = 1" by (rule stages(2))
      then obtain e' where "?c = [e']" by (auto simp: length_Suc_conv)
      with False \<open>e \<in> set ?c\<close> \<open>ie_stage e = 0\<close> show False by auto
    qed
    then have "filter is_checked ?c = []" by (auto simp: filter_empty_conv is_checked_def)
    moreover have "\<not> agree index head p" using none by (auto simp: agree_candidates [OF assms(2)])
    ultimately show ?thesis
      unfolding step using False by (auto split: list.splits)
  qed
qed

definition tracked :: "index_entry list \<Rightarrow> tree_entry list \<Rightarrow> path list" where
  "tracked index head = sorted_paths (map ie_path index @ map te_path head)"

lemma sorted_paths_props:
  "set (sorted_paths ps) = set ps" "distinct (sorted_paths ps)" "sorted (map str_path (sorted_paths ps))"
  by (simp_all add: sorted_paths_def)

lemma stages_ok_absent: "p \<notin> set (map ie_path index) \<Longrightarrow> stages_ok index p"
proof -
  assume "p \<notin> set (map ie_path index)"
  then have "candidates_of index p = []" by (auto simp: candidates_of_def filter_empty_conv)
  then show ?thesis by (simp add: stages_ok_def)
qed

lemma classify_paths_ok:
  assumes "list_all (stages_ok index) (map ie_path index)" and "distinct (map te_path head)"
  shows "classify_paths index head =
    Inr (filter (\<lambda>p. \<not> agree index head p) (tracked index head),
         concat (map (\<lambda>p. filter is_checked (candidates_of index p)) (tracked index head)))"
proof -
  let ?f = "\<lambda>p. (\<not> agree index head p, filter is_checked (candidates_of index p))"
  have each: "classify_path index head p = Inr (?f p)" for p
    using assms stages_ok_absent [of p index] by (intro classify_path_ok) (auto simp: list_all_iff)
  have all: "rmap (classify_path index head) ps = Inr (map ?f ps)" for ps
    by (induction ps) (simp_all add: each)
  have dirty: "map fst (filter (\<lambda>(_, dirty, _). dirty) (zip ps (map ?f ps))) = filter (\<lambda>p. \<not> agree index head p) ps" for ps
    by (induction ps) simp_all
  show ?thesis
    unfolding classify_paths_def Let_def tracked_def [symmetric] all
    using dirty [of "tracked index head"] by (simp add: comp_def)
qed

section \<open>The entries that are compared\<close>

definition compared :: "index_entry list \<Rightarrow> tree_entry list \<Rightarrow> index_entry list" where
  "compared index head = concat (map (\<lambda>p. filter is_checked (candidates_of index p)) (tracked index head))"

lemma compared_set: "set (compared index head) = {e \<in> set index. is_checked e}"
  by (auto simp: compared_def tracked_def sorted_paths_props candidates_mem)

lemma checked_candidate:
  assumes "stages_ok index p"
  shows "length (filter is_checked (candidates_of index p)) \<le> 1"
proof (cases "\<exists>e \<in> set (candidates_of index p). ie_stage e = 0")
  case True
  then have "0 \<in> set (map ie_stage (candidates_of index p))" by force
  then have "length (candidates_of index p) = 1" using assms by (auto simp: stages_ok_def Let_def)
  then show ?thesis using length_filter_le [of is_checked "candidates_of index p"] by linarith
next
  case False
  then have "filter is_checked (candidates_of index p) = []" by (auto simp: filter_empty_conv is_checked_def)
  then show ?thesis by simp
qed

lemma compared_distinct:
  assumes "list_all (stages_ok index) (map ie_path index)"
  shows "distinct (compared index head)"
proof -
  have ok: "stages_ok index p" for p
    using assms stages_ok_absent [of p index] by (auto simp: list_all_iff)
  have "distinct (concat (map (\<lambda>p. filter is_checked (candidates_of index p)) ps))" if "distinct ps" for ps
    using that
  proof (induction ps)
    case (Cons p ps)
    have "distinct (filter is_checked (candidates_of index p))"
      using checked_candidate [OF ok [of p]] by (cases "filter is_checked (candidates_of index p)") auto
    with Cons show ?case by (auto simp: candidates_mem simp del: filter_filter distinct_filter)
  qed simp
  then show ?thesis by (simp add: compared_def tracked_def sorted_paths_props)
qed

lemma room_subset:
  assumes "distinct xs" and "set xs \<subseteq> set ys"
  shows "entries_room xs \<le> entries_room ys"
proof -
  let ?f = "\<lambda>e. Suc (length (path_parts (ie_path e)))"
  have "mset_set (set xs) \<subseteq># mset_set (set ys)" using assms(2) by (intro subset_imp_msubset_mset_set) auto
  moreover have "mset xs = mset_set (set xs)" using assms(1) by (simp add: mset_set_set)
  moreover have "mset_set (set ys) \<subseteq># mset ys" using mset_set_set_mset_msubset [of "mset ys"] by simp
  ultimately have "mset xs \<subseteq># mset ys" by (metis subset_mset.order_trans)
  then obtain c where c: "mset ys = mset xs + c" by (auto simp: mset_subset_eq_exists_conv)
  have room: "entries_room zs = sum_mset (image_mset ?f (mset zs))" for zs
    unfolding entries_room_def by (metis mset_map sum_mset_sum_list)
  show ?thesis unfolding room c by simp
qed

section \<open>The dirty paths\<close>

lemma same_length_consistent:
  assumes "same_length ids"
  shows "require_consistent_object_format (map length ids) = Inr ()"
    and "object_algorithm (map length ids) \<in> {''sha1'', ''sha256''}"
proof -
  from assms obtain n where "set (map length ids) \<subseteq> {n}" by (auto simp: same_length_def list_all_iff)
  then have "card (set (map length ids)) \<le> 1" by (metis card_mono card.empty card_insert_disjoint empty_iff finite.emptyI finite_insert One_nat_def)
  then show "require_consistent_object_format (map length ids) = Inr ()"
    by (simp only: require_consistent_object_format_def length_remdups_card_conv not_less [symmetric] if_False)
  show "object_algorithm (map length ids) \<in> {''sha1'', ''sha256''}" by (simp add: object_algorithm_def)
qed

context blob_hasher
begin

lemma collect_dirty_paths_still:
  assumes "digest_ok hash" and "sizes_ok t" and "map_of (to_fds w) root = Some d"
    and "list_all (stages_ok index) (map ie_path index)" and "distinct (map te_path head)"
    and "same_length (object_ids index head)"
    and "list_all (\<lambda>e. boundary_ok t d (path_parts (ie_path e))) (filter is_checked index)"
    and "room_for_names (length (to_fds w) + entries_room index)"
  shows "\<exists>ds. fst (collect_dirty_paths (still t) hash hasher root index head untracked w) = Inr ds
    \<and> sorted (map str_path ds) \<and> distinct ds \<and> (\<forall>p. p \<in> set ds \<longleftrightarrow> dirty_path t d hash index head untracked p)"
proof -
  let ?lengths = "map length (object_ids index head)"
  let ?algorithm = "object_algorithm ?lengths"
  let ?now = "filter (\<lambda>p. \<not> agree index head p) (tracked index head)"
  have lengths: "map (\<lambda>e. length (ie_object_id e)) index @ map (\<lambda>t. length (te_object_id t)) head = ?lengths"
    by (simp add: object_ids_def comp_def)
  note format = same_length_consistent [OF assms(6)]
  have classes: "classify_paths index head = Inr (?now, compared index head)"
    unfolding compared_def by (rule classify_paths_ok [OF assms(4,5)])
  have bounds: "list_all (\<lambda>e. boundary_ok t d (path_parts (ie_path e))) (compared index head)"
    using assms(7) by (auto simp: list_all_iff compared_set)
  have "entries_room (compared index head) \<le> entries_room index"
    by (rule room_subset [OF compared_distinct [OF assms(4)]]) (auto simp: compared_set)
  then have room: "room_for_names (length (to_fds w) + entries_room (compared index head))"
    by (intro room_mono [OF assms(8)]) simp
  from compare_batches_still [OF assms(1,2) format(2) assms(3) bounds room] obtain dirty v where
    dirty: "compare_batches (still t) hash hasher ?algorithm root (compared index head) w = (Inr dirty, v)"
    "set dirty = changed_paths t d hash ?algorithm (compared index head)" by blast
  let ?ds = "sorted_paths (untracked @ ?now @ dirty)"
  have "collect_dirty_paths (still t) hash hasher root index head untracked w = (Inr ?ds, v)"
    unfolding collect_dirty_paths_def Let_def lengths
    by (simp add: io_bind_def from_result_def format(1) classes dirty(1))
  moreover have "p \<in> set ?ds \<longleftrightarrow> dirty_path t d hash index head untracked p" for p
    unfolding dirty_path_def
    by (auto simp: sorted_paths_props dirty(2) changed_paths_def compared_set tracked_def list_ex_iff)
  ultimately show ?thesis using sorted_paths_props by auto
qed

end

text \<open>
  C15. Over a work tree that holds still the reported paths are exactly the dirty ones, sorted and
  without repetition: untracked files, paths on which index and HEAD disagree or that are in
  conflict, and checked-out files whose kind, executable bit or Git object identifier differs from
  the index. The comparison resolves paths with descriptors, in batches of at most 64, and lets the
  helper process hash them, however its reads and writes are cut up.
\<close>

theorem dirty_paths_are_exact:
  assumes "digest_ok hash" and "sizes_ok t" and "map_of (to_fds w) root = Some d"
    and "list_all (stages_ok index) (map ie_path index)" and "distinct (map te_path head)"
    and "same_length (object_ids index head)"
    and "list_all (\<lambda>e. boundary_ok t d (path_parts (ie_path e))) (filter is_checked index)"
    and "room_for_names (length (to_fds w) + entries_room index)"
  shows "\<exists>ds. fst (collect_dirty_paths (still t) hash (hash_descriptors (helper_process (still t) hash short))
           root index head untracked w) = Inr ds
    \<and> sorted (map str_path ds) \<and> distinct ds \<and> (\<forall>p. p \<in> set ds \<longleftrightarrow> dirty_path t d hash index head untracked p)"
  using assms by (rule still_helper.collect_dirty_paths_still)

section \<open>A concrete work tree\<close>

definition ex_stat :: "int \<Rightarrow> int \<Rightarrow> int \<Rightarrow> stat_result" where
  "ex_stat n mode sz = \<lparr>sr_device = 1, sr_inode = n, sr_mode = mode, sr_size = sz, sr_mtime_ns = 0, sr_ctime_ns = 0\<rparr>"

text \<open>A directory with a file \<open>a\<close>, a link \<open>l\<close> to it and a directory \<open>d\<close>.\<close>

definition ex_tree :: tree where
  "ex_tree f =
     (if f = 1 then \<lparr>in_stat = ex_stat 1 33188 2, in_data = ''hi'', in_entries = []\<rparr>
      else if f = 2 then \<lparr>in_stat = ex_stat 2 41471 1, in_data = ''a'', in_entries = []\<rparr>
      else \<lparr>in_stat = ex_stat 0 16877 0, in_data = [], in_entries = [(''a'', 1), (''l'', 2), (''d'', 3)]\<rparr>)"

definition ex_digest :: digest where
  "ex_digest algorithm s = replicate (if algorithm = ''sha1'' then 40 else 64) (hex_char (length s mod 16))"

definition ex_entry :: "string \<Rightarrow> string \<Rightarrow> nat \<Rightarrow> index_entry" where
  "ex_entry name mode n =
     \<lparr>ie_tag = ''H'', ie_mode = mode, ie_object_id = replicate 40 (hex_char n), ie_stage = 0, ie_path = Path [] [name]\<rparr>"

definition ex_index :: "index_entry list" where
  "ex_index = [ex_entry ''a'' ''100644'' 9, ex_entry ''l'' ''120000'' 0, ex_entry ''gone'' ''100644'' 9]"

definition ex_head :: "tree_entry list" where
  "ex_head = map (\<lambda>e. \<lparr>te_mode = ie_mode e, te_object_id = ie_object_id e, te_path = ie_path e\<rparr>) ex_index"

definition ex_os :: tree_os where
  "ex_os = \<lparr>to_time = 0, to_fds = [(5, 0)]\<rparr>"

lemma ex_digest_ok: "digest_ok ex_digest"
  by (auto simp: digest_ok_def ex_digest_def is_hex_digit_def hex_char_def is_digit_def list_all_iff)

lemma ex_sizes_ok: "sizes_ok ex_tree"
  by (auto simp: sizes_ok_def ex_tree_def ex_stat_def inode_type_def mode_type_def printable_nat_def
      digits_of.simps int_max_str_digits_def)

lemma ex_room: "room_for_names 10"
proof -
  have "(10::nat) ^ 1 \<le> 10 ^ int_max_str_digits"
    by (rule power_increasing) (simp_all add: int_max_str_digits_def)
  then show ?thesis by (simp add: room_for_names_def)
qed

lemma dirty_paths_are_exact_witness:
  "\<exists>ds. fst (collect_dirty_paths (still ex_tree) ex_digest (hash_descriptors (helper_process (still ex_tree) ex_digest (\<lambda>_. 0)))
           5 ex_index ex_head [Path [] [''new'']] ex_os) = Inr ds
    \<and> sorted (map str_path ds) \<and> distinct ds
    \<and> (\<forall>p. p \<in> set ds \<longleftrightarrow> dirty_path ex_tree 0 ex_digest ex_index ex_head [Path [] [''new'']] p)"
proof (rule dirty_paths_are_exact [OF ex_digest_ok ex_sizes_ok])
  show "map_of (to_fds ex_os) 5 = Some 0" by (simp add: ex_os_def)
  show "list_all (stages_ok ex_index) (map ie_path ex_index)" by code_simp
  show "distinct (map te_path ex_head)" by code_simp
  show "same_length (object_ids ex_index ex_head)" by code_simp
  show "list_all (\<lambda>e. boundary_ok ex_tree 0 (path_parts (ie_path e))) (filter is_checked ex_index)" by code_simp
  have "length (to_fds ex_os) + entries_room ex_index \<le> 10" by code_simp
  with ex_room show "room_for_names (length (to_fds ex_os) + entries_room ex_index)" by (rule room_mono)
qed

text \<open>So the missing file, the changed link and the new file are reported, and \<open>a\<close> is not.\<close>

lemma ex_dirty:
  "map (dirty_path ex_tree 0 ex_digest ex_index ex_head [Path [] [''new'']])
     [Path [] [''gone''], Path [] [''l''], Path [] [''new''], Path [] [''a'']] = [True, True, True, False]"
  by code_simp

section \<open>Cancellation\<close>

text \<open>
  \<open>_run_filesystem_operation\<close> drops the result of an operation whose owner was cancelled. When the
  operation opened descriptors, nobody closes them: the premise of
  \<open>worktree_leaves_no_descriptor_open\<close> cannot be left out.
\<close>

definition ex_cancelled :: tree_kernel where
  "ex_cancelled = (still ex_tree)\<lparr>tk_wakes := (\<lambda>n. if n = 0 then (0, [CancelRequest 1 ''timeout'']) else (0, []))\<rparr>"

lemma cancelled_inspection_leaks:
  "case collect_dirty_paths ex_cancelled ex_digest (hash_descriptors (helper_process ex_cancelled ex_digest (\<lambda>_. 0)))
      5 ex_index ex_head [] ex_os of
     (r, w) \<Rightarrow> r = Inl (LockExn (PyCancelledError ''timeout'')) \<and> to_fds w = [(1, 1), (0, 0), (5, 0)]"
  by code_simp

lemma worktree_leaves_no_descriptor_open_witness:
  "to_fds (snd (collect_dirty_paths ((still ex_tree)\<lparr>tk_fails := (\<lambda>n. if n = 7 then Some \<lparr>oe_errno = EACCES, oe_text = ''denied''\<rparr> else None)\<rparr>)
      ex_digest (hash_descriptors (helper_process ((still ex_tree)\<lparr>tk_fails := (\<lambda>n. if n = 7 then Some \<lparr>oe_errno = EACCES, oe_text = ''denied''\<rparr> else None)\<rparr>)
        ex_digest (\<lambda>_. 0))) 5 ex_index ex_head [] ex_os)) = [(5, 0)]"
  by (subst worktree_leaves_no_descriptor_open) (simp_all add: undisturbed_def still_def ex_os_def)

end
