(* ===== verification/Inspection.thy ===== *)
theory Inspection
  imports Dirty_Paths Domain
begin

text \<open>
  \<open>LocalRepositoryInspector.inspect\<close> in \<open>src/goalrouter/repository.py\<close>: the search for the
  repository, the instruction files, the pinned root and index, the Git commands and the order
  in which they are checked. Names are resolved, processes started and directories walked by the
  operating system, so the answers to these calls are the fields of \<open>inspect_ports\<close>; descriptors
  are those of \<open>Worktree\<close>.
\<close>

section \<open>Ports\<close>

text \<open>What \<open>Path.walk\<close> finds below a directory: the names that are files and the directories.\<close>

datatype dir_tree = Dir "string list" "(string \<times> dir_tree) list"

text \<open>
  \<open>ik_resolve\<close> is \<open>Path.resolve(strict=True)\<close> and \<open>ik_lookup\<close> finds the inode of a path without
  following a link in its last part; \<open>ik_is_dir\<close> and \<open>ik_is_file\<close> answer \<open>False\<close> instead of
  raising. \<open>ik_run\<close> starts a process at a moment with an environment, its arguments and a directory.
  \<open>ik_expired\<close> tells whether the cancellation seen at a moment is that of the time limit.
  \<open>ik_decode\<close> is UTF-8 with \<open>surrogateescape\<close>, \<open>ik_utf8\<close> the strict decoder.
\<close>

record inspect_ports =
  ik_kernel :: tree_kernel
  ik_resolve :: "tree \<Rightarrow> path \<Rightarrow> lock_exn + path"
  ik_lookup :: "tree \<Rightarrow> path \<Rightarrow> os_error + nat"
  ik_is_dir :: "nat \<Rightarrow> path \<Rightarrow> bool"
  ik_is_file :: "nat \<Rightarrow> path \<Rightarrow> bool"
  ik_walk :: "nat \<Rightarrow> path \<Rightarrow> dir_tree"
  ik_expired :: "nat \<Rightarrow> bool"
  ik_group_cancelled :: "nat \<Rightarrow> string option"
  ik_run :: "nat \<Rightarrow> (string \<times> string) list \<Rightarrow> string list \<Rightarrow> path \<Rightarrow> spawned"
  ik_decode :: "string \<Rightarrow> string"
  ik_utf8 :: "string \<Rightarrow> string option"
  ik_digest :: digest
  ik_hasher :: hasher

definition now :: "nat inspection" where
  "now = (\<lambda>w. (Inr (to_time w), w\<lparr>to_time := Suc (to_time w)\<rparr>))"

definition path_node :: "inspect_ports \<Rightarrow> path \<Rightarrow> tree \<Rightarrow> nat inspection" where
  "path_node p q t = (case ik_lookup p t q of Inl e \<Rightarrow> io_raise (LockOs e) | Inr n \<Rightarrow> io_return n)"

text \<open>\<open>path.stat(follow_symlinks=False)\<close>, \<open>path.lstat()\<close> and \<open>os.open(path, flags)\<close> with \<open>O_NOFOLLOW\<close>.\<close>

definition path_lstat :: "inspect_ports \<Rightarrow> path \<Rightarrow> stat_result inspection" where
  "path_lstat p q = io_bind (look (ik_kernel p)) (\<lambda>t.
     io_bind (path_node p q t) (\<lambda>n. io_return (in_stat (t n))))"

definition path_open :: "inspect_ports \<Rightarrow> path \<Rightarrow> open_flag list \<Rightarrow> nat inspection" where
  "path_open p q flags = io_bind (look (ik_kernel p)) (\<lambda>t.
     io_bind (path_node p q t) (open_node flags t))"

definition path_resolve :: "inspect_ports \<Rightarrow> path \<Rightarrow> path inspection" where
  "path_resolve p q = io_bind (look (ik_kernel p)) (\<lambda>t. io_lift (ik_resolve p t q))"

definition path_is_dir :: "inspect_ports \<Rightarrow> path \<Rightarrow> bool inspection" where
  "path_is_dir p q = io_bind now (\<lambda>n. io_return (ik_is_dir p n q))"

definition path_is_file :: "inspect_ports \<Rightarrow> path \<Rightarrow> bool inspection" where
  "path_is_file p q = io_bind now (\<lambda>n. io_return (ik_is_file p n q))"

text \<open>\<open>TimeoutError\<close> is an \<open>OSError\<close>.\<close>

definition is_os_error :: "lock_exn \<Rightarrow> bool" where
  "is_os_error e \<longleftrightarrow> (case e of LockOs _ \<Rightarrow> True | LockExn (PyOSError _) \<Rightarrow> True
     | LockExn (PyTimeoutError _) \<Rightarrow> True | _ \<Rightarrow> False)"

definition is_timeout :: "lock_exn \<Rightarrow> bool" where
  "is_timeout e \<longleftrightarrow> (case e of LockExn (PyTimeoutError _) \<Rightarrow> True | _ \<Rightarrow> False)"

definition is_cancellation :: "lock_exn \<Rightarrow> bool" where
  "is_cancellation e \<longleftrightarrow> (case e of LockExn (PyCancelledError _) \<Rightarrow> True | _ \<Rightarrow> False)"

text \<open>
  \<open>async with asyncio.timeout(self._timeout_seconds)\<close>: the limit cancels the block, and a
  cancellation that was its own becomes a \<open>TimeoutError\<close>.
\<close>

definition timed :: "inspect_ports \<Rightarrow> 'a inspection \<Rightarrow> 'a inspection" where
  "timed p m = (\<lambda>w. case m w of
       (Inl e, v) \<Rightarrow> (Inl (if is_cancellation e \<and> ik_expired p (to_time v) then LockExn (PyTimeoutError []) else e), v)
     | (Inr a, v) \<Rightarrow> (Inr a, v))"

definition fs_operation :: "inspect_ports \<Rightarrow> 'a inspection \<Rightarrow> 'a inspection" where
  "fs_operation p = run_filesystem_operation (ik_kernel p)"

text \<open>\<open>except E as error: raise RepositoryError(message)\<close>\<close>

definition repository_error_for :: "(lock_exn \<Rightarrow> bool) \<Rightarrow> (lock_exn \<Rightarrow> string) \<Rightarrow> 'a inspection \<Rightarrow> 'a inspection" where
  "repository_error_for caught message = io_map_error (\<lambda>e. if caught e then LockExn (RepositoryError (message e)) else e)"

section \<open>Finding the repository\<close>

definition resolve_directory :: "inspect_ports \<Rightarrow> path \<Rightarrow> path inspection" where
  "resolve_directory p q =
     io_bind (path_resolve p q) (\<lambda>resolved.
     io_bind (path_is_dir p resolved) (\<lambda>ok.
       if ok then io_return resolved else io_raise (changed (str_path resolved))))"

text \<open>\<open>(target, *target.parents)\<close>\<close>

definition path_and_parents :: "path \<Rightarrow> path list" where
  "path_and_parents q = map (\<lambda>n. Path (path_root q) (take n (path_parts q))) (rev [0 ..< Suc (length (path_parts q))])"

fun discover_candidates :: "inspect_ports \<Rightarrow> path \<Rightarrow> path list \<Rightarrow> (path \<times> path option) inspection" where
  "discover_candidates p target [] = io_return (target, None)"
| "discover_candidates p target (candidate # candidates) =
     (let metadata = path_join candidate (path_of ''.git'')
      in io_bind
           (io_except (io_bind (path_lstat p metadata) (\<lambda>v. io_return (Some (mode_type (sr_mode v)))))
              (\<lambda>e. if is_missing e then io_return None
                   else if is_os_error e
                   then io_raise (LockExn (RepositoryError (''Cannot inspect Git metadata boundary '' @ str_path metadata)))
                   else io_raise e))
           (\<lambda>found. case found of
              None \<Rightarrow> discover_candidates p target candidates
            | Some metadata_type \<Rightarrow>
                if metadata_type \<in> {''directory'', ''regular''} then io_return (candidate, Some metadata)
                else io_raise (LockExn (RepositoryError
                  (''Unsafe Git metadata '' @ str_path metadata @ '' (type='' @ metadata_type @ '')'')))))"

definition discover_repository_candidate :: "inspect_ports \<Rightarrow> path \<Rightarrow> (path \<times> path option) inspection" where
  "discover_repository_candidate p target = discover_candidates p target (path_and_parents target)"

definition resolve_git_discovery :: "inspect_ports \<Rightarrow> string \<Rightarrow> path \<Rightarrow> path \<Rightarrow> (path \<times> path) inspection" where
  "resolve_git_discovery p stdout candidate_root target =
     (case splitlines stdout of
        [first, second] \<Rightarrow>
          if first = [] \<or> second = [] then io_raise (changed ''Git discovery returned malformed path evidence'')
          else
            io_bind (path_resolve p (path_of first)) (\<lambda>root.
            io_bind (path_resolve p (path_of second)) (\<lambda>git_directory.
            io_bind (path_is_dir p root) (\<lambda>root_ok.
              if \<not> root_ok then io_raise (changed (str_path root))
              else io_bind (path_is_dir p git_directory) (\<lambda>git_ok.
                if \<not> git_ok then io_raise (changed (str_path git_directory))
                else if root \<noteq> candidate_root
                then io_raise (changed ''Git worktree root does not match the lexical repository boundary'')
                else if relative_to target root = None
                then io_raise (changed (''Git root '' @ str_path root @ '' does not contain project path '' @ str_path target))
                else io_return (root, git_directory)))))
      | _ \<Rightarrow> io_raise (changed ''Git discovery returned malformed path evidence''))"

section \<open>Pins\<close>

record pinned_path =
  pp_path :: path
  pp_descriptor :: "nat option"
  pp_fingerprint :: "file_fingerprint option"

definition pin_checks :: "inspect_ports \<Rightarrow> path \<Rightarrow> string \<Rightarrow> string \<Rightarrow> nat \<Rightarrow> pinned_path inspection" where
  "pin_checks p q kind message fd =
     io_bind (fd_fstat (ik_kernel p) fd) (\<lambda>v.
     io_bind (path_lstat p q) (\<lambda>u.
       if file_fingerprint_of v \<noteq> file_fingerprint_of u \<or> mode_type (sr_mode v) \<noteq> kind
       then io_raise (changed message)
       else io_return \<lparr>pp_path = q, pp_descriptor = Some fd, pp_fingerprint = Some (file_fingerprint_of v)\<rparr>))"

text \<open>After the open; an error closes the descriptor, and the close may raise instead.\<close>

definition check_pin :: "inspect_ports \<Rightarrow> path \<Rightarrow> string \<Rightarrow> string \<Rightarrow> nat \<Rightarrow> pinned_path inspection" where
  "check_pin p q kind message fd = (\<lambda>w.
     case pin_checks p q kind message fd w of
       (Inl e, v) \<Rightarrow> (case fd_close (ik_kernel p) fd v of (Inl c, u) \<Rightarrow> (Inl c, u) | (Inr _, u) \<Rightarrow> (Inl e, u))
     | (Inr pin, v) \<Rightarrow> (Inr pin, v))"

definition pin_required_directory :: "inspect_ports \<Rightarrow> path \<Rightarrow> pinned_path inspection" where
  "pin_required_directory p q =
     io_bind (path_open p q directory_flags_at) (check_pin p q ''directory'' ''repository directory changed'')"

definition pin_optional_regular_file :: "inspect_ports \<Rightarrow> path \<Rightarrow> pinned_path inspection" where
  "pin_optional_regular_file p q =
     io_bind (io_except (io_bind (path_open p q leaf_flags) (\<lambda>fd. io_return (Some fd)))
                (\<lambda>e. if is_missing e then io_return None else io_raise e)) (\<lambda>found.
       case found of
         None \<Rightarrow> io_return \<lparr>pp_path = q, pp_descriptor = None, pp_fingerprint = None\<rparr>
       | Some fd \<Rightarrow> check_pin p q ''regular'' ''repository index is not a stable regular file'' fd)"

definition validate_pinned_path :: "inspect_ports \<Rightarrow> pinned_path \<Rightarrow> unit inspection" where
  "validate_pinned_path p pin =
     (case pp_descriptor pin of
        None \<Rightarrow>
          io_bind (io_except (io_bind (path_lstat p (pp_path pin)) (\<lambda>_. io_return True))
                     (\<lambda>e. if is_missing e then io_return False else io_raise e))
            (\<lambda>present. if present then io_raise (changed ''optional repository evidence appeared during inspection'')
                       else io_return ())
      | Some fd \<Rightarrow>
          (case pp_fingerprint pin of
             None \<Rightarrow> io_raise (changed ''repository evidence fingerprint missing'')
           | Some fp \<Rightarrow>
               io_bind (fd_fstat (ik_kernel p) fd) (\<lambda>v.
                 if file_fingerprint_of v \<noteq> fp then io_raise (changed ''repository evidence descriptor changed'')
                 else io_bind (path_lstat p (pp_path pin)) (\<lambda>u.
                   if file_fingerprint_of u \<noteq> fp then io_raise (changed ''repository evidence path changed'')
                   else io_return ()))))"

definition close_pinned_paths :: "inspect_ports \<Rightarrow> pinned_path list \<Rightarrow> tree_os \<Rightarrow> lock_exn option \<times> tree_os" where
  "close_pinned_paths p pins = close_fds (ik_kernel p) (List.map_filter pp_descriptor pins)"

section \<open>Instruction files\<close>

definition unsafe_instruction_error :: "path \<Rightarrow> path \<Rightarrow> string \<Rightarrow> lock_exn" where
  "unsafe_instruction_error root relative file_type =
     LockExn (RepositoryError (''Unsafe repository instruction '' @ str_path (path_join root relative)
       @ '' (type='' @ file_type @ '')''))"

definition type_or_unknown :: "stat_result inspection \<Rightarrow> string inspection" where
  "type_or_unknown m =
     io_except (io_bind m (\<lambda>v. io_return (mode_type (sr_mode v))))
       (\<lambda>e. if is_os_error e then io_return ''unknown'' else io_raise e)"

definition path_type :: "inspect_ports \<Rightarrow> path \<Rightarrow> string inspection" where
  "path_type p q = type_or_unknown (path_lstat p q)"

definition entry_type :: "inspect_ports \<Rightarrow> nat \<Rightarrow> string \<Rightarrow> string inspection" where
  "entry_type p fd name = type_or_unknown (fd_stat_at (ik_kernel p) fd name)"

text \<open>An open whose \<open>OSError\<close> is reported with the type of what is there.\<close>

definition open_or_unsafe :: "path \<Rightarrow> path \<Rightarrow> string inspection \<Rightarrow> 'a inspection \<Rightarrow> 'a inspection" where
  "open_or_unsafe root relative kind m =
     io_except m (\<lambda>e. if is_os_error e then io_bind kind (\<lambda>t. io_raise (unsafe_instruction_error root relative t))
                      else io_raise e)"

fun open_directories :: "inspect_ports \<Rightarrow> path \<Rightarrow> path \<Rightarrow> nat \<Rightarrow> string list \<Rightarrow> nat entry_opening" where
  "open_directories p root relative current [] = io_return current"
| "open_directories p root relative current (part # parts) =
     io_bind (io_inner (open_or_unsafe root relative (entry_type p current part)
                (fd_open_at (ik_kernel p) current part directory_flags_at))) (\<lambda>child.
     io_bind (own_descriptor child) (\<lambda>_. open_directories p root relative child parts))"

text \<open>\<open>FileNotFoundError\<close> is \<open>None\<close>; other errors name the type of the entry.\<close>

definition open_leaf_if_present :: "inspect_ports \<Rightarrow> path \<Rightarrow> path \<Rightarrow> nat \<Rightarrow> string \<Rightarrow> nat option inspection" where
  "open_leaf_if_present p root relative current name =
     io_except (io_bind (fd_open_at (ik_kernel p) current name leaf_flags) (\<lambda>fd. io_return (Some fd)))
       (\<lambda>e. if is_missing e then io_return None
            else open_or_unsafe root relative (entry_type p current name) (io_raise e))"

text \<open>Text mode: every line ending becomes a newline; \<open>cr\<close> tells whether a carriage return came before.\<close>

fun newlines_after :: "bool \<Rightarrow> string \<Rightarrow> string" where
  "newlines_after cr [] = []"
| "newlines_after cr (c # s) =
     (if c = CHR 13 then CHR 10 # newlines_after True s
      else if c = CHR 10 \<and> cr then newlines_after False s
      else c # newlines_after False s)"

definition universal_newlines :: "string \<Rightarrow> string" where
  "universal_newlines = newlines_after False"

text \<open>The bytes of a file, taken at one moment.\<close>

definition fd_contents :: "tree_kernel \<Rightarrow> nat \<Rightarrow> string inspection" where
  "fd_contents k fd = with_fd fd (\<lambda>n. io_bind (look k) (\<lambda>t. io_return (in_data (t n))))"

definition unreadable :: "path \<Rightarrow> path \<Rightarrow> string \<Rightarrow> string" where
  "unreadable root relative reason =
     ''Unsafe repository instruction '' @ str_path (path_join root relative) @ '' (type=regular): '' @ reason"

definition read_leaf :: "inspect_ports \<Rightarrow> path \<Rightarrow> path \<Rightarrow> nat \<Rightarrow> instruction_file entry_opening" where
  "read_leaf p root relative leaf =
     io_bind (io_inner (repository_error_for is_os_error (\<lambda>_. unreadable root relative ''cannot read safely'')
                (fd_dup (ik_kernel p) leaf))) (\<lambda>copy.
     io_bind (own_descriptor copy) (\<lambda>_.
     io_bind (io_inner (repository_error_for is_os_error (\<lambda>_. unreadable root relative ''cannot read safely'')
                (fd_contents (ik_kernel p) copy))) (\<lambda>bytes.
       case ik_utf8 p bytes of
         None \<Rightarrow> io_raise (LockExn (RepositoryError (unreadable root relative ''invalid UTF-8'')))
       | Some content \<Rightarrow>
           io_return \<lparr>inf_path = path_join root relative, inf_content = universal_newlines content\<rparr>)))"

definition read_checked_leaf :: "inspect_ports \<Rightarrow> path \<Rightarrow> path \<Rightarrow> nat \<Rightarrow> instruction_file entry_opening" where
  "read_checked_leaf p root relative leaf =
     io_bind (io_inner (open_or_unsafe root relative (io_return ''unknown'') (fd_fstat (ik_kernel p) leaf))) (\<lambda>v.
       if mode_type (sr_mode v) \<noteq> ''regular''
       then io_raise (unsafe_instruction_error root relative (mode_type (sr_mode v)))
       else read_leaf p root relative leaf)"

definition path_name :: "path \<Rightarrow> string" where
  "path_name q = (if path_parts q = [] then [] else last (path_parts q))"

definition instruction_steps :: "inspect_ports \<Rightarrow> path \<Rightarrow> path \<Rightarrow> instruction_file option entry_opening" where
  "instruction_steps p root relative =
     io_bind (io_inner (open_or_unsafe root relative (path_type p root) (path_open p root directory_flags_at))) (\<lambda>top.
     io_bind (own_descriptor top) (\<lambda>_.
     io_bind (open_directories p root relative top (butlast (path_parts relative))) (\<lambda>current.
     io_bind (io_inner (open_leaf_if_present p root relative current (path_name relative))) (\<lambda>found.
       case found of
         None \<Rightarrow> io_return None
       | Some leaf \<Rightarrow> io_bind (own_descriptor leaf) (\<lambda>_.
           io_bind (read_checked_leaf p root relative leaf) (\<lambda>i. io_return (Some i)))))))"

text \<open>The end of a \<open>finally\<close> clause: a cleanup error counts only when nothing was raised before.\<close>

definition after_cleanup :: "string \<Rightarrow> lock_exn + 'a \<Rightarrow> lock_exn option \<Rightarrow> lock_exn + 'a" where
  "after_cleanup message r cleanup_error =
     (case (r, cleanup_error) of (Inr _, Some _) \<Rightarrow> Inl (LockExn (RepositoryError message)) | _ \<Rightarrow> r)"

definition read_optional_instruction :: "inspect_ports \<Rightarrow> path \<Rightarrow> path \<Rightarrow> instruction_file option inspection" where
  "read_optional_instruction p root relative =
     (if is_absolute relative \<or> ''..'' \<in> set (path_parts relative)
      then io_raise (LockExn (RepositoryError (''Unsafe repository instruction path: '' @ str_path relative)))
      else (\<lambda>w.
        case instruction_steps p root relative ([], w) of (r, (fds, v)) \<Rightarrow>
        case close_fds (ik_kernel p) fds v of (cleanup_error, u) \<Rightarrow>
          (after_cleanup (''Repository instruction descriptor cleanup failed for '' @ str_path (path_join root relative))
             r cleanup_error, u)))"

section \<open>Evidence\<close>

record filesystem_evidence =
  fe_instruction_files :: "instruction_file list"
  fe_language_counts :: "(string \<times> int) list"
  fe_docker_files :: "path list"

definition instruction_paths :: "path \<Rightarrow> path list" where
  "instruction_paths relative_target =
     [path_of ''AGENTS.md'', path_of ''SKILLS.md'']
     @ map (\<lambda>n. Path [] (take (Suc n) (path_parts relative_target) @ [''AGENTS.md''])) [0 ..< length (path_parts relative_target)]"

fun read_instructions :: "inspect_ports \<Rightarrow> path \<Rightarrow> path list \<Rightarrow> instruction_file list inspection" where
  "read_instructions p root [] = io_return []"
| "read_instructions p root (relative # relatives) =
     io_bind (read_optional_instruction p root relative) (\<lambda>found.
     io_bind (read_instructions p root relatives) (\<lambda>rest.
       io_return (case found of None \<Rightarrow> rest | Some i \<Rightarrow> i # rest)))"

definition docker_names :: "string list" where
  "docker_names = [''Dockerfile'', ''compose.yaml'', ''compose.yml'', ''docker-compose.yaml'', ''docker-compose.yml'']"

fun files_among :: "inspect_ports \<Rightarrow> path list \<Rightarrow> path list inspection" where
  "files_among p [] = io_return []"
| "files_among p (q # qs) =
     io_bind (path_is_file p q) (\<lambda>ok. io_bind (files_among p qs) (\<lambda>rest. io_return (if ok then q # rest else rest)))"

definition ignored_directories :: "string list" where
  "ignored_directories =
     [''.git'', ''.goalrouter'', ''.mypy_cache'', ''.nox'', ''.pytest_cache'', ''.tox'', ''.venv'', ''__pycache__'',
      ''build'', ''dist'', ''node_modules'', ''target'', ''venv'']"

definition extension_languages :: "(string \<times> string) list" where
  "extension_languages =
     [(''.c'', ''c''), (''.cc'', ''c++''), (''.cpp'', ''c++''), (''.h'', ''c''), (''.hpp'', ''c++''), (''.py'', ''python''), (''.rs'', ''rust'')]"

text \<open>\<open>Path(filename).suffix\<close>: dots at the start do not begin a suffix.\<close>

definition suffix_of :: "string \<Rightarrow> string" where
  "suffix_of filename =
     (let name = dropWhile (\<lambda>c. c = CHR ''.'') filename
      in if CHR ''.'' \<in> set name then CHR ''.'' # rev (takeWhile (\<lambda>c. c \<noteq> CHR ''.'') (rev name)) else [])"

definition language_of :: "string \<Rightarrow> string option" where
  "language_of filename = map_of extension_languages (casefold (suffix_of filename))"

text \<open>The files that the walk visits; \<open>directories[:] = sorted(...)\<close> decides where it goes.\<close>

definition kept_directories :: "(string \<times> dir_tree) list \<Rightarrow> (string \<times> dir_tree) list" where
  "kept_directories ds = sort_key fst (filter (\<lambda>(name, _). name \<notin> set ignored_directories) ds)"

lemma kept_size:
  assumes "(x, d) \<in> set (kept_directories ds)"
  shows "size d < size (Dir files ds)"
proof -
  have "size d \<le> size_list (size_prod (\<lambda>_. 0) size) ds"
    using assms by (intro size_list_estimation' [of "(x, d)"]) (auto simp: kept_directories_def)
  then show ?thesis by simp
qed

function walked_files :: "dir_tree \<Rightarrow> string list" where
  "walked_files (Dir files directories) = files @ concat (map (\<lambda>(_, d). walked_files d) (kept_directories directories))"
  by pat_completeness auto

termination
  by (relation "measure size") (use kept_size in auto)

definition language_counts :: "string list \<Rightarrow> (string \<times> int) list" where
  "language_counts files =
     (let languages = List.map_filter language_of files
      in map (\<lambda>l. (l, int (count_list languages l))) (sort (remdups languages)))"

definition read_filesystem_evidence :: "inspect_ports \<Rightarrow> path \<Rightarrow> path \<Rightarrow> filesystem_evidence inspection" where
  "read_filesystem_evidence p root target =
     (case relative_to target root of
        None \<Rightarrow> io_raise (LockExn (PyValueError (py_repr (str_path target) @ '' is not in the subpath of '' @ py_repr (str_path root))))
      | Some relative_target \<Rightarrow>
          io_bind (read_instructions p root (instruction_paths relative_target)) (\<lambda>instructions.
          io_bind (files_among p (map (\<lambda>name. path_join root (path_of name)) docker_names)) (\<lambda>docker_files.
          io_bind now (\<lambda>n.
            io_return \<lparr>fe_instruction_files = instructions,
                       fe_language_counts = language_counts (walked_files (ik_walk p n root)),
                       fe_docker_files = docker_files\<rparr>))))"

section \<open>Git commands\<close>

definition git_safe_prefix :: "string list" where
  "git_safe_prefix =
     [''/usr/bin/git'', ''--no-pager'', ''--no-optional-locks'', ''-c'', ''core.fsmonitor=false'',
      ''-c'', ''core.hooksPath=/dev/null'', ''-c'', ''core.attributesFile=/dev/null'',
      ''-c'', ''core.excludesFile=/dev/null'', ''-c'', ''submodule.recurse=false'']"

definition trusted_prefix :: "path \<Rightarrow> string list" where
  "trusted_prefix candidate_root = git_safe_prefix @ [''-c'', ''safe.directory='' @ str_path candidate_root]"

definition pinned_prefix :: "path \<Rightarrow> path \<Rightarrow> path \<Rightarrow> string list" where
  "pinned_prefix candidate_root repository_root git_directory =
     trusted_prefix candidate_root
     @ [''--git-dir='' @ str_path git_directory, ''--work-tree='' @ str_path repository_root]"

definition git_environment :: "(string \<times> string) list" where
  "git_environment =
     [(''GIT_CONFIG_COUNT'', ''0''), (''GIT_CONFIG_GLOBAL'', ''/dev/null''), (''GIT_CONFIG_NOSYSTEM'', ''1''),
      (''GIT_CONFIG_SYSTEM'', ''/dev/null''), (''GIT_EXEC_PATH'', ''/usr/libexec/git-core''), (''GIT_NO_LAZY_FETCH'', ''1''),
      (''GIT_NO_REPLACE_OBJECTS'', ''1''), (''GIT_OPTIONAL_LOCKS'', ''0''), (''GIT_PAGER'', ''cat''),
      (''GIT_PROTOCOL_FROM_USER'', ''0''), (''GIT_TERMINAL_PROMPT'', ''0''), (''HOME'', ''/nonexistent''), (''LC_ALL'', ''C''),
      (''PAGER'', ''cat''), (''PATH'', ''/usr/bin:/bin'')]"

definition run_git :: "inspect_ports \<Rightarrow> string list \<Rightarrow> path \<Rightarrow> (tree_os, command_result) eff" where
  "run_git p argv cwd = (\<lambda>w.
     (run_read_only (ik_decode p) argv (ik_run p (to_time w) git_environment argv cwd), w\<lparr>to_time := Suc (to_time w)\<rparr>))"

definition lift_git :: "(tree_os, 'a) eff \<Rightarrow> 'a inspection" where
  "lift_git m = (\<lambda>w. case m w of (Inl e, v) \<Rightarrow> (Inl (LockExn e), v) | (Inr a, v) \<Rightarrow> (Inr a, v))"

definition as_exn :: "'a inspection \<Rightarrow> (tree_os, 'a) eff" where
  "as_exn m = (\<lambda>w. case m w of
       (Inl e, v) \<Rightarrow> (Inl (case e of LockExn x \<Rightarrow> x | LockOs x \<Rightarrow> PyOSError (oe_text x)), v)
     | (Inr a, v) \<Rightarrow> (Inr a, v))"

text \<open>A task of the group, as what its \<open>result()\<close> will give.\<close>

definition git_task :: "inspect_ports \<Rightarrow> string list \<Rightarrow> path \<Rightarrow> command_result result result inspection" where
  "git_task p argv cwd = (\<lambda>w. case run_git p argv cwd w of (r, v) \<Rightarrow> (Inr (capture_git_command r), v))"

text \<open>\<open>async with asyncio.TaskGroup()\<close>: the group ends when its tasks do, or with the cancellation of its owner.\<close>

definition git_group :: "inspect_ports \<Rightarrow> unit inspection" where
  "git_group p = io_bind now (\<lambda>n. case ik_group_cancelled p n of
     None \<Rightarrow> io_return () | Some m \<Rightarrow> io_raise (LockExn (PyCancelledError m)))"

definition git_tasks ::
  "inspect_ports \<Rightarrow> string list \<Rightarrow> path \<Rightarrow>
    (command_result result result \<times> command_result result result \<times> command_result result result
      \<times> command_result result result) inspection" where
  "git_tasks p prefix cwd =
     io_bind (git_task p (prefix @ [''branch'', ''--show-current'']) cwd) (\<lambda>branch.
     io_bind (git_task p (prefix @ [''ls-files'', ''--stage'', ''-t'', ''-z'', ''--full-name'']) cwd) (\<lambda>index.
     io_bind (git_task p (prefix @ [''ls-tree'', ''-r'', ''-z'', ''--full-tree'', ''HEAD'']) cwd) (\<lambda>head.
     io_bind (git_task p (prefix @ [''-c'', ''core.untrackedCache=false'', ''ls-files'', ''--others'',
                                    ''--exclude-standard'', ''-z'', ''--full-name'']) cwd) (\<lambda>untracked.
     io_bind (git_group p) (\<lambda>_. io_return (branch, index, head, untracked))))))"

definition git_timed_out :: "path \<Rightarrow> string" where
  "git_timed_out target = ''Repository Git inspection timed out for '' @ str_path target"

text \<open>The parsed evidence: the branch, the index, the HEAD tree and the untracked paths.\<close>

definition git_evidence ::
  "inspect_ports \<Rightarrow> path \<Rightarrow> string list \<Rightarrow>
    (string option \<times> index_entry list \<times> tree_entry list \<times> path list) inspection" where
  "git_evidence p target prefix =
     io_bind (repository_error_for is_timeout (\<lambda>_. git_timed_out target) (timed p (git_tasks p prefix target)))
       (\<lambda>(branch_task, index_task, head_task, untracked_task).
     io_bind (from_result (rbind branch_task (require_git_command ''branch''))) (\<lambda>branch_result.
     io_bind (from_result (rbind index_task (require_git_command ''index''))) (\<lambda>index_result.
     io_bind (from_result (rbind untracked_task (require_git_command ''untracked''))) (\<lambda>untracked_result.
     io_bind (from_result (parse_branch (cr_stdout branch_result))) (\<lambda>branch.
     io_bind (from_result head_task) (\<lambda>head_outcome.
     io_bind (lift_git (resolve_head_tree head_outcome branch
                (\<lambda>arguments. as_exn (timed p (lift_git (run_git p (prefix @ arguments) target)))))) (\<lambda>head_stdout.
     io_bind (from_result (parse_index_entries (cr_stdout index_result))) (\<lambda>index.
     io_bind (from_result (parse_tree_entries head_stdout)) (\<lambda>head.
     io_bind (from_result (parse_nul_paths (cr_stdout untracked_result) ''untracked'')) (\<lambda>untracked.
       io_return (branch, index, head, untracked)))))))))))"

section \<open>Inspection\<close>

definition filesystem_timed_out :: "path \<Rightarrow> string" where
  "filesystem_timed_out target = ''Repository filesystem inspection timed out for '' @ str_path target"

definition find_target :: "inspect_ports \<Rightarrow> path \<Rightarrow> path inspection" where
  "find_target p project_path =
     repository_error_for is_os_error (\<lambda>e. ''Invalid project path '' @ str_path project_path @ '': '' @ lock_text e)
       (timed p (fs_operation p (resolve_directory p project_path)))"

definition survey :: "inspect_ports \<Rightarrow> path \<Rightarrow> (path \<times> path option \<times> filesystem_evidence) inspection" where
  "survey p target =
     repository_error_for is_timeout (\<lambda>_. filesystem_timed_out target)
       (timed p
         (io_bind (fs_operation p (discover_repository_candidate p target)) (\<lambda>(candidate_root, git_metadata).
          io_bind (fs_operation p (read_filesystem_evidence p candidate_root target)) (\<lambda>evidence.
            io_return (candidate_root, git_metadata, evidence)))))"

definition non_git_context :: "path \<Rightarrow> filesystem_evidence \<Rightarrow> repository_context" where
  "non_git_context target evidence =
     \<lparr>rc_project_path = target, rc_is_git_worktree = False, rc_branch = None, rc_dirty_paths = [],
      rc_instruction_files = fe_instruction_files evidence, rc_language_counts = fe_language_counts evidence,
      rc_docker_files = fe_docker_files evidence,
      rc_command_errors = map (\<lambda>label. label @ '': exit 128'') [''git-root'', ''git-branch'', ''git-dirty-evidence'']\<rparr>"

definition discover_git :: "inspect_ports \<Rightarrow> path \<Rightarrow> path \<Rightarrow> (path \<times> path) inspection" where
  "discover_git p target candidate_root =
     io_bind (repository_error_for is_timeout (\<lambda>_. git_timed_out target)
         (timed p (lift_git (run_git p
            (trusted_prefix candidate_root
             @ [''rev-parse'', ''--path-format=absolute'', ''--show-toplevel'', ''--absolute-git-dir'']) target)))) (\<lambda>found.
       if cr_returncode found \<noteq> 0
       then io_raise (LockExn (RepositoryError (''Git repository discovery failed for '' @ str_path target
              @ '' (exit '' @ str_of_int (cr_returncode found) @ '')'')))
       else repository_error_for is_os_error (\<lambda>e. ''Invalid Git metadata for '' @ str_path target @ '': '' @ lock_text e)
              (fs_operation p (resolve_git_discovery p (cr_stdout found) candidate_root target)))"

definition cannot_pin :: "path \<Rightarrow> exn" where
  "cannot_pin target = RepositoryError (''Cannot pin repository evidence for '' @ str_path target)"

definition pin_evidence :: "inspect_ports \<Rightarrow> path \<Rightarrow> path \<Rightarrow> path \<Rightarrow> (pinned_path \<times> pinned_path) inspection" where
  "pin_evidence p target repository_root git_directory =
     io_map_error (\<lambda>e. if is_os_error e then LockExn (cannot_pin target) else e)
       (timed p
         (io_bind (fs_operation p (pin_required_directory p repository_root)) (\<lambda>root_pin.
          io_bind (fs_operation p (pin_optional_regular_file p (path_join git_directory (path_of ''index'')))) (\<lambda>index_pin.
            io_return (root_pin, index_pin)))))"

text \<open>The second timed block, on the pinned root.\<close>

definition worktree_evidence ::
  "inspect_ports \<Rightarrow> path \<Rightarrow> path \<Rightarrow> pinned_path \<Rightarrow> pinned_path \<Rightarrow> nat \<Rightarrow> index_entry list \<Rightarrow> tree_entry list
    \<Rightarrow> path list \<Rightarrow> (path list \<times> filesystem_evidence) inspection" where
  "worktree_evidence p target repository_root root_pin index_pin root index head untracked =
     repository_error_for is_os_error
       (\<lambda>e. if is_timeout e then filesystem_timed_out target
            else ''Repository evidence changed during inspection for '' @ str_path target)
       (timed p
         (io_bind (collect_dirty_paths (ik_kernel p) (ik_digest p) (ik_hasher p) root index head untracked) (\<lambda>dirty_paths.
          io_bind (fs_operation p (read_filesystem_evidence p repository_root target)) (\<lambda>evidence.
          io_bind (fs_operation p (validate_pinned_path p root_pin)) (\<lambda>_.
          io_bind (fs_operation p (validate_pinned_path p index_pin)) (\<lambda>_.
            io_return (dirty_paths, evidence)))))))"

definition inspect_worktree ::
  "inspect_ports \<Rightarrow> path \<Rightarrow> path \<Rightarrow> string list \<Rightarrow> pinned_path \<Rightarrow> pinned_path \<Rightarrow> repository_context inspection" where
  "inspect_worktree p target repository_root prefix root_pin index_pin =
     io_bind (git_evidence p target prefix) (\<lambda>(branch, index, head, untracked).
       case pp_descriptor root_pin of
         None \<Rightarrow> io_raise (LockExn (RepositoryError ''Repository root descriptor is unavailable''))
       | Some root \<Rightarrow>
           io_bind (worktree_evidence p target repository_root root_pin index_pin root index head untracked)
             (\<lambda>(dirty_paths, evidence).
               io_return \<lparr>rc_project_path = target, rc_is_git_worktree = True, rc_branch = branch,
                 rc_dirty_paths = dirty_paths, rc_instruction_files = fe_instruction_files evidence,
                 rc_language_counts = fe_language_counts evidence, rc_docker_files = fe_docker_files evidence,
                 rc_command_errors = []\<rparr>))"

definition with_pins :: "inspect_ports \<Rightarrow> pinned_path \<Rightarrow> pinned_path \<Rightarrow> 'a inspection \<Rightarrow> 'a inspection" where
  "with_pins p root_pin index_pin m = (\<lambda>w.
     case m w of (r, v) \<Rightarrow>
     case close_pinned_paths p [index_pin, root_pin] v of (cleanup_error, u) \<Rightarrow>
       (after_cleanup ''Repository evidence descriptor cleanup failed'' r cleanup_error, u))"

definition inspect_git :: "inspect_ports \<Rightarrow> path \<Rightarrow> path \<Rightarrow> repository_context inspection" where
  "inspect_git p target candidate_root =
     io_bind (discover_git p target candidate_root) (\<lambda>(repository_root, git_directory).
     io_bind (pin_evidence p target repository_root git_directory) (\<lambda>(root_pin, index_pin).
       with_pins p root_pin index_pin
         (inspect_worktree p target repository_root (pinned_prefix candidate_root repository_root git_directory)
            root_pin index_pin)))"

definition inspect :: "inspect_ports \<Rightarrow> path \<Rightarrow> repository_context inspection" where
  "inspect p project_path =
     (if \<not> is_absolute project_path
      then io_raise (LockExn (RepositoryError (''Project path must be absolute: '' @ str_path project_path)))
      else io_bind (find_target p project_path) (\<lambda>target.
           io_bind (survey p target) (\<lambda>(candidate_root, git_metadata, evidence).
             case git_metadata of
               None \<Rightarrow> io_return (non_git_context target evidence)
             | Some _ \<Rightarrow> inspect_git p target candidate_root)))"

end
