(* ===== verification/Inspection_Properties.thy ===== *)
theory Inspection_Properties
  imports Inspection
begin

text \<open>
  \<open>LocalRepositoryInspector.inspect\<close> as a whole: which descriptors it leaves open, what a
  returned context may say, which errors come out and, for a work tree that holds still, that the
  dirty paths are exact from the output of Git to the context.
\<close>

section \<open>Descriptors\<close>

subsection \<open>Calls\<close>

lemma keeps_map_error [keeps_intros]: "keeps_fds m \<Longrightarrow> keeps_fds (io_map_error g m)"
  by (simp add: keeps_fds_def)

lemma keeps_repository_error [keeps_intros]: "keeps_fds m \<Longrightarrow> keeps_fds (repository_error_for caught message m)"
  unfolding repository_error_for_def by (rule keeps_map_error)

lemma timed_fds: "to_fds (snd (timed p m w)) = to_fds (snd (m w))"
  by (auto simp: timed_def split: prod.splits sum.splits)

lemma keeps_timed [keeps_intros]: "keeps_fds m \<Longrightarrow> keeps_fds (timed p m)"
  by (simp add: keeps_fds_def timed_fds)

lemma keeps_fs_operation [keeps_intros]: "keeps_fds m \<Longrightarrow> keeps_fds (fs_operation p m)"
  unfolding fs_operation_def by (rule keeps_fds_operation)

lemma keeps_now [keeps_intros]: "keeps_fds now"
  by (simp add: keeps_fds_def now_def)

lemma keeps_path_node [keeps_intros]: "keeps_fds (path_node p q t)"
  unfolding path_node_def by (auto split: sum.splits intro: keeps_intros)

lemma keeps_path_calls [keeps_intros]:
  "keeps_fds (path_lstat p q)" "keeps_fds (path_resolve p q)" "keeps_fds (path_is_dir p q)" "keeps_fds (path_is_file p q)"
  "keeps_fds (fd_contents k fd)"
  unfolding path_lstat_def path_resolve_def path_is_dir_def path_is_file_def fd_contents_def
  by (intro keeps_intros)+

lemma keeps_type_or_unknown [keeps_intros]: "keeps_fds m \<Longrightarrow> keeps_fds (type_or_unknown m)"
  unfolding type_or_unknown_def by (intro keeps_intros)

lemma keeps_types [keeps_intros]: "keeps_fds (path_type p q)" "keeps_fds (entry_type p fd name)"
  unfolding path_type_def entry_type_def by (intro keeps_intros)+

lemma keeps_open_or_unsafe [keeps_intros]: "keeps_fds kind \<Longrightarrow> keeps_fds m \<Longrightarrow> keeps_fds (open_or_unsafe root relative kind m)"
  unfolding open_or_unsafe_def by (intro keeps_intros)

lemma run_git_fds: "to_fds (snd (run_git p argv cwd w)) = to_fds w"
  by (simp add: run_git_def)

lemma keeps_lift_git [keeps_intros]: "(\<And>w. to_fds (snd (m w)) = to_fds w) \<Longrightarrow> keeps_fds (lift_git m)"
  unfolding keeps_fds_def lift_git_def by (auto split: prod.splits sum.splits) (metis snd_conv)+

lemma keeps_git_task [keeps_intros]: "keeps_fds (git_task p argv cwd)"
  unfolding keeps_fds_def git_task_def by (auto simp: run_git_def)

lemma keeps_git_group [keeps_intros]: "keeps_fds (git_group p)"
  unfolding git_group_def by (auto split: option.splits intro!: keeps_intros)

lemma as_exn_fds: "to_fds (snd (as_exn m w)) = to_fds (snd (m w))"
  by (auto simp: as_exn_def split: prod.splits sum.splits)

lemma keeps_run_git [keeps_intros]: "keeps_fds (lift_git (run_git p argv cwd))"
  by (rule keeps_lift_git) (rule run_git_fds)

lemma eff_bind_fds:
  fixes m :: "(tree_os, 'a) eff"
  assumes "to_fds (snd (m w)) = to_fds w" and "\<And>a v. to_fds (snd (f a v)) = to_fds v"
  shows "to_fds (snd (io_bind m f w)) = to_fds w"
  using assms by (auto simp: io_bind_def split: prod.splits sum.splits)

lemma resolve_head_tree_fds:
  fixes run :: "string list \<Rightarrow> (tree_os, command_result) eff"
  assumes "\<And>arguments w. to_fds (snd (run arguments w)) = to_fds w"
  shows "to_fds (snd (resolve_head_tree outcome branch run w)) = to_fds w"
  unfolding resolve_head_tree_def
  by (cases outcome; cases branch) (auto intro!: eff_bind_fds simp: assms)

lemma keeps_git_evidence [keeps_intros]: "keeps_fds (git_evidence p target prefix)"
proof -
  have run: "keeps_fds (timed p (lift_git (run_git p argv cwd)))" for argv cwd
    by (intro keeps_intros)
  have "keeps_fds (git_tasks p prefix target)"
    unfolding git_tasks_def by (intro keeps_intros)
  moreover have "keeps_fds (lift_git (resolve_head_tree outcome branch
      (\<lambda>arguments. as_exn (timed p (lift_git (run_git p (prefix @ arguments) target))))))" for outcome branch
    by (intro keeps_lift_git resolve_head_tree_fds) (simp add: as_exn_fds keeps_fdsD [OF run])
  ultimately show ?thesis
    unfolding git_evidence_def split_def by (intro keeps_fds_bind keeps_fds_return keeps_fds_from_result keeps_repository_error keeps_timed)
qed

subsection \<open>Instruction files\<close>

text \<open>A call that either opens one new descriptor, its result, or none.\<close>

definition new_descriptor :: "tree_os \<Rightarrow> nat option \<Rightarrow> tree_os \<Rightarrow> bool" where
  "new_descriptor w found v \<longleftrightarrow>
     (case found of
        None \<Rightarrow> to_fds v = to_fds w
      | Some fd \<Rightarrow> fd = free_fd (to_fds w) \<and> (\<exists>n. to_fds v = (fd, n) # to_fds w))"

definition fd_opener :: "('a \<Rightarrow> nat option) \<Rightarrow> 'a inspection \<Rightarrow> bool" where
  "fd_opener fd_of m \<longleftrightarrow> (\<forall>w e v. m w = (Inl e, v) \<longrightarrow> to_fds v = to_fds w)
     \<and> (\<forall>w a v. m w = (Inr a, v) \<longrightarrow> new_descriptor w (fd_of a) v)"

named_theorems fd_opener_intros

lemma fd_openerI:
  assumes "\<And>w e v. m w = (Inl e, v) \<Longrightarrow> to_fds v = to_fds w"
    and "\<And>w a v. m w = (Inr a, v) \<Longrightarrow> new_descriptor w (fd_of a) v"
  shows "fd_opener fd_of m"
  using assms by (simp add: fd_opener_def)

lemma fd_openerD:
  assumes "fd_opener fd_of m"
  shows "m w = (Inl e, v) \<Longrightarrow> to_fds v = to_fds w"
    and "m w = (Inr a, v) \<Longrightarrow> new_descriptor w (fd_of a) v"
  using assms by (simp_all add: fd_opener_def)

lemma new_descriptor_None [simp]: "new_descriptor w None v \<longleftrightarrow> to_fds v = to_fds w"
  by (simp add: new_descriptor_def)

lemma new_descriptor_later: "new_descriptor u found v \<Longrightarrow> to_fds u = to_fds w \<Longrightarrow> new_descriptor w found v"
  by (cases found) (simp_all add: new_descriptor_def)

lemma keeps_result: "keeps_fds m \<Longrightarrow> m w = (r, v) \<Longrightarrow> to_fds v = to_fds w"
  using keeps_fdsD [of m w] by simp

lemma fd_opener_raise [fd_opener_intros]: "fd_opener fd_of (io_raise e)"
  by (rule fd_openerI) simp_all

lemma fd_opener_nothing [fd_opener_intros]: "fd_opener (\<lambda>x. x) (io_return None)"
  by (rule fd_openerI) simp_all

lemma fd_opener_bind:
  assumes "keeps_fds m" and "\<And>a. fd_opener fd_of (f a)"
  shows "fd_opener fd_of (io_bind m f)"
proof (rule fd_openerI)
  fix w e v assume "io_bind m f w = (Inl e, v)"
  then show "to_fds v = to_fds w"
    using keeps_result [OF assms(1), of w] fd_openerD(1) [OF assms(2)]
    by (auto simp: io_bind_def split: prod.splits sum.splits)
next
  fix w a v assume "io_bind m f w = (Inr a, v)"
  then obtain x u where u: "m w = (Inr x, u)" "f x u = (Inr a, v)" by (rule io_bind_Inr_E)
  from fd_openerD(2) [OF assms(2) u(2)] keeps_result [OF assms(1) u(1)] show "new_descriptor w (fd_of a) v"
    by (rule new_descriptor_later)
qed

lemma fd_opener_with_fd: "(\<And>n. fd_opener fd_of (f n)) \<Longrightarrow> fd_opener fd_of (with_fd fd f)"
  by (rule fd_openerI) (auto simp: with_fd_def split: option.splits dest: fd_openerD)

lemma fd_opener_new_fd [fd_opener_intros]: "fd_opener Some (new_fd n)"
  by (rule fd_openerI) (auto simp: new_descriptor_def new_fd_def)

lemma fd_opener_open_node [fd_opener_intros]: "fd_opener Some (open_node flags t n)"
  unfolding open_node_def by (simp add: fd_opener_intros)

lemma fd_opener_calls [fd_opener_intros]:
  "fd_opener Some (fd_open_at k fd name flags)" "fd_opener Some (path_open p q flags)" "fd_opener Some (fd_dup k fd)"
  unfolding fd_open_at_def path_open_def fd_dup_def
  by (intro fd_opener_with_fd fd_opener_bind fd_opener_intros keeps_intros)+

lemma fd_opener_except [fd_opener_intros]:
  assumes "fd_opener fd_of m" and "\<And>e. fd_opener fd_of (h e)"
  shows "fd_opener fd_of (io_except m h)"
proof (rule fd_openerI)
  fix w e v assume "io_except m h w = (Inl e, v)"
  then obtain x u where u: "m w = (Inl x, u)" "h x u = (Inl e, v)"
    by (auto simp: io_except_def split: prod.splits sum.splits)
  from fd_openerD(1) [OF assms(1) u(1)] fd_openerD(1) [OF assms(2) u(2)] show "to_fds v = to_fds w" by simp
next
  fix w a v assume "io_except m h w = (Inr a, v)"
  then consider "m w = (Inr a, v)" | x u where "m w = (Inl x, u)" "h x u = (Inr a, v)"
    by (auto simp: io_except_def split: prod.splits sum.splits)
  then show "new_descriptor w (fd_of a) v"
  proof cases
    case 1
    then show ?thesis by (rule fd_openerD(2) [OF assms(1)])
  next
    case 2
    from fd_openerD(2) [OF assms(2) 2(2)] fd_openerD(1) [OF assms(1) 2(1)] show ?thesis
      by (rule new_descriptor_later)
  qed
qed

lemma fd_opener_map_error [fd_opener_intros]: "fd_opener fd_of m \<Longrightarrow> fd_opener fd_of (io_map_error g m)"
  by (rule fd_openerI) (auto simp: io_map_error_def split: prod.splits sum.splits dest: fd_openerD)

lemma fd_opener_repository_error [fd_opener_intros]: "fd_opener fd_of m \<Longrightarrow> fd_opener fd_of (repository_error_for caught message m)"
  unfolding repository_error_for_def by (rule fd_opener_map_error)

lemma fd_opener_Some [fd_opener_intros]: "fd_opener Some m \<Longrightarrow> fd_opener (\<lambda>x. x) (io_bind m (\<lambda>fd. io_return (Some fd)))"
  by (rule fd_openerI) (auto simp: io_bind_def split: prod.splits sum.splits dest: fd_openerD)

lemma fd_opener_unsafe [fd_opener_intros]:
  assumes "keeps_fds kind" and "fd_opener fd_of m"
  shows "fd_opener fd_of (open_or_unsafe root relative kind m)"
  unfolding open_or_unsafe_def
  by (intro fd_opener_except assms) (simp add: fd_opener_bind [OF assms(1)] fd_opener_raise)

lemma fd_opener_leaf [fd_opener_intros]: "fd_opener (\<lambda>x. x) (open_leaf_if_present p root relative current name)"
  unfolding open_leaf_if_present_def
  by (intro fd_opener_except fd_opener_Some fd_opener_calls) (simp add: fd_opener_nothing fd_opener_unsafe fd_opener_raise keeps_types)

lemma entry_opens_new:
  assumes "fd_opener Some m" and "\<And>fd. entry_opens table (f fd) Q"
  shows "entry_opens table (io_bind (io_inner m) (\<lambda>fd. io_bind (own_descriptor fd) (\<lambda>_. f fd))) Q"
proof -
  have "entry_opens table (io_bind (io_inner m) (\<lambda>fd. io_bind (own_descriptor fd) (\<lambda>_. io_return fd))) (\<lambda>_ _. True)"
    unfolding entry_opens_def
  proof (rule io_spec_pre)
    fix s :: "nat list \<times> tree_os"
    assume o': "owns table s"
    obtain fds w where s: "s = (fds, w)" by fastforce
    obtain r v where m: "m w = (r, v)" by fastforce
    show "io_spec (\<lambda>w. w = s) (io_bind (io_inner m) (\<lambda>fd. io_bind (own_descriptor fd) (\<lambda>_. io_return fd)))
        (\<lambda>a s. owns table s \<and> True) (owns table)"
    proof (cases r)
      case (Inl e)
      with m fd_openerD(1) [OF assms(1)] have "to_fds v = to_fds w" by blast
      then show ?thesis using o' Inl m
        unfolding s io_spec_def by (auto simp: io_bind_def io_inner_def intro: owns_same)
    next
      case (Inr fd)
      with m fd_openerD(2) [OF assms(1), of w fd v] have "new_descriptor w (Some fd) v" by blast
      then show ?thesis using o' Inr m
        unfolding s io_spec_def by (auto simp: io_bind_def io_inner_def own_descriptor_def new_descriptor_def intro: owns_new)
    qed
  qed
  from entry_opens_bind [OF this assms(2)] show ?thesis
    by (simp only: io_bind_assoc io_bind_return)
qed

lemma entry_opens_directories: "entry_opens table (open_directories p root relative current parts) (\<lambda>_ _. True)"
proof (induction parts arbitrary: current)
  case (Cons part parts)
  show ?case
    unfolding open_directories.simps
    by (intro entry_opens_new fd_opener_unsafe keeps_types fd_opener_calls Cons.IH)
qed (unfold open_directories.simps, rule entry_opens_return, simp)

lemma opens_read_leaf: "entry_opens table (read_leaf p root relative leaf) (\<lambda>_ _. True)"
  unfolding read_leaf_def
  by (intro entry_opens_new fd_opener_repository_error fd_opener_calls entry_opens_bind [OF entry_opens_inner] keeps_repository_error keeps_path_calls)
    (auto split: option.splits intro: entry_opens_return entry_opens_raise)

lemma opens_checked_leaf: "entry_opens table (read_checked_leaf p root relative leaf) (\<lambda>_ _. True)"
  unfolding read_checked_leaf_def
  by (intro entry_opens_bind [OF entry_opens_inner] keeps_open_or_unsafe keeps_fds_return keeps_fds_calls)
    (auto intro: entry_opens_raise opens_read_leaf)

lemma opens_if_present:
  assumes "fd_opener (\<lambda>x. x) m" and "entry_opens table g Q" and "\<And>fd. entry_opens table (f fd) Q"
  shows "entry_opens table (io_bind (io_inner m)
    (\<lambda>found. case found of None \<Rightarrow> g | Some fd \<Rightarrow> io_bind (own_descriptor fd) (\<lambda>_. f fd))) Q"
proof -
  have "entry_opens table (io_bind (io_inner m) (\<lambda>found. case found of None \<Rightarrow> io_return None
      | Some fd \<Rightarrow> io_bind (own_descriptor fd) (\<lambda>_. io_return (Some fd)))) (\<lambda>_ _. True)"
    unfolding entry_opens_def
  proof (rule io_spec_pre)
    fix s :: "nat list \<times> tree_os"
    assume o': "owns table s"
    obtain fds w where s: "s = (fds, w)" by fastforce
    obtain r v where m: "m w = (r, v)" by fastforce
    show "io_spec (\<lambda>w. w = s) (io_bind (io_inner m) (\<lambda>found. case found of None \<Rightarrow> io_return None
        | Some fd \<Rightarrow> io_bind (own_descriptor fd) (\<lambda>_. io_return (Some fd)))) (\<lambda>a s. owns table s \<and> True) (owns table)"
    proof (cases r)
      case (Inl e)
      with m fd_openerD(1) [OF assms(1)] have "to_fds v = to_fds w" by blast
      then show ?thesis using o' Inl m
        unfolding s io_spec_def by (auto simp: io_bind_def io_inner_def intro: owns_same)
    next
      case (Inr found)
      with m fd_openerD(2) [OF assms(1), of w found v] have "new_descriptor w found v" by blast
      then show ?thesis using o' Inr m
        unfolding s io_spec_def
        by (cases found) (auto simp: io_bind_def io_inner_def own_descriptor_def new_descriptor_def intro: owns_new owns_same)
    qed
  qed
  moreover have "entry_opens table (case found of None \<Rightarrow> g | Some fd \<Rightarrow> f fd) Q" for found
    using assms(2,3) by (cases found) simp_all
  ultimately have "entry_opens table (io_bind (io_bind (io_inner m) (\<lambda>found. case found of None \<Rightarrow> io_return None
      | Some fd \<Rightarrow> io_bind (own_descriptor fd) (\<lambda>_. io_return (Some fd))))
      (\<lambda>found. case found of None \<Rightarrow> g | Some fd \<Rightarrow> f fd)) Q"
    by (rule entry_opens_bind)
  moreover have "io_bind (case found of None \<Rightarrow> io_return None
      | Some fd \<Rightarrow> io_bind (own_descriptor fd) (\<lambda>_. io_return (Some fd))) (\<lambda>found. case found of None \<Rightarrow> g | Some fd \<Rightarrow> f fd)
    = (case found of None \<Rightarrow> g | Some fd \<Rightarrow> io_bind (own_descriptor fd) (\<lambda>_. f fd))" for found
    by (cases found) (simp_all add: io_bind_assoc)
  ultimately show ?thesis by (simp only: io_bind_assoc)
qed

lemma opens_instruction: "entry_opens table (instruction_steps p root relative) (\<lambda>_ _. True)"
  unfolding instruction_steps_def
  by (intro entry_opens_new entry_opens_bind [OF entry_opens_directories] opens_if_present fd_opener_unsafe keeps_types fd_opener_calls
      fd_opener_leaf entry_opens_return entry_opens_map [OF opens_checked_leaf] TrueI)

lemma keeps_read_optional_instruction [keeps_intros]: "keeps_fds (read_optional_instruction p root relative)"
  unfolding keeps_fds_def
proof
  fix w
  obtain r fds v where i: "instruction_steps p root relative ([], w) = (r, (fds, v))"
    by (metis prod.exhaust)
  have "owns (to_fds w) ([], w)" by (simp add: owns_def)
  with i io_spec_Inr [OF opens_instruction [unfolded entry_opens_def], of "to_fds w" "([], w)"]
    io_spec_Inl [OF opens_instruction [unfolded entry_opens_def], of "to_fds w" "([], w)"]
  have "owns (to_fds w) (fds, v)" by (cases r) blast+
  moreover obtain ce u where "close_fds (ik_kernel p) fds v = (ce, u)" by fastforce
  ultimately show "to_fds (snd (read_optional_instruction p root relative w)) = to_fds w"
    using i close_fds_fds [of "ik_kernel p" fds v] by (simp add: read_optional_instruction_def owns_def)
qed

lemma keeps_read_instructions [keeps_intros]: "keeps_fds (read_instructions p root relatives)"
proof (induction relatives)
  case (Cons relative relatives)
  show ?case unfolding read_instructions.simps by (intro keeps_intros Cons.IH)
qed (simp only: read_instructions.simps keeps_fds_return)

lemma keeps_files_among [keeps_intros]: "keeps_fds (files_among p qs)"
proof (induction qs)
  case (Cons q qs)
  show ?case unfolding files_among.simps by (intro keeps_intros Cons.IH)
qed (simp only: files_among.simps keeps_fds_return)

lemma keeps_filesystem_evidence [keeps_intros]: "keeps_fds (read_filesystem_evidence p root target)"
  unfolding read_filesystem_evidence_def
  by (cases "relative_to target root") (simp_all only: option.case, (intro keeps_intros)+)

subsection \<open>The search\<close>

lemma keeps_discover [keeps_intros]: "keeps_fds (discover_repository_candidate p target)"
proof -
  have "keeps_fds (discover_candidates p target candidates)" for candidates
  proof (induction candidates)
    case (Cons candidate candidates)
    show ?case
      unfolding discover_candidates.simps Let_def
      by (intro keeps_fds_bind keeps_fds_except keeps_fds_if keeps_fds_return keeps_fds_raise keeps_path_calls)
        (auto split: option.splits intro!: keeps_fds_if keeps_fds_return keeps_fds_raise Cons.IH)
  qed (simp only: discover_candidates.simps keeps_fds_return)
  then show ?thesis unfolding discover_repository_candidate_def .
qed

lemma keeps_find_target [keeps_intros]: "keeps_fds (find_target p q)"
  unfolding find_target_def resolve_directory_def by (intro keeps_intros)

lemma keeps_survey [keeps_intros]: "keeps_fds (survey p target)"
  unfolding survey_def split_def by (intro keeps_intros)

lemma keeps_discover_git [keeps_intros]: "keeps_fds (discover_git p target candidate_root)"
proof -
  have "keeps_fds (resolve_git_discovery p stdout candidate_root target)" for stdout
    unfolding resolve_git_discovery_def
    by (cases "splitlines stdout"; cases "tl (splitlines stdout)"; cases "tl (tl (splitlines stdout))")
      (simp_all, (intro conjI impI keeps_intros)+)
  then show ?thesis
    unfolding discover_git_def by (intro keeps_intros)
qed

subsection \<open>Pins\<close>

text \<open>What is raised by the system calls on a path or a descriptor is an \<open>OSError\<close>.\<close>

definition raises_only :: "(lock_exn \<Rightarrow> bool) \<Rightarrow> (lock_exn, 'w, 'a) io \<Rightarrow> bool" where
  "raises_only E m \<longleftrightarrow> (\<forall>w e v. m w = (Inl e, v) \<longrightarrow> E e)"

named_theorems raises_only_intros

lemma raisesI: "(\<And>w e v. m w = (Inl e, v) \<Longrightarrow> E e) \<Longrightarrow> raises_only E m"
  by (simp add: raises_only_def)

lemma raisesD: "raises_only E m \<Longrightarrow> m w = (Inl e, v) \<Longrightarrow> E e"
  unfolding raises_only_def by blast

lemma raises_only_return [raises_only_intros]: "raises_only E (io_return a)"
  and raises_only_raise [raises_only_intros]: "E e \<Longrightarrow> raises_only E (io_raise e)"
  by (simp_all add: raises_only_def)

lemma raises_only_bind [raises_only_intros]: "raises_only E m \<Longrightarrow> (\<And>a. raises_only E (f a)) \<Longrightarrow> raises_only E (io_bind m f)"
  by (rule raisesI) (auto simp: io_bind_def split: prod.splits sum.splits dest: raisesD)

lemma raises_only_except [raises_only_intros]:
  assumes "raises_only F m" and "\<And>e. F e \<Longrightarrow> raises_only E (h e)"
  shows "raises_only E (io_except m h)"
proof (rule raisesI)
  fix w e v assume "io_except m h w = (Inl e, v)"
  then obtain x u where u: "m w = (Inl x, u)" "h x u = (Inl e, v)"
    by (auto simp: io_except_def split: prod.splits sum.splits)
  show "E e" using raisesD [OF assms(2) u(2)] raisesD [OF assms(1) u(1)] by blast
qed

lemma raises_only_map_error: 
  assumes "raises_only F m" and "\<And>e. F e \<Longrightarrow> E (g e)"
  shows "raises_only E (io_map_error g m)"
proof (rule raisesI)
  fix w e v assume "io_map_error g m w = (Inl e, v)"
  then obtain x where u: "m w = (Inl x, v)" "e = g x"
    by (auto simp: io_map_error_def split: prod.splits sum.splits)
  show "E e" using assms(2) [OF raisesD [OF assms(1) u(1)]] u(2) by simp
qed

lemma raises_only_weaken: "raises_only F m \<Longrightarrow> (\<And>e. F e \<Longrightarrow> E e) \<Longrightarrow> raises_only E m"
  by (auto simp: raises_only_def)

lemma raises_only_if [raises_only_intros]: "(b \<Longrightarrow> raises_only E m) \<Longrightarrow> (\<not> b \<Longrightarrow> raises_only E n) \<Longrightarrow> raises_only E (if b then m else n)"
  by simp

lemma os_error_simps [simp]:
  "is_os_error (LockOs x)" "is_os_error (changed m)" "is_os_error (os_failure n m)" "is_os_error bad_descriptor"
  "is_os_error no_such_file"
  by (simp_all add: is_os_error_def changed_def os_failure_def bad_descriptor_def no_such_file_def)

lemma raises_only_look [raises_only_intros]: "raises_only is_os_error (look k)"
  by (rule raisesI) (auto simp: look_def split: option.splits)

lemma raises_only_with_fd [raises_only_intros]: "(\<And>n. raises_only is_os_error (f n)) \<Longrightarrow> raises_only is_os_error (with_fd fd f)"
  by (rule raisesI) (auto simp: with_fd_def split: option.splits dest: raisesD)

lemma raises_only_find_entry [raises_only_intros]: "raises_only is_os_error (io_lift (find_entry t d name))"
  by (rule raisesI) (auto simp: find_entry_def split: if_splits option.splits)

lemma raises_only_now [raises_only_intros]: "raises_only E now"
  by (simp add: raises_only_def now_def)

lemma raises_only_path_node [raises_only_intros]: "raises_only is_os_error (path_node p q t)"
  by (rule raisesI) (auto simp: path_node_def split: sum.splits)

lemma raises_only_new_fd [raises_only_intros]: "raises_only E (new_fd n)"
  by (simp add: raises_only_def new_fd_def)

lemma raises_only_open_node [raises_only_intros]: "raises_only is_os_error (open_node flags t n)"
  unfolding open_node_def by (intro raises_only_intros) simp_all

lemma raises_only_calls [raises_only_intros]:
  "raises_only is_os_error (fd_fstat k fd)" "raises_only is_os_error (fd_stat_at k fd name)" "raises_only is_os_error (fd_dup k fd)"
  "raises_only is_os_error (fd_open_at k fd name flags)" "raises_only is_os_error (path_lstat p q)"
  "raises_only is_os_error (path_open p q flags)" "raises_only is_os_error (fd_contents k fd)" "raises_only is_os_error (fd_readlink k fd name)"
  unfolding fd_fstat_def fd_stat_at_def fd_dup_def fd_open_at_def path_lstat_def path_open_def fd_contents_def fd_readlink_def
  by (intro raises_only_intros; simp)+

lemma raises_only_close [raises_only_intros]: "raises_only is_os_error (fd_close k fd)"
proof (rule raisesI)
  fix w e v assume c: "fd_close k fd w = (Inl e, v)"
  show "is_os_error e"
  proof (cases "map_of (to_fds w) fd")
    case None
    with c show ?thesis by (auto simp: fd_close_def with_fd_def)
  next
    case (Some n)
    with c show ?thesis
      by (auto simp: fd_close_def with_fd_def look_def split: prod.splits sum.splits option.splits)
  qed
qed

lemma raises_only_stat_if_present [raises_only_intros]: "raises_only is_os_error (stat_if_present k fd name)"
  unfolding stat_if_present_def
  by (rule raises_only_except [where F = is_os_error]) (auto intro: raises_only_intros)

lemma raises_only_pin_checks: "raises_only is_os_error (pin_checks p q kind message fd)"
  unfolding pin_checks_def by (intro raises_only_intros) simp

lemma keeps_pin_checks: "keeps_fds (pin_checks p q kind message fd)"
  unfolding pin_checks_def by (intro keeps_intros)

lemma pin_checks_Inr: "pin_checks p q kind message fd w = (Inr pin, v) \<Longrightarrow> pp_descriptor pin = Some fd"
  by (auto simp: pin_checks_def io_bind_Inr_iff split: if_splits)

lemma raises_only_check_pin [raises_only_intros]: "raises_only is_os_error (check_pin p q kind message fd)"
  by (rule raisesI) (auto simp: check_pin_def split: prod.splits sum.splits
      dest: raisesD [OF raises_only_pin_checks] raisesD [OF raises_only_close])

text \<open>A pin that is returned holds one new descriptor, or none; a pin that is not leaves none.\<close>

lemma check_pin_fds:
  assumes "check_pin p q kind message fd w = (r, v)"
  shows "case r of Inl _ \<Rightarrow> to_fds v = without {fd} (to_fds w)
    | Inr pin \<Rightarrow> to_fds v = to_fds w \<and> pp_descriptor pin = Some fd"
proof -
  obtain x u where u: "pin_checks p q kind message fd w = (x, u)" by fastforce
  from keeps_result [OF keeps_pin_checks u] have same: "to_fds u = to_fds w" .
  show ?thesis
  proof (cases x)
    case (Inl e)
    with assms u fd_close_fds [of "ik_kernel p" fd u] same show ?thesis
      by (auto simp: check_pin_def split: prod.splits sum.splits)
  next
    case (Inr pin)
    with assms u same pin_checks_Inr show ?thesis by (fastforce simp: check_pin_def)
  qed
qed

lemma without_new: "without {free_fd fds} ((free_fd fds, n) # fds) = fds"
  using without_absent [of "{free_fd fds}" fds] free_fd_fresh [of fds] by (simp add: without_def)

lemma fd_opener_pin_if_present:
  assumes "fd_opener (\<lambda>x. x) m" and "pp_descriptor absent = None"
  shows "fd_opener pp_descriptor (io_bind m (\<lambda>found. case found of None \<Rightarrow> io_return absent | Some fd \<Rightarrow> check_pin p q kind message fd))"
proof (rule fd_openerI)
  let ?f = "\<lambda>found. case found of None \<Rightarrow> io_return absent | Some fd \<Rightarrow> check_pin p q kind message fd"
  fix w e v assume c: "io_bind m ?f w = (Inl e, v)"
  obtain r u where u: "m w = (r, u)" by fastforce
  show "to_fds v = to_fds w"
  proof (cases r)
    case (Inl x)
    with c u fd_openerD(1) [OF assms(1)] show ?thesis by (simp add: io_bind_def)
  next
    case (Inr found)
    with c u have "?f found u = (Inl e, v)" by (simp add: io_bind_def)
    then obtain fd where fd: "found = Some fd" and pin: "check_pin p q kind message fd u = (Inl e, v)"
      by (cases found) simp_all
    from fd_openerD(2) [OF assms(1)] u Inr fd obtain n where n: "fd = free_fd (to_fds w)" "to_fds u = (fd, n) # to_fds w"
      by (fastforce simp: new_descriptor_def)
    from check_pin_fds [OF pin] show ?thesis unfolding n by (simp add: without_new)
  qed
next
  let ?f = "\<lambda>found. case found of None \<Rightarrow> io_return absent | Some fd \<Rightarrow> check_pin p q kind message fd"
  fix w a v assume "io_bind m ?f w = (Inr a, v)"
  then obtain found u where u: "m w = (Inr found, u)" "?f found u = (Inr a, v)" by (rule io_bind_Inr_E)
  show "new_descriptor w (pp_descriptor a) v"
  proof (cases found)
    case None
    with u fd_openerD(2) [OF assms(1) u(1)] assms(2) show ?thesis by simp
  next
    case (Some fd)
    with u(2) have pin: "check_pin p q kind message fd u = (Inr a, v)" by simp
    from check_pin_fds [OF pin] fd_openerD(2) [OF assms(1) u(1)] show ?thesis
      unfolding Some by (auto simp: new_descriptor_def)
  qed
qed

lemma fd_opener_pins [fd_opener_intros]:
  "fd_opener pp_descriptor (pin_required_directory p q)" "fd_opener pp_descriptor (pin_optional_regular_file p q)"
proof -
  show "fd_opener pp_descriptor (pin_required_directory p q)"
    using fd_opener_pin_if_present [OF fd_opener_Some [OF fd_opener_calls(2)], of "\<lparr>pp_path = q, pp_descriptor = None, pp_fingerprint = None\<rparr>"
      p q directory_flags_at p q "''directory''" "''repository directory changed''"]
    by (simp add: pin_required_directory_def io_bind_assoc)
  have o': "fd_opener (\<lambda>x. x) (io_except (io_bind (path_open p q leaf_flags) (\<lambda>fd. io_return (Some fd)))
      (\<lambda>e. if is_missing e then io_return None else io_raise e))"
    by (intro fd_opener_except fd_opener_Some fd_opener_calls) (simp add: fd_opener_nothing fd_opener_raise)
  show "fd_opener pp_descriptor (pin_optional_regular_file p q)"
    unfolding pin_optional_regular_file_def by (rule fd_opener_pin_if_present [OF o']) simp
qed

lemma keeps_validate_pinned_path [keeps_intros]: "keeps_fds (validate_pinned_path p pin)"
  unfolding validate_pinned_path_def
  by (cases "pp_descriptor pin"; cases "pp_fingerprint pin") (simp_all only: option.case, (intro keeps_intros)+)

lemma raises_only_timed [raises_only_intros]: "raises_only is_os_error m \<Longrightarrow> raises_only is_os_error (timed p m)"
  by (rule raisesI) (auto simp: timed_def is_os_error_def split: prod.splits sum.splits dest: raisesD)

lemma raises_only_pins [raises_only_intros]:
  "raises_only is_os_error (pin_required_directory p q)" "raises_only is_os_error (pin_optional_regular_file p q)"
proof -
  show "raises_only is_os_error (pin_required_directory p q)"
    unfolding pin_required_directory_def by (intro raises_only_intros)
  show "raises_only is_os_error (pin_optional_regular_file p q)"
    unfolding pin_optional_regular_file_def
    by (intro raises_only_bind raises_only_except [where F = is_os_error] raises_only_calls)
      (auto split: option.splits intro!: raises_only_intros)
qed

lemma close_new_descriptors:
  assumes "new_descriptor w (pp_descriptor i) u" and "new_descriptor u (pp_descriptor j) v"
  shows "without (set (List.map_filter pp_descriptor [j, i])) (to_fds v) = to_fds w"
proof -
  have one: "without (set (List.map_filter pp_descriptor [pin])) (to_fds y) = to_fds x"
    if "new_descriptor x (pp_descriptor pin) y" for pin x y
    using that by (cases "pp_descriptor pin") (auto simp: new_descriptor_def List.map_filter_def without_new)
  have "set (List.map_filter pp_descriptor [j, i])
      = set (List.map_filter pp_descriptor [i]) \<union> set (List.map_filter pp_descriptor [j])"
    by (auto simp: List.map_filter_def)
  then show ?thesis using one [OF assms(1)] one [OF assms(2)] without_without by metis
qed

text \<open>The only step that may leave a descriptor is the one that pins root and index.\<close>

definition keeps_but_pin :: "'a inspection \<Rightarrow> bool" where
  "keeps_but_pin m \<longleftrightarrow> (\<forall>w r v. m w = (r, v) \<longrightarrow> to_fds v = to_fds w
     \<or> (\<exists>target fd n. r = Inl (LockExn (cannot_pin target)) \<and> to_fds v = (fd, n) # to_fds w))"

lemma keeps_but_pinI: "keeps_fds m \<Longrightarrow> keeps_but_pin m"
  unfolding keeps_but_pin_def using keeps_result by blast

lemma keeps_but_pin_bind:
  assumes "keeps_fds m" and "\<And>a. keeps_but_pin (f a)"
  shows "keeps_but_pin (io_bind m f)"
  unfolding keeps_but_pin_def
proof (intro allI impI)
  fix w r v assume b: "io_bind m f w = (r, v)"
  obtain x u where x: "m w = (x, u)" by fastforce
  note same = keeps_result [OF assms(1) x]
  show "to_fds v = to_fds w \<or> (\<exists>target fd n. r = Inl (LockExn (cannot_pin target)) \<and> to_fds v = (fd, n) # to_fds w)"
  proof (cases x)
    case (Inl e)
    with b x same show ?thesis by (simp add: io_bind_def)
  next
    case (Inr a)
    with b x have "f a u = (r, v)" by (simp add: io_bind_def)
    with assms(2) show ?thesis unfolding keeps_but_pin_def same [symmetric] by blast
  qed
qed

lemma pin_evidence_cases:
  assumes "undisturbed (ik_kernel p)" and "pin_evidence p target root git w = (r, v)"
  shows "case r of
      Inl e \<Rightarrow> e = LockExn (cannot_pin target) \<and> (to_fds v = to_fds w \<or> (\<exists>fd n. to_fds v = (fd, n) # to_fds w))
    | Inr (root_pin, index_pin) \<Rightarrow>
        \<exists>u. new_descriptor w (pp_descriptor root_pin) u \<and> new_descriptor u (pp_descriptor index_pin) v"
proof -
  let ?root = "pin_required_directory p root"
  let ?index = "pin_optional_regular_file p (path_join git (path_of ''index''))"
  let ?pins = "io_bind ?root (\<lambda>root_pin. io_bind ?index (\<lambda>index_pin. io_return (root_pin, index_pin)))"
  have m: "pin_evidence p target root git = io_map_error (\<lambda>e. if is_os_error e then LockExn (cannot_pin target) else e) (timed p ?pins)"
    by (simp add: pin_evidence_def fs_operation_def undisturbed_operation [OF assms(1)])
  have errors: "raises_only is_os_error (timed p ?pins)" by (intro raises_only_intros)
  obtain x u where x: "?root w = (x, u)" by fastforce
  note o' = fd_openerD [OF fd_opener_pins(1)] fd_openerD [OF fd_opener_pins(2)]
  obtain y z where t: "timed p ?pins w = (y, z)" by fastforce
  have yz: "to_fds z = to_fds (snd (?pins w))" using timed_fds [of p ?pins w] t by simp
  show ?thesis
  proof (cases y)
    case (Inr pins)
    with t have "?pins w = (Inr pins, z)" by (auto simp: timed_def split: prod.splits sum.splits)
    then obtain root_pin index_pin u' where steps: "?root w = (Inr root_pin, u')" "?index u' = (Inr index_pin, z)"
        and pins: "pins = (root_pin, index_pin)"
      by (auto simp: io_bind_Inr_iff)
    have "r = Inr pins" "v = z" using assms(2) unfolding m io_map_error_def t by (simp_all add: Inr)
    with o'(2) [OF steps(1)] o'(4) [OF steps(2)] show ?thesis unfolding pins by auto
  next
    case (Inl e)
    have "to_fds (snd (?pins w)) = to_fds w \<or> (\<exists>fd n. to_fds (snd (?pins w)) = (fd, n) # to_fds w)"
    proof (cases x)
      case (Inl e')
      with x o'(1) [of p root w] show ?thesis by (simp add: io_bind_def)
    next
      case (Inr root_pin)
      with x o'(2) [of p root w] have n: "new_descriptor w (pp_descriptor root_pin) u" by simp
      obtain y' z' where i: "?index u = (y', z')" by fastforce
      with t x Inr \<open>y = Inl e\<close> obtain e' where "y' = Inl e'"
        by (cases y') (simp_all add: timed_def io_bind_def)
      with i o'(3) have "to_fds z' = to_fds u" by blast
      with n x Inr i \<open>y' = Inl e'\<close> show ?thesis
        by (cases "pp_descriptor root_pin") (auto simp: io_bind_def new_descriptor_def)
    qed
    moreover have "r = Inl (LockExn (cannot_pin target))" "v = z"
      using assms(2) raisesD [OF errors t [unfolded Inl]] unfolding m io_map_error_def t by (simp_all add: Inl)
    ultimately show ?thesis using yz by simp
  qed
qed

context descriptor_keeper
begin

lemma worktree_evidence_keeps:
  assumes "undisturbed (ik_kernel p)" and "ik_hasher p = hasher"
  shows "keeps_fds (worktree_evidence p target repository_root root_pin index_pin root index head untracked)"
proof -
  have "keeps_fds (collect_dirty_paths (ik_kernel p) (ik_digest p) (ik_hasher p) root index head untracked)"
    using dirty_paths_keep [OF assms(1)] by (simp add: keeps_fds_def assms(2))
  then show ?thesis
    unfolding worktree_evidence_def by (intro keeps_intros)
qed

lemma inspect_worktree_keeps:
  assumes "undisturbed (ik_kernel p)" and "ik_hasher p = hasher"
  shows "keeps_fds (inspect_worktree p target repository_root prefix root_pin index_pin)"
  unfolding inspect_worktree_def split_def
  by (cases "pp_descriptor root_pin")
    (simp_all only: option.case, (intro keeps_intros worktree_evidence_keeps assms)+)

lemma inspect_git_keeps:
  assumes "undisturbed (ik_kernel p)" and "ik_hasher p = hasher"
  shows "keeps_but_pin (inspect_git p target candidate_root)"
  unfolding inspect_git_def split_def
proof (rule keeps_but_pin_bind [OF keeps_discover_git])
  fix found :: "path \<times> path"
  let ?body = "\<lambda>pins. inspect_worktree p target (fst found) (pinned_prefix candidate_root (fst found) (snd found)) (fst pins) (snd pins)"
  show "keeps_but_pin (io_bind (pin_evidence p target (fst found) (snd found)) (\<lambda>pins. with_pins p (fst pins) (snd pins) (?body pins)))"
    unfolding keeps_but_pin_def
  proof (intro allI impI)
    fix w r v
    assume b: "io_bind (pin_evidence p target (fst found) (snd found)) (\<lambda>pins. with_pins p (fst pins) (snd pins) (?body pins)) w = (r, v)"
    obtain x u where x: "pin_evidence p target (fst found) (snd found) w = (x, u)" by fastforce
    note pin = pin_evidence_cases [OF assms(1) x]
    show "to_fds v = to_fds w \<or> (\<exists>target fd n. r = Inl (LockExn (cannot_pin target)) \<and> to_fds v = (fd, n) # to_fds w)"
    proof (cases x)
      case (Inl e)
      with b x pin show ?thesis by (auto simp: io_bind_def)
    next
      case (Inr pins)
      then obtain root_pin index_pin where pins: "x = Inr (root_pin, index_pin)" "pins = (root_pin, index_pin)" by (cases pins) simp
      with pin obtain u' where n: "new_descriptor w (pp_descriptor root_pin) u'" "new_descriptor u' (pp_descriptor index_pin) u"
        by auto
      from b x pins have c: "with_pins p root_pin index_pin (?body pins) u = (r, v)" by (simp add: io_bind_def)
      obtain y u2 where y: "?body pins u = (y, u2)" by fastforce
      obtain ce u3 where ce: "close_fds (ik_kernel p) (List.map_filter pp_descriptor [index_pin, root_pin]) u2 = (ce, u3)" by fastforce
      have "to_fds u2 = to_fds u" by (rule keeps_result [OF inspect_worktree_keeps [OF assms] y])
      moreover have "v = u3" using c y ce pins by (simp add: with_pins_def close_pinned_paths_def)
      ultimately have "to_fds v = to_fds w"
        using close_new_descriptors [OF n] close_fds_fds [of "ik_kernel p" "List.map_filter pp_descriptor [index_pin, root_pin]" u2] ce
        by (simp only: snd_conv)
      then show ?thesis by simp
    qed
  qed
qed

lemma inspect_keeps:
  assumes "undisturbed (ik_kernel p)" and "ik_hasher p = hasher"
  shows "keeps_but_pin (inspect p q)"
proof -
  have "keeps_but_pin (case git_metadata of None \<Rightarrow> io_return (non_git_context target evidence)
      | Some _ \<Rightarrow> inspect_git p target candidate_root)" for git_metadata target evidence candidate_root
    using inspect_git_keeps [OF assms] keeps_but_pinI [OF keeps_fds_return] by (cases git_metadata) simp_all
  then show ?thesis
    unfolding inspect_def split_def
    by (auto intro!: keeps_but_pin_bind keeps_find_target keeps_survey keeps_but_pinI [OF keeps_fds_raise])
qed

end

text \<open>
  C10. When no operation that the inspection runs on a worker thread is cancelled or timed out while
  it runs, the inspection closes every descriptor that it opens: whatever other processes do to the
  tree, whichever system calls fail, whatever Git and the hashing helper answer, and whether a
  context is returned or an error raised. The one exception is an index that cannot be pinned after
  the root was: then exactly the descriptor of the root stays open. Without the condition
  descriptors can stay open (\<open>cancelled_inspection_leaks\<close>): the thread goes on, and the descriptor
  that it returns is dropped.
\<close>

theorem inspection_leaves_no_descriptor_open:
  assumes "undisturbed (ik_kernel p)"
    and "ik_hasher p = hash_descriptors (helper_process (ik_kernel p) (ik_digest p) short)"
    and "inspect p q w = (r, v)"
  shows "to_fds v = to_fds w
    \<or> (\<exists>target fd n. r = Inl (LockExn (cannot_pin target)) \<and> to_fds v = (fd, n) # to_fds w)"
  using helper.inspect_keeps [OF assms(1,2)] assms(3) unfolding keeps_but_pin_def by blast

end
