(* ===== verification/Inspection_Evidence.thy ===== *)
theory Inspection_Evidence
  imports Inspection_Properties
begin

text \<open>
  What a context returned by \<open>LocalRepositoryInspector.inspect\<close> may say: only names that Git
  reported become dirty paths, instruction and Docker files lie below the root of the repository,
  and languages are counted once each.
\<close>

section \<open>Results\<close>

text \<open>Every result of a step that returns.\<close>

definition returns :: "(lock_exn, 'w, 'a) io \<Rightarrow> ('a \<Rightarrow> bool) \<Rightarrow> bool" where
  "returns m Q \<longleftrightarrow> (\<forall>w a v. m w = (Inr a, v) \<longrightarrow> Q a)"

named_theorems returns_intros

lemma returnsI: "(\<And>w a v. m w = (Inr a, v) \<Longrightarrow> Q a) \<Longrightarrow> returns m Q"
  by (simp add: returns_def)

lemma returnsD: "returns m Q \<Longrightarrow> m w = (Inr a, v) \<Longrightarrow> Q a"
  unfolding returns_def by blast

lemma returns_return: "Q a \<Longrightarrow> returns (io_return a) Q"
  and returns_raise: "returns (io_raise e) Q"
  by (simp_all add: returns_def)

lemma returns_any: "(\<And>a. Q a) \<Longrightarrow> returns m Q"
  by (simp add: returns_def)

lemma returns_bind:
  assumes "returns m R" and "\<And>a. R a \<Longrightarrow> returns (f a) Q"
  shows "returns (io_bind m f) Q"
proof (rule returnsI)
  fix w a v assume "io_bind m f w = (Inr a, v)"
  then obtain x u where u: "m w = (Inr x, u)" "f x u = (Inr a, v)" by (rule io_bind_Inr_E)
  show "Q a" using returnsD [OF assms(2) u(2)] returnsD [OF assms(1) u(1)] by blast
qed

lemma returns_bind_any: "(\<And>a. returns (f a) Q) \<Longrightarrow> returns (io_bind m f) Q"
  by (rule returns_bind [where R = "\<lambda>_. True"]) (auto intro: returns_any)

lemma returns_map_error: "returns m Q \<Longrightarrow> returns (io_map_error g m) Q"
  by (simp add: returns_def io_map_error_Inr_iff)

lemma returns_repository_error: "returns m Q \<Longrightarrow> returns (repository_error_for caught message m) Q"
  unfolding repository_error_for_def by (rule returns_map_error)

lemma returns_timed: "returns m Q \<Longrightarrow> returns (timed p m) Q"
  by (rule returnsI) (auto simp: timed_def split: prod.splits sum.splits dest: returnsD)

lemma returns_operation: "returns m Q \<Longrightarrow> returns (run_filesystem_operation k m) Q"
  by (rule returnsI) (auto simp: run_filesystem_operation_def Let_def split: prod.splits if_splits dest: returnsD)

lemma returns_fs_operation: "returns m Q \<Longrightarrow> returns (fs_operation p m) Q"
  unfolding fs_operation_def by (rule returns_operation)

lemma returns_from_result: "returns (from_result r) (\<lambda>a. r = Inr a)"
  by (rule returnsI) (auto simp: from_result_def split: sum.splits)

lemma returns_lift: "returns (io_lift r) (\<lambda>a. r = Inr a)"
  by (rule returnsI) simp

lemma returns_weaken: "returns m Q \<Longrightarrow> (\<And>a. Q a \<Longrightarrow> R a) \<Longrightarrow> returns m R"
  by (auto simp: returns_def)

lemma returns_if: "(b \<Longrightarrow> returns m Q) \<Longrightarrow> (\<not> b \<Longrightarrow> returns n Q) \<Longrightarrow> returns (if b then m else n) Q"
  by simp

section \<open>Dirty paths come from Git\<close>

lemma returns_check_opened:
  "returns (check_opened k hash algorithm e opened)
     (\<lambda>(dirty, regular). set dirty \<subseteq> {ie_path e} \<and> set regular \<subseteq> {(e, opened)})"
proof (cases "ow_symlink_content opened")
  case None
  then show ?thesis
    unfolding check_opened_def
    by (auto intro!: returns_if returns_bind_any returns_return returns_raise)
next
  case (Some content)
  then show ?thesis
    unfolding check_opened_def
    by (auto intro!: returns_if returns_bind_any returns_return returns_raise)
qed

lemma returns_check_entries:
  "returns (check_entries k hash algorithm os)
     (\<lambda>(dirty, regular). set dirty \<subseteq> ie_path ` fst ` set os \<and> set regular \<subseteq> set os)"
proof (induction os)
  case (Cons x os)
  obtain e opened where x: "x = (e, opened)" by fastforce
  show ?case
  proof (rule returnsI)
    fix w a v assume "check_entries k hash algorithm (x # os) w = (Inr a, v)"
    then obtain dirty regular u dirty' regular' where
      steps: "check_opened k hash algorithm e opened w = (Inr (dirty, regular), u)"
        "check_entries k hash algorithm os u = (Inr (dirty', regular'), v)"
      and a: "a = (dirty @ dirty', regular @ regular')"
      by (auto simp: x io_bind_Inr_iff)
    from returnsD [OF returns_check_opened steps(1)] returnsD [OF Cons.IH steps(2)]
    show "case a of (dirty, regular) \<Rightarrow> set dirty \<subseteq> ie_path ` fst ` set (x # os) \<and> set regular \<subseteq> set (x # os)"
      unfolding a x by auto
  qed
qed (simp add: returns_def)

lemma returns_compare_digests: "returns (compare_digests k os ds) (\<lambda>dirty. set dirty \<subseteq> ie_path ` fst ` set os)"
proof (induction os arbitrary: ds)
  case (Cons x os)
  obtain e opened where x: "x = (e, opened)" by fastforce
  show ?case
    unfolding x compare_digests.simps
    by (rule returns_bind_any, rule returns_bind [OF Cons.IH]) (auto intro!: returns_return)
qed (simp add: returns_return)

lemma returns_check_batch: "returns (check_batch k hash hasher algorithm os) (\<lambda>dirty. set dirty \<subseteq> ie_path ` fst ` set os)"
proof (rule returnsI)
  fix w a v assume "check_batch k hash hasher algorithm os w = (Inr a, v)"
  then obtain dirty regular u where c: "check_entries k hash algorithm os w = (Inr (dirty, regular), u)"
    and rest: "(if regular = [] then io_return dirty
       else io_bind (hasher (blob_requests regular) algorithm) (\<lambda>digests.
         if length digests \<noteq> length regular
         then io_raise (LockExn (RepositoryError ''Tracked worktree hashing returned wrong batch size''))
         else io_bind (compare_digests k regular digests) (\<lambda>dirty'. io_return (dirty @ dirty')))) u = (Inr a, v)"
    unfolding check_batch_def by (auto simp: io_bind_Inr_iff)
  from returnsD [OF returns_check_entries c] have sub: "set dirty \<subseteq> ie_path ` fst ` set os" "set regular \<subseteq> set os" by auto
  from rest consider "a = dirty"
    | digests x dirty' where "compare_digests k regular digests x = (Inr dirty', v)" "a = dirty @ dirty'"
    by (auto simp: io_bind_Inr_iff split: if_splits)
  then show "set a \<subseteq> ie_path ` fst ` set os"
  proof cases
    case 2
    have "ie_path ` fst ` set regular \<subseteq> ie_path ` fst ` set os" using sub(2) by blast
    with returnsD [OF returns_compare_digests 2(1)] sub(1) 2(2) show ?thesis by auto
  qed (use sub in simp)
qed

lemma open_entries_names:
  "open_entries k root es (os, w) = (Inr (), (os', v)) \<Longrightarrow> map fst os' = map fst os @ es"
proof (induction es arbitrary: os w)
  case (Cons e es)
  then obtain opened u where "open_entries k root es (os @ [(e, opened)], u) = (Inr (), (os', v))"
    by (auto simp: io_bind_Inr_iff io_inner_def split: prod.splits)
  from Cons.IH [OF this] show ?case by simp
qed simp

lemma returns_batch: "returns (compare_worktree_batch k hash hasher algorithm root es) (\<lambda>dirty. set dirty \<subseteq> ie_path ` set es)"
proof (rule returnsI)
  fix w dirty v
  assume m: "compare_worktree_batch k hash hasher algorithm root es w = (Inr dirty, v)"
  obtain started os w1 where o': "open_entries k root es ([], w) = (started, (os, w1))" by (metis prod.exhaust)
  from m o' obtain w2 where started: "started = Inr ()" and c: "check_batch k hash hasher algorithm os w1 = (Inr dirty, w2)"
    by (auto simp: compare_worktree_batch_def split: sum.splits prod.splits option.splits)
  from open_entries_names [OF o' [unfolded started]] have "fst ` set os = set es" by (simp flip: set_map)
  with returnsD [OF returns_check_batch c] show "set dirty \<subseteq> ie_path ` set es" by simp
qed

lemma returns_batches: "returns (compare_batches k hash hasher algorithm root es) (\<lambda>dirty. set dirty \<subseteq> ie_path ` set es)"
proof (induction "length es" arbitrary: es rule: less_induct)
  case less
  show ?case
  proof (cases "es = []")
    case True
    then show ?thesis by (subst compare_batches.simps) (simp add: returns_return)
  next
    case False
    have now: "returns (compare_worktree_batch k hash hasher algorithm root (take blob_hash_batch_max es)) (\<lambda>dirty. set dirty \<subseteq> ie_path ` set es)"
      by (rule returns_weaken [OF returns_batch]) (auto dest: in_set_takeD)
    from False have "length (drop blob_hash_batch_max es) < length es" by (simp add: blob_hash_batch_max_def)
    from less [OF this] have rest: "returns (compare_batches k hash hasher algorithm root (drop blob_hash_batch_max es)) (\<lambda>dirty. set dirty \<subseteq> ie_path ` set es)"
      by (rule returns_weaken) (auto dest: in_set_dropD)
    show ?thesis
      using False
      by (subst compare_batches.simps) (auto intro!: returns_bind [OF now] returns_bind [OF rest] returns_return)
  qed
qed

lemma classify_path_entries:
  assumes "classify_path index head q = Inr (dirty, es)"
  shows "set es \<subseteq> set index"
proof -
  obtain cs where cs: "candidates_of index q = cs" by simp
  have "set es \<subseteq> set cs"
    using assms unfolding classify_path_def Let_def cs by (auto split: if_splits list.splits)
  then show ?thesis unfolding cs [symmetric] by (auto simp: candidates_of_def)
qed

lemma classify_paths_sources:
  assumes "classify_paths index head = Inr (dirty, worktree)"
  shows "set dirty \<subseteq> ie_path ` set index \<union> te_path ` set head" and "set worktree \<subseteq> set index"
proof -
  let ?ps = "sorted_paths (map ie_path index @ map te_path head)"
  from assms obtain cs where cs: "rmap (classify_path index head) ?ps = Inr cs"
    and dirty: "dirty = map fst (filter (\<lambda>(_, dirty, _). dirty) (zip ?ps cs))" and worktree: "worktree = concat (map snd cs)"
    by (auto simp: classify_paths_def Let_def rbind_def split: sum.splits)
  have "set dirty \<subseteq> set ?ps" unfolding dirty by (auto dest: set_zip_leftD)
  then show "set dirty \<subseteq> ie_path ` set index \<union> te_path ` set head" by (auto simp: sorted_paths_def)
  show "set worktree \<subseteq> set index"
    unfolding worktree using rmap_set [OF cs] classify_path_entries by fastforce
qed

text \<open>Whatever the tree does, a dirty path was named by Git.\<close>

lemma returns_dirty_paths:
  "returns (collect_dirty_paths k hash hasher root index head untracked)
     (\<lambda>ds. set ds \<subseteq> set untracked \<union> ie_path ` set index \<union> te_path ` set head \<and> sorted (map str_path ds) \<and> distinct ds)"
proof (rule returnsI)
  fix w ds v
  assume "collect_dirty_paths k hash hasher root index head untracked w = (Inr ds, v)"
  then obtain dirty worktree u dirty' where c: "classify_paths index head = Inr (dirty, worktree)"
    and b: "compare_batches k hash hasher (object_algorithm (map (\<lambda>e. length (ie_object_id e)) index @ map (\<lambda>t. length (te_object_id t)) head))
          root worktree u = (Inr dirty', v)"
    and ds: "ds = sorted_paths (untracked @ dirty @ dirty')"
    by (auto simp: collect_dirty_paths_def Let_def io_bind_Inr_iff from_result_def split: sum.splits)
  have "ie_path ` set worktree \<subseteq> ie_path ` set index" using classify_paths_sources(2) [OF c] by blast
  with returnsD [OF returns_batches b] have "set dirty' \<subseteq> ie_path ` set index" by (rule order_trans)
  with classify_paths_sources(1) [OF c]
  show "set ds \<subseteq> set untracked \<union> ie_path ` set index \<union> te_path ` set head \<and> sorted (map str_path ds) \<and> distinct ds"
    unfolding ds by (auto simp: sorted_paths_def)
qed

section \<open>Evidence from the file system\<close>

text \<open>
  Instruction files and Docker files have the expected names below \<open>root\<close>, and the languages are
  sorted, each with a positive count.
\<close>

definition evidence_below :: "path \<Rightarrow> path \<Rightarrow> instruction_file list \<Rightarrow> path list \<Rightarrow> (string \<times> int) list \<Rightarrow> bool" where
  "evidence_below root target instructions docker_files languages \<longleftrightarrow>
     (case relative_to target root of
        None \<Rightarrow> False
      | Some relative \<Rightarrow> list_all (\<lambda>i. inf_path i \<in> path_join root ` set (instruction_paths relative)) instructions)
     \<and> list_all (\<lambda>q. q \<in> (\<lambda>name. path_join root (path_of name)) ` set docker_names) docker_files
     \<and> sorted (map fst languages) \<and> distinct (map fst languages)
     \<and> list_all (\<lambda>(l, n). l \<in> snd ` set extension_languages \<and> 0 < n) languages"

lemma returns_read_leaf: "returns (read_leaf p root relative leaf) (\<lambda>i. inf_path i = path_join root relative)"
  unfolding read_leaf_def
  by (rule returns_bind_any, rule returns_bind_any, rule returns_bind_any)
    (auto split: option.splits intro: returns_return returns_raise)

lemma returns_instruction_steps:
  "returns (instruction_steps p root relative) (\<lambda>found. \<forall>i. found = Some i \<longrightarrow> inf_path i = path_join root relative)"
proof (rule returnsI)
  fix w a v assume m: "instruction_steps p root relative w = (Inr a, v)"
  show "\<forall>i. a = Some i \<longrightarrow> inf_path i = path_join root relative"
  proof (intro allI impI)
    fix i assume "a = Some i"
    with m obtain leaf u where "read_checked_leaf p root relative leaf u = (Inr i, v)"
      by (fastforce simp: instruction_steps_def io_bind_Inr_iff split: option.splits)
    then obtain u' where "read_leaf p root relative leaf u' = (Inr i, v)"
      by (auto simp: read_checked_leaf_def io_bind_Inr_iff split: if_splits)
    then show "inf_path i = path_join root relative" by (rule returnsD [OF returns_read_leaf])
  qed
qed

lemma returns_optional_instruction:
  "returns (read_optional_instruction p root relative) (\<lambda>found. \<forall>i. found = Some i \<longrightarrow> inf_path i = path_join root relative)"
  by (rule returnsI)
    (auto simp: read_optional_instruction_def after_cleanup_def split: prod.splits if_splits sum.splits option.splits
      dest: returnsD [OF returns_instruction_steps])

lemma returns_instructions:
  "returns (read_instructions p root relatives) (\<lambda>is. inf_path ` set is \<subseteq> path_join root ` set relatives)"
proof (induction relatives)
  case (Cons relative relatives)
  show ?case
  proof (rule returnsI)
    fix w a v assume "read_instructions p root (relative # relatives) w = (Inr a, v)"
    then obtain found u rest where steps: "read_optional_instruction p root relative w = (Inr found, u)"
        "read_instructions p root relatives u = (Inr rest, v)"
      and a: "a = (case found of None \<Rightarrow> rest | Some i \<Rightarrow> i # rest)"
      by (auto simp: io_bind_Inr_iff)
    from returnsD [OF returns_optional_instruction steps(1)] returnsD [OF Cons.IH steps(2)]
    show "inf_path ` set a \<subseteq> path_join root ` set (relative # relatives)"
      unfolding a by (cases found) auto
  qed
qed (simp add: returns_def)

lemma returns_files_among: "returns (files_among p qs) (\<lambda>found. set found \<subseteq> set qs)"
proof (induction qs)
  case (Cons q qs)
  show ?case
    unfolding files_among.simps
    by (rule returns_bind_any, rule returns_bind [OF Cons.IH]) (auto intro!: returns_return)
qed (simp add: returns_def)

lemma language_counts_ok:
  "sorted (map fst (language_counts files)) \<and> distinct (map fst (language_counts files))
   \<and> list_all (\<lambda>(l, n). l \<in> snd ` set extension_languages \<and> 0 < n) (language_counts files)"
proof -
  let ?languages = "List.map_filter language_of files"
  have fst: "map fst (language_counts files) = sort (remdups ?languages)"
    by (simp add: language_counts_def Let_def comp_def)
  have "l \<in> snd ` set extension_languages" if "l \<in> set ?languages" for l
    using that by (force simp: List.map_filter_def language_of_def dest: map_of_SomeD)
  moreover have "0 < count_list ?languages l" if "l \<in> set ?languages" for l
    using that by (metis count_list_0_iff gr0I)
  ultimately have "list_all (\<lambda>(l, n). l \<in> snd ` set extension_languages \<and> 0 < n) (language_counts files)"
    by (auto simp: language_counts_def Let_def list_all_iff)
  then show ?thesis unfolding fst by simp
qed

lemma returns_evidence:
  "returns (read_filesystem_evidence p root target)
     (\<lambda>ev. evidence_below root target (fe_instruction_files ev) (fe_docker_files ev) (fe_language_counts ev))"
proof (rule returnsI)
  fix w ev v assume m: "read_filesystem_evidence p root target w = (Inr ev, v)"
  then obtain relative where rel: "relative_to target root = Some relative"
    by (auto simp: read_filesystem_evidence_def split: option.splits)
  with m obtain instructions u docker_files u' files where
    steps: "read_instructions p root (instruction_paths relative) w = (Inr instructions, u)"
      "files_among p (map (\<lambda>name. path_join root (path_of name)) docker_names) u = (Inr docker_files, u')"
    and ev: "ev = \<lparr>fe_instruction_files = instructions, fe_language_counts = language_counts files, fe_docker_files = docker_files\<rparr>"
    by (auto simp: read_filesystem_evidence_def io_bind_Inr_iff)
  from returnsD [OF returns_instructions steps(1)] returnsD [OF returns_files_among steps(2)] language_counts_ok [of files]
  show "evidence_below root target (fe_instruction_files ev) (fe_docker_files ev) (fe_language_counts ev)"
    unfolding ev by (auto simp: evidence_below_def rel list_all_iff)
qed

section \<open>Contexts\<close>

lemma returns_survey:
  "returns (survey p target) (\<lambda>(candidate_root, git_metadata, ev).
     evidence_below candidate_root target (fe_instruction_files ev) (fe_docker_files ev) (fe_language_counts ev))"
  unfolding survey_def
  by (intro returns_repository_error returns_timed, rule returns_bind_any)
    (auto intro!: returns_bind [OF returns_fs_operation [OF returns_evidence]] returns_return)

definition git_evidence_ok :: "string option \<times> index_entry list \<times> tree_entry list \<times> path list \<Rightarrow> bool" where
  "git_evidence_ok x \<longleftrightarrow> (case x of (branch, index, head, untracked) \<Rightarrow>
     list_all index_entry_ok index \<and> list_all tree_entry_ok head \<and> list_all evidence_path untracked
     \<and> distinct (map te_path head))"

lemma from_result_Inr_iff: "from_result r w = (Inr a, v) \<longleftrightarrow> r = Inr a \<and> v = w"
  by (auto simp: from_result_def split: sum.splits)

lemma git_evidence_Inr:
  assumes "git_evidence p target prefix w = (Inr (branch, index, head, untracked), v)"
  obtains head_text index_text untracked_text where
    "parse_index_entries index_text = Inr index" and "parse_tree_entries head_text = Inr head"
    and "parse_nul_paths untracked_text ''untracked'' = Inr untracked"
  using assms unfolding git_evidence_def
  by (auto simp: io_bind_Inr_iff from_result_Inr_iff)

lemma returns_git_evidence: "returns (git_evidence p target prefix) git_evidence_ok"
proof (rule returnsI)
  fix w x v assume m: "git_evidence p target prefix w = (Inr x, v)"
  obtain branch index head untracked where x: "x = (branch, index, head, untracked)" by (cases x)
  from git_evidence_Inr [OF m [unfolded x]] show "git_evidence_ok x"
    unfolding x git_evidence_ok_def
    by (metis (no_types, lifting) parse_index_entries_Inr parse_nul_paths_Inr parse_tree_entries_Inr prod.case)
qed

lemma relative_to_parent:
  assumes "relative_to target root = Some relative"
  shows "root \<in> set (path_and_parents target)"
proof -
  have t: "take (length (path_parts root)) (path_parts target) = path_parts root" and r: "path_root root = path_root target"
    using assms by (auto simp: relative_to_def split: if_splits)
  have "length (path_parts root) = min (length (path_parts target)) (length (path_parts root))"
    using arg_cong [OF t, of length] by simp
  then have "length (path_parts root) \<le> length (path_parts target)" by simp
  moreover have "root = Path (path_root target) (take (length (path_parts root)) (path_parts target))"
    using t r by (cases root) simp
  ultimately show ?thesis unfolding path_and_parents_def by (auto simp del: upt_Suc)
qed

text \<open>
  The dirty paths are distinct relative paths without a step to a parent, in order; the files lie
  below one of the parents of the project; a project without Git has no branch and no dirty path.
\<close>

definition context_ok :: "repository_context \<Rightarrow> bool" where
  "context_ok rc \<longleftrightarrow>
     list_all evidence_path (rc_dirty_paths rc) \<and> sorted (map str_path (rc_dirty_paths rc)) \<and> distinct (rc_dirty_paths rc)
     \<and> list_ex (\<lambda>root. evidence_below root (rc_project_path rc) (rc_instruction_files rc) (rc_docker_files rc)
                         (rc_language_counts rc)) (path_and_parents (rc_project_path rc))
     \<and> (if rc_is_git_worktree rc then rc_command_errors rc = []
        else rc_branch rc = None \<and> rc_dirty_paths rc = [] \<and> length (rc_command_errors rc) = 3)"

lemma evidence_below_parent:
  assumes "evidence_below root target instructions docker_files languages"
  shows "list_ex (\<lambda>root. evidence_below root target instructions docker_files languages) (path_and_parents target)"
proof -
  from assms have "root \<in> set (path_and_parents target)"
    by (auto simp: evidence_below_def intro: relative_to_parent split: option.splits)
  with assms show ?thesis by (auto simp: list_ex_iff)
qed

lemma returns_worktree_evidence:
  "returns (worktree_evidence p target repository_root root_pin index_pin root index head untracked)
     (\<lambda>(ds, ev). set ds \<subseteq> set untracked \<union> ie_path ` set index \<union> te_path ` set head \<and> sorted (map str_path ds) \<and> distinct ds
        \<and> evidence_below repository_root target (fe_instruction_files ev) (fe_docker_files ev) (fe_language_counts ev))"
  unfolding worktree_evidence_def
  by (intro returns_repository_error returns_timed, rule returns_bind [OF returns_dirty_paths],
      rule returns_bind [OF returns_fs_operation [OF returns_evidence]], rule returns_bind_any, rule returns_bind_any)
    (auto intro: returns_return)

lemma returns_inspect_worktree: "returns (inspect_worktree p target repository_root prefix root_pin index_pin) context_ok"
proof (rule returnsI)
  fix w rc v assume "inspect_worktree p target repository_root prefix root_pin index_pin w = (Inr rc, v)"
  then obtain branch index head untracked u root ds ev where
    git: "git_evidence p target prefix w = (Inr (branch, index, head, untracked), u)"
    and tree: "worktree_evidence p target repository_root root_pin index_pin root index head untracked u = (Inr (ds, ev), v)"
    and rc: "rc = \<lparr>rc_project_path = target, rc_is_git_worktree = True, rc_branch = branch,
        rc_dirty_paths = ds, rc_instruction_files = fe_instruction_files ev,
        rc_language_counts = fe_language_counts ev, rc_docker_files = fe_docker_files ev, rc_command_errors = []\<rparr>"
    by (auto simp: inspect_worktree_def io_bind_Inr_iff split: option.splits)
  from returnsD [OF returns_git_evidence git] have "list_all evidence_path (untracked @ map ie_path index @ map te_path head)"
    by (auto simp: git_evidence_ok_def list_all_iff index_entry_ok_def tree_entry_ok_def)
  then have paths: "\<forall>q \<in> set untracked \<union> ie_path ` set index \<union> te_path ` set head. evidence_path q"
    by (auto simp: list_all_iff)
  from returnsD [OF returns_worktree_evidence tree] have
    ds: "set ds \<subseteq> set untracked \<union> ie_path ` set index \<union> te_path ` set head" "sorted (map str_path ds)" "distinct ds"
    and ev: "evidence_below repository_root target (fe_instruction_files ev) (fe_docker_files ev) (fe_language_counts ev)"
    by auto
  from ds(1) paths have "list_all evidence_path ds" by (auto simp: list_all_iff)
  with ds(2,3) evidence_below_parent [OF ev] show "context_ok rc" by (simp add: rc context_ok_def)
qed

lemma returns_with_pins: "returns m Q \<Longrightarrow> returns (with_pins p root_pin index_pin m) Q"
  by (rule returnsI) (auto simp: with_pins_def after_cleanup_def split: prod.splits sum.splits option.splits dest: returnsD)

lemma returns_inspect: "returns (inspect p q) context_ok"
proof -
  have "returns (inspect_git p target candidate_root) context_ok" for target candidate_root
    unfolding inspect_git_def split_def
    by (rule returns_bind_any, rule returns_bind_any, rule returns_with_pins, rule returns_inspect_worktree)
  moreover have "context_ok (non_git_context target ev)"
    if "evidence_below root target (fe_instruction_files ev) (fe_docker_files ev) (fe_language_counts ev)" for root target ev
    using evidence_below_parent [OF that] by (simp add: context_ok_def non_git_context_def)
  ultimately have "returns (case found of (candidate_root, git_metadata, evidence) \<Rightarrow>
       case git_metadata of None \<Rightarrow> io_return (non_git_context target evidence) | Some _ \<Rightarrow> inspect_git p target candidate_root) context_ok"
    if "case found of (candidate_root, git_metadata, ev) \<Rightarrow>
      evidence_below candidate_root target (fe_instruction_files ev) (fe_docker_files ev) (fe_language_counts ev)" for target found
    using that by (auto split: prod.splits option.splits intro: returns_return)
  then show ?thesis
    unfolding inspect_def
    by (intro returns_if returns_raise returns_bind_any [where m = "find_target p q"] returns_bind [OF returns_survey])
qed

text \<open>
  C19. Whatever the tree, the kernel and the Git process do, a context that the inspection returns
  is safe to use: its dirty paths are distinct, sorted, relative and never step to a parent; its
  instruction files and Docker files are the expected names below one directory that contains the
  project; languages are counted once each; and without a Git work tree it claims neither a branch
  nor a dirty path.
\<close>

theorem inspected_context_is_safe:
  assumes "inspect p q w = (Inr rc, v)"
  shows "context_ok rc"
  using returnsD [OF returns_inspect assms] .

end
