(* ===== verification/Inspection_Errors.thy ===== *)
theory Inspection_Errors
  imports Inspection_Evidence
begin

text \<open>
  Which exceptions leave \<open>LocalRepositoryInspector.inspect\<close>: every \<open>OSError\<close> of the operating
  system and every time limit is reported as a \<open>RepositoryError\<close>.
\<close>

section \<open>Errors\<close>

definition known_error :: "lock_exn \<Rightarrow> bool" where
  "known_error e \<longleftrightarrow> (case e of
       LockExn (RepositoryError _) \<Rightarrow> True | LockExn (PyCancelledError _) \<Rightarrow> True | LockExn (PyIndexError _) \<Rightarrow> True
     | _ \<Rightarrow> False)"

text \<open>Inside a \<open>try\<close> block also an \<open>OSError\<close>.\<close>

definition inner_error :: "lock_exn \<Rightarrow> bool" where
  "inner_error e \<longleftrightarrow> known_error e \<or> is_os_error e"

lemma known_error_simps [simp]:
  "known_error (LockExn (RepositoryError m))" "known_error (LockExn (PyCancelledError m))"
  "known_error (LockExn (PyIndexError m))"
  by (simp_all add: known_error_def)

lemma inner_error_known [simp]: "known_error e \<Longrightarrow> inner_error e"
  and inner_error_os [simp]: "is_os_error e \<Longrightarrow> inner_error e"
  by (simp_all add: inner_error_def)

lemma timeout_is_os_error [simp]: "is_os_error (LockExn (PyTimeoutError m))"
  by (simp add: is_os_error_def)

lemma changed_path_known [simp]: "known_error changed_path"
  by (simp add: changed_path_def)

lemma inner_caught: "inner_error e \<Longrightarrow> is_os_error e \<or> known_error e"
  by (auto simp: inner_error_def)

lemma raises_only_bind_returns:
  assumes "raises_only E m" and "returns m Q" and "\<And>a. Q a \<Longrightarrow> raises_only E (f a)"
  shows "raises_only E (io_bind m f)"
proof (rule raisesI)
  fix w e v assume b: "io_bind m f w = (Inl e, v)"
  obtain r u where r: "m w = (r, u)" by fastforce
  show "E e"
  proof (cases r)
    case (Inl e')
    with b r raisesD [OF assms(1)] show ?thesis by (auto simp: io_bind_def)
  next
    case (Inr a)
    with b r have "f a u = (Inl e, v)" by (simp add: io_bind_def)
    with r Inr show ?thesis using raisesD [OF assms(3)] returnsD [OF assms(2)] by blast
  qed
qed

lemma raises_only_operation: "raises_only E m \<Longrightarrow> (\<And>c. E (prepare_cancellation c)) \<Longrightarrow> raises_only E (run_filesystem_operation k m)"
  by (rule raisesI) (auto simp: run_filesystem_operation_def Let_def split: prod.splits if_splits dest: raisesD)

lemma cancellation_known [simp]: "known_error (prepare_cancellation c)"
  by (simp add: prepare_cancellation_def)

lemma raises_only_fs_operation:
  "raises_only known_error m \<Longrightarrow> raises_only known_error (fs_operation p m)"
  "raises_only inner_error m \<Longrightarrow> raises_only inner_error (fs_operation p m)"
  unfolding fs_operation_def by (rule raises_only_operation; simp)+

lemma raises_only_inner: "raises_only E m \<Longrightarrow> raises_only E (io_inner m)"
  by (rule raisesI) (auto simp: io_inner_def split: prod.splits dest: raisesD)

lemma raises_only_own [raises_only_intros]: "raises_only E (own_descriptor fd)" "raises_only E owned"
  by (auto simp: raises_only_def own_descriptor_def owned_def)

lemma raises_only_os: "raises_only is_os_error m \<Longrightarrow> raises_only inner_error m"
  by (erule raises_only_weaken) simp

lemma raises_only_known: "raises_only known_error m \<Longrightarrow> raises_only inner_error m"
  by (erule raises_only_weaken) simp

lemma raises_only_timed_inner: "raises_only inner_error m \<Longrightarrow> raises_only inner_error (timed p m)"
  by (rule raisesI) (auto simp: timed_def split: prod.splits sum.splits if_splits dest: raisesD)

text \<open>A handler for \<open>OSError\<close> leaves only known errors.\<close>

lemma raises_only_caught:
  assumes "raises_only inner_error m" and "\<And>e. is_os_error e \<Longrightarrow> caught e"
  shows "raises_only known_error (repository_error_for caught message m)"
  unfolding repository_error_for_def
  by (rule raises_only_map_error [OF assms(1)]) (use assms(2) inner_caught in auto)

text \<open>A time limit on a block without \<open>OSError\<close>, with a handler for \<open>TimeoutError\<close>.\<close>

lemma raises_only_limited:
  assumes "raises_only known_error m"
  shows "raises_only known_error (repository_error_for is_timeout message (timed p m))"
proof (rule raisesI)
  fix w e v assume "repository_error_for is_timeout message (timed p m) w = (Inl e, v)"
  then show "known_error e"
    using raisesD [OF assms]
    by (auto simp: repository_error_for_def io_map_error_def timed_def is_timeout_def split: prod.splits sum.splits if_splits)
qed

section \<open>The file system\<close>

lemma raises_only_type_or_unknown: "raises_only is_os_error m \<Longrightarrow> raises_only E (type_or_unknown m)"
  unfolding type_or_unknown_def
  by (rule raises_only_except [where F = is_os_error]) (auto intro: raises_only_intros)

lemma raises_only_types: "raises_only E (path_type p q)" "raises_only E (entry_type p fd name)"
  unfolding path_type_def entry_type_def by (intro raises_only_type_or_unknown raises_only_calls)+

lemma raises_only_unsafe:
  assumes "raises_only is_os_error m" and "\<And>E. raises_only E kind"
  shows "raises_only known_error (open_or_unsafe root relative kind m)"
  unfolding open_or_unsafe_def
  by (rule raises_only_except [OF assms(1)]) (auto intro!: raises_only_bind assms(2) raises_only_raise simp: unsafe_instruction_error_def)

lemma raises_only_directories: "raises_only known_error (open_directories p root relative current parts)"
proof (induction parts arbitrary: current)
  case (Cons part parts)
  show ?case
    unfolding open_directories.simps
    by (intro raises_only_bind raises_only_inner raises_only_unsafe raises_only_calls raises_only_types raises_only_own Cons.IH)
qed (simp add: raises_only_def)

lemma raises_only_read_leaf: "raises_only known_error (read_leaf p root relative leaf)"
  unfolding read_leaf_def
  by (intro raises_only_bind raises_only_inner raises_only_own raises_only_caught raises_only_os raises_only_calls)
    (auto split: option.splits intro!: raises_only_intros)

lemma raises_only_checked_leaf: "raises_only known_error (read_checked_leaf p root relative leaf)"
  unfolding read_checked_leaf_def
  by (intro raises_only_bind raises_only_inner raises_only_unsafe raises_only_calls raises_only_return raises_only_if raises_only_raise raises_only_read_leaf)
    (simp add: unsafe_instruction_error_def)

lemma raises_only_leaf_if_present: "raises_only known_error (open_leaf_if_present p root relative current name)"
  unfolding open_leaf_if_present_def
proof (rule raises_only_except [where F = is_os_error])
  show "raises_only is_os_error (io_bind (fd_open_at (ik_kernel p) current name leaf_flags) (\<lambda>fd. io_return (Some fd)))"
    by (intro raises_only_intros)
  fix e assume "is_os_error e"
  then show "raises_only known_error (if is_missing e then io_return None
      else open_or_unsafe root relative (entry_type p current name) (io_raise e))"
    by (intro raises_only_if raises_only_return raises_only_unsafe raises_only_raise raises_only_types)
qed

lemma raises_only_instruction_steps: "raises_only known_error (instruction_steps p root relative)"
  unfolding instruction_steps_def
  by (intro raises_only_bind raises_only_inner raises_only_unsafe raises_only_calls raises_only_types raises_only_own raises_only_directories raises_only_leaf_if_present)
    (auto split: option.splits intro!: raises_only_bind raises_only_own raises_only_checked_leaf raises_only_return)

lemma raises_only_read_optional_instruction: "raises_only known_error (read_optional_instruction p root relative)"
  by (rule raisesI)
    (auto simp: read_optional_instruction_def after_cleanup_def split: if_splits prod.splits sum.splits option.splits
      dest: raisesD [OF raises_only_instruction_steps])

lemma raises_only_evidence:
  assumes "relative_to target root \<noteq> None"
  shows "raises_only known_error (read_filesystem_evidence p root target)"
proof -
  have "raises_only known_error (read_instructions p root relatives)" for relatives
  proof (induction relatives)
    case (Cons relative relatives)
    show ?case unfolding read_instructions.simps
      by (intro raises_only_bind raises_only_read_optional_instruction raises_only_return Cons.IH)
  qed (simp add: raises_only_def)
  moreover have "raises_only known_error (files_among p qs)" for qs
  proof (induction qs)
    case (Cons q qs)
    show ?case unfolding files_among.simps path_is_file_def
      by (intro raises_only_bind raises_only_now raises_only_return Cons.IH)
  qed (simp add: raises_only_def)
  ultimately show ?thesis
    using assms unfolding read_filesystem_evidence_def
    by (auto split: option.splits intro!: raises_only_bind raises_only_now raises_only_return)
qed

section \<open>The work tree\<close>

lemma raises_only_nonmatching: "raises_only E (nonmatching parent name guards fp)"
  unfolding nonmatching_def by (intro raises_only_intros)

lemma raises_only_inner_os: "raises_only is_os_error m \<Longrightarrow> raises_only inner_error (io_inner m)"
  by (intro raises_only_inner raises_only_os)

lemma raises_only_descend: "raises_only inner_error (descend k current guards parts)"
proof (induction parts arbitrary: current guards)
  case (Cons part parts)
  have "raises_only inner_error (case found of
      None \<Rightarrow> io_bind (nonmatching current part guards None) (\<lambda>o'. io_return (Inl o'))
    | Some before \<Rightarrow>
        if mode_type (sr_mode before) = ''symlink'' \<or> mode_type (sr_mode before) \<notin> {''directory'', ''regular''}
        then io_raise (LockExn (RepositoryError ''Unsafe tracked worktree path boundary''))
        else if mode_type (sr_mode before) = ''regular''
        then io_bind (nonmatching current part guards (Some (file_fingerprint_of before))) (\<lambda>o'. io_return (Inl o'))
        else
          io_bind (io_inner (fd_open_at k current part directory_flags_at)) (\<lambda>child.
          io_bind (own_descriptor child) (\<lambda>_.
          io_bind (io_inner (fd_fstat k child)) (\<lambda>v.
            if file_fingerprint_of v \<noteq> file_fingerprint_of before then io_raise changed_path
            else descend k child
                   (guards @ [\<lparr>dg_parent_descriptor = current, dg_name = part, dg_descriptor = child,
                               dg_fingerprint = file_fingerprint_of v\<rparr>]) parts))))" for found
  proof (cases found)
    case None
    show ?thesis unfolding None option.case by (intro raises_only_bind raises_only_nonmatching raises_only_return)
  next
    case (Some before)
    show ?thesis unfolding Some option.case
      by (intro raises_only_if raises_only_bind raises_only_nonmatching raises_only_return raises_only_raise raises_only_inner_os raises_only_calls raises_only_own Cons.IH)
        simp_all
  qed
  then show ?case
    unfolding descend.simps by (rule raises_only_bind [OF raises_only_inner_os [OF raises_only_stat_if_present]])
qed (simp add: raises_only_def)

lemma raises_only_open_leaf: "raises_only inner_error (open_leaf k current leaf_name guards expected_mode)"
proof -
  have "raises_only inner_error (open_symlink k current leaf_name guards fp)"
    and "raises_only inner_error (open_regular k current leaf_name guards fp)" for fp
    unfolding open_symlink_def open_regular_def
    by (intro raises_only_if raises_only_bind raises_only_return raises_only_raise raises_only_inner_os raises_only_calls raises_only_own; simp)+
  then show ?thesis
    unfolding open_leaf_def
    by (intro raises_only_bind [OF raises_only_inner_os [OF raises_only_stat_if_present]])
      (auto split: option.splits simp: Let_def intro!: raises_only_if raises_only_raise raises_only_nonmatching)
qed

lemma raises_only_open_worktree_entry: "raises_only inner_error (open_worktree_entry k root q mode)"
proof -
  have parts: "raises_only inner_error (open_parts k copy parts mode)" for copy parts
    unfolding open_parts_def
    by (rule raises_only_bind [OF raises_only_descend]) (auto split: sum.splits intro!: raises_only_return raises_only_raise raises_only_open_leaf)
  have "raises_only inner_error (\<lambda>w. case open_parts k copy (path_parts q) mode ([copy], w) of
         (Inl e, (fds, v)) \<Rightarrow> (Inl e, snd (close_fds k fds v))
       | (Inr o', (fds, v)) \<Rightarrow> (Inr o', v))" for copy
    by (rule raisesI) (auto split: prod.splits sum.splits dest: raisesD [OF parts])
  then show ?thesis
    unfolding open_worktree_entry_def by (rule raises_only_bind [OF raises_only_os [OF raises_only_calls(3)]])
qed

lemma raises_only_validate: "raises_only inner_error (validate_opened_worktree_entry k opened)"
proof -
  have "raises_only is_os_error (validate_guards k gs)" for gs
  proof (induction gs)
    case (Cons g gs)
    show ?case unfolding validate_guards.simps
      by (intro raises_only_bind raises_only_calls raises_only_if raises_only_raise Cons.IH) simp_all
  qed (simp add: raises_only_def)
  moreover have "raises_only is_os_error (validate_descriptor k opened)"
    unfolding validate_descriptor_def
    by (auto split: option.splits intro!: raises_only_bind raises_only_calls raises_only_return raises_only_raise)
  moreover have "raises_only is_os_error (validate_leaf k opened)"
    unfolding validate_leaf_def
    by (rule raises_only_bind [OF raises_only_stat_if_present]) (auto split: option.splits intro!: raises_only_return raises_only_raise)
  ultimately show ?thesis
    unfolding validate_opened_worktree_entry_def by (intro raises_only_os raises_only_bind)
qed

lemma raises_only_work: "raises_only inner_error m \<Longrightarrow> raises_only inner_error (run_filesystem_operation k m)"
  by (rule raises_only_operation) simp_all

lemma raises_only_open_entries: "raises_only inner_error (open_entries k root es)"
proof (induction es)
  case (Cons e es)
  have "raises_only inner_error (\<lambda>(os, w). (Inr (), (os @ [(e, opened)], w)))" for opened
    by (auto simp: raises_only_def)
  then show ?case
    unfolding open_entries.simps
    by (intro raises_only_bind raises_only_inner raises_only_work raises_only_open_worktree_entry Cons.IH)
qed (simp add: raises_only_def)

lemma raises_only_from_result: "(\<And>e. r = Inl e \<Longrightarrow> E (LockExn e)) \<Longrightarrow> raises_only E (from_result r)"
  by (rule raisesI) (auto simp: from_result_def split: sum.splits)

lemma raises_only_check_entries: "raises_only inner_error (check_entries k hash algorithm os)"
proof (induction os)
  case (Cons x os)
  obtain e opened where x: "x = (e, opened)" by fastforce
  have "raises_only inner_error (check_opened k hash algorithm e opened)"
    unfolding check_opened_def
    by (cases "ow_symlink_content opened")
      (auto intro!: raises_only_bind raises_only_work raises_only_validate raises_only_return raises_only_raise raises_only_from_result
        simp: hash_git_blob_def split: if_splits)
  then show ?case
    unfolding x check_entries.simps by (auto intro!: raises_only_bind Cons.IH raises_only_return)
qed (simp add: raises_only_def)

lemma raises_only_compare_digests: "raises_only inner_error (compare_digests k os ds)"
proof (induction os arbitrary: ds)
  case (Cons x os)
  obtain e opened where x: "x = (e, opened)" by fastforce
  show ?case
    unfolding x compare_digests.simps by (intro raises_only_bind raises_only_work raises_only_validate raises_only_return Cons.IH)
qed (simp add: raises_only_def)

lemma raises_only_check_batch:
  assumes "\<And>requests algorithm. raises_only inner_error (hasher requests algorithm)"
  shows "raises_only inner_error (check_batch k hash hasher algorithm os)"
  unfolding check_batch_def
  by (auto intro!: raises_only_bind raises_only_check_entries raises_only_if raises_only_return raises_only_raise raises_only_compare_digests assms)

lemma raises_only_batch:
  assumes "\<And>requests algorithm. raises_only inner_error (hasher requests algorithm)"
  shows "raises_only inner_error (compare_worktree_batch k hash hasher algorithm root es)"
proof (rule raisesI)
  fix w e v assume m: "compare_worktree_batch k hash hasher algorithm root es w = (Inl e, v)"
  obtain started os w1 where o': "open_entries k root es ([], w) = (started, (os, w1))" by (metis prod.exhaust)
  obtain r w2 where c: "(case started of Inl e \<Rightarrow> (Inl e, w1) | Inr _ \<Rightarrow> check_batch k hash hasher algorithm os w1) = (r, w2)"
    by fastforce
  obtain ce w3 where f: "close_opened k (rev os) w2 = (ce, w3)" by fastforce
  have "inner_error x" if "r = Inl x" for x
    using c that o' by (cases started) (auto dest: raisesD [OF raises_only_open_entries] raisesD [OF raises_only_check_batch [OF assms]])
  then show "inner_error e"
    using m o' c f by (auto simp: compare_worktree_batch_def split: sum.splits option.splits)
qed

lemma raises_only_batches:
  assumes "\<And>requests algorithm. raises_only inner_error (hasher requests algorithm)"
  shows "raises_only inner_error (compare_batches k hash hasher algorithm root es)"
proof (induction "length es" arbitrary: es rule: less_induct)
  case less
  show ?case
  proof (cases "es = []")
    case True
    then show ?thesis by (subst compare_batches.simps) (simp add: raises_only_def)
  next
    case False
    then have "raises_only inner_error (compare_batches k hash hasher algorithm root (drop blob_hash_batch_max es))"
      by (intro less) (simp add: blob_hash_batch_max_def)
    with False show ?thesis
      by (subst compare_batches.simps) (auto intro!: raises_only_bind raises_only_batch raises_only_return assms)
  qed
qed

lemma classify_path_Inl: "classify_path index head q = Inl e \<Longrightarrow> repository_error e"
  by (auto simp: classify_path_def Let_def split: if_splits list.splits)

lemma repository_error_known: "repository_error e \<Longrightarrow> known_error (LockExn e)"
  by (auto simp: repository_error_def)

lemma raises_only_dirty_paths:
  assumes "\<And>requests algorithm. raises_only inner_error (hasher requests algorithm)"
  shows "raises_only inner_error (collect_dirty_paths k hash hasher root index head untracked)"
proof -
  have classify: "raises_only inner_error (from_result (classify_paths index head))"
  proof (rule raises_only_from_result)
    fix e assume "classify_paths index head = Inl e"
    then have "repository_error e"
      by (auto simp: classify_paths_def Let_def rbind_eq_Inl_iff dest!: rmap_Inl classify_path_Inl)
    then show "inner_error (LockExn e)" by (simp add: repository_error_known)
  qed
  have format: "raises_only inner_error (from_result (require_consistent_object_format ls))" for ls
    by (rule raises_only_from_result) (auto dest!: consistent_format_Inl repository_error_known)
  show ?thesis
    unfolding collect_dirty_paths_def Let_def split_def
    by (intro raises_only_bind classify format raises_only_batches raises_only_return assms)
qed

lemma capture_failure_known: "known_error (LockExn mapped) \<Longrightarrow> known_error (LockExn (capture_failure mapped e cancellations))"
  by (auto simp: capture_failure_def split: capture_error.splits)

lemma raises_only_hash_descriptors: "raises_only known_error (hash_descriptors run requests algorithm)"
proof (rule raisesI)
  fix w e v assume m: "hash_descriptors run requests algorithm w = (Inl e, v)"
  have "known_error (LockExn x)" if "hash_outcome algorithm requested s = Inl x" for requested s x
    using that by (auto simp: hash_outcome_def helper_digests_def Let_def capture_failure_known
        split: spawned.splits sum.splits if_splits)
  with m show "known_error e"
    by (auto simp: hash_descriptors_def split: if_splits prod.splits sum.splits)
qed

section \<open>Git\<close>

lemma run_git_known: "run_git p argv cwd w = (Inl e, v) \<Longrightarrow> known_error (LockExn e)"
  by (auto simp: run_git_def run_read_only_def map_git_capture_error_def capture_failure_known
      split: spawned.splits sum.splits capture_error.splits)

lemma raises_only_run_git: "raises_only known_error (lift_git (run_git p argv cwd))"
  by (rule raisesI) (auto simp: lift_git_def split: prod.splits sum.splits dest: run_git_known)

text \<open>What a task of the group keeps for its \<open>result()\<close>.\<close>

lemma git_task_known: "returns (git_task p argv cwd) (\<lambda>t. \<forall>e. t = Inl e \<longrightarrow> known_error (LockExn e))"
proof (rule returnsI)
  fix w t v assume m: "git_task p argv cwd w = (Inr t, v)"
  obtain r u where r: "run_git p argv cwd w = (r, u)" by fastforce
  show "\<forall>e. t = Inl e \<longrightarrow> known_error (LockExn e)"
  proof (cases r)
    case (Inl x)
    with r have "known_error (LockExn x)" by (auto dest: run_git_known)
    with m r Inl show ?thesis by (cases x) (auto simp: git_task_def capture_git_command_def)
  qed (use m r in \<open>auto simp: git_task_def capture_git_command_def\<close>)
qed

lemma raises_only_git_tasks: "raises_only known_error (git_tasks p prefix cwd)"
proof -
  have "raises_only known_error (git_task p argv cwd)" for argv
    by (auto simp: raises_only_def git_task_def split: prod.splits)
  moreover have "raises_only known_error (git_group p)"
    unfolding git_group_def
    by (rule raises_only_bind [OF raises_only_now]) (auto split: option.splits intro!: raises_only_return raises_only_raise)
  ultimately show ?thesis
    unfolding git_tasks_def by (intro raises_only_bind raises_only_return)
qed

lemma returns_git_tasks:
  "returns (git_tasks p prefix cwd) (\<lambda>(b, i, h, u). \<forall>t \<in> {b, i, h, u}. \<forall>e. t = Inl e \<longrightarrow> known_error (LockExn e))"
  unfolding git_tasks_def
  by (intro returns_bind [OF git_task_known] returns_bind_any [where m = "git_group p"] returns_return) simp

lemma require_git_command_known: "require_git_command label r = Inl e \<Longrightarrow> known_error (LockExn e)"
  by (cases r) (auto simp: require_git_command_def split: if_splits)

lemma raises_only_required:
  assumes "\<forall>e. t = Inl e \<longrightarrow> known_error (LockExn e)"
  shows "raises_only known_error (from_result (rbind t (require_git_command label)))"
  by (rule raises_only_from_result) (use assms require_git_command_known in \<open>auto simp: rbind_eq_Inl_iff\<close>)

lemma raises_only_parsed:
  "raises_only known_error (from_result (parse_branch s))" "raises_only known_error (from_result (parse_index_entries s))"
  "raises_only known_error (from_result (parse_tree_entries s))" "raises_only known_error (from_result (parse_nul_paths s label))"
  by (rule raises_only_from_result, rule repository_error_known, erule parse_errors)+

lemma resolve_head_known:
  assumes "\<And>arguments w x v. run arguments w = (Inl x, v) \<Longrightarrow> known_error (LockExn x) \<or> (\<exists>m. x = PyTimeoutError m)"
    and "resolve_head_tree outcome branch run w = (Inl x, v)"
  shows "known_error (LockExn x)"
proof -
  define g where "g = (\<lambda>e. case e of
      PyTimeoutError _ \<Rightarrow> RepositoryError ''Git unborn-HEAD inspection timed out''
    | RepositoryError _ \<Rightarrow> RepositoryError ''Git unborn-HEAD inspection failed''
    | _ \<Rightarrow> e)"
  have g: "known_error (LockExn (g y))" if "known_error (LockExn y) \<or> (\<exists>m. y = PyTimeoutError m)" for y
    using that by (cases y) (auto simp: g_def known_error_def)
  have mapped: "known_error (LockExn y)" if m: "io_map_error g (run arguments) w = (Inl y, u)" for arguments y u
  proof -
    from m obtain z where z: "run arguments w = (Inl z, u)" and y: "y = g z"
      by (auto simp: io_map_error_def split: prod.splits sum.splits)
    show ?thesis unfolding y by (rule g, rule assms(1) [OF z])
  qed
  have bound: "known_error (LockExn y)"
    if b: "io_bind (io_map_error g (run arguments)) (\<lambda>ref. if P ref then io_return [] else io_raise (head_failed out)) w = (Inl y, u)"
    for arguments P out y u
    using b mapped [of arguments]
    by (cases "io_map_error g (run arguments) w"; cases "fst (io_map_error g (run arguments) w)")
      (auto simp: io_bind_def head_failed_def split: if_splits)
  show ?thesis
    using assms(2) unfolding resolve_head_tree_def g_def [symmetric]
    by (cases outcome; cases branch) (auto simp: head_failed_def split: if_splits intro: bound)
qed

lemma raises_only_head:
  "raises_only known_error (lift_git (resolve_head_tree outcome branch (\<lambda>arguments. as_exn (timed p (lift_git (run_git p (prefix @ arguments) cwd))))))"
proof (rule raisesI)
  let ?run = "\<lambda>arguments. as_exn (timed p (lift_git (run_git p (prefix @ arguments) cwd)))"
  fix w e v assume m: "lift_git (resolve_head_tree outcome branch ?run) w = (Inl e, v)"
  have run: "known_error (LockExn x) \<or> (\<exists>m. x = PyTimeoutError m)" if r: "?run arguments w' = (Inl x, v')" for arguments w' x v'
  proof -
    from r obtain e' where t: "timed p (lift_git (run_git p (prefix @ arguments) cwd)) w' = (Inl e', v')"
      and x: "x = (case e' of LockExn x \<Rightarrow> x | LockOs x \<Rightarrow> PyOSError (oe_text x))"
      by (auto simp: as_exn_def split: prod.splits sum.splits)
    from t obtain e0 where "lift_git (run_git p (prefix @ arguments) cwd) w' = (Inl e0, v')"
      and e': "e' = (if is_cancellation e0 \<and> ik_expired p (to_time v') then LockExn (PyTimeoutError []) else e0)"
      by (auto simp: timed_def split: prod.splits sum.splits)
    with raisesD [OF raises_only_run_git] have "known_error e0" by blast
    then show ?thesis unfolding x e' by (cases e0) (auto simp: known_error_def)
  qed
  from m obtain x where e: "e = LockExn x" and x: "resolve_head_tree outcome branch ?run w = (Inl x, v)"
    by (auto simp: lift_git_def split: prod.splits sum.splits)
  show "known_error e" unfolding e by (rule resolve_head_known [OF run x])
qed

lemma raises_only_git_evidence: "raises_only known_error (git_evidence p target prefix)"
  unfolding git_evidence_def
proof (rule raises_only_bind_returns [OF raises_only_limited [OF raises_only_git_tasks]
      returns_repository_error [OF returns_timed [OF returns_git_tasks]]])
  fix x :: "command_result result result \<times> command_result result result \<times> command_result result result \<times> command_result result result"
  obtain b i h u where x: "x = (b, i, h, u)" by (cases x)
  assume "case x of (b, i, h, u) \<Rightarrow> \<forall>t \<in> {b, i, h, u}. \<forall>e. t = Inl e \<longrightarrow> known_error (LockExn e)"
  then have known: "\<forall>e. b = Inl e \<longrightarrow> known_error (LockExn e)" "\<forall>e. i = Inl e \<longrightarrow> known_error (LockExn e)"
    "\<forall>e. h = Inl e \<longrightarrow> known_error (LockExn e)" "\<forall>e. u = Inl e \<longrightarrow> known_error (LockExn e)"
    unfolding x by blast+
  from known(3) have "raises_only known_error (from_result h)" by (intro raises_only_from_result) simp
  then show "raises_only known_error (case x of (branch_task, index_task, head_task, untracked_task) \<Rightarrow>
     io_bind (from_result (rbind branch_task (require_git_command ''branch''))) (\<lambda>branch_result.
     io_bind (from_result (rbind index_task (require_git_command ''index''))) (\<lambda>index_result.
     io_bind (from_result (rbind untracked_task (require_git_command ''untracked''))) (\<lambda>untracked_result.
     io_bind (from_result (parse_branch (cr_stdout branch_result))) (\<lambda>branch.
     io_bind (from_result head_task) (\<lambda>head_outcome.
     io_bind (lift_git (resolve_head_tree head_outcome branch
                (\<lambda>arguments. as_exn (timed p (lift_git (run_git p (prefix @ arguments) target)))))) (\<lambda>head_stdout.
     io_bind (from_result (parse_index_entries (cr_stdout index_result))) (\<lambda>index.
     io_bind (from_result (parse_tree_entries head_stdout)) (\<lambda>head.
     io_bind (from_result (parse_nul_paths (cr_stdout untracked_result) ''untracked'')) (\<lambda>untracked.
       io_return (branch, index, head, untracked)))))))))))"
    unfolding x prod.case
    by (intro raises_only_bind raises_only_required known raises_only_parsed raises_only_head raises_only_return)
qed

section \<open>The inspection\<close>

lemma raises_only_find_target:
  assumes "\<And>t q e. ik_resolve p t q = Inl e \<Longrightarrow> is_os_error e"
  shows "raises_only known_error (find_target p q)"
proof -
  have "raises_only is_os_error (path_resolve p q)" for q
    unfolding path_resolve_def
    by (rule raises_only_bind [OF raises_only_look]) (auto simp: raises_only_def dest: assms)
  then have "raises_only is_os_error (resolve_directory p q)"
    unfolding resolve_directory_def path_is_dir_def
    by (intro raises_only_bind raises_only_now raises_only_return raises_only_if raises_only_raise) simp_all
  then show ?thesis
    unfolding find_target_def
    by (intro raises_only_caught raises_only_timed_inner raises_only_fs_operation raises_only_os)
qed

lemma raises_only_discover: "raises_only known_error (discover_repository_candidate p target)"
proof -
  have "raises_only known_error (discover_candidates p target candidates)" for candidates
  proof (induction candidates)
    case (Cons candidate candidates)
    have lstat: "raises_only known_error (io_except (io_bind (path_lstat p metadata) (\<lambda>v. io_return (Some (mode_type (sr_mode v)))))
        (\<lambda>e. if is_missing e then io_return None
             else if is_os_error e then io_raise (LockExn (RepositoryError m)) else io_raise e))" for metadata m
      by (rule raises_only_except [where F = is_os_error]) (auto intro!: raises_only_bind raises_only_calls raises_only_return raises_only_raise)
    show ?case
      unfolding discover_candidates.simps Let_def
      by (rule raises_only_bind [OF lstat]) (auto split: option.splits intro!: raises_only_return raises_only_raise Cons.IH)
  qed (simp add: raises_only_def)
  then show ?thesis unfolding discover_repository_candidate_def .
qed

lemma relative_to_some_parent: "root \<in> set (path_and_parents target) \<Longrightarrow> relative_to target root \<noteq> None"
  by (auto simp: path_and_parents_def relative_to_def simp del: upt_Suc)

lemma returns_discover:
  "returns (discover_repository_candidate p target) (\<lambda>(candidate_root, _). relative_to target candidate_root \<noteq> None)"
proof -
  have "returns (discover_candidates p target candidates) (\<lambda>(candidate_root, _). relative_to target candidate_root \<noteq> None)"
    if "set candidates \<subseteq> set (path_and_parents target)" for candidates
    using that
  proof (induction candidates)
    case (Cons candidate candidates)
    from Cons.prems have "relative_to target candidate \<noteq> None" by (intro relative_to_some_parent) simp
    with Cons show ?case
      unfolding discover_candidates.simps Let_def
      by (intro returns_bind_any) (auto split: option.splits intro!: returns_return returns_raise)
  next
    case Nil
    have "relative_to target target \<noteq> None" by (simp add: relative_to_def)
    then show ?case unfolding discover_candidates.simps by (intro returns_return) simp
  qed
  then show ?thesis unfolding discover_repository_candidate_def by simp
qed

lemma raises_only_survey: "raises_only known_error (survey p target)"
  unfolding survey_def
proof (rule raises_only_limited, rule raises_only_bind_returns [OF raises_only_fs_operation(1) [OF raises_only_discover] returns_fs_operation [OF returns_discover]])
  fix x :: "path \<times> path option"
  assume "case x of (candidate_root, _) \<Rightarrow> relative_to target candidate_root \<noteq> None"
  then show "raises_only known_error (case x of (candidate_root, git_metadata) \<Rightarrow>
      io_bind (fs_operation p (read_filesystem_evidence p candidate_root target))
        (\<lambda>evidence. io_return (candidate_root, git_metadata, evidence)))"
    by (auto split: prod.splits intro!: raises_only_bind raises_only_fs_operation raises_only_evidence raises_only_return)
qed

lemma raises_only_discover_git:
  assumes "\<And>t q e. ik_resolve p t q = Inl e \<Longrightarrow> is_os_error e"
  shows "raises_only known_error (discover_git p target candidate_root)"
proof -
  have resolve: "raises_only is_os_error (path_resolve p q)" for q
    unfolding path_resolve_def
    by (rule raises_only_bind [OF raises_only_look]) (auto simp: raises_only_def dest: assms)
  have "raises_only is_os_error (resolve_git_discovery p stdout candidate_root target)" for stdout
    unfolding resolve_git_discovery_def path_is_dir_def
    by (auto split: list.splits intro!: raises_only_if raises_only_bind resolve raises_only_now raises_only_return raises_only_raise)
  then show ?thesis
    unfolding discover_git_def
    by (intro raises_only_bind raises_only_limited raises_only_run_git raises_only_if raises_only_raise raises_only_caught raises_only_fs_operation raises_only_os) simp_all
qed

lemma returns_discover_git:
  "returns (discover_git p target candidate_root) (\<lambda>(root, _). root = candidate_root \<and> relative_to target root \<noteq> None)"
proof -
  have "returns (resolve_git_discovery p stdout candidate_root target) (\<lambda>(root, _). root = candidate_root \<and> relative_to target root \<noteq> None)" for stdout
    by (rule returnsI) (auto simp: resolve_git_discovery_def io_bind_Inr_iff split: list.splits if_splits)
  then show ?thesis
    unfolding discover_git_def
    by (intro returns_bind_any returns_if returns_raise returns_repository_error returns_fs_operation)
qed

lemma raises_only_pin_evidence: "raises_only known_error (pin_evidence p target root git)"
proof -
  let ?pins = "timed p (io_bind (fs_operation p (pin_required_directory p root)) (\<lambda>root_pin.
      io_bind (fs_operation p (pin_optional_regular_file p (path_join git (path_of ''index'')))) (\<lambda>index_pin.
        io_return (root_pin, index_pin))))"
  have "raises_only inner_error ?pins"
    by (intro raises_only_timed_inner raises_only_bind raises_only_fs_operation raises_only_os raises_only_pins raises_only_return)
  then show ?thesis
    unfolding pin_evidence_def
    by (rule raises_only_map_error) (use inner_caught in \<open>auto simp: cannot_pin_def\<close>)
qed

lemma raises_only_validate_pinned_path: "raises_only is_os_error (validate_pinned_path p pin)"
proof -
  have "raises_only is_os_error (io_except (io_bind (path_lstat p q) (\<lambda>_. io_return True)) (\<lambda>e. if is_missing e then io_return False else io_raise e))" for q
    by (rule raises_only_except [where F = is_os_error]) (auto intro!: raises_only_bind raises_only_calls raises_only_return raises_only_raise)
  then show ?thesis
    unfolding validate_pinned_path_def
    by (auto split: option.splits intro!: raises_only_bind raises_only_calls raises_only_return raises_only_raise)
qed

lemma raises_only_worktree_evidence:
  assumes "\<And>requests algorithm. raises_only inner_error (ik_hasher p requests algorithm)" and "relative_to target root_path \<noteq> None"
  shows "raises_only known_error (worktree_evidence p target root_path root_pin index_pin root index head untracked)"
  unfolding worktree_evidence_def
  by (intro raises_only_caught raises_only_timed_inner raises_only_bind raises_only_dirty_paths raises_only_fs_operation(2) raises_only_return
      raises_only_known [OF raises_only_evidence] raises_only_os [OF raises_only_validate_pinned_path] assms)

lemma raises_only_with_pins: "raises_only known_error m \<Longrightarrow> raises_only known_error (with_pins p root_pin index_pin m)"
  by (rule raisesI) (auto simp: with_pins_def after_cleanup_def split: prod.splits sum.splits option.splits dest: raisesD)

lemma raises_only_inspect:
  assumes "\<And>t q e. ik_resolve p t q = Inl e \<Longrightarrow> is_os_error e"
    and "\<And>requests algorithm. raises_only inner_error (ik_hasher p requests algorithm)"
  shows "raises_only known_error (inspect p q)"
proof -
  have "raises_only known_error (inspect_worktree p target root prefix root_pin index_pin)"
    if "relative_to target root \<noteq> None" for target root prefix root_pin index_pin
    unfolding inspect_worktree_def
    by (rule raises_only_bind [OF raises_only_git_evidence])
      (auto split: option.splits intro!: raises_only_bind raises_only_raise raises_only_return raises_only_worktree_evidence assms that)
  then have "raises_only known_error (inspect_git p target candidate_root)" for target candidate_root
    unfolding inspect_git_def
    by (intro raises_only_bind_returns [OF raises_only_discover_git [OF assms(1)] returns_discover_git])
      (auto split: prod.splits intro!: raises_only_bind raises_only_pin_evidence raises_only_with_pins)
  then show ?thesis
    unfolding inspect_def
    by (auto split: prod.splits option.splits
        intro!: raises_only_if raises_only_raise raises_only_return raises_only_bind raises_only_find_target raises_only_survey assms(1))
qed

text \<open>
  C34. An inspection reports every fault as a \<open>RepositoryError\<close>: whichever system call or Git command
  fails, whatever Git prints and whichever time limit passes, what is raised is a
  \<open>RepositoryError\<close>, the cancellation of the task, or the \<open>IndexError\<close> of an index entry whose
  path has no part. Resolving a path fails only with an \<open>OSError\<close>.
\<close>

theorem inspection_errors_are_known:
  assumes "\<forall>t q e. ik_resolve p t q = Inl e \<longrightarrow> is_os_error e"
    and "ik_hasher p = hash_descriptors run"
    and "inspect p q w = (Inl e, v)"
  shows "known_error e"
proof -
  have "raises_only known_error (inspect p q)"
    by (rule raises_only_inspect) (use assms(1) in \<open>auto simp: assms(2) raises_only_known [OF raises_only_hash_descriptors]\<close>)
  then show ?thesis using assms(3) by (rule raisesD)
qed

end
