(* ===== verification/Inspection_Exactness.thy ===== *)
theory Inspection_Exactness
  imports Inspection_Errors
begin

text \<open>
  The inspection from end to end over a work tree that holds still: when it returns a context, the
  dirty paths are exactly those of the specification \<open>dirty_path\<close>, applied to what Git printed
  and to the directory that was pinned. The last section runs it on a concrete repository.
\<close>

section \<open>What a comparison that returns says of the tree\<close>

declare still_undisturbed [simp]

text \<open>A path on which nothing was refused is one that \<open>boundary_ok\<close> allows.\<close>

lemma descend_boundary:
  assumes "map_of (to_fds w) current = Some d" and "inode_type (t d) = ''directory''"
    and "descend (still t) current guards parts (fds, w) = (Inr r, (fds', v))"
  shows "case r of
      Inl _ \<Rightarrow> \<forall>leaf. boundary_ok t d (parts @ [leaf])
    | Inr (current', guards') \<Rightarrow> \<exists>d'. map_of (to_fds v) current' = Some d' \<and> inode_type (t d') = ''directory''
        \<and> (\<forall>leaf. boundary_ok t d' [leaf] \<longrightarrow> boundary_ok t d (parts @ [leaf]))"
  using assms
proof (induction parts arbitrary: current d guards fds w)
  case (Cons x xs)
  let ?name = "map_of (in_entries (t d)) x"
  have stat: "io_inner (stat_if_present (still t) current x) (fds, w)
      = (Inr (map_option (\<lambda>f. in_stat (t f)) ?name), (fds, tick w))"
    by (rule inner_run, rule stat_if_present_still [where t = t and d = d, OF Cons.prems(1,2)])
  show ?case
  proof (cases ?name)
    case None
    with Cons.prems(2,3) show ?thesis
      by (auto simp: io_bind_def stat nonmatching_run None)
  next
    case (Some f)
    have safe: "inode_type (t f) = ''directory'' \<or> inode_type (t f) = ''regular''"
      using Cons.prems(3) by (auto simp: io_bind_def stat Some inode_type_def split: if_splits)
    show ?thesis
    proof (cases "inode_type (t f) = ''regular''")
      case True
      then have "r = Inl (opened_nonmatching_entry current x guards fds (Some (file_fingerprint_of (in_stat (t f)))))"
        using Cons.prems(3) by (auto simp: Some io_bind_def stat nonmatching_run inode_type_def)
      moreover have "boundary_ok t d ((x # xs) @ [leaf])" for leaf
        using True Some Cons.prems(2) by simp
      ultimately show ?thesis by simp
    next
      case False
      with safe have fdir: "inode_type (t f) = ''directory''" by simp
      let ?fd = "free_fd (to_fds w)"
      let ?u = "tick (opened_on f (tick w))"
      let ?guard = "\<lparr>dg_parent_descriptor = current, dg_name = x, dg_descriptor = ?fd, dg_fingerprint = node_print t f\<rparr>"
      have "map_of (to_fds (tick w)) current = Some d" using Cons.prems(1) by simp
      from open_at_still [where t = t and d = d, OF this Cons.prems(2) Some, of directory_flags_at] fdir
      have open_run: "io_inner (fd_open_at (still t) current x directory_flags_at) (fds, tick w)
          = (Inr ?fd, (fds, opened_on f (tick w)))"
        by (intro inner_run) simp
      have "map_of (to_fds (opened_on f (tick w))) ?fd = Some f" by simp
      from fstat_still [OF this] have stat_run: "io_inner (fd_fstat (still t) ?fd) (fds @ [?fd], opened_on f (tick w))
          = (Inr (in_stat (t f)), (fds @ [?fd], ?u))"
        by (rule inner_run)
      have "descend (still t) current guards (x # xs) (fds, w)
          = descend (still t) ?fd (guards @ [?guard]) xs (fds @ [?fd], ?u)"
        using fdir by (simp add: Some io_bind_def stat open_run own_run stat_run inode_type_def node_print_def)
      with Cons.prems(3) have step: "descend (still t) ?fd (guards @ [?guard]) xs (fds @ [?fd], ?u) = (Inr r, (fds', v))" by simp
      have "map_of (to_fds ?u) ?fd = Some f" by simp
      note inner = Cons.IH [OF this fdir step]
      have "boundary_ok t d ((x # xs) @ [leaf])" if "boundary_ok t f (xs @ [leaf])" for leaf
        using that Some Cons.prems(2) by simp
      with inner show ?thesis
        by (cases r) (auto simp del: boundary_ok.simps)
    qed
  qed
qed auto

lemma mode_type_cases:
  "mode_type m \<in> {''regular'', ''directory'', ''symlink'', ''fifo'', ''socket'', ''block-device'', ''character-device'', ''unknown''}"
  by (simp add: mode_type_def Let_def)

lemma open_leaf_boundary:
  assumes "map_of (to_fds w) current = Some d" and "inode_type (t d) = ''directory''"
    and "open_leaf (still t) current leaf guards mode (fds, w) = (Inr r, s)"
  shows "boundary_ok t d [leaf]"
proof -
  let ?name = "map_of (in_entries (t d)) leaf"
  have stat: "io_inner (stat_if_present (still t) current leaf) (fds, w)
      = (Inr (map_option (\<lambda>f. in_stat (t f)) ?name), (fds, tick w))"
    by (rule inner_run, rule stat_if_present_still [where t = t and d = d, OF assms(1,2)])
  show ?thesis
  proof (cases ?name)
    case (Some f)
    have "inode_type (t f) \<notin> {''fifo'', ''socket'', ''block-device'', ''character-device'', ''unknown''}"
      using assms(3) unfolding open_leaf_def
      by (auto simp: io_bind_def stat Some inode_type_def Let_def)
    with mode_type_cases [of "sr_mode (in_stat (t f))"] Some assms(2) show ?thesis
      by (auto simp: inode_type_def)
  qed (use assms(2) in simp)
qed

lemma open_entry_boundary:
  assumes "map_of (to_fds w) root = Some d" and "inode_type (t d) = ''directory''"
    and "open_worktree_entry (still t) root q mode w = (Inr opened, v)"
  shows "boundary_ok t d (path_parts q)"
proof -
  have dup: "fd_dup (still t) root w = (Inr (free_fd (to_fds w)), opened_on d w)"
    by (rule dup_still [OF assms(1)])
  let ?copy = "free_fd (to_fds w)"
  let ?u = "opened_on d w"
  from assms(3) dup obtain fds where parts: "open_parts (still t) ?copy (path_parts q) mode ([?copy], ?u) = (Inr opened, (fds, v))"
    by (auto simp: open_worktree_entry_def io_bind_def split: prod.splits sum.splits)
  then obtain r fds' u' where r: "descend (still t) ?copy [] (butlast (path_parts q)) ([?copy], ?u) = (Inr r, (fds', u'))"
    and rest: "(case r of Inl o' \<Rightarrow> io_return o'
       | Inr (current, guards) \<Rightarrow>
           if path_parts q = [] then io_raise (LockExn (PyIndexError ''tuple index out of range''))
           else open_leaf (still t) current (last (path_parts q)) guards mode) (fds', u') = (Inr opened, (fds, v))"
    by (auto simp: open_parts_def io_bind_Inr_iff)
  have "map_of (to_fds ?u) ?copy = Some d" by simp
  note down = descend_boundary [where t = t and d = d, OF this assms(2) r]
  show ?thesis
  proof (cases r)
    case (Inl o')
    show ?thesis
    proof (cases "path_parts q = []")
      case True
      with r Inl show ?thesis by simp
    next
      case False
      from down have "boundary_ok t d (butlast (path_parts q) @ [last (path_parts q)])"
        unfolding Inl sum.case by blast
      with False show ?thesis by simp
    qed
  next
    case (Inr x)
    obtain current guards where x: "x = (current, guards)" by fastforce
    from rest Inr x have ne: "path_parts q \<noteq> []"
      and leaf: "open_leaf (still t) current (last (path_parts q)) guards mode (fds', u') = (Inr opened, (fds, v))"
      by (auto split: if_splits)
    from down Inr x obtain d' where "map_of (to_fds u') current = Some d'" "inode_type (t d') = ''directory''"
      and up: "\<forall>leaf. boundary_ok t d' [leaf] \<longrightarrow> boundary_ok t d (butlast (path_parts q) @ [leaf])"
      by auto
    with open_leaf_boundary [where t = t and d = d', OF _ _ leaf] have "boundary_ok t d' [last (path_parts q)]" by blast
    with up have "boundary_ok t d (butlast (path_parts q) @ [last (path_parts q)])" by blast
    with ne show ?thesis by simp
  qed
qed

lemma map_of_without: "fd \<notin> A \<Longrightarrow> map_of (without A fds) fd = map_of fds fd"
  by (induction fds) (auto simp: without_def)

lemma open_entries_boundary:
  assumes "map_of (to_fds w) root = Some d" and "inode_type (t d) = ''directory''"
    and "open_entries (still t) root es (os, w) = (Inr (), s)"
  shows "list_all (\<lambda>e. boundary_ok t d (path_parts (ie_path e))) es"
  using assms(1,3)
proof (induction es arbitrary: os w)
  case (Cons e es)
  from Cons.prems(2) obtain opened u where o': "open_worktree_entry (still t) root (ie_path e) (ie_mode e) w = (Inr opened, u)"
    and rest: "open_entries (still t) root es (os @ [(e, opened)], u) = (Inr (), s)"
    by (auto simp: undisturbed_operation io_bind_Inr_iff io_inner_def split: prod.splits)
  from open_worktree_entry_fds [OF o'] have
    "without (set (ow_owned_descriptors opened)) (to_fds u) = to_fds w"
    "set (ow_owned_descriptors opened) \<inter> fst ` set (to_fds w) = {}" by auto
  moreover have "root \<in> fst ` set (to_fds w)" using Cons.prems(1) by (force dest: map_of_SomeD)
  ultimately have "map_of (to_fds u) root = map_of (to_fds w) root"
    using map_of_without [of root "set (ow_owned_descriptors opened)" "to_fds u"] by (metis disjoint_iff)
  with Cons.prems(1) have "map_of (to_fds u) root = Some d" by simp
  from Cons.IH [OF this rest] open_entry_boundary [where t = t and d = d, OF Cons.prems(1) assms(2) o'] show ?case by simp
qed simp

context descriptor_keeper
begin

lemma batches_boundary:
  assumes "map_of (to_fds w) root = Some d" and "inode_type (t d) = ''directory''"
    and "compare_batches (still t) hash hasher algorithm root es w = (Inr dirty, v)"
  shows "list_all (\<lambda>e. boundary_ok t d (path_parts (ie_path e))) es"
  using assms(1,3)
proof (induction "length es" arbitrary: es w dirty rule: less_induct)
  case less
  show ?case
  proof (cases "es = []")
    case False
    with less.prems(2) obtain dirty' u dirty'' where
      now: "compare_worktree_batch (still t) hash hasher algorithm root (take blob_hash_batch_max es) w = (Inr dirty', u)"
      and rest: "compare_batches (still t) hash hasher algorithm root (drop blob_hash_batch_max es) u = (Inr dirty'', v)"
      by (subst (asm) compare_batches.simps) (auto simp: io_bind_Inr_iff)
    have "list_all (\<lambda>e. boundary_ok t d (path_parts (ie_path e))) (take blob_hash_batch_max es)"
    proof -
      obtain started s where o': "open_entries (still t) root (take blob_hash_batch_max es) ([], w) = (started, s)"
        by (metis prod.exhaust)
      with now have "started = Inr ()"
        by (auto simp: compare_worktree_batch_def split: prod.splits sum.splits option.splits)
      with o' open_entries_boundary [where t = t and d = d, OF less.prems(1) assms(2)] show ?thesis by blast
    qed
    moreover have "to_fds u = to_fds w"
      by (rule keeps_result [OF batch_keeps [OF still_undisturbed] now])
    then have "list_all (\<lambda>e. boundary_ok t d (path_parts (ie_path e))) (drop blob_hash_batch_max es)"
      using False less.prems(1) rest by (intro less.hyps [of _ u]) (simp_all add: blob_hash_batch_max_def)
    ultimately show ?thesis by (metis append_take_drop_id list_all_append)
  qed simp
qed

end

lemma stages_ok_classified: "classify_path index head q = Inr c \<Longrightarrow> stages_ok index q"
  by (auto simp: classify_path_def Let_def stages_ok_def split: if_splits)

lemma classified_stages:
  assumes "classify_paths index head = Inr c"
  shows "list_all (stages_ok index) (map ie_path index)"
proof -
  from assms obtain cs where cs: "rmap (classify_path index head) (sorted_paths (map ie_path index @ map te_path head)) = Inr cs"
    by (auto simp: classify_paths_def Let_def rbind_def split: sum.splits)
  have "stages_ok index (ie_path e)" if "e \<in> set index" for e
  proof -
    have "ie_path e \<in> set (sorted_paths (map ie_path index @ map te_path head))"
      using that by (simp add: sorted_paths_props)
    from rmap_InrD [OF cs this] show ?thesis by (auto dest: stages_ok_classified)
  qed
  then show ?thesis by (simp add: list_all_iff)
qed

context blob_hasher
begin

text \<open>So a comparison that returns over such a tree needs no assumption on index and tree.\<close>

lemma collect_dirty_paths_exact:
  assumes "digest_ok hash" and "sizes_ok t" and "map_of (to_fds w) root = Some d" and "inode_type (t d) = ''directory''"
    and "git_evidence_ok (branch, index, head, untracked)"
    and "room_for_names (length (to_fds w) + entries_room index)"
    and "collect_dirty_paths (still t) hash hasher root index head untracked w = (Inr ds, v)"
  shows "x \<in> set ds \<longleftrightarrow> dirty_path t d hash index head untracked x"
proof -
  let ?lengths = "map (\<lambda>e. length (ie_object_id e)) index @ map (\<lambda>h. length (te_object_id h)) head"
  have lengths: "?lengths = map length (object_ids index head)" by (simp add: object_ids_def comp_def)
  from assms(7) obtain dirty worktree u dirty' where
    format: "require_consistent_object_format ?lengths = Inr ()"
    and c: "classify_paths index head = Inr (dirty, worktree)"
    and b: "compare_batches (still t) hash hasher (object_algorithm ?lengths) root worktree w = (Inr dirty', u)"
    by (auto simp: collect_dirty_paths_def Let_def io_bind_Inr_iff from_result_Inr_iff)
  from assms(5) have ids: "list_all object_id_ok (object_ids index head)" and heads: "distinct (map te_path head)"
    by (auto simp: git_evidence_ok_def object_ids_def list_all_iff index_entry_ok_def tree_entry_ok_def)
  from consistent_format_Inr [OF ids] format have same: "same_length (object_ids index head)"
    by (simp add: lengths)
  note stages = classified_stages [OF c]
  from classify_paths_ok [OF stages heads] c have "worktree = compared index head" by (simp add: compared_def)
  with batches_boundary [where t = t and d = d, OF assms(3,4) b]
  have bounds: "list_all (\<lambda>e. boundary_ok t d (path_parts (ie_path e))) (filter is_checked index)"
    by (auto simp: list_all_iff compared_set)
  from collect_dirty_paths_still [OF assms(1-3) stages heads same bounds assms(6), of untracked] assms(7)
  show ?thesis by auto
qed

end

section \<open>Pins over a tree that holds still\<close>

lemma path_open_still:
  assumes "ik_kernel p = still t" and "path_open p q flags w = (Inr fd, v)"
  shows "\<exists>n. ik_lookup p t q = Inr n \<and> fd = free_fd (to_fds w) \<and> to_fds v = (fd, n) # to_fds w"
  using assms
  by (auto simp: path_open_def path_node_def look_tick open_node_def new_fd_def io_bind_Inr_iff split: sum.splits if_splits)

lemma pin_required_still:
  assumes "ik_kernel p = still t" and "pin_required_directory p q w = (Inr pin, v)"
  shows "\<exists>fd n. pp_descriptor pin = Some fd \<and> ik_lookup p t q = Inr n \<and> inode_type (t n) = ''directory''
    \<and> fd = free_fd (to_fds w) \<and> to_fds v = (fd, n) # to_fds w"
proof -
  from assms(2) obtain fd u where o': "path_open p q directory_flags_at w = (Inr fd, u)"
    and c: "check_pin p q ''directory'' ''repository directory changed'' fd u = (Inr pin, v)"
    by (auto simp: pin_required_directory_def io_bind_Inr_iff)
  from path_open_still [OF assms(1) o'] obtain n where n: "ik_lookup p t q = Inr n" "fd = free_fd (to_fds w)" "to_fds u = (fd, n) # to_fds w"
    by blast
  from check_pin_fds [OF c] have v: "to_fds v = to_fds u" and pin: "pp_descriptor pin = Some fd" by simp_all
  from c have "pin_checks p q ''directory'' ''repository directory changed'' fd u = (Inr pin, v)"
    by (auto simp: check_pin_def split: prod.splits sum.splits)
  then have "inode_type (t n) = ''directory''"
    using n(3) assms(1)
    by (auto simp: pin_checks_def io_bind_Inr_iff fd_fstat_def with_fd_def look_tick inode_type_def split: if_splits)
  with n v pin show ?thesis by auto
qed

lemma pin_evidence_still:
  assumes "ik_kernel p = still t" and "pin_evidence p target root git w = (Inr (root_pin, index_pin), v)"
  shows "\<exists>fd n. pp_descriptor root_pin = Some fd \<and> ik_lookup p t root = Inr n \<and> inode_type (t n) = ''directory''
    \<and> map_of (to_fds v) fd = Some n \<and> length (to_fds v) \<le> length (to_fds w) + 2"
proof -
  have "fs_operation p m = m" for m :: "pinned_path inspection"
    unfolding fs_operation_def assms(1) by (rule undisturbed_operation) simp
  with assms(2) obtain u where r: "pin_required_directory p root w = (Inr root_pin, u)"
    and i: "pin_optional_regular_file p (path_join git (path_of ''index'')) u = (Inr index_pin, v)"
    by (auto simp: pin_evidence_def io_map_error_Inr_iff timed_def io_bind_Inr_iff split: prod.splits sum.splits)
  from pin_required_still [OF assms(1) r] obtain fd n where n: "pp_descriptor root_pin = Some fd" "ik_lookup p t root = Inr n"
    "inode_type (t n) = ''directory''" "fd = free_fd (to_fds w)" "to_fds u = (fd, n) # to_fds w" by blast
  from fd_openerD(2) [OF fd_opener_pins(2) i] have "map_of (to_fds v) fd = Some n \<and> length (to_fds v) \<le> Suc (length (to_fds u))"
    using n(5) free_fd_fresh [of "to_fds u"] by (auto simp: new_descriptor_def split: option.splits)
  with n show ?thesis by auto
qed

section \<open>The inspection\<close>

context blob_hasher
begin

lemma inspect_exact:
  assumes "ik_kernel p = still t" and "ik_hasher p = hasher" and "ik_digest p = hash" and "digest_ok hash" and "sizes_ok t"
    and "inspect p q w = (Inr rc, v)" and "rc_is_git_worktree rc"
  shows "\<exists>root git_directory d index head untracked u u'.
      root \<in> set (path_and_parents (rc_project_path rc)) \<and> ik_lookup p t root = Inr d
      \<and> git_evidence p (rc_project_path rc) (pinned_prefix root root git_directory) u
          = (Inr (rc_branch rc, index, head, untracked), u')
      \<and> (room_for_names (length (to_fds w) + 2 + entries_room index) \<longrightarrow>
           (\<forall>x. x \<in> set (rc_dirty_paths rc) \<longleftrightarrow> dirty_path t d hash index head untracked x))"
proof -
  from assms(6) obtain target w0 candidate_root git_metadata ev w1 where
    find: "find_target p q w = (Inr target, w0)"
    and survey: "survey p target w0 = (Inr (candidate_root, git_metadata, ev), w1)"
    and rest: "(case git_metadata of None \<Rightarrow> io_return (non_git_context target ev)
               | Some _ \<Rightarrow> inspect_git p target candidate_root) w1 = (Inr rc, v)"
    by (auto simp: inspect_def io_bind_Inr_iff split: if_splits)
  from rest assms(7) have "inspect_git p target candidate_root w1 = (Inr rc, v)"
    by (cases git_metadata) (auto simp: non_git_context_def)
  then obtain root git_directory w2 root_pin index_pin w3 where
    found: "discover_git p target candidate_root w1 = (Inr (root, git_directory), w2)"
    and pins: "pin_evidence p target root git_directory w2 = (Inr (root_pin, index_pin), w3)"
    and body: "with_pins p root_pin index_pin (inspect_worktree p target root (pinned_prefix candidate_root root git_directory)
        root_pin index_pin) w3 = (Inr rc, v)"
    by (auto simp: inspect_git_def io_bind_Inr_iff)
  from returnsD [OF returns_discover_git found] have root: "root = candidate_root" and "relative_to target root \<noteq> None"
    by auto
  then have parent: "root \<in> set (path_and_parents target)" by (auto intro: relative_to_parent)
  have w2: "to_fds w2 = to_fds w"
    using keeps_result [OF keeps_find_target find] keeps_result [OF keeps_survey survey]
      keeps_result [OF keeps_discover_git found] by simp
  from pin_evidence_still [OF assms(1) pins] obtain fd d where
    pin: "pp_descriptor root_pin = Some fd" and d: "ik_lookup p t root = Inr d" "inode_type (t d) = ''directory''"
    and w3: "map_of (to_fds w3) fd = Some d" "length (to_fds w3) \<le> length (to_fds w) + 2"
    unfolding w2 by blast
  from body obtain w4 where "inspect_worktree p target root (pinned_prefix root root git_directory) root_pin index_pin w3 = (Inr rc, w4)"
    by (auto simp: with_pins_def after_cleanup_def root split: prod.splits sum.splits option.splits)
  then obtain index head untracked w5 ds ev' where
    git: "git_evidence p target (pinned_prefix root root git_directory) w3 = (Inr (rc_branch rc, index, head, untracked), w5)"
    and tree: "worktree_evidence p target root root_pin index_pin fd index head untracked w5 = (Inr (ds, ev'), w4)"
    and rc: "rc_project_path rc = target" "rc_dirty_paths rc = ds"
    by (auto simp: inspect_worktree_def io_bind_Inr_iff pin)
  from tree obtain w6 where "collect_dirty_paths (still t) hash hasher fd index head untracked w5 = (Inr ds, w6)"
    by (auto simp: worktree_evidence_def repository_error_for_def io_map_error_Inr_iff timed_def io_bind_Inr_iff
        assms(1-3) split: prod.splits sum.splits)
  note exact = collect_dirty_paths_exact [OF assms(4,5) _ d(2) returnsD [OF returns_git_evidence git] _ this]
  have w5: "to_fds w5 = to_fds w3" by (rule keeps_result [OF keeps_git_evidence git])
  have "room_for_names (length (to_fds w) + 2 + entries_room index) \<longrightarrow>
      (\<forall>x. x \<in> set ds \<longleftrightarrow> dirty_path t d hash index head untracked x)"
    using exact w3 room_mono [of "length (to_fds w) + 2 + entries_room index" "length (to_fds w3) + entries_room index"]
    by (simp add: w5)
  with parent d(1) git show ?thesis unfolding rc by blast
qed

end

text \<open>
  C7. Over a work tree that holds still, every Git context that an inspection returns is exact: there
  is a directory above the project, the one that was pinned, and an index, a HEAD tree and a list
  of untracked files, parsed from what Git printed for that directory, such that a path is in
  \<open>dirty_paths\<close> exactly when it is dirty according to them and the files of the tree. Nothing is
  assumed of the index or of the tree, because whatever cannot be compared is refused.
\<close>

theorem inspected_worktree_is_exact:
  assumes "ik_kernel p = still t"
    and "ik_hasher p = hash_descriptors (helper_process (still t) (ik_digest p) short)"
    and "digest_ok (ik_digest p)" and "sizes_ok t"
    and "inspect p q w = (Inr rc, v)" and "rc_is_git_worktree rc"
  shows "\<exists>root git_directory d index head untracked u u'.
      root \<in> set (path_and_parents (rc_project_path rc)) \<and> ik_lookup p t root = Inr d
      \<and> git_evidence p (rc_project_path rc) (pinned_prefix root root git_directory) u
          = (Inr (rc_branch rc, index, head, untracked), u')
      \<and> (room_for_names (length (to_fds w) + 2 + entries_room index) \<longrightarrow>
           (\<forall>x. x \<in> set (rc_dirty_paths rc) \<longleftrightarrow> dirty_path t d (ik_digest p) index head untracked x))"
  by (rule still_helper.inspect_exact [OF assms(1,2) refl assms(3-6)])

end
