(* ===== verification/Inspection_Example.thy ===== *)
theory Inspection_Example
  imports Inspection_Exactness
begin

text \<open>
  The inspection of a small repository \<open>/r\<close>, with the Git commands answered as Git would: the
  theorems on the inspection apply to it, and an index that is not a regular file shows the one
  descriptor that the inspector does not give back.
\<close>

section \<open>A repository\<close>

text \<open>\<open>/r\<close> has a file \<open>a\<close>, an instruction file and \<open>.git\<close> with the index.\<close>

definition ex_repo :: "int \<Rightarrow> tree" where
  "ex_repo index_mode f =
     (if f = 1 then \<lparr>in_stat = ex_stat 1 33188 2, in_data = ''hi'', in_entries = []\<rparr>
      else if f = 4 then \<lparr>in_stat = ex_stat 4 16877 0, in_data = [], in_entries = [(''index'', 5)]\<rparr>
      else if f = 5 then \<lparr>in_stat = ex_stat 5 index_mode 1, in_data = ''D'', in_entries = []\<rparr>
      else if f = 6 then \<lparr>in_stat = ex_stat 6 33188 2, in_data = ''x'' @ [CHR 13], in_entries = []\<rparr>
      else \<lparr>in_stat = ex_stat 0 16877 0, in_data = [], in_entries = [(''a'', 1), (''AGENTS.md'', 6), (''.git'', 4)]\<rparr>)"

definition ex_lookup :: "path \<Rightarrow> os_error + nat" where
  "ex_lookup q =
     (case map_of [(''/r'', 0), (''/r/.git'', 4), (''/r/.git/index'', 5)] (str_path q) of
        Some n \<Rightarrow> Inr n | None \<Rightarrow> Inl \<lparr>oe_errno = OtherErrno 2, oe_text = ''[Errno 2] No such file or directory''\<rparr>)"

definition ex_process :: "string \<Rightarrow> spawned" where
  "ex_process text = Started \<lparr>pr_pipes = True, pr_stdout = (if text = [] then [] else [text], EndOfFile), pr_stderr = ([], EndOfFile),
     pr_returncode = 0, pr_cancelled = None, pr_reaping = quiet_reaping\<rparr>"

text \<open>The index and HEAD agree on \<open>a\<close>, whose bytes have another identifier; \<open>new\<close> is untracked.\<close>

definition ex_git :: "nat \<Rightarrow> (string \<times> string) list \<Rightarrow> string list \<Rightarrow> path \<Rightarrow> spawned" where
  "ex_git n environment argv cwd = ex_process
     (let object_id = replicate 40 (CHR ''0'')
      in if ''rev-parse'' \<in> set argv then ''/r'' @ nl @ ''/r/.git'' @ nl
         else if ''branch'' \<in> set argv then ''main'' @ nl
         else if ''--stage'' \<in> set argv then ''H 100644 '' @ object_id @ '' 0'' @ [tab] @ ''a'' @ [nul]
         else if ''ls-tree'' \<in> set argv then ''100644 blob '' @ object_id @ [tab] @ ''a'' @ [nul]
         else ''new'' @ [nul])"

definition ex_ports :: "tree_kernel \<Rightarrow> inspect_ports" where
  "ex_ports k =
     \<lparr>ik_kernel = k, ik_resolve = (\<lambda>_ q. Inr q), ik_lookup = (\<lambda>_. ex_lookup), ik_is_dir = (\<lambda>_ _. True),
      ik_is_file = (\<lambda>_ q. q = Path ''/'' [''r'', ''Dockerfile'']),
      ik_walk = (\<lambda>_ _. Dir [''a'', ''m.py''] [(''src'', Dir [''x.PY'', ''y.c''] []), (''build'', Dir [''z.rs''] [])]),
      ik_expired = (\<lambda>_. False), ik_group_cancelled = (\<lambda>_. None), ik_run = ex_git, ik_decode = (\<lambda>s. s), ik_utf8 = Some,
      ik_digest = ex_digest, ik_hasher = hash_descriptors (helper_process k ex_digest (\<lambda>_. 99))\<rparr>"

definition ex_good :: inspect_ports where
  "ex_good = ex_ports (still (ex_repo 33188))"

definition ex_start :: tree_os where
  "ex_start = \<lparr>to_time = 0, to_fds = [(5, 9)]\<rparr>"

definition ex_context :: repository_context where
  "ex_context =
     \<lparr>rc_project_path = Path ''/'' [''r''], rc_is_git_worktree = True, rc_branch = Some ''main'',
      rc_dirty_paths = [Path [] [''a''], Path [] [''new'']],
      rc_instruction_files = [\<lparr>inf_path = Path ''/'' [''r'', ''AGENTS.md''], inf_content = ''x'' @ nl\<rparr>],
      rc_language_counts = [(''c'', 1), (''python'', 2)],
      rc_docker_files = [Path ''/'' [''r'', ''Dockerfile'']], rc_command_errors = []\<rparr>"

lemma ex_inspect: "fst (inspect ex_good (Path ''/'' [''r'']) ex_start) = Inr ex_context"
  by code_simp

lemma ex_inspect_returns: "\<exists>v. inspect ex_good (Path ''/'' [''r'']) ex_start = (Inr ex_context, v)"
  using ex_inspect by (metis prod.collapse)

lemma ex_ports_simps [simp]:
  "ik_kernel (ex_ports k) = k" "ik_digest (ex_ports k) = ex_digest" "ik_lookup (ex_ports k) = (\<lambda>_. ex_lookup)"
  "ik_hasher (ex_ports k) = hash_descriptors (helper_process k ex_digest (\<lambda>_. 99))"
  "ik_resolve (ex_ports k) = (\<lambda>_ q. Inr q)"
  by (simp_all add: ex_ports_def)

lemma ex_repo_sizes: "sizes_ok (ex_repo 33188)"
  by (auto simp: sizes_ok_def ex_repo_def ex_stat_def inode_type_def mode_type_def printable_nat_def
      digits_of.simps int_max_str_digits_def)

lemma inspection_leaves_no_descriptor_open_witness:
  "\<exists>v. inspect ex_good (Path ''/'' [''r'']) ex_start = (Inr ex_context, v) \<and> to_fds v = [(5, 9)]"
proof -
  obtain v where v: "inspect ex_good (Path ''/'' [''r'']) ex_start = (Inr ex_context, v)"
    using ex_inspect_returns by blast
  have "undisturbed (ik_kernel ex_good)"
    and "ik_hasher ex_good = hash_descriptors (helper_process (ik_kernel ex_good) (ik_digest ex_good) (\<lambda>_. 99))"
    by (simp_all add: ex_good_def)
  from inspection_leaves_no_descriptor_open [OF this v] v show ?thesis by (auto simp: ex_start_def)
qed

lemma inspected_context_is_safe_witness: "context_ok ex_context"
proof -
  obtain v where "inspect ex_good (Path ''/'' [''r'']) ex_start = (Inr ex_context, v)"
    using ex_inspect_returns by blast
  then show ?thesis by (rule inspected_context_is_safe)
qed

lemma inspected_worktree_is_exact_witness:
  "\<exists>root git_directory d index head untracked u u'.
      root \<in> set (path_and_parents (rc_project_path ex_context)) \<and> ik_lookup ex_good (ex_repo 33188) root = Inr d
      \<and> git_evidence ex_good (rc_project_path ex_context) (pinned_prefix root root git_directory) u
          = (Inr (rc_branch ex_context, index, head, untracked), u')
      \<and> (room_for_names (length (to_fds ex_start) + 2 + entries_room index) \<longrightarrow>
           (\<forall>x. x \<in> set (rc_dirty_paths ex_context)
              \<longleftrightarrow> dirty_path (ex_repo 33188) d (ik_digest ex_good) index head untracked x))"
proof -
  obtain v where v: "inspect ex_good (Path ''/'' [''r'']) ex_start = (Inr ex_context, v)"
    using ex_inspect_returns by blast
  have "ik_kernel ex_good = still (ex_repo 33188)"
    and "ik_hasher ex_good = hash_descriptors (helper_process (still (ex_repo 33188)) (ik_digest ex_good) (\<lambda>_. 99))"
    and "digest_ok (ik_digest ex_good)"
    by (simp_all add: ex_good_def ex_digest_ok)
  from inspected_worktree_is_exact [OF this ex_repo_sizes v] show ?thesis by (simp add: ex_context_def)
qed

section \<open>An index that cannot be pinned\<close>

text \<open>
  When the index is not a regular file (here a directory), \<open>_pin_optional_regular_file\<close> closes its
  own descriptor and raises, but the descriptor of the root, which was pinned before, is not closed:
  the \<open>finally\<close> clause that closes the pins begins only after both are there.
\<close>

definition ex_broken :: inspect_ports where
  "ex_broken = ex_ports (still (ex_repo 16877))"

lemma unpinned_index_leaks_root:
  "case inspect ex_broken (Path ''/'' [''r'']) ex_start of
     (r, w) \<Rightarrow> r = Inl (LockExn (cannot_pin (Path ''/'' [''r'']))) \<and> to_fds w = [(0, 0), (5, 9)]"
  by code_simp

lemma inspection_errors_are_known_witness:
  "known_error (LockExn (cannot_pin (Path ''/'' [''r'']))) \<and>
    (\<exists>v. inspect ex_broken (Path ''/'' [''r'']) ex_start = (Inl (LockExn (cannot_pin (Path ''/'' [''r'']))), v))"
proof -
  obtain v where v: "inspect ex_broken (Path ''/'' [''r'']) ex_start = (Inl (LockExn (cannot_pin (Path ''/'' [''r'']))), v)"
    using unpinned_index_leaks_root by (auto split: prod.splits)
  have "\<forall>t q e. ik_resolve ex_broken t q = Inl e \<longrightarrow> is_os_error e"
    and "ik_hasher ex_broken = hash_descriptors (helper_process (still (ex_repo 16877)) ex_digest (\<lambda>_. 99))"
    by (simp_all add: ex_broken_def)
  from inspection_errors_are_known [OF this v] v show ?thesis by blast
qed

end
