(* ===== verification/Arguments.thy ===== *)
theory Arguments
  imports Cli
begin

text \<open>
  The command line of \<open>src/goalrouter/cli.py\<close>: the grammar that \<open>build_parser\<close> builds, what
  \<open>argparse\<close> of Python 3.14 makes of an argument list under it, and the arguments that the rest of
  the program reads from the namespace. A parse ends in a namespace or in \<open>SystemExit\<close>, with code 0
  after \<open>--help\<close> and 2 after an error; the texts are not modelled. Which arguments look like negative
  numbers, and how a list with \<open>--\<close> is parsed, are parameters.
\<close>

section \<open>Grammars\<close>

datatype arg_action = StoreText | StorePath | StoreTrue | AppendPath | ShowHelp

record option_spec =
  op_names :: "string list"
  op_dest :: string
  op_action :: arg_action
  op_choices :: "string list option"
  op_required :: bool

text \<open>
  A parser: its options, its positional arguments, the destinations of its required exclusive group
  (none when empty), and the destination and the parsers of its subcommands (none when empty).
\<close>

datatype grammar = Grammar (gr_options: "option_spec list") (gr_positionals: "string list")
  (gr_group: "string list") (gr_command: string) (gr_commands: "(string \<times> grammar) list")

definition add_option :: "string \<Rightarrow> string \<Rightarrow> arg_action \<Rightarrow> option_spec" where
  "add_option name dest action =
     \<lparr>op_names = [name], op_dest = dest, op_action = action, op_choices = None, op_required = False\<rparr>"

definition required :: "option_spec \<Rightarrow> option_spec" where
  "required spec = spec\<lparr>op_required := True\<rparr>"

definition help_option :: option_spec where
  "help_option = \<lparr>op_names = [''-h'', ''--help''], op_dest = ''help'', op_action = ShowHelp, op_choices = None,
     op_required = False\<rparr>"

definition project_argument :: option_spec where
  "project_argument = required (add_option ''--project'' ''project'' StorePath)"

definition affected_paths_argument :: option_spec where
  "affected_paths_argument = add_option ''--affected-path'' ''affected_paths'' AppendPath"

definition leaf :: "option_spec list \<Rightarrow> string list \<Rightarrow> string list \<Rightarrow> grammar" where
  "leaf options positionals exclusive = Grammar (help_option # options) positionals exclusive [] []"

definition build_parser :: grammar where
  "build_parser = Grammar
     [help_option,
      add_option ''--config'' ''config'' StorePath,
      add_option ''--json'' ''json_output'' StoreTrue,
      (add_option ''--auth-mode'' ''auth_mode'' StoreText)\<lparr>op_choices := Some (map auth_mode_value auth_modes)\<rparr>,
      add_option ''--state-path'' ''state_path'' StorePath,
      add_option ''--codex-bin'' ''codex_bin'' StoreText]
     [] [] ''command''
     [(''config'', Grammar [help_option] [] [] ''config_command''
         [(''template'', leaf [] [] []), (''validate'', leaf [] [] [])]),
      (''version'', leaf [] [] []),
      (''models'', leaf [] [] []),
      (''route'', leaf [project_argument, required (add_option ''--task'' ''task'' StoreText),
                      required (add_option ''--prompt'' ''prompt'' StoreText), affected_paths_argument] [] []),
      (''plan'', leaf [project_argument, required (add_option ''--objective'' ''objective'' StoreText),
                     add_option ''--run-id'' ''run_id'' StoreText] [] []),
      (''run'', leaf [project_argument, add_option ''--task'' ''task'' StoreText,
                    add_option ''--objective'' ''objective'' StoreText, add_option ''--prompt'' ''prompt'' StoreText,
                    add_option ''--run-id'' ''run_id'' StoreText, affected_paths_argument]
                  [] [''task'', ''objective'']),
      (''status'', leaf [] [''run_id''] []),
      (''approve'', leaf [required (add_option ''--approved-by'' ''approved_by'' StoreText)]
                       [''run_id'', ''work_item_id''] []),
      (''resume'', leaf [add_option ''--acknowledge-configuration-change'' ''acknowledge_configuration_change'' StoreTrue]
                      [''run_id''] []),
      (''report'', leaf [] [''run_id''] [])]"

section \<open>Parsing\<close>

datatype 'a parsed = Exit int | Parsed 'a

datatype arg_value = NoValue | TextValue string | PathValue path | FlagValue bool | PathValues "path list"

type_synonym namespace = "string \<rightharpoonup> arg_value"

text \<open>What follows the name in the same argument: nothing, \<open>=text\<close>, or the tail of a short option.\<close>

datatype attached = NoText | AfterEquals string | Tail string

definition find_option :: "option_spec list \<Rightarrow> string \<Rightarrow> option_spec option" where
  "find_option options name = find (\<lambda>spec. name \<in> set (op_names spec)) options"

definition name_part :: "string \<Rightarrow> string" where
  "name_part arg = takeWhile (\<lambda>c. c \<noteq> CHR ''='') arg"

definition equals_part :: "string \<Rightarrow> attached" where
  "equals_part arg =
     (case dropWhile (\<lambda>c. c \<noteq> CHR ''='') arg of [] \<Rightarrow> NoText | _ # value \<Rightarrow> AfterEquals value)"

text \<open>
  \<open>_get_option_tuples\<close>: a long option may be abbreviated; the only short option is \<open>-h\<close>, which may
  have a tail.
\<close>

definition option_tuples :: "option_spec list \<Rightarrow> string \<Rightarrow> (option_spec \<times> attached) list" where
  "option_tuples options arg =
     (if arg ! 1 = CHR ''-''
      then concat (map (\<lambda>spec. map (\<lambda>_. (spec, equals_part arg)) (filter (starts_with (name_part arg)) (op_names spec))) options)
      else concat (map (\<lambda>spec. map (\<lambda>_. (spec, Tail (drop 2 arg))) (filter (\<lambda>n. n = take 2 arg) (op_names spec))) options))"

text \<open>\<open>_parse_optional\<close>: \<open>None\<close> for an argument, otherwise the options it may stand for, none if it is unknown.\<close>

definition parse_optional ::
  "(string \<Rightarrow> bool) \<Rightarrow> option_spec list \<Rightarrow> string \<Rightarrow> (option_spec \<times> attached) list option" where
  "parse_optional negative options arg =
     (if arg = [] \<or> hd arg \<noteq> CHR ''-'' then None
      else case find_option options arg of
        Some spec \<Rightarrow> Some [(spec, NoText)]
      | None \<Rightarrow>
          if length arg = 1 then None
          else case (if equals_part arg = NoText then None else find_option options (name_part arg)) of
            Some spec \<Rightarrow> Some [(spec, equals_part arg)]
          | None \<Rightarrow>
              if option_tuples options arg \<noteq> [] then Some (option_tuples options arg)
              else if negative arg \<or> CHR '' '' \<in> set arg then None
              else Some [])"

text \<open>\<open>-h\<close> with a tail: further \<open>h\<close> are taken one by one; a \<open>-\<close> or a value for \<open>-h\<close> is an error.\<close>

fun help_tail :: "string \<Rightarrow> int" where
  "help_tail [] = 0"
| "help_tail (c # tail) =
     (if c = CHR ''-'' then 2
      else if c = CHR ''h'' then (if tail \<noteq> [] \<and> hd tail = CHR ''='' then 2 else help_tail tail)
      else 0)"

record progress =
  pg_space :: namespace
  pg_seen :: "string list"
  pg_left :: "string list"
  pg_extras :: "string list"

definition default_value :: "arg_action \<Rightarrow> arg_value" where
  "default_value action =
     (case action of StoreTrue \<Rightarrow> FlagValue False | AppendPath \<Rightarrow> PathValues [] | _ \<Rightarrow> NoValue)"

definition command_dests :: "grammar \<Rightarrow> string list" where
  "command_dests g = (if gr_commands g = [] then [] else [gr_command g])"

definition begin_parse :: "grammar \<Rightarrow> progress" where
  "begin_parse g =
     \<lparr>pg_space = map_of (map (\<lambda>spec. (op_dest spec, default_value (op_action spec)))
                    (filter (\<lambda>spec. op_action spec \<noteq> ShowHelp) (gr_options g))
                  @ map (\<lambda>dest. (dest, NoValue)) (gr_positionals g @ command_dests g)),
      pg_seen = [], pg_left = gr_positionals g, pg_extras = []\<rparr>"

definition stored_value :: "arg_action \<Rightarrow> arg_value option \<Rightarrow> string \<Rightarrow> arg_value" where
  "stored_value action old value =
     (case action of
        StorePath \<Rightarrow> PathValue (path_of value)
      | AppendPath \<Rightarrow> PathValues ((case old of Some (PathValues ps) \<Rightarrow> ps | _ \<Rightarrow> []) @ [path_of value])
      | _ \<Rightarrow> TextValue value)"

text \<open>\<open>take_action\<close> with one value: choices, exclusive group, assignment.\<close>

definition store_option :: "grammar \<Rightarrow> option_spec \<Rightarrow> string \<Rightarrow> progress \<Rightarrow> progress parsed" where
  "store_option g spec value st =
     (if (case op_choices spec of None \<Rightarrow> False | Some allowed \<Rightarrow> value \<notin> set allowed) then Exit 2
      else if op_dest spec \<in> set (gr_group g)
           \<and> list_ex (\<lambda>d. d \<noteq> op_dest spec \<and> d \<in> set (pg_seen st)) (gr_group g) then Exit 2
      else Parsed (st\<lparr>pg_space := (pg_space st)(op_dest spec \<mapsto>
                        stored_value (op_action spec) (pg_space st (op_dest spec)) value),
                     pg_seen := op_dest spec # pg_seen st\<rparr>))"

text \<open>\<open>consume_optional\<close>, with the arguments that remain.\<close>

definition consume_optional ::
  "(string \<Rightarrow> bool) \<Rightarrow> grammar \<Rightarrow> option_spec \<Rightarrow> attached \<Rightarrow> string list \<Rightarrow> progress \<Rightarrow> (string list \<times> progress) parsed" where
  "consume_optional negative g spec text rest st =
     (let store = (\<lambda>value rest'. case store_option g spec value st of Exit n \<Rightarrow> Exit n | Parsed st' \<Rightarrow> Parsed (rest', st'))
      in case op_action spec of
        ShowHelp \<Rightarrow> Exit (case text of NoText \<Rightarrow> 0 | AfterEquals _ \<Rightarrow> 2 | Tail t \<Rightarrow> help_tail t)
      | StoreTrue \<Rightarrow>
          (if text = NoText
           then Parsed (rest, st\<lparr>pg_space := (pg_space st)(op_dest spec \<mapsto> FlagValue True), pg_seen := op_dest spec # pg_seen st\<rparr>)
           else Exit 2)
      | _ \<Rightarrow>
          (case text of
             AfterEquals value \<Rightarrow> store value rest
           | Tail value \<Rightarrow> store value rest
           | NoText \<Rightarrow>
               (case rest of
                  [] \<Rightarrow> Exit 2
                | value # rest' \<Rightarrow>
                    if parse_optional negative (gr_options g) value = None then store value rest' else Exit 2)))"

lemma consume_optional_rest:
  "consume_optional negative g spec text rest st = Parsed (rest', st') \<Longrightarrow> length rest' \<le> length rest"
  by (auto simp: consume_optional_def Let_def split: arg_action.splits attached.splits parsed.splits list.splits if_splits)

text \<open>Required options, positional arguments and groups are checked at the end.\<close>

definition finish_parse :: "grammar \<Rightarrow> progress \<Rightarrow> (namespace \<times> string list) parsed" where
  "finish_parse g st =
     (if list_all (\<lambda>spec. op_required spec \<longrightarrow> op_dest spec \<in> set (pg_seen st)) (gr_options g)
         \<and> pg_left st = []
         \<and> (gr_commands g = [] \<or> gr_command g \<in> set (pg_seen st))
         \<and> (gr_group g = [] \<or> list_ex (\<lambda>d. d \<in> set (pg_seen st)) (gr_group g))
      then Parsed (pg_space st, pg_extras st) else Exit 2)"

text \<open>\<open>parse_known_args\<close>. A subcommand takes all arguments that remain.\<close>

function parse_known ::
  "(string \<Rightarrow> bool) \<Rightarrow> grammar \<Rightarrow> string list \<Rightarrow> progress \<Rightarrow> (namespace \<times> string list) parsed" where
  "parse_known negative g [] st = finish_parse g st"
| "parse_known negative g (arg # rest) st =
     (case parse_optional negative (gr_options g) arg of
        None \<Rightarrow>
          (case pg_left st of
             dest # left \<Rightarrow>
               parse_known negative g rest (st\<lparr>pg_space := (pg_space st)(dest \<mapsto> TextValue arg), pg_left := left\<rparr>)
           | [] \<Rightarrow>
               if gr_commands g = [] then parse_known negative g rest (st\<lparr>pg_extras := pg_extras st @ [arg]\<rparr>)
               else (case map_of (gr_commands g) arg of
                   None \<Rightarrow> Exit 2
                 | Some sub \<Rightarrow>
                     (case parse_known negative sub rest (begin_parse sub) of
                        Exit n \<Rightarrow> Exit n
                      | Parsed (space, extras) \<Rightarrow>
                          finish_parse g (st\<lparr>pg_space := (pg_space st)(gr_command g \<mapsto> TextValue arg) ++ space,
                            pg_seen := gr_command g # pg_seen st, pg_extras := pg_extras st @ extras\<rparr>))))
      | Some [] \<Rightarrow> parse_known negative g rest (st\<lparr>pg_extras := pg_extras st @ [arg]\<rparr>)
      | Some [(spec, text)] \<Rightarrow>
          (case consume_optional negative g spec text rest st of
             Exit n \<Rightarrow> Exit n
           | Parsed (rest', st') \<Rightarrow> parse_known negative g rest' st')
      | Some _ \<Rightarrow> Exit 2)"
  by pat_completeness auto

termination
  by (relation "measure (\<lambda>(_, _, args, _). length args)") (auto dest: consume_optional_rest)

definition parse_args :: "(string \<Rightarrow> bool) \<Rightarrow> grammar \<Rightarrow> string list \<Rightarrow> namespace parsed" where
  "parse_args negative g argv =
     (case parse_known negative g argv (begin_parse g) of
        Exit n \<Rightarrow> Exit n
      | Parsed (space, extras) \<Rightarrow> if extras = [] then Parsed space else Exit 2)"

record argparse_ports =
  ag_negative :: "string \<Rightarrow> bool"
  ag_dashed :: "string list \<Rightarrow> namespace parsed"

definition parse_arguments :: "argparse_ports \<Rightarrow> string list \<Rightarrow> namespace parsed" where
  "parse_arguments p argv =
     (if ''--'' \<in> set argv then ag_dashed p argv else parse_args (ag_negative p) build_parser argv)"

section \<open>The namespace as the program reads it\<close>

definition text_at :: "namespace \<Rightarrow> string \<Rightarrow> string option" where
  "text_at ns key = (case ns key of Some (TextValue t) \<Rightarrow> Some t | _ \<Rightarrow> None)"

definition path_at :: "namespace \<Rightarrow> string \<Rightarrow> path option" where
  "path_at ns key = (case ns key of Some (PathValue p) \<Rightarrow> Some p | _ \<Rightarrow> None)"

definition flag_at :: "namespace \<Rightarrow> string \<Rightarrow> bool" where
  "flag_at ns key \<longleftrightarrow> ns key = Some (FlagValue True)"

definition paths_at :: "namespace \<Rightarrow> string \<Rightarrow> path list" where
  "paths_at ns key = (case ns key of Some (PathValues ps) \<Rightarrow> ps | _ \<Rightarrow> [])"

text \<open>
  The attributes that \<open>async_main\<close> and \<open>_dispatch\<close> read; \<open>None\<close> where a required one is missing.
\<close>

definition command_of :: "namespace \<Rightarrow> command option" where
  "command_of ns =
     (let project = path_at ns ''project''; task = text_at ns ''task''; prompt = text_at ns ''prompt'';
          objective = text_at ns ''objective''; rid = text_at ns ''run_id''; affected = paths_at ns ''affected_paths''
      in case text_at ns ''command'' of
        None \<Rightarrow> None
      | Some name \<Rightarrow>
          if name = ''config''
          then (case text_at ns ''config_command'' of
                  None \<Rightarrow> None | Some c \<Rightarrow> Some (if c = ''template'' then ConfigTemplate else ConfigValidate))
          else if name = ''version'' then Some Version
          else if name = ''models'' then Some Models
          else if name = ''route''
          then Option.bind project (\<lambda>q. Option.bind task (\<lambda>t. Option.bind prompt (\<lambda>m. Some (Route q t m affected))))
          else if name = ''plan'' then Option.bind project (\<lambda>q. Option.bind objective (\<lambda>m. Some (Plan q m rid)))
          else if name = ''run'' then Option.bind project (\<lambda>q. Some (Run q task objective prompt rid affected))
          else if name = ''status'' then map_option Status rid
          else if name = ''approve''
          then Option.bind rid (\<lambda>r. Option.bind (text_at ns ''work_item_id'') (\<lambda>wid.
                 map_option (Approve r wid) (text_at ns ''approved_by'')))
          else if name = ''resume'' then map_option (\<lambda>r. Resume r (flag_at ns ''acknowledge_configuration_change'')) rid
          else if name = ''report'' then map_option Report rid
          else None)"

definition cli_args_of :: "namespace \<Rightarrow> cli_args option" where
  "cli_args_of ns =
     map_option (\<lambda>c. \<lparr>ca_config = path_at ns ''config'', ca_json = flag_at ns ''json_output'',
         ca_auth_mode = text_at ns ''auth_mode'', ca_state_path = path_at ns ''state_path'',
         ca_codex_bin = text_at ns ''codex_bin'', ca_command = c\<rparr>)
       (command_of ns)"

end
