(* ===== verification/Composition.thy ===== *)
theory Composition
  imports Arguments Ports Leases Inspection Reporting Planner
begin

text \<open>
  The composition root: \<open>_compose_application\<close> of \<open>src/goalrouter/cli.py\<close> with the constructors
  that it calls. All collaborators work on one \<open>machine\<close>, each on its own part of it: the run store
  on the files, the leases on the tables of descriptors and locks, the inspector on its descriptors,
  the Codex client on its flag and on the rest, which has the SDK, the clocks and the other files.
  What lies outside the repository is the record \<open>externals\<close>.
\<close>

section \<open>The machine\<close>

text \<open>
  \<open>ma_held\<close> has the descriptors of the leases that are held, the innermost first: the local
  variable \<open>descriptor\<close> of each \<open>_exclusive_lease\<close> that has yielded to its body.
\<close>

record 'u machine =
  ma_files :: fs
  ma_leases :: os
  ma_held :: "nat list"
  ma_tree :: tree_os
  ma_staged :: bool
  ma_rest :: 'u

text \<open>A computation on one part of a larger world.\<close>

definition zoom :: "('m \<Rightarrow> 's) \<Rightarrow> ('s \<Rightarrow> 'm \<Rightarrow> 'm) \<Rightarrow> ('s, 'a) eff \<Rightarrow> ('m, 'a) eff" where
  "zoom get put m = (\<lambda>w. case m (get w) of (r, v) \<Rightarrow> (r, put v w))"

definition in_files :: "'a fs_op \<Rightarrow> ('u machine, 'a) eff" where
  "in_files = zoom ma_files (\<lambda>v. ma_files_update (\<lambda>_. v))"

definition in_tree :: "(tree_os, 'a) eff \<Rightarrow> ('u machine, 'a) eff" where
  "in_tree = zoom ma_tree (\<lambda>v. ma_tree_update (\<lambda>_. v))"

definition in_rest :: "('u, 'a) eff \<Rightarrow> ('u machine, 'a) eff" where
  "in_rest = zoom ma_rest (\<lambda>v. ma_rest_update (\<lambda>_. v))"

text \<open>
  The flag \<open>_codex_home_staged\<close> is set when the client is made without a directory to stage; a
  machine starts with \<open>ma_staged\<close> unset.
\<close>

definition in_client :: "codex_client \<Rightarrow> ('u, 'a) sdk \<Rightarrow> ('u machine, 'a) eff" where
  "in_client c = zoom (\<lambda>w. (cc_home_source c = None \<or> ma_staged w, ma_rest w))
     (\<lambda>(staged, v) w. w\<lparr>ma_staged := staged, ma_rest := v\<rparr>)"

section \<open>Leases\<close>

text \<open>\<open>_exclusive_lease\<close> up to its \<open>yield\<close>, and from there on.\<close>

definition lease_exn :: "lock_exn \<Rightarrow> exn" where
  "lease_exn e = (case e of LockExn x \<Rightarrow> x | LockOs x \<Rightarrow> PyOSError (oe_text x))"

definition enter_lease ::
  "kernel \<Rightarrow> nat locking \<Rightarrow> exn \<Rightarrow> (os_error \<Rightarrow> exn) \<Rightarrow> ('u machine, unit) eff" where
  "enter_lease k open_descriptor busy_error failure_error = (\<lambda>w.
     case acquire_cancellation_safe k open_descriptor busy_error failure_error (ma_leases w) of
       (Inl e, v) \<Rightarrow> (Inl (lease_exn e), w\<lparr>ma_leases := v\<rparr>)
     | (Inr fd, v) \<Rightarrow> (Inr (), w\<lparr>ma_leases := v, ma_held := fd # ma_held w\<rparr>))"

definition exit_lease :: "kernel \<Rightarrow> ('u machine, unit) eff" where
  "exit_lease k = (\<lambda>w. case ma_held w of
       [] \<Rightarrow> (Inr (), w)
     | fd # held \<Rightarrow>
         (case release_cancellation_safe k fd (ma_leases w) of
            (Inl e, v) \<Rightarrow> (Inl (lease_exn e), w\<lparr>ma_leases := v, ma_held := held\<rparr>)
          | (Inr _, v) \<Rightarrow> (Inr (), w\<lparr>ma_leases := v, ma_held := held\<rparr>)))"

definition enter_project_lease :: "kernel \<Rightarrow> path \<Rightarrow> ('u machine, unit) eff" where
  "enter_project_lease k project =
     enter_lease k (open_project_directory k project) (project_busy project) (project_failure project)"

definition enter_run_lease :: "kernel \<Rightarrow> path \<Rightarrow> string \<Rightarrow> ('u machine, unit) eff" where
  "enter_run_lease k root rid =
     (case validate_run_id rid of
        Inl e \<Rightarrow> io_raise e
      | Inr valid \<Rightarrow> enter_lease k (open_run_lock k root valid) (run_busy valid) (run_failure valid))"

section \<open>The collaborators\<close>

text \<open>
  \<open>en_inspection\<close> gives the inspector's ports for a timeout in seconds, \<open>en_environ\<close> is
  \<open>os.environ\<close>, \<open>en_order\<close> the order in which the children of a task group end.
\<close>

record 'u externals =
  en_config :: "'u \<Rightarrow> config_ports"
  en_kernel :: kernel
  en_inspection :: "int \<Rightarrow> inspect_ports"
  en_codex :: "'u codex_ports"
  en_order :: "bool \<times> 'u \<Rightarrow> nat list"
  en_now :: "('u, datetime) eff"
  en_new_run_id :: "('u, string) eff"
  en_sha :: "string \<Rightarrow> string"
  en_read :: "path \<Rightarrow> ('u, string) eff"
  en_json_error :: "string \<Rightarrow> string"
  en_first_error :: "json \<Rightarrow> json \<Rightarrow> (string list \<times> string) option"
  en_resolve :: "path \<Rightarrow> path"
  en_environ :: "string dict"
  en_float :: float_format

text \<open>\<open>StructuredPlanner.__init__\<close>\<close>

definition planner_schema_path :: "path option \<Rightarrow> string dict \<Rightarrow> path" where
  "planner_schema_path given environ =
     (case given of
        Some p \<Rightarrow> p
      | None \<Rightarrow> path_of (case map_of environ ''GOALROUTER_PLANNER_SCHEMA'' of
                           None \<Rightarrow> ''/etc/goalrouter/planner-output.schema.json'' | Some v \<Rightarrow> v))"

definition make_planner :: "codex_client \<Rightarrow> 'u externals \<Rightarrow> path option \<Rightarrow> 'u machine planner_ports" where
  "make_planner c x schema =
     \<lparr>pl_run_new = (\<lambda>project rt prompt instructions output_schema.
        in_client c (run_new_thread c (en_codex x) project rt prompt instructions (Some output_schema))),
      pl_resume = (\<lambda>thread project rt prompt output_schema.
        in_client c (resume_thread c (en_codex x) thread project rt prompt (Some output_schema))),
      pl_read = (\<lambda>p. in_rest (en_read x p)), pl_json_error = en_json_error x,
      pl_first_error = en_first_error x, pl_resolve = en_resolve x,
      pl_schema_path = planner_schema_path schema (en_environ x)\<rparr>"

text \<open>
  \<open>WorkScheduler.__init__\<close>; a limit below one has been refused by \<open>compose_settings\<close>, so
  \<open>make_scheduler\<close> returns. The default clock is \<open>datetime.now(UTC)\<close>.
\<close>

definition scheduler_collaborators ::
  "settings \<Rightarrow> 'u externals \<Rightarrow> 'u machine sched_ports" where
  "scheduler_collaborators se x =
     (let c = se_client se; root = se_state_path se; k = en_kernel x
      in \<lparr>sp_save = (\<lambda>s. in_files (store_save root s)),
          sp_append_event = (\<lambda>rid e. in_files (store_append_event root rid e)),
          sp_acquire = enter_project_lease k, sp_release = (\<lambda>_. exit_lease k),
          sp_call = (\<lambda>call. in_client c (codex_call c (en_codex x) call)),
          sp_group = (\<lambda>cs. in_client c (task_group (codex_call c (en_codex x)) (en_order x) cs)),
          sp_now = in_rest (en_now x), sp_sha = en_sha x,
          sp_max_read_concurrency = nat (se_max_read_concurrency se)\<rparr>)"

text \<open>\<open>GoalRouterApplication.__init__\<close> as \<open>_compose_application\<close> calls it.\<close>

definition compose_application ::
  "'u externals \<Rightarrow> settings \<Rightarrow> router_config \<Rightarrow> path \<Rightarrow> 'u machine app_ports" where
  "compose_application x se cfg path =
     (let c = se_client se; root = se_state_path se; k = en_kernel x
      in \<lparr>ap_config = cfg, ap_config_path = path,
          ap_available_models = in_client c (available_models c (en_codex x)),
          ap_inspect = (\<lambda>project.
            in_tree (as_exn (inspect (en_inspection x (se_inspection_timeout se)) project))),
          ap_plan = plan (make_planner c x (se_planner_schema se)) cfg,
          ap_run_ready = scheduler_port (scheduler_collaborators se x),
          ap_create = (\<lambda>s. in_files (store_create root s)),
          ap_load = (\<lambda>rid digest acknowledge. in_files (store_load root rid digest acknowledge)),
          ap_save = (\<lambda>s. in_files (store_save root s)),
          ap_append_event = (\<lambda>rid e. in_files (store_append_event root rid e)),
          ap_write_report = (\<lambda>rid content.
            io_bind (in_files (store_write_report root rid content)) (\<lambda>_. io_return ())),
          ap_render = render (en_float x),
          ap_acquire = enter_run_lease k root, ap_release = (\<lambda>_. exit_lease k),
          ap_now = in_rest (en_now x), ap_new_run_id = in_rest (en_new_run_id x), ap_sha = en_sha x\<rparr>)"

text \<open>The parts of the composed application.\<close>

lemma composed_simps:
  "ap_config (compose_application x se cfg path) = cfg"
  "ap_run_ready (compose_application x se cfg path) = scheduler_port (scheduler_collaborators se x)"
  "ap_create (compose_application x se cfg path) s = in_files (store_create (se_state_path se) s)"
  "ap_load (compose_application x se cfg path) rid d a = in_files (store_load (se_state_path se) rid d a)"
  "ap_save (compose_application x se cfg path) s = in_files (store_save (se_state_path se) s)"
  "ap_append_event (compose_application x se cfg path) rid ev = in_files (store_append_event (se_state_path se) rid ev)"
  "ap_write_report (compose_application x se cfg path) rid t =
     io_bind (in_files (store_write_report (se_state_path se) rid t)) (\<lambda>_. io_return ())"
  "ap_render (compose_application x se cfg path) = render (en_float x)"
  "ap_acquire (compose_application x se cfg path) = enter_run_lease (en_kernel x) (se_state_path se)"
  "ap_release (compose_application x se cfg path) = (\<lambda>_. exit_lease (en_kernel x))"
  "ap_now (compose_application x se cfg path) = in_rest (en_now x)"
  "ap_available_models (compose_application x se cfg path) = in_client (se_client se) (available_models (se_client se) (en_codex x))"
  "ap_sha (compose_application x se cfg path) = en_sha x"
  by (simp_all add: compose_application_def Let_def)

section \<open>The program\<close>

definition shipped_template :: "'u externals \<Rightarrow> ('u machine, string) eff" where
  "shipped_template x = in_rest (en_read x (path_of ''/etc/goalrouter/task-models.template.yaml''))"

definition program_ports :: "'u externals \<Rightarrow> 'u machine cli_ports" where
  "program_ports x =
     \<lparr>cl_config = (\<lambda>w. en_config x (ma_rest w)), cl_template = shipped_template x,
      cl_application = compose_application x\<rparr>"

text \<open>\<open>async_main\<close> from the parsed arguments on.\<close>

definition goalrouter :: "'u externals \<Rightarrow> cli_args \<Rightarrow> ('u machine, int \<times> string \<times> string) eff" where
  "goalrouter x args = async_main (program_ports x) args (en_environ x)"

text \<open>
  The exit status of the process for an argument list. A namespace without an attribute that is read
  raises; no accepted argument list gives one.
\<close>

definition main_program :: "'u externals \<Rightarrow> argparse_ports \<Rightarrow> string list \<Rightarrow> ('u machine, int) eff" where
  "main_program x p argv =
     (case parse_arguments p argv of
        Exit code \<Rightarrow> io_return code
      | Parsed ns \<Rightarrow>
          (case cli_args_of ns of
             None \<Rightarrow> io_raise (PyRuntimeError ''missing attribute'')
           | Some args \<Rightarrow> io_bind (goalrouter x args) (\<lambda>(code, _, _). io_return code)))"

end
