(* ===== verification/Composition_Example.thy ===== *)
theory Composition_Example
  imports Composition Scheduler_Properties Lease_Properties Inspection_Example Store_Properties
begin

text \<open>
  A concrete machine and concrete surroundings of the program: an empty state directory, the small
  repository of \<open>Inspection_Example\<close>, a Codex account whose turns succeed, and kernel, clock and
  file system without failures.
\<close>

definition ex_format :: float_format where
  "ex_format = \<lparr>ff_general = (\<lambda>_. ''1.5''), ff_sum = (\<lambda>_. ''1.5'')\<rparr>"

definition ex_externals :: "unit externals" where
  "ex_externals = \<lparr>en_config = (\<lambda>_. Examples.ex_ports), en_kernel = ex_kernel, en_inspection = (\<lambda>_. ex_good),
     en_codex = ex_codex, en_order = (\<lambda>_. [0]), en_now = io_return ex_time, en_new_run_id = io_return ''r1'',
     en_sha = (\<lambda>_. ''f''), en_read = (\<lambda>_. io_return ''{}''), en_json_error = (\<lambda>_. ''''), en_first_error = (\<lambda>_ _. None),
     en_resolve = (\<lambda>p. p), en_environ = [], en_float = ex_format\<rparr>"

definition ex_settings :: settings where
  "ex_settings = \<lparr>se_client = ex_client, se_state_path = ex_root, se_planner_schema = None,
     se_max_read_concurrency = 2, se_inspection_timeout = 5\<rparr>"

definition ex_machine :: "fs \<Rightarrow> unit machine" where
  "ex_machine v = \<lparr>ma_files = v, ma_leases = ex_os, ma_held = [], ma_tree = ex_start, ma_staged = False, ma_rest = ()\<rparr>"

lemma ex_lease: "\<exists>fd l. acquire_cancellation_safe ex_kernel (open_run_lock ex_kernel ex_root ''r1'') (run_busy ''r1'') (run_failure ''r1'') ex_os = (Inr fd, l)
   \<and> (\<exists>l'. release_cancellation_safe ex_kernel fd l = (Inr (), l'))"
proof -
  have "(case acquire_cancellation_safe ex_kernel (open_run_lock ex_kernel ex_root ''r1'') (run_busy ''r1'') (run_failure ''r1'') ex_os of
      (Inr fd, l) \<Rightarrow> fst (release_cancellation_safe ex_kernel fd l) = Inr () | _ \<Rightarrow> False)"
    by code_simp
  then show ?thesis by (auto split: prod.splits sum.splits simp: prod_eq_iff)
qed

definition ex_approved :: run_state where
  "ex_approved = (case approve (\<lambda>_. ''f'') (canonical (ex_state Required)) ''b'' ''ann'' ex_time of Inr (_, s) \<Rightarrow> s | Inl _ \<Rightarrow> ex_state Required)"

lemma ex_approve: "\<exists>a. approve (\<lambda>_. ''f'') (canonical (ex_state Required)) ''b'' ''ann'' ex_time = Inr (a, ex_approved)"
proof -
  have "\<not> isl (approve (\<lambda>_. ''f'') (canonical (ex_state Required)) ''b'' ''ann'' ex_time)" by code_simp
  then show ?thesis by (auto simp: ex_approved_def split: sum.splits prod.splits)
qed

lemma ex_rendered: "\<exists>t. render ex_format ex_approved = Inr t"
proof -
  have "\<not> isl (render ex_format ex_approved)" by code_simp
  then show ?thesis by (cases "render ex_format ex_approved") auto
qed

section \<open>Steps on the disk\<close>

lemma ex_append:
  assumes "f (events_path ex_root ''r1'') = Some t"
  shows "\<exists>t' h'. store_append_event ex_root ''r1'' ev (ex_disk f h)
    = (Inr (), ex_disk (f(events_path ex_root ''r1'' \<mapsto> t')) h')"
  using assms unfolding ex_disk_def
  by (auto simp: store_append_event_def append_event_sync_def io_bind_def io_map_error_def validate_run_id_def
      ex_run_id_matches fs_is_file_def fs_append_text_def fs_fsync_def fs_prim_def fault_of_def)

lemma ex_report_disk:
  assumes "f (ex_temp (report_path ex_root ''r1'')) = None"
  shows "\<exists>h'. store_write_report ex_root ''r1'' t (ex_disk f h)
    = (Inr (report_path ex_root ''r1''), ex_disk (f(report_path ex_root ''r1'' \<mapsto> t)) h')"
  using ex_write [of "report_path ex_root ''r1''" f t h] assms
  by (auto simp: store_write_report_def write_report_sync_def io_bind_def io_map_error_def validate_run_id_def
      ex_run_id_matches fs_is_dir_def ex_in_disk)

lemma ex_load_disk:
  assumes "f (state_path ex_root ''r1'') = Some (state_text s)" and "storable s" and "st_configuration_digest s = ''d1''"
  shows "\<exists>h'. store_load ex_root ''r1'' (Some ''d1'') False (ex_disk f h) = (Inr (canonical s), ex_disk f h')"
proof -
  have "fst (load_sync ex_root ''r1'' (ex_disk f h)) = Inr (canonical s)"
    using assms(1) decode_state_text [OF assms(2)] by (simp add: load_sync_reads [OF ex_in_disk(3)] ex_in_disk)
  moreover have "\<exists>h'. snd (load_sync ex_root ''r1'' (ex_disk f h)) = ex_disk f h'"
    using assms(1) by (auto simp: ex_disk_def load_sync_def io_bind_def io_map_error_def fs_read_text_def fs_prim_def fault_of_def)
  moreover have "st_configuration_digest (canonical s) = ''d1''" using assms(3) by (simp add: canonical_def)
  ultimately show ?thesis
    by (cases "load_sync ex_root ''r1'' (ex_disk f h)")
      (auto simp: store_load_def io_bind_def validate_run_id_def ex_run_id_matches)
qed

section \<open>Approving an item\<close>

lemma in_files_run: "m (ma_files w) = (r, v) \<Longrightarrow> in_files m w = (r, w\<lparr>ma_files := v\<rparr>)"
  by (simp add: in_files_def zoom_def)

lemma ex_parts:
  "en_kernel ex_externals = ex_kernel" "en_now ex_externals = io_return ex_time" "en_sha ex_externals = (\<lambda>_. ''f'')"
  "en_float ex_externals = ex_format" "se_state_path ex_settings = ex_root"
  by (simp_all add: ex_externals_def ex_settings_def)

lemma ex_approved_id: "run_id ex_approved = ''r1''"
  by code_simp

lemma ex_approves:
  "\<exists>w'. dispatch_command (compose_application ex_externals ex_settings ex_config ex_root) (Approve ''r1'' ''b'' ''ann'')
      (ex_machine (ex_disk [state_path ex_root ''r1'' \<mapsto> state_text (ex_state Required), events_path ex_root ''r1'' \<mapsto> []] []))
    = (Inr (OutRun ex_approved), w')"
proof -
  let ?s = "state_path ex_root ''r1''" and ?e = "events_path ex_root ''r1''" and ?p = "report_path ex_root ''r1''"
  let ?f0 = "[?s \<mapsto> state_text (ex_state Required), ?e \<mapsto> []] :: path \<Rightarrow> string option"
  obtain fd l l' where lease: "acquire_cancellation_safe ex_kernel (open_run_lock ex_kernel ex_root ''r1'')
      (run_busy ''r1'') (run_failure ''r1'') ex_os = (Inr fd, l)" "release_cancellation_safe ex_kernel fd l = (Inr (), l')"
    using ex_lease by blast
  define f0 where "f0 = ?f0"
  obtain h1 where load: "store_load ex_root ''r1'' (Some ''d1'') False (ex_disk f0 []) = (Inr (canonical (ex_state Required)), ex_disk f0 h1)"
    using ex_load_disk [of f0 "ex_state Required" "[]", OF _ ex_storable] by (auto simp: ex_state_def f0_def)
  define f1 where "f1 = f0(?s \<mapsto> state_text ex_approved)"
  have "f0 (ex_temp ?s) = None" by (simp add: f0_def ex_temps_free)
  then obtain h2 where save: "store_save ex_root ex_approved (ex_disk f0 h1) = (Inr (), ex_disk f1 h2)"
    using ex_save_disk [OF ex_approved_id, of f0 h1] f1_def by blast
  let ?ev = "\<lparr>ev_timestamp = ex_time, ev_event = ''approval-recorded'', ev_work_item_id = Some ''b'',
      ev_details = [(''approved_by'', JStr ''ann'')]\<rparr>"
  have "f1 ?e = Some []" by (simp add: f1_def f0_def store_paths_distinct [THEN not_sym])
  then obtain t h3 where event: "store_append_event ex_root ''r1'' ?ev (ex_disk f1 h2) = (Inr (), ex_disk (f1(?e \<mapsto> t)) h3)"
    using ex_append [of f1 "[]" ?ev h2] by blast
  obtain content where render: "render ex_format ex_approved = Inr content" using ex_rendered by blast
  have "(f1(?e \<mapsto> t)) (ex_temp ?p) = None" by (simp add: f1_def f0_def ex_temps_free)
  then obtain h4 where written: "store_write_report ex_root ''r1'' content (ex_disk (f1(?e \<mapsto> t)) h3)
      = (Inr ?p, ex_disk (f1(?e \<mapsto> t, ?p \<mapsto> content)) h4)"
    using ex_report_disk [of "f1(?e \<mapsto> t)" content h3] by blast
  obtain a where approve: "approve (\<lambda>_. ''f'') (canonical (ex_state Required)) ''b'' ''ann'' ex_time = Inr (a, ex_approved)"
    using ex_approve by blast
  have digest: "cf_digest ex_config = ''d1''" by (simp add: ex_config_def)
  show ?thesis
    unfolding dispatch_command_def app_approve_def with_lease_def app_event_def write_report_def composed_simps ex_parts f0_def [symmetric]
    by (simp add: enter_run_lease_def enter_lease_def validate_run_id_def ex_run_id_matches lease ex_machine_def digest io_bind_def
        io_finally_def in_files_def in_rest_def zoom_def load approve save event render written exit_lease_def ex_approved_id
        del: store_paths)
qed

section \<open>A run with a finished item\<close>

lemma result_names:
  "\<not> secret_key ''work_item_id''" "\<not> secret_key ''thread_id''" "\<not> secret_key ''turn_id''"
  "\<not> secret_key ''final_response''" "\<not> secret_key ''sdk_items''" "\<not> secret_key ''usage''"
  "\<not> secret_key ''input_tokens''" "\<not> secret_key ''cached_input_tokens''" "\<not> secret_key ''output_tokens''"
  "\<not> secret_key ''duration_seconds''" "\<not> secret_key ''changed_paths''" "\<not> secret_key ''escalation_requested''"
  "\<not> secret_key ''error''"
  by code_simp+

lemma succeeded_value: "\<not> secret_value ''succeeded''"
  by code_simp

lemma ex_first_storable: "storable ex_first"
proof -
  have "redacted (run_state_to_dict ex_first)"
    by (simp add: to_dict_defs dict_to_dict_def sorted_items_def plain_names plain_value ex_time_text
        ex_objective_def ex_repository_def ex_item_def ex_route_def ex_state_def json_opt_def
        json_path_def str_path_def ex_first_def ex_result_def result_names succeeded_value plain_b)
  moreover have "run_state_ok ex_first"
    using ex_state_ok [of Automatic]
    by (simp add: run_state_ok_def ex_first_def values_ok_def dict_ok_def ex_result_def work_result_ok_def
        too_big_def too_small_def float_limit_def)
  ultimately show ?thesis by (simp add: storable_def) (simp add: ex_first_def ex_state_def)
qed

lemma ex_first_loaded:
  "keyed (canonical ex_first)" "results_of_items (canonical ex_first)" "run_id (canonical ex_first) = ''r1''"
  "finished (canonical ex_first) ''a''" "map_of (st_results (canonical ex_first)) ''a'' = Some (ex_result ''a'' Succeeded)"
  by (auto simp: keyed_def results_of_items_def finished_def is_pending_def canonical_def ex_first_def ex_state_def dict_ok_def
      ex_item_def ex_result_def ex_objective_def run_id_def sorted_items_def map_values_def canonical_result_def
      resumable_status_def split: if_splits)

lemma ex_first_result: "map_of (st_results ex_first) ''a'' = Some (ex_result ''a'' Succeeded)"
  by (simp add: ex_first_def)

end
