(* ===== verification/Arguments_Properties.thy ===== *)
theory Arguments_Properties
  imports Arguments
begin

text \<open>
  An accepted command line gives every attribute that the program reads, with values of the declared
  types and exactly one mode of \<open>run\<close>; and every such set of arguments can be written as a command
  line that is parsed back to it.
\<close>

section \<open>What a parse keeps\<close>

definition value_fits :: "option_spec \<Rightarrow> arg_value \<Rightarrow> bool" where
  "value_fits spec v =
     (case op_action spec of
        StoreText \<Rightarrow> v = NoValue \<or> (\<exists>t. v = TextValue t \<and> (\<forall>cs. op_choices spec = Some cs \<longrightarrow> t \<in> set cs))
      | StorePath \<Rightarrow> v = NoValue \<or> (\<exists>p. v = PathValue p)
      | StoreTrue \<Rightarrow> \<exists>b. v = FlagValue b
      | AppendPath \<Rightarrow> \<exists>ps. v = PathValues ps
      | ShowHelp \<Rightarrow> True)"

definition own_dests :: "grammar \<Rightarrow> string set" where
  "own_dests g = op_dest ` {spec \<in> set (gr_options g). op_action spec \<noteq> ShowHelp}
     \<union> set (gr_positionals g @ command_dests g)"

definition grammar_ok :: "grammar \<Rightarrow> bool" where
  "grammar_ok g \<longleftrightarrow> distinct (map op_dest (gr_options g) @ gr_positionals g @ command_dests g)
     \<and> (\<forall>spec \<in> set (gr_options g). op_action spec = StoreTrue \<longrightarrow> op_dest spec \<notin> set (gr_group g))"

definition option_ok :: "progress \<Rightarrow> option_spec \<Rightarrow> bool" where
  "option_ok st spec \<longleftrightarrow>
     (\<exists>v. pg_space st (op_dest spec) = Some v \<and> value_fits spec v
        \<and> (op_dest spec \<in> set (pg_seen st) \<longleftrightarrow> v \<noteq> default_value (op_action spec)))"

definition progress_ok :: "grammar \<Rightarrow> progress \<Rightarrow> bool" where
  "progress_ok g st \<longleftrightarrow>
     (\<forall>spec \<in> set (gr_options g). op_action spec \<noteq> ShowHelp \<longrightarrow> option_ok st spec)
     \<and> (\<forall>d \<in> set (gr_positionals g). d \<in> set (pg_left st) \<or> (\<exists>t. pg_space st d = Some (TextValue t)))
     \<and> set (pg_left st) \<subseteq> set (gr_positionals g)
     \<and> (\<forall>d \<in> set (gr_group g). \<forall>e \<in> set (gr_group g). d \<in> set (pg_seen st) \<longrightarrow> e \<in> set (pg_seen st) \<longrightarrow> d = e)
     \<and> set (pg_seen st) \<subseteq> op_dest ` set (gr_options g)
     \<and> dom (pg_space st) = own_dests g"

lemma same_dest:
  "grammar_ok g \<Longrightarrow> spec \<in> set (gr_options g) \<Longrightarrow> spec' \<in> set (gr_options g) \<Longrightarrow> op_dest spec = op_dest spec' \<Longrightarrow> spec = spec'"
  by (auto simp: grammar_ok_def distinct_map inj_on_def)

lemma other_dest: "grammar_ok g \<Longrightarrow> spec \<in> set (gr_options g) \<Longrightarrow> d \<in> set (gr_positionals g) \<Longrightarrow> op_dest spec \<noteq> d"
  by (auto simp: grammar_ok_def)

lemma value_fits_default: "value_fits spec (default_value (op_action spec))"
  by (cases "op_action spec") (auto simp: value_fits_def default_value_def)

lemma progress_begin:
  assumes "grammar_ok g"
  shows "progress_ok g (begin_parse g)"
proof -
  let ?specs = "filter (\<lambda>spec. op_action spec \<noteq> ShowHelp) (gr_options g)"
  let ?pairs = "map (\<lambda>spec. (op_dest spec, default_value (op_action spec))) ?specs
    @ map (\<lambda>dest. (dest, NoValue)) (gr_positionals g @ command_dests g)"
  have "distinct (map op_dest ?specs)" and "set (map op_dest ?specs) \<inter> set (gr_positionals g @ command_dests g) = {}"
    using assms by (auto simp: grammar_ok_def distinct_map_filter)
  then have dist: "distinct (map fst ?pairs)"
    using assms by (auto simp: grammar_ok_def comp_def image_image)
  have space: "pg_space (begin_parse g) = map_of ?pairs" by (simp add: begin_parse_def)
  have "pg_space (begin_parse g) (op_dest spec) = Some (default_value (op_action spec))"
    if "spec \<in> set (gr_options g)" "op_action spec \<noteq> ShowHelp" for spec
    unfolding space by (rule map_of_is_SomeI [OF dist]) (use that in auto)
  then have "option_ok (begin_parse g) spec" if "spec \<in> set (gr_options g)" "op_action spec \<noteq> ShowHelp" for spec
    using that by (simp add: option_ok_def value_fits_default) (simp add: begin_parse_def)
  moreover have "dom (pg_space (begin_parse g)) = own_dests g"
    unfolding space dom_map_of_conv_image_fst by (auto simp: own_dests_def image_image image_Un)
  ultimately show ?thesis by (simp add: progress_ok_def) (simp add: begin_parse_def)
qed

lemma progress_set:
  assumes "progress_ok g st" and "grammar_ok g" and "spec \<in> set (gr_options g)" and "op_action spec \<noteq> ShowHelp"
    and "value_fits spec v" and "v \<noteq> default_value (op_action spec)"
    and "op_dest spec \<in> set (gr_group g) \<Longrightarrow> list_ex (\<lambda>d. d \<noteq> op_dest spec \<and> d \<in> set (pg_seen st)) (gr_group g) \<Longrightarrow> False"
  shows "progress_ok g (st\<lparr>pg_space := (pg_space st)(op_dest spec \<mapsto> v), pg_seen := op_dest spec # pg_seen st\<rparr>)"
proof -
  have "option_ok (st\<lparr>pg_space := (pg_space st)(op_dest spec \<mapsto> v), pg_seen := op_dest spec # pg_seen st\<rparr>) spec'"
    if "spec' \<in> set (gr_options g)" "op_action spec' \<noteq> ShowHelp" for spec'
  proof (cases "op_dest spec' = op_dest spec")
    case True
    then have "spec' = spec" using same_dest assms(2,3) that(1) by blast
    then show ?thesis using assms(5,6) by (simp add: option_ok_def)
  next
    case False
    then show ?thesis using assms(1) that by (simp add: progress_ok_def option_ok_def)
  qed
  moreover have "op_dest spec \<in> own_dests g" using assms(3,4) by (auto simp: own_dests_def)
  moreover have exclusive: "\<forall>d \<in> set (gr_group g). \<forall>e \<in> set (gr_group g).
      d = op_dest spec \<or> d \<in> set (pg_seen st) \<longrightarrow> e = op_dest spec \<or> e \<in> set (pg_seen st) \<longrightarrow> d = e"
    using assms(1,7) unfolding progress_ok_def list_ex_iff by metis
  ultimately show ?thesis
    using assms(1) other_dest [OF assms(2,3)] exclusive unfolding progress_ok_def by (simp add: insert_absorb assms(3)) blast
qed

lemma store_option_ok:
  assumes "progress_ok g st" and "grammar_ok g" and "spec \<in> set (gr_options g)"
    and "op_action spec \<noteq> ShowHelp" and "op_action spec \<noteq> StoreTrue" and "store_option g spec value st = Parsed st'"
  shows "progress_ok g st'"
proof -
  have st': "st' = st\<lparr>pg_space := (pg_space st)(op_dest spec \<mapsto> stored_value (op_action spec) (pg_space st (op_dest spec)) value),
      pg_seen := op_dest spec # pg_seen st\<rparr>"
    and choice: "\<forall>cs. op_choices spec = Some cs \<longrightarrow> value \<in> set cs"
    and excl: "op_dest spec \<in> set (gr_group g) \<Longrightarrow> list_ex (\<lambda>d. d \<noteq> op_dest spec \<and> d \<in> set (pg_seen st)) (gr_group g) \<Longrightarrow> False"
    using assms(6) by (auto simp: store_option_def split: if_splits option.splits)
  show ?thesis
    unfolding st'
    by (rule progress_set [OF assms(1-4)])
      (use choice assms(4,5) excl in \<open>auto simp: stored_value_def value_fits_def default_value_def split: arg_action.splits\<close>)
qed

lemma consume_optional_ok:
  assumes "progress_ok g st" and "grammar_ok g" and "spec \<in> set (gr_options g)"
    and "consume_optional negative g spec text rest st = Parsed (rest', st')"
  shows "progress_ok g st'"
proof (cases "op_action spec = StoreTrue")
  case True
  then have "st' = st\<lparr>pg_space := (pg_space st)(op_dest spec \<mapsto> FlagValue True), pg_seen := op_dest spec # pg_seen st\<rparr>"
    using assms(4) by (auto simp: consume_optional_def split: if_splits)
  moreover have "value_fits spec (FlagValue True)" using True by (auto simp: value_fits_def)
  ultimately show ?thesis
    using progress_set [OF assms(1-3), of "FlagValue True"] True assms(2,3) by (simp add: default_value_def grammar_ok_def)
next
  case False
  then have "op_action spec \<noteq> ShowHelp \<and> (\<exists>value. store_option g spec value st = Parsed st')"
    using assms(4) by (auto simp: consume_optional_def Let_def split: arg_action.splits attached.splits parsed.splits list.splits if_splits)
  then show ?thesis using store_option_ok [OF assms(1-3)] False by blast
qed

lemma parse_optional_specs:
  assumes "parse_optional negative options arg = Some specs" and "(spec, text) \<in> set specs"
  shows "spec \<in> set options"
  using assms
  by (auto simp: parse_optional_def find_option_def option_tuples_def find_Some_iff split: if_splits option.splits)

lemma progress_positional:
  assumes "progress_ok g st" and "grammar_ok g" and "pg_left st = d # left"
  shows "progress_ok g (st\<lparr>pg_space := (pg_space st)(d \<mapsto> TextValue t), pg_left := left\<rparr>)"
proof -
  have d: "d \<in> set (gr_positionals g)" using assms(1,3) by (auto simp: progress_ok_def)
  then have "op_dest spec \<noteq> d" if "spec \<in> set (gr_options g)" for spec using other_dest [OF assms(2) that] by blast
  moreover have "d \<in> own_dests g" using d by (simp add: own_dests_def)
  ultimately show ?thesis using assms(1,3) unfolding progress_ok_def by (auto simp: option_ok_def)
qed

lemma progress_extra: "progress_ok g st \<Longrightarrow> progress_ok g (st\<lparr>pg_extras := x\<rparr>)"
  by (simp add: progress_ok_def option_ok_def)

text \<open>How an accepted list ends: at the end of the list, or with a subcommand that takes the rest.\<close>

definition chosen :: "(string \<Rightarrow> bool) \<Rightarrow> grammar \<Rightarrow> progress \<Rightarrow> progress \<Rightarrow> bool" where
  "chosen negative g st final \<longleftrightarrow>
     (\<exists>name sub rest space extras. map_of (gr_commands g) name = Some sub
        \<and> parse_known negative sub rest (begin_parse sub) = Parsed (space, extras)
        \<and> final = st\<lparr>pg_space := (pg_space st)(gr_command g \<mapsto> TextValue name) ++ space,
            pg_seen := gr_command g # pg_seen st, pg_extras := pg_extras st @ extras\<rparr>)"

lemma parse_known_ends:
  assumes "parse_known negative g args st = Parsed (ns, extras)" and "progress_ok g st" and "grammar_ok g"
  shows "\<exists>st' final. progress_ok g st' \<and> (final = st' \<or> chosen negative g st' final)
    \<and> finish_parse g final = Parsed (ns, extras)"
  using assms
proof (induction negative g args st rule: parse_known.induct)
  case (1 negative g st)
  then show ?case by auto
next
  case (2 negative g arg rest st)
  note run = "2.prems"(1) and ok = "2.prems"(2) and g = "2.prems"(3)
  show ?case
  proof (cases "parse_optional negative (gr_options g) arg")
    case None
    show ?thesis
    proof (cases "pg_left st")
      case (Cons d left)
      from "2.IH"(3) [OF None Cons _ progress_positional [OF ok g Cons] g] run None Cons show ?thesis by simp
    next
      case Nil
      show ?thesis
      proof (cases "gr_commands g = []")
        case True
        from "2.IH"(1) [OF None Nil True _ progress_extra [OF ok] g] run None Nil True show ?thesis by simp
      next
        case False
        then obtain sub where sub: "map_of (gr_commands g) arg = Some sub"
          using run None Nil by (auto split: option.splits)
        then obtain space more where parsed: "parse_known negative sub rest (begin_parse sub) = Parsed (space, more)"
          using run None Nil False by (auto split: parsed.splits)
        let ?final = "st\<lparr>pg_space := (pg_space st)(gr_command g \<mapsto> TextValue arg) ++ space,
            pg_seen := gr_command g # pg_seen st, pg_extras := pg_extras st @ more\<rparr>"
        have "finish_parse g ?final = Parsed (ns, extras)" using run None Nil False sub parsed by simp
        moreover have "chosen negative g st ?final" using sub parsed unfolding chosen_def by blast
        ultimately show ?thesis using ok by blast
      qed
    qed
  next
    case (Some specs)
    show ?thesis
    proof (cases specs)
      case Nil
      from "2.IH"(4) [OF Some Nil _ progress_extra [OF ok] g] run Some Nil show ?thesis by simp
    next
      case (Cons p ps)
      then obtain spec att where specs: "specs = [(spec, att)]" using run Some by (cases p; cases ps) auto
      then obtain rest' st' where used: "consume_optional negative g spec att rest st = Parsed (rest', st')"
        using run Some by (auto split: parsed.splits)
      have "spec \<in> set (gr_options g)" using parse_optional_specs [OF Some] specs by simp
      note ok' = consume_optional_ok [OF ok g this used]
      have "parse_known negative g rest' st' = Parsed (ns, extras)" using run Some specs used by simp
      from "2.IH"(5) [OF Some specs refl refl used refl this ok' g] show ?thesis by simp
    qed
  qed
qed

text \<open>What is known of the namespace of an accepted list.\<close>

definition option_value :: "namespace \<Rightarrow> option_spec \<Rightarrow> bool" where
  "option_value ns spec \<longleftrightarrow>
     (\<exists>v. ns (op_dest spec) = Some v \<and> value_fits spec v \<and> (op_required spec \<longrightarrow> v \<noteq> default_value (op_action spec)))"

definition was_given :: "namespace \<Rightarrow> string \<Rightarrow> bool" where
  "was_given ns d \<longleftrightarrow> ns d \<noteq> Some NoValue"

definition namespace_ok :: "grammar \<Rightarrow> namespace \<Rightarrow> bool" where
  "namespace_ok g ns \<longleftrightarrow>
     (\<forall>spec \<in> set (gr_options g). op_action spec \<noteq> ShowHelp \<longrightarrow> option_value ns spec)
     \<and> (\<forall>d \<in> set (gr_positionals g). \<exists>t. ns d = Some (TextValue t))
     \<and> (gr_group g \<noteq> [] \<longrightarrow> (\<exists>!d. d \<in> set (gr_group g) \<and> was_given ns d))"

text \<open>A group has text options of its own grammar.\<close>

definition group_ok :: "grammar \<Rightarrow> bool" where
  "group_ok g \<longleftrightarrow> (\<forall>d \<in> set (gr_group g). \<exists>spec \<in> set (gr_options g). op_dest spec = d \<and> op_action spec = StoreText)"

lemma finished_namespace:
  assumes "progress_ok g st" and "group_ok g" and "finish_parse g final = Parsed (ns, extras)"
    and "set (pg_seen st) = set (pg_seen final) - set (command_dests g)" and "set (command_dests g) \<inter> op_dest ` set (gr_options g) = {}"
    and "pg_left final = pg_left st"
    and "\<And>d. d \<in> op_dest ` {spec \<in> set (gr_options g). op_action spec \<noteq> ShowHelp} \<union> set (gr_positionals g) \<Longrightarrow> ns d = pg_space st d"
  shows "namespace_ok g ns"
proof -
  have over: "list_all (\<lambda>spec. op_required spec \<longrightarrow> op_dest spec \<in> set (pg_seen final)) (gr_options g)" "pg_left final = []"
    "gr_group g = [] \<or> list_ex (\<lambda>d. d \<in> set (pg_seen final)) (gr_group g)"
    using assms(3) by (auto simp: finish_parse_def split: if_splits)
  have seen: "op_dest spec \<in> set (pg_seen final) \<longleftrightarrow> op_dest spec \<in> set (pg_seen st)" if "spec \<in> set (gr_options g)" for spec
    using assms(4,5) that by blast
  have opt: "option_value ns spec" if "spec \<in> set (gr_options g)" "op_action spec \<noteq> ShowHelp" for spec
  proof -
    have "option_ok st spec" using assms(1) that by (simp add: progress_ok_def)
    moreover have "op_required spec \<Longrightarrow> op_dest spec \<in> set (pg_seen st)" using over(1) seen that(1) by (auto simp: list_all_iff)
    moreover have "ns (op_dest spec) = pg_space st (op_dest spec)" using assms(7) that by blast
    ultimately show ?thesis by (auto simp: option_ok_def option_value_def)
  qed
  have given: "was_given ns d \<longleftrightarrow> d \<in> set (pg_seen st)" if "d \<in> set (gr_group g)" for d
  proof -
    have "\<exists>spec \<in> set (gr_options g). op_dest spec = d \<and> op_action spec = StoreText"
      using assms(2) that by (simp add: group_ok_def)
    then obtain spec where spec: "spec \<in> set (gr_options g)" "op_dest spec = d" "op_action spec = StoreText" by blast
    then have "option_ok st spec" using assms(1) by (simp add: progress_ok_def)
    moreover have "ns d = pg_space st d" by (rule assms(7)) (use spec in force)
    ultimately show ?thesis using spec by (auto simp: option_ok_def was_given_def default_value_def)
  qed
  have "\<exists>!d. d \<in> set (gr_group g) \<and> was_given ns d" if "gr_group g \<noteq> []"
  proof -
    have "\<exists>d. d \<in> set (gr_group g) \<and> d \<in> set (pg_seen final)" using over(3) that by (auto simp: list_ex_iff)
    then obtain d where d: "d \<in> set (gr_group g)" "d \<in> set (pg_seen final)" by blast
    moreover obtain spec where "spec \<in> set (gr_options g)" "op_dest spec = d"
      using bspec [OF assms(2) [unfolded group_ok_def] d(1)] by blast
    ultimately have "d \<in> set (pg_seen st)" using seen by blast
    then have "\<exists>d. d \<in> set (gr_group g) \<and> was_given ns d" using d(1) given by blast
    moreover have "d = e" if "d \<in> set (gr_group g)" "e \<in> set (gr_group g)" "was_given ns d" "was_given ns e" for d e
      using assms(1) that given unfolding progress_ok_def by blast
    ultimately show ?thesis by blast
  qed
  moreover have "\<exists>t. ns d = Some (TextValue t)" if "d \<in> set (gr_positionals g)" for d
    using assms(1,6,7) over(2) that by (auto simp: progress_ok_def)
  ultimately show ?thesis using opt by (simp add: namespace_ok_def)
qed

lemma leaf_namespace:
  assumes "parse_known negative g args (begin_parse g) = Parsed (ns, extras)" and "grammar_ok g" and "group_ok g"
    and "gr_commands g = []"
  shows "namespace_ok g ns \<and> dom ns = own_dests g"
proof -
  obtain st' final where st: "progress_ok g st'" and final: "final = st' \<or> chosen negative g st' final"
    and fin: "finish_parse g final = Parsed (ns, extras)"
    using parse_known_ends [OF assms(1) progress_begin [OF assms(2)] assms(2)] by blast
  have "final = st'" using final assms(4) by (simp add: chosen_def)
  moreover have "ns = pg_space final" using fin by (auto simp: finish_parse_def split: if_splits)
  ultimately show ?thesis
    using finished_namespace [OF st assms(3) fin] st assms(4) by (simp add: command_dests_def progress_ok_def)
qed

lemma command_namespace:
  assumes "parse_known negative g args (begin_parse g) = Parsed (ns, extras)" and "grammar_ok g" and "group_ok g"
    and "gr_commands g \<noteq> []" and "own_dests g \<inter> S = {}"
    and "\<And>name sub rest space extras. (name, sub) \<in> set (gr_commands g) \<Longrightarrow>
      parse_known negative sub rest (begin_parse sub) = Parsed (space, extras) \<Longrightarrow> dom space \<subseteq> S"
  shows "\<exists>name sub rest space more. map_of (gr_commands g) name = Some sub
    \<and> parse_known negative sub rest (begin_parse sub) = Parsed (space, more)
    \<and> ns (gr_command g) = Some (TextValue name) \<and> (\<forall>d \<in> dom space. ns d = space d) \<and> namespace_ok g ns
    \<and> dom ns \<subseteq> own_dests g \<union> S"
proof -
  obtain st' final where st: "progress_ok g st'" and final: "final = st' \<or> chosen negative g st' final"
    and fin: "finish_parse g final = Parsed (ns, extras)"
    using parse_known_ends [OF assms(1) progress_begin [OF assms(2)] assms(2)] by blast
  have cmd: "gr_command g \<notin> op_dest ` set (gr_options g)" "gr_command g \<notin> set (gr_positionals g)" "command_dests g = [gr_command g]"
    using assms(2,4) by (auto simp: grammar_ok_def command_dests_def)
  have own: "gr_command g \<in> own_dests g" using cmd(3) by (simp add: own_dests_def)
  have "set (pg_seen st') \<subseteq> op_dest ` set (gr_options g)" using st by (simp add: progress_ok_def)
  then have new: "gr_command g \<notin> set (pg_seen st')" using cmd(1) by blast
  have "final \<noteq> st'" using fin new assms(4) by (auto simp: finish_parse_def split: if_splits)
  then obtain name sub rest space more where sub: "map_of (gr_commands g) name = Some sub"
    and parsed: "parse_known negative sub rest (begin_parse sub) = Parsed (space, more)"
    and final: "final = st'\<lparr>pg_space := (pg_space st')(gr_command g \<mapsto> TextValue name) ++ space,
        pg_seen := gr_command g # pg_seen st', pg_extras := pg_extras st' @ more\<rparr>"
    using final by (auto simp: chosen_def)
  have space: "dom space \<subseteq> S" using assms(6) [OF map_of_SomeD [OF sub] parsed] .
  have ns: "ns = (pg_space st')(gr_command g \<mapsto> TextValue name) ++ space"
    using fin final by (auto simp: finish_parse_def split: if_splits)
  have outside: "space d = None" if "d \<in> own_dests g" for d using space assms(5) that by blast
  have "namespace_ok g ns"
    by (rule finished_namespace [OF st assms(3) fin])
      (use new cmd outside in \<open>auto simp: final ns map_add_def own_dests_def\<close>)
  moreover have "ns (gr_command g) = Some (TextValue name)" using outside [OF own] by (simp add: ns map_add_def)
  moreover have "\<forall>d \<in> dom space. ns d = space d" by (auto simp: ns map_add_def)
  moreover have "dom ns \<subseteq> own_dests g \<union> S"
    using st space own by (auto simp: ns progress_ok_def)
  ultimately show ?thesis using sub parsed by blast
qed

lemma namespace_ok_agree:
  assumes "namespace_ok g space" and "group_ok g" and "dom space = own_dests g" and "\<forall>d \<in> dom space. ns d = space d"
  shows "namespace_ok g ns"
proof -
  have opt: "ns (op_dest spec) = space (op_dest spec)" if "spec \<in> set (gr_options g)" "op_action spec \<noteq> ShowHelp" for spec
    using assms(3,4) that by (auto simp: own_dests_def)
  then have "was_given ns d \<longleftrightarrow> was_given space d" if "d \<in> set (gr_group g)" for d
    using bspec [OF assms(2) [unfolded group_ok_def] that] by (force simp: was_given_def)
  moreover have "ns d = space d" if "d \<in> set (gr_positionals g)" for d
    using assms(3,4) that by (simp add: own_dests_def)
  ultimately show ?thesis
    using assms(1) opt unfolding namespace_ok_def option_value_def by (simp cong: conj_cong)
qed

section \<open>The grammar of the program\<close>

definition sub_dests :: "string set" where
  "sub_dests = {''config_command'', ''project'', ''task'', ''prompt'', ''objective'', ''run_id'', ''affected_paths'',
     ''work_item_id'', ''approved_by'', ''acknowledge_configuration_change''}"

definition config_parser :: grammar where
  "config_parser = Grammar [help_option] [] [] ''config_command'' [(''template'', leaf [] [] []), (''validate'', leaf [] [] [])]"

lemma program_grammar:
  "grammar_ok build_parser" "group_ok build_parser" "own_dests build_parser \<inter> sub_dests = {}"
  "gr_command build_parser = ''command''" "gr_commands build_parser \<noteq> []"
  "list_all (\<lambda>(name, sub). grammar_ok sub \<and> group_ok sub \<and> own_dests sub \<subseteq> sub_dests
     \<and> (gr_commands sub = [] \<or> name = ''config'' \<and> sub = config_parser)) (gr_commands build_parser)"
  by code_simp+

lemma config_grammar:
  "grammar_ok config_parser" "group_ok config_parser" "gr_command config_parser = ''config_command''" "gr_commands config_parser \<noteq> []"
  "own_dests config_parser = {''config_command''}"
  "list_all (\<lambda>(name, sub). grammar_ok sub \<and> group_ok sub \<and> own_dests sub = {} \<and> gr_commands sub = []) (gr_commands config_parser)"
  by code_simp+

lemma config_namespace:
  assumes "parse_known negative config_parser args (begin_parse config_parser) = Parsed (ns, extras)"
  shows "dom ns \<subseteq> {''config_command''} \<and> (\<exists>t. ns ''config_command'' = Some (TextValue t))"
proof -
  have leaf: "dom space \<subseteq> {}" if "(name, sub) \<in> set (gr_commands config_parser)"
    "parse_known negative sub rest (begin_parse sub) = Parsed (space, extras)" for name sub rest space extras
  proof -
    have "grammar_ok sub \<and> group_ok sub \<and> own_dests sub = {} \<and> gr_commands sub = []"
      using config_grammar(6) that(1) by (auto simp: list_all_iff)
    then show ?thesis using leaf_namespace [OF that(2)] by simp
  qed
  have "\<exists>name sub rest space more. map_of (gr_commands config_parser) name = Some sub
      \<and> parse_known negative sub rest (begin_parse sub) = Parsed (space, more)
      \<and> ns (gr_command config_parser) = Some (TextValue name) \<and> (\<forall>d \<in> dom space. ns d = space d) \<and> namespace_ok config_parser ns
      \<and> dom ns \<subseteq> own_dests config_parser \<union> {}"
    by (rule command_namespace [OF assms config_grammar(1,2,4) _ leaf]) auto
  then show ?thesis unfolding config_grammar(3,5) by blast
qed

lemma sub_namespace:
  assumes "(name, sub) \<in> set (gr_commands build_parser)"
    and "parse_known negative sub rest (begin_parse sub) = Parsed (space, extras)"
  shows "dom space \<subseteq> sub_dests
    \<and> (if name = ''config'' then \<exists>t. space ''config_command'' = Some (TextValue t)
       else group_ok sub \<and> namespace_ok sub space \<and> dom space = own_dests sub)"
proof -
  have sub: "grammar_ok sub" "group_ok sub" "own_dests sub \<subseteq> sub_dests"
    "gr_commands sub = [] \<or> name = ''config'' \<and> sub = config_parser"
    using program_grammar(6) assms(1) by (auto simp: list_all_iff)
  show ?thesis
  proof (cases "gr_commands sub = []")
    case True
    have "name \<noteq> ''config''" 
      using assms(1) True by (auto simp: build_parser_def leaf_def)
    then show ?thesis using leaf_namespace [OF assms(2) sub(1,2) True] sub(2,3) by simp
  next
    case False
    then have name: "name = ''config''" and "sub = config_parser" using sub(4) by simp_all
    then have "dom space \<subseteq> {''config_command''} \<and> (\<exists>t. space ''config_command'' = Some (TextValue t))"
      using assms(2) by (intro config_namespace) simp
    moreover have "''config_command'' \<in> sub_dests" by (simp add: sub_dests_def)
    ultimately show ?thesis using name by auto
  qed
qed

text \<open>The namespace of an accepted command line, command by command.\<close>

lemma accepted_namespace:
  assumes "parse_args negative build_parser argv = Parsed ns"
  shows "namespace_ok build_parser ns \<and> (\<exists>name sub. ns ''command'' = Some (TextValue name) \<and> map_of (gr_commands build_parser) name = Some sub
    \<and> (if name = ''config'' then \<exists>t. ns ''config_command'' = Some (TextValue t) else namespace_ok sub ns))"
proof -
  obtain extras where "parse_known negative build_parser argv (begin_parse build_parser) = Parsed (ns, extras)"
    using assms by (auto simp: parse_args_def split: parsed.splits if_splits)
  from command_namespace [OF this program_grammar(1,2,5,3) conjunct1 [OF sub_namespace]]
  have "\<exists>name sub rest space more. map_of (gr_commands build_parser) name = Some sub
      \<and> parse_known negative sub rest (begin_parse sub) = Parsed (space, more)
      \<and> ns (gr_command build_parser) = Some (TextValue name) \<and> (\<forall>d \<in> dom space. ns d = space d) \<and> namespace_ok build_parser ns
      \<and> dom ns \<subseteq> own_dests build_parser \<union> sub_dests" .
  then obtain name sub rest space more where sub: "map_of (gr_commands build_parser) name = Some sub"
    and parsed: "parse_known negative sub rest (begin_parse sub) = Parsed (space, more)"
    and ns: "ns ''command'' = Some (TextValue name)" "\<forall>d \<in> dom space. ns d = space d" "namespace_ok build_parser ns"
    unfolding program_grammar(4) by blast
  note space = sub_namespace [OF map_of_SomeD [OF sub] parsed]
  have "if name = ''config'' then \<exists>t. ns ''config_command'' = Some (TextValue t) else namespace_ok sub ns"
    using space ns(2) namespace_ok_agree [of sub space ns] by (auto split: if_splits simp: domIff)
  then show ?thesis using sub ns by blast
qed

lemma text_values:
  assumes "option_value ns spec" and "op_action spec = StoreText"
  shows "op_required spec \<Longrightarrow> \<exists>t. text_at ns (op_dest spec) = Some t"
    and "was_given ns (op_dest spec) \<longleftrightarrow> text_at ns (op_dest spec) \<noteq> None"
    and "text_at ns (op_dest spec) = Some t \<Longrightarrow> op_choices spec = Some cs \<Longrightarrow> t \<in> set cs"
  using assms by (auto simp: option_value_def value_fits_def default_value_def text_at_def was_given_def)

lemma path_values:
  "option_value ns spec \<Longrightarrow> op_action spec = StorePath \<Longrightarrow> op_required spec \<Longrightarrow> \<exists>q. path_at ns (op_dest spec) = Some q"
  by (auto simp: option_value_def value_fits_def default_value_def path_at_def)

lemma leaf_values:
  assumes "namespace_ok (leaf options positionals exclusive) ns" and "list_all (\<lambda>spec. op_action spec \<noteq> ShowHelp) options"
  shows "\<forall>spec \<in> set options. option_value ns spec" and "\<forall>d \<in> set positionals. \<exists>t. text_at ns d = Some t"
    and "exclusive \<noteq> [] \<longrightarrow> (\<exists>!d. d \<in> set exclusive \<and> was_given ns d)"
  using assms by (auto simp: namespace_ok_def leaf_def list_all_iff text_at_def)

definition command_complete :: "command \<Rightarrow> bool" where
  "command_complete c \<longleftrightarrow>
     (\<forall>project task objective prompt rid affected.
        c = Run project task objective prompt rid affected \<longrightarrow> (task = None) \<noteq> (objective = None))"

lemma parser_simps:
  "op_action (required spec) = op_action spec" "op_dest (required spec) = op_dest spec" "op_required (required spec)"
  "op_action (add_option name dest action) = action" "op_dest (add_option name dest action) = dest"
  "op_choices (add_option name dest action) = None" "op_choices (required spec) = op_choices spec"
  "op_action project_argument = StorePath" "op_dest project_argument = ''project''" "op_required project_argument"
  "op_action affected_paths_argument = AppendPath"
  by (simp_all add: required_def add_option_def project_argument_def affected_paths_argument_def)

lemma accepted_command:
  assumes "parse_args negative build_parser argv = Parsed ns"
  shows "\<exists>c. command_of ns = Some c \<and> command_complete c"
proof -
  obtain name sub where cmd: "ns ''command'' = Some (TextValue name)" "map_of (gr_commands build_parser) name = Some sub"
    and config: "name = ''config'' \<Longrightarrow> \<exists>t. ns ''config_command'' = Some (TextValue t)"
    and leaf: "name \<noteq> ''config'' \<Longrightarrow> namespace_ok sub ns"
    using accepted_namespace [OF assms] by (auto split: if_splits)
  have name: "text_at ns ''command'' = Some name" using cmd(1) by (simp add: text_at_def)
  consider "name = ''config''" | "name = ''version''" | "name = ''models''" | "name = ''route''" | "name = ''plan''" | "name = ''run''"
    | "name = ''status''" | "name = ''approve''" | "name = ''resume''" | "name = ''report''"
    using cmd(2) by (auto simp: build_parser_def split: if_splits)
  then show ?thesis
  proof cases
    case 1
    then show ?thesis using name config by (auto simp: command_of_def command_complete_def text_at_def)
  next
    case 4
    have "sub = leaf [project_argument, required (add_option ''--task'' ''task'' StoreText),
        required (add_option ''--prompt'' ''prompt'' StoreText), affected_paths_argument] [] []"
      using cmd(2) 4 by (simp add: build_parser_def)
    note vals = leaf_values(1) [OF leaf [unfolded this]]
    have "(\<exists>q. path_at ns ''project'' = Some q) \<and> (\<exists>x. text_at ns ''task'' = Some x) \<and> (\<exists>y. text_at ns ''prompt'' = Some y)"
      using vals 4 text_values(1) [of ns "required (add_option ''--task'' ''task'' StoreText)"]
        text_values(1) [of ns "required (add_option ''--prompt'' ''prompt'' StoreText)"] path_values [of ns project_argument]
      by (simp add: parser_simps)
    then show ?thesis using 4 name by (auto simp: command_of_def command_complete_def)
  next
    case 5
    have "sub = leaf [project_argument, required (add_option ''--objective'' ''objective'' StoreText),
        add_option ''--run-id'' ''run_id'' StoreText] [] []"
      using cmd(2) 5 by (simp add: build_parser_def)
    note vals = leaf_values(1) [OF leaf [unfolded this]]
    have "(\<exists>q. path_at ns ''project'' = Some q) \<and> (\<exists>x. text_at ns ''objective'' = Some x)"
      using vals 5 text_values(1) [of ns "required (add_option ''--objective'' ''objective'' StoreText)"]
        path_values [of ns project_argument]
      by (simp add: parser_simps)
    then show ?thesis using 5 name by (auto simp: command_of_def command_complete_def)
  next
    case 6
    have "sub = leaf [project_argument, add_option ''--task'' ''task'' StoreText,
        add_option ''--objective'' ''objective'' StoreText, add_option ''--prompt'' ''prompt'' StoreText,
        add_option ''--run-id'' ''run_id'' StoreText, affected_paths_argument] [] [''task'', ''objective'']"
      using cmd(2) 6 by (simp add: build_parser_def)
    note vals = leaf_values(1,3) [OF leaf [unfolded this]]
    have "\<exists>q. path_at ns ''project'' = Some q"
      using vals(1) 6 path_values [of ns project_argument] by (simp add: parser_simps)
    moreover have "was_given ns ''task'' \<longleftrightarrow> text_at ns ''task'' \<noteq> None" and "was_given ns ''objective'' \<longleftrightarrow> text_at ns ''objective'' \<noteq> None"
      using vals(1) 6 text_values(2) [of ns "add_option ''--task'' ''task'' StoreText"]
        text_values(2) [of ns "add_option ''--objective'' ''objective'' StoreText"]
      by (simp_all add: parser_simps)
    moreover have "was_given ns ''task'' \<noteq> was_given ns ''objective''"
    proof -
      have "\<exists>!d. d \<in> {''task'', ''objective''} \<and> was_given ns d" using vals(2) 6 by (simp add: parser_simps)
      then show ?thesis by auto
    qed
    ultimately show ?thesis using 6 name by (auto simp: command_of_def command_complete_def)
  next
    case 7
    have "sub = leaf [] [''run_id''] []" using cmd(2) 7 by (simp add: build_parser_def)
    from leaf_values(2) [OF leaf [unfolded this]] 7 show ?thesis using name by (auto simp: command_of_def command_complete_def)
  next
    case 8
    have "sub = leaf [required (add_option ''--approved-by'' ''approved_by'' StoreText)] [''run_id'', ''work_item_id''] []"
      using cmd(2) 8 by (simp add: build_parser_def)
    note vals = leaf_values(1,2) [OF leaf [unfolded this]]
    have "\<exists>x. text_at ns ''approved_by'' = Some x"
      using vals(1) 8 text_values(1) [of ns "required (add_option ''--approved-by'' ''approved_by'' StoreText)"]
      by (simp add: parser_simps)
    then show ?thesis using vals(2) 8 name by (auto simp: command_of_def command_complete_def parser_simps)
  next
    case 9
    have "sub = leaf [add_option ''--acknowledge-configuration-change'' ''acknowledge_configuration_change'' StoreTrue] [''run_id''] []"
      using cmd(2) 9 by (simp add: build_parser_def)
    from leaf_values(2) [OF leaf [unfolded this]] 9 show ?thesis
      using name by (auto simp: command_of_def command_complete_def parser_simps)
  next
    case 10
    have "sub = leaf [] [''run_id''] []" using cmd(2) 10 by (simp add: build_parser_def)
    from leaf_values(2) [OF leaf [unfolded this]] 10 show ?thesis using name by (auto simp: command_of_def command_complete_def)
  qed (use name in \<open>auto simp: command_of_def command_complete_def\<close>)
qed

section \<open>Writing a command line\<close>

definition equals_word :: "string \<Rightarrow> string \<Rightarrow> string" where
  "equals_word name value = name @ ''='' @ value"

definition option_words :: "string \<Rightarrow> string option \<Rightarrow> string list" where
  "option_words name value = (case value of None \<Rightarrow> [] | Some v \<Rightarrow> [equals_word name v])"

definition command_words :: "command \<Rightarrow> string list" where
  "command_words c =
     (case c of
        ConfigTemplate \<Rightarrow> [''config'', ''template'']
      | ConfigValidate \<Rightarrow> [''config'', ''validate'']
      | Version \<Rightarrow> [''version'']
      | Models \<Rightarrow> [''models'']
      | Route project task prompt affected \<Rightarrow>
          [''route'', equals_word ''--project'' (str_path project), equals_word ''--task'' task, equals_word ''--prompt'' prompt]
          @ map (\<lambda>q. equals_word ''--affected-path'' (str_path q)) affected
      | Plan project objective rid \<Rightarrow>
          [''plan'', equals_word ''--project'' (str_path project), equals_word ''--objective'' objective]
          @ option_words ''--run-id'' rid
      | Run project task objective prompt rid affected \<Rightarrow>
          [''run'', equals_word ''--project'' (str_path project)] @ option_words ''--task'' task
          @ option_words ''--objective'' objective @ option_words ''--prompt'' prompt @ option_words ''--run-id'' rid
          @ map (\<lambda>q. equals_word ''--affected-path'' (str_path q)) affected
      | Status rid \<Rightarrow> [''status'', rid]
      | Approve rid wid by_whom \<Rightarrow> [''approve'', rid, wid, equals_word ''--approved-by'' by_whom]
      | Resume rid acknowledge \<Rightarrow>
          [''resume'', rid] @ (if acknowledge then [''--acknowledge-configuration-change''] else [])
      | Report rid \<Rightarrow> [''report'', rid])"

definition command_line :: "cli_args \<Rightarrow> string list" where
  "command_line args =
     option_words ''--config'' (map_option str_path (ca_config args)) @ (if ca_json args then [''--json''] else [])
     @ option_words ''--auth-mode'' (ca_auth_mode args)
     @ option_words ''--state-path'' (map_option str_path (ca_state_path args))
     @ option_words ''--codex-bin'' (ca_codex_bin args) @ command_words (ca_command args)"

text \<open>An argument that is not taken for an option.\<close>

definition undashed :: "string \<Rightarrow> bool" where
  "undashed s \<longleftrightarrow> s = [] \<or> hd s \<noteq> CHR ''-''"

definition writable_command :: "command \<Rightarrow> bool" where
  "writable_command c =
     (case c of
        Route project task prompt affected \<Rightarrow> path_ok project \<and> list_all path_ok affected
      | Plan project objective rid \<Rightarrow> path_ok project
      | Run project task objective prompt rid affected \<Rightarrow>
          path_ok project \<and> list_all path_ok affected \<and> (task = None) \<noteq> (objective = None)
      | Status rid \<Rightarrow> undashed rid
      | Approve rid wid by_whom \<Rightarrow> undashed rid \<and> undashed wid
      | Resume rid acknowledge \<Rightarrow> undashed rid
      | Report rid \<Rightarrow> undashed rid
      | _ \<Rightarrow> True)"

definition writable :: "cli_args \<Rightarrow> bool" where
  "writable args \<longleftrightarrow>
     (\<forall>q. ca_config args = Some q \<longrightarrow> path_ok q) \<and> (\<forall>q. ca_state_path args = Some q \<longrightarrow> path_ok q)
     \<and> (\<forall>m. ca_auth_mode args = Some m \<longrightarrow> m \<in> set (map auth_mode_value auth_modes))
     \<and> writable_command (ca_command args)"

section \<open>Parsing what was written\<close>

definition equals_free :: "option_spec list \<Rightarrow> bool" where
  "equals_free options \<longleftrightarrow> list_all (\<lambda>spec. list_all (\<lambda>n. CHR ''='' \<notin> set n) (op_names spec)) options"

lemma equals_parts:
  assumes "CHR ''='' \<notin> set name"
  shows "name_part (equals_word name v) = name" and "equals_part (equals_word name v) = AfterEquals v"
  using assms by (simp_all add: name_part_def equals_part_def equals_word_def takeWhile_append dropWhile_append split: list.splits)

lemma parse_equals_word:
  assumes "find_option options name = Some spec" and "equals_free options" and "CHR ''='' \<notin> set name"
    and "starts_with ''--'' name"
  shows "parse_optional negative options (equals_word name v) = Some [(spec, AfterEquals v)]"
proof -
  have "find_option options (equals_word name v) = None"
  proof -
    have "CHR ''='' \<in> set (equals_word name v)" by (simp add: equals_word_def)
    then have "equals_word name v \<notin> set (op_names spec)" if "spec \<in> set options" for spec
      using assms(2) that by (auto simp: equals_free_def list_all_iff)
    then show ?thesis by (simp add: find_option_def find_None_iff)
  qed
  moreover have "equals_word name v \<noteq> []" "hd (equals_word name v) = CHR ''-''" "length (equals_word name v) \<noteq> 1"
    using assms(4) by (auto simp: equals_word_def starts_with_iff)
  ultimately show ?thesis
    using assms(1) equals_parts [OF assms(3), of v] by (simp add: parse_optional_def)
qed

lemma parse_equals:
  assumes "find_option (gr_options g) name = Some spec" and "equals_free (gr_options g)" and "CHR ''='' \<notin> set name"
    and "starts_with ''--'' name" and "op_action spec \<notin> {ShowHelp, StoreTrue}"
    and "store_option g spec v st = Parsed st'"
  shows "parse_known negative g (equals_word name v # rest) st = parse_known negative g rest st'"
  using assms(5,6) parse_equals_word [OF assms(1-4), of negative v]
  by (cases "op_action spec") (simp_all add: consume_optional_def)

declare parse_known.simps(2) [simp del]

definition put :: "string \<Rightarrow> arg_value \<Rightarrow> progress \<Rightarrow> progress" where
  "put d v st = st\<lparr>pg_space := (pg_space st)(d \<mapsto> v), pg_seen := d # pg_seen st\<rparr>"

lemma put_simps [simp]:
  "pg_space (put d v st) = (pg_space st)(d \<mapsto> v)" "pg_seen (put d v st) = d # pg_seen st"
  "pg_left (put d v st) = pg_left st" "pg_extras (put d v st) = pg_extras st"
  by (simp_all add: put_def)

text \<open>An option that may be given: it is known, has no choices, and no other of its group was given.\<close>

definition acceptable :: "grammar \<Rightarrow> string \<Rightarrow> option_spec \<Rightarrow> progress \<Rightarrow> bool" where
  "acceptable g name spec st \<longleftrightarrow>
     find_option (gr_options g) name = Some spec \<and> equals_free (gr_options g) \<and> CHR ''='' \<notin> set name
     \<and> starts_with ''--'' name \<and> op_action spec \<notin> {ShowHelp, StoreTrue}
     \<and> (op_dest spec \<in> set (gr_group g) \<longrightarrow> \<not> list_ex (\<lambda>d. d \<noteq> op_dest spec \<and> d \<in> set (pg_seen st)) (gr_group g))"

lemma parse_word:
  assumes "acceptable g name spec st" and "op_choices spec = None \<or> v \<in> set (the (op_choices spec))"
  shows "parse_known negative g (equals_word name v # rest) st
    = parse_known negative g rest (put (op_dest spec) (stored_value (op_action spec) (pg_space st (op_dest spec)) v) st)"
  using assms by (intro parse_equals) (auto simp: acceptable_def store_option_def put_def split: option.split)

definition put_option :: "option_spec \<Rightarrow> string option \<Rightarrow> progress \<Rightarrow> progress" where
  "put_option spec value st = (case value of
     None \<Rightarrow> st | Some v \<Rightarrow> put (op_dest spec) (stored_value (op_action spec) (pg_space st (op_dest spec)) v) st)"

lemma parse_option_words:
  assumes "value \<noteq> None \<Longrightarrow> acceptable g name spec st" and "op_choices spec = None \<or> (\<forall>v. value = Some v \<longrightarrow> v \<in> set (the (op_choices spec)))"
  shows "parse_known negative g (option_words name value @ rest) st = parse_known negative g rest (put_option spec value st)"
  using assms parse_word [of g name spec st] by (cases "value") (auto simp: option_words_def put_option_def)

lemma parse_affected:
  assumes "acceptable g ''--affected-path'' affected_paths_argument st" and "''affected_paths'' \<notin> set (gr_group g)"
    and "list_all path_ok ps" and "pg_space st ''affected_paths'' = Some (PathValues qs)"
  shows "\<exists>st'. parse_known negative g (map (\<lambda>q. equals_word ''--affected-path'' (str_path q)) ps) st = finish_parse g st'
    \<and> pg_space st' = (pg_space st)(''affected_paths'' \<mapsto> PathValues (qs @ ps)) \<and> set (pg_seen st) \<subseteq> set (pg_seen st')
    \<and> pg_left st' = pg_left st \<and> pg_extras st' = pg_extras st"
  using assms
proof (induction ps arbitrary: st qs)
  case Nil
  then show ?case by (auto intro!: exI [of _ st] simp: fun_upd_idem)
next
  case (Cons p ps)
  let ?st = "put ''affected_paths'' (PathValues (qs @ [p])) st"
  have spec: "op_dest affected_paths_argument = ''affected_paths''" "op_action affected_paths_argument = AppendPath"
    "op_choices affected_paths_argument = None"
    by (simp_all add: affected_paths_argument_def parser_simps)
  have "acceptable g ''--affected-path'' affected_paths_argument ?st"
    using Cons.prems(1,2) by (simp add: acceptable_def spec)
  then have "\<exists>st'. parse_known negative g (map (\<lambda>q. equals_word ''--affected-path'' (str_path q)) ps) ?st = finish_parse g st'
      \<and> pg_space st' = (pg_space ?st)(''affected_paths'' \<mapsto> PathValues ((qs @ [p]) @ ps)) \<and> set (pg_seen ?st) \<subseteq> set (pg_seen st')
      \<and> pg_left st' = pg_left ?st \<and> pg_extras st' = pg_extras ?st"
    by (rule Cons.IH) (use Cons.prems in simp_all)
  then obtain st' where "parse_known negative g (map (\<lambda>q. equals_word ''--affected-path'' (str_path q)) ps) ?st = finish_parse g st'"
    and "pg_space st' = (pg_space ?st)(''affected_paths'' \<mapsto> PathValues ((qs @ [p]) @ ps))" and "set (pg_seen ?st) \<subseteq> set (pg_seen st')"
    and "pg_left st' = pg_left ?st" and "pg_extras st' = pg_extras ?st"
    by blast
  moreover have "parse_known negative g (map (\<lambda>q. equals_word ''--affected-path'' (str_path q)) (p # ps)) st
      = parse_known negative g (map (\<lambda>q. equals_word ''--affected-path'' (str_path q)) ps) ?st"
    using parse_word [OF Cons.prems(1), of "str_path p"] Cons.prems(3,4) by (simp add: spec stored_value_def)
  ultimately show ?case by (intro exI [of _ st']) simp
qed

definition route_parser :: grammar where
  "route_parser = leaf [project_argument, required (add_option ''--task'' ''task'' StoreText),
     required (add_option ''--prompt'' ''prompt'' StoreText), affected_paths_argument] [] []"

lemma begin_simps [simp]:
  "pg_seen (begin_parse g) = []" "pg_left (begin_parse g) = gr_positionals g" "pg_extras (begin_parse g) = []"
  by (simp_all add: begin_parse_def)

lemma route_words:
  "acceptable route_parser ''--project'' project_argument st"
  "acceptable route_parser ''--task'' (required (add_option ''--task'' ''task'' StoreText)) st"
  "acceptable route_parser ''--prompt'' (required (add_option ''--prompt'' ''prompt'' StoreText)) st"
  "acceptable route_parser ''--affected-path'' affected_paths_argument st"
  unfolding acceptable_def by code_simp+

lemma project_simps: "op_choices project_argument = None" "op_required (add_option name dest action) = False"
  "op_required affected_paths_argument = False" "op_dest affected_paths_argument = ''affected_paths''"
  by (simp_all add: project_argument_def required_def add_option_def affected_paths_argument_def)

lemmas written_simps = parser_simps project_simps stored_value_def path_of_str_path

lemma route_parsed:
  assumes "path_ok q" and "list_all path_ok affected"
  shows "\<exists>space. parse_known negative route_parser (tl (command_words (Route q t m affected))) (begin_parse route_parser) = Parsed (space, [])
    \<and> command_of (space(''command'' \<mapsto> TextValue ''route'')) = Some (Route q t m affected)"
proof -
  let ?st = "put ''prompt'' (TextValue m) (put ''task'' (TextValue t) (put ''project'' (PathValue q) (begin_parse route_parser)))"
  have "parse_known negative route_parser (tl (command_words (Route q t m affected))) (begin_parse route_parser)
      = parse_known negative route_parser (map (\<lambda>q. equals_word ''--affected-path'' (str_path q)) affected) ?st"
    using assms(1) by (simp add: command_words_def parse_word [OF route_words(1)] parse_word [OF route_words(2)]
        parse_word [OF route_words(3)] written_simps)
  moreover have "pg_space ?st ''affected_paths'' = Some (PathValues [])" by (simp, code_simp)
  from parse_affected [OF route_words(4) _ assms(2) this]
  obtain st' where "parse_known negative route_parser (map (\<lambda>q. equals_word ''--affected-path'' (str_path q)) affected) ?st
      = finish_parse route_parser st'"
    and "pg_space st' = (pg_space ?st)(''affected_paths'' \<mapsto> PathValues ([] @ affected))" "set (pg_seen ?st) \<subseteq> set (pg_seen st')"
    and "pg_left st' = pg_left ?st" "pg_extras st' = pg_extras ?st"
    by (auto simp: route_parser_def leaf_def)
  ultimately show ?thesis
    by (simp add: finish_parse_def route_parser_def leaf_def written_simps help_option_def)
      (simp add: command_of_def text_at_def path_at_def paths_at_def)
qed

lemma parse_last_option:
  assumes "value \<noteq> None \<Longrightarrow> acceptable g name spec st" and "op_choices spec = None"
  shows "parse_known negative g (option_words name value) st = finish_parse g (put_option spec value st)"
  using parse_option_words [of "value" g name spec st negative "[]"] assms by simp

definition plan_parser :: grammar where
  "plan_parser = leaf [project_argument, required (add_option ''--objective'' ''objective'' StoreText),
     add_option ''--run-id'' ''run_id'' StoreText] [] []"

lemma plan_words:
  "acceptable plan_parser ''--project'' project_argument st"
  "acceptable plan_parser ''--objective'' (required (add_option ''--objective'' ''objective'' StoreText)) st"
  "acceptable plan_parser ''--run-id'' (add_option ''--run-id'' ''run_id'' StoreText) st"
  unfolding acceptable_def by code_simp+

lemma plan_space: "pg_space (begin_parse plan_parser) ''run_id'' = Some NoValue" "pg_space (begin_parse plan_parser) ''affected_paths'' = None"
  by code_simp+

lemma plan_parsed:
  assumes "path_ok q"
  shows "\<exists>space. parse_known negative plan_parser (tl (command_words (Plan q m rid))) (begin_parse plan_parser) = Parsed (space, [])
    \<and> command_of (space(''command'' \<mapsto> TextValue ''plan'')) = Some (Plan q m rid)"
proof -
  let ?st = "put ''objective'' (TextValue m) (put ''project'' (PathValue q) (begin_parse plan_parser))"
  have "parse_known negative plan_parser (tl (command_words (Plan q m rid))) (begin_parse plan_parser)
      = finish_parse plan_parser (put_option (add_option ''--run-id'' ''run_id'' StoreText) rid ?st)"
    using assms(1) by (simp add: command_words_def parse_word [OF plan_words(1)] parse_word [OF plan_words(2)]
        parse_last_option [OF plan_words(3)] written_simps)
  moreover have "finish_parse plan_parser (put_option (add_option ''--run-id'' ''run_id'' StoreText) rid ?st)
      = Parsed (pg_space (put_option (add_option ''--run-id'' ''run_id'' StoreText) rid ?st), [])"
    by (cases rid) (simp_all add: put_option_def finish_parse_def plan_parser_def leaf_def written_simps help_option_def)
  moreover have "command_of ((pg_space (put_option (add_option ''--run-id'' ''run_id'' StoreText) rid ?st))(''command'' \<mapsto> TextValue ''plan''))
      = Some (Plan q m rid)"
    by (cases rid) (simp_all add: put_option_def written_simps command_of_def text_at_def path_at_def paths_at_def plan_space)
  ultimately show ?thesis by simp
qed

definition run_parser :: grammar where
  "run_parser = leaf [project_argument, add_option ''--task'' ''task'' StoreText,
     add_option ''--objective'' ''objective'' StoreText, add_option ''--prompt'' ''prompt'' StoreText,
     add_option ''--run-id'' ''run_id'' StoreText, affected_paths_argument] [] [''task'', ''objective'']"

lemma run_words:
  "acceptable run_parser ''--project'' project_argument st"
  "acceptable run_parser ''--prompt'' (add_option ''--prompt'' ''prompt'' StoreText) st"
  "acceptable run_parser ''--run-id'' (add_option ''--run-id'' ''run_id'' StoreText) st"
  "acceptable run_parser ''--affected-path'' affected_paths_argument st"
  unfolding acceptable_def by code_simp+

lemma run_mode:
  "find_option (gr_options run_parser) ''--task'' = Some (add_option ''--task'' ''task'' StoreText)"
  "find_option (gr_options run_parser) ''--objective'' = Some (add_option ''--objective'' ''objective'' StoreText)"
  "equals_free (gr_options run_parser)" "gr_group run_parser = [''task'', ''objective'']"
  "pg_space (begin_parse run_parser) ''task'' = Some NoValue" "pg_space (begin_parse run_parser) ''objective'' = Some NoValue"
  "pg_space (begin_parse run_parser) ''prompt'' = Some NoValue" "pg_space (begin_parse run_parser) ''run_id'' = Some NoValue"
  "pg_space (begin_parse run_parser) ''affected_paths'' = Some (PathValues [])" "gr_positionals run_parser = []"
  "gr_commands run_parser = []"
  by code_simp+

lemma mode_words:
  "''objective'' \<notin> set (pg_seen st) \<Longrightarrow> acceptable run_parser ''--task'' (add_option ''--task'' ''task'' StoreText) st"
  "''task'' \<notin> set (pg_seen st) \<Longrightarrow> acceptable run_parser ''--objective'' (add_option ''--objective'' ''objective'' StoreText) st"
  by (simp_all add: acceptable_def run_mode parser_simps starts_with_def)

lemma run_parsed:
  assumes "path_ok q" and "list_all path_ok affected" and "(task = None) \<noteq> (objective = None)"
  shows "\<exists>space. parse_known negative run_parser (tl (command_words (Run q task objective prompt rid affected))) (begin_parse run_parser)
      = Parsed (space, [])
    \<and> command_of (space(''command'' \<mapsto> TextValue ''run'')) = Some (Run q task objective prompt rid affected)"
proof -
  let ?put = "\<lambda>name dest. put_option (add_option name dest StoreText)"
  let ?st1 = "put ''project'' (PathValue q) (begin_parse run_parser)"
  let ?st = "?put ''--run-id'' ''run_id'' rid (?put ''--prompt'' ''prompt'' prompt
    (?put ''--objective'' ''objective'' objective (?put ''--task'' ''task'' task ?st1)))"
  let ?affected = "map (\<lambda>q. equals_word ''--affected-path'' (str_path q)) affected"
  have one: "task = None \<or> objective = None" using assms(3) by blast
  have "parse_known negative run_parser (tl (command_words (Run q task objective prompt rid affected))) (begin_parse run_parser)
      = parse_known negative run_parser (option_words ''--task'' task @ option_words ''--objective'' objective
          @ option_words ''--prompt'' prompt @ option_words ''--run-id'' rid @ ?affected) ?st1"
    using assms(1) by (simp add: command_words_def parse_word [OF run_words(1)] written_simps)
  also have "\<dots> = parse_known negative run_parser (option_words ''--objective'' objective
          @ option_words ''--prompt'' prompt @ option_words ''--run-id'' rid @ ?affected) (?put ''--task'' ''task'' task ?st1)"
    by (rule parse_option_words) (simp_all add: mode_words parser_simps)
  also have "\<dots> = parse_known negative run_parser (option_words ''--prompt'' prompt @ option_words ''--run-id'' rid @ ?affected)
      (?put ''--objective'' ''objective'' objective (?put ''--task'' ''task'' task ?st1))"
    using one by (intro parse_option_words) (auto intro: mode_words simp: parser_simps put_option_def)
  also have "\<dots> = parse_known negative run_parser ?affected ?st"
    by (simp add: parse_option_words [OF run_words(2)] parse_option_words [OF run_words(3)] parser_simps)
  finally have words: "parse_known negative run_parser (tl (command_words (Run q task objective prompt rid affected)))
      (begin_parse run_parser) = parse_known negative run_parser ?affected ?st" .
  have space: "pg_space ?st ''affected_paths'' = Some (PathValues [])" "pg_space ?st ''project'' = Some (PathValue q)"
    "text_at (pg_space ?st) ''task'' = task" "text_at (pg_space ?st) ''objective'' = objective"
    "text_at (pg_space ?st) ''prompt'' = prompt" "text_at (pg_space ?st) ''run_id'' = rid"
    "pg_left ?st = []" "pg_extras ?st = []" "''project'' \<in> set (pg_seen ?st)"
    "(''task'' \<in> set (pg_seen ?st) \<or> ''objective'' \<in> set (pg_seen ?st))"
    using assms(3) by (auto simp: put_option_def written_simps text_at_def run_mode split: option.split)
  have "acceptable run_parser ''--affected-path'' affected_paths_argument ?st" and "''affected_paths'' \<notin> set (gr_group run_parser)"
    by (simp_all add: run_words run_mode)
  from parse_affected [OF this assms(2) space(1), of negative]
  obtain st' where st': "parse_known negative run_parser ?affected ?st = finish_parse run_parser st'"
    and pg: "pg_space st' = (pg_space ?st)(''affected_paths'' \<mapsto> PathValues ([] @ affected))" "set (pg_seen ?st) \<subseteq> set (pg_seen st')"
      "pg_left st' = pg_left ?st" "pg_extras st' = pg_extras ?st"
    by blast
  have "list_all (\<lambda>spec. op_required spec \<longrightarrow> op_dest spec \<in> set (pg_seen st')) (gr_options run_parser)"
    using pg(2) space(9) by (auto simp: run_parser_def leaf_def help_option_def parser_simps project_simps)
  moreover have "list_ex (\<lambda>d. d \<in> set (pg_seen st')) (gr_group run_parser)"
    using pg(2) space(10) by (auto simp: run_mode)
  ultimately have "finish_parse run_parser st' = Parsed (pg_space st', [])"
    using pg(3,4) space(7,8) by (simp add: finish_parse_def run_mode)
  moreover have "command_of ((pg_space st')(''command'' \<mapsto> TextValue ''run'')) = Some (Run q task objective prompt rid affected)"
    using space(2-6) by (simp add: pg(1) command_of_def text_at_def path_at_def paths_at_def)
  ultimately show ?thesis using words st' by simp
qed

lemma parse_positional:
  "undashed arg \<Longrightarrow> pg_left st = d # left \<Longrightarrow> parse_known negative g (arg # rest) st
    = parse_known negative g rest (st\<lparr>pg_space := (pg_space st)(d \<mapsto> TextValue arg), pg_left := left\<rparr>)"
  by (simp add: parse_known.simps(2) parse_optional_def undashed_def)

lemma parse_flag:
  "find_option (gr_options g) name = Some spec \<Longrightarrow> op_action spec = StoreTrue \<Longrightarrow> \<not> undashed name
    \<Longrightarrow> parse_known negative g (name # rest) st = parse_known negative g rest (put (op_dest spec) (FlagValue True) st)"
  by (simp add: parse_known.simps(2) parse_optional_def undashed_def consume_optional_def put_def)

definition run_id_parser :: grammar where
  "run_id_parser = leaf [] [''run_id''] []"

lemma run_id_parsed:
  assumes "undashed r"
  shows "parse_known negative run_id_parser [r] (begin_parse run_id_parser) = Parsed ((pg_space (begin_parse run_id_parser))(''run_id'' \<mapsto> TextValue r), [])"
  using assms by (simp add: parse_positional run_id_parser_def leaf_def finish_parse_def help_option_def)

definition approve_parser :: grammar where
  "approve_parser = leaf [required (add_option ''--approved-by'' ''approved_by'' StoreText)] [''run_id'', ''work_item_id''] []"

lemma approve_words: "acceptable approve_parser ''--approved-by'' (required (add_option ''--approved-by'' ''approved_by'' StoreText)) st"
  unfolding acceptable_def by code_simp

lemma approve_parsed:
  assumes "undashed r" and "undashed wid"
  shows "\<exists>space. parse_known negative approve_parser (tl (command_words (Approve r wid by_whom))) (begin_parse approve_parser) = Parsed (space, [])
    \<and> command_of (space(''command'' \<mapsto> TextValue ''approve'')) = Some (Approve r wid by_whom)"
proof -
  have left: "gr_positionals approve_parser = [''run_id'', ''work_item_id'']" by (simp add: approve_parser_def leaf_def)
  let ?st = "put ''approved_by'' (TextValue by_whom) (begin_parse approve_parser
    \<lparr>pg_space := (pg_space (begin_parse approve_parser))(''run_id'' \<mapsto> TextValue r, ''work_item_id'' \<mapsto> TextValue wid), pg_left := []\<rparr>)"
  have "parse_known negative approve_parser (tl (command_words (Approve r wid by_whom))) (begin_parse approve_parser)
      = finish_parse approve_parser ?st"
    using assms by (simp add: command_words_def parse_positional left parse_word [OF approve_words] written_simps)
  moreover have "finish_parse approve_parser ?st = Parsed (pg_space ?st, [])"
    by (simp add: finish_parse_def approve_parser_def leaf_def written_simps help_option_def)
  moreover have "command_of ((pg_space ?st)(''command'' \<mapsto> TextValue ''approve'')) = Some (Approve r wid by_whom)"
    by (simp add: command_of_def text_at_def)
  ultimately show ?thesis by simp
qed

definition resume_parser :: grammar where
  "resume_parser = leaf [add_option ''--acknowledge-configuration-change'' ''acknowledge_configuration_change'' StoreTrue] [''run_id''] []"

lemma resume_option:
  "find_option (gr_options resume_parser) ''--acknowledge-configuration-change''
     = Some (add_option ''--acknowledge-configuration-change'' ''acknowledge_configuration_change'' StoreTrue)"
  "gr_positionals resume_parser = [''run_id'']"
  "pg_space (begin_parse resume_parser) ''acknowledge_configuration_change'' = Some (FlagValue False)"
  by code_simp+

lemma resume_parsed:
  assumes "undashed r"
  shows "\<exists>space. parse_known negative resume_parser (tl (command_words (Resume r acknowledge))) (begin_parse resume_parser) = Parsed (space, [])
    \<and> command_of (space(''command'' \<mapsto> TextValue ''resume'')) = Some (Resume r acknowledge)"
proof -
  let ?st1 = "begin_parse resume_parser\<lparr>pg_space := (pg_space (begin_parse resume_parser))(''run_id'' \<mapsto> TextValue r), pg_left := []\<rparr>"
  let ?st = "if acknowledge then put ''acknowledge_configuration_change'' (FlagValue True) ?st1 else ?st1"
  have "parse_known negative resume_parser (tl (command_words (Resume r acknowledge))) (begin_parse resume_parser)
      = finish_parse resume_parser ?st"
    using assms by (simp add: command_words_def parse_positional resume_option parse_flag [OF resume_option(1)] parser_simps undashed_def)
  moreover have "finish_parse resume_parser ?st = Parsed (pg_space ?st, [])"
    by (simp add: finish_parse_def resume_parser_def leaf_def parser_simps project_simps help_option_def)
  moreover have "command_of ((pg_space ?st)(''command'' \<mapsto> TextValue ''resume'')) = Some (Resume r acknowledge)"
    by (simp add: command_of_def text_at_def flag_at_def resume_option(3))
  ultimately show ?thesis by simp
qed

lemma config_parsed:
  "\<exists>space. parse_known negative config_parser [''template''] (begin_parse config_parser) = Parsed (space, [])
    \<and> space ''config_command'' = Some (TextValue ''template'')"
  "\<exists>space. parse_known negative config_parser [''validate''] (begin_parse config_parser) = Parsed (space, [])
    \<and> space ''config_command'' = Some (TextValue ''validate'')"
  "\<exists>space. parse_known negative (leaf [] [] []) [] (begin_parse (leaf [] [] [])) = Parsed (space, [])"
  by (simp_all add: config_parser_def parse_known.simps(2) leaf_def parse_optional_def finish_parse_def help_option_def)
    (simp_all add: begin_parse_def map_add_def command_dests_def)

lemma program_commands:
  "map_of (gr_commands build_parser) ''config'' = Some config_parser"
  "map_of (gr_commands build_parser) ''version'' = Some (leaf [] [] [])"
  "map_of (gr_commands build_parser) ''models'' = Some (leaf [] [] [])"
  "map_of (gr_commands build_parser) ''route'' = Some route_parser"
  "map_of (gr_commands build_parser) ''plan'' = Some plan_parser"
  "map_of (gr_commands build_parser) ''run'' = Some run_parser"
  "map_of (gr_commands build_parser) ''status'' = Some run_id_parser"
  "map_of (gr_commands build_parser) ''approve'' = Some approve_parser"
  "map_of (gr_commands build_parser) ''resume'' = Some resume_parser"
  "map_of (gr_commands build_parser) ''report'' = Some run_id_parser"
  by (simp_all add: build_parser_def config_parser_def route_parser_def plan_parser_def run_parser_def run_id_parser_def
      approve_parser_def resume_parser_def)

text \<open>Every writable command is parsed back by its subcommand.\<close>

lemma written_command:
  assumes "writable_command c"
  shows "\<exists>name sub space. map_of (gr_commands build_parser) name = Some sub \<and> undashed name
    \<and> command_words c = name # tl (command_words c)
    \<and> parse_known negative sub (tl (command_words c)) (begin_parse sub) = Parsed (space, [])
    \<and> command_of (space(''command'' \<mapsto> TextValue name)) = Some c"
proof -
  have witness: ?thesis if "map_of (gr_commands build_parser) name = Some sub" "undashed name" "command_words c = name # tl (command_words c)"
    "\<exists>space. parse_known negative sub (tl (command_words c)) (begin_parse sub) = Parsed (space, [])
      \<and> command_of (space(''command'' \<mapsto> TextValue name)) = Some c" for name sub
    using that by blast
  show ?thesis
  proof (cases c)
    case (Route q t m affected)
    then show ?thesis
      using assms route_parsed [of q affected negative t m]
      by (intro witness [OF program_commands(4)]) (simp_all add: undashed_def command_words_def writable_command_def)
  next
    case (Plan q m rid)
    then show ?thesis
      using assms plan_parsed [of q negative m rid]
      by (intro witness [OF program_commands(5)]) (simp_all add: undashed_def command_words_def writable_command_def)
  next
    case (Run q task objective prompt rid affected)
    then show ?thesis
      using assms run_parsed [of q affected task objective negative prompt rid]
      by (intro witness [OF program_commands(6)]) (simp_all add: undashed_def command_words_def writable_command_def)
  next
    case (Status r)
    then show ?thesis
      using assms run_id_parsed [of r negative]
      by (intro witness [OF program_commands(7)])
        (simp_all add: undashed_def command_words_def writable_command_def command_of_def text_at_def)
  next
    case (Report r)
    then show ?thesis
      using assms run_id_parsed [of r negative]
      by (intro witness [OF program_commands(10)])
        (simp_all add: undashed_def command_words_def writable_command_def command_of_def text_at_def)
  next
    case (Approve r wid by_whom)
    then show ?thesis
      using assms approve_parsed [of r wid negative by_whom]
      by (intro witness [OF program_commands(8)]) (simp_all add: undashed_def command_words_def writable_command_def)
  next
    case (Resume r acknowledge)
    then show ?thesis
      using assms resume_parsed [of r negative acknowledge]
      by (intro witness [OF program_commands(9)]) (simp_all add: undashed_def command_words_def writable_command_def)
  next
    case ConfigTemplate
    then show ?thesis
      using config_parsed(1) [of negative] by (intro witness [OF program_commands(1)])
        (auto simp: undashed_def command_words_def command_of_def text_at_def)
  next
    case ConfigValidate
    then show ?thesis
      using config_parsed(2) [of negative] by (intro witness [OF program_commands(1)])
        (auto simp: undashed_def command_words_def command_of_def text_at_def)
  next
    case Version
    then show ?thesis
      using config_parsed(3) [of negative] by (intro witness [OF program_commands(2)])
        (auto simp: undashed_def command_words_def command_of_def text_at_def)
  next
    case Models
    then show ?thesis
      using config_parsed(3) [of negative] by (intro witness [OF program_commands(3)])
        (auto simp: undashed_def command_words_def command_of_def text_at_def)
  qed
qed

lemma global_words:
  "acceptable build_parser ''--config'' (add_option ''--config'' ''config'' StorePath) st"
  "acceptable build_parser ''--auth-mode''
     ((add_option ''--auth-mode'' ''auth_mode'' StoreText)\<lparr>op_choices := Some (map auth_mode_value auth_modes)\<rparr>) st"
  "acceptable build_parser ''--state-path'' (add_option ''--state-path'' ''state_path'' StorePath) st"
  "acceptable build_parser ''--codex-bin'' (add_option ''--codex-bin'' ''codex_bin'' StoreText) st"
  unfolding acceptable_def by code_simp+

lemma global_space:
  "find_option (gr_options build_parser) ''--json'' = Some (add_option ''--json'' ''json_output'' StoreTrue)"
  "pg_space (begin_parse build_parser) ''config'' = Some NoValue" "pg_space (begin_parse build_parser) ''auth_mode'' = Some NoValue"
  "pg_space (begin_parse build_parser) ''state_path'' = Some NoValue" "pg_space (begin_parse build_parser) ''codex_bin'' = Some NoValue"
  "pg_space (begin_parse build_parser) ''json_output'' = Some (FlagValue False)" "gr_positionals build_parser = []"
  "gr_group build_parser = []" "list_all (\<lambda>spec. \<not> op_required spec) (gr_options build_parser)"
  "list_all (\<lambda>k. pg_space (begin_parse build_parser) k = None)
     [''config_command'', ''project'', ''task'', ''prompt'', ''objective'', ''run_id'', ''affected_paths'',
      ''work_item_id'', ''approved_by'', ''acknowledge_configuration_change'']"
  by code_simp+

text \<open>The progress after the global options.\<close>

definition after_globals :: "cli_args \<Rightarrow> progress" where
  "after_globals args =
     put_option (add_option ''--codex-bin'' ''codex_bin'' StoreText) (ca_codex_bin args)
       (put_option (add_option ''--state-path'' ''state_path'' StorePath) (map_option str_path (ca_state_path args))
         (put_option ((add_option ''--auth-mode'' ''auth_mode'' StoreText)\<lparr>op_choices := Some (map auth_mode_value auth_modes)\<rparr>)
           (ca_auth_mode args)
           ((if ca_json args then put ''json_output'' (FlagValue True) else id)
             (put_option (add_option ''--config'' ''config'' StorePath) (map_option str_path (ca_config args))
               (begin_parse build_parser)))))"

lemma globals_parsed:
  assumes "writable args"
  shows "parse_known negative build_parser (command_line args) (begin_parse build_parser)
    = parse_known negative build_parser (command_words (ca_command args)) (after_globals args)"
  using assms
  by (simp add: command_line_def after_globals_def writable_def parse_option_words [OF global_words(1)]
      parse_option_words [OF global_words(2)] parse_option_words [OF global_words(3)] parse_option_words [OF global_words(4)]
      parse_flag [OF global_space(1)] parser_simps undashed_def)

lemma put_option_space:
  "pg_space (put_option spec x st) k = (if k = op_dest spec \<and> x \<noteq> None
     then Some (stored_value (op_action spec) (pg_space st (op_dest spec)) (the x)) else pg_space st k)"
  "pg_left (put_option spec x st) = pg_left st" "pg_extras (put_option spec x st) = pg_extras st"
  by (simp_all add: put_option_def split: option.split)

lemma flag_space:
  "pg_space ((if b then put d v else id) st) k = (if b \<and> k = d then Some v else pg_space st k)"
  "pg_left ((if b then put d v else id) st) = pg_left st" "pg_extras ((if b then put d v else id) st) = pg_extras st"
  by simp_all

lemma global_put:
  "pg_space (put_option (add_option name d StoreText) x st) k
     = (if k = d \<and> x \<noteq> None then Some (TextValue (the x)) else pg_space st k)"
  "pg_space (put_option (add_option name d StorePath) x st) k
     = (if k = d \<and> x \<noteq> None then Some (PathValue (path_of (the x))) else pg_space st k)"
  "pg_space (put_option ((add_option name d StoreText)\<lparr>op_choices := c\<rparr>) x st) k
     = (if k = d \<and> x \<noteq> None then Some (TextValue (the x)) else pg_space st k)"
  by (cases x; simp add: put_option_space parser_simps stored_value_def)+

lemma after_globals_lookup:
  "pg_space (after_globals args) k =
     (if k = ''codex_bin'' \<and> ca_codex_bin args \<noteq> None then Some (TextValue (the (ca_codex_bin args)))
      else if k = ''state_path'' \<and> map_option str_path (ca_state_path args) \<noteq> None
      then Some (PathValue (path_of (the (map_option str_path (ca_state_path args)))))
      else if k = ''auth_mode'' \<and> ca_auth_mode args \<noteq> None then Some (TextValue (the (ca_auth_mode args)))
      else if ca_json args \<and> k = ''json_output'' then Some (FlagValue True)
      else if k = ''config'' \<and> map_option str_path (ca_config args) \<noteq> None
      then Some (PathValue (path_of (the (map_option str_path (ca_config args)))))
      else pg_space (begin_parse build_parser) k)"
  unfolding after_globals_def global_put flag_space by (rule refl)

lemma after_globals_space:
  assumes "writable args"
  shows "path_at (pg_space (after_globals args)) ''config'' = ca_config args"
    and "flag_at (pg_space (after_globals args)) ''json_output'' = ca_json args"
    and "text_at (pg_space (after_globals args)) ''auth_mode'' = ca_auth_mode args"
    and "path_at (pg_space (after_globals args)) ''state_path'' = ca_state_path args"
    and "text_at (pg_space (after_globals args)) ''codex_bin'' = ca_codex_bin args"
    and "\<forall>k \<in> sub_dests. pg_space (after_globals args) k = None"
    and "pg_left (after_globals args) = []" and "pg_extras (after_globals args) = []"
proof -
  have "\<forall>q. ca_config args = Some q \<longrightarrow> path_ok q" "\<forall>q. ca_state_path args = Some q \<longrightarrow> path_ok q"
    using assms by (simp_all add: writable_def)
  then show "path_at (pg_space (after_globals args)) ''config'' = ca_config args"
    and "path_at (pg_space (after_globals args)) ''state_path'' = ca_state_path args"
    by (auto simp: path_at_def after_globals_lookup global_space split: option.split)
  show "flag_at (pg_space (after_globals args)) ''json_output'' = ca_json args"
    by (simp add: flag_at_def after_globals_lookup global_space)
  show "text_at (pg_space (after_globals args)) ''auth_mode'' = ca_auth_mode args"
    "text_at (pg_space (after_globals args)) ''codex_bin'' = ca_codex_bin args"
    by (auto simp: text_at_def after_globals_lookup global_space split: option.split)
  show "\<forall>k \<in> sub_dests. pg_space (after_globals args) k = None"
    using global_space(10) by (simp add: sub_dests_def after_globals_lookup)
  show "pg_left (after_globals args) = []" "pg_extras (after_globals args) = []"
    by (simp_all only: after_globals_def put_option_space flag_space begin_simps global_space)
qed

lemma command_of_agree:
  assumes "\<forall>k \<in> insert ''command'' sub_dests. ns k = ns' k"
  shows "command_of ns = command_of ns'"
proof -
  have "text_at ns k = text_at ns' k \<and> path_at ns k = path_at ns' k \<and> flag_at ns k = flag_at ns' k \<and> paths_at ns k = paths_at ns' k"
    if "k \<in> insert ''command'' sub_dests" for k
  proof -
    have "ns k = ns' k" using assms that by blast
    then show ?thesis by (simp add: text_at_def path_at_def flag_at_def paths_at_def)
  qed
  then show ?thesis by (simp add: command_of_def sub_dests_def cong: if_cong option.case_cong)
qed

lemma command_parsed:
  assumes "writable args"
  shows "\<exists>ns. parse_known negative build_parser (command_words (ca_command args)) (after_globals args) = Parsed (ns, [])
    \<and> cli_args_of ns = Some args"
proof -
  note globals = after_globals_space [OF assms]
  obtain name sub space where sub: "map_of (gr_commands build_parser) name = Some sub" "undashed name"
    and words: "command_words (ca_command args) = name # tl (command_words (ca_command args))"
    and parsed: "parse_known negative sub (tl (command_words (ca_command args))) (begin_parse sub) = Parsed (space, [])"
    and command: "command_of (space(''command'' \<mapsto> TextValue name)) = Some (ca_command args)"
    using written_command [of "ca_command args" negative] assms by (auto simp: writable_def)
  have dom: "dom space \<subseteq> sub_dests" using sub_namespace [OF map_of_SomeD [OF sub(1)] parsed] by blast
  let ?ns = "(pg_space (after_globals args))(''command'' \<mapsto> TextValue name) ++ space"
  have global: "?ns k = pg_space (after_globals args) k" if "k \<notin> sub_dests" "k \<noteq> ''command''" for k
    using dom that by (auto simp: map_add_def split: option.split)
  have "''command'' \<notin> sub_dests" by (simp add: sub_dests_def)
  then have "\<forall>k \<in> insert ''command'' sub_dests. ?ns k = (space(''command'' \<mapsto> TextValue name)) k"
    using globals(6) dom by (auto simp: map_add_def split: option.split)
  then have "command_of ?ns = Some (ca_command args)" using command_of_agree command by metis
  moreover have "text_at ?ns k = text_at (pg_space (after_globals args)) k" "path_at ?ns k = path_at (pg_space (after_globals args)) k"
    "flag_at ?ns k = flag_at (pg_space (after_globals args)) k" if "k \<notin> sub_dests" "k \<noteq> ''command''" for k
    using global [OF that] by (simp_all add: text_at_def path_at_def flag_at_def)
  ultimately have "cli_args_of ?ns = Some args"
    using globals by (simp add: cli_args_of_def sub_dests_def)
  moreover have free: "list_all (\<lambda>spec. op_required spec \<longrightarrow> P spec) (gr_options build_parser)" for P
    using global_space(9) by (auto simp: list_all_iff)
  moreover have "parse_known negative build_parser (command_words (ca_command args)) (after_globals args) = Parsed (?ns, [])"
    using sub parsed globals(7,8) program_grammar(5) free
    by (subst words) (simp add: parse_known.simps(2) parse_optional_def undashed_def finish_parse_def global_space(8)
        program_grammar(4))
  ultimately show ?thesis by blast
qed

section \<open>Properties\<close>

text \<open>
  C39. An accepted command line gives every attribute that the program reads: there is a command with
  all its arguments, an authentication mode is one of the choices, and \<open>run\<close> has either a task or an
  objective. When the validation passes too, a task comes with a prompt that is not empty and an
  objective without one, so the dispatch never reads an attribute that is \<open>None\<close>.
\<close>

theorem accepted_command_lines_are_complete:
  assumes "''--'' \<notin> set argv" and "parse_arguments p argv = Parsed ns"
  shows "\<exists>args. cli_args_of ns = Some args
    \<and> (\<forall>m. ca_auth_mode args = Some m \<longrightarrow> m \<in> set (map auth_mode_value auth_modes))
    \<and> (\<forall>project task objective prompt rid affected. ca_command args = Run project task objective prompt rid affected \<longrightarrow>
         (task = None) \<noteq> (objective = None)
         \<and> (validate_arguments args = Inr () \<longrightarrow>
              (case task of Some _ \<Rightarrow> \<exists>m. prompt = Some m \<and> m \<noteq> [] | None \<Rightarrow> objective \<noteq> None \<and> prompt = None)))"
proof -
  have parsed: "parse_args (ag_negative p) build_parser argv = Parsed ns"
    using assms by (simp add: parse_arguments_def)
  obtain c where c: "command_of ns = Some c" "command_complete c" using accepted_command [OF parsed] by blast
  let ?spec = "(add_option ''--auth-mode'' ''auth_mode'' StoreText)\<lparr>op_choices := Some (map auth_mode_value auth_modes)\<rparr>"
  have "?spec \<in> set (gr_options build_parser)" by (simp add: build_parser_def)
  moreover have "op_action ?spec = StoreText" by (simp add: add_option_def)
  moreover have "namespace_ok build_parser ns" using accepted_namespace [OF parsed] by blast
  ultimately have "option_value ns ?spec" by (simp add: namespace_ok_def)
  then have "text_at ns ''auth_mode'' = Some m \<Longrightarrow> m \<in> set (map auth_mode_value auth_modes)" for m
    using text_values(3) [of ns ?spec m] by (simp add: add_option_def)
  then show ?thesis
    using c by (auto simp: cli_args_of_def command_complete_def validate_arguments_def split: if_splits option.split)
qed

text \<open>A run of one task, with an abbreviated option and a value that looks like an option.\<close>

definition ex_argparse :: argparse_ports where
  "ex_argparse = \<lparr>ag_negative = (\<lambda>_. False), ag_dashed = (\<lambda>_. Exit 2)\<rparr>"

definition ex_argv :: "string list" where
  "ex_argv = [''--json'', ''run'', ''--proj'', ''/p'', ''--task=code'', ''--prompt=-x'', ''--affected-path'', ''a.py'']"

lemma accepted_command_lines_are_complete_witness:
  "\<exists>ns args. parse_arguments ex_argparse ex_argv = Parsed ns \<and> cli_args_of ns = Some args
     \<and> ca_command args = Run (Path ''/'' [''p'']) (Some ''code'') None (Some ''-x'') None [Path [] [''a.py'']]"
proof -
  have "(case parse_arguments ex_argparse ex_argv of Exit _ \<Rightarrow> None | Parsed ns \<Rightarrow> map_option ca_command (cli_args_of ns))
      = Some (Run (Path ''/'' [''p'']) (Some ''code'') None (Some ''-x'') None [Path [] [''a.py'']])"
    by code_simp
  then obtain ns where ns: "parse_arguments ex_argparse ex_argv = Parsed ns"
    and command: "map_option ca_command (cli_args_of ns) = Some (Run (Path ''/'' [''p'']) (Some ''code'') None (Some ''-x'') None [Path [] [''a.py'']])"
    by (auto split: parsed.splits)
  have "''--'' \<notin> set ex_argv" by (simp add: ex_argv_def)
  from accepted_command_lines_are_complete [OF this ns] ns command show ?thesis by auto
qed

text \<open>
  C14. Every set of arguments can be written as a command line that is read back: global options,
  subcommand and its options with \<open>=\<close>, whatever the values of the options are, provided the paths
  are in normal form, the mode is a choice, \<open>run\<close> has one mode and no identifier starts with a dash.
\<close>

theorem command_lines_are_read_back:
  assumes "writable args"
  shows "\<exists>ns. parse_arguments p (command_line args) = Parsed ns \<and> cli_args_of ns = Some args"
proof -
  have word: "''--'' \<noteq> equals_word name v" for name v
  proof
    assume "''--'' = equals_word name v"
    then have "CHR ''='' \<in> set ''--''" by (metis equals_word_def in_set_conv_decomp append_Cons append_Nil)
    then show False by simp
  qed
  have opt: "''--'' \<notin> set (option_words name x)" for name x
    using word by (auto simp: option_words_def split: option.split)
  have "''--'' \<notin> set (command_words (ca_command args))"
    using assms word opt by (auto simp: writable_def writable_command_def command_words_def undashed_def split: command.splits)
  then have "''--'' \<notin> set (command_line args)" using opt by (auto simp: command_line_def)
  then show ?thesis
    using globals_parsed [OF assms, of "ag_negative p"] command_parsed [OF assms, of "ag_negative p"]
    by (auto simp: parse_arguments_def parse_args_def)
qed

lemma command_lines_are_read_back_witness:
  "\<exists>ns. parse_arguments ex_argparse [''--config=/c'', ''--json'', ''approve'', ''r1'', ''w1'', ''--approved-by=--ann'']  = Parsed ns
     \<and> cli_args_of ns = Some \<lparr>ca_config = Some (Path ''/'' [''c'']), ca_json = True, ca_auth_mode = None, ca_state_path = None,
         ca_codex_bin = None, ca_command = Approve ''r1'' ''w1'' ''--ann''\<rparr>"
proof -
  let ?args = "\<lparr>ca_config = Some (Path ''/'' [''c'']), ca_json = True, ca_auth_mode = None, ca_state_path = None,
      ca_codex_bin = None, ca_command = Approve ''r1'' ''w1'' ''--ann''\<rparr>"
  have "writable ?args" by (simp add: writable_def writable_command_def undashed_def path_ok_def keep_part_def)
  moreover have "command_line ?args = [''--config=/c'', ''--json'', ''approve'', ''r1'', ''w1'', ''--approved-by=--ann'']"
    by code_simp
  ultimately show ?thesis using command_lines_are_read_back [of ?args ex_argparse] by simp
qed

end
