(* ===== verification/Composed_Leases.thy ===== *)
theory Composed_Leases
  imports Composition_Example Lease_Properties Run_Properties Cli_Properties Arguments_Properties
begin

text \<open>
  The leases of the composed program. A lease brackets the code that runs under it; when the
  collaborators leave the tables of descriptors and locks alone, every use case gives back in the
  end what it took, on every path.
\<close>

section \<open>Relations between the worlds before and after\<close>

text \<open>\<open>R\<close> relates the part \<open>get\<close> of the world before \<open>m\<close> to the one after it, return or raise.\<close>

definition relates :: "('v \<Rightarrow> 'v \<Rightarrow> bool) \<Rightarrow> ('w \<Rightarrow> 'v) \<Rightarrow> ('e, 'w, 'a) io \<Rightarrow> bool" where
  "relates R get m \<longleftrightarrow> (\<forall>w. R (get w) (get (snd (m w))))"

lemma relatesI: "(\<And>w. R (get w) (get (snd (m w)))) \<Longrightarrow> relates R get m"
  by (simp add: relates_def)

lemma relatesD: "relates R get m \<Longrightarrow> m w = (r, v) \<Longrightarrow> R (get w) (get v)"
  unfolding relates_def by (metis snd_conv)

named_theorems relates_rules

text \<open>What callers rely on from a lease: a refused acquisition and a bracketed body leave \<open>R\<close>.\<close>

locale lease =
  fixes acquire :: "'q \<Rightarrow> ('w, unit) eff" and release :: "'q \<Rightarrow> ('w, unit) eff"
    and R :: "'w \<Rightarrow> 'w \<Rightarrow> bool"
  assumes stays: "R w w"
    and follows: "R u v \<Longrightarrow> R v w \<Longrightarrow> R u w"
    and refused: "acquire q w = (Inl e, w') \<Longrightarrow> R w w'"
    and released: "acquire q w = (Inr (), v) \<Longrightarrow> R v u \<Longrightarrow> release q u = (r, w') \<Longrightarrow> R w w'"
begin

lemma relates_pure:
  "relates R get (io_return a)" "relates R get (io_raise e)" "relates R get (io_lift r)"
  by (simp_all add: relates_def stays)

lemma relates_bind:
  assumes "relates R get m" and "\<And>a. relates R get (f a)"
  shows "relates R get (io_bind m f)"
proof (rule relatesI)
  fix w
  obtain r v where m: "m w = (r, v)" by fastforce
  then have v: "R (get w) (get v)" by (rule relatesD [OF assms(1)])
  show "R (get w) (get (snd (io_bind m f w)))"
  proof (cases r)
    case (Inl e)
    then show ?thesis using m v by (simp add: io_bind_def)
  next
    case (Inr a)
    obtain s u where f: "f a v = (s, u)" by fastforce
    then have "R (get v) (get u)" by (rule relatesD [OF assms(2)])
    then show ?thesis using m v f Inr by (auto simp: io_bind_def intro: follows)
  qed
qed

lemma relates_map_error: "relates R get m \<Longrightarrow> relates R get (io_map_error g m)"
  by (simp add: relates_def)

lemma relates_if: "(b \<Longrightarrow> relates R get m) \<Longrightarrow> (\<not> b \<Longrightarrow> relates R get n) \<Longrightarrow> relates R get (if b then m else n)"
  by simp

text \<open>\<open>A\<close> and \<open>C\<close> are the two ends of the lease where its world is a part of theirs.\<close>

lemma relates_bracket:
  assumes "\<And>w. (fst (A w), get (snd (A w))) = acquire q (get w)"
    and "\<And>w. get (snd (C w)) = snd (release q (get w))" and "relates R get body"
  shows "relates R get (io_bind A (\<lambda>_. io_finally body C))"
proof (rule relatesI)
  fix w
  obtain r v where a: "A w = (r, v)" by fastforce
  then have acq: "acquire q (get w) = (r, get v)" using assms(1) [of w] by simp
  show "R (get w) (get (snd (io_bind A (\<lambda>_. io_finally body C) w)))"
  proof (cases r)
    case (Inl e)
    then show ?thesis using a acq by (auto simp: io_bind_def intro: refused)
  next
    case (Inr x)
    obtain s u where b: "body v = (s, u)" by fastforce
    obtain s' u' where c: "C u = (s', u')" by fastforce
    obtain z z' where "release q (get u) = (z, z')" by fastforce
    then have "release q (get u) = (z, get u')" using assms(2) [of u] c by simp
    moreover have "acquire q (get w) = (Inr (), get v)" using acq Inr by simp
    ultimately have "R (get w) (get u')" using relatesD [OF assms(3) b] by (blast intro: released)
    then show ?thesis using a b c Inr by (cases s; cases s') (simp_all add: io_bind_def io_finally_def)
  qed
qed

end

section \<open>The scheduler under leases\<close>

locale leased_scheduler = lease "sp_acquire p" "sp_release p" R
  for p :: "'w sched_ports" and R :: "'w \<Rightarrow> 'w \<Rightarrow> bool" +
  assumes related:
    "relates R id (sp_save p s)" "relates R id (sp_append_event p rid ev)" "relates R id (sp_call p c)"
    "relates R id (sp_group p cs)" "relates R id (sp_now p)"
begin

lemma relates_state:
  "relates R snd get_state" "relates R snd (set_state s)" "relates R snd (modify_state f)"
  by (simp_all add: relates_def get_state_def set_state_def modify_state_def io_bind_def stays split: prod.splits)

lemma relates_lift_world: "relates R id m \<Longrightarrow> relates R snd (lift_world m)"
proof (rule relatesI)
  fix w :: "run_state \<times> 'w" assume m: "relates R id m"
  obtain s v where w: "w = (s, v)" by fastforce
  obtain r u where "m v = (r, u)" by fastforce
  with relatesD [OF m this] show "R (snd w) (snd (snd (lift_world m w)))" by (simp add: w lift_world_def)
qed

lemma relates_save_state: "relates R snd (save_state p)"
  unfolding save_state_def by (intro relates_bind relates_state relates_lift_world related)

lemmas relates_steps = relates_bind relates_pure relates_state relates_lift_world relates_save_state related

lemma relates_persist_result: "relates R snd (persist_result p r)"
  unfolding persist_result_def by (intro relates_steps)

lemma relates_persist_all: "relates R snd (persist_all p rs)"
proof (induction rs)
  case Nil
  show ?case unfolding persist_all.simps by (rule relates_pure)
next
  case (Cons r rs)
  then show ?case unfolding persist_all.simps by (intro relates_bind relates_persist_result)
qed

lemma relates_run_one: "relates R snd (run_one p item)"
proof (rule relatesI)
  fix w
  have d: "relates R snd (dispatch p item)" unfolding dispatch_def by (intro relates_steps)
  obtain r v where "dispatch p item w = (r, v)" by (cases "dispatch p item w")
  with relatesD [OF d this] show "R (snd w) (snd (snd (run_one p item w)))"
    by (cases r) (simp_all add: run_one_def)
qed

lemma relates_run_writer: "relates R snd (run_writer p item)"
proof -
  have bracket: "relates R snd (io_bind (lift_world (sp_acquire p q)) (\<lambda>_. io_finally body (lift_world (sp_release p q))))"
    if "relates R snd body" for q and body :: "('w, unit) sched"
    by (rule relates_bracket [where q = q, OF _ _ that]) (simp_all add: lift_world_def case_prod_beta)
  show ?thesis
    unfolding run_writer_def
    by (rule relates_bind [OF relates_state(1)], rule relates_bind,
        intro relates_if relates_bind relates_state relates_save_state relates_pure)
      (intro bracket relates_bind relates_state relates_pure relates_run_one relates_persist_result)
qed

lemma relates_run_readers: "relates R snd (run_readers p ready)"
  unfolding run_readers_def run_read_batch_def by (intro relates_steps relates_persist_all)

lemma relates_run_step: "relates R snd (run_step p)"
proof -
  have "relates R snd (let ready = dispatchable (sp_sha p) s
       in if ready = [] then io_return False
          else (case filter is_writer ready of
                  item # _ \<Rightarrow> io_bind (run_writer p item) (\<lambda>_. io_return True)
                | [] \<Rightarrow> io_bind (run_readers p ready) (\<lambda>_. io_return True)))" for s
    unfolding Let_def
    by (cases "filter is_writer (dispatchable (sp_sha p) s)"; simp only: list.case)
      (intro relates_if relates_pure relates_bind relates_run_writer relates_run_readers)+
  then show ?thesis
    unfolding run_step_def by (intro relates_bind relates_state relates_persist_all)
qed

lemma relates_run_loop: "relates R snd (run_loop n p)"
proof (induction n)
  case 0
  show ?case unfolding run_loop.simps by (rule relates_pure)
next
  case (Suc n)
  then show ?case unfolding run_loop.simps by (intro relates_bind relates_if relates_run_step relates_pure)
qed

lemma relates_run_ready: "relates R snd (run_ready p)"
  unfolding run_ready_def finish_run_def
  by (intro relates_bind relates_if relates_state relates_run_loop relates_pure relates_save_state)

lemma relates_scheduler_port: "relates R id (scheduler_port p s)"
proof (rule relatesI)
  fix w
  obtain r t v where run: "run_ready p (s, w) = (r, (t, v))" by (metis surj_pair)
  with relatesD [OF relates_run_ready run] show "R (id w) (id (snd (scheduler_port p s w)))"
    by (cases r) (simp_all add: scheduler_port_def)
qed

end

section \<open>The use cases under leases\<close>

locale leased_application = lease "ap_acquire p" "ap_release p" R
  for p :: "'w app_ports" and R :: "'w \<Rightarrow> 'w \<Rightarrow> bool" +
  assumes related:
    "relates R id (ap_available_models p)" "relates R id (ap_inspect p project)"
    "relates R id (ap_plan p obj repo cfg)" "relates R id (ap_run_ready p s)" "relates R id (ap_create p s)"
    "relates R id (ap_load p rid digest acknowledge)" "relates R id (ap_save p s)"
    "relates R id (ap_append_event p rid ev)" "relates R id (ap_write_report p rid content)"
    "relates R id (ap_now p)" "relates R id (ap_new_run_id p)"
begin

lemmas relates_steps = relates_bind relates_pure relates_if related

lemma relates_with_lease: "relates R id body \<Longrightarrow> relates R id (with_lease p rid body)"
  unfolding with_lease_def by (rule relates_bracket [where q = rid]) simp_all

lemma relates_select_run_id: "relates R id (select_run_id p given)"
  unfolding select_run_id_def by (cases given) (auto intro: relates_steps)

lemma relates_helpers:
  "relates R id (app_event p s ev item details)" "relates R id (write_report p s)"
  "relates R id (validate_model_inventory p)" "relates R id (make_objective p project prompt task rid)"
  unfolding app_event_def write_report_def validate_model_inventory_def make_objective_def
  by (intro relates_steps)+

lemma relates_plan_unlocked: "relates R id (plan_unlocked p project prompt rid)"
  unfolding plan_unlocked_def by (intro relates_steps relates_helpers)

lemma relates_append_completion: "relates R id (append_completion p s)"
  unfolding append_completion_def Let_def by (intro relates_steps relates_helpers)

lemma relates_continue_run: "relates R id (continue_run p s)"
  unfolding continue_run_def by (intro relates_steps relates_helpers relates_append_completion)

lemma relates_use_cases:
  "relates R id (models p)" "relates R id (route_task p task prompt affected)"
  "relates R id (plan_objective p project prompt given)" "relates R id (run_objective p project prompt given)"
  "relates R id (run_task p project task prompt affected given)" "relates R id (status p rid)"
  "relates R id (app_approve p rid wid by_whom)" "relates R id (resume_run p rid acknowledge)"
  "relates R id (report p rid)"
  unfolding models_def route_task_def plan_objective_def run_objective_def run_task_def status_def
    app_approve_def resume_run_def report_def
  by (intro relates_with_lease relates_bind relates_select_run_id relates_plan_unlocked relates_continue_run
      relates_helpers related relates_pure relates_if | (split prod.split, intro allI impI))+

lemma relates_dispatch: "relates R id (dispatch_command p c)"
  unfolding dispatch_command_def
  by (cases c) (auto intro!: relates_bind relates_use_cases relates_pure split: option.split)

end

section \<open>The leases of the machine\<close>

definition gives_back :: "'u machine \<Rightarrow> 'u machine \<Rightarrow> bool" where
  "gives_back w w' \<longleftrightarrow> os_ok (ma_leases w) \<longrightarrow>
     tables (ma_leases w') = tables (ma_leases w) \<and> ma_held w' = ma_held w"

lemma gives_back_refl: "gives_back w w"
  by (simp add: gives_back_def)

lemma gives_back_trans: "gives_back u v \<Longrightarrow> gives_back v w \<Longrightarrow> gives_back u w"
  unfolding gives_back_def using tables_ok by metis

context opener
begin

lemma enter_refused:
  assumes "enter_lease k opn busy failure w = (Inl e, w')"
  shows "gives_back w w'"
  unfolding gives_back_def
proof
  assume ok: "os_ok (ma_leases w)"
  obtain r v where a: "acquire_cancellation_safe k opn busy failure (ma_leases w) = (r, v)" by fastforce
  from acquire_outcome [OF ok a] assms
  show "tables (ma_leases w') = tables (ma_leases w) \<and> ma_held w' = ma_held w"
    by (auto simp: enter_lease_def a split: sum.splits)
qed

lemma exit_released:
  assumes "enter_lease k opn busy failure w = (Inr (), v)" and "gives_back v u" and "exit_lease k u = (r, w')"
  shows "gives_back w w'"
  unfolding gives_back_def
proof
  assume ok: "os_ok (ma_leases w)"
  obtain s x where a: "acquire_cancellation_safe k opn busy failure (ma_leases w) = (s, x)" by fastforce
  then obtain fd where fd: "s = Inr fd" and v: "v = w\<lparr>ma_leases := x, ma_held := fd # ma_held w\<rparr>"
    using assms(1) by (auto simp: enter_lease_def split: sum.splits)
  with acquire_outcome [OF ok a] have holds: "holds k (ma_leases w) fd x" by simp
  then have "os_ok (ma_leases v)" using holds_ok [OF ok] by (simp add: v)
  with assms(2) have u: "tables (ma_leases u) = tables x" "ma_held u = fd # ma_held w"
    by (simp_all add: gives_back_def v)
  obtain y z where rel: "release_cancellation_safe k fd (ma_leases u) = (y, z)" by fastforce
  then obtain y' where "release_descriptor k fd (ma_leases u) = (y', z)"
    by (auto dest: release_cancellation_safe_snd)
  then have "tables z = tables (ma_leases w)" using release_descriptor_tables [OF ok holds u(1)] by blast
  moreover have "ma_leases w' = z \<and> ma_held w' = ma_held w"
    using assms(3) by (auto simp: exit_lease_def u(2) rel split: sum.splits)
  ultimately show "tables (ma_leases w') = tables (ma_leases w) \<and> ma_held w' = ma_held w" by simp
qed

end

interpretation project_leases: lease "enter_project_lease k" "\<lambda>_. exit_lease k" gives_back
  by unfold_locales
    (auto simp: enter_project_lease_def intro: gives_back_refl gives_back_trans
      project_directory.enter_refused project_directory.exit_released)

interpretation run_leases: lease "enter_run_lease k root" "\<lambda>_. exit_lease k" gives_back
  by unfold_locales
    (auto simp: enter_run_lease_def intro: gives_back_refl gives_back_trans
      run_lock.enter_refused run_lock.exit_released split: sum.splits)

lemma relates_zoom:
  "relates gives_back id (in_files m)" "relates gives_back id (in_tree n)" "relates gives_back id (in_rest l)"
  "relates gives_back id (in_client c h)"
  by (auto simp: relates_def in_files_def in_tree_def in_rest_def in_client_def zoom_def gives_back_def
      split: prod.splits)

interpretation composed_scheduler: leased_scheduler "scheduler_collaborators se x" gives_back
  unfolding leased_scheduler_def leased_scheduler_axioms_def
  by (simp add: scheduler_collaborators_def Let_def project_leases.lease_axioms relates_zoom)

lemma relates_planner_ports:
  "relates gives_back id (pl_read (make_planner c x schema) q)"
  "relates gives_back id (pl_run_new (make_planner c x schema) project rt prompt dev sch)"
  "relates gives_back id (pl_resume (make_planner c x schema) thread project rt prompt sch)"
  by (simp_all add: make_planner_def relates_zoom)

lemma relates_planner: "relates gives_back id (plan (make_planner c x schema) router_cfg obj repo cfg)"
proof -
  let ?p = "make_planner c x schema"
  note steps = project_leases.relates_bind project_leases.relates_pure project_leases.relates_map_error
    relates_planner_ports
  have load: "relates gives_back id (load_schema ?p q)" for q
    unfolding load_schema_def by (intro steps)
  have correct: "relates gives_back id (correct_plan ?p obj cfg sch rt first m)" for sch rt first m
    unfolding correct_plan_def by (auto intro!: steps split: option.split)
  have "relates gives_back id (case parse_and_validate ?p answer obj cfg sch of
         Inl (StructuralPlannerOutputError m) \<Rightarrow> correct_plan ?p obj cfg sch rt first m
       | Inl e \<Rightarrow> io_raise e
       | Inr items \<Rightarrow> io_return items)" for answer sch rt first
    by (auto split: sum.split exn.split simp del: io_return_apply intro: steps correct)
  then show ?thesis unfolding plan_def by (intro steps load)
qed

interpretation composed_application: leased_application "compose_application x se cfg path" gives_back
  unfolding leased_application_def leased_application_axioms_def
  by (simp add: compose_application_def Let_def run_leases.lease_axioms relates_zoom relates_planner
      composed_scheduler.relates_scheduler_port run_leases.relates_bind run_leases.relates_pure)

section \<open>The program\<close>

lemma relates_main_body: "relates gives_back id (main_body (program_ports x) args env)"
proof -
  note steps = run_leases.relates_bind run_leases.relates_pure run_leases.relates_if
  have load: "relates gives_back id (load_config (program_ports x) path env)" for path
    by (simp add: relates_def load_config_world gives_back_refl)
  have template: "relates gives_back id (cl_template (program_ports x))"
    by (simp add: program_ports_def shipped_template_def relates_zoom)
  have command: "relates gives_back id (dispatch_command (cl_application (program_ports x) se cfg path) c)" for se cfg path c
    unfolding program_ports_def by (simp add: composed_application.relates_dispatch)
  show ?thesis
    unfolding main_body_def Let_def by (intro steps load template command)
qed

text \<open>
  C13. The whole program gives its leases back: whatever the argument list and the configuration,
  whatever system call, turn or file operation fails, and however often the owner is cancelled
  while a lease is taken or released, the tables of open descriptors and of locks, and the leases
  that are held, are in the end as they were at the start.
\<close>

theorem program_gives_leases_back:
  assumes "os_ok (ma_leases w)" and "main_program x p argv w = (r, w')"
  shows "tables (ma_leases w') = tables (ma_leases w) \<and> ma_held w' = ma_held w"
proof -
  have "gives_back w (snd (goalrouter x args w))" for args
  proof -
    have "snd (goalrouter x args w) = snd (main_body (program_ports x) args (en_environ x) w)"
      by (auto simp: goalrouter_def async_main_def split: prod.splits sum.splits option.splits)
    then show ?thesis using relates_main_body [of x args "en_environ x"] by (simp add: relates_def)
  qed
  then have "gives_back w (snd (main_program x p argv w))"
    by (auto simp: main_program_def io_bind_def gives_back_refl split: parsed.split option.split prod.split sum.split)
      (metis snd_conv)+
  then have "gives_back w w'" using assms(2) by simp
  then show ?thesis using assms(1) by (simp add: gives_back_def)
qed

lemma program_gives_leases_back_witness:
  "tables (ma_leases (snd (main_program ex_externals ex_argparse ex_argv (ex_machine (ex_disk (\<lambda>_. None) []))))) = ([(0, 7)], [])
     \<and> ma_held (snd (main_program ex_externals ex_argparse ex_argv (ex_machine (ex_disk (\<lambda>_. None) [])))) = []"
proof -
  obtain r w' where run: "main_program ex_externals ex_argparse ex_argv (ex_machine (ex_disk (\<lambda>_. None) [])) = (r, w')"
    by (cases "main_program ex_externals ex_argparse ex_argv (ex_machine (ex_disk (\<lambda>_. None) []))")
  have "os_ok (ma_leases (ex_machine (ex_disk (\<lambda>_. None) [])))" by (simp add: ex_machine_def ex_os_ok)
  from program_gives_leases_back [OF this run] run show ?thesis by (simp add: ex_machine_def ex_os_def tables_def)
qed

end
