(* ===== verification/Store_Moments.thy ===== *)
theory Store_Moments
  imports Store
begin

text \<open>
  What is at one path at every moment: \<open>holds_since q A old w\<close> says that the history of \<open>w\<close>
  continues \<open>old\<close>, and that the content of \<open>q\<close> was in \<open>A\<close> at every moment since and is now. A save
  keeps that for the snapshot of its run when \<open>A\<close> has the new text, every other operation of the
  store keeps it for any snapshot.
\<close>

definition holds_since :: "path \<Rightarrow> string option set \<Rightarrow> (path \<Rightarrow> string option) list \<Rightarrow> fs \<Rightarrow> bool" where
  "holds_since q A old w \<longleftrightarrow>
     (\<exists>l. fs_history w = old @ l \<and> (\<forall>h \<in> set l. h q \<in> A)) \<and> fs_files w q \<in> A"

lemma holds_since_start: "fs_files w q \<in> A \<Longrightarrow> holds_since q A (fs_history w) w"
  by (simp add: holds_since_def)

lemma holds_since_now: "holds_since q {x} old w \<Longrightarrow> fs_files w q = x"
  by (simp add: holds_since_def)

lemma holds_since_prim:
  assumes "holds_since q A old w" and "\<And>k. partial k w q \<in> A" and "fst (snd (ok w)) q \<in> A"
  shows "holds_since q A old (snd (fs_prim ok partial w))"
  using assms by (auto simp: holds_since_def fs_prim_simps split: option.splits)

lemma keeps_since_prim:
  assumes "\<And>w k. fs_files w q \<in> A \<Longrightarrow> partial k w q \<in> A" and "\<And>w. fs_files w q \<in> A \<Longrightarrow> fst (snd (ok w)) q \<in> A"
  shows "io_keeps (holds_since q A old) (fs_prim ok partial)"
  unfolding io_keeps_def
proof (intro allI impI)
  fix w assume h: "holds_since q A old w"
  then have "fs_files w q \<in> A" by (simp add: holds_since_def)
  with h assms show "holds_since q A old (snd (fs_prim ok partial w))" by (intro holds_since_prim)
qed

lemma keeps_since_calls:
  "io_keeps (holds_since q A old) (fs_mkdir_parents p)" "io_keeps (holds_since q A old) (fs_mkdir_new p)"
  "io_keeps (holds_since q A old) fs_fsync" "io_keeps (holds_since q A old) (fs_read_text p)"
  "p \<noteq> q \<Longrightarrow> io_keeps (holds_since q A old) (fs_append_text p t)"
  "p \<noteq> q \<Longrightarrow> io_keeps (holds_since q A old) (fs_write_text p t)"
  "p \<noteq> q \<Longrightarrow> io_keeps (holds_since q A old) (fs_unlink_missing_ok p)"
  "p \<noteq> q \<Longrightarrow> p' \<noteq> q \<Longrightarrow> io_keeps (holds_since q A old) (fs_replace p p')"
  "(\<And>r. temp_path p pre r \<noteq> q) \<Longrightarrow> io_keeps (holds_since q A old) (fs_mkstemp p pre)"
  unfolding fs_prims by (rule keeps_since_prim; auto split: option.splits)+

lemma keeps_since_tests:
  "io_keeps (holds_since q A old) (fs_is_dir p)" "io_keeps (holds_since q A old) (fs_is_file p)"
  by (simp_all add: io_keeps_def fs_is_dir_def fs_is_file_def)

lemma io_keeps_if: "io_keeps I m \<Longrightarrow> io_keeps I n \<Longrightarrow> io_keeps I (if b then m else n)"
  by simp

section \<open>Atomic writes\<close>

text \<open>An invariant is kept by an atomic write when each of its steps keeps it, for the temporary names it may use.\<close>

lemma atomic_write_keeps:
  assumes mk: "io_keeps I (fs_mkstemp (parent_of p) (temp_prefix p))"
    and steps: "\<And>r. let tmp = temp_path (parent_of p) (temp_prefix p) r in
      io_keeps I (fs_append_text tmp t) \<and> io_keeps I (fs_replace tmp p) \<and> io_keeps I (fs_unlink_missing_ok tmp)"
    and sync: "io_keeps I fs_fsync"
  shows "io_keeps I (atomic_write_text p t)"
  unfolding io_keeps_def
proof (intro allI impI)
  fix w assume h: "I w"
  obtain m w1 where m: "fs_mkstemp (parent_of p) (temp_prefix p) w = (m, w1)" by fastforce
  have h1: "I w1" using io_keepsD [OF mk h] m by simp
  show "I (snd (atomic_write_text p t w))"
  proof (cases m)
    case (Inl e)
    then show ?thesis using m h1 by (simp add: atomic_write_text_def io_bind_def)
  next
    case (Inr tmp)
    then obtain r where tmp: "tmp = temp_path (parent_of p) (temp_prefix p) r"
      using m by (auto simp: fs_mkstemp_def fs_prim_def os_error_def split: option.splits)
    let ?body = "io_bind (fs_append_text tmp t) (\<lambda>_. io_bind fs_fsync (\<lambda>_. fs_replace tmp p))"
    note kept = steps [of r, unfolded Let_def, folded tmp]
    have "io_keeps I ?body" using kept sync by (intro io_keeps_bind) simp_all
    from io_keepsD [OF this h1] have h2: "I (snd (?body w1))" .
    obtain x w2 where b: "?body w1 = (x, w2)" by (cases "?body w1")
    obtain y w3 where u: "fs_unlink_missing_ok tmp w2 = (y, w3)" by (cases "fs_unlink_missing_ok tmp w2")
    have h3: "I w2" "I w3" using h2 b io_keepsD [of I "fs_unlink_missing_ok tmp" w2] kept u by simp_all
    have "atomic_write_text p t w = (case x of Inr _ \<Rightarrow> (Inr (), w2)
       | Inl e \<Rightarrow> (case y of Inl e' \<Rightarrow> (Inl e', w3) | Inr _ \<Rightarrow> (Inl e, w3)))"
      by (simp add: atomic_write_text_def io_bind_simps(2) [where m = "fs_mkstemp (parent_of p) (temp_prefix p)" and w = w and a = tmp and w' = w1, OF m [unfolded Inr]] b u split: sum.split)
    then show ?thesis using h3 by (simp split: sum.split)
  qed
qed

lemma keeps_since_write:
  assumes "p \<noteq> q" and "\<And>r. temp_path (parent_of p) (temp_prefix p) r \<noteq> q"
  shows "io_keeps (holds_since q A old) (atomic_write_text p t)"
  using assms by (intro atomic_write_keeps) (simp_all add: Let_def keeps_since_calls)

lemma history_grows: "io_keeps (holds_since q UNIV old) (atomic_write_text p t)"
proof -
  have prim: "io_keeps (holds_since q UNIV old) (fs_prim ok partial)" for ok :: "fs \<Rightarrow> (exn + 'a) \<times> _" and partial
    by (rule keeps_since_prim) simp_all
  show ?thesis by (rule atomic_write_keeps) (simp_all add: Let_def fs_prims prim)
qed

lemma keeps_since_replace:
  assumes "path_parts q \<noteq> []" and "Some t \<in> A"
  shows "io_keeps (holds_since q A old) (atomic_write_text q t)"
  unfolding io_keeps_def
proof (intro allI impI)
  fix w assume h: "holds_since q A old w"
  then obtain l where l: "fs_history w = old @ l" "\<forall>g \<in> set l. g q \<in> A" and now: "fs_files w q \<in> A"
    by (auto simp: holds_since_def)
  obtain r w' where run: "atomic_write_text q t w = (r, w')" by fastforce
  obtain l' where l': "fs_history w' = fs_history w @ l'"
    using io_keepsD [OF history_grows holds_since_start, of w q q t] run by (auto simp: holds_since_def)
  obtain tmp where "crash_safe q t tmp (fs_files w) (length (fs_history w)) w'"
    using atomic_write_text_spec(1) [OF assms(1) run] by blast
  then have "\<forall>g \<in> set l'. g q \<in> {fs_files w q, Some t}" and "fs_files w' q \<in> {fs_files w q, Some t}"
    by (auto simp: crash_safe_def snapshot_ok_def list_all_iff l')
  then show "holds_since q A old (snd (atomic_write_text q t w))"
    using l l' now assms(2) run by (auto simp: holds_since_def)
qed

section \<open>The operations of the store\<close>

lemma temp_path_name: "name_of (temp_path d pre r) = pre @ r @ ''.tmp''"
  by (simp add: temp_path_def name_of_def)

lemma temp_not_state: "temp_path d pre r \<noteq> state_path root rid"
proof
  assume "temp_path d pre r = state_path root rid"
  then have "name_of (temp_path d pre r) = ''state.json''" by simp
  then have "rev (pre @ r @ ''.tmp'') = rev ''state.json''" unfolding temp_path_name by simp
  then show False by simp
qed

lemma other_names: "events_path root' rid' \<noteq> state_path root rid" "report_path root' rid' \<noteq> state_path root rid"
proof -
  have "p \<noteq> q" if "name_of p \<noteq> name_of q" for p q using that by blast
  then show "events_path root' rid' \<noteq> state_path root rid" "report_path root' rid' \<noteq> state_path root rid"
    by simp_all
qed

lemma keeps_since_save:
  assumes "Some (state_text s) \<in> A"
  shows "io_keeps (holds_since (state_path root (run_id s)) A old) (store_save root s)"
  unfolding store_save_def save_sync_def atomic_json_text
  by (intro io_keeps_bind io_keeps_map_error io_keeps_lift keeps_since_tests io_keeps_if io_keeps_raise keeps_since_replace assms store_paths)

lemma keeps_since_store:
  "io_keeps (holds_since (state_path root' rid') A old) (store_append_event root rid ev)"
  "io_keeps (holds_since (state_path root' rid') A old) (store_write_report root rid t)"
  "io_keeps (holds_since (state_path root' rid') A old) (store_load root rid digest acknowledge)"
  unfolding store_append_event_def append_event_sync_def store_write_report_def write_report_sync_def
    store_load_def load_sync_def
  by (auto intro!: io_keeps_bind io_keeps_map_error keeps_since_calls keeps_since_tests keeps_since_write other_names temp_not_state
      split: option.split simp del: store_paths)

end
