(* ===== verification/Composed_Runs.thy ===== *)
theory Composed_Runs
  imports Composition_Example Run_Properties Store_Moments
begin

text \<open>
  Runs of the composed program on disk: what a use case returns is what the run store has in the
  end, and a resumed run loses no finished result, whatever fails and at whatever moment the
  process dies.
\<close>

section \<open>The files of the machine\<close>

abbreviation files_keep :: "(fs \<Rightarrow> bool) \<Rightarrow> ('u machine, 'a) eff \<Rightarrow> bool" where
  "files_keep J \<equiv> io_keeps (\<lambda>w. J (ma_files w))"

lemma files_keep_in_files: "io_keeps J m \<Longrightarrow> files_keep J (in_files m)"
  by (simp add: io_keeps_def in_files_def zoom_def case_prod_beta)

lemma files_keep_outside:
  "files_keep J (in_tree n)" "files_keep J (in_rest l)" "files_keep J (in_client c h)"
  "files_keep J (enter_lease k opn busy failure)" "files_keep J (exit_lease k)"
  "files_keep J (enter_run_lease k root rid)" "files_keep J (enter_project_lease k q)"
  by (auto simp: io_keeps_def in_tree_def in_rest_def in_client_def zoom_def enter_lease_def exit_lease_def
      enter_run_lease_def enter_project_lease_def split: prod.splits sum.splits list.splits)

lemma in_files_apply: "in_files m w = (r, w') \<Longrightarrow> m (ma_files w) = (r, ma_files w')"
  by (auto simp: in_files_def zoom_def split: prod.splits)



section \<open>What is on disk\<close>






section \<open>What a use case returns\<close>



















section \<open>Resuming\<close>

definition keeps_finished :: "run_state \<Rightarrow> run_state \<Rightarrow> bool" where
  "keeps_finished s0 s \<longleftrightarrow> run_id s = run_id s0
     \<and> (\<forall>k. finished s0 k \<longrightarrow> map_of (st_results s) k = map_of (st_results s0) k)"

text \<open>A snapshot is the one from the start or that of a state that has kept every finished result.\<close>

definition checkpoint_of :: "run_state \<Rightarrow> string option \<Rightarrow> string option \<Rightarrow> bool" where
  "checkpoint_of s0 c0 c \<longleftrightarrow> c = c0 \<or> (\<exists>s. c = Some (state_text s) \<and> keeps_finished s0 s)"

abbreviation snapshots_kept ::
  "path \<Rightarrow> run_state \<Rightarrow> string option \<Rightarrow> (path \<Rightarrow> string option) list \<Rightarrow> fs \<Rightarrow> bool" where
  "snapshots_kept root s0 c0 \<equiv> holds_since (state_path root (run_id s0)) {c. checkpoint_of s0 c0 c}"

lemma keeps_finished_refl: "keeps_finished s s"
  by (simp add: keeps_finished_def)

lemma keeps_finished_trans:
  assumes "keeps_finished s0 s1" and "keeps_finished s1 s2"
  shows "keeps_finished s0 s2"
proof -
  have "finished s1 k" if "finished s0 k" for k
    using assms(1) that by (simp add: keeps_finished_def finished_def is_pending_def)
  then show ?thesis using assms unfolding keeps_finished_def by metis
qed

lemma keeps_finished_sched: "keeps_finished s0 s1 \<Longrightarrow> sched_inv sha s1 s \<Longrightarrow> keeps_finished s0 s"
  by (rule keeps_finished_trans)
    (auto simp: keeps_finished_def sched_inv_def dest: same_plan_simps(7))

lemma keeps_finished_update:
  "keeps_finished s0 s \<Longrightarrow> st_results s' = st_results s \<Longrightarrow> run_id s' = run_id s \<Longrightarrow> keeps_finished s0 s'"
  by (simp add: keeps_finished_def)

lemma save_keeps_snapshots:
  "keeps_finished s0 s \<Longrightarrow> files_keep (snapshots_kept root s0 c0 old) (in_files (store_save root s))"
  using keeps_since_save [of s "{c. checkpoint_of s0 c0 c}" root old]
  by (intro files_keep_in_files) (auto simp: keeps_finished_def checkpoint_of_def)

interpretation composed_snapshots: watched_scheduler "scheduler_collaborators se x"
  "\<lambda>w. snapshots_kept (se_state_path se) s0 c0 old (ma_files w)" "keeps_finished s0"
  by unfold_locales
    (simp_all add: scheduler_collaborators_def Let_def save_keeps_snapshots files_keep_outside
      files_keep_in_files keeps_since_store)

lemma run_keeps_snapshots:
  assumes "keyed s1" and "keeps_finished s0 s1"
  shows "io_spec (\<lambda>w. snapshots_kept (se_state_path se) s0 c0 old (ma_files w))
     (scheduler_port (scheduler_collaborators se x) s1)
     (\<lambda>s w. snapshots_kept (se_state_path se) s0 c0 old (ma_files w) \<and> sched_inv (en_sha x) s1 s)
     (\<lambda>w. snapshots_kept (se_state_path se) s0 c0 old (ma_files w))"
proof -
  let ?I = "\<lambda>w. snapshots_kept (se_state_path se) s0 c0 old (ma_files w)"
  have sha: "sp_sha (scheduler_collaborators se x) = en_sha x"
    by (simp add: scheduler_collaborators_def Let_def)
  have "watched_run (scheduler_collaborators se x) ?I (keeps_finished s0) s1"
    using composed_snapshots.watched_scheduler_axioms keeps_finished_sched [OF assms(2)]
    by (intro watched_run.intro watched_run_axioms.intro)
  note spec = watched_run.spec_run_ready [OF this assms(1), unfolded sha]
  show ?thesis
  proof (rule io_specI)
    fix w s w' assume "?I w" and "scheduler_port (scheduler_collaborators se x) s1 w = (Inr s, w')"
    then have "watching ?I (\<lambda>s. s = s1) (s1, w)" and "run_ready (scheduler_collaborators se x) (s1, w) = (Inr (), (s, w'))"
      by (simp_all add: watching_def scheduler_port_Inr)
    from io_spec_Inr [OF spec this] show "?I w' \<and> sched_inv (en_sha x) s1 s" by (simp add: watching_def)
  next
    fix w e w' assume I: "?I w" and run: "scheduler_port (scheduler_collaborators se x) s1 w = (Inl e, w')"
    obtain s where "run_ready (scheduler_collaborators se x) (s1, w) = (Inl e, (s, w'))"
      using run by (auto simp: scheduler_port_def split: prod.splits sum.splits)
    from io_spec_Inl [OF spec _ this] I show "?I w'" by (simp add: watching_def)
  qed
qed

interpretation composed_use_cases: app_scheduler "compose_application x se cfg path"
proof -
  have "compose_application x se cfg path
      = (compose_application x se cfg path)\<lparr>ap_run_ready := scheduler_port (scheduler_collaborators se x)\<rparr>"
    by (simp add: compose_application_def Let_def)
  then show "app_scheduler (compose_application x se cfg path)" using app.app_scheduler_axioms by metis
qed

text \<open>A step that keeps an invariant, with a fact about what it returns.\<close>

lemma keeps_bind_fact:
  assumes "io_keeps I m" and "\<And>w a v. m w = (Inr a, v) \<Longrightarrow> P a" and "\<And>a. P a \<Longrightarrow> io_keeps I (f a)"
  shows "io_keeps I (io_bind m f)"
  unfolding io_keeps_def
proof (intro allI impI)
  fix w assume "I w"
  obtain r v where m: "m w = (r, v)" by (cases "m w")
  with io_keepsD [OF assms(1) \<open>I w\<close>] have v: "I v" by simp
  show "I (snd (io_bind m f w))"
  proof (cases r)
    case (Inl e)
    then show ?thesis using m v by (simp add: io_bind_def)
  next
    case (Inr a)
    then show ?thesis using m io_keepsD [OF assms(3) [OF assms(2)] v] by (simp add: io_bind_def)
  qed
qed

definition resumable :: "run_state \<Rightarrow> run_state \<Rightarrow> bool" where
  "resumable s0 s \<longleftrightarrow> keyed s \<and> results_of_items s \<and> keeps_finished s0 s"

lemma run_ready_keeps:
  assumes "resumable s0 s"
  shows "files_keep (snapshots_kept (se_state_path se) s0 c0 old) (ap_run_ready (compose_application x se cfg path) s)"
    and "ap_run_ready (compose_application x se cfg path) s w = (Inr s', w') \<Longrightarrow> resumable s0 s'"
proof -
  note s = assms [unfolded resumable_def]
  let ?I = "\<lambda>w. snapshots_kept (se_state_path se) s0 c0 old (ma_files w)"
  note spec = run_keeps_snapshots [where se = se and ?c0.0 = c0 and old = old and x = x, of s s0]
  have "io_spec ?I (scheduler_port (scheduler_collaborators se x) s) (\<lambda>_. ?I) ?I"
    by (rule io_spec_weaken [OF spec]) (use s in auto)
  then show "io_keeps ?I (ap_run_ready (compose_application x se cfg path) s)"
    unfolding composed_simps io_keeps_def using io_spec_snd [OF _ _ surjective_pairing, of ?I] by blast
next
  note s = assms [unfolded resumable_def]
  assume run: "ap_run_ready (compose_application x se cfg path) s w = (Inr s', w')"
  have port: "scheduler_port (scheduler_collaborators se x) s w = (Inr s', w')"
    using run by (simp add: composed_simps)
  have "snapshots_kept (se_state_path se) s0 (fs_files (ma_files w) (state_path (se_state_path se) (run_id s0)))
      (fs_history (ma_files w)) (ma_files w)"
    by (rule holds_since_start) (simp add: checkpoint_of_def)
  then have "sched_inv (en_sha x) s s'"
    using io_spec_Inr [OF run_keeps_snapshots [of s s0] _ port] s by blast
  then have "keeps_finished s0 s'" using s keeps_finished_sched by blast
  then show "resumable s0 s'" using composed_use_cases.scheduled_ok [OF _ _ run] s by (simp add: resumable_def)
qed

lemma append_keeps:
  assumes "resumable s0 s"
  shows "files_keep (snapshots_kept (se_state_path se) s0 c0 old) (append_completion (compose_application x se cfg path) s)"
    and "append_completion (compose_application x se cfg path) s w = (Inr s', w') \<Longrightarrow> resumable s0 s'"
proof -
  note s = assms [unfolded resumable_def]
  let ?s = "\<lambda>rt. s\<lparr>st_work_items := dset (st_work_items s) completion_id (completion_item s (cf_completion_task cfg)),
      st_routes := dset (st_routes s) completion_id rt, st_status := RunPlanned\<rparr>"
  have "keeps_finished s0 (?s rt)" for rt
    by (rule keeps_finished_update [OF conjunct2 [OF conjunct2 [OF s]]]) (simp_all add: run_id_def)
  note saved = save_keeps_snapshots [OF this]
  have event: "files_keep (snapshots_kept (se_state_path se) s0 c0 old) (app_event (compose_application x se cfg path) s' ev item details)"
    for s' ev item details
    unfolding app_event_def composed_simps
    by (intro io_keeps_bind files_keep_outside files_keep_in_files keeps_since_store)
  show "files_keep (snapshots_kept (se_state_path se) s0 c0 old) (append_completion (compose_application x se cfg path) s)"
    unfolding append_completion_def Let_def composed_simps
    by (rule io_keeps_bind [OF io_keeps_lift], rule io_keeps_bind [OF saved], rule io_keeps_bind [OF event io_keeps_return])
  assume run: "append_completion (compose_application x se cfg path) s w = (Inr s', w')"
  then have "run_id s' = run_id s"
    unfolding append_completion_def Let_def by (auto simp: io_bind_Inr_iff run_id_def)
  with composed_use_cases.append_completion_ok [OF run] s show "resumable s0 s'"
    by (simp add: resumable_def keeps_finished_def)
qed

lemma continue_keeps:
  assumes "resumable s0 s"
  shows "files_keep (snapshots_kept (se_state_path se) s0 c0 old) (continue_run (compose_application x se cfg path) s)"
proof -
  let ?p = "compose_application x se cfg path" and ?K = "files_keep (snapshots_kept (se_state_path se) s0 c0 old)"
  have report: "?K (io_bind (write_report ?p s3) (\<lambda>_. io_return s3))" for s3
    unfolding write_report_def composed_simps
    by (intro io_keeps_bind io_keeps_lift io_keeps_return files_keep_in_files keeps_since_store)
  have appended: "?K (if map_of (st_work_items s1) completion_id = None then append_completion ?p s1 else io_return s1)"
    if "resumable s0 s1" for s1
    by (rule io_keeps_if [OF append_keeps(1) [OF that] io_keeps_return])
  have appended_fact: "resumable s0 s2"
    if "resumable s0 s1" "(if map_of (st_work_items s1) completion_id = None then append_completion ?p s1 else io_return s1) w
      = (Inr s2, v)" for s1 s2 w v
    using that append_keeps(2) [OF that(1)] by (simp split: if_splits)
  have review: "?K (if map_of (st_results s2) completion_id = None then ap_run_ready ?p s2 else io_return s2)"
    if "resumable s0 s2" for s2
    by (rule io_keeps_if [OF run_ready_keeps(1) [OF that] io_keeps_return])
  show ?thesis
    unfolding continue_run_def
    by (rule keeps_bind_fact [OF run_ready_keeps(1) [OF assms] run_ready_keeps(2) [OF assms]], assumption,
        rule io_keeps_bind [OF _ report], rule io_keeps_if)
      (rule keeps_bind_fact [OF appended appended_fact review], assumption+, rule io_keeps_return)
qed

lemma read_text_Inr: "fs_read_text p w = (Inr t, w') \<Longrightarrow> fs_files w p = Some t"
  by (auto simp: fs_read_text_def fs_prim_def os_error_def split: option.splits)

lemma store_load_Inr:
  assumes "store_load root rid digest acknowledge w = (Inr s, w')"
  shows "stored_state root w rid = Inr s"
proof -
  obtain v where "load_sync root rid w = (Inr s, v)"
    using assms unfolding store_load_def
    by (auto simp: io_bind_Inr_iff validate_run_id_Inr_iff split: option.splits if_splits)
  then obtain t where "fs_files w (state_path root rid) = Some t" and "decode_state rid t = Inr s"
    unfolding load_sync_def by (auto simp: io_bind_Inr_iff io_map_error_Inr_iff dest: read_text_Inr)
  then show ?thesis by (simp add: stored_state_def)
qed

lemma adopt_keeps:
  assumes "adopt_configuration cfg s = Inr s'"
  shows "st_work_items s' = st_work_items s \<and> st_results s' = st_results s \<and> run_id s' = run_id s"
  using assms by (auto simp: adopt_configuration_def rbind_eq_Inr_iff run_id_def)

lemma adopt_resumable: "adopt_configuration cfg s = Inr s' \<Longrightarrow> resumable s0 s \<Longrightarrow> resumable s0 s'"
  by (drule adopt_keeps) (simp add: resumable_def keyed_def results_of_items_def keeps_finished_def)

text \<open>What \<open>resume\<close> does after loading.\<close>

lemma resumed_keeps:
  assumes "resumable s0 s"
  shows "files_keep (snapshots_kept (se_state_path se) s0 c0 old)
    (io_bind (if st_configuration_digest s \<noteq> cf_digest cfg
              then io_bind (io_lift (adopt_configuration cfg s)) (\<lambda>s'.
                   io_bind (ap_save (compose_application x se cfg path) s') (\<lambda>_.
                   io_bind (app_event (compose_application x se cfg path) s' ''configuration-change-acknowledged'' None [])
                     (\<lambda>_. io_return s')))
              else io_return s) (\<lambda>s'.
     io_bind (validate_model_inventory (compose_application x se cfg path)) (\<lambda>_.
       continue_run (compose_application x se cfg path) s')))"
proof -
  let ?p = "compose_application x se cfg path" and ?K = "files_keep (snapshots_kept (se_state_path se) s0 c0 old)"
  have event: "?K (app_event ?p s' ev item details)" for s' ev item details
    unfolding app_event_def composed_simps
    by (intro io_keeps_bind files_keep_outside files_keep_in_files keeps_since_store)
  have adopted: "?K (io_bind (io_lift (adopt_configuration cfg s)) (\<lambda>s'. io_bind (ap_save ?p s') (\<lambda>_.
      io_bind (app_event ?p s' ''configuration-change-acknowledged'' None []) (\<lambda>_. io_return s'))))"
    unfolding composed_simps
  proof (rule keeps_bind_fact [OF io_keeps_lift])
    fix w v s' assume "io_lift (adopt_configuration cfg s) w = (Inr s', v)"
    then show "resumable s0 s'" by (auto simp: io_lift_def intro: adopt_resumable [OF _ assms])
  next
    fix s' assume "resumable s0 s'"
    then have "keeps_finished s0 s'" by (simp add: resumable_def)
    from save_keeps_snapshots [OF this] event
    show "?K (io_bind (in_files (store_save (se_state_path se) s')) (\<lambda>_.
        io_bind (app_event ?p s' ''configuration-change-acknowledged'' None []) (\<lambda>_. io_return s')))"
      by (intro io_keeps_bind io_keeps_return)
  qed
  have inventory: "?K (validate_model_inventory ?p)"
    unfolding validate_model_inventory_def composed_simps by (intro io_keeps_bind io_keeps_lift files_keep_outside)
  show ?thesis
    by (rule keeps_bind_fact [where P = "resumable s0", OF io_keeps_if [OF adopted io_keeps_return]])
      (auto simp: io_bind_Inr_iff assms intro: adopt_resumable [OF _ assms] io_keeps_bind [OF inventory continue_keeps]
        split: if_splits)
qed

lemma io_spec_bind_known:
  assumes "io_spec P m (\<lambda>a w. a = a0 \<and> I w) E" and "io_spec I (f a0) Q E"
  shows "io_spec P (io_bind m f) Q E"
  by (rule io_spec_bind [OF assms(1)]) (use assms(2) in \<open>auto simp: io_spec_def\<close>)

lemma resume_run_keeps:
  fixes x :: "'u externals"
  assumes stored: "stored_state (se_state_path se) v rid = Inr s0" and s0: "run_id s0 = rid" "resumable s0 s0"
  shows "io_spec (\<lambda>w :: 'u machine. ma_files w = v) (resume_run (compose_application x se cfg path) rid acknowledge)
    (\<lambda>_ w. snapshots_kept (se_state_path se) s0 (fs_files v (state_path (se_state_path se) rid)) (fs_history v) (ma_files w))
    (\<lambda>w. snapshots_kept (se_state_path se) s0 (fs_files v (state_path (se_state_path se) rid)) (fs_history v) (ma_files w))"
proof -
  let ?I = "\<lambda>w :: 'u machine. snapshots_kept (se_state_path se) s0 (fs_files v (state_path (se_state_path se) rid)) (fs_history v) (ma_files w)"
  have start: "?I w" if "ma_files w = v" for w :: "'u machine"
    using holds_since_start [of v "state_path (se_state_path se) (run_id s0)"] that s0(1) by (simp add: checkpoint_of_def)
  have kept: "io_spec ?I m (\<lambda>_. ?I) ?I" if "io_keeps ?I m" for m :: "('u machine, 'b) eff"
    using that unfolding io_keeps_def io_spec_def by (metis snd_conv)
  have enter: "io_spec (\<lambda>w :: 'u machine. ma_files w = v) (enter_run_lease (en_kernel x) (se_state_path se) rid)
      (\<lambda>_ w. ma_files w = v) ?I"
  proof (rule io_specI)
    note same = files_keep_outside(6) [where J = "\<lambda>u. u = v", THEN io_keepsD]
    fix w :: "'u machine" and w' and a assume w: "ma_files w = v"
      and run: "enter_run_lease (en_kernel x) (se_state_path se) rid w = (Inr a, w')"
    show "ma_files w' = v"
      using same [OF w, of "en_kernel x" "se_state_path se" rid] run by simp
  next
    note same = files_keep_outside(6) [where J = "\<lambda>u. u = v", THEN io_keepsD]
    fix w :: "'u machine" and w' and e assume w: "ma_files w = v"
      and run: "enter_run_lease (en_kernel x) (se_state_path se) rid w = (Inl e, w')"
    show "?I w'"
      by (rule start) (use same [OF w, of "en_kernel x" "se_state_path se" rid] run in simp)
  qed
  have load: "io_spec (\<lambda>w :: 'u machine. ma_files w = v)
      (in_files (store_load (se_state_path se) rid digest acknowledge)) (\<lambda>s w. s = s0 \<and> ?I w) ?I" for digest
  proof (rule io_specI)
    fix w :: "'u machine" and s w' assume w: "ma_files w = v"
      and run: "in_files (store_load (se_state_path se) rid digest acknowledge) w = (Inr s, w')"
    have "?I (snd (in_files (store_load (se_state_path se) rid digest acknowledge) w))"
      by (rule io_keepsD [where I = ?I, OF files_keep_in_files [OF keeps_since_store(3)] start [OF w]])
    then show "s = s0 \<and> ?I w'" using store_load_Inr [OF in_files_apply [OF run]] stored w run by simp
  next
    fix w :: "'u machine" and e w' assume w: "ma_files w = v"
      and run: "in_files (store_load (se_state_path se) rid digest acknowledge) w = (Inl e, w')"
    have "?I (snd (in_files (store_load (se_state_path se) rid digest acknowledge) w))"
      by (rule io_keepsD [where I = ?I, OF files_keep_in_files [OF keeps_since_store(3)] start [OF w]])
    then show "?I w'" using run by simp
  qed
  have exit: "io_spec ?I (exit_lease (en_kernel x)) (\<lambda>_. ?I) ?I"
    by (rule kept [OF files_keep_outside(5)])
  show ?thesis
    unfolding resume_run_def with_lease_def composed_simps
    by (rule io_spec_bind [OF enter], rule io_spec_finally [OF _ exit exit], rule io_spec_bind_known [OF load],
        rule kept, rule resumed_keeps [OF s0(2), unfolded composed_simps])
qed

text \<open>
  C6. Resuming a run loses no finished result. From the moment the lease is asked for to the end,
  returning or raising, whatever fails in the SDK, the store, the inspection or the kernel, the
  snapshot of the run is at every moment (hence also after a crash there) the one that was stored
  or the complete text of a state with the same result for every item that was finished.
\<close>

theorem resume_loses_no_finished_result:
  assumes "stored_state (se_state_path se) (ma_files w) rid = Inr s0" and "run_id s0 = rid"
    and "keyed s0" and "results_of_items s0"
    and "resume_run (compose_application x se cfg path) rid acknowledge w = (r, w')"
  shows "\<exists>moments. fs_history (ma_files w') = fs_history (ma_files w) @ moments
    \<and> (\<forall>h \<in> insert (fs_files (ma_files w')) (set moments).
         h (state_path (se_state_path se) rid) = fs_files (ma_files w) (state_path (se_state_path se) rid)
         \<or> (\<exists>s. h (state_path (se_state_path se) rid) = Some (state_text s) \<and> run_id s = rid
              \<and> (\<forall>k. finished s0 k \<longrightarrow> map_of (st_results s) k = map_of (st_results s0) k)))"
proof -
  have "resumable s0 s0" using assms(3,4) by (simp add: resumable_def keeps_finished_refl)
  from io_spec_snd [OF resume_run_keeps [OF assms(1,2) this] refl assms(5)] assms(2) show ?thesis
    by (auto simp: holds_since_def checkpoint_of_def keeps_finished_def)
qed

lemma resume_loses_no_finished_result_witness:
  "\<exists>s. fs_files (ma_files (snd (resume_run (compose_application ex_externals ex_settings ex_config ex_root) ''r1'' False
        (ex_machine (ex_disk [state_path ex_root ''r1'' \<mapsto> state_text ex_first] []))))) (state_path ex_root ''r1'')
      = Some (state_text s)
    \<and> map_of (st_results s) ''a'' = Some (ex_result ''a'' Succeeded)"
proof -
  let ?w = "ex_machine (ex_disk [state_path ex_root ''r1'' \<mapsto> state_text ex_first] [])"
  obtain r w' where run: "resume_run (compose_application ex_externals ex_settings ex_config ex_root) ''r1'' False ?w = (r, w')"
    by (cases "resume_run (compose_application ex_externals ex_settings ex_config ex_root) ''r1'' False ?w")
  have "stored_state (se_state_path ex_settings) (ma_files ?w) ''r1'' = Inr (canonical ex_first)"
    by (simp add: stored_state_def ex_parts ex_machine_def ex_disk_def decode_state_text [OF ex_first_storable])
  from resume_loses_no_finished_result [OF this ex_first_loaded(3,1,2) run] run show ?thesis
    by (auto simp: ex_parts ex_machine_def ex_disk_def ex_first_loaded intro: ex_first_result)
qed

end
