(* ===== verification/Guarded_Runs.thy ===== *)
theory Guarded_Runs
  imports Composed_Runs
begin

text \<open>
  Every command of the composed program under the observer \<open>guarded\<close>: a run is created, saved,
  scheduled, logged or reported only while the lease of that very run is held. \<open>shadows\<close> says that
  the observer only watches: the run it watches is the run of the program.
\<close>

section \<open>The observer changes nothing\<close>

definition shadows :: "('w \<times> 'z, 'a) eff \<Rightarrow> ('w, 'a) eff \<Rightarrow> bool" where
  "shadows g m \<longleftrightarrow> (\<forall>w z. fst (g (w, z)) = fst (m w) \<and> fst (snd (g (w, z))) = snd (m w))"

lemma shadowsD: "shadows g m \<Longrightarrow> m w = (r, w') \<Longrightarrow> \<exists>z'. g (w, z) = (r, (w', z'))"
  unfolding shadows_def by (metis fst_conv prod.collapse snd_conv)

lemma shadowsI: "(\<And>w z r w'. m w = (r, w') \<Longrightarrow> \<exists>z'. g (w, z) = (r, (w', z'))) \<Longrightarrow> shadows g m"
  unfolding shadows_def by (metis fst_conv prod.collapse snd_conv)

lemma shadows_pure: "shadows (io_return a) (io_return a)" "shadows (io_raise e) (io_raise e)" "shadows (io_lift r) (io_lift r)"
  by (auto simp: shadows_def io_lift_def split: sum.split)

lemma shadows_bind:
  assumes "shadows g m" and "\<And>a. shadows (g' a) (m' a)"
  shows "shadows (io_bind g g') (io_bind m m')"
proof (rule shadowsI)
  fix w z r w' assume run: "io_bind m m' w = (r, w')"
  obtain s v where m: "m w = (s, v)" by fastforce
  then obtain y where g: "g (w, z) = (s, (v, y))" using shadowsD [OF assms(1)] by blast
  show "\<exists>z'. io_bind g g' (w, z) = (r, (w', z'))"
  proof (cases s)
    case (Inl e)
    then show ?thesis using run m g by (simp add: io_bind_def)
  next
    case (Inr a)
    then have "m' a v = (r, w')" using run m by (simp add: io_bind_def)
    then show ?thesis using shadowsD [OF assms(2)] g Inr by (simp add: io_bind_def)
  qed
qed

lemma shadows_finally:
  assumes "shadows g m" and "shadows g' m'"
  shows "shadows (io_finally g g') (io_finally m m')"
proof (rule shadowsI)
  fix w z r w' assume run: "io_finally m m' w = (r, w')"
  obtain s v where m: "m w = (s, v)" by fastforce
  then obtain y where g: "g (w, z) = (s, (v, y))" using shadowsD [OF assms(1)] by blast
  obtain t u where "m' v = (t, u)" by fastforce
  moreover then obtain x where "g' (v, y) = (t, (u, x))" using shadowsD [OF assms(2)] by blast
  ultimately show "\<exists>z'. io_finally g g' (w, z) = (r, (w', z'))"
    using run m g by (cases s; cases t) (auto simp: io_finally_def)
qed

lemma shadows_if: "(b \<Longrightarrow> shadows g m) \<Longrightarrow> (\<not> b \<Longrightarrow> shadows g' m') \<Longrightarrow> shadows (if b then g else g') (if b then m else m')"
  by simp

lemma shadows_prod: "(\<And>a b. shadows (g a b) (m a b)) \<Longrightarrow> shadows (case q of (a, b) \<Rightarrow> g a b) (case q of (a, b) \<Rightarrow> m a b)"
  by (cases q) simp

lemma shadows_watched: "shadows (observe m) m" "shadows (writes rid m) m"
  by (auto simp: shadows_def observe_def writes_def split: prod.split)

lemma shadows_lease:
  "shadows (ap_acquire (guarded p) rid) (ap_acquire p rid)" "shadows (ap_release (guarded p) rid) (ap_release p rid)"
  by (auto simp: shadows_def guarded_def split: prod.split sum.split)

lemmas shadow_rules = shadows_bind shadows_finally shadows_if shadows_prod shadows_watched shadows_lease shadows_pure

lemma shadows_helpers:
  "shadows (app_event (guarded p) s ev item details) (app_event p s ev item details)"
  "shadows (write_report (guarded p) s) (write_report p s)"
  "shadows (validate_model_inventory (guarded p)) (validate_model_inventory p)"
  "shadows (make_objective (guarded p) project prompt task rid) (make_objective p project prompt task rid)"
  unfolding app_event_def write_report_def validate_model_inventory_def make_objective_def guarded_simps
  by (intro shadow_rules)+

lemma shadows_steps:
  "shadows (ap_inspect (guarded p) q) (ap_inspect p q)" "shadows (ap_plan (guarded p) obj repo cfg) (ap_plan p obj repo cfg)"
  "shadows (ap_create (guarded p) s) (ap_create p s)" "shadows (ap_run_ready (guarded p) s) (ap_run_ready p s)"
  "shadows (ap_load (guarded p) rid d a) (ap_load p rid d a)" "shadows (ap_save (guarded p) s) (ap_save p s)"
  "shadows (ap_available_models (guarded p)) (ap_available_models p)" "shadows (ap_now (guarded p)) (ap_now p)"
  unfolding guarded_simps by (rule shadows_watched)+

lemma shadows_select: "shadows (select_run_id (guarded p) given) (select_run_id p given)"
  unfolding select_run_id_def guarded_simps by (cases given) (auto intro: shadow_rules)

lemma shadows_plan_unlocked: "shadows (plan_unlocked (guarded p) project prompt rid) (plan_unlocked p project prompt rid)"
  unfolding plan_unlocked_def guarded_simps(1) by (intro shadow_rules shadows_helpers shadows_steps)

lemma shadows_append: "shadows (append_completion (guarded p) s) (append_completion p s)"
  unfolding append_completion_def Let_def guarded_simps(1) by (intro shadow_rules shadows_helpers shadows_steps)

lemma shadows_continue: "shadows (continue_run (guarded p) s) (continue_run p s)"
  unfolding continue_run_def by (intro shadow_rules shadows_helpers shadows_steps shadows_append)

lemma shadows_use_cases:
  "shadows (models (guarded p)) (models p)" "shadows (route_task (guarded p) task prompt affected) (route_task p task prompt affected)"
  "shadows (plan_objective (guarded p) project prompt given) (plan_objective p project prompt given)"
  "shadows (run_objective (guarded p) project prompt given) (run_objective p project prompt given)"
  "shadows (run_task (guarded p) project task prompt affected given) (run_task p project task prompt affected given)"
  "shadows (status (guarded p) rid) (status p rid)" "shadows (app_approve (guarded p) rid wid by_whom) (app_approve p rid wid by_whom)"
  "shadows (resume_run (guarded p) rid acknowledge) (resume_run p rid acknowledge)" "shadows (report (guarded p) rid) (report p rid)"
  unfolding models_def route_task_def plan_objective_def run_objective_def run_task_def status_def
    app_approve_def resume_run_def report_def with_lease_def guarded_simps(1,15)
  by (intro shadow_rules shadows_select shadows_plan_unlocked shadows_continue shadows_helpers shadows_steps)+

lemma shadows_dispatch: "shadows (dispatch_command (guarded p) c) (dispatch_command p c)"
  unfolding dispatch_command_def
  by (cases c) (auto intro!: shadows_bind shadows_use_cases shadows_pure split: option.split)

section \<open>Every command\<close>

text \<open>The existing run that a command changes or reports on; \<open>status\<close> takes no lease and writes nothing.\<close>

definition existing_run :: "command \<Rightarrow> string option" where
  "existing_run c = (case c of Approve rid _ _ \<Rightarrow> Some rid | Resume rid _ \<Rightarrow> Some rid | Report rid \<Rightarrow> Some rid | _ \<Rightarrow> None)"

lemma keeps_reading:
  "keeps_lease h (models (guarded p))" "keeps_lease h (route_task (guarded p) task prompt affected)"
  "keeps_lease h (status (guarded p) rid)"
proof -
  have lift: "keeps_lease h (io_bind (io_lift r) (\<lambda>(item, rt). io_return rt))" for r :: "('b \<times> 'c) result"
    by (intro keeps_bind keeps_pure prod_spec)
  show "keeps_lease h (models (guarded p))" unfolding models_def guarded_simps by (intro keeps_bind keeps_observe keeps_pure)
  show "keeps_lease h (route_task (guarded p) task prompt affected)"
    unfolding route_task_def by (intro keeps_bind [OF keeps_inventory] lift)
  show "keeps_lease h (status (guarded p) rid)" unfolding status_def guarded_simps by (rule keeps_observe)
qed

lemma dispatch_keeps_lease:
  assumes "schedules_own_runs p" and "\<And>rid. existing_run c = Some rid \<Longrightarrow> loads_own_run p rid w"
  shows "lease_kept (dispatch_command (guarded p) c) w"
proof -
  note writing = lease_kept_always [OF keeps_run_task [OF assms(1)]] lease_kept_always [OF keeps_run_objective(1) [OF assms(1)]]
    lease_kept_always [OF keeps_run_objective(2) [OF assms(1)]]
  note loading = lease_keptI [OF keeps_approve] lease_keptI [OF keeps_resume [OF assms(1)]] lease_keptI [OF keeps_report_case]
  show ?thesis
    using assms(2)
    by (cases c)
      (auto simp: dispatch_command_def existing_run_def lease_kept_map split: option.split
        intro: writing loading lease_kept_always [OF keeps_reading(1)] lease_kept_always [OF keeps_reading(2)]
          lease_kept_always [OF keeps_reading(3)] lease_kept_always [OF keeps_pure(2)])
qed

text \<open>What the store loads under the lease of a run is what its directory has when the command starts.\<close>

lemma composed_loads_own_run:
  assumes "\<And>s. stored_state (se_state_path se) (ma_files w) rid = Inr s \<Longrightarrow> run_id s = rid"
  shows "loads_own_run (compose_application x se cfg path) rid w"
  unfolding loads_own_run_def loads_here_def composed_simps
proof (intro allI impI)
  fix u w1 d a s w2
  assume enter: "enter_run_lease (en_kernel x) (se_state_path se) rid w = (Inr u, w1)"
    and load: "in_files (store_load (se_state_path se) rid d a) w1 = (Inr s, w2)"
  have "ma_files w1 = ma_files w"
    using io_keepsD [OF files_keep_outside(6) [of "\<lambda>v. v = ma_files w"], of w] enter
    by (metis snd_conv)
  with store_load_Inr [OF in_files_apply [OF load]] show "run_id s = rid" by (simp add: assms)
qed

text \<open>
  C12. A run is written under its lease. Whatever command is given to the composed program, every
  creation, snapshot, event, report and scheduling of a run happens while the lease of that very
  run is held, one lease is taken at a time, and it has been released when the command returns or
  raises. For a command on an existing run (approve, resume, report) the condition is that the
  snapshot in the directory of the run, if it can be read, names that run; \<open>load\<close> does not check
  this. The observer that keeps the record changes neither result nor machine.
\<close>

theorem runs_are_written_under_their_lease:
  assumes "\<And>rid s. existing_run c = Some rid \<Longrightarrow>
    stored_state (se_state_path se) (ma_files w) rid = Inr s \<Longrightarrow> run_id s = rid"
  shows "lease_kept (dispatch_command (guarded (compose_application x se cfg path)) c) w
    \<and> fst (dispatch_command (guarded (compose_application x se cfg path)) c (w, None, True))
        = fst (dispatch_command (compose_application x se cfg path) c w)
    \<and> fst (snd (dispatch_command (guarded (compose_application x se cfg path)) c (w, None, True)))
        = snd (dispatch_command (compose_application x se cfg path) c w)"
proof -
  let ?p = "compose_application x se cfg path"
  have "schedules_own_runs ?p" by (rule scheduler_port_own [OF composed_simps(2)])
  moreover have "loads_own_run ?p rid w" if "existing_run c = Some rid" for rid
    by (rule composed_loads_own_run [OF assms [OF that]])
  ultimately have "lease_kept (dispatch_command (guarded ?p) c) w" by (rule dispatch_keeps_lease)
  then show ?thesis using shadows_dispatch [of ?p c] by (simp add: shadows_def)
qed

text \<open>The approval of an item of the run on the disk, which returns the approved run.\<close>

lemma runs_are_written_under_their_lease_witness:
  "\<exists>v. dispatch_command (guarded (compose_application ex_externals ex_settings ex_config ex_root)) (Approve ''r1'' ''b'' ''ann'')
      (ex_machine (ex_disk [state_path ex_root ''r1'' \<mapsto> state_text (ex_state Required), events_path ex_root ''r1'' \<mapsto> []] []),
       None, True) = (Inr (OutRun ex_approved), (v, None, True))"
proof -
  let ?f = "[state_path ex_root ''r1'' \<mapsto> state_text (ex_state Required), events_path ex_root ''r1'' \<mapsto> []] :: path \<Rightarrow> string option"
  let ?w = "ex_machine (ex_disk ?f [])" and ?c = "Approve ''r1'' ''b'' ''ann''"
  let ?p = "compose_application ex_externals ex_settings ex_config ex_root"
  have "stored_state (se_state_path ex_settings) (ma_files ?w) ''r1'' = Inr (canonical (ex_state Required))"
    by (simp add: stored_state_def ex_parts ex_machine_def ex_in_disk(2) store_paths_distinct decode_state_text [OF ex_storable])
  moreover have "run_id (canonical (ex_state Required)) = ''r1''" by code_simp
  ultimately have named: "run_id s = rid"
    if "existing_run ?c = Some rid" and "stored_state (se_state_path ex_settings) (ma_files ?w) rid = Inr s" for rid s
    using that by (simp add: existing_run_def)
  have "lease_kept (dispatch_command (guarded ?p) ?c) ?w
      \<and> fst (dispatch_command (guarded ?p) ?c (?w, None, True)) = fst (dispatch_command ?p ?c ?w)"
    using runs_are_written_under_their_lease [where c = ?c and se = ex_settings and w = ?w and x = ex_externals
        and cfg = ex_config and path = ex_root, OF named] by blast
  moreover obtain w' where "dispatch_command ?p ?c ?w = (Inr (OutRun ex_approved), w')" using ex_approves by blast
  ultimately show ?thesis
    by (cases "dispatch_command (guarded ?p) ?c (?w, None, True)") (auto simp: lease_kept_def)
qed

end
