(* ===== verification/Exit_Codes.thy ===== *)
theory Exit_Codes
  imports Guarded_Runs Policy_Properties Cli_Properties
begin

text \<open>
  The exit codes of the composed program against the table of \<open>docs/troubleshooting.md\<close>: which
  situation ends with which code.
\<close>

section \<open>The documented codes\<close>

text \<open>The rows of the table \<open>Stable application exit codes\<close>.\<close>

datatype failure =
    General_failure | Invalid_configuration | Unknown_task | Model_unavailable | Repository_inspection
  | Invalid_planner_output | Approval_required | Dependency_blocked | Codex_failure | Authentication_failure
  | Turn_timeout | Corrupt_state | Configuration_changed | Project_busy | Run_busy

fun documented_exit :: "failure \<Rightarrow> int" where
  "documented_exit General_failure = 1"
| "documented_exit Invalid_configuration = 2"
| "documented_exit Unknown_task = 3"
| "documented_exit Model_unavailable = 4"
| "documented_exit Repository_inspection = 5"
| "documented_exit Invalid_planner_output = 6"
| "documented_exit Approval_required = 7"
| "documented_exit Dependency_blocked = 8"
| "documented_exit Codex_failure = 9"
| "documented_exit Authentication_failure = 10"
| "documented_exit Turn_timeout = 11"
| "documented_exit Corrupt_state = 12"
| "documented_exit Configuration_changed = 13"
| "documented_exit Project_busy = 14"
| "documented_exit Run_busy = 15"

text \<open>The program ends with \<open>code\<close>: a text on one of the two streams, on the error stream exactly for a failure.\<close>

definition ends_with :: "'u externals \<Rightarrow> cli_args \<Rightarrow> 'u machine \<Rightarrow> int \<Rightarrow> bool" where
  "ends_with x args w code \<longleftrightarrow>
     (\<exists>out err. fst (goalrouter x args w) = Inr (code, out, err) \<and> (if code = 0 then err = [] else out = [] \<and> err \<noteq> []))"

definition is_use_case :: "command \<Rightarrow> bool" where
  "is_use_case c \<longleftrightarrow> c \<noteq> Version \<and> c \<noteq> ConfigTemplate \<and> c \<noteq> ConfigValidate"

abbreviation composed :: "'u externals \<Rightarrow> cli_args \<Rightarrow> settings \<Rightarrow> router_config \<Rightarrow> 'u machine app_ports" where
  "composed x args se cfg \<equiv> compose_application x se cfg (config_path args (en_environ x))"

abbreviation accepts :: "'u externals \<Rightarrow> cli_args \<Rightarrow> 'u machine \<Rightarrow> router_config \<Rightarrow> settings \<Rightarrow> bool" where
  "accepts x args w cfg se \<equiv> accepted (program_ports x) args (en_environ x) w cfg se"

lemma use_case_body:
  assumes "accepts x args w cfg se" and "is_use_case (ca_command args)"
  shows "main_body (program_ports x) args (en_environ x) w
    = io_bind (dispatch_command (composed x args se cfg) (ca_command args)) (\<lambda>out. io_return (emit out (ca_json args))) w"
  using assms unfolding main_body_def accepted_def is_use_case_def Let_def
  by (simp add: io_bind_def io_lift_def io_return_def program_ports_def)

lemma raises_exit:
  assumes "fst (main_body (program_ports x) args (en_environ x) w) = Inl e" and "exit_code e = Some code" and "code \<noteq> 0"
  shows "ends_with x args w code"
  using assms by (auto simp: ends_with_def goalrouter_def async_main_def split: prod.splits)

lemma use_case_raises:
  assumes "accepts x args w cfg se" and "is_use_case (ca_command args)"
    and "fst (dispatch_command (composed x args se cfg) (ca_command args) w) = Inl e"
    and "exit_code e = Some code" and "code \<noteq> 0"
  shows "ends_with x args w code"
proof (rule raises_exit [OF _ assms(4,5)])
  show "fst (main_body (program_ports x) args (en_environ x) w) = Inl e"
    unfolding use_case_body [OF assms(1,2)] using assms(3) by (auto simp: io_bind_def split: prod.splits)
qed

lemma use_case_returns:
  assumes "accepts x args w cfg se" and "is_use_case (ca_command args)"
    and "fst (dispatch_command (composed x args se cfg) (ca_command args) w) = Inr out"
  shows "ends_with x args w 0"
proof -
  have "fst (main_body (program_ports x) args (en_environ x) w) = Inr (emit out (ca_json args))"
    unfolding use_case_body [OF assms(1,2)] using assms(3) by (auto simp: io_bind_def split: prod.splits)
  then show ?thesis by (auto simp: ends_with_def goalrouter_def async_main_def split: prod.splits)
qed

section \<open>Configurations\<close>

definition configuration_errors :: "'a result \<Rightarrow> bool" where
  "configuration_errors r \<longleftrightarrow> (\<forall>e. r = Inl e \<longrightarrow> (\<exists>m. e = ConfigurationError m \<or> e = PyValueError m))"

named_theorems configuration_rules

lemma configuration_errors_basic [configuration_rules]:
  "configuration_errors (Inr a)" "configuration_errors (Inl (ConfigurationError m))" "configuration_errors (Inl (PyValueError m))"
  by (simp_all add: configuration_errors_def)

lemma configuration_errors_bind [configuration_rules]:
  "configuration_errors m \<Longrightarrow> (\<And>a. configuration_errors (f a)) \<Longrightarrow> configuration_errors (rbind m f)"
  by (cases m) (auto simp: configuration_errors_def)

lemma configuration_errors_map [configuration_rules]:
  "(\<And>a. configuration_errors (f a)) \<Longrightarrow> configuration_errors (rmap f as)"
  by (induction as) (auto intro!: configuration_rules)

lemma configuration_errors_fields [configuration_rules]:
  "configuration_errors (cfg_field raw name)" "configuration_errors (cfg_mapping ctx v)" "configuration_errors (cfg_string raw name)"
  "configuration_errors (cfg_optional_string raw name)" "configuration_errors (cfg_integer raw name)"
  "configuration_errors (cfg_optional_boolean raw name dflt)" "configuration_errors (cfg_optional_sequence raw name)"
  "configuration_errors (cfg_strings ctx vs)" "configuration_errors (enum_value cls val members s)"
proof -
  show field: "configuration_errors (cfg_field raw name)" for raw name
    by (auto simp: cfg_field_def intro: configuration_rules split: option.split)
  show "configuration_errors (cfg_string raw name)" "configuration_errors (cfg_integer raw name)"
    unfolding cfg_string_def cfg_integer_def
    by (auto intro!: configuration_errors_bind field intro: configuration_rules split: yaml.split)
qed (auto simp: cfg_mapping_def cfg_optional_string_def cfg_optional_boolean_def cfg_optional_sequence_def cfg_strings_def
    enum_value_def intro: configuration_rules split: yaml.split option.split)

lemma configuration_errors_checks [configuration_rules]:
  "configuration_errors (check_ranks cpath ranks d)" "configuration_errors (check_named_tasks cpath raw d ks)"
  "configuration_errors (check_tasks cpath aliases d d')" "configuration_errors (check_matching cpath d n vs)"
  "configuration_errors (check_hard_risk cpath aliases n vs)"
proof -
  show "configuration_errors (check_ranks cpath ranks d)"
    by (induction d arbitrary: ranks) (auto intro!: configuration_rules split: option.split)
  show "configuration_errors (check_named_tasks cpath raw d ks)"
    by (induction ks) (auto intro!: configuration_rules)
  show "configuration_errors (check_tasks cpath aliases d d')"
    by (induction d') (auto intro!: configuration_rules split: option.split)
  show "configuration_errors (check_matching cpath d n vs)"
    by (induction vs arbitrary: n) (auto intro!: configuration_rules)
  show "configuration_errors (check_hard_risk cpath aliases n vs)"
    by (induction vs arbitrary: n) (auto intro!: configuration_rules split: option.split)
qed

lemma load_configuration_errors: "configuration_errors (load_router_config ports path schema_path)"
proof -
  have schema: "configuration_errors (validate_json_schema ports raw sp cp)" for raw sp cp
    unfolding validate_json_schema_def Let_def
    by (auto intro!: configuration_rules split: sum.split option.split)
  have semantics: "configuration_errors (validate_semantics raw cp)" for raw cp
    unfolding validate_semantics_def by (intro configuration_rules)
  have "configuration_errors (case approval of None \<Rightarrow> Inr None
      | Some v \<Rightarrow> rbind (enum_value ''ApprovalMode'' approval_mode_value approval_modes v) (\<lambda>m. Inr (Some m)))" for approval
    by (cases approval) (auto intro!: configuration_rules)
  then have parts: "configuration_errors (parse_model_alias name raw)" "configuration_errors (parse_task_policy name raw)"
    "configuration_errors (parse_match_rule raw)" "configuration_errors (parse_hard_risk_rule raw)" for name raw
    unfolding parse_model_alias_def parse_task_policy_def parse_match_rule_def parse_hard_risk_rule_def
    by (intro configuration_rules; assumption?)+
  have "configuration_errors (parse_router_config raw digest)" for raw digest
    unfolding parse_router_config_def parse_entries_def parse_rules_def by (intro configuration_rules parts)
  with schema semantics show ?thesis
    unfolding load_router_config_def Let_def
    by (auto intro!: configuration_rules split: sum.split yaml_failure.split)
qed

text \<open>A configuration that cannot be used, other than by the \<open>ValueError\<close> of a constructor.\<close>

definition unusable_configuration :: "'u externals \<Rightarrow> cli_args \<Rightarrow> 'u machine \<Rightarrow> bool" where
  "unusable_configuration x args w \<longleftrightarrow>
     (\<exists>e. fst (load_config (program_ports x) (config_path args (en_environ x)) (en_environ x) w) = Inl e \<and> \<not> (\<exists>m. e = PyValueError m))"

lemma refused_arguments:
  assumes "validate_arguments args \<noteq> Inr ()"
  shows "ends_with x args w (documented_exit Invalid_configuration)"
proof -
  obtain m where "validate_arguments args = Inl (ConfigurationError m)"
    using assms by (auto simp: validate_arguments_def split: command.splits if_splits)
  then have "fst (main_body (program_ports x) args (en_environ x) w) = Inl (ConfigurationError m)"
    by (simp add: main_body_def io_bind_def io_lift_def)
  then show ?thesis by (rule raises_exit) simp_all
qed

lemma refused_configuration:
  assumes "unusable_configuration x args w" and "ca_command args \<noteq> Version" "ca_command args \<noteq> ConfigTemplate"
  shows "ends_with x args w (documented_exit Invalid_configuration)"
proof (cases "validate_arguments args = Inr ()")
  case True
  obtain e where e: "fst (load_config (program_ports x) (config_path args (en_environ x)) (en_environ x) w) = Inl e"
    "\<not> (\<exists>m. e = PyValueError m)"
    using assms(1) unusable_configuration_def by blast
  then obtain m where m: "e = ConfigurationError m"
    using load_configuration_errors unfolding load_config_def configuration_errors_def by (metis fst_conv)
  obtain w' where "load_config (program_ports x) (config_path args (en_environ x)) (en_environ x) w = (Inl (ConfigurationError m), w')"
    using e(1) m by (metis prod.collapse)
  then have "fst (main_body (program_ports x) args (en_environ x) w) = Inl (ConfigurationError m)"
    using assms(2,3) True by (simp add: main_body_def Let_def io_bind_def io_lift_def)
  then show ?thesis by (rule raises_exit) simp_all
qed (rule refused_arguments)

section \<open>Leases and snapshots\<close>

text \<open>Someone else holds the lock of a run: its file can be opened, and \<open>flock\<close> would block.\<close>

definition run_locked :: "kernel \<Rightarrow> path \<Rightarrow> string \<Rightarrow> os \<Rightarrow> bool" where
  "run_locked k root rid w \<longleftrightarrow>
     (\<exists>fd v e u. open_run_lock k root rid w = (Inr fd, v)
        \<and> os_flock k fd LockExclusiveNonblocking v = (Inl (LockOs e), u) \<and> oe_errno e \<in> {EACCES, EAGAIN})"

definition owner_cancelled :: "kernel \<Rightarrow> os \<Rightarrow> bool" where
  "owner_cancelled k w \<longleftrightarrow> (case kn_wakes k (os_log w) of (observed, wakes) \<Rightarrow> wait_for_owned_task observed wakes \<noteq> [])"

lemma locked_run_is_busy:
  assumes "run_locked k root rid (ma_leases w)" and "\<not> owner_cancelled k (ma_leases w)" and "run_id_matches rid"
  shows "fst (enter_run_lease k root rid w) = Inl (run_busy rid)"
proof -
  obtain fd v e u where opened: "open_run_lock k root rid (ma_leases w) = (Inr fd, v)"
    and refused: "os_flock k fd LockExclusiveNonblocking v = (Inl (LockOs e), u)" and busy: "oe_errno e \<in> {EACCES, EAGAIN}"
    using assms(1) unfolding run_locked_def by blast
  have "fst (acquire_descriptor k (open_run_lock k root rid) (run_busy rid) (ma_leases w)) = Inl (LockExn (run_busy rid))"
    using opened refused busy by (auto simp: acquire_descriptor_def io_bind_def io_except_def close_and_raise_def)
  then have "fst (acquire_cancellation_safe k (open_run_lock k root rid) (run_busy rid) (run_failure rid) (ma_leases w))
      = Inl (LockExn (run_busy rid))"
    using assms(2) by (auto simp: acquire_cancellation_safe_def owned_task_def owner_cancelled_def split: prod.splits)
  then show ?thesis
    using assms(3) by (auto simp: enter_run_lease_def validate_run_id_def enter_lease_def lease_exn_def split: prod.splits)
qed

lemma with_lease_refused:
  "fst (enter_run_lease (en_kernel x) (se_state_path se) rid w) = Inl e
    \<Longrightarrow> fst (with_lease (compose_application x se cfg path) rid body w) = Inl e"
  unfolding with_lease_def composed_simps by (auto simp: io_bind_def split: prod.splits)

lemma with_lease_raises:
  "enter_run_lease (en_kernel x) (se_state_path se) rid w = (Inr (), w1) \<Longrightarrow> fst (body w1) = Inl e
    \<Longrightarrow> fst (with_lease (compose_application x se cfg path) rid body w) = Inl e"
  unfolding with_lease_def composed_simps by (auto simp: io_bind_def io_finally_def split: prod.splits)

lemma entered:
  assumes "enter_run_lease k root rid w = (Inr (), w1)"
  shows "ma_files w1 = ma_files w" and "ma_rest w1 = ma_rest w" and "run_id_matches rid"
  using assms by (auto simp: enter_run_lease_def enter_lease_def validate_run_id_def split: prod.splits sum.splits if_splits)

lemma in_files_fst: "fst (in_files m w) = fst (m (ma_files w))"
  by (simp add: in_files_def zoom_def split: prod.split)

lemma bind_raises: "fst (m w) = Inl e \<Longrightarrow> fst (io_bind m f w) = Inl e"
  by (auto simp: io_bind_def split: prod.splits)

lemma store_load_fst:
  assumes "fault_of w = None" and "run_id_matches rid"
  shows "fst (store_load root rid d a w) = (case stored_state root w rid of
      Inl e \<Rightarrow> Inl e
    | Inr s \<Rightarrow> (case d of None \<Rightarrow> Inr s
        | Some d \<Rightarrow> if st_configuration_digest s \<noteq> d \<and> \<not> a
            then Inl (ResumeConfigurationChangedError (''Run '' @ rid @ '' uses configuration digest ''
              @ st_configuration_digest s @ ''; current digest is '' @ d))
            else Inr s))"
  using stored_state_load [OF assms(1), of root rid] assms(2)
  by (cases "load_sync root rid w") (auto simp: store_load_def validate_run_id_def io_bind_def split: sum.splits option.splits)

lemma store_load_bad_id:
  assumes "\<not> run_id_matches rid"
  shows "fst (store_load root rid d a w) = Inl (StateError (''Invalid run ID '' @ py_repr rid))"
  using assms by (simp add: store_load_def validate_run_id_def io_bind_def io_lift_def)

lemma enter_bad_id:
  "\<not> run_id_matches rid \<Longrightarrow> fst (enter_run_lease k root rid w) = Inl (StateError (''Invalid run ID '' @ py_repr rid))"
  by (simp add: enter_run_lease_def validate_run_id_def)

text \<open>A command on an existing run starts with its lease and the load of its snapshot.\<close>

definition expected_digest :: "router_config \<Rightarrow> command \<Rightarrow> string option" where
  "expected_digest cfg c = (case c of Report _ \<Rightarrow> None | _ \<Rightarrow> Some (cf_digest cfg))"

definition acknowledged :: "command \<Rightarrow> bool" where
  "acknowledged c = (case c of Resume _ acknowledge \<Rightarrow> acknowledge | _ \<Rightarrow> False)"

lemma existing_run_cases:
  assumes "existing_run c = Some rid"
  obtains wid by_whom where "c = Approve rid wid by_whom" | a where "c = Resume rid a" | "c = Report rid"
  using assms by (auto simp: existing_run_def split: command.splits)

lemma existing_run_refused:
  assumes "existing_run c = Some rid" and "fst (enter_run_lease (en_kernel x) (se_state_path se) rid w) = Inl e"
  shows "fst (dispatch_command (compose_application x se cfg path) c w) = Inl e"
  using assms(1)
proof (cases rule: existing_run_cases)
  case 1
  show ?thesis unfolding 1 dispatch_command_def command.case app_approve_def
    by (rule bind_raises, rule with_lease_refused [OF assms(2)])
next
  case 2
  show ?thesis unfolding 2 dispatch_command_def command.case resume_run_def
    by (rule bind_raises, rule with_lease_refused [OF assms(2)])
next
  case 3
  show ?thesis unfolding 3 dispatch_command_def command.case report_def
    by (rule bind_raises, rule with_lease_refused [OF assms(2)])
qed

lemma existing_run_unloaded:
  assumes "existing_run c = Some rid" and "enter_run_lease (en_kernel x) (se_state_path se) rid w = (Inr (), w1)"
    and "fst (store_load (se_state_path se) rid (expected_digest cfg c) (acknowledged c) (ma_files w)) = Inl e"
  shows "fst (dispatch_command (compose_application x se cfg path) c w) = Inl e"
proof -
  have load: "fst (in_files (store_load (se_state_path se) rid d a) w1) = Inl e"
    if "expected_digest cfg c = d" "acknowledged c = a" for d a
    using assms(3) by (simp add: in_files_fst entered(1) [OF assms(2)] that)
  show ?thesis
    using assms(1)
  proof (cases rule: existing_run_cases)
    case 1
    show ?thesis unfolding 1 dispatch_command_def command.case app_approve_def composed_simps
      by (rule bind_raises, rule with_lease_raises [OF assms(2)], rule bind_raises, rule load)
        (simp_all add: 1 expected_digest_def acknowledged_def)
  next
    case 2
    show ?thesis unfolding 2 dispatch_command_def command.case resume_run_def composed_simps
      by (rule bind_raises, rule with_lease_raises [OF assms(2)], rule bind_raises, rule load)
        (simp_all add: 2 expected_digest_def acknowledged_def)
  next
    case 3
    show ?thesis unfolding 3 dispatch_command_def command.case report_def composed_simps
      by (rule bind_raises, rule with_lease_raises [OF assms(2)], rule bind_raises, rule load)
        (simp_all add: 3 expected_digest_def acknowledged_def)
  qed
qed

section \<open>Situations and codes\<close>

lemma existing_is_use_case: "existing_run c = Some rid \<Longrightarrow> is_use_case c"
  by (auto simp: existing_run_def is_use_case_def split: command.splits)

lemma existing_run_exits:
  assumes ok: "accepts x args w cfg se" and faults: "fault_of (ma_files w) = None"
    and c: "existing_run (ca_command args) = Some rid"
  shows "\<not> run_id_matches rid \<Longrightarrow> ends_with x args w (documented_exit Corrupt_state)"
    and "run_id_matches rid \<Longrightarrow> run_locked (en_kernel x) (se_state_path se) rid (ma_leases w)
      \<Longrightarrow> \<not> owner_cancelled (en_kernel x) (ma_leases w) \<Longrightarrow> ends_with x args w (documented_exit Run_busy)"
    and "enter_run_lease (en_kernel x) (se_state_path se) rid w = (Inr (), w1)
      \<Longrightarrow> stored_state (se_state_path se) (ma_files w) rid = Inl (StateError m)
      \<Longrightarrow> ends_with x args w (documented_exit Corrupt_state)"
    and "enter_run_lease (en_kernel x) (se_state_path se) rid w = (Inr (), w1)
      \<Longrightarrow> stored_state (se_state_path se) (ma_files w) rid = Inr s \<Longrightarrow> st_configuration_digest s \<noteq> cf_digest cfg
      \<Longrightarrow> ca_command args \<noteq> Report rid \<Longrightarrow> ca_command args \<noteq> Resume rid True
      \<Longrightarrow> ends_with x args w (documented_exit Configuration_changed)"
proof -
  let ?dispatch = "fst (dispatch_command (composed x args se cfg) (ca_command args) w)"
  note raises = use_case_raises [OF ok existing_is_use_case [OF c]]
  show "ends_with x args w (documented_exit Corrupt_state)" if "\<not> run_id_matches rid"
    by (rule raises [OF existing_run_refused [OF c enter_bad_id [OF that]]]) simp_all
  show "ends_with x args w (documented_exit Run_busy)"
    if "run_id_matches rid" and "run_locked (en_kernel x) (se_state_path se) rid (ma_leases w)"
      and "\<not> owner_cancelled (en_kernel x) (ma_leases w)"
    by (rule raises [OF existing_run_refused [OF c locked_run_is_busy [OF that(2,3,1)]]]) (simp_all add: run_busy_def)
  assume enter: "enter_run_lease (en_kernel x) (se_state_path se) rid w = (Inr (), w1)"
  note load = store_load_fst [OF faults entered(3) [OF enter], of "se_state_path se" "expected_digest cfg (ca_command args)"
      "acknowledged (ca_command args)"]
  note raised = raises [OF existing_run_unloaded [OF c enter]]
  show "ends_with x args w (documented_exit Corrupt_state)"
    if "stored_state (se_state_path se) (ma_files w) rid = Inl (StateError m)"
    by (rule raised [of "StateError m"]) (simp_all add: load that)
  assume stored: "stored_state (se_state_path se) (ma_files w) rid = Inr s"
    and changed: "st_configuration_digest s \<noteq> cf_digest cfg"
    and "ca_command args \<noteq> Report rid" and "ca_command args \<noteq> Resume rid True"
  then have "expected_digest cfg (ca_command args) = Some (cf_digest cfg)" "\<not> acknowledged (ca_command args)"
    using c by (auto simp: existing_run_def expected_digest_def acknowledged_def split: command.splits)
  then have "\<exists>m. fst (store_load (se_state_path se) rid (expected_digest cfg (ca_command args))
      (acknowledged (ca_command args)) (ma_files w)) = Inl (ResumeConfigurationChangedError m)"
    using store_load_fst [OF faults entered(3) [OF enter], of "se_state_path se" "Some (cf_digest cfg)" False] stored changed
    by simp
  then obtain m where "?dispatch = Inl (ResumeConfigurationChangedError m)"
    using existing_run_unloaded [OF c enter] by blast
  then show "ends_with x args w (documented_exit Configuration_changed)" by (rule raises) simp_all
qed

lemma approve_exits:
  assumes ok: "accepts x args w cfg se" and faults: "fault_of (ma_files w) = None"
    and c: "ca_command args = Approve rid wid by_whom"
    and enter: "enter_run_lease (en_kernel x) (se_state_path se) rid w = (Inr (), w1)"
    and stored: "stored_state (se_state_path se) (ma_files w) rid = Inr s" "st_configuration_digest s = cf_digest cfg"
    and clock: "fst (en_now x (ma_rest w)) = Inr t"
    and refused: "py_strip by_whom = [] \<or> map_of (st_work_items s) wid = None \<or> map_of (st_routes s) wid = None"
  shows "ends_with x args w (documented_exit Approval_required)"
proof -
  have "\<exists>m. approve (en_sha x) s wid by_whom t = Inl (ApprovalRequiredError m)"
    using refused by (auto simp: approve_def require_item_and_route_def fingerprint_def Let_def split: option.splits)
  then obtain m where m: "approve (en_sha x) s wid by_whom t = Inl (ApprovalRequiredError m)" by blast
  have "fst (in_files (store_load (se_state_path se) rid (Some (cf_digest cfg)) False) w1) = Inr s"
    by (simp add: in_files_fst entered(1) [OF enter] store_load_fst [OF faults entered(3) [OF enter]] stored)
  then obtain w2 where load: "in_files (store_load (se_state_path se) rid (Some (cf_digest cfg)) False) w1 = (Inr s, w2)"
    by (metis prod.collapse)
  have "ma_rest w2 = ma_rest w"
    using load entered(2) [OF enter] by (auto simp: in_files_def zoom_def split: prod.splits)
  then have now: "fst (in_rest (en_now x) w2) = Inr t" using clock by (simp add: in_rest_def zoom_def case_prod_beta)
  have "fst (dispatch_command (composed x args se cfg) (ca_command args) w) = Inl (ApprovalRequiredError m)"
    unfolding c dispatch_command_def command.case app_approve_def
    by (rule bind_raises, rule with_lease_raises [OF enter])
      (use load now m in \<open>auto simp: composed_simps io_bind_def io_lift_def split: prod.splits sum.splits\<close>)
  then show ?thesis by (rule use_case_raises [OF ok, rotated]) (simp_all add: c is_use_case_def)
qed

lemma status_exits:
  assumes ok: "accepts x args w cfg se" and faults: "fault_of (ma_files w) = None" and c: "ca_command args = Status rid"
  shows "run_id_matches rid \<Longrightarrow> stored_state (se_state_path se) (ma_files w) rid = Inr s \<Longrightarrow> ends_with x args w 0"
    and "\<not> run_id_matches rid \<or> stored_state (se_state_path se) (ma_files w) rid = Inl (StateError m)
      \<Longrightarrow> ends_with x args w (documented_exit Corrupt_state)"
proof -
  have use_case: "is_use_case (ca_command args)" by (simp add: c is_use_case_def)
  let ?load = "store_load (se_state_path se) rid None False"
  have dispatch: "dispatch_command (composed x args se cfg) (ca_command args) w
      = io_bind (in_files ?load) (\<lambda>s. io_return (OutRun s)) w"
    by (simp add: c dispatch_command_def status_def composed_simps)
  show "ends_with x args w 0" if "run_id_matches rid" and "stored_state (se_state_path se) (ma_files w) rid = Inr s"
  proof -
    have "fst (in_files ?load w) = Inr s" using that by (simp add: in_files_fst store_load_fst [OF faults])
    then have "fst (dispatch_command (composed x args se cfg) (ca_command args) w) = Inr (OutRun s)"
      unfolding dispatch by (auto simp: io_bind_def split: prod.splits)
    then show ?thesis by (rule use_case_returns [OF ok use_case])
  qed
  assume bad: "\<not> run_id_matches rid \<or> stored_state (se_state_path se) (ma_files w) rid = Inl (StateError m)"
  have "\<exists>m. fst (in_files ?load w) = Inl (StateError m)"
    using bad by (cases "run_id_matches rid") (simp_all add: in_files_fst store_load_bad_id store_load_fst [OF faults])
  then obtain m' where "fst (in_files ?load w) = Inl (StateError m')" by blast
  then have "fst (dispatch_command (composed x args se cfg) (ca_command args) w) = Inl (StateError m')"
    unfolding dispatch by (rule bind_raises)
  then show "ends_with x args w (documented_exit Corrupt_state)" by (rule use_case_raises [OF ok use_case]) simp_all
qed

definition models_visible :: "router_config \<Rightarrow> string list \<Rightarrow> bool" where
  "models_visible cfg ms \<longleftrightarrow> (\<forall>a \<in> set (alias_values cfg). ma_model a \<in> set ms)"

lemma validate_models_cases:
  "models_visible cfg ms \<Longrightarrow> validate_models cfg ms = Inr ()"
  "\<not> models_visible cfg ms \<Longrightarrow> \<exists>m. validate_models cfg ms = Inl (ModelUnavailableError m)"
  using validate_models_complete [of cfg ms] by (auto simp: models_visible_def)

lemma account_exits:
  assumes ok: "accepts x args w cfg se"
    and account: "fst (in_client (se_client se) (available_models (se_client se) (en_codex x)) w) = Inr ms"
  shows "ca_command args = Models \<Longrightarrow>
      ends_with x args w (if models_visible cfg ms then 0 else documented_exit Model_unavailable)"
    and "ca_command args = Route project task prompt affected \<Longrightarrow>
      ends_with x args w (if \<not> models_visible cfg ms then documented_exit Model_unavailable
        else if task \<in> set (dkeys (cf_tasks cfg)) then 0 else documented_exit Unknown_task)"
proof -
  obtain w1 where models: "in_client (se_client se) (available_models (se_client se) (en_codex x)) w = (Inr ms, w1)"
    using account by (metis prod.collapse)
  note visible = validate_models_cases [of cfg ms]
  have cfg: "config_ok cfg" using ok unfolding accepted_def load_config_def by (auto intro: load_router_config_ok)
  show "ends_with x args w (if models_visible cfg ms then 0 else documented_exit Model_unavailable)"
    if c: "ca_command args = Models"
  proof (cases "models_visible cfg ms")
    case True
    then have "\<exists>out. fst (dispatch_command (composed x args se cfg) (ca_command args) w) = Inr out"
      by (simp add: c dispatch_command_def models_def composed_simps io_bind_def models io_lift_def visible(1))
    then show ?thesis using True use_case_returns [OF ok] by (auto simp: c is_use_case_def)
  next
    case False
    then obtain m where "fst (dispatch_command (composed x args se cfg) (ca_command args) w) = Inl (ModelUnavailableError m)"
      using visible(2) by (auto simp: c dispatch_command_def models_def composed_simps io_bind_def models io_lift_def)
    then show ?thesis using False use_case_raises [OF ok] by (simp add: c is_use_case_def)
  qed
  assume c: "ca_command args = Route project task prompt affected"
  have inventory: "validate_model_inventory (composed x args se cfg) w = (validate_models cfg ms, w1)"
    by (simp add: validate_model_inventory_def composed_simps io_bind_def models io_lift_def)
  have use_case: "is_use_case (ca_command args)" by (simp add: c is_use_case_def)
  show "ends_with x args w (if \<not> models_visible cfg ms then documented_exit Model_unavailable
        else if task \<in> set (dkeys (cf_tasks cfg)) then 0 else documented_exit Unknown_task)"
  proof (cases "models_visible cfg ms")
    case False
    then obtain m where "fst (dispatch_command (composed x args se cfg) (ca_command args) w) = Inl (ModelUnavailableError m)"
      using visible(2) by (auto simp: c dispatch_command_def route_task_def io_bind_def inventory)
    then show ?thesis using False use_case_raises [OF ok use_case] by simp
  next
    case True
    have dispatch: "fst (dispatch_command (composed x args se cfg) (ca_command args) w)
        = (case explicit_item cfg task prompt affected of Inl e \<Rightarrow> Inl e | Inr (item, rt) \<Rightarrow> Inr (OutRoute rt))"
      by (auto simp: c dispatch_command_def route_task_def io_bind_def inventory visible(1) [OF True] composed_simps io_lift_def
          split: sum.split prod.split)
    show ?thesis
    proof (cases "task \<in> set (dkeys (cf_tasks cfg))")
      case known: True
      obtain item rt where "explicit_item cfg task prompt affected = Inr (item, rt)"
        using route_total [OF cfg, where explicit = "Some task"] known
        by (metis (no_types, lifting) explicit_item_def option.case(2) rbind_simps(2))
      then show ?thesis using dispatch True known use_case_returns [OF ok use_case] by simp
    next
      case unknown: False
      then have "explicit_item cfg task prompt affected = Inl (UnknownTaskError (''Unknown task '' @ py_repr task))"
        by (simp add: explicit_item_def Let_def route_unknown)
      then show ?thesis using dispatch True unknown use_case_raises [OF ok use_case] by simp
    qed
  qed
qed

section \<open>The table\<close>

text \<open>Which row of the table an exception belongs to, by the descriptions of the classes in \<open>errors.py\<close>.\<close>

fun failure_of :: "exn \<Rightarrow> failure option" where
  "failure_of (GoalRouterError _) = Some General_failure"
| "failure_of (ConfigurationError _) = Some Invalid_configuration"
| "failure_of (UnknownTaskError _) = Some Unknown_task"
| "failure_of (ModelUnavailableError _) = Some Model_unavailable"
| "failure_of (RepositoryError _) = Some Repository_inspection"
| "failure_of (PlannerOutputError _) = Some Invalid_planner_output"
| "failure_of (StructuralPlannerOutputError _) = Some Invalid_planner_output"
| "failure_of (ApprovalRequiredError _) = Some Approval_required"
| "failure_of (DependencyBlockedError _) = Some Dependency_blocked"
| "failure_of (SdkError _) = Some Codex_failure"
| "failure_of (AuthenticationError _) = Some Authentication_failure"
| "failure_of (TurnTimeoutError _) = Some Turn_timeout"
| "failure_of (StateError _) = Some Corrupt_state"
| "failure_of (ResumeConfigurationChangedError _) = Some Configuration_changed"
| "failure_of (ProjectBusyError _) = Some Project_busy"
| "failure_of (RunBusyError _) = Some Run_busy"
| "failure_of _ = None"

lemma documented_exit_code: "exit_code e = map_option documented_exit (failure_of e)"
  by (cases e) simp_all

text \<open>
  Situations that end with a failure, told from the machine and the answers of the surroundings
  at the start of the program.
\<close>

inductive fails_by :: "'u externals \<Rightarrow> cli_args \<Rightarrow> 'u machine \<Rightarrow> failure \<Rightarrow> bool" for x args w where
  arguments: "validate_arguments args \<noteq> Inr () \<Longrightarrow> fails_by x args w Invalid_configuration"
| configuration: "unusable_configuration x args w \<Longrightarrow> ca_command args \<noteq> Version \<Longrightarrow> ca_command args \<noteq> ConfigTemplate
    \<Longrightarrow> fails_by x args w Invalid_configuration"
| model: "accepts x args w cfg se \<Longrightarrow> ca_command args = Models \<or> ca_command args = Route project task prompt affected
    \<Longrightarrow> fst (in_client (se_client se) (available_models (se_client se) (en_codex x)) w) = Inr ms
    \<Longrightarrow> \<not> models_visible cfg ms \<Longrightarrow> fails_by x args w Model_unavailable"
| task: "accepts x args w cfg se \<Longrightarrow> ca_command args = Route project task prompt affected
    \<Longrightarrow> fst (in_client (se_client se) (available_models (se_client se) (en_codex x)) w) = Inr ms
    \<Longrightarrow> models_visible cfg ms \<Longrightarrow> task \<notin> set (dkeys (cf_tasks cfg)) \<Longrightarrow> fails_by x args w Unknown_task"
| status_state: "accepts x args w cfg se \<Longrightarrow> fault_of (ma_files w) = None \<Longrightarrow> ca_command args = Status rid
    \<Longrightarrow> \<not> run_id_matches rid \<or> stored_state (se_state_path se) (ma_files w) rid = Inl (StateError m)
    \<Longrightarrow> fails_by x args w Corrupt_state"
| bad_identifier: "accepts x args w cfg se \<Longrightarrow> fault_of (ma_files w) = None \<Longrightarrow> existing_run (ca_command args) = Some rid
    \<Longrightarrow> \<not> run_id_matches rid \<Longrightarrow> fails_by x args w Corrupt_state"
| locked: "accepts x args w cfg se \<Longrightarrow> fault_of (ma_files w) = None \<Longrightarrow> existing_run (ca_command args) = Some rid
    \<Longrightarrow> run_id_matches rid \<Longrightarrow> run_locked (en_kernel x) (se_state_path se) rid (ma_leases w)
    \<Longrightarrow> \<not> owner_cancelled (en_kernel x) (ma_leases w) \<Longrightarrow> fails_by x args w Run_busy"
| state: "accepts x args w cfg se \<Longrightarrow> fault_of (ma_files w) = None \<Longrightarrow> existing_run (ca_command args) = Some rid
    \<Longrightarrow> enter_run_lease (en_kernel x) (se_state_path se) rid w = (Inr (), w1)
    \<Longrightarrow> stored_state (se_state_path se) (ma_files w) rid = Inl (StateError m) \<Longrightarrow> fails_by x args w Corrupt_state"
| changed: "accepts x args w cfg se \<Longrightarrow> fault_of (ma_files w) = None \<Longrightarrow> existing_run (ca_command args) = Some rid
    \<Longrightarrow> enter_run_lease (en_kernel x) (se_state_path se) rid w = (Inr (), w1)
    \<Longrightarrow> stored_state (se_state_path se) (ma_files w) rid = Inr s \<Longrightarrow> st_configuration_digest s \<noteq> cf_digest cfg
    \<Longrightarrow> ca_command args \<noteq> Report rid \<Longrightarrow> ca_command args \<noteq> Resume rid True \<Longrightarrow> fails_by x args w Configuration_changed"
| approval: "accepts x args w cfg se \<Longrightarrow> fault_of (ma_files w) = None \<Longrightarrow> ca_command args = Approve rid wid by_whom
    \<Longrightarrow> enter_run_lease (en_kernel x) (se_state_path se) rid w = (Inr (), w1)
    \<Longrightarrow> stored_state (se_state_path se) (ma_files w) rid = Inr s \<Longrightarrow> st_configuration_digest s = cf_digest cfg
    \<Longrightarrow> fst (en_now x (ma_rest w)) = Inr t
    \<Longrightarrow> py_strip by_whom = [] \<or> map_of (st_work_items s) wid = None \<or> map_of (st_routes s) wid = None
    \<Longrightarrow> fails_by x args w Approval_required"

text \<open>Situations in which a command that only reads ends well.\<close>

inductive reads_well :: "'u externals \<Rightarrow> cli_args \<Rightarrow> 'u machine \<Rightarrow> bool" for x args w where
  status_run: "accepts x args w cfg se \<Longrightarrow> fault_of (ma_files w) = None \<Longrightarrow> ca_command args = Status rid
    \<Longrightarrow> run_id_matches rid \<Longrightarrow> stored_state (se_state_path se) (ma_files w) rid = Inr s \<Longrightarrow> reads_well x args w"
| visible: "accepts x args w cfg se \<Longrightarrow> ca_command args = Models
      \<or> (\<exists>project task prompt affected. ca_command args = Route project task prompt affected \<and> task \<in> set (dkeys (cf_tasks cfg)))
    \<Longrightarrow> fst (in_client (se_client se) (available_models (se_client se) (en_codex x)) w) = Inr ms
    \<Longrightarrow> models_visible cfg ms \<Longrightarrow> reads_well x args w"

lemma failures_end:
  assumes "fails_by x args w f"
  shows "ends_with x args w (documented_exit f)"
  using assms
proof cases
  case model
  then show ?thesis using account_exits [OF model(2,4)] by (auto simp del: documented_exit.simps)
next
  case task
  then show ?thesis using account_exits(2) [OF task(2,4,3)] by (simp del: documented_exit.simps)
qed (blast intro: refused_arguments refused_configuration status_exits(2) existing_run_exits approve_exits)+

lemma readings_end: "reads_well x args w \<Longrightarrow> ends_with x args w 0"
proof (induction rule: reads_well.induct)
  case (status_run cfg se rid s)
  then show ?case by (blast intro: status_exits(1))
next
  case (visible cfg se ms)
  from visible(2) show ?case
  proof (elim disjE exE conjE)
    assume "ca_command args = Models"
    then show ?thesis using account_exits(1) [OF visible(1,3)] visible(4) by simp
  next
    fix project task prompt affected
    assume "ca_command args = Route project task prompt affected" and "task \<in> set (dkeys (cf_tasks cfg))"
    then show ?thesis using account_exits(2) [OF visible(1,3), of project task prompt affected] visible(4)
      by (simp only: if_True if_False simp_thms)
  qed
qed

text \<open>
  C40. The exit codes are those of the table in \<open>docs/troubleshooting.md\<close>. Refused arguments and
  unusable configurations end with 2, an unknown task with 3, a model that the account does not
  list with 4, an approval that is refused with 7, a run identifier or snapshot that cannot be read
  with 12, a changed configuration that is not acknowledged with 13, a run that someone else holds
  with 15; readable runs, visible models and known tasks with 0. Every other failure
  ends with the code of the row of its class, its message on the standard error and nothing on the
  standard output; only an exception that is no \<open>GoalRouterError\<close> escapes.
\<close>

theorem exit_codes_are_documented:
  "(\<forall>f. fails_by x args w f \<longrightarrow> ends_with x args w (documented_exit f))
   \<and> (reads_well x args w \<longrightarrow> ends_with x args w 0)
   \<and> (case fst (main_body (program_ports x) args (en_environ x) w) of
        Inr out \<Rightarrow> fst (goalrouter x args w) = Inr (0, out, [])
      | Inl e \<Rightarrow> fst (goalrouter x args w) = (case failure_of e of
            Some f \<Rightarrow> Inr (documented_exit f, [], ''goalrouter: '' @ exn_str e @ nl)
          | None \<Rightarrow> Inl e))"
  using failures_end [of x args w] readings_end [of x args w]
  by (auto simp: goalrouter_def async_main_def documented_exit_code split: prod.split sum.split option.split)

text \<open>\<open>status\<close> on an empty disk, and on the disk with a run.\<close>

definition ex_status :: cli_args where
  "ex_status = \<lparr>ca_config = Some ex_root, ca_json = False, ca_auth_mode = None, ca_state_path = Some ex_root,
     ca_codex_bin = None, ca_command = Status ''r1''\<rparr>"

lemma ex_status_accepted: "\<exists>se. accepts ex_externals ex_status w ex_loaded se \<and> se_state_path se = ex_root"
proof -
  have "\<not> isl (compose_settings ex_loaded [] ex_status)" by code_simp
  then obtain se where se: "compose_settings ex_loaded [] ex_status = Inr se" by (cases "compose_settings ex_loaded [] ex_status") simp_all
  moreover have "se_state_path se = ex_root"
    using se by (auto simp: compose_settings_def rbind_eq_Inr_iff ex_status_def split: if_splits)
  moreover have "validate_arguments ex_status = Inr ()" by (simp add: validate_arguments_def ex_status_def)
  moreover have "load_config (program_ports ex_externals) (config_path ex_status []) [] w = (Inr ex_loaded, w)"
    using ex_load by (simp add: load_config_def program_ports_def ex_externals_def config_path_def ex_status_def nonempty_def)
  ultimately show ?thesis by (auto simp: accepted_def ex_externals_def)
qed

lemma exit_codes_are_documented_witness:
  "ends_with ex_externals ex_status (ex_machine (ex_disk (\<lambda>_. None) [])) 12
   \<and> ends_with ex_externals ex_status (ex_machine (ex_disk [state_path ex_root ''r1'' \<mapsto> state_text (ex_state Required)] [])) 0"
proof -
  let ?empty = "ex_machine (ex_disk (\<lambda>_. None) [])"
  let ?full = "ex_machine (ex_disk [state_path ex_root ''r1'' \<mapsto> state_text (ex_state Required)] [])"
  have faults: "fault_of (ma_files ?empty) = None" "fault_of (ma_files ?full) = None"
    by (simp_all add: ex_machine_def ex_in_disk(3))
  have command: "ca_command ex_status = Status ''r1''" by (simp add: ex_status_def)
  obtain se where se: "accepts ex_externals ex_status ?empty ex_loaded se" "se_state_path se = ex_root"
    using ex_status_accepted by blast
  have "\<exists>m. stored_state (se_state_path se) (ma_files ?empty) ''r1'' = Inl (StateError m)"
    by (simp add: se(2) stored_state_def ex_machine_def ex_in_disk(2))
  then have "fails_by ex_externals ex_status ?empty Corrupt_state"
    using fails_by.status_state [OF se(1) faults(1) command] by blast
  then have failed: "ends_with ex_externals ex_status ?empty (documented_exit Corrupt_state)"
    by (rule conjunct1 [OF exit_codes_are_documented, rule_format])
  obtain se' where se': "accepts ex_externals ex_status ?full ex_loaded se'" "se_state_path se' = ex_root"
    using ex_status_accepted by blast
  have "stored_state (se_state_path se') (ma_files ?full) ''r1'' = Inr (canonical (ex_state Required))"
    by (simp add: se'(2) stored_state_def ex_machine_def ex_in_disk(2) decode_state_text [OF ex_storable])
  then have "reads_well ex_externals ex_status ?full"
    by (rule reads_well.status_run [OF se'(1) faults(2) command ex_run_id_matches])
  then have "ends_with ex_externals ex_status ?full 0"
    by (rule conjunct1 [OF conjunct2 [OF exit_codes_are_documented], rule_format])
  with failed show ?thesis by simp
qed

end
