(* ===== verification/Spec2Isabelle.thy ===== *)
theory Spec2Isabelle
  imports Policy_Properties Store_Properties Run_Properties Lease_Properties Reporting Cli_Properties Inspection_Example
    Composed_Leases Composed_Runs Guarded_Runs Exit_Codes
begin

text \<open>
  GoalRouter (\<open>src/src/goalrouter\<close>) routes local engineering work to Codex models. A YAML
  configuration names tasks, model aliases, matching rules and hard-risk rules. A use case
  either runs one explicit task or asks a planner model for a list of work items; every item
  gets a route (model, effort, sandbox, approval), the scheduler runs the items in dependency
  order through the Codex SDK, each result is a checkpoint in the run store, approvals bind one
  item and its route, leases keep two processes from the same run or project, and an objective
  run ends with an independent completion review.

  This library is a shallow embedding of that program. Fallible code returns
  \<open>'a result = exn + 'a\<close> with one constructor of \<open>exn\<close> for each exception that can be seen;
  code with effects is \<open>('w, 'a) eff = 'w => 'a result * 'w\<close>, where the world \<open>'w\<close> keeps what
  was done before an exception. Code outside the repository (PyYAML, jsonschema, SHA-256, the
  OpenAI SDK, the kernel, clocks) is a field of a record of ports, so the theorems
  hold whatever it answers unless a hypothesis says more.
\<close>

text \<open>
  Theories and sources.

  \<^item> \<open>Prelude\<close>, \<open>Py_Text\<close>, \<open>Py_Path\<close>, \<open>Py_Float\<close>, \<open>Py_Time\<close>, \<open>Fnmatch\<close>: the parts of Python the
    program uses: results and effects, dictionaries as association lists in insertion order,
    string functions, pure paths, decimal floats, aware and naive times, \<open>fnmatch\<close>.
  \<^item> \<open>Json\<close>, \<open>Json_Roundtrip\<close>: \<open>json.dumps\<close> with sorted keys and \<open>json.loads\<close>, and the proof that
    the second undoes the first.
  \<^item> \<open>Errors\<close>: \<open>errors.py\<close> with the exit codes, and \<open>run_ids.py\<close>.
  \<^item> \<open>Domain\<close>, \<open>Domain_Json\<close>, \<open>Domain_Roundtrip\<close>: \<open>domain.py\<close>: a record for each dataclass, a
    datatype for each enum, \<open>to_dict\<close> and \<open>from_dict\<close> and their round trip.
  \<^item> \<open>Config\<close>: \<open>config.py\<close>, from the bytes of the file to a \<open>router_config\<close>; \<open>config_ok\<close> is what
    validation establishes.
  \<^item> \<open>Routing\<close>: \<open>routing.py\<close>: task selection, hard-risk floors, the route, the model inventory.
  \<^item> \<open>Approvals\<close>: \<open>approvals.py\<close>: fingerprints, \<open>approve\<close>, \<open>require_dispatchable\<close>.
  \<^item> \<open>File_System\<close>, \<open>Store\<close>: a file system with a fault and a crash point at each primitive, and
    \<open>storage/json_store.py\<close> over it: redaction, atomic replacement, the append-only event log.
  \<^item> \<open>Ports\<close>: the locale \<open>run_store\<close> of the laws of \<open>RunStoreProtocol\<close>, interpreted on the JSON store.
    \<open>Store_Moments\<close>: what each store operation does to one file at every moment.
  \<^item> \<open>Codex_Sdk\<close>: \<open>sdk/codex.py\<close>: authentication, staging of session files, turns, the mapping of
    SDK failures to the program's errors.
  \<^item> \<open>Scheduler\<close>: \<open>scheduler.py\<close>: \<open>run_ready\<close> and all its helpers. A call either succeeds, fails or
    is cancelled; the task group of a read batch is a port. \<open>Scheduler_Invariants\<close> has the locale
    \<open>client_contract\<close> of the laws of the client and, in \<open>watched_scheduler\<close> and \<open>watched_run\<close>, one pass
    through \<open>run_ready\<close> with Hoare rules, for any invariant of the world that the collaborators keep;
    \<open>Scheduler_Checkpoints\<close> has the locale \<open>checkpointing\<close>: the state in hand is the one saved last.
    \<open>Scheduler_Trace\<close> is the record of leases and calls, \<open>Scheduler_Liveness\<close> the runs over
    collaborators that answer.
  \<^item> \<open>Planner\<close>: \<open>planner.py\<close>: the prompt, the parse and validation of the answer, the single
    correction, the search for dependency cycles.
  \<^item> \<open>Application\<close>: \<open>application.py\<close>: the use cases plan, run, approve, resume, status, report.
  \<^item> \<open>Descriptors\<close>, \<open>Leases\<close>: the tables of open descriptors and locks, and \<open>locking.py\<close> with
    \<open>async_tools.py\<close> over them, including cancellation while a lease is taken or released.
  \<^item> \<open>Git_Evidence\<close>: the parsers of \<open>repository.py\<close> for what Git prints. \<open>Processes\<close>: child processes,
    bounded capture of their output, killing and reaping. \<open>Worktree\<close>: \<open>_collect_dirty_paths\<close> down
    to the system calls, over a tree that other processes may change between any two calls;
    \<open>Hash_Helper\<close>: \<open>hash_helper.py\<close> and \<open>LocalBlobHasher\<close>.
  \<^item> \<open>Inspection\<close>: the rest of \<open>repository.py\<close>: finding the repository, instruction files, pins, the
    Git commands and \<open>LocalRepositoryInspector.inspect\<close> with its time limits.
  \<^item> \<open>Reporting\<close>: \<open>reporting.py\<close>. \<open>Cli\<close>: \<open>cli.py\<close> after the parse of the arguments, and
    \<open>build_info.py\<close>. \<open>Arguments\<close>: the grammar of \<open>build_parser\<close>, what \<open>argparse\<close> of Python 3.14 makes
    of an argument list under it (abbreviations, \<open>=\<close>, interleaving, groups, subcommands), and the
    arguments read from the namespace.
  \<^item> \<open>Composition\<close>: \<open>_compose_application\<close> of \<open>cli.py\<close> with the constructors it calls: one \<open>machine\<close>
    has the files of the store, the tables of descriptors and locks, the descriptors of the
    inspector, the flag of the Codex client and the rest of the world, and each collaborator works
    on its part (\<open>zoom\<close>). \<open>enter_lease\<close> and \<open>exit_lease\<close> are the two halves of \<open>_exclusive_lease\<close>
    around its \<open>yield\<close>; \<open>main_program\<close> goes from the argument list to the exit status. \<open>Composition_Example\<close> is a machine
    with a run on its disk.
  \<^item> \<open>Examples\<close>: concrete configurations, runs and ports at which the theorems are applied.
\<close>

text \<open>
  What the lemmas show.

  \<^item> \<open>Policy_Properties\<close>: loaded configurations are consistent; routing succeeds exactly for known
    tasks and picks the least model above all floors; approval is only tightened; dispatch needs
    an approval of this run with the current digest and fingerprint; an approval binds the item
    and its route up to collisions of SHA-256.
  \<^item> \<open>Store_Properties\<close>: the text of a run state determines it; load returns what was saved; the last save of a
    run is what is read; a save is atomic at every crash point; events are only appended; run identifiers do not escape the
    root; no secret is stored; a changed configuration is refused.
  \<^item> \<open>Scheduler_Properties\<close>, \<open>Scheduler_Liveness\<close>: finished results are kept, new ones are earned,
    the returned state is the one saved last, write-capable items run alone under the project
    lease, read batches are bounded, the loop bound suffices, and runs without approval gates end.
  \<^item> \<open>Planner_Properties\<close>: a returned plan is valid whatever the model answers; the cycle search is
    equivalent to acyclicity of the dependency relation.
  \<^item> \<open>Application_Properties\<close>, \<open>Run_Properties\<close>: the observer \<open>guarded\<close> of the run lease; planned runs
    are well-formed; completed objective runs have passed their review; adopting a configuration
    re-routes exactly the unfinished items.
  \<^item> \<open>Lease_Properties\<close>: leases leave no descriptor or lock behind, are exclusive and raise only known
    errors, for any faults and cancellations.
  \<^item> \<open>Git_Evidence\<close>: accepted evidence is safe, and what Git prints is read back.
    \<open>Worktree_Properties\<close>, \<open>Hash_Properties\<close>: the comparison with the work tree gives back every
    descriptor; the helper answers the digest of what a descriptor is open on.
    \<open>Worktree_Exactness\<close>, \<open>Dirty_Paths\<close>: over a tree that holds still exactly the dirty paths are
    reported; a cancelled worker leaks.
  \<^item> \<open>Inspection_Properties\<close>, \<open>Inspection_Evidence\<close>, \<open>Inspection_Errors\<close>, \<open>Inspection_Exactness\<close>: an
    inspection whose worker-thread operations are not cancelled or timed out leaves no descriptor open
    (but for the root when the index cannot be pinned); an inspection returns only safe contexts, raises only known errors, and its dirty paths are exact from the output of
    Git to the context. \<open>Inspection_Example\<close> evaluates a whole inspection of a small repository.
  \<^item> \<open>Reporting\<close>, \<open>Cli_Properties\<close>: displayed names are unambiguous; nothing runs before validation.
  \<^item> \<open>Arguments_Properties\<close>: accepted command lines give every attribute that is read, with the declared
    types; every set of arguments can be written as a command line that is read back.
  \<^item> \<open>Composed_Leases\<close>: the whole program gives back every lease. \<open>Composed_Runs\<close>: a run that a use
    case returns is what is on disk, and resuming loses no finished result, at whatever moment the
    process dies. \<open>Guarded_Runs\<close>: every command of the composed program writes a run only under the
    lease of that run, given that the snapshot it is to load names that run, which \<open>load\<close> does not
    check. \<open>Exit_Codes\<close>: the table of exit codes in \<open>docs/troubleshooting.md\<close>, the situations that end
    with each code, and the code of every exception.

  Interfaces are locales, interpreted on the model: \<open>client_contract\<close> on the adapter of \<open>Codex_Sdk\<close>
  and used by the scheduler, \<open>run_store\<close> on the JSON store, \<open>checkpointing\<close> on the traced and on the
  composed scheduler, \<open>watched_scheduler\<close> on any collaborators and on the composed ones, \<open>lease\<close> of
  \<open>Composed_Leases\<close> on the leases of the project and of the run, from where it goes through
  \<open>leased_scheduler\<close> and \<open>leased_application\<close> to the program; \<open>app_scheduler\<close> of \<open>Run_Properties\<close> on the scheduler's
  \<open>run_ready\<close> and used by the use cases, \<open>opener\<close> of \<open>Lease_Properties\<close> on the two ways of opening a
  lockable file and used by both leases; \<open>descriptor_keeper\<close> of \<open>Worktree_Properties\<close>, extended by
  \<open>blob_hasher\<close> of \<open>Hash_Properties\<close>, is what the comparison needs of \<open>BlobHasherProtocol\<close>, and both
  are interpreted on \<open>LocalBlobHasher\<close> with the helper process.
\<close>

text \<open>
  Bounds and fuel. \<open>run_loop\<close> has the bound of the code, \<open>len(state.work_items)\<close> rounds; every round
  that continues finishes an item, and \<open>run_leaves_nothing_dispatchable\<close> shows that nothing could
  still be dispatched when it is used up. The cycle search \<open>visit\<close> terminates by the number of
  identifiers that are not on the path. The JSON parser has the length of its input as fuel, and
  each call consumes a character. The planner corrects at most once. The helper reads and writes
  until nothing remains, in pieces of any size, and hashes at most 64 descriptors; batches of 64
  take the index entries until none is left. Output of a child beyond 8 MiB is refused, and \<open>int\<close>
  refuses more than 4300 digits, so \<open>room_for_names\<close> bounds the number of open descriptors by that
  many digits.
\<close>

text \<open>
  Not modelled. Characters are Latin-1 (HOL's \<open>char\<close>), so surrogates and larger code points are
  out of reach, and case folding is that of Latin-1. A float is the decimal of its shortest
  representation; float arithmetic occurs only as parameters (\<open>float_format\<close>, the clock). Texts
  of foreign exceptions and exception notes are parameters or left out. \<open>datetime.fromisoformat\<close>
  accepts the format that \<open>isoformat\<close> writes. Cancellation by \<open>asyncio\<close> is modelled in the leases,
  in the worker threads of the inspection and as an outcome of SDK calls, not between every two
  statements: an operation of the run store is one step, so the thread of \<open>asyncio.to_thread\<close> does
  not go on after its owner was cancelled, and the children of a task group run one after the other.
  The recursion limit is not modelled. \<open>Path.resolve\<close> is total where the planner checks affected
  paths. Of \<open>argparse\<close> the help and error texts are not modelled, argument lists with \<open>--\<close> are a
  parameter, and so is which arguments look like negative numbers. Printing to the terminal is
  outside the model. The
  parts of the machine are separate: the inspector does not see the files of the run store, and the
  leases have descriptors of their own. Of the inspection, name resolution, \<open>Path.walk\<close>, the UTF-8
  decoders and the hash functions are parameters, a walk and the bytes of an instruction file are
  taken at one moment, and the four concurrent Git commands are run one after the other; notes on
  exceptions are left out.
\<close>

end
